(* ===== verification/Prelude.thy ===== *)
theory Prelude
  imports Complex_Main "HOL-Library.Sublist"
begin

text \<open>
  The values of the source language and the facts every component shares.

  \<^item> A JavaScript string is its list of UTF-16 code units, \<open>js_string\<close>: \<open>length\<close>
    is the source's \<open>.length\<close>, \<open>take\<close> and \<open>drop\<close> are \<open>.slice\<close>. \<open>js ''abc''\<close> is the
    literal \<open>"abc"\<close>.
  \<^item> A JavaScript number is \<open>js_number\<close>: a finite value, one of the infinities or NaN.
    Finite values are kept as exact rationals; the rounding of IEEE addition is not modelled.
  \<^item> A function that throws or returns a failure object returns a sum: \<open>Inl\<close> the failure.
  \<^item> A JavaScript \<open>Map\<close> iterates in insertion order, so it is an association list with
    distinct keys: \<open>map_get\<close>, \<open>map_set\<close>, \<open>map_delete\<close>.
\<close>

section \<open>Proof collections\<close>

named_theorems js_simps \<open>evaluation of literals, character classes and lookups\<close>
named_theorems map_laws \<open>laws of the insertion-ordered map\<close>

section \<open>Strings\<close>

type_synonym js_string = "nat list"

definition js :: "string \<Rightarrow> js_string" where
  "js s = map of_char s"

lemma js_eq_iff [simp]: "js s = js t \<longleftrightarrow> s = t"
proof -
  have "inj (of_char :: char \<Rightarrow> nat)"
    by (rule injI) (simp add: of_char_eq_iff)
  then show ?thesis
    by (simp add: js_def inj_map_eq_map)
qed

lemma js_Nil [simp]: "js [] = []"
  by (simp add: js_def)

lemma js_eq_Nil_iff [simp]: "js s = [] \<longleftrightarrow> s = []" "[] = js s \<longleftrightarrow> s = []"
  by (simp_all add: js_def)

lemma length_js [simp]: "length (js s) = length s"
  by (simp add: js_def)

lemma take_js [simp]: "take n (js s) = js (take n s)"
  by (simp add: js_def take_map)

lemma drop_js [simp]: "drop n (js s) = js (drop n s)"
  by (simp add: js_def drop_map)

lemma js_append [simp]: "js s @ js t = js (s @ t)"
  by (simp add: js_def)

lemma js_Cons: "js (c # s) = of_char c # js s"
  by (simp add: js_def)

text \<open>\<open>s.startsWith(p)\<close>, \<open>a.includes(x)\<close> on arrays is \<open>x \<in> set a\<close>.\<close>

definition startsWith :: "'a list \<Rightarrow> 'a list \<Rightarrow> bool" where
  "startsWith s p = (take (length p) s = p)"

lemma startsWith_js [simp]: "startsWith (js s) (js p) = startsWith s p"
  by (simp add: startsWith_def)

lemma startsWith_iff_prefix: "startsWith s p \<longleftrightarrow> prefix p s"
  unfolding startsWith_def prefix_def by (metis append_eq_conv_conj append_take_drop_id)

lemma startsWith_append [simp]: "startsWith (p @ r) p"
  by (simp add: startsWith_def)

text \<open>
  \<open>\s\<close> of a regular expression and the characters \<open>String.prototype.trim\<close> removes:
  the white space and line terminators of ECMAScript.
\<close>

definition isWhitespace :: "nat \<Rightarrow> bool" where
  "isWhitespace c \<longleftrightarrow>
     9 \<le> c \<and> c \<le> 13 \<or> c = 32 \<or> c = 160 \<or> c = 5760 \<or> 8192 \<le> c \<and> c \<le> 8202 \<or>
     c = 8232 \<or> c = 8233 \<or> c = 8239 \<or> c = 8287 \<or> c = 12288 \<or> c = 65279"

definition trim :: "js_string \<Rightarrow> js_string" where
  "trim s = rev (dropWhile isWhitespace (rev (dropWhile isWhitespace s)))"

text \<open>ASCII character classes of the source's patterns.\<close>

definition isDigit :: "nat \<Rightarrow> bool" where
  "isDigit c \<longleftrightarrow> 48 \<le> c \<and> c \<le> 57"

definition isLower :: "nat \<Rightarrow> bool" where
  "isLower c \<longleftrightarrow> 97 \<le> c \<and> c \<le> 122"

definition isUpper :: "nat \<Rightarrow> bool" where
  "isUpper c \<longleftrightarrow> 65 \<le> c \<and> c \<le> 90"

definition isLetter :: "nat \<Rightarrow> bool" where
  "isLetter c \<longleftrightarrow> isLower c \<or> isUpper c"

definition isControl :: "nat \<Rightarrow> bool" where
  "isControl c \<longleftrightarrow> c \<le> 31 \<or> c = 127"

lemmas char_class_defs = isWhitespace_def isDigit_def isLower_def isUpper_def isLetter_def isControl_def

lemma list_all_js [simp]: "list_all P (js s) = list_all (P \<circ> of_char) s"
  by (simp add: js_def list_all_iff)

lemma set_js: "set (js s) = of_char ` set s"
  by (simp add: js_def)

subsection \<open>Trimming\<close>

lemma hd_dropWhile_not: "dropWhile P s \<noteq> [] \<Longrightarrow> \<not> P (hd (dropWhile P s))"
  by (rule hd_dropWhile)

lemma dropWhile_fixed: "(s = [] \<or> \<not> P (hd s)) \<Longrightarrow> dropWhile P s = s"
  by (cases s) auto

lemma trim_ends:
  assumes "trim s \<noteq> []"
  shows "\<not> isWhitespace (hd (trim s))" and "\<not> isWhitespace (last (trim s))"
proof -
  let ?d = "dropWhile isWhitespace s"
  let ?t = "dropWhile isWhitespace (rev ?d)"
  from assms have t: "?t \<noteq> []" by (simp add: trim_def)
  from hd_dropWhile_not [OF t] show "\<not> isWhitespace (last (trim s))"
    by (simp add: trim_def last_rev)
  from t have d: "?d \<noteq> []" by (metis dropWhile.simps(1) rev.simps(1))
  obtain p where p: "rev ?d = p @ ?t"
    using takeWhile_dropWhile_id [of isWhitespace "rev ?d"] by metis
  then have "?d = rev ?t @ rev p" by (metis rev_append rev_rev_ident)
  with t have "hd ?d = hd (rev ?t)" by (metis hd_append2 rev_is_Nil_conv)
  with hd_dropWhile_not [OF d] show "\<not> isWhitespace (hd (trim s))"
    by (simp add: trim_def)
qed

lemma trim_fixed:
  assumes "s = [] \<or> \<not> isWhitespace (hd s) \<and> \<not> isWhitespace (last s)"
  shows "trim s = s"
proof -
  from assms have 1: "dropWhile isWhitespace s = s"
    by (intro dropWhile_fixed) blast
  from assms have 2: "dropWhile isWhitespace (rev s) = rev s"
    by (intro dropWhile_fixed) (auto simp: hd_rev)
  from 1 2 show ?thesis by (simp add: trim_def)
qed

lemma trim_idem [simp]: "trim (trim s) = trim s"
  using trim_ends [of s] trim_fixed [of "trim s"] by blast

lemma set_trim: "set (trim s) \<subseteq> set s"
proof
  fix x
  assume "x \<in> set (trim s)"
  then have "x \<in> set (dropWhile isWhitespace (rev (dropWhile isWhitespace s)))"
    by (simp add: trim_def)
  then have "x \<in> set (rev (dropWhile isWhitespace s))"
    by (blast dest: set_dropWhileD)
  then show "x \<in> set s"
    by (auto dest: set_dropWhileD)
qed

section \<open>Numbers\<close>

datatype js_number = NaN | PosInfinity | NegInfinity | Finite rat

definition maxSafeInteger :: rat where
  "maxSafeInteger = 9007199254740991"

definition isFiniteNumber :: "js_number \<Rightarrow> bool" where
  "isFiniteNumber n = (case n of Finite _ \<Rightarrow> True | _ \<Rightarrow> False)"

definition isInteger :: "js_number \<Rightarrow> bool" where
  "isInteger n = (case n of Finite r \<Rightarrow> of_int \<lfloor>r\<rfloor> = r | _ \<Rightarrow> False)"

definition isSafeInteger :: "js_number \<Rightarrow> bool" where
  "isSafeInteger n =
     (case n of Finite r \<Rightarrow> of_int \<lfloor>r\<rfloor> = r \<and> - maxSafeInteger \<le> r \<and> r \<le> maxSafeInteger
      | _ \<Rightarrow> False)"

text \<open>The relational operators: every comparison with NaN is false.\<close>

definition num_less :: "js_number \<Rightarrow> js_number \<Rightarrow> bool" where
  "num_less a b =
     (case (a, b) of
        (Finite x, Finite y) \<Rightarrow> x < y
      | (NegInfinity, Finite _) \<Rightarrow> True
      | (Finite _, PosInfinity) \<Rightarrow> True
      | (NegInfinity, PosInfinity) \<Rightarrow> True
      | _ \<Rightarrow> False)"

lemmas js_number_defs = isFiniteNumber_def isInteger_def isSafeInteger_def num_less_def

lemma isSafeInteger_iff:
  "isSafeInteger n \<longleftrightarrow>
     (\<exists>k::int. n = Finite (of_int k) \<and> \<bar>k\<bar> \<le> 9007199254740991)"
proof (cases n)
  case (Finite r)
  have le: "(of_int k :: rat) \<le> 9007199254740991 \<longleftrightarrow> k \<le> 9007199254740991" for k :: int
    using of_int_le_iff [of k 9007199254740991, where 'a = rat] by simp
  have ge: "(- 9007199254740991 :: rat) \<le> of_int k \<longleftrightarrow> - 9007199254740991 \<le> k" for k :: int
    using of_int_le_iff [of "- 9007199254740991" k, where 'a = rat] by simp
  show ?thesis
  proof
    assume "isSafeInteger n"
    with Finite have r: "of_int \<lfloor>r\<rfloor> = r" and "- 9007199254740991 \<le> r" "r \<le> 9007199254740991"
      by (simp_all add: isSafeInteger_def maxSafeInteger_def)
    then obtain k :: int where k: "r = of_int k" by metis
    with \<open>- 9007199254740991 \<le> r\<close> \<open>r \<le> 9007199254740991\<close> have "\<bar>k\<bar> \<le> 9007199254740991"
      unfolding k le ge by simp
    with Finite k show "\<exists>k::int. n = Finite (of_int k) \<and> \<bar>k\<bar> \<le> 9007199254740991"
      by blast
  next
    assume "\<exists>k::int. n = Finite (of_int k) \<and> \<bar>k\<bar> \<le> 9007199254740991"
    then show "isSafeInteger n"
      using le ge by (auto simp: isSafeInteger_def maxSafeInteger_def abs_le_iff)
  qed
qed (auto simp: isSafeInteger_def)

section \<open>Insertion-ordered maps\<close>

type_synonym ('k, 'v) js_map = "('k \<times> 'v) list"

definition map_get :: "('k, 'v) js_map \<Rightarrow> 'k \<Rightarrow> 'v option" where
  "map_get m k = map_of m k"

text \<open>\<open>set\<close> keeps the position of a key that is present and appends a new key.\<close>

primrec map_set :: "('k, 'v) js_map \<Rightarrow> 'k \<Rightarrow> 'v \<Rightarrow> ('k, 'v) js_map" where
  "map_set [] k v = [(k, v)]"
| "map_set (p # m) k v = (if fst p = k then (k, v) # m else p # map_set m k v)"

definition map_delete :: "('k, 'v) js_map \<Rightarrow> 'k \<Rightarrow> ('k, 'v) js_map" where
  "map_delete m k = filter (\<lambda>p. fst p \<noteq> k) m"

definition map_keys :: "('k, 'v) js_map \<Rightarrow> 'k list" where
  "map_keys m = map fst m"

definition map_size :: "('k, 'v) js_map \<Rightarrow> nat" where
  "map_size m = length m"

definition map_ok :: "('k, 'v) js_map \<Rightarrow> bool" where
  "map_ok m \<longleftrightarrow> distinct (map fst m)"

lemma map_get_Nil [simp]: "map_get [] k = None"
  by (simp add: map_get_def)

lemma map_get_Cons [simp]: "map_get (p # m) k = (if fst p = k then Some (snd p) else map_get m k)"
  by (simp add: map_get_def)

lemma map_ok_Nil [simp]: "map_ok []"
  by (simp add: map_ok_def)

lemma map_get_set [map_laws]: "map_get (map_set m k v) j = (if j = k then Some v else map_get m j)"
  by (induction m) auto

lemma map_get_delete [map_laws]: "map_get (map_delete m k) j = (if j = k then None else map_get m j)"
  by (induction m) (auto simp: map_delete_def)

lemma map_get_eq_None_iff: "map_get m k = None \<longleftrightarrow> k \<notin> set (map_keys m)"
  by (simp add: map_get_def map_keys_def map_of_eq_None_iff)

lemma map_keys_set:
  "map_keys (map_set m k v) = (if k \<in> set (map_keys m) then map_keys m else map_keys m @ [k])"
  by (induction m) (auto simp: map_keys_def)

lemma map_keys_delete: "map_keys (map_delete m k) = filter (\<lambda>j. j \<noteq> k) (map_keys m)"
  by (simp add: map_keys_def map_delete_def filter_map comp_def)

lemma map_ok_set [map_laws]: "map_ok m \<Longrightarrow> map_ok (map_set m k v)"
  using map_keys_set [of m k v] by (auto simp: map_ok_def map_keys_def split: if_splits)

lemma map_ok_delete [map_laws]: "map_ok m \<Longrightarrow> map_ok (map_delete m k)"
  using map_keys_delete [of m k] by (auto simp: map_ok_def map_keys_def)

lemma map_size_set [map_laws]:
  "map_size (map_set m k v) = (if map_get m k = None then Suc (map_size m) else map_size m)"
  by (induction m) (auto simp: map_size_def)

lemma map_size_delete [map_laws]:
  "map_ok m \<Longrightarrow> map_size (map_delete m k) = (if map_get m k = None then map_size m else map_size m - 1)"
proof (induction m)
  case (Cons p m)
  have absent: "map_delete m k = m" if "k \<notin> fst ` set m"
    using that by (force simp: map_delete_def filter_id_conv)
  show ?case
  proof (cases "fst p = k")
    case True
    with Cons.prems have "k \<notin> fst ` set m" by (auto simp: map_ok_def)
    with True absent show ?thesis
      by (simp add: map_delete_def map_size_def)
  next
    case False
    with Cons.prems have ok: "map_ok m" by (auto simp: map_ok_def)
    have pos: "0 < map_size m" if "map_get m k = Some v" for v
      using that by (cases m) (auto simp: map_size_def)
    from Cons.IH [OF ok] False show ?thesis
      by (cases "map_get m k") (auto simp: map_delete_def map_size_def dest: pos)
  qed
qed (simp add: map_delete_def map_size_def)

lemma map_size_Nil [simp]: "map_size [] = 0"
  by (simp add: map_size_def)

lemma map_set_absent: "map_get m k = None \<Longrightarrow> map_set m k v = m @ [(k, v)]"
  by (induction m) auto

lemma map_delete_split:
  assumes "map_ok m" "map_get m k = Some v"
  obtains xs ys where "m = xs @ (k, v) # ys" "map_delete m k = xs @ ys"
proof -
  from assms(2) have "(k, v) \<in> set m" by (simp add: map_get_def map_of_SomeD)
  then obtain xs ys where m: "m = xs @ (k, v) # ys" by (meson split_list)
  with assms(1) have "\<forall>p \<in> set xs \<union> set ys. fst p \<noteq> k" by (force simp: map_ok_def)
  with m have "map_delete m k = xs @ ys" by (simp add: map_delete_def filter_id_conv)
  with m show thesis by (rule that)
qed

lemma map_get_set_mem: "map_ok m \<Longrightarrow> (k, v) \<in> set m \<longleftrightarrow> map_get m k = Some v"
  by (simp add: map_ok_def map_get_def)

lemma map_size_0_iff [simp]: "map_size m = 0 \<longleftrightarrow> m = []"
  by (simp add: map_size_def)

section \<open>Calls that fail\<close>

text \<open>A call whose failure is passed on.\<close>

definition andThen :: "'e + 'a \<Rightarrow> ('a \<Rightarrow> 'e + 'b) \<Rightarrow> 'e + 'b" where
  "andThen r f = (case r of Inl e \<Rightarrow> Inl e | Inr x \<Rightarrow> f x)"

lemma andThen_simps [simp]: "andThen (Inl e) f = Inl e" "andThen (Inr x) f = f x"
  by (simp_all add: andThen_def)

lemma andThen_Inr_iff [simp]: "andThen r f = Inr y \<longleftrightarrow> (\<exists>x. r = Inr x \<and> f x = Inr y)"
  by (cases r) simp_all

lemma andThen_cong [fundef_cong]:
  "r = r' \<Longrightarrow> (\<And>x. r' = Inr x \<Longrightarrow> f x = g x) \<Longrightarrow> andThen r f = andThen r' g"
  by (cases r') simp_all

text \<open>\<open>if (c) throw e;\<close>\<close>

definition throwIf :: "bool \<Rightarrow> 'e \<Rightarrow> 'e + unit" where
  "throwIf c e = (if c then Inl e else Inr ())"

lemma throwIf_Inr [simp]: "throwIf c e = Inr u \<longleftrightarrow> \<not> c"
  by (simp add: throwIf_def)

lemma throwIf_Inl [simp]: "throwIf c e = Inl d \<longleftrightarrow> c \<and> d = e"
  by (auto simp: throwIf_def)

lemma throwIf_simps [simp]: "throwIf False e = Inr ()" "throwIf True e = Inl e"
  by (simp_all add: throwIf_def)

text \<open>\<open>rows.map(f)\<close> where \<open>f\<close> may throw.\<close>

fun mapAll :: "('a \<Rightarrow> 'e + 'b) \<Rightarrow> 'a list \<Rightarrow> 'e + 'b list" where
  "mapAll f [] = Inr []"
| "mapAll f (x # xs) = andThen (f x) (\<lambda>y. andThen (mapAll f xs) (\<lambda>ys. Inr (y # ys)))"

lemma mapAll_Inr: "mapAll f xs = Inr ys \<longleftrightarrow> list_all2 (\<lambda>x y. f x = Inr y) xs ys"
  by (induction xs arbitrary: ys) (auto simp: list_all2_Cons1)

lemma mapAll_map: "(\<And>x. x \<in> set xs \<Longrightarrow> f x = Inr (g x)) \<Longrightarrow> mapAll f xs = Inr (map g xs)"
  by (induction xs) auto

end
