(* ===== verification/Identifiers.thy ===== *)
theory Identifiers
  imports Prelude
begin

text \<open>
  \<open>packages/core/src/identifiers.ts\<close> without its timestamps (\<open>Iso_Timestamp\<close>), and the
  branded zod schema of \<open>packages/contracts/src/scalars.ts\<close> that every boundary builds from
  such a parser. A parser returns \<open>Inl code\<close> where the source returns
  \<open>{ ok: false, code, message }\<close>; the message is a constant of the parser and the code.
  The locales \<open>branded_parser\<close> and \<open>exact_parser\<close> state what the boundaries rely on: parsing
  an accepted value again accepts it unchanged.
\<close>

section \<open>Validation results\<close>

datatype issue_code =
  Empty_value | Too_short | Too_long | Invalid_format | Not_absolute | Not_integer
| Unsafe_integer | Negative_value

type_synonym 'a validation = "issue_code + 'a"

section \<open>The parser interface\<close>

locale branded_parser =
  fixes parse :: "'i \<Rightarrow> 'e + 'i"
  assumes stable: "parse x = Inr y \<Longrightarrow> parse y = Inr y"
begin

lemma parse_parse: "(case parse x of Inl e \<Rightarrow> Inl e | Inr y \<Rightarrow> parse y) = parse x"
  by (cases "parse x") (auto dest: stable)

lemma fixed_iff: "parse y = Inr y \<longleftrightarrow> (\<exists>x. parse x = Inr y)"
  by (auto dest: stable)

end

locale exact_parser =
  fixes parse :: "'i \<Rightarrow> 'e + 'i"
  assumes exact: "parse x = Inr y \<Longrightarrow> y = x"
begin

lemma accepted_iff: "(\<exists>y. parse x = Inr y) \<longleftrightarrow> parse x = Inr x"
  by (auto dest: exact)

end

sublocale exact_parser \<subseteq> branded_parser parse
proof unfold_locales
  fix x y
  assume "parse x = Inr y"
  with exact [OF this] show "parse y = Inr y" by simp
qed

text \<open>
  \<open>brandedStringSchema\<close>: the refinement parses and adds an issue on failure, the transform
  parses again and returns the parsed value. \<open>safeParse\<close> gives \<open>None\<close> for a failure; the
  input \<open>None\<close> is \<open>undefined\<close>, which \<open>z.string()\<close> refuses.
\<close>

definition brandedStringSchema :: "('i \<Rightarrow> 'e + 'i) \<Rightarrow> 'i option \<Rightarrow> 'i option" where
  "brandedStringSchema parser candidate =
     (case candidate of
        None \<Rightarrow> None
      | Some value \<Rightarrow>
          (case parser value of
             Inl _ \<Rightarrow> None
           | Inr _ \<Rightarrow> (case parser value of Inl _ \<Rightarrow> None | Inr result \<Rightarrow> Some result)))"

lemma brandedStringSchema_iff:
  "brandedStringSchema parser candidate = Some y \<longleftrightarrow>
     (\<exists>x. candidate = Some x \<and> parser x = Inr y)"
  by (auto simp: brandedStringSchema_def split: option.splits sum.splits)

lemma brandedStringSchema_None:
  "brandedStringSchema parser candidate = None \<longleftrightarrow>
     (\<forall>x y. candidate = Some x \<longrightarrow> parser x \<noteq> Inr y)"
  by (auto simp: brandedStringSchema_def split: option.splits sum.splits)

context branded_parser
begin

lemma schema_stable:
  "brandedStringSchema parse c = Some y \<Longrightarrow> brandedStringSchema parse (Some y) = Some y"
  by (auto simp: brandedStringSchema_iff dest: stable)

end

section \<open>Session ids\<close>

definition idTail :: "nat \<Rightarrow> bool" where
  "idTail c \<longleftrightarrow> isLower c \<or> isDigit c \<or> c = 95 \<or> c = 45"

text \<open>\<open>/^sess_[a-z0-9][a-z0-9_-]{5,63}$/u\<close>\<close>

definition sessionIdPattern :: "js_string \<Rightarrow> bool" where
  "sessionIdPattern s \<longleftrightarrow>
     startsWith s (js ''sess_'') \<and>
     (case drop 5 s of
        [] \<Rightarrow> False
      | c # r \<Rightarrow> (isLower c \<or> isDigit c) \<and> list_all idTail r \<and> 5 \<le> length r \<and> length r \<le> 63)"

definition parseSessionId :: "js_string \<Rightarrow> js_string validation" where
  "parseSessionId value =
     (if length value = 0 then Inl Empty_value
      else if length value < 11 then Inl Too_short
      else if \<not> sessionIdPattern value then Inl Invalid_format
      else Inr value)"

definition isSessionId :: "js_string \<Rightarrow> bool" where
  "isSessionId value = (case parseSessionId value of Inl _ \<Rightarrow> False | Inr _ \<Rightarrow> True)"

section \<open>Session names\<close>

text \<open>\<open>/^[a-zA-Z0-9][a-zA-Z0-9._-]{0,63}$/u\<close>\<close>

definition nameTail :: "nat \<Rightarrow> bool" where
  "nameTail c \<longleftrightarrow> isLetter c \<or> isDigit c \<or> c = 46 \<or> c = 95 \<or> c = 45"

definition sessionNamePattern :: "js_string \<Rightarrow> bool" where
  "sessionNamePattern s \<longleftrightarrow>
     (case s of
        [] \<Rightarrow> False
      | c # r \<Rightarrow> (isLetter c \<or> isDigit c) \<and> list_all nameTail r \<and> length r \<le> 63)"

definition parseSessionName :: "js_string \<Rightarrow> js_string validation" where
  "parseSessionName value =
     (let trimmed = trim value in
      if length trimmed = 0 then Inl Empty_value
      else if length trimmed > 64 then Inl Too_long
      else if \<not> sessionNamePattern trimmed then Inl Invalid_format
      else Inr trimmed)"

definition isSessionName :: "js_string \<Rightarrow> bool" where
  "isSessionName value = (case parseSessionName value of Inl _ \<Rightarrow> False | Inr _ \<Rightarrow> True)"

definition hasSessionNameCollision :: "js_string list \<Rightarrow> js_string \<Rightarrow> bool" where
  "hasSessionNameCollision existingNames candidate = list_ex (\<lambda>name. name = candidate) existingNames"

section \<open>Working directories\<close>

text \<open>\<open>/^[A-Za-z]:[\\/]/u\<close>\<close>

definition windowsDriveAbsolutePathPattern :: "js_string \<Rightarrow> bool" where
  "windowsDriveAbsolutePathPattern s \<longleftrightarrow>
     (case s of
        d # colon # sep # _ \<Rightarrow> isLetter d \<and> colon = 58 \<and> (sep = 92 \<or> sep = 47)
      | _ \<Rightarrow> False)"

definition parseAbsoluteCwd :: "js_string \<Rightarrow> js_string validation" where
  "parseAbsoluteCwd value =
     (if length value = 0 then Inl Empty_value
      else if 0 \<in> set value then Inl Invalid_format
      else if \<not> startsWith value (js ''/'') \<and> \<not> windowsDriveAbsolutePathPattern value
      then Inl Not_absolute
      else Inr value)"

section \<open>Output cursors\<close>

definition parseOutputCursor :: "js_number \<Rightarrow> js_number validation" where
  "parseOutputCursor value =
     (if \<not> isInteger value then Inl Not_integer
      else if num_less value (Finite 0) then Inl Negative_value
      else if \<not> isSafeInteger value then Inl Unsafe_integer
      else Inr value)"

section \<open>Lemmas\<close>

lemma parseSessionId_Inr:
  "parseSessionId s = Inr v \<longleftrightarrow> v = s \<and> sessionIdPattern s"
proof -
  have "11 \<le> length s" if "sessionIdPattern s"
  proof -
    from that obtain c r where "drop 5 s = c # r" "5 \<le> length r"
      by (auto simp: sessionIdPattern_def split: list.splits)
    then have "6 \<le> length (drop 5 s)" by simp
    then show ?thesis by simp
  qed
  then show ?thesis
    by (auto simp: parseSessionId_def split: if_splits)
qed

lemma parseSessionName_Inr:
  "parseSessionName s = Inr v \<longleftrightarrow> v = trim s \<and> sessionNamePattern v"
  by (auto simp: parseSessionName_def sessionNamePattern_def Let_def split: if_splits list.splits)

lemma sessionNamePattern_trim: "sessionNamePattern v \<Longrightarrow> trim v = v"
proof (rule trim_fixed)
  assume p: "sessionNamePattern v"
  have tail: "nameTail c \<Longrightarrow> \<not> isWhitespace c" for c
    by (auto simp: nameTail_def char_class_defs)
  from p have "\<forall>c \<in> set v. nameTail c" and "v \<noteq> []"
    by (auto simp: sessionNamePattern_def list_all_iff nameTail_def split: list.splits)
  with tail show "v = [] \<or> \<not> isWhitespace (hd v) \<and> \<not> isWhitespace (last v)"
    by auto
qed

interpretation session_id: exact_parser parseSessionId
  by unfold_locales (simp add: parseSessionId_Inr)

interpretation absolute_cwd: exact_parser parseAbsoluteCwd
  by unfold_locales (simp add: parseAbsoluteCwd_def split: if_splits)

interpretation output_cursor: exact_parser parseOutputCursor
  by unfold_locales (simp add: parseOutputCursor_def split: if_splits)

interpretation session_name: branded_parser parseSessionName
  by unfold_locales (auto simp: parseSessionName_Inr sessionNamePattern_trim)

lemma hasSessionNameCollision_iff [simp]:
  "hasSessionNameCollision names c \<longleftrightarrow> c \<in> set names"
  by (auto simp: hasSessionNameCollision_def list_ex_iff)

lemma parseOutputCursor_Inr:
  "parseOutputCursor n = Inr v \<longleftrightarrow>
     v = n \<and> (\<exists>k::int. n = Finite (of_int k) \<and> 0 \<le> k \<and> k \<le> 9007199254740991)"
proof -
  have "isSafeInteger n \<Longrightarrow> isInteger n"
    by (auto simp: isInteger_def isSafeInteger_def split: js_number.splits)
  then have "parseOutputCursor n = Inr v \<longleftrightarrow>
      v = n \<and> isSafeInteger n \<and> \<not> num_less n (Finite 0)"
    by (auto simp: parseOutputCursor_def)
  then show ?thesis
    by (auto simp: isSafeInteger_iff num_less_def)
qed

section \<open>Property\<close>

text \<open>Every identifier a boundary accepts is in its one normal form. A session id, a working
  directory and an output cursor come back exactly as given; a session name comes back trimmed
  and matching its pattern; and passing an accepted name through the schema again changes
  nothing.\<close>

theorem accepted_identifiers_are_canonical:
  "(brandedStringSchema parseSessionId (Some s) = Some v \<longleftrightarrow> v = s \<and> sessionIdPattern s) \<and>
   (brandedStringSchema parseSessionName (Some s) = Some n \<longleftrightarrow> n = trim s \<and> sessionNamePattern n) \<and>
   (sessionNamePattern n \<longleftrightarrow> brandedStringSchema parseSessionName (Some n) = Some n) \<and>
   (brandedStringSchema parseAbsoluteCwd (Some s) \<in> {None, Some s})"
  using sessionNamePattern_trim [of n] absolute_cwd.exact [of s]
  by (auto simp: brandedStringSchema_iff brandedStringSchema_None parseSessionId_Inr parseSessionName_Inr)

end
