(* ===== verification/Iso_Timestamp.thy ===== *)
theory Iso_Timestamp
  imports Identifiers "HOL-Library.Monad_Syntax"
begin

text \<open>
  \<open>parseIsoTimestamp\<close> of \<open>packages/core/src/identifiers.ts\<close>: the RFC 3339 pattern, the
  calendar checks, and the normalisation through \<open>Date.parse\<close> and \<open>toISOString\<close>. The two
  \<open>Date\<close> operations follow ECMAScript: an instant is a number of milliseconds, a day number
  is found from a year by \<open>dayFromYear\<close>, and a year outside 0..9999 prints with a sign and
  six digits.
\<close>

section \<open>Matching the pattern\<close>

definition digitsValue :: "js_string \<Rightarrow> int" where
  "digitsValue s = foldl (\<lambda>n c. 10 * n + (int c - 48)) 0 s"

definition takeDigits :: "nat \<Rightarrow> js_string \<Rightarrow> (int \<times> js_string) option" where
  "takeDigits n s =
     (if n \<le> length s \<and> list_all isDigit (take n s)
      then Some (digitsValue (take n s), drop n s) else None)"

definition takeChar :: "nat \<Rightarrow> js_string \<Rightarrow> js_string option" where
  "takeChar c s = (case s of [] \<Rightarrow> None | d # r \<Rightarrow> if d = c then Some r else None)"

text \<open>\<open>(Z|[+-]\d{2}:\d{2})$\<close>\<close>

definition offsetPattern :: "js_string \<Rightarrow> bool" where
  "offsetPattern s \<longleftrightarrow>
     s = [90] \<or>
     (case s of
        [sign, h1, h2, colon, m1, m2] \<Rightarrow>
          (sign = 43 \<or> sign = 45) \<and> isDigit h1 \<and> isDigit h2 \<and> colon = 58 \<and> isDigit m1 \<and> isDigit m2
      | _ \<Rightarrow> False)"

record iso_match =
  year :: int
  month :: int
  day :: int
  hour :: int
  minute :: int
  second :: int
  milli :: int
  zone :: js_string

definition isoTimestampPattern :: "js_string \<Rightarrow> iso_match option" where
  "isoTimestampPattern s0 = do {
     (y, s1) \<leftarrow> takeDigits 4 s0;
     s2 \<leftarrow> takeChar 45 s1;
     (mo, s3) \<leftarrow> takeDigits 2 s2;
     s4 \<leftarrow> takeChar 45 s3;
     (d, s5) \<leftarrow> takeDigits 2 s4;
     s6 \<leftarrow> takeChar 84 s5;
     (h, s7) \<leftarrow> takeDigits 2 s6;
     s8 \<leftarrow> takeChar 58 s7;
     (mi, s9) \<leftarrow> takeDigits 2 s8;
     s10 \<leftarrow> takeChar 58 s9;
     (se, s11) \<leftarrow> takeDigits 2 s10;
     s12 \<leftarrow> takeChar 46 s11;
     (ms, offset) \<leftarrow> takeDigits 3 s12;
     (if offsetPattern offset
      then Some \<lparr>year = y, month = mo, day = d, hour = h, minute = mi, second = se, milli = ms,
                 zone = offset\<rparr>
      else None)
   }"

section \<open>The calendar\<close>

definition isLeapYear :: "int \<Rightarrow> bool" where
  "isLeapYear y \<longleftrightarrow> y mod 4 = 0 \<and> (y mod 100 \<noteq> 0 \<or> y mod 400 = 0)"

definition monthLengths :: "int \<Rightarrow> int list" where
  "monthLengths y = [31, if isLeapYear y then 29 else 28, 31, 30, 31, 30, 31, 31, 30, 31, 30, 31]"

definition daysInMonth :: "int \<Rightarrow> int \<Rightarrow> int" where
  "daysInMonth y m = (if 1 \<le> m \<and> m \<le> 12 then monthLengths y ! nat (m - 1) else 0)"

definition offsetHours :: "js_string \<Rightarrow> int" where
  "offsetHours offset = digitsValue (take 2 (drop 1 offset))"

definition offsetMinutes :: "js_string \<Rightarrow> int" where
  "offsetMinutes offset = digitsValue (take 2 (drop 4 offset))"

definition validTimestampOffset :: "js_string \<Rightarrow> bool" where
  "validTimestampOffset offset \<longleftrightarrow>
     (if offset = [90] then True else offsetHours offset \<le> 23 \<and> offsetMinutes offset \<le> 59)"

definition calendarOk :: "iso_match \<Rightarrow> bool" where
  "calendarOk m \<longleftrightarrow>
     \<not> (month m < 1 \<or> month m > 12 \<or> day m < 1 \<or> day m > daysInMonth (year m) (month m) \<or>
        hour m > 23 \<or> minute m > 59 \<or> second m > 59 \<or> \<not> validTimestampOffset (zone m))"

section \<open>Instants\<close>

definition dayFromYear :: "int \<Rightarrow> int" where
  "dayFromYear y =
     365 * (y - 1970) + (y - 1969) div 4 - (y - 1901) div 100 + (y - 1601) div 400"

definition daysBeforeMonth :: "int \<Rightarrow> int \<Rightarrow> int" where
  "daysBeforeMonth y m = sum_list (take (nat (m - 1)) (monthLengths y))"

definition offsetMillis :: "js_string \<Rightarrow> int" where
  "offsetMillis offset =
     (if offset = [90] then 0
      else (if hd offset = 45 then -1 else 1) * (offsetHours offset * 60 + offsetMinutes offset) * 60000)"

text \<open>\<open>Date.parse\<close> on a string the checks have accepted.\<close>

definition dateParse :: "iso_match \<Rightarrow> int" where
  "dateParse m =
     (dayFromYear (year m) + daysBeforeMonth (year m) (month m) + day m - 1) * 86400000 +
     ((hour m * 60 + minute m) * 60 + second m) * 1000 + milli m - offsetMillis (zone m)"

text \<open>The year of a day: the mean Gregorian year gives it up to one.\<close>

definition yearFromDay :: "int \<Rightarrow> int" where
  "yearFromDay d =
     (let y = 1970 + (400 * d) div 146097 in
      if d < dayFromYear y then y - 1
      else if dayFromYear (y + 1) \<le> d then y + 1
      else y)"

fun splitMonth :: "int list \<Rightarrow> int \<Rightarrow> int \<Rightarrow> int \<times> int" where
  "splitMonth [] m d = (m, d)"
| "splitMonth (l # ls) m d = (if d < l then (m, d) else splitMonth ls (m + 1) (d - l))"

primrec pad :: "nat \<Rightarrow> int \<Rightarrow> js_string" where
  "pad 0 k = []"
| "pad (Suc n) k = pad n (k div 10) @ [48 + nat (k mod 10)]"

definition formatYear :: "int \<Rightarrow> js_string" where
  "formatYear y =
     (if 0 \<le> y \<and> y \<le> 9999 then pad 4 y
      else (if y < 0 then 45 else 43) # pad 6 \<bar>y\<bar>)"

text \<open>\<open>new Date(t).toISOString()\<close>\<close>

definition toISOString :: "int \<Rightarrow> js_string" where
  "toISOString t =
     (let d = t div 86400000; tod = t mod 86400000; y = yearFromDay d;
          (m, dm) = splitMonth (monthLengths y) 1 (d - dayFromYear y) in
      formatYear y @ [45] @ pad 2 m @ [45] @ pad 2 (dm + 1) @ [84] @
      pad 2 (tod div 3600000) @ [58] @ pad 2 (tod div 60000 mod 60) @ [58] @
      pad 2 (tod div 1000 mod 60) @ [46] @ pad 3 (tod mod 1000) @ [90])"

definition parseIsoTimestamp :: "js_string \<Rightarrow> js_string validation" where
  "parseIsoTimestamp value =
     (case isoTimestampPattern value of
        None \<Rightarrow> Inl Invalid_format
      | Some match \<Rightarrow>
          if \<not> calendarOk match then Inl Invalid_format
          else Inr (toISOString (dateParse match)))"

text \<open>The instant a timestamp denotes, where it is one.\<close>

definition instantOf :: "js_string \<Rightarrow> int option" where
  "instantOf value =
     (case isoTimestampPattern value of
        None \<Rightarrow> None
      | Some match \<Rightarrow> if calendarOk match then Some (dateParse match) else None)"

section \<open>Digits\<close>

lemma length_pad [simp]: "length (pad n k) = n"
  by (induction n arbitrary: k) auto

lemma pad_digits: "list_all isDigit (pad n k)"
  by (induction n arbitrary: k) (auto simp: isDigit_def)

lemma digitsValue_snoc: "digitsValue (s @ [c]) = 10 * digitsValue s + (int c - 48)"
  by (simp add: digitsValue_def)

lemma digitsValue_pad: "0 \<le> k \<Longrightarrow> k < 10 ^ n \<Longrightarrow> digitsValue (pad n k) = k"
proof (induction n arbitrary: k)
  case 0
  then show ?case by (simp add: digitsValue_def)
next
  case (Suc n)
  from Suc.prems have "0 \<le> k div 10" "k div 10 < 10 ^ n" by auto
  from Suc.IH [OF this] show ?case
    by (simp add: digitsValue_snoc)
qed

lemma takeDigits_pad [simp]:
  "0 \<le> k \<Longrightarrow> k < 10 ^ n \<Longrightarrow> takeDigits n (pad n k @ r) = Some (k, r)"
  by (simp add: takeDigits_def pad_digits digitsValue_pad)

lemma takeChar_Cons [simp]: "takeChar c (c # r) = Some r"
  by (simp add: takeChar_def)

section \<open>Years and months\<close>

lemma div_bounds: "0 < c \<Longrightarrow> c * (x div c) \<le> x \<and> x < c * (x div c) + (c::int)"
  by (metis add.commute add_less_cancel_left mult_div_mod_eq pos_mod_bound pos_mod_sign
      le_add_same_cancel1)

lemma div_Suc_int:
  assumes "0 < (c::int)"
  shows "(x + 1) div c = x div c + (if (x + 1) mod c = 0 then 1 else 0)"
proof -
  let ?q = "x div c" and ?r = "x mod c"
  have x: "x + 1 = (?r + 1) + c * ?q" by simp
  from assms have r: "0 \<le> ?r" "?r < c" by simp_all
  show ?thesis
  proof (cases "?r + 1 = c")
    case True
    have "x + 1 = c * (?q + 1)"
      unfolding x True by (simp add: distrib_left)
    with assms show ?thesis by simp
  next
    case False
    with r have s: "0 \<le> ?r + 1" "?r + 1 < c" by simp_all
    from x have x': "x + 1 = c * ?q + (?r + 1)" by (simp add: add.commute)
    from int_div_pos_eq [OF x' s] int_mod_pos_eq [OF x' s] s r show ?thesis by simp
  qed
qed

lemma mod_shift_int: "(y - c * k) mod c = y mod (c::int)"
  using mod_mult_self2 [of "y - c * k" c k] by simp

lemma leap_count:
  assumes "f \<longrightarrow> h" "h \<longrightarrow> q"
  shows "365 * (x + 1) + (a + (if q then 1 else 0)) - (b + (if h then 1 else 0)) +
           (c + (if f then 1 else 0)) =
         365 * x + a - b + c + (if q \<and> (\<not> h \<or> f) then 366 else (365::int))"
  using assms by (cases q; cases h; cases f) simp_all

lemma dayFromYear_Suc: "dayFromYear (y + 1) = dayFromYear y + (if isLeapYear y then 366 else 365)"
proof -
  have 4: "(y - 1968) div 4 = (y - 1969) div 4 + (if y mod 4 = 0 then 1 else 0)"
    using div_Suc_int [of 4 "y - 1969"] mod_shift_int [of y 4 492] by simp
  have 100: "(y - 1900) div 100 = (y - 1901) div 100 + (if y mod 100 = 0 then 1 else 0)"
    using div_Suc_int [of 100 "y - 1901"] mod_shift_int [of y 100 19] by simp
  have 400: "(y - 1600) div 400 = (y - 1601) div 400 + (if y mod 400 = 0 then 1 else 0)"
    using div_Suc_int [of 400 "y - 1601"] mod_shift_int [of y 400 4] by simp
  have a: "y mod 400 = 0 \<Longrightarrow> y mod 100 = 0"
    using dvd_trans [of 100 400 y] by (simp add: mod_eq_0_iff_dvd)
  have b: "y mod 100 = 0 \<Longrightarrow> y mod 4 = 0"
    using dvd_trans [of 4 100 y] by (simp add: mod_eq_0_iff_dvd)
  have "dayFromYear (y + 1) =
      365 * (y - 1970 + 1) + (y - 1968) div 4 - (y - 1900) div 100 + (y - 1600) div 400"
    by (simp add: dayFromYear_def algebra_simps)
  also have "\<dots> = dayFromYear y + (if isLeapYear y then 366 else 365)"
    unfolding 4 100 400 dayFromYear_def isLeapYear_def using a b by (intro leap_count) blast+
  finally show ?thesis .
qed

lemma sum_monthLengths: "sum_list (monthLengths y) = (if isLeapYear y then 366 else 365)"
  by (simp add: monthLengths_def)

lemma yearFromDay_bounds:
  "dayFromYear (yearFromDay d) \<le> d \<and> d < dayFromYear (yearFromDay d + 1)"
proof -
  define k where "k = (400 * d) div 146097"
  have k: "146097 * k \<le> 400 * d" "400 * d < 146097 * k + 146097"
    using div_bounds [of 146097 "400 * d"] by (simp_all add: k_def)
  have D: "400 * dayFromYear (1970 + j) \<le> 146097 * j + 589 \<and>
          146097 * j - 506 \<le> 400 * dayFromYear (1970 + j)" for j
    using div_bounds [of 4 "j + 1"] div_bounds [of 100 "j + 69"] div_bounds [of 400 "j + 369"]
    unfolding dayFromYear_def by (simp add: add.commute)
  have up: "d < dayFromYear (1970 + k + 2)"
    using D [of "k + 2"] k by (simp add: algebra_simps)
  have down: "dayFromYear (1970 + k - 1) \<le> d"
    using D [of "k - 1"] k by (simp add: algebra_simps)
  have y: "yearFromDay d =
      (if d < dayFromYear (1970 + k) then 1970 + k - 1
       else if dayFromYear (1970 + k + 1) \<le> d then 1970 + k + 1 else 1970 + k)"
    by (simp add: yearFromDay_def k_def)
  have "1970 + k + 1 + 1 = 1970 + k + 2" "1970 + k - 1 + 1 = 1970 + k" by simp_all
  then show ?thesis
    using up down unfolding y by (auto simp del: add_diff_cancel_right')
qed

lemma splitMonth_sound:
  assumes "\<forall>l \<in> set ls. 0 < l" "0 \<le> d" "d < sum_list ls" "splitMonth ls m d = (m', dm)"
  shows "m \<le> m' \<and> m' < m + int (length ls) \<and> 0 \<le> dm \<and> dm < ls ! nat (m' - m) \<and>
         d = sum_list (take (nat (m' - m)) ls) + dm"
  using assms
proof (induction ls m d rule: splitMonth.induct)
  case (1 m d)
  then show ?case by simp
next
  case (2 l ls m d)
  show ?case
  proof (cases "d < l")
    case True
    with "2.prems" show ?thesis by auto
  next
    case False
    with "2.prems" have "m + 1 \<le> m' \<and> m' < m + 1 + int (length ls) \<and> 0 \<le> dm \<and>
        dm < ls ! nat (m' - (m + 1)) \<and> d - l = sum_list (take (nat (m' - (m + 1))) ls) + dm"
      by (intro "2.IH") auto
    moreover from this have "nat (m' - m) = Suc (nat (m' - (m + 1)))" by linarith
    ultimately show ?thesis by simp
  qed
qed

lemma monthLengths_bounds: "\<forall>l \<in> set (monthLengths y). 0 < l \<and> l \<le> 31"
  by (simp add: monthLengths_def)

lemma length_monthLengths [simp]: "length (monthLengths y) = 12"
  by (simp add: monthLengths_def)

lemma civil_split:
  assumes "dayFromYear y \<le> d" "d < dayFromYear (y + 1)"
    and "splitMonth (monthLengths y) 1 (d - dayFromYear y) = (m, dm)"
  shows "1 \<le> m" "m \<le> 12" "0 \<le> dm" "dm < daysInMonth y m" "daysInMonth y m \<le> 31"
    "d = dayFromYear y + daysBeforeMonth y m + dm"
proof -
  have "d - dayFromYear y < sum_list (monthLengths y)"
    using assms(2) by (simp add: sum_monthLengths dayFromYear_Suc)
  with assms monthLengths_bounds [of y]
  have *: "1 \<le> m \<and> m < 1 + int 12 \<and> 0 \<le> dm \<and> dm < monthLengths y ! nat (m - 1) \<and>
        d - dayFromYear y = sum_list (take (nat (m - 1)) (monthLengths y)) + dm"
    using splitMonth_sound [of "monthLengths y" "d - dayFromYear y" 1 m dm] by auto
  then show "1 \<le> m" "m \<le> 12" "0 \<le> dm" "dm < daysInMonth y m"
    "d = dayFromYear y + daysBeforeMonth y m + dm"
    by (simp_all add: daysInMonth_def daysBeforeMonth_def)
  from * have "nat (m - 1) < length (monthLengths y)" by (simp add: nat_less_iff)
  then have "monthLengths y ! nat (m - 1) \<in> set (monthLengths y)" by (rule nth_mem)
  with monthLengths_bounds [of y] show "daysInMonth y m \<le> 31"
    by (auto simp: daysInMonth_def)
qed

lemma clock_split:
  fixes t :: int
  shows "((t div 3600000 * 60 + t div 60000 mod 60) * 60 + t div 1000 mod 60) * 1000 + t mod 1000 = t"
proof -
  have "t div 60000 = t div 1000 div 60" "t div 3600000 = t div 1000 div 60 div 60"
    by (simp_all add: zdiv_zmult2_eq [symmetric])
  then show ?thesis
    by (metis div_mult_mod_eq)
qed

section \<open>Normalised timestamps\<close>

definition fourDigitYear :: "int \<Rightarrow> bool" where
  "fourDigitYear t \<longleftrightarrow> (let y = yearFromDay (t div 86400000) in 0 \<le> y \<and> y \<le> 9999)"

lemma isoTimestampPattern_fields:
  assumes "0 \<le> y" "y < 10000" "0 \<le> mo" "mo < 100" "0 \<le> d" "d < 100" "0 \<le> h" "h < 100"
    "0 \<le> mi" "mi < 100" "0 \<le> se" "se < 100" "0 \<le> ms" "ms < 1000"
  shows "isoTimestampPattern (pad 4 y @ [45] @ pad 2 mo @ [45] @ pad 2 d @ [84] @ pad 2 h @ [58] @
      pad 2 mi @ [58] @ pad 2 se @ [46] @ pad 3 ms @ [90]) =
    Some \<lparr>year = y, month = mo, day = d, hour = h, minute = mi, second = se, milli = ms,
      zone = [90]\<rparr>"
  using assms by (simp add: isoTimestampPattern_def offsetPattern_def)

lemma calendarOk_utc:
  assumes "1 \<le> mo" "mo \<le> 12" "1 \<le> d" "d \<le> daysInMonth y mo" "h \<le> 23" "mi \<le> 59" "se \<le> 59"
  shows "calendarOk \<lparr>year = y, month = mo, day = d, hour = h, minute = mi, second = se, milli = ms,
    zone = [90]\<rparr>"
  using assms by (simp add: calendarOk_def validTimestampOffset_def)

lemma dateParse_utc:
  "dateParse \<lparr>year = y, month = mo, day = dm + 1, hour = h, minute = mi, second = se, milli = ms,
     zone = [90]\<rparr> =
   (dayFromYear y + daysBeforeMonth y mo + dm) * 86400000 + (((h * 60 + mi) * 60 + se) * 1000 + ms)"
  by (simp add: dateParse_def offsetMillis_def)

lemma toISOString_match:
  assumes "fourDigitYear t"
  obtains m where "isoTimestampPattern (toISOString t) = Some m" "calendarOk m" "dateParse m = t"
proof -
  define d where "d = t div 86400000"
  define tod where "tod = t mod 86400000"
  define y where "y = yearFromDay d"
  obtain mo dm where sp: "splitMonth (monthLengths y) 1 (d - dayFromYear y) = (mo, dm)"
    by fastforce
  have yb: "dayFromYear y \<le> d" "d < dayFromYear (y + 1)"
    using yearFromDay_bounds [of d] by (simp_all add: y_def)
  note c = civil_split [OF yb sp]
  from assms have yr: "0 \<le> y" "y \<le> 9999" by (simp_all add: fourDigitYear_def y_def d_def Let_def)
  have tod: "0 \<le> tod" "tod < 86400000" by (simp_all add: tod_def)
  then have h: "0 \<le> tod div 3600000" "tod div 3600000 \<le> 23" by auto
  have rng: "tod div 60000 mod 60 \<le> 59" "tod div 1000 mod 60 \<le> 59"
    using pos_mod_bound [of 60 "tod div 60000"] pos_mod_bound [of 60 "tod div 1000"] by simp_all
  let ?m = "\<lparr>year = y, month = mo, day = dm + 1, hour = tod div 3600000,
      minute = tod div 60000 mod 60, second = tod div 1000 mod 60, milli = tod mod 1000,
      zone = [90]\<rparr>"
  have s: "toISOString t = pad 4 y @ [45] @ pad 2 mo @ [45] @ pad 2 (dm + 1) @ [84] @
      pad 2 (tod div 3600000) @ [58] @ pad 2 (tod div 60000 mod 60) @ [58] @
      pad 2 (tod div 1000 mod 60) @ [46] @ pad 3 (tod mod 1000) @ [90]"
    using yr sp by (simp add: toISOString_def Let_def formatYear_def y_def d_def tod_def)
  have "isoTimestampPattern (toISOString t) = Some ?m"
    unfolding s
  proof (rule isoTimestampPattern_fields)
    show "tod div 60000 mod 60 < 100" "tod div 1000 mod 60 < 100" using rng by linarith+
    show "mo < 100" "dm + 1 < 100" "0 \<le> mo" "0 \<le> dm + 1" using c by linarith+
    show "y < 10000" "tod div 3600000 < 100" using yr h by linarith+
    show "0 \<le> tod div 60000 mod 60" "0 \<le> tod div 1000 mod 60" "0 \<le> tod mod 1000"
      "tod mod 1000 < 1000"
      by (rule pos_mod_sign pos_mod_bound, simp)+
    show "0 \<le> y" "0 \<le> tod div 3600000" using yr h by blast+
  qed
  moreover have "calendarOk ?m"
  proof (rule calendarOk_utc)
    show "1 \<le> mo" by (rule c(1))
    show "mo \<le> 12" by (rule c(2))
    show "1 \<le> dm + 1" "dm + 1 \<le> daysInMonth y mo" using c(3,4) by linarith+
    show "tod div 3600000 \<le> 23" by (rule h(2))
    show "tod div 60000 mod 60 \<le> 59" by (rule rng(1))
    show "tod div 1000 mod 60 \<le> 59" by (rule rng(2))
  qed
  moreover have "dateParse ?m = t"
    unfolding dateParse_utc clock_split c(6) [symmetric] unfolding d_def tod_def
    by (rule div_mult_mod_eq)
  ultimately show thesis by (rule that)
qed

lemma parse_toISOString:
  assumes "fourDigitYear t"
  shows "parseIsoTimestamp (toISOString t) = Inr (toISOString t)" "instantOf (toISOString t) = Some t"
proof -
  from assms obtain m where "isoTimestampPattern (toISOString t) = Some m" "calendarOk m"
    "dateParse m = t" by (rule toISOString_match)
  then show "parseIsoTimestamp (toISOString t) = Inr (toISOString t)"
    "instantOf (toISOString t) = Some t"
    by (simp_all add: parseIsoTimestamp_def instantOf_def)
qed

lemma parseIsoTimestamp_instant:
  "parseIsoTimestamp s = Inr v \<longleftrightarrow> (\<exists>t. instantOf s = Some t \<and> v = toISOString t)"
  by (auto simp: parseIsoTimestamp_def instantOf_def split: option.splits if_splits)

lemma toISOString_shape:
  obtains r where "toISOString t = formatYear (yearFromDay (t div 86400000)) @ r" "length r = 20"
    "list_all (\<lambda>c. c \<le> 90) r"
proof -
  obtain m dm where "splitMonth (monthLengths (yearFromDay (t div 86400000))) 1
      (t div 86400000 - dayFromYear (yearFromDay (t div 86400000))) = (m, dm)" by fastforce
  moreover have "list_all (\<lambda>c. c \<le> 90) (pad n k)" for n k
    using pad_digits [of n k] by (auto simp: list_all_iff isDigit_def)
  ultimately show ?thesis
    by (intro that) (auto simp: toISOString_def Let_def)
qed

lemma parse_toISOString_accepts:
  assumes "parseIsoTimestamp (toISOString t) = Inr w"
  shows "fourDigitYear t"
proof -
  obtain r where r: "toISOString t = formatYear (yearFromDay (t div 86400000)) @ r" by (rule toISOString_shape)
  from assms have "isoTimestampPattern (toISOString t) \<noteq> None"
    by (auto simp: parseIsoTimestamp_def split: option.splits)
  then have "list_all isDigit (take 4 (toISOString t))"
    by (simp add: isoTimestampPattern_def takeDigits_def split: if_splits)
  then show ?thesis
    unfolding r by (auto simp: formatYear_def fourDigitYear_def isDigit_def Let_def split: if_splits)
qed

lemma parse_toISOString_iff:
  "parseIsoTimestamp (toISOString t) = Inr (toISOString t) \<longleftrightarrow> fourDigitYear t"
  using parse_toISOString_accepts parse_toISOString by blast

lemma parse_twice:
  assumes "parseIsoTimestamp s = Inr v" "parseIsoTimestamp v = Inr w"
  shows "w = v"
proof -
  from assms(1) obtain t where t: "v = toISOString t" by (auto simp: parseIsoTimestamp_instant)
  with assms(2) have "fourDigitYear t" by (blast intro: parse_toISOString_accepts)
  with assms(2) t parse_toISOString [of t] show ?thesis by simp
qed

lemma stable_timestamp:
  assumes "parseIsoTimestamp s = Inr s"
  shows "length s = 24 \<and> list_all (\<lambda>c. c \<le> 127) s"
proof -
  from assms obtain t where t: "s = toISOString t" by (auto simp: parseIsoTimestamp_instant)
  with assms parse_toISOString_iff [of t] have year: "fourDigitYear t" by simp
  obtain r where r: "toISOString t = formatYear (yearFromDay (t div 86400000)) @ r" "length r = 20"
    "list_all (\<lambda>c. c \<le> 90) r" by (rule toISOString_shape)
  have "list_all isDigit (formatYear (yearFromDay (t div 86400000)))"
    using year by (auto simp: formatYear_def fourDigitYear_def Let_def pad_digits)
  then have "list_all (\<lambda>c. c \<le> 127) (formatYear (yearFromDay (t div 86400000)))"
    by (auto simp: list_all_iff isDigit_def)
  with r year t show ?thesis
    by (fastforce simp: formatYear_def fourDigitYear_def Let_def list_all_iff)
qed

section \<open>Property\<close>

text \<open>C36: the timestamp parser gives every instant of the years 0 to 9999 one text: two accepted
  timestamps, in whatever zone they are written, normalise to the same text exactly when they
  denote the same instant, and the normal form is accepted unchanged and denotes that instant.\<close>

theorem timestamps_have_one_normal_form:
  assumes "instantOf s = Some t" "instantOf s' = Some t'" "fourDigitYear t" "fourDigitYear t'"
  shows "\<exists>v v'. parseIsoTimestamp s = Inr v \<and> parseIsoTimestamp s' = Inr v' \<and> (v = v' \<longleftrightarrow> t = t') \<and>
    parseIsoTimestamp v = Inr v \<and> instantOf v = Some t \<and> length v = 24"
proof -
  note n = parse_toISOString [OF assms(3)] parse_toISOString [OF assms(4)]
  have "toISOString t = toISOString t' \<longleftrightarrow> t = t'" using n(2,4) by (metis option.inject)
  moreover have "parseIsoTimestamp s = Inr (toISOString t)" "parseIsoTimestamp s' = Inr (toISOString t')"
    using assms(1,2) parseIsoTimestamp_instant by blast+
  ultimately show ?thesis using n stable_timestamp [OF n(1)] by blast
qed

theorem timestamps_have_one_normal_form_witness:
  "\<exists>v v'. parseIsoTimestamp (js ''2024-02-29T01:30:00.000+01:30'') = Inr v \<and>
     parseIsoTimestamp (js ''2024-02-29T00:00:00.000Z'') = Inr v' \<and> v = v'"
proof -
  have i: "instantOf (js ''2024-02-29T01:30:00.000+01:30'') = Some 1709164800000" by code_simp
  have j: "instantOf (js ''2024-02-29T00:00:00.000Z'') = Some 1709164800000" by code_simp
  have y: "fourDigitYear 1709164800000" by code_simp
  from timestamps_have_one_normal_form [OF i j y y] show ?thesis by blast
qed

end
