(* ===== verification/Selected_Runtime.thy ===== *)
theory Selected_Runtime
  imports Identifiers
begin

text \<open>
  \<open>packages/core/src/selected-runtime.ts\<close>: the normalised vocabulary of a managed session
  (states, freshness, runtime connection, capabilities, operations), the opaque identifiers of
  the Codex runtime, the session life cycle and the eligibility of an operation. Constructors
  carry a prefix for the enumeration they belong to, because the source reuses the strings
  \<open>"unknown"\<close>, \<open>"stale"\<close> and \<open>"incompatible"\<close> across enumerations.
\<close>

section \<open>Enumerations\<close>

datatype attention_level =
  AL_none | AL_watch | AL_needs_input | AL_needs_approval | AL_failed | AL_stuck | AL_unknown

datatype managed_session_state =
  MS_starting | MS_active | MS_archived | MS_stale | MS_incompatible | MS_unknown

datatype turn_state =
  TS_idle | TS_in_progress | TS_waiting_for_input | TS_waiting_for_approval | TS_completed
| TS_interrupted | TS_failed | TS_unknown

datatype projection_freshness = PF_current | PF_stale | PF_disconnected | PF_incompatible

datatype runtime_connection_state = RC_ready | RC_degraded | RC_incompatible | RC_disconnected

datatype runtime_mutation_policy = MP_allowed | MP_blocked

datatype runtime_capability =
  Cap_thread_lifecycle | Cap_turn_input | Cap_turn_steer | Cap_turn_interrupt | Cap_model
| Cap_goal | Cap_plan | Cap_usage | Cap_compact | Cap_skills | Cap_approvals | Cap_multi_client

definition runtimeCapabilities :: "runtime_capability list" where
  "runtimeCapabilities =
     [Cap_thread_lifecycle, Cap_turn_input, Cap_turn_steer, Cap_turn_interrupt, Cap_model,
      Cap_goal, Cap_plan, Cap_usage, Cap_compact, Cap_skills, Cap_approvals, Cap_multi_client]"

definition requiredRuntimeCapabilities :: "runtime_capability list" where
  "requiredRuntimeCapabilities =
     [Cap_thread_lifecycle, Cap_turn_input, Cap_turn_steer, Cap_turn_interrupt, Cap_model,
      Cap_goal, Cap_plan, Cap_approvals, Cap_multi_client]"

datatype capability_requirement = Required | Optional

datatype runtime_capability_state = CS_available | CS_unavailable | CS_unknown

datatype selected_operation_kind =
  Op_prompt | Op_model | Op_goal | Op_plan | Op_usage | Op_compact | Op_skills
| Op_approval_response | Op_interrupt | Op_archive

definition selectedOperationKinds :: "selected_operation_kind list" where
  "selectedOperationKinds =
     [Op_prompt, Op_model, Op_goal, Op_plan, Op_usage, Op_compact, Op_skills,
      Op_approval_response, Op_interrupt, Op_archive]"

definition selectedMutationOperationKinds :: "selected_operation_kind list" where
  "selectedMutationOperationKinds =
     [Op_prompt, Op_model, Op_goal, Op_plan, Op_compact, Op_approval_response, Op_interrupt,
      Op_archive]"

fun operationKindName :: "selected_operation_kind \<Rightarrow> js_string" where
  "operationKindName Op_prompt = js ''prompt''"
| "operationKindName Op_model = js ''model''"
| "operationKindName Op_goal = js ''goal''"
| "operationKindName Op_plan = js ''plan''"
| "operationKindName Op_usage = js ''usage''"
| "operationKindName Op_compact = js ''compact''"
| "operationKindName Op_skills = js ''skills''"
| "operationKindName Op_approval_response = js ''approval_response''"
| "operationKindName Op_interrupt = js ''interrupt''"
| "operationKindName Op_archive = js ''archive''"

datatype transition_mode = Normal | Reconciliation

datatype denial_reason =
  Target_missing | Target_mismatch | Session_starting | Session_archived | Session_stale
| Session_incompatible | Session_unknown | Projection_stale | Runtime_mutations_blocked
| Runtime_incompatible | Runtime_disconnected | Capability_unavailable | Capability_unknown

section \<open>Audit actions\<close>

datatype security_audit_action =
  Pair_request | Pair_claim | Csrf_bootstrap | Device_revoke | Lock | Unlock
| Lan_configure | Lan_enable | Lan_disable | Certificate_rotate | Remote_enable | Remote_disable

datatype session_lifecycle_audit_action = Session_start | Session_adopt | Session_unmanage

datatype audit_action =
  Audit_operation selected_operation_kind
| Audit_lifecycle session_lifecycle_audit_action
| Audit_security security_audit_action

definition sharedSelectedSecurityAuditActions :: "security_audit_action list" where
  "sharedSelectedSecurityAuditActions =
     [Pair_request, Pair_claim, Csrf_bootstrap, Device_revoke, Lock, Unlock]"

definition historicalSelectedNetworkAuditActions :: "security_audit_action list" where
  "historicalSelectedNetworkAuditActions =
     [Lan_configure, Lan_enable, Lan_disable, Certificate_rotate]"

definition selectedRemoteAuditActions :: "security_audit_action list" where
  "selectedRemoteAuditActions = [Remote_enable, Remote_disable]"

definition selectedSecurityAuditActions :: "security_audit_action list" where
  "selectedSecurityAuditActions =
     sharedSelectedSecurityAuditActions @ selectedRemoteAuditActions"

definition selectedSecurityAuditV1Actions :: "security_audit_action list" where
  "selectedSecurityAuditV1Actions =
     sharedSelectedSecurityAuditActions @ historicalSelectedNetworkAuditActions"

definition persistedSelectedSecurityAuditActions :: "security_audit_action list" where
  "persistedSelectedSecurityAuditActions =
     sharedSelectedSecurityAuditActions @ historicalSelectedNetworkAuditActions @
     selectedRemoteAuditActions"

definition selectedSessionLifecycleAuditActions :: "session_lifecycle_audit_action list" where
  "selectedSessionLifecycleAuditActions = [Session_start, Session_adopt, Session_unmanage]"

definition selectedAuditActions :: "audit_action list" where
  "selectedAuditActions =
     map Audit_operation selectedOperationKinds @
     map Audit_lifecycle selectedSessionLifecycleAuditActions @
     map Audit_security selectedSecurityAuditActions"

definition persistedSelectedAuditActions :: "audit_action list" where
  "persistedSelectedAuditActions =
     map Audit_operation selectedOperationKinds @
     map Audit_lifecycle selectedSessionLifecycleAuditActions @
     map Audit_security persistedSelectedSecurityAuditActions"

lemmas audit_action_lists =
  sharedSelectedSecurityAuditActions_def historicalSelectedNetworkAuditActions_def
  selectedRemoteAuditActions_def selectedSecurityAuditActions_def
  selectedSecurityAuditV1Actions_def persistedSelectedSecurityAuditActions_def
  selectedSessionLifecycleAuditActions_def selectedAuditActions_def
  persistedSelectedAuditActions_def

section \<open>Runtime identifiers\<close>

definition hasControlCharacter :: "js_string \<Rightarrow> bool" where
  "hasControlCharacter value = list_ex isControl value"

text \<open>\<open>/^\S{1,128}$/u\<close>; the length test before it already bounds the code units by 128.\<close>

definition opaqueRuntimeIdPattern :: "js_string \<Rightarrow> bool" where
  "opaqueRuntimeIdPattern s \<longleftrightarrow>
     list_all (\<lambda>c. \<not> isWhitespace c) s \<and> 1 \<le> length s \<and> length s \<le> 128"

definition parseOpaqueRuntimeId :: "js_string \<Rightarrow> js_string validation" where
  "parseOpaqueRuntimeId value =
     (if length value = 0 then Inl Empty_value
      else if length value > 128 then Inl Too_long
      else if \<not> opaqueRuntimeIdPattern value \<or> hasControlCharacter value then Inl Invalid_format
      else Inr value)"

definition parseCodexThreadId :: "js_string \<Rightarrow> js_string validation" where
  "parseCodexThreadId value = parseOpaqueRuntimeId value"

definition parseCodexTurnId :: "js_string \<Rightarrow> js_string validation" where
  "parseCodexTurnId value = parseOpaqueRuntimeId value"

definition parseCodexItemId :: "js_string \<Rightarrow> js_string validation" where
  "parseCodexItemId value = parseOpaqueRuntimeId value"

definition parseRuntimeRequestId :: "js_string \<Rightarrow> js_string validation" where
  "parseRuntimeRequestId value = parseOpaqueRuntimeId value"

text \<open>\<open>/^op_[a-z0-9][a-z0-9_-]{7,95}$/u\<close>\<close>

definition clientOperationIdPattern :: "js_string \<Rightarrow> bool" where
  "clientOperationIdPattern s \<longleftrightarrow>
     startsWith s (js ''op_'') \<and>
     (case drop 3 s of
        [] \<Rightarrow> False
      | c # r \<Rightarrow> (isLower c \<or> isDigit c) \<and> list_all idTail r \<and> 7 \<le> length r \<and> length r \<le> 95)"

definition parseClientOperationId :: "js_string \<Rightarrow> js_string validation" where
  "parseClientOperationId value =
     (if length value = 0 then Inl Empty_value
      else if length value > 99 then Inl Too_long
      else if \<not> clientOperationIdPattern value then Inl Invalid_format
      else Inr value)"

interpretation codex_id: exact_parser parseOpaqueRuntimeId
  by unfold_locales (simp add: parseOpaqueRuntimeId_def split: if_splits)

interpretation client_operation_id: exact_parser parseClientOperationId
  by unfold_locales (simp add: parseClientOperationId_def split: if_splits)

lemma parseOpaqueRuntimeId_Inr:
  "parseOpaqueRuntimeId s = Inr v \<longleftrightarrow>
     v = s \<and> s \<noteq> [] \<and> length s \<le> 128 \<and> (\<forall>c \<in> set s. \<not> isWhitespace c \<and> \<not> isControl c)"
  by (auto simp: parseOpaqueRuntimeId_def opaqueRuntimeIdPattern_def hasControlCharacter_def
      list_all_iff list_ex_iff Suc_le_eq)

section \<open>Operations and capabilities\<close>

definition isSelectedOperationKind :: "js_string \<Rightarrow> bool" where
  "isSelectedOperationKind value \<longleftrightarrow> value \<in> set (map operationKindName selectedOperationKinds)"

definition isSelectedMutationOperation :: "selected_operation_kind \<Rightarrow> bool" where
  "isSelectedMutationOperation kind \<longleftrightarrow> kind \<in> set selectedMutationOperationKinds"

fun operationCapability :: "selected_operation_kind \<Rightarrow> runtime_capability" where
  "operationCapability Op_prompt = Cap_turn_input"
| "operationCapability Op_model = Cap_model"
| "operationCapability Op_goal = Cap_goal"
| "operationCapability Op_plan = Cap_plan"
| "operationCapability Op_usage = Cap_usage"
| "operationCapability Op_compact = Cap_compact"
| "operationCapability Op_skills = Cap_skills"
| "operationCapability Op_approval_response = Cap_approvals"
| "operationCapability Op_interrupt = Cap_turn_interrupt"
| "operationCapability Op_archive = Cap_thread_lifecycle"

definition runtimeCapabilityRequirement :: "runtime_capability \<Rightarrow> capability_requirement" where
  "runtimeCapabilityRequirement capability =
     (if capability \<in> set requiredRuntimeCapabilities then Required else Optional)"

section \<open>The session life cycle\<close>

fun normalManagedSessionTransitions :: "managed_session_state \<Rightarrow> managed_session_state list" where
  "normalManagedSessionTransitions MS_starting = [MS_active]"
| "normalManagedSessionTransitions MS_active = [MS_archived]"
| "normalManagedSessionTransitions MS_archived = []"
| "normalManagedSessionTransitions MS_stale = []"
| "normalManagedSessionTransitions MS_incompatible = []"
| "normalManagedSessionTransitions MS_unknown = []"

fun reconciliationManagedSessionTransitions ::
    "managed_session_state \<Rightarrow> managed_session_state list" where
  "reconciliationManagedSessionTransitions MS_starting =
     [MS_active, MS_archived, MS_stale, MS_incompatible, MS_unknown]"
| "reconciliationManagedSessionTransitions MS_active =
     [MS_archived, MS_stale, MS_incompatible, MS_unknown]"
| "reconciliationManagedSessionTransitions MS_archived = []"
| "reconciliationManagedSessionTransitions MS_stale =
     [MS_active, MS_archived, MS_incompatible, MS_unknown]"
| "reconciliationManagedSessionTransitions MS_incompatible =
     [MS_active, MS_archived, MS_stale, MS_unknown]"
| "reconciliationManagedSessionTransitions MS_unknown =
     [MS_active, MS_archived, MS_stale, MS_incompatible]"

definition canTransitionManagedSession ::
    "managed_session_state \<Rightarrow> managed_session_state \<Rightarrow> transition_mode \<Rightarrow> bool" where
  "canTransitionManagedSession from_state to_state mode =
     (if from_state = to_state then True
      else
        let transitions = (if mode = Normal then normalManagedSessionTransitions
                           else reconciliationManagedSessionTransitions)
        in to_state \<in> set (transitions from_state))"

text \<open>What a repository that persists session states relies on.\<close>

locale lifecycle =
  fixes allowed :: "'s \<Rightarrow> 's \<Rightarrow> bool" and initial :: "'s \<Rightarrow> bool" and final :: "'s \<Rightarrow> bool"
  assumes stays: "allowed s s"
    and final_absorbs: "final s \<Longrightarrow> allowed s t \<Longrightarrow> t = s"
    and initial_source: "initial t \<Longrightarrow> allowed s t \<Longrightarrow> s = t"
begin

lemma final_run: "allowed\<^sup>*\<^sup>* s t \<Longrightarrow> final s \<Longrightarrow> t = s"
  by (induction rule: rtranclp_induct) (auto dest: final_absorbs)

lemma initial_run: "allowed\<^sup>*\<^sup>* s t \<Longrightarrow> initial t \<Longrightarrow> s = t"
  by (induction rule: converse_rtranclp_induct) (auto dest: initial_source)

end

lemma canTransition_refl [simp]: "canTransitionManagedSession s s mode"
  by (simp add: canTransitionManagedSession_def)

lemma canTransition_final: "canTransitionManagedSession MS_archived t mode \<longleftrightarrow> t = MS_archived"
  by (cases mode) (auto simp: canTransitionManagedSession_def)

lemma canTransition_initial: "canTransitionManagedSession s MS_starting mode \<longleftrightarrow> s = MS_starting"
  by (cases mode; cases s) (auto simp: canTransitionManagedSession_def)

interpretation normal_life: lifecycle
  "\<lambda>s t. canTransitionManagedSession s t Normal" "\<lambda>s. s = MS_starting" "\<lambda>s. s = MS_archived"
  by unfold_locales (auto simp: canTransition_final canTransition_initial)

interpretation reconciliation_life: lifecycle
  "\<lambda>s t. canTransitionManagedSession s t Reconciliation" "\<lambda>s. s = MS_starting" "\<lambda>s. s = MS_archived"
  by unfold_locales (auto simp: canTransition_final canTransition_initial)

lemma canTransition_reconciliation_iff:
  "canTransitionManagedSession s t Reconciliation \<longleftrightarrow>
     s = t \<or> s \<noteq> MS_archived \<and> t \<noteq> MS_starting"
  by (cases s; cases t) (auto simp: canTransitionManagedSession_def)

lemma canTransition_normal_iff:
  "canTransitionManagedSession s t Normal \<longleftrightarrow>
     s = t \<or> s = MS_starting \<and> t = MS_active \<or> s = MS_active \<and> t = MS_archived"
  by (cases s; cases t) (auto simp: canTransitionManagedSession_def)

section \<open>Eligibility\<close>

datatype target_resolution = Resolved | Missing | Mismatch

record eligibility_input =
  targetResolution :: target_resolution
  sessionState :: managed_session_state
  freshness :: projection_freshness
  runtimeState :: runtime_connection_state
  runtimeMutationPolicy :: runtime_mutation_policy
  capabilityState :: runtime_capability_state

datatype eligibility =
  Eligible runtime_capability
| Denied runtime_capability denial_reason

definition evaluateSelectedOperationEligibility ::
    "selected_operation_kind \<Rightarrow> eligibility_input \<Rightarrow> eligibility" where
  "evaluateSelectedOperationEligibility kind input =
     (let capability = operationCapability kind in
      if targetResolution input = Missing then Denied capability Target_missing
      else if targetResolution input = Mismatch then Denied capability Target_mismatch
      else case sessionState input of
        MS_starting \<Rightarrow> Denied capability Session_starting
      | MS_archived \<Rightarrow> Denied capability Session_archived
      | MS_stale \<Rightarrow> Denied capability Session_stale
      | MS_incompatible \<Rightarrow> Denied capability Session_incompatible
      | MS_unknown \<Rightarrow> Denied capability Session_unknown
      | MS_active \<Rightarrow>
          if freshness input \<noteq> PF_current then Denied capability Projection_stale
          else if runtimeState input = RC_incompatible then Denied capability Runtime_incompatible
          else if runtimeState input = RC_disconnected then Denied capability Runtime_disconnected
          else if runtimeMutationPolicy input = MP_blocked \<and> isSelectedMutationOperation kind
          then Denied capability Runtime_mutations_blocked
          else if capabilityState input = CS_unavailable then Denied capability Capability_unavailable
          else if capabilityState input = CS_unknown then Denied capability Capability_unknown
          else Eligible capability)"

fun mobileAttentionPriority :: "attention_level \<Rightarrow> int" where
  "mobileAttentionPriority AL_needs_approval = 60"
| "mobileAttentionPriority AL_needs_input = 50"
| "mobileAttentionPriority AL_failed = 40"
| "mobileAttentionPriority AL_stuck = 30"
| "mobileAttentionPriority AL_unknown = 30"
| "mobileAttentionPriority AL_watch = 20"
| "mobileAttentionPriority AL_none = 0"

text \<open>What eligibility promises: exactly these conditions admit an operation.\<close>

definition mayRun :: "selected_operation_kind \<Rightarrow> eligibility_input \<Rightarrow> bool" where
  "mayRun kind input \<longleftrightarrow>
     targetResolution input = Resolved \<and> sessionState input = MS_active \<and>
     freshness input = PF_current \<and> runtimeState input \<in> {RC_ready, RC_degraded} \<and>
     (runtimeMutationPolicy input = MP_allowed \<or> kind \<in> {Op_usage, Op_skills}) \<and>
     capabilityState input = CS_available"

lemma isSelectedMutationOperation_iff:
  "isSelectedMutationOperation kind \<longleftrightarrow> kind \<notin> {Op_usage, Op_skills}"
  by (cases kind) (auto simp: isSelectedMutationOperation_def selectedMutationOperationKinds_def)

text \<open>The condition each denial reason reports.\<close>

fun denialHolds :: "denial_reason \<Rightarrow> selected_operation_kind \<Rightarrow> eligibility_input \<Rightarrow> bool" where
  "denialHolds Target_missing kind i = (targetResolution i = Missing)"
| "denialHolds Target_mismatch kind i = (targetResolution i = Mismatch)"
| "denialHolds Session_starting kind i = (sessionState i = MS_starting)"
| "denialHolds Session_archived kind i = (sessionState i = MS_archived)"
| "denialHolds Session_stale kind i = (sessionState i = MS_stale)"
| "denialHolds Session_incompatible kind i = (sessionState i = MS_incompatible)"
| "denialHolds Session_unknown kind i = (sessionState i = MS_unknown)"
| "denialHolds Projection_stale kind i = (freshness i \<noteq> PF_current)"
| "denialHolds Runtime_mutations_blocked kind i =
     (runtimeMutationPolicy i = MP_blocked \<and> kind \<notin> {Op_usage, Op_skills})"
| "denialHolds Runtime_incompatible kind i = (runtimeState i = RC_incompatible)"
| "denialHolds Runtime_disconnected kind i = (runtimeState i = RC_disconnected)"
| "denialHolds Capability_unavailable kind i = (capabilityState i = CS_unavailable)"
| "denialHolds Capability_unknown kind i = (capabilityState i = CS_unknown)"

lemma eligible_iff_mayRun:
  "evaluateSelectedOperationEligibility kind input = Eligible c \<longleftrightarrow>
     c = operationCapability kind \<and> mayRun kind input"
  by (cases "targetResolution input"; cases "runtimeState input"; cases "runtimeMutationPolicy input";
      cases "capabilityState input")
    (auto simp: evaluateSelectedOperationEligibility_def mayRun_def Let_def
      isSelectedMutationOperation_iff split: managed_session_state.splits)

lemma denied_sound:
  "evaluateSelectedOperationEligibility kind input = Denied c reason \<Longrightarrow>
     c = operationCapability kind \<and> denialHolds reason kind input"
  by (auto simp: evaluateSelectedOperationEligibility_def Let_def isSelectedMutationOperation_iff
      split: managed_session_state.splits if_splits)

section \<open>Properties\<close>

text \<open>C34: an operation on a session is eligible exactly when its target is resolved, the session
  is active and current, the runtime is connected, mutations are allowed or the operation is
  read-only, and the capability the operation needs is available; and a denial names a
  condition that does fail.\<close>

theorem eligibility_exact:
  "(evaluateSelectedOperationEligibility kind input = Eligible c \<longleftrightarrow>
      c = operationCapability kind \<and> mayRun kind input) \<and>
   (\<forall>reason. evaluateSelectedOperationEligibility kind input = Denied c reason \<longrightarrow>
      c = operationCapability kind \<and> denialHolds reason kind input \<and> \<not> mayRun kind input)"
proof -
  have "\<not> mayRun kind input" if "evaluateSelectedOperationEligibility kind input = Denied c reason" for reason
    using that eligible_iff_mayRun [of kind input c] denied_sound [OF that] by auto
  then show ?thesis using eligible_iff_mayRun denied_sound by blast
qed

theorem eligibility_exact_witness:
  "denialHolds Session_archived Op_prompt
     \<lparr>targetResolution = Resolved, sessionState = MS_archived, freshness = PF_current, runtimeState = RC_ready,
      runtimeMutationPolicy = MP_allowed, capabilityState = CS_available\<rparr>"
proof -
  have "evaluateSelectedOperationEligibility Op_prompt
     \<lparr>targetResolution = Resolved, sessionState = MS_archived, freshness = PF_current, runtimeState = RC_ready,
      runtimeMutationPolicy = MP_allowed, capabilityState = CS_available\<rparr> =
      Denied Cap_turn_input Session_archived"
    by (simp add: evaluateSelectedOperationEligibility_def Let_def)
  from eligibility_exact [THEN conjunct2, rule_format, OF this] show ?thesis by blast
qed

text \<open>C35: the life cycle of a managed session. In normal operation a session only goes from
  starting to active and from active to archived; reconciliation may move it anywhere except back
  to starting or out of archived. So over any number of transitions of either mode, archived is
  final and starting is never entered again.\<close>

theorem session_lifecycle:
  "(canTransitionManagedSession s t Normal \<longleftrightarrow>
      s = t \<or> s = MS_starting \<and> t = MS_active \<or> s = MS_active \<and> t = MS_archived) \<and>
   (canTransitionManagedSession s t Reconciliation \<longleftrightarrow> s = t \<or> s \<noteq> MS_archived \<and> t \<noteq> MS_starting) \<and>
   ((\<lambda>a b. canTransitionManagedSession a b Reconciliation)\<^sup>*\<^sup>* MS_archived u \<longleftrightarrow> u = MS_archived) \<and>
   ((\<lambda>a b. canTransitionManagedSession a b Reconciliation)\<^sup>*\<^sup>* u MS_starting \<longleftrightarrow> u = MS_starting)"
  using reconciliation_life.final_run [of MS_archived u] reconciliation_life.initial_run [of u MS_starting]
  by (auto simp: canTransition_normal_iff canTransition_reconciliation_iff)

end
