(* ===== verification/Remote_Ingress.thy ===== *)
theory Remote_Ingress
  imports Prelude
begin

text \<open>
  \<open>packages/core/src/remote-ingress.ts\<close>: whether the private tailnet ingress admits requests,
  decided from the configured intent and the last observation of the Tailscale client.
\<close>

datatype ingress_intent = Intent_disabled | Intent_enabled

datatype ingress_availability = Availability_disabled | Availability_ready | Availability_unavailable

datatype ingress_admission = Admission_closed | Admission_open

datatype ingress_observation = Observation_current | Observation_stale | Observation_failed

datatype tailscale_client = Client_available | Client_not_installed | Client_unsupported | Client_error

datatype remote_profile =
  Profile_absent | Profile_stopped | Profile_signed_out | Profile_dedicated | Profile_other
| Profile_unknown

datatype remote_serve =
  Serve_absent | Serve_exact | Serve_foreign | Serve_colliding | Serve_drifted | Serve_public

datatype operation_failure =
  Consent_required | Permission_denied | Command_failed | Command_timeout | Output_oversized
| Schema_invalid | Profile_changed | Cleanup_incomplete

datatype unavailable_reason =
  R_client_not_installed | R_client_unsupported | R_client_error | R_client_stopped
| R_client_signed_out | R_profile_absent | R_profile_other | R_profile_unknown | R_serve_absent
| R_serve_foreign | R_serve_colliding | R_serve_drifted | R_serve_public
| R_external_origin_invalid | R_observation_stale | R_observation_failed
| R_operation operation_failure

record ingress_input =
  intent :: ingress_intent
  observation :: ingress_observation
  client :: tailscale_client
  profile :: remote_profile
  serve :: "remote_serve option"
  externalOriginValid :: bool
  operationFailure :: "operation_failure option"

record ingress_decision =
  availability :: ingress_availability
  admission :: ingress_admission
  reason :: "unavailable_reason option"

definition unavailable :: "unavailable_reason \<Rightarrow> ingress_decision" where
  "unavailable r =
     \<lparr>availability = Availability_unavailable, admission = Admission_closed, reason = Some r\<rparr>"

definition failureOr :: "operation_failure option \<Rightarrow> unavailable_reason \<Rightarrow> unavailable_reason" where
  "failureOr failure fallback = (case failure of None \<Rightarrow> fallback | Some f \<Rightarrow> R_operation f)"

definition evaluateRemoteIngressAvailability :: "ingress_input \<Rightarrow> ingress_decision" where
  "evaluateRemoteIngressAvailability input =
     (if intent input = Intent_disabled then
        \<lparr>availability = Availability_disabled, admission = Admission_closed,
         reason = (if operationFailure input = Some Cleanup_incomplete
                   then Some (R_operation Cleanup_incomplete) else None)\<rparr>
      else if observation input = Observation_stale then unavailable R_observation_stale
      else if observation input = Observation_failed
      then unavailable (failureOr (operationFailure input) R_observation_failed)
      else case client input of
        Client_not_installed \<Rightarrow> unavailable R_client_not_installed
      | Client_unsupported \<Rightarrow> unavailable R_client_unsupported
      | Client_error \<Rightarrow> unavailable (failureOr (operationFailure input) R_client_error)
      | Client_available \<Rightarrow>
          if operationFailure input = Some Profile_changed
          then unavailable (R_operation Profile_changed)
          else case profile input of
            Profile_absent \<Rightarrow> unavailable R_profile_absent
          | Profile_stopped \<Rightarrow> unavailable R_client_stopped
          | Profile_signed_out \<Rightarrow> unavailable R_client_signed_out
          | Profile_other \<Rightarrow> unavailable R_profile_other
          | Profile_unknown \<Rightarrow> unavailable R_profile_unknown
          | Profile_dedicated \<Rightarrow>
              (case operationFailure input of
                 Some f \<Rightarrow> unavailable (R_operation f)
               | None \<Rightarrow>
                   (case serve input of
                      Some Serve_absent \<Rightarrow> unavailable R_serve_absent
                    | Some Serve_foreign \<Rightarrow> unavailable R_serve_foreign
                    | Some Serve_colliding \<Rightarrow> unavailable R_serve_colliding
                    | Some Serve_drifted \<Rightarrow> unavailable R_serve_drifted
                    | Some Serve_public \<Rightarrow> unavailable R_serve_public
                    | None \<Rightarrow> unavailable R_observation_failed
                    | Some Serve_exact \<Rightarrow>
                        if \<not> externalOriginValid input then unavailable R_external_origin_invalid
                        else \<lparr>availability = Availability_ready, admission = Admission_open,
                              reason = None\<rparr>)))"

text \<open>
  What admission promises: the port is open only for an exact private mapping of the dedicated
  profile, freshly observed, with a valid origin and no failed operation.
\<close>

definition admissible :: "ingress_input \<Rightarrow> bool" where
  "admissible input \<longleftrightarrow>
     intent input = Intent_enabled \<and> observation input = Observation_current \<and>
     client input = Client_available \<and> profile input = Profile_dedicated \<and>
     serve input = Some Serve_exact \<and> externalOriginValid input \<and> operationFailure input = None"

lemmas ingress_defs = evaluateRemoteIngressAvailability_def unavailable_def failureOr_def

lemmas ingress_splits =
  ingress_intent.splits tailscale_client.splits remote_profile.splits remote_serve.splits
  option.splits if_splits

lemma ingress_open_iff_lemma:
  "admission (evaluateRemoteIngressAvailability input) = Admission_open \<longleftrightarrow> admissible input"
  by (cases "intent input"; cases "observation input"; cases "client input"; cases "profile input")
    (simp_all add: ingress_defs admissible_def split: option.splits remote_serve.splits)

lemma ingress_consistent_lemma:
  "let d = evaluateRemoteIngressAvailability input in
     (admission d = Admission_open \<longleftrightarrow> availability d = Availability_ready) \<and>
     (availability d = Availability_unavailable \<longrightarrow> reason d \<noteq> None) \<and>
     (availability d = Availability_ready \<longrightarrow> reason d = None) \<and>
     (availability d = Availability_disabled \<longleftrightarrow> intent input = Intent_disabled)"
  by (cases "intent input"; cases "observation input"; cases "client input"; cases "profile input")
    (simp_all add: ingress_defs Let_def split: option.splits remote_serve.splits)

section \<open>Property\<close>

text \<open>C37: the ingress admits requests exactly when it is enabled, freshly observed, served as an
  exact private mapping by an available client of the dedicated profile, with a valid origin and
  no failed operation; it is reported ready exactly when it admits, and an unavailable ingress
  always carries a reason.\<close>

theorem ingress_fails_closed:
  "let d = evaluateRemoteIngressAvailability input in
     (admission d = Admission_open \<longleftrightarrow> admissible input) \<and>
     (admission d = Admission_open \<longleftrightarrow> availability d = Availability_ready) \<and>
     (availability d = Availability_disabled \<longleftrightarrow> intent input = Intent_disabled) \<and>
     (reason d = None \<longleftrightarrow> admission d = Admission_open \<or>
        (intent input = Intent_disabled \<and> operationFailure input \<noteq> Some Cleanup_incomplete))"
  using ingress_open_iff_lemma [of input] ingress_consistent_lemma [of input]
  by (cases "intent input"; cases "observation input")
    (auto simp: Let_def ingress_defs split: ingress_splits)

end
