(* ===== verification/Error_Envelope.thy ===== *)
theory Error_Envelope
  imports Prelude
begin

text \<open>
  \<open>packages/core/src/errors.ts\<close>: the bounded error envelope that crosses every process
  boundary, and the guard that keeps credential-shaped detail keys out of it. Issue messages are
  constants of the issue code (and of the key) and are left out.
\<close>

section \<open>Codes and limits\<close>

definition errorCodes :: "js_string list" where
  "errorCodes = map js
     [''malformed_request'', ''route_not_found'', ''method_not_allowed'', ''not_acceptable'',
      ''unsupported_media_type'', ''request_too_large'', ''validation_error'',
      ''invalid_config'', ''missing_binary'', ''invalid_cwd'', ''duplicate_session_name'',
      ''invalid_session_id'', ''session_not_found'', ''session_not_writable'',
      ''stale_session'', ''host_locked'', ''permission_denied'', ''read_only'',
      ''audit_unavailable'', ''storage_error'', ''daemon_unavailable'',
      ''runtime_unavailable'', ''incompatible_runtime'', ''protocol_error'',
      ''operation_timeout'', ''operation_conflict'', ''capability_unavailable'',
      ''approval_not_pending'', ''rate_limited'', ''service_overloaded'', ''invalid_origin'',
      ''insecure_transport'', ''internal_error'', ''unknown_error'']"

definition isErrorCode :: "js_string \<Rightarrow> bool" where
  "isErrorCode value \<longleftrightarrow> value \<in> set errorCodes"

definition messageLength :: nat where "messageLength = 240"
definition fieldLength :: nat where "fieldLength = 80"
definition detailFieldCount :: nat where "detailFieldCount = 12"
definition detailKeyLength :: nat where "detailKeyLength = 64"
definition detailStringLength :: nat where "detailStringLength = 256"

lemmas envelope_limits = messageLength_def fieldLength_def detailFieldCount_def
  detailKeyLength_def detailStringLength_def

datatype envelope_issue =
  Empty_message | Message_too_long | Field_too_long | Invalid_details | Too_many_detail_fields
| Invalid_detail_key | Sensitive_detail_key | Invalid_detail_value | Detail_value_too_long

datatype origin = Produced | Received

text \<open>An \<open>unknown\<close> value: \<open>JOther\<close> is any object, function, symbol or big integer.\<close>

datatype js_value = JUndefined | JNull | JBool bool | JNum js_number | JStr js_string | JOther

text \<open>
  The optional \<open>details\<close>: absent, not an object (\<open>null\<close>, a primitive, an array), or an
  object given by its \<open>Object.entries\<close>.
\<close>

datatype details_input =
  Details_absent | Details_not_object | Details_object "(js_string \<times> js_value) list"

record envelope_input =
  in_code :: js_string
  in_message :: js_string
  in_retryable :: "bool option"
  in_field :: "js_string option"
  in_sessionId :: "js_string option"
  in_details :: details_input

record error_envelope =
  code :: js_string
  message :: js_string
  retryable :: bool
  field :: "js_string option"
  sessionId :: "js_string option"
  details :: "(js_string \<times> js_value) list option"

section \<open>Detail keys\<close>

text \<open>\<open>/^[a-zA-Z0-9_.-]+$/u\<close>\<close>

definition detailKeyPattern :: "js_string \<Rightarrow> bool" where
  "detailKeyPattern key \<longleftrightarrow>
     key \<noteq> [] \<and> list_all (\<lambda>c. isLetter c \<or> isDigit c \<or> c = 95 \<or> c = 46 \<or> c = 45) key"

text \<open>The simple case folding of \<open>/iu\<close> onto ASCII letters: the long s and the kelvin sign fold too.\<close>

definition caseFold :: "nat \<Rightarrow> nat" where
  "caseFold c = (if isUpper c then c + 32 else if c = 383 then 115 else if c = 8490 then 107 else c)"

fun containsWord :: "js_string \<Rightarrow> js_string \<Rightarrow> bool" where
  "containsWord [] w = startsWith [] w"
| "containsWord (c # s) w = (startsWith (c # s) w \<or> containsWord s w)"

text \<open>The \<open>_\<close>-separated segments of a key.\<close>

fun segments :: "js_string \<Rightarrow> js_string list" where
  "segments [] = [[]]"
| "segments (c # s) =
     (if c = 95 then [] # segments s
      else case segments s of [] \<Rightarrow> [[c]] | seg # rest \<Rightarrow> (c # seg) # rest)"

definition sensitiveWords :: "js_string list" where
  "sensitiveWords = map js
     [''authorization'', ''authentication'', ''bearer'', ''cookie'', ''credential'', ''csrf'',
      ''nonce'', ''passphrase'', ''password'', ''pairing'', ''secret'', ''signature'',
      ''token'']"

text \<open>
  The pattern's alternatives: a word anywhere, \<open>(?:^|_)auth(?:$|_)\<close>, which is a whole segment,
  and \<open>(?:^|_)(?:keys?|pins?|otp)$\<close>, which is the last segment.
\<close>

definition sensitiveDetailKeyPattern :: "js_string \<Rightarrow> bool" where
  "sensitiveDetailKeyPattern key \<longleftrightarrow>
     (let folded = map caseFold key in
      list_ex (containsWord folded) sensitiveWords \<or>
      js ''auth'' \<in> set (segments folded) \<or>
      last (segments folded) \<in> {js ''key'', js ''keys'', js ''pin'', js ''pins'', js ''otp''})"

definition validateDetailKey :: "js_string \<Rightarrow> envelope_issue option" where
  "validateDetailKey key =
     (if length key = 0 \<or> length key > detailKeyLength \<or> \<not> detailKeyPattern key
      then Some Invalid_detail_key
      else if sensitiveDetailKeyPattern key then Some Sensitive_detail_key
      else None)"

section \<open>Details\<close>

text \<open>
  \<open>boundedDetails[key] = value\<close> on a fresh object literal. Assigning a primitive or \<open>null\<close> to
  \<open>__proto__\<close> goes to the prototype accessor and creates no own property.
\<close>

definition assignDetail ::
    "(js_string \<times> js_value) list \<Rightarrow> js_string \<Rightarrow> js_value \<Rightarrow> (js_string \<times> js_value) list" where
  "assignDetail bounded key value =
     (if key = js ''__proto__'' then bounded else map_set bounded key value)"

fun validateEntries ::
    "(js_string \<times> js_value) list \<Rightarrow> origin \<Rightarrow> (js_string \<times> js_value) list \<Rightarrow>
     envelope_issue + (js_string \<times> js_value) list" where
  "validateEntries [] origin bounded = Inr bounded"
| "validateEntries ((key, value) # entries) origin bounded =
     (case validateDetailKey key of
        Some issue \<Rightarrow>
          if origin = Received \<and> issue = Sensitive_detail_key
          then validateEntries entries origin bounded
          else Inl issue
      | None \<Rightarrow>
          (case value of
             JStr s \<Rightarrow>
               if length s > detailStringLength then Inl Detail_value_too_long
               else validateEntries entries origin (assignDetail bounded key value)
           | JNum n \<Rightarrow>
               if \<not> isFiniteNumber n then Inl Invalid_detail_value
               else validateEntries entries origin (assignDetail bounded key value)
           | JBool _ \<Rightarrow> validateEntries entries origin (assignDetail bounded key value)
           | JNull \<Rightarrow> validateEntries entries origin (assignDetail bounded key value)
           | _ \<Rightarrow> Inl Invalid_detail_value))"

definition validateDetails ::
    "details_input \<Rightarrow> origin \<Rightarrow> envelope_issue + (js_string \<times> js_value) list option" where
  "validateDetails d origin =
     (case d of
        Details_absent \<Rightarrow> Inr None
      | Details_not_object \<Rightarrow> Inl Invalid_details
      | Details_object entries \<Rightarrow>
          if length entries > detailFieldCount then Inl Too_many_detail_fields
          else map_sum id Some (validateEntries entries origin []))"

section \<open>The envelope\<close>

definition parseErrorEnvelope :: "envelope_input \<Rightarrow> origin \<Rightarrow> envelope_issue + error_envelope" where
  "parseErrorEnvelope input origin =
     (let msg = trim (in_message input) in
      if length msg = 0 then Inl Empty_message
      else if length msg > messageLength then Inl Message_too_long
      else if (case in_field input of None \<Rightarrow> False | Some f \<Rightarrow> length f > fieldLength)
      then Inl Field_too_long
      else case validateDetails (in_details input) origin of
        Inl issue \<Rightarrow> Inl issue
      | Inr bounded \<Rightarrow>
          Inr \<lparr>code = in_code input, message = msg,
               retryable = (case in_retryable input of None \<Rightarrow> False | Some r \<Rightarrow> r),
               field = in_field input, sessionId = in_sessionId input, details = bounded\<rparr>)"

text \<open>\<open>createErrorEnvelope\<close> throws a \<open>TypeError\<close> with the issue's message.\<close>

definition createErrorEnvelope :: "envelope_input \<Rightarrow> origin \<Rightarrow> envelope_issue + error_envelope" where
  "createErrorEnvelope input origin =
     (case parseErrorEnvelope input origin of Inl issue \<Rightarrow> Inl issue | Inr env \<Rightarrow> Inr env)"

section \<open>Lemmas\<close>

definition boundedValue :: "js_value \<Rightarrow> bool" where
  "boundedValue v =
     (case v of
        JStr s \<Rightarrow> length s \<le> detailStringLength
      | JNum n \<Rightarrow> isFiniteNumber n
      | JBool _ \<Rightarrow> True
      | JNull \<Rightarrow> True
      | _ \<Rightarrow> False)"

definition safeDetail :: "js_string \<times> js_value \<Rightarrow> bool" where
  "safeDetail p \<longleftrightarrow>
     validateDetailKey (fst p) = None \<and> fst p \<noteq> js ''__proto__'' \<and> boundedValue (snd p)"

lemma validateEntries_Cons:
  "validateEntries ((key, value) # entries) origin bounded =
     (case validateDetailKey key of
        Some issue \<Rightarrow>
          if origin = Received \<and> issue = Sensitive_detail_key
          then validateEntries entries origin bounded
          else Inl issue
      | None \<Rightarrow>
          if boundedValue value then validateEntries entries origin (assignDetail bounded key value)
          else Inl (case value of JStr _ \<Rightarrow> Detail_value_too_long | _ \<Rightarrow> Invalid_detail_value))"
  by (auto simp: boundedValue_def split: option.splits js_value.splits)

lemma set_map_set: "set (map_set m k v) \<subseteq> insert (k, v) (set m)"
  by (induction m) auto

lemma validateEntries_safe:
  "validateEntries entries origin bounded = Inr out \<Longrightarrow> \<forall>p \<in> set bounded. safeDetail p \<Longrightarrow>
     \<forall>p \<in> set out. safeDetail p"
proof (induction entries arbitrary: bounded)
  case (Cons e entries)
  obtain key val where e: "e = (key, val)" by (cases e)
  have step: "\<forall>p \<in> set (assignDetail bounded key val). safeDetail p"
    if "validateDetailKey key = None" "boundedValue val"
    using that Cons.prems(2) set_map_set [of bounded key val]
    by (auto simp: assignDetail_def safeDetail_def)
  from Cons show ?case
    unfolding e validateEntries_Cons by (auto split: option.splits if_splits dest: step)
qed simp

lemma length_map_set: "length (map_set m k v) \<le> Suc (length m)"
  by (induction m) auto

lemma validateEntries_length:
  "validateEntries entries origin bounded = Inr out \<Longrightarrow> length out \<le> length bounded + length entries"
proof (induction entries arbitrary: bounded)
  case (Cons e entries)
  obtain key val where e: "e = (key, val)" by (cases e)
  have "length (assignDetail bounded key val) \<le> Suc (length bounded)"
    by (simp add: assignDetail_def length_map_set)
  then show ?case
    using Cons unfolding e validateEntries_Cons
    by (fastforce split: option.splits if_splits)
qed simp

lemma validateEntries_received_filter:
  "validateEntries entries Received bounded =
   validateEntries (filter (\<lambda>p. validateDetailKey (fst p) \<noteq> Some Sensitive_detail_key) entries)
     Produced bounded"
proof (induction entries arbitrary: bounded)
  case (Cons e entries)
  obtain key val where e: "e = (key, val)" by (cases e)
  show ?case
    by (auto simp: e validateEntries_Cons Cons.IH simp del: validateEntries.simps(2)
        split: option.splits)
qed simp

lemma map_set_fresh: "k \<notin> fst ` set m \<Longrightarrow> map_set m k v = m @ [(k, v)]"
  by (induction m) auto

text \<open>Details that are already safe and distinct come back as they are.\<close>

lemma validateEntries_fixed:
  "\<forall>p \<in> set entries. safeDetail p \<Longrightarrow> distinct (map fst (bounded @ entries)) \<Longrightarrow>
     validateEntries entries origin bounded = Inr (bounded @ entries)"
proof (induction entries arbitrary: bounded)
  case (Cons e entries)
  obtain key val where e: "e = (key, val)" by (cases e)
  from Cons.prems have safe: "validateDetailKey key = None" "boundedValue val"
    "key \<noteq> js ''__proto__''" and fresh: "key \<notin> fst ` set bounded"
    by (auto simp: e safeDetail_def)
  then have "assignDetail bounded key val = bounded @ [(key, val)]"
    by (simp add: assignDetail_def map_set_fresh)
  with Cons.IH [of "bounded @ [(key, val)]"] Cons.prems safe show ?case
    unfolding e validateEntries_Cons by (simp add: e)
qed simp

lemma validateEntries_distinct:
  "validateEntries entries origin bounded = Inr out \<Longrightarrow> map_ok bounded \<Longrightarrow> map_ok out"
proof (induction entries arbitrary: bounded)
  case (Cons e entries)
  obtain key val where e: "e = (key, val)" by (cases e)
  have "map_ok (assignDetail bounded key val)"
    using Cons.prems by (simp add: assignDetail_def map_ok_set)
  with Cons show ?case
    unfolding e validateEntries_Cons by (auto split: option.splits if_splits)
qed simp

lemma map_sum_Inr_iff: "map_sum f g x = Inr y \<longleftrightarrow> (\<exists>z. x = Inr z \<and> y = g z)"
  by (cases x) auto

lemma validateDetails_safe:
  assumes "validateDetails d origin = Inr (Some out)"
  shows "length out \<le> detailFieldCount" "\<forall>p \<in> set out. safeDetail p" "map_ok out"
proof -
  from assms obtain entries where entries: "validateEntries entries origin [] = Inr out"
    "length entries \<le> detailFieldCount"
    by (cases d)
      (auto simp: validateDetails_def map_sum_Inr_iff split: if_splits)
  from validateEntries_length [OF entries(1)] entries(2) show "length out \<le> detailFieldCount" by simp
  from validateEntries_safe [OF entries(1)] show "\<forall>p \<in> set out. safeDetail p" by simp
  from validateEntries_distinct [OF entries(1)] show "map_ok out" by simp
qed

section \<open>Properties\<close>

lemmas key_evaluation = validateDetailKey_def detailKeyLength_def detailKeyPattern_def
  sensitiveDetailKeyPattern_def sensitiveWords_def Let_def js_def startsWith_def caseFold_def char_class_defs

text \<open>C31: an accepted error envelope is bounded and carries no credential-shaped detail, whichever
  side it came from: its message is trimmed and has 1 to 240 characters, its field at most 80, and
  its details are at most 12 distinct keys of 1 to 64 characters, none of them sensitive, with
  short strings, finite numbers, booleans or null.\<close>

theorem envelope_is_bounded:
  assumes "createErrorEnvelope input origin = Inr env"
  shows "message env = trim (in_message input) \<and> 1 \<le> length (message env) \<and> length (message env) \<le> 240 \<and>
    (\<forall>f. field env = Some f \<longrightarrow> length f \<le> 80) \<and>
    (\<forall>ds. details env = Some ds \<longrightarrow> length ds \<le> 12 \<and> distinct (map fst ds) \<and>
       (\<forall>(key, val) \<in> set ds. 1 \<le> length key \<and> length key \<le> 64 \<and> \<not> sensitiveDetailKeyPattern key \<and>
          boundedValue val))"
proof -
  from assms obtain ds where ds: "validateDetails (in_details input) origin = Inr ds" "details env = ds"
    and msg: "message env = trim (in_message input)" "message env \<noteq> []" "length (message env) \<le> 240"
    and fld: "\<forall>f. field env = Some f \<longrightarrow> length f \<le> 80"
    by (auto simp: createErrorEnvelope_def parseErrorEnvelope_def Let_def envelope_limits
        split: if_splits sum.splits option.splits)
  have "length out \<le> 12 \<and> distinct (map fst out) \<and>
      (\<forall>(key, val) \<in> set out. 1 \<le> length key \<and> length key \<le> 64 \<and> \<not> sensitiveDetailKeyPattern key \<and> boundedValue val)"
    if "details env = Some out" for out
  proof -
    from ds that have "validateDetails (in_details input) origin = Inr (Some out)" by simp
    from validateDetails_safe [OF this] have out: "length out \<le> 12" "\<forall>p \<in> set out. safeDetail p" "map_ok out"
      by (simp_all add: detailFieldCount_def)
    have "1 \<le> length key \<and> length key \<le> 64 \<and> \<not> sensitiveDetailKeyPattern key \<and> boundedValue val"
      if "(key, val) \<in> set out" for key val
      using out(2) that
      by (fastforce simp: safeDetail_def validateDetailKey_def detailKeyLength_def Suc_le_eq split: if_splits)
    with out show ?thesis by (auto simp: map_ok_def)
  qed
  with msg fld show ?thesis by (simp add: Suc_le_eq)
qed

definition exampleEnvelopeInput :: envelope_input where
  "exampleEnvelopeInput =
     \<lparr>in_code = js ''rate_limited'', in_message = js '' slow down '', in_retryable = Some True, in_field = None,
      in_sessionId = None, in_details = Details_object [(js ''limit'', JNum (Finite 5))]\<rparr>"

lemma exampleEnvelope_accepted:
  "createErrorEnvelope exampleEnvelopeInput Produced =
     Inr \<lparr>code = js ''rate_limited'', message = js ''slow down'', retryable = True, field = None,
          sessionId = None, details = Some [(js ''limit'', JNum (Finite 5))]\<rparr>"
proof -
  have "validateDetailKey (js ''limit'') = None" by (simp add: key_evaluation)
  moreover have "trim (js '' slow down '') = js ''slow down''"
    by (simp add: trim_def js_def isWhitespace_def)
  ultimately show ?thesis
    by (simp add: createErrorEnvelope_def parseErrorEnvelope_def exampleEnvelopeInput_def Let_def envelope_limits
        validateDetails_def isFiniteNumber_def assignDetail_def)
qed

theorem envelope_is_bounded_witness: "length (trim (in_message exampleEnvelopeInput)) \<le> 240"
proof -
  from envelope_is_bounded [OF exampleEnvelope_accepted]
  have "js ''slow down'' = trim (in_message exampleEnvelopeInput)" by simp
  then show ?thesis by (simp flip: \<open>js ''slow down'' = _\<close>)
qed

text \<open>C32: reading an envelope back drops exactly the sensitive details: an envelope received from a
  peer parses as the same envelope without its sensitive entries parses when it is produced, as
  long as the entries are within the count limit.\<close>

theorem received_strips_sensitive:
  assumes "in_details input = Details_object entries" "length entries \<le> 12"
    and "safe = filter (\<lambda>p. validateDetailKey (fst p) \<noteq> Some Sensitive_detail_key) entries"
  shows "parseErrorEnvelope input Received = parseErrorEnvelope (input\<lparr>in_details := Details_object safe\<rparr>) Produced"
proof -
  have "length safe \<le> 12" using assms(2,3) length_filter_le [of _ entries] by (metis order.trans)
  with assms have "validateDetails (Details_object entries) Received = validateDetails (Details_object safe) Produced"
    by (simp add: validateDetails_def detailFieldCount_def validateEntries_received_filter)
  with assms(1) show ?thesis
    by (cases "validateDetails (Details_object safe) Produced") (simp_all add: parseErrorEnvelope_def Let_def)
qed

theorem received_strips_sensitive_witness:
  "parseErrorEnvelope (exampleEnvelopeInput\<lparr>in_details := Details_object [(js ''api_key'', JNull)]\<rparr>) Received =
   parseErrorEnvelope (exampleEnvelopeInput\<lparr>in_details := Details_object []\<rparr>) Produced"
proof -
  have key: "validateDetailKey (js ''api_key'') = Some Sensitive_detail_key" by (simp add: key_evaluation)
  show ?thesis
    using received_strips_sensitive [of "exampleEnvelopeInput\<lparr>in_details := Details_object [(js ''api_key'', JNull)]\<rparr>",
        OF _ _ refl, where entries = "[(js ''api_key'', JNull)]"] key
    by simp
qed

text \<open>What a peer reads of an envelope it received.\<close>

definition asInput :: "error_envelope \<Rightarrow> envelope_input" where
  "asInput env =
     \<lparr>in_code = code env, in_message = message env, in_retryable = Some (retryable env), in_field = field env,
      in_sessionId = sessionId env,
      in_details = (case details env of None \<Rightarrow> Details_absent | Some ds \<Rightarrow> Details_object ds)\<rparr>"

text \<open>C33: an envelope survives the boundary: what one process produced, another that receives it
  parses to the same envelope.\<close>

theorem envelope_roundtrip:
  assumes "createErrorEnvelope input origin = Inr env"
  shows "parseErrorEnvelope (asInput env) origin' = Inr env"
proof -
  from assms obtain ds where ds: "validateDetails (in_details input) origin = Inr ds" "details env = ds"
    and msg: "message env = trim (in_message input)" "message env \<noteq> []" "length (message env) \<le> 240"
    and fld: "\<forall>f. field env = Some f \<longrightarrow> length f \<le> 80"
    by (auto simp: createErrorEnvelope_def parseErrorEnvelope_def Let_def envelope_limits
        split: if_splits sum.splits option.splits)
  have trimmed: "trim (message env) = message env" by (simp add: msg(1))
  have "validateDetails (in_details (asInput env)) origin' = Inr (details env)"
  proof (cases "details env")
    case (Some out)
    with ds have "validateDetails (in_details input) origin = Inr (Some out)" by simp
    from validateDetails_safe [OF this] have "validateEntries out origin' [] = Inr out" "length out \<le> detailFieldCount"
      using validateEntries_fixed [of out "[]" origin'] by (simp_all add: map_ok_def)
    with Some show ?thesis by (simp add: asInput_def validateDetails_def)
  qed (simp add: asInput_def validateDetails_def)
  with trimmed msg fld show ?thesis
    by (cases env) (auto simp: parseErrorEnvelope_def asInput_def Let_def envelope_limits split: option.splits)
qed

theorem envelope_roundtrip_witness:
  "\<exists>env. createErrorEnvelope exampleEnvelopeInput Produced = Inr env \<and>
     parseErrorEnvelope (asInput env) Received = Inr env"
  using exampleEnvelope_accepted envelope_roundtrip [OF exampleEnvelope_accepted] by blast

text \<open>
  The keys the comment beside the pattern names. Of the short terms only the keys, pins and one-time
  codes are anchored to the final segment; \<open>auth\<close> is refused in any segment.
\<close>

theorem sensitive_key_examples:
  "(\<forall>key \<in> {js ''key_count_total'', js ''pinned'', js ''author'', js ''session_id'', js ''device_id'',
      js ''operation_id''}. validateDetailKey key = None) \<and>
   (\<forall>key \<in> {js ''api_key'', js ''device_pin'', js ''auth'', js ''auth_mode''}.
      validateDetailKey key = Some Sensitive_detail_key)"
proof -
  have "validateDetailKey (js ''key_count_total'') = None" by (simp add: key_evaluation)
  moreover have "validateDetailKey (js ''pinned'') = None" by (simp add: key_evaluation)
  moreover have "validateDetailKey (js ''author'') = None" by (simp add: key_evaluation)
  moreover have "validateDetailKey (js ''session_id'') = None" by (simp add: key_evaluation)
  moreover have "validateDetailKey (js ''device_id'') = None" by (simp add: key_evaluation)
  moreover have "validateDetailKey (js ''operation_id'') = None" by (simp add: key_evaluation)
  moreover have "validateDetailKey (js ''api_key'') = Some Sensitive_detail_key" by (simp add: key_evaluation)
  moreover have "validateDetailKey (js ''device_pin'') = Some Sensitive_detail_key" by (simp add: key_evaluation)
  moreover have "validateDetailKey (js ''auth'') = Some Sensitive_detail_key" by (simp add: key_evaluation)
  moreover have "validateDetailKey (js ''auth_mode'') = Some Sensitive_detail_key" by (simp add: key_evaluation)
  ultimately show ?thesis by blast
qed

text \<open>A detail named \<open>__proto__\<close> passes every check and is lost without an issue.\<close>

theorem proto_detail_is_lost:
  "validateDetails (Details_object [(js ''__proto__'', JBool True)]) Produced = Inr (Some [])"
  by (simp add: validateDetails_def key_evaluation assignDetail_def detailFieldCount_def)

end
