(* ===== verification/Deadline.thy ===== *)
theory Deadline
  imports Prelude
begin

text \<open>
  \<open>packages/core/src/deadline.ts\<close>: the timer-owning operation deadline and the deadline view over
  a signal that another owner aborts, and \<open>requireOpenOperationDeadline\<close> of
  \<open>packages/server/src/operation-deadline-serialization.ts\<close>, which uses either.

  A clock read is an argument of the operation that makes it (\<open>clock_reading\<close>), so every
  behaviour of the injected clock is covered: throwing, returning NaN, going backwards. The
  effects on the environment are part of the state: which timer is armed, which timers have been
  cleared, whether the abort listener is attached to the parent signal. Times are exact
  rationals. \<open>removeEventListener\<close> and \<open>clearTimeout\<close> are taken not to throw.
\<close>

section \<open>Signals, readings and errors\<close>

text \<open>
  The reason of an aborted signal: the deadline's own error, another \<open>Error\<close>, or any other
  value. An unaborted signal is \<open>None\<close>.
\<close>

datatype abort_reason = Deadline_exceeded | Error_reason nat | Other_reason nat

type_synonym abort_signal = "abort_reason option"

datatype clock_reading = Clock_throws nat | Clock_returns js_number

datatype deadline_error =
  Type_error | Range_error | Clock_error nat | Disposed_error
| Thrown_reason abort_reason | Operation_aborted abort_reason

definition minimumTimeoutMs :: int where "minimumTimeoutMs = 1"
definition maximumTimeoutMs :: int where "maximumTimeoutMs = 300000"

lemmas timeout_limits = minimumTimeoutMs_def maximumTimeoutMs_def

text \<open>\<open>None\<close> is a candidate that is not a number.\<close>

definition parseTimeout :: "js_number option \<Rightarrow> deadline_error + int" where
  "parseTimeout candidate =
     (case candidate of
        Some (Finite r) \<Rightarrow>
          if \<not> isSafeInteger (Finite r) \<or> r < of_int minimumTimeoutMs \<or> r > of_int maximumTimeoutMs
          then Inl Type_error else Inr \<lfloor>r\<rfloor>
      | _ \<Rightarrow> Inl Type_error)"

definition readInitialNow :: "bool \<Rightarrow> clock_reading \<Rightarrow> deadline_error + rat" where
  "readInitialNow clockHasNow reading =
     (if \<not> clockHasNow then Inl Type_error
      else case reading of
        Clock_throws e \<Rightarrow> Inl (Clock_error e)
      | Clock_returns (Finite now) \<Rightarrow> if now < 0 then Inl Type_error else Inr now
      | Clock_returns _ \<Rightarrow> Inl Type_error)"

definition readMonotonicNow :: "clock_reading \<Rightarrow> rat \<Rightarrow> deadline_error + rat" where
  "readMonotonicNow reading previous =
     (case reading of
        Clock_throws e \<Rightarrow> Inl (Clock_error e)
      | Clock_returns (Finite now) \<Rightarrow>
          if now < 0 then Inl Type_error
          else if now < previous then Inl Range_error
          else Inr now
      | Clock_returns _ \<Rightarrow> Inl Type_error)"

text \<open>\<open>throw reason instanceof Error ? reason : new OperationAbortedError(reason)\<close>\<close>

definition throwAbortReason :: "abort_reason \<Rightarrow> deadline_error" where
  "throwAbortReason reason =
     (case reason of Other_reason _ \<Rightarrow> Operation_aborted reason | _ \<Rightarrow> Thrown_reason reason)"

section \<open>The timer-owning deadline\<close>

record deadline =
  startedAtMs :: rat
  expiresAtMs :: rat
  timeoutMsLimit :: int
  hasParent :: bool
  listening :: bool
  signal :: abort_signal
  timer :: "nat option"
  clearedTimers :: "nat list"
  lastNowMs :: rat
  disposed :: bool

definition clearTimer :: "deadline \<Rightarrow> deadline" where
  "clearTimer d =
     (case timer d of
        None \<Rightarrow> d
      | Some h \<Rightarrow> d\<lparr>clearedTimers := h # clearedTimers d, timer := None\<rparr>)"

definition abortFromParent :: "abort_reason \<Rightarrow> deadline \<Rightarrow> deadline" where
  "abortFromParent reason d =
     (if disposed d \<or> signal d \<noteq> None then d
      else (clearTimer d)\<lparr>listening := False, signal := Some reason\<rparr>)"

definition expire :: "deadline \<Rightarrow> deadline" where
  "expire d =
     (if disposed d \<or> signal d \<noteq> None then d
      else (clearTimer d)\<lparr>listening := False, signal := Some Deadline_exceeded\<rparr>)"

definition dispose :: "deadline \<Rightarrow> deadline" where
  "dispose d =
     (if disposed d then d else (clearTimer (d\<lparr>disposed := True\<rparr>))\<lparr>listening := False\<rparr>)"

text \<open>
  What \<open>clock.setTimeout\<close> does: it throws, returns \<open>undefined\<close>, or returns a handle, possibly
  after the expiry callback or the parent's abort has already run.
\<close>

datatype during_schedule = Quiet | Expires | Parent_aborts abort_reason

datatype schedule = Schedule_throws | Schedule_undefined | Schedule_handle nat during_schedule

text \<open>The parent argument: absent, not a usable signal, or a signal in some state.\<close>

datatype parent_arg = No_parent | Invalid_parent | Parent abort_signal

fun duringSchedule :: "during_schedule \<Rightarrow> deadline \<Rightarrow> deadline" where
  "duringSchedule Quiet d = d"
| "duringSchedule Expires d = expire d"
| "duringSchedule (Parent_aborts reason) d = (if hasParent d then abortFromParent reason d else d)"

text \<open>
  The constructor. \<open>parentAfter\<close> is the parent's state at the second check, after the listener
  is attached.
\<close>

definition constructDeadline ::
    "rat \<Rightarrow> int \<Rightarrow> parent_arg \<Rightarrow> abort_signal \<Rightarrow> schedule \<Rightarrow> deadline_error + deadline" where
  "constructDeadline started limit parent parentAfter sched =
     (let fresh = \<lparr>startedAtMs = started, expiresAtMs = started + of_int limit,
                   timeoutMsLimit = limit, hasParent = (case parent of Parent _ \<Rightarrow> True | _ \<Rightarrow> False),
                   listening = False, signal = None, timer = None, clearedTimers = [],
                   lastNowMs = started, disposed = False\<rparr> in
      case parent of
        Parent (Some reason) \<Rightarrow> Inr (fresh\<lparr>signal := Some reason\<rparr>)
      | _ \<Rightarrow>
          (let attached = fresh\<lparr>listening := hasParent fresh\<rparr> in
           case (hasParent fresh, parentAfter) of
             (True, Some reason) \<Rightarrow> Inr (abortFromParent reason attached)
           | _ \<Rightarrow>
               (case sched of
                  Schedule_throws \<Rightarrow> Inl Type_error
                | Schedule_undefined \<Rightarrow> Inl Type_error
                | Schedule_handle h during \<Rightarrow>
                    (let d = duringSchedule during attached in
                     if signal d \<noteq> None then Inr (d\<lparr>clearedTimers := h # clearedTimers d\<rparr>)
                     else Inr (d\<lparr>timer := Some h\<rparr>)))))"

text \<open>
  \<open>createOperationDeadline\<close>: \<open>inputIsObject\<close> and \<open>clockValid\<close> are the shape checks on the input
  and on the clock. The expiry of finite times is finite.
\<close>

definition createOperationDeadline ::
    "bool \<Rightarrow> js_number option \<Rightarrow> parent_arg \<Rightarrow> bool \<Rightarrow> clock_reading \<Rightarrow> abort_signal \<Rightarrow> schedule \<Rightarrow>
     deadline_error + deadline" where
  "createOperationDeadline inputIsObject timeout parent clockValid reading parentAfter sched =
     (if \<not> inputIsObject then Inl Type_error
      else case parseTimeout timeout of
        Inl e \<Rightarrow> Inl e
      | Inr limit \<Rightarrow>
          if parent = Invalid_parent then Inl Type_error
          else if \<not> clockValid then Inl Type_error
          else case readInitialNow clockValid reading of
            Inl e \<Rightarrow> Inl e
          | Inr started \<Rightarrow> constructDeadline started limit parent parentAfter sched)"

definition remainingMs :: "deadline \<Rightarrow> clock_reading \<Rightarrow> (deadline_error + rat) \<times> deadline" where
  "remainingMs d reading =
     (if disposed d then (Inl Disposed_error, d)
      else if signal d \<noteq> None then (Inr 0, d)
      else case readMonotonicNow reading (lastNowMs d) of
        Inl e \<Rightarrow> (Inl e, d)
      | Inr now \<Rightarrow>
          let d = d\<lparr>lastNowMs := now\<rparr> in
          if expiresAtMs d \<le> now then (Inr 0, expire d)
          else (Inr (min (of_int (timeoutMsLimit d)) (expiresAtMs d - now)), d))"

definition throwIfAborted :: "deadline \<Rightarrow> clock_reading \<Rightarrow> (deadline_error + unit) \<times> deadline" where
  "throwIfAborted d reading =
     (if disposed d then (Inl Disposed_error, d)
      else
        case (if signal d = None then remainingMs d reading else (Inr 0, d)) of
          (Inl e, d) \<Rightarrow> (Inl e, d)
        | (Inr _, d) \<Rightarrow>
            (case signal d of
               None \<Rightarrow> (Inr (), d)
             | Some reason \<Rightarrow> (Inl (throwAbortReason reason), d)))"

text \<open>The optional cap: \<open>None\<close> is \<open>undefined\<close>.\<close>

definition parseCap :: "js_number option option \<Rightarrow> deadline_error + int" where
  "parseCap maximum = (case maximum of None \<Rightarrow> Inr maximumTimeoutMs | Some c \<Rightarrow> parseTimeout c)"

definition timeoutMs ::
    "deadline \<Rightarrow> js_number option option \<Rightarrow> clock_reading \<Rightarrow> clock_reading \<Rightarrow> clock_reading \<Rightarrow>
     (deadline_error + int) \<times> deadline" where
  "timeoutMs d maximum reading1 reading2 reading3 =
     (if disposed d then (Inl Disposed_error, d)
      else case parseCap maximum of
        Inl e \<Rightarrow> (Inl e, d)
      | Inr cap \<Rightarrow>
          (case throwIfAborted d reading1 of
             (Inl e, d) \<Rightarrow> (Inl e, d)
           | (Inr _, d) \<Rightarrow>
               (case remainingMs d reading2 of
                  (Inl e, d) \<Rightarrow> (Inl e, d)
                | (Inr r, d) \<Rightarrow>
                    (let remaining = \<lceil>r\<rceil> in
                     if remaining < 1 then
                       (case throwIfAborted (expire d) reading3 of
                          (Inl e, d) \<Rightarrow> (Inl e, d)
                        | (Inr _, d) \<Rightarrow> (Inr (min remaining cap), d))
                     else (Inr (min remaining cap), d)))))"

section \<open>The deadline view\<close>

record deadline_view =
  view_startedAtMs :: rat
  view_expiresAtMs :: rat
  view_timeoutMs :: int
  view_lastNowMs :: rat
  view_disposed :: bool

definition createOperationDeadlineView ::
    "bool \<Rightarrow> js_number option \<Rightarrow> parent_arg \<Rightarrow> bool \<Rightarrow> clock_reading \<Rightarrow> deadline_error + deadline_view" where
  "createOperationDeadlineView inputIsObject timeout sig clockHasNow reading =
     (if \<not> inputIsObject then Inl Type_error
      else case parseTimeout timeout of
        Inl e \<Rightarrow> Inl e
      | Inr limit \<Rightarrow>
          if sig = Invalid_parent then Inl Type_error
          else case readInitialNow clockHasNow reading of
            Inl e \<Rightarrow> Inl e
          | Inr started \<Rightarrow>
              Inr \<lparr>view_startedAtMs = started, view_expiresAtMs = started + of_int limit,
                   view_timeoutMs = limit, view_lastNowMs = started, view_disposed = False\<rparr>)"

text \<open>The signal belongs to its owner, so each operation reads its current state.\<close>

definition view_remainingMs ::
    "deadline_view \<Rightarrow> abort_signal \<times> clock_reading \<Rightarrow> (deadline_error + rat) \<times> deadline_view" where
  "view_remainingMs v env =
     (if view_disposed v then (Inl Disposed_error, v)
      else if fst env \<noteq> None then (Inr 0, v)
      else case readMonotonicNow (snd env) (view_lastNowMs v) of
        Inl e \<Rightarrow> (Inl e, v)
      | Inr now \<Rightarrow>
          (Inr (min (of_int (view_timeoutMs v)) (max 0 (view_expiresAtMs v - now))),
           v\<lparr>view_lastNowMs := now\<rparr>))"

definition view_throwIfAborted ::
    "deadline_view \<Rightarrow> abort_signal \<times> clock_reading \<Rightarrow> (deadline_error + unit) \<times> deadline_view" where
  "view_throwIfAborted v env =
     (if view_disposed v then (Inl Disposed_error, v)
      else case fst env of
        Some reason \<Rightarrow> (Inl (throwAbortReason reason), v)
      | None \<Rightarrow>
          (case view_remainingMs v env of
             (Inl e, v) \<Rightarrow> (Inl e, v)
           | (Inr r, v) \<Rightarrow>
               if r \<le> 0 then (Inl (Thrown_reason Deadline_exceeded), v) else (Inr (), v)))"

definition view_timeout ::
    "deadline_view \<Rightarrow> js_number option option \<Rightarrow> abort_signal \<times> clock_reading \<Rightarrow>
     abort_signal \<times> clock_reading \<Rightarrow> (deadline_error + int) \<times> deadline_view" where
  "view_timeout v maximum env1 env2 =
     (if view_disposed v then (Inl Disposed_error, v)
      else case parseCap maximum of
        Inl e \<Rightarrow> (Inl e, v)
      | Inr cap \<Rightarrow>
          (case view_throwIfAborted v env1 of
             (Inl e, v) \<Rightarrow> (Inl e, v)
           | (Inr _, v) \<Rightarrow>
               (case view_remainingMs v env2 of
                  (Inl e, v) \<Rightarrow> (Inl e, v)
                | (Inr r, v) \<Rightarrow> (Inr (min \<lceil>r\<rceil> cap), v))))"

definition view_dispose :: "deadline_view \<Rightarrow> deadline_view" where
  "view_dispose v = v\<lparr>view_disposed := True\<rparr>"

section \<open>The client of a deadline\<close>

datatype require_failure = Invalid_contract | Failed deadline_error | No_remaining_time

text \<open>
  \<open>requireOpenOperationDeadline\<close> over the operations of any deadline: \<open>contractOk\<close> is
  \<open>assertOperationDeadlineContract\<close>; \<open>failure\<close> and \<open>invalid\<close> wrap the cause, which is kept.
\<close>

definition requireOpenOperationDeadline ::
    "bool \<Rightarrow> ('d \<Rightarrow> 'e \<Rightarrow> (deadline_error + unit) \<times> 'd) \<Rightarrow> ('d \<Rightarrow> 'e \<Rightarrow> (deadline_error + rat) \<times> 'd) \<Rightarrow>
     'd \<Rightarrow> 'e \<Rightarrow> 'e \<Rightarrow> 'e \<Rightarrow> (require_failure + unit) \<times> 'd" where
  "requireOpenOperationDeadline contractOk check remaining d e1 e2 e3 =
     (if \<not> contractOk then (Inl Invalid_contract, d)
      else case check d e1 of
        (Inl e, d) \<Rightarrow> (Inl (Failed e), d)
      | (Inr _, d) \<Rightarrow>
          (case remaining d e2 of
             (Inl e, d) \<Rightarrow> (Inl (Failed e), d)
           | (Inr r, d) \<Rightarrow>
               if r \<le> 0 then
                 (case check d e3 of
                    (Inl e, d) \<Rightarrow> (Inl (Failed e), d)
                  | (Inr _, d) \<Rightarrow> (Inl No_remaining_time, d))
               else (Inr (), d)))"

text \<open>
  What every user of a deadline relies on. \<open>bound d\<close> is the most time a later read can report.
\<close>

locale operation_deadline =
  fixes remaining :: "'d \<Rightarrow> 'e \<Rightarrow> (deadline_error + rat) \<times> 'd"
    and check :: "'d \<Rightarrow> 'e \<Rightarrow> (deadline_error + unit) \<times> 'd"
    and release :: "'d \<Rightarrow> 'd"
    and bound :: "'d \<Rightarrow> rat"
    and released :: "'d \<Rightarrow> bool"
    and ok :: "'d \<Rightarrow> bool"
  assumes remaining_ok: "ok d \<Longrightarrow> ok (snd (remaining d e))"
    and check_ok: "ok d \<Longrightarrow> ok (snd (check d e))"
    and release_ok: "ok d \<Longrightarrow> ok (release d)"
    and remaining_range: "ok d \<Longrightarrow> remaining d e = (Inr r, d') \<Longrightarrow> 0 \<le> r \<and> r \<le> bound d"
    and remaining_bound: "ok d \<Longrightarrow> bound (snd (remaining d e)) \<le> bound d"
    and check_bound: "ok d \<Longrightarrow> bound (snd (check d e)) \<le> bound d"
    and released_throws: "released d \<Longrightarrow>
          remaining d e = (Inl Disposed_error, d) \<and> check d e = (Inl Disposed_error, d)"
    and remaining_released: "released (snd (remaining d e)) \<longleftrightarrow> released d"
    and check_released: "released (snd (check d e)) \<longleftrightarrow> released d"
    and release_released: "released (release d)"
begin

lemma require_open:
  assumes "ok d" "requireOpenOperationDeadline contractOk check remaining d e1 e2 e3 = (Inr (), d')"
  shows "ok d'" "\<not> released d" "0 < bound d"
proof -
  from assms(2) obtain d1 r where 1: "check d e1 = (Inr (), d1)" and 2: "remaining d1 e2 = (Inr r, d')"
    and r: "0 < r"
    by (auto simp: requireOpenOperationDeadline_def split: if_splits prod.splits sum.splits)
  from check_ok [OF assms(1), of e1] 1 have ok1: "ok d1" by simp
  from remaining_ok [OF this, of e2] 2 show "ok d'" by simp
  from 1 released_throws show "\<not> released d" by force
  from check_bound [OF assms(1), of e1] 1 have "bound d1 \<le> bound d" by simp
  with remaining_range [OF ok1 2] r show "0 < bound d" by simp
qed

lemma require_released:
  "released d \<Longrightarrow> fst (requireOpenOperationDeadline True check remaining d e1 e2 e3) =
     Inl (Failed Disposed_error)"
  by (simp add: requireOpenOperationDeadline_def released_throws)

text \<open>The times reported over any sequence of reads.\<close>

fun reads :: "'d \<Rightarrow> 'e list \<Rightarrow> (deadline_error + rat) list" where
  "reads d [] = []"
| "reads d (e # es) = fst (remaining d e) # reads (snd (remaining d e)) es"

lemma reads_range: "ok d \<Longrightarrow> Inr r \<in> set (reads d es) \<Longrightarrow> 0 \<le> r \<and> r \<le> bound d"
proof (induction es arbitrary: d)
  case (Cons e es)
  obtain x d1 where rem: "remaining d e = (x, d1)" by fastforce
  from Cons.prems rem consider "x = Inr r" | "Inr r \<in> set (reads d1 es)" by auto
  then show ?case
  proof cases
    case 1
    with remaining_range [OF Cons.prems(1)] rem show ?thesis by blast
  next
    case 2
    have "ok d1" "bound d1 \<le> bound d"
      using remaining_ok [OF Cons.prems(1), of e] remaining_bound [OF Cons.prems(1), of e] rem by simp_all
    with Cons.IH [OF _ 2] show ?thesis by fastforce
  qed
qed simp

end

section \<open>The invariant of the timer-owning deadline\<close>

text \<open>
  A settled deadline (aborted or disposed) owns no timer and no listener; an open one owns both
  (the listener only where there is a parent).
\<close>

definition deadline_ok :: "deadline \<Rightarrow> bool" where
  "deadline_ok d \<longleftrightarrow>
     0 \<le> startedAtMs d \<and> expiresAtMs d = startedAtMs d + of_int (timeoutMsLimit d) \<and>
     minimumTimeoutMs \<le> timeoutMsLimit d \<and> timeoutMsLimit d \<le> maximumTimeoutMs \<and>
     startedAtMs d \<le> lastNowMs d \<and>
     (if signal d \<noteq> None \<or> disposed d then timer d = None \<and> \<not> listening d
      else timer d \<noteq> None \<and> listening d = hasParent d \<and> lastNowMs d < expiresAtMs d)"

definition deadline_bound :: "deadline \<Rightarrow> rat" where
  "deadline_bound d = (if signal d \<noteq> None then 0 else max 0 (expiresAtMs d - lastNowMs d))"

lemmas deadline_ops = remainingMs_def throwIfAborted_def expire_def abortFromParent_def dispose_def
  clearTimer_def

lemma readMonotonicNow_Inr:
  "readMonotonicNow reading prev = Inr now \<longleftrightarrow>
     reading = Clock_returns (Finite now) \<and> 0 \<le> now \<and> prev \<le> now"
  by (auto simp: readMonotonicNow_def split: clock_reading.splits js_number.splits)

lemma parseTimeout_Inr:
  "parseTimeout c = Inr n \<longleftrightarrow> c = Some (Finite (of_int n)) \<and> 1 \<le> n \<and> n \<le> 300000"
proof -
  have "isSafeInteger (Finite (of_int n))" if "1 \<le> n" "n \<le> 300000"
    using that by (auto simp: isSafeInteger_iff)
  then show ?thesis
    by (auto simp: parseTimeout_def timeout_limits isSafeInteger_iff split: option.splits js_number.splits)
qed

lemma expire_ok: "deadline_ok d \<Longrightarrow> deadline_ok (expire d)"
  by (auto simp: deadline_ok_def expire_def clearTimer_def split: option.splits if_splits)

lemma abortFromParent_ok: "deadline_ok d \<Longrightarrow> deadline_ok (abortFromParent r d)"
  by (auto simp: deadline_ok_def abortFromParent_def clearTimer_def split: option.splits if_splits)

lemma dispose_ok: "deadline_ok d \<Longrightarrow> deadline_ok (dispose d)"
  by (auto simp: deadline_ok_def dispose_def clearTimer_def split: option.splits if_splits)

lemma expire_frame [simp]:
  "startedAtMs (expire d) = startedAtMs d" "expiresAtMs (expire d) = expiresAtMs d"
  "timeoutMsLimit (expire d) = timeoutMsLimit d" "lastNowMs (expire d) = lastNowMs d"
  "disposed (expire d) = disposed d" "hasParent (expire d) = hasParent d"
  by (simp_all add: expire_def clearTimer_def split: option.splits)

lemma expire_signal: "\<not> disposed d \<Longrightarrow> signal (expire d) \<noteq> None"
  by (simp add: expire_def)

lemma expire_time [simp]: "expire (d\<lparr>lastNowMs := t\<rparr>) = (expire d)\<lparr>lastNowMs := t\<rparr>"
  by (simp add: expire_def clearTimer_def split: option.splits)

text \<open>A read either leaves the deadline, moves the last reading, or expires.\<close>

lemma remainingMs_cases:
  obtains (disposed) "disposed d" "remainingMs d reading = (Inl Disposed_error, d)"
  | (aborted) "\<not> disposed d" "signal d \<noteq> None" "remainingMs d reading = (Inr 0, d)"
  | (bad) e where "\<not> disposed d" "signal d = None" "readMonotonicNow reading (lastNowMs d) = Inl e"
      "remainingMs d reading = (Inl e, d)"
  | (tick) now where "\<not> disposed d" "signal d = None" "reading = Clock_returns (Finite now)" "0 \<le> now"
      "lastNowMs d \<le> now" "now < expiresAtMs d"
      "remainingMs d reading = (Inr (min (of_int (timeoutMsLimit d)) (expiresAtMs d - now)), d\<lparr>lastNowMs := now\<rparr>)"
  | (expired) now where "\<not> disposed d" "signal d = None" "reading = Clock_returns (Finite now)" "0 \<le> now"
      "lastNowMs d \<le> now" "expiresAtMs d \<le> now"
      "remainingMs d reading = (Inr 0, (expire d)\<lparr>lastNowMs := now\<rparr>)"
proof (cases "disposed d")
  case True
  then show ?thesis by (intro disposed) (simp_all add: remainingMs_def)
next
  case False
  show ?thesis
  proof (cases "signal d = None")
    case signal: True
    show ?thesis
    proof (cases "readMonotonicNow reading (lastNowMs d)")
      case (Inl e)
      with False signal show ?thesis by (intro bad) (simp_all add: remainingMs_def)
    next
      case (Inr now)
      then have now: "reading = Clock_returns (Finite now)" "0 \<le> now" "lastNowMs d \<le> now"
        by (simp_all add: readMonotonicNow_Inr)
      show ?thesis
      proof (cases "expiresAtMs d \<le> now")
        case True
        with False signal now Inr show ?thesis by (intro expired) (simp_all add: remainingMs_def)
      next
        case False
        with \<open>\<not> disposed d\<close> signal now Inr show ?thesis by (intro tick) (simp_all add: remainingMs_def)
      qed
    qed
  next
    case signal: False
    with False show ?thesis by (intro aborted) (simp_all add: remainingMs_def)
  qed
qed

lemma remainingMs_ok: "deadline_ok d \<Longrightarrow> deadline_ok (snd (remainingMs d reading))"
proof (cases rule: remainingMs_cases [of d reading])
  case (tick now)
  assume "deadline_ok d"
  with tick show ?thesis by (simp add: deadline_ok_def)
next
  case (expired now)
  assume "deadline_ok d"
  with expire_ok [of d] have "deadline_ok (expire d)" by simp
  moreover have "signal (expire d) \<noteq> None" using expired(1) by (rule expire_signal)
  moreover have "startedAtMs d \<le> lastNowMs d" using \<open>deadline_ok d\<close> by (simp add: deadline_ok_def)
  ultimately show ?thesis using expired(5,7) by (simp add: deadline_ok_def)
qed simp_all

lemma remainingMs_range:
  assumes ok: "deadline_ok d" and r: "remainingMs d reading = (Inr r, d')"
  shows "0 \<le> r \<and> r \<le> deadline_bound d"
proof (cases rule: remainingMs_cases [of d reading])
  case aborted
  with r show ?thesis by (simp add: deadline_bound_def)
next
  case (tick now)
  have "0 \<le> (of_int (timeoutMsLimit d) :: rat)" using ok by (simp add: deadline_ok_def timeout_limits)
  with tick r show ?thesis by (auto simp: deadline_bound_def min_def max_def)
next
  case (expired now)
  with r show ?thesis by (simp add: deadline_bound_def)
qed (use r in simp_all)

lemma remainingMs_bound: "deadline_ok d \<Longrightarrow> deadline_bound (snd (remainingMs d reading)) \<le> deadline_bound d"
proof (cases rule: remainingMs_cases [of d reading])
  case (expired now)
  from expire_signal [OF expired(1)] expired(7) show ?thesis by (simp add: deadline_bound_def)
qed (simp_all add: deadline_bound_def max_def)

lemma remainingMs_disposed: "disposed (snd (remainingMs d reading)) = disposed d"
  by (cases rule: remainingMs_cases [of d reading]) simp_all

lemma throwIfAborted_snd:
  "snd (throwIfAborted d reading) = d \<or> snd (throwIfAborted d reading) = snd (remainingMs d reading)"
  by (auto simp: throwIfAborted_def split: prod.splits sum.splits option.splits)

lemma throwIfAborted_ok: "deadline_ok d \<Longrightarrow> deadline_ok (snd (throwIfAborted d reading))"
  using throwIfAborted_snd [of d reading] remainingMs_ok [of d reading] by auto

lemma throwIfAborted_bound: "deadline_ok d \<Longrightarrow> deadline_bound (snd (throwIfAborted d reading)) \<le> deadline_bound d"
  using throwIfAborted_snd [of d reading] remainingMs_bound [of d reading] by auto

lemma throwIfAborted_disposed: "disposed (snd (throwIfAborted d reading)) = disposed d"
  using throwIfAborted_snd [of d reading] remainingMs_disposed [of d reading] by auto

lemma throwIfAborted_Inr: "throwIfAborted d reading = (Inr (), d') \<Longrightarrow> signal d' = None \<and> \<not> disposed d'"
  using throwIfAborted_disposed [of d reading]
  by (auto simp: throwIfAborted_def split: prod.splits sum.splits option.splits if_splits)

interpretation owner: operation_deadline remainingMs throwIfAborted dispose deadline_bound disposed deadline_ok
proof unfold_locales
  show "disposed d \<Longrightarrow> remainingMs d e = (Inl Disposed_error, d) \<and> throwIfAborted d e = (Inl Disposed_error, d)"
    for d e by (simp add: remainingMs_def throwIfAborted_def)
  show "disposed (dispose d)" for d by (simp add: dispose_def clearTimer_def split: option.splits)
qed (use remainingMs_ok throwIfAborted_ok dispose_ok remainingMs_bound throwIfAborted_bound
      remainingMs_disposed throwIfAborted_disposed remainingMs_range in blast)+

section \<open>The view keeps the same contract\<close>

definition view_ok :: "deadline_view \<Rightarrow> bool" where
  "view_ok v \<longleftrightarrow>
     0 \<le> view_startedAtMs v \<and> view_expiresAtMs v = view_startedAtMs v + of_int (view_timeoutMs v) \<and>
     minimumTimeoutMs \<le> view_timeoutMs v \<and> view_timeoutMs v \<le> maximumTimeoutMs \<and>
     view_startedAtMs v \<le> view_lastNowMs v"

definition view_bound :: "deadline_view \<Rightarrow> rat" where
  "view_bound v = max 0 (view_expiresAtMs v - view_lastNowMs v)"

lemma view_remainingMs_cases:
  obtains (failed) e where "view_remainingMs v env = (Inl e, v)"
  | (aborted) "view_remainingMs v env = (Inr 0, v)"
  | (tick) now where "\<not> view_disposed v" "0 \<le> now" "view_lastNowMs v \<le> now"
      "view_remainingMs v env =
         (Inr (min (of_int (view_timeoutMs v)) (max 0 (view_expiresAtMs v - now))), v\<lparr>view_lastNowMs := now\<rparr>)"
proof (cases "view_disposed v")
  case True
  then show ?thesis by (intro failed) (simp add: view_remainingMs_def)
next
  case False
  show ?thesis
  proof (cases "fst env = None")
    case True
    show ?thesis
    proof (cases "readMonotonicNow (snd env) (view_lastNowMs v)")
      case (Inl e)
      with False True show ?thesis by (intro failed) (simp add: view_remainingMs_def)
    next
      case (Inr now)
      from Inr have "0 \<le> now" "view_lastNowMs v \<le> now" by (simp_all add: readMonotonicNow_Inr)
      with False True Inr show ?thesis by (intro tick [of now]) (simp_all add: view_remainingMs_def)
    qed
  next
    case True: False
    with False show ?thesis by (intro aborted) (simp add: view_remainingMs_def)
  qed
qed

lemma view_throwIfAborted_snd:
  "snd (view_throwIfAborted v env) = v \<or> snd (view_throwIfAborted v env) = snd (view_remainingMs v env)"
  by (auto simp: view_throwIfAborted_def split: prod.splits sum.splits option.splits)

lemma view_remainingMs_facts:
  "view_ok v \<Longrightarrow> view_ok (snd (view_remainingMs v env))"
  "view_bound (snd (view_remainingMs v env)) \<le> view_bound v"
  "view_disposed (snd (view_remainingMs v env)) = view_disposed v"
  by (cases rule: view_remainingMs_cases [of v env], simp_all add: view_ok_def view_bound_def max_def)+

lemma view_remainingMs_range:
  assumes "view_ok v" and r: "view_remainingMs v env = (Inr r, v')"
  shows "0 \<le> r \<and> r \<le> view_bound v"
proof (cases rule: view_remainingMs_cases [of v env])
  case (tick now)
  have "0 \<le> (of_int (view_timeoutMs v) :: rat)" using assms(1) by (simp add: view_ok_def timeout_limits)
  with tick r show ?thesis by (auto simp: view_bound_def min_def max_def)
qed (use r in \<open>simp_all add: view_bound_def\<close>)

interpretation view: operation_deadline view_remainingMs view_throwIfAborted view_dispose view_bound view_disposed view_ok
proof unfold_locales
  fix v :: deadline_view and env
  note snd_cases = view_throwIfAborted_snd [of v env]
  show "view_ok v \<Longrightarrow> view_ok (snd (view_remainingMs v env))"
    "view_bound (snd (view_remainingMs v env)) \<le> view_bound v"
    "view_disposed (snd (view_remainingMs v env)) = view_disposed v"
    by (rule view_remainingMs_facts, assumption?)+
  show "view_ok v \<Longrightarrow> view_ok (snd (view_throwIfAborted v env))"
    "view_bound (snd (view_throwIfAborted v env)) \<le> view_bound v"
    "view_disposed (snd (view_throwIfAborted v env)) = view_disposed v"
    using snd_cases view_remainingMs_facts [of v env] by (auto simp del: split_paired_All)
  show "view_ok v \<Longrightarrow> view_ok (view_dispose v)" "view_disposed (view_dispose v)"
    by (simp_all add: view_ok_def view_dispose_def)
  show "view_disposed v \<Longrightarrow>
      view_remainingMs v env = (Inl Disposed_error, v) \<and> view_throwIfAborted v env = (Inl Disposed_error, v)"
    by (simp add: view_remainingMs_def view_throwIfAborted_def)
  show "view_ok v \<Longrightarrow> view_remainingMs v env = (Inr r, v') \<Longrightarrow> 0 \<le> r \<and> r \<le> view_bound v" for r v'
    by (rule view_remainingMs_range)
qed

section \<open>Runs of a deadline\<close>

text \<open>
  Everything that can happen to a deadline after its construction. The armed timer fires
  \<open>expire\<close>; the parent's abort event reaches \<open>abortFromParent\<close> while the listener is attached.
\<close>

datatype deadline_event =
  Reads clock_reading | Checks clock_reading
| Asks_timeout "js_number option option" clock_reading clock_reading clock_reading
| Timer_fires | Parent_abort_event abort_reason | Disposes

fun deadlineStep :: "deadline_event \<Rightarrow> deadline \<Rightarrow> deadline" where
  "deadlineStep (Reads reading) d = snd (remainingMs d reading)"
| "deadlineStep (Checks reading) d = snd (throwIfAborted d reading)"
| "deadlineStep (Asks_timeout c r1 r2 r3) d = snd (timeoutMs d c r1 r2 r3)"
| "deadlineStep Timer_fires d = (if timer d = None then d else expire d)"
| "deadlineStep (Parent_abort_event reason) d = (if listening d then abortFromParent reason d else d)"
| "deadlineStep Disposes d = dispose d"

definition deadlineRun :: "deadline_event list \<Rightarrow> deadline \<Rightarrow> deadline" where
  "deadlineRun es d = fold deadlineStep es d"

text \<open>
  A relation preserved by the three primitive operations is preserved by every step. The timer
  ledger of a deadline says where the one handle went.
\<close>

definition handles :: "deadline \<Rightarrow> nat list" where
  "handles d = (case timer d of None \<Rightarrow> [] | Some h \<Rightarrow> [h]) @ clearedTimers d"

definition settles :: "deadline \<Rightarrow> deadline \<Rightarrow> bool" where
  "settles d d' \<longleftrightarrow>
     (deadline_ok d \<longrightarrow> deadline_ok d') \<and> handles d' = handles d \<and>
     (signal d \<noteq> None \<longrightarrow> signal d' = signal d) \<and> (disposed d \<longrightarrow> disposed d' \<and> signal d' = signal d) \<and>
     lastNowMs d \<le> lastNowMs d' \<and> hasParent d' = hasParent d \<and> expiresAtMs d' = expiresAtMs d"

lemma settles_refl [simp]: "settles d d"
  by (simp add: settles_def)

lemma settles_trans: "settles d d1 \<Longrightarrow> settles d1 d2 \<Longrightarrow> settles d d2"
  by (auto simp: settles_def)

lemma handles_clearTimer: "handles (clearTimer d) = handles d"
  by (simp add: handles_def clearTimer_def split: option.splits)

lemma handles_update [simp]:
  "handles (d\<lparr>listening := b\<rparr>) = handles d" "handles (d\<lparr>signal := x\<rparr>) = handles d"
  "handles (d\<lparr>lastNowMs := t\<rparr>) = handles d" "handles (d\<lparr>disposed := c\<rparr>) = handles d"
  by (simp_all add: handles_def)

lemma clearTimer_frame [simp]:
  "signal (clearTimer d) = signal d" "disposed (clearTimer d) = disposed d"
  "lastNowMs (clearTimer d) = lastNowMs d" "hasParent (clearTimer d) = hasParent d"
  "expiresAtMs (clearTimer d) = expiresAtMs d"
  by (simp_all add: clearTimer_def split: option.splits)

lemma settles_expire: "settles d (expire d)"
  using expire_ok [of d] by (simp add: settles_def expire_def handles_clearTimer)

lemma settles_abort: "settles d (abortFromParent r d)"
  using abortFromParent_ok [of d r] by (simp add: settles_def abortFromParent_def handles_clearTimer)

lemma settles_dispose: "settles d (dispose d)"
  using dispose_ok [of d] by (simp add: settles_def dispose_def handles_clearTimer)

lemma settles_remaining: "settles d (snd (remainingMs d reading))"
proof (cases rule: remainingMs_cases [of d reading])
  case (tick now)
  with remainingMs_ok [of d reading] show ?thesis by (simp add: settles_def)
next
  case (expired now)
  from settles_expire [of d] expired remainingMs_ok [of d reading] show ?thesis by (simp add: settles_def)
qed simp_all

lemma settles_check: "settles d (snd (throwIfAborted d reading))"
  using throwIfAborted_snd [of d reading] settles_remaining [of d reading] by auto

lemma settles_timeout: "settles d (snd (timeoutMs d c r1 r2 r3))"
proof -
  have 1: "settles d d1" if "throwIfAborted d r1 = (x, d1)" for x d1
    using settles_check [of d r1] that by simp
  have 2: "settles d d2" if "settles d d1" "remainingMs d1 r2 = (x, d2)" for x d1 d2
    using settles_trans [OF that(1)] settles_remaining [of d1 r2] that(2) by simp
  have 3: "settles d d3" if "settles d d2" "throwIfAborted (expire d2) r3 = (x, d3)" for x d2 d3
    using settles_trans [OF that(1) settles_trans [OF settles_expire]] settles_check [of "expire d2" r3] that(2)
    by simp
  show ?thesis
    by (auto simp: timeoutMs_def Let_def split: sum.splits prod.splits dest!: 1 dest: 2 3)
qed

lemma settles_step: "settles d (deadlineStep e d)"
  by (cases e) (simp_all add: settles_expire settles_abort settles_dispose settles_remaining settles_check
      settles_timeout)

lemma settles_run: "settles d (deadlineRun es d)"
proof (induction es arbitrary: d)
  case (Cons e es)
  from settles_trans [OF settles_step [of d e] Cons.IH] show ?case by (simp add: deadlineRun_def)
qed (simp add: deadlineRun_def)

text \<open>The constructor establishes the invariant, and owns no handle but the one it scheduled.\<close>

definition fresh_ok :: "deadline \<Rightarrow> bool" where
  "fresh_ok d \<longleftrightarrow>
     0 \<le> startedAtMs d \<and> expiresAtMs d = startedAtMs d + of_int (timeoutMsLimit d) \<and>
     minimumTimeoutMs \<le> timeoutMsLimit d \<and> timeoutMsLimit d \<le> maximumTimeoutMs \<and>
     startedAtMs d = lastNowMs d \<and> timer d = None \<and> clearedTimers d = [] \<and> \<not> disposed d \<and>
     (if signal d \<noteq> None then \<not> listening d else listening d = hasParent d)"

lemma fresh_ok_during: "fresh_ok d \<Longrightarrow> fresh_ok (duringSchedule w d)"
  by (cases w) (simp_all add: fresh_ok_def expire_def abortFromParent_def clearTimer_def)

lemma fresh_ok_settled:
  "fresh_ok d \<Longrightarrow> signal d \<noteq> None \<Longrightarrow> deadline_ok (d\<lparr>clearedTimers := hs\<rparr>) \<and> deadline_ok d"
  by (simp add: fresh_ok_def deadline_ok_def)

lemma fresh_ok_open: "fresh_ok d \<Longrightarrow> signal d = None \<Longrightarrow> deadline_ok (d\<lparr>timer := Some h\<rparr>)"
  by (simp add: fresh_ok_def deadline_ok_def timeout_limits)

lemma fresh_ok_handles: "fresh_ok d \<Longrightarrow> handles d = []"
  by (simp add: fresh_ok_def handles_def)

lemma constructDeadline_Inr:
  assumes "constructDeadline started limit parent after sched = Inr d"
    and "0 \<le> started" "minimumTimeoutMs \<le> limit" "limit \<le> maximumTimeoutMs"
  shows "deadline_ok d \<and> length (handles d) \<le> 1"
proof -
  define f where "f hp lis sig = \<lparr>startedAtMs = started, expiresAtMs = started + of_int limit,
      timeoutMsLimit = limit, hasParent = hp, listening = lis, signal = sig, timer = None,
      clearedTimers = [], lastNowMs = started, disposed = False\<rparr>" for hp lis sig
  have ok: "fresh_ok (f hp hp None)" "fresh_ok (f hp False (Some reason))" for hp reason
    using assms(2-4) by (simp_all add: f_def fresh_ok_def)
  have sched: "deadline_ok d \<and> length (handles d) \<le> Suc 0"
    if "(let d' = duringSchedule w d0 in if \<exists>y. signal d' = Some y then Inr (d'\<lparr>clearedTimers := h # clearedTimers d'\<rparr>)
         else Inr (d'\<lparr>timer := Some h\<rparr>)) = (Inr d :: deadline_error + deadline)" "fresh_ok d0" for w h d0
    using that fresh_ok_during [of d0 w] fresh_ok_settled [of "duringSchedule w d0"]
      fresh_ok_open [of "duringSchedule w d0"]
    by (auto simp: Let_def fresh_ok_def handles_def split: if_splits)
  show ?thesis
  proof (cases parent)
    case (Parent sig)
    show ?thesis
    proof (cases sig)
      case (Some reason)
      with assms(1) Parent have "d = f True False (Some reason)" by (simp add: constructDeadline_def f_def)
      with ok(2) fresh_ok_settled show ?thesis by (auto simp: f_def handles_def)
    next
      case None
      show ?thesis
      proof (cases after)
        case (Some reason)
        with assms(1) Parent None have "d = f True False (Some reason)"
          by (simp add: constructDeadline_def f_def abortFromParent_def clearTimer_def)
        with ok(2) fresh_ok_settled show ?thesis by (auto simp: f_def handles_def)
      next
        case None
        with assms(1) Parent \<open>sig = None\<close> ok(1) [of True] show ?thesis
          by (cases sched) (auto simp: constructDeadline_def f_def dest: sched)
      qed
    qed
  qed (use assms(1) ok(1) [of False] in \<open>cases sched; auto simp: constructDeadline_def f_def dest: sched\<close>)+
qed

lemma createOperationDeadline_Inr:
  assumes "createOperationDeadline obj timeout parent clockOk reading after sched = Inr d"
  shows "deadline_ok d \<and> length (handles d) \<le> 1"
proof -
  from assms obtain limit started where "parseTimeout timeout = Inr limit"
    "readInitialNow clockOk reading = Inr started" "constructDeadline started limit parent after sched = Inr d"
    by (auto simp: createOperationDeadline_def split: if_splits sum.splits)
  then show ?thesis
    using constructDeadline_Inr [of started limit parent after sched d]
    by (auto simp: parseTimeout_Inr timeout_limits readInitialNow_def split: if_splits clock_reading.splits js_number.splits)
qed

lemma deadline_ok_owns:
  assumes "deadline_ok d" "length (handles d) \<le> 1"
  shows "if signal d \<noteq> None \<or> disposed d
         then timer d = None \<and> \<not> listening d \<and> clearedTimers d = handles d
         else (\<exists>h. timer d = Some h \<and> handles d = [h]) \<and> listening d = hasParent d"
proof (cases "signal d \<noteq> None \<or> disposed d")
  case True
  with assms(1) have "timer d = None \<and> \<not> listening d" by (simp add: deadline_ok_def)
  with True show ?thesis by (simp add: handles_def)
next
  case False
  with assms(1) obtain h where "timer d = Some h" "listening d = hasParent d"
    by (auto simp: deadline_ok_def)
  with False assms(2) show ?thesis by (simp add: handles_def)
qed

lemma settles_bound: "settles d d' \<Longrightarrow> deadline_bound d' \<le> deadline_bound d"
  by (auto simp: settles_def deadline_bound_def)

lemma remainingMs_exact:
  assumes "deadline_ok d" "remainingMs d reading = (Inr r, d')"
  shows "r = deadline_bound d'"
proof (cases rule: remainingMs_cases [of d reading])
  case (tick now)
  from assms(1) tick(5) have "expiresAtMs d - now \<le> of_int (timeoutMsLimit d)"
    by (simp add: deadline_ok_def)
  with assms(2) tick show ?thesis by (auto simp: deadline_bound_def)
next
  case (expired now)
  with assms(2) expire_signal [OF expired(1)] show ?thesis by (auto simp: deadline_bound_def)
qed (use assms(2) in \<open>auto simp: deadline_bound_def\<close>)

lemma timeoutMs_Inr:
  assumes "timeoutMs d cap r1 r2 r3 = (Inr t, d')"
  obtains c d1 r where "parseCap cap = Inr c" "throwIfAborted d r1 = (Inr (), d1)"
    "remainingMs d1 r2 = (Inr r, d')" "1 \<le> \<lceil>r\<rceil>" "t = min \<lceil>r\<rceil> c"
proof -
  have live: "\<not> disposed d" using assms by (auto simp: timeoutMs_def split: if_splits)
  from assms live obtain c where c: "parseCap cap = Inr c"
    by (cases "parseCap cap") (auto simp: timeoutMs_def)
  obtain x d1 where 1: "throwIfAborted d r1 = (x, d1)" by fastforce
  with assms live c have x: "x = Inr ()" by (cases x) (auto simp: timeoutMs_def)
  obtain y d2 where 2: "remainingMs d1 r2 = (y, d2)" by fastforce
  with assms live c 1 x obtain r where y: "y = Inr r" by (cases y) (auto simp: timeoutMs_def)
  obtain z d3 where 3: "throwIfAborted (expire d2) r3 = (z, d3)" by fastforce
  have "throwIfAborted (expire d2) r3 \<noteq> (Inr (), d3)"
    using expire_signal [of d2] by (auto simp: throwIfAborted_def)
  with 3 obtain e where z: "z = Inl e" by (cases z) auto
  from assms live c 1 x 2 y 3 z have "1 \<le> \<lceil>r\<rceil>" "d2 = d'" "t = min \<lceil>r\<rceil> c"
    by (auto simp: timeoutMs_def Let_def split: if_splits)
  with c 1 x 2 y that show ?thesis by blast
qed

lemma parseCap_Inr:
  "parseCap cap = Inr c \<Longrightarrow> 1 \<le> c \<and> c \<le> 300000 \<and> (\<forall>m. cap = Some (Some (Finite m)) \<longrightarrow> of_int c = m)"
  by (auto simp: parseCap_def timeout_limits parseTimeout_Inr split: option.splits)

section \<open>Properties\<close>

text \<open>A deadline of 50 ms created at 10 ms, on which the properties are tried.\<close>

definition exampleDeadline :: deadline where
  "exampleDeadline =
     \<lparr>startedAtMs = 10, expiresAtMs = 60, timeoutMsLimit = 50, hasParent = True, listening = True,
      signal = None, timer = Some 7, clearedTimers = [], lastNowMs = 10, disposed = False\<rparr>"

lemma exampleDeadline_created:
  "createOperationDeadline True (Some (Finite 50)) (Parent None) True (Clock_returns (Finite 10)) None
     (Schedule_handle 7 Quiet) = Inr exampleDeadline"
  using parseTimeout_Inr [of "Some (Finite 50)" 50]
  by (simp add: createOperationDeadline_def readInitialNow_def constructDeadline_def Let_def exampleDeadline_def)

text \<open>C28: a deadline that could be created owns its timer and its parent listener exactly as
  long as it is open. After any sequence of reads, checks, timeout requests, timer firings,
  parent aborts and disposals, an aborted or disposed deadline has no armed timer and no
  attached listener, and the one handle it was given has been cleared; an open one still has its
  timer armed.\<close>

theorem deadline_releases_its_resources:
  assumes "createOperationDeadline obj timeout parent clockOk reading after sched = Inr d"
    and "d' = deadlineRun es d"
  shows "if signal d' \<noteq> None \<or> disposed d'
         then timer d' = None \<and> \<not> listening d' \<and> clearedTimers d' = handles d \<and> length (handles d) \<le> 1
         else (\<exists>h. timer d' = Some h \<and> handles d = [h]) \<and> listening d' = hasParent d'"
proof -
  note d = createOperationDeadline_Inr [OF assms(1)]
  have s: "settles d d'" unfolding assms(2) by (rule settles_run)
  with d have "deadline_ok d'" "handles d = handles d'" "length (handles d') \<le> 1"
    by (simp_all add: settles_def)
  with deadline_ok_owns [of d'] show ?thesis by simp
qed

theorem deadline_releases_its_resources_witness:
  "let d = deadlineRun [Reads (Clock_returns (Finite 30)), Parent_abort_event (Other_reason 1)] exampleDeadline
   in signal d = Some (Other_reason 1) \<and> timer d = None \<and> \<not> listening d \<and> clearedTimers d = [7]"
  using deadline_releases_its_resources [OF exampleDeadline_created refl,
      of "[Reads (Clock_returns (Finite 30)), Parent_abort_event (Other_reason 1)]"]
  by (simp add: Let_def deadlineRun_def exampleDeadline_def handles_def deadline_ops readMonotonicNow_def)

text \<open>The first abort reason is the reason for ever. Whatever happens later to a deadline
  (a later expiry, another parent abort, disposal), its signal keeps the reason it has; and a
  disposed deadline never aborts afterwards.\<close>

theorem deadline_keeps_first_reason:
  "(signal d = Some r \<longrightarrow> signal (deadlineRun es d) = Some r) \<and>
   (disposed d \<longrightarrow> disposed (deadlineRun es d) \<and> signal (deadlineRun es d) = signal d)"
  using settles_run [of d es] by (auto simp: settles_def)

theorem deadline_keeps_first_reason_witness:
  "signal (deadlineRun [Timer_fires, Parent_abort_event (Other_reason 2), Disposes]
     \<lparr>startedAtMs = 0, expiresAtMs = 5, timeoutMsLimit = 5, hasParent = True, listening = False,
      signal = Some (Error_reason 1), timer = None, clearedTimers = [7], lastNowMs = 0, disposed = False\<rparr>)
   = Some (Error_reason 1)"
  by (rule deadline_keeps_first_reason [THEN conjunct1, rule_format]) simp

text \<open>C29: a timeout the owning deadline hands out is a valid budget: a whole number of
  milliseconds from 1 to 300000, no more than the requested cap, less than one millisecond over
  the time that is left, and only while the signal is not aborted. And no later read, however
  the clock behaves in between, reports more time than an earlier one did.\<close>

theorem deadline_budget:
  assumes "createOperationDeadline obj timeout parent clockOk reading after sched = Inr d0"
    and "timeoutMs (deadlineRun es d0) cap r1 r2 r3 = (Inr t, d)"
  shows "1 \<le> t \<and> t \<le> 300000 \<and> (\<forall>m. cap = Some (Some (Finite m)) \<longrightarrow> of_int t \<le> m) \<and>
      of_int t < deadline_bound d + 1 \<and> signal d = None"
proof -
  from createOperationDeadline_Inr [OF assms(1)] settles_run [of d0 es]
  have ok: "deadline_ok (deadlineRun es d0)" by (simp add: settles_def)
  from assms(2) obtain c d1 r where c: "parseCap cap = Inr c"
    and 1: "throwIfAborted (deadlineRun es d0) r1 = (Inr (), d1)"
    and 2: "remainingMs d1 r2 = (Inr r, d)" and r: "1 \<le> \<lceil>r\<rceil>" and t: "t = min \<lceil>r\<rceil> c"
    by (rule timeoutMs_Inr)
  from throwIfAborted_ok [OF ok, of r1] 1 have "deadline_ok d1" by simp
  from remainingMs_exact [OF this 2] r have eq: "r = deadline_bound d" and "0 < r"
    by (simp_all add: one_le_ceiling)
  then have "signal d = None" by (cases "signal d") (simp_all add: deadline_bound_def)
  moreover have "(of_int t :: rat) < r + 1"
  proof -
    have "(of_int t :: rat) \<le> of_int \<lceil>r\<rceil>" using t by simp
    also have "\<dots> < r + 1" by linarith
    finally show ?thesis .
  qed
  moreover have "of_int t \<le> m" if "cap = Some (Some (Finite m))" for m :: rat
  proof -
    from parseCap_Inr [OF c] that have "of_int c = m" by blast
    with t show ?thesis by (metis min.cobounded2 of_int_le_iff)
  qed
  moreover have "1 \<le> t" "t \<le> 300000" using parseCap_Inr [OF c] r unfolding t by linarith+
  ultimately show ?thesis using eq by simp
qed

theorem deadline_budget_witness:
  "timeoutMs (deadlineRun [] exampleDeadline) (Some (Some (Finite 20))) (Clock_returns (Finite 12))
     (Clock_returns (Finite (50 + 1/2))) (Clock_returns (Finite 51)) =
     (Inr 10, exampleDeadline\<lparr>lastNowMs := 50 + 1/2\<rparr>) \<and> (1 :: int) \<le> 10"
proof -
  have t: "timeoutMs (deadlineRun [] exampleDeadline) (Some (Some (Finite 20))) (Clock_returns (Finite 12))
     (Clock_returns (Finite (50 + 1/2))) (Clock_returns (Finite 51)) =
     (Inr 10, exampleDeadline\<lparr>lastNowMs := 50 + 1/2\<rparr>)"
    using parseTimeout_Inr [of "Some (Finite 20)" 20]
    by (simp add: timeoutMs_def deadlineRun_def exampleDeadline_def parseCap_def throwIfAborted_def
        remainingMs_def readMonotonicNow_def ceiling_unique)
  from t deadline_budget [OF exampleDeadline_created t] show ?thesis by blast
qed

text \<open>The time a deadline reports never grows: a later read, after any events and however
  the clock behaves in between, reports at most what an earlier one did, and never a negative
  time.\<close>

theorem deadline_time_decreases:
  assumes "createOperationDeadline obj timeout parent clockOk reading after sched = Inr d0"
    and "remainingMs (deadlineRun es d0) r1 = (Inr x, d1)"
    and "remainingMs (deadlineRun fs d1) r2 = (Inr y, d2)"
  shows "0 \<le> y \<and> y \<le> x"
proof -
  from createOperationDeadline_Inr [OF assms(1)] settles_run [of d0 es]
  have ok: "deadline_ok (deadlineRun es d0)" by (simp add: settles_def)
  from remainingMs_ok [OF ok, of r1] assms(2) have "deadline_ok d1" by simp
  with settles_run [of d1 fs] have "deadline_ok (deadlineRun fs d1)" by (simp add: settles_def)
  from remainingMs_range [OF this assms(3)] settles_bound [OF settles_run [of d1 fs]]
    remainingMs_exact [OF ok assms(2)]
  show ?thesis by simp
qed

theorem deadline_time_decreases_witness: "(0 :: rat) \<le> 25 \<and> (25 :: rat) \<le> 40"
proof (rule deadline_time_decreases [OF exampleDeadline_created])
  show "remainingMs (deadlineRun [] exampleDeadline) (Clock_returns (Finite 20)) =
      (Inr 40, exampleDeadline\<lparr>lastNowMs := 20\<rparr>)"
    by (simp add: deadlineRun_def exampleDeadline_def remainingMs_def readMonotonicNow_def)
  show "remainingMs (deadlineRun [Reads (Clock_returns NaN)] (exampleDeadline\<lparr>lastNowMs := 20\<rparr>))
      (Clock_returns (Finite 35)) = (Inr 25, exampleDeadline\<lparr>lastNowMs := 35\<rparr>)"
    by (simp add: deadlineRun_def exampleDeadline_def remainingMs_def readMonotonicNow_def)
qed

text \<open>An operation that \<open>requireOpenOperationDeadline\<close> lets through has a usable deadline
  with time left, for both kinds of deadline: it is not disposed and some time remains.\<close>

theorem require_open_has_time:
  "(deadline_ok d \<and>
     requireOpenOperationDeadline contractOk throwIfAborted remainingMs d r1 r2 r3 = (Inr (), d') \<longrightarrow>
     \<not> disposed d \<and> signal d = None \<and> lastNowMs d < expiresAtMs d) \<and>
   (view_ok v \<and>
     requireOpenOperationDeadline contractOk view_throwIfAborted view_remainingMs v s1 s2 s3 = (Inr (), v') \<longrightarrow>
     \<not> view_disposed v \<and> view_lastNowMs v < view_expiresAtMs v)"
  using owner.require_open [of d contractOk r1 r2 r3 d'] view.require_open [of v contractOk s1 s2 s3 v']
  by (auto simp: deadline_bound_def view_bound_def split: if_splits)

theorem require_open_has_time_witness:
  "lastNowMs exampleDeadline < expiresAtMs exampleDeadline"
proof -
  have "deadline_ok exampleDeadline"
    using createOperationDeadline_Inr [OF exampleDeadline_created] by simp
  moreover have "requireOpenOperationDeadline True throwIfAborted remainingMs exampleDeadline
      (Clock_returns (Finite 12)) (Clock_returns (Finite 13)) (Clock_returns (Finite 13)) =
      (Inr (), exampleDeadline\<lparr>lastNowMs := 13\<rparr>)"
    by (simp add: requireOpenOperationDeadline_def exampleDeadline_def throwIfAborted_def remainingMs_def
        readMonotonicNow_def)
  ultimately show ?thesis by (blast dest: require_open_has_time [THEN conjunct1, rule_format, OF conjI])
qed

text \<open>Unlike the owning deadline, the view can hand out a timeout of 0 milliseconds, which no
  timeout parser accepts: the clock passes the expiry between the two reads that
  \<open>timeoutMs\<close> makes, and nothing checks the second one. The owner, in the same situation,
  throws the deadline error.\<close>

theorem view_timeout_zero:
  "\<exists>v v' d d'. createOperationDeadlineView True (Some (Finite 1)) (Parent None) True (Clock_returns (Finite 0)) = Inr v \<and>
     view_timeout v None (None, Clock_returns (Finite 0)) (None, Clock_returns (Finite 1)) = (Inr 0, v') \<and>
     parseTimeout (Some (Finite 0)) = Inl Type_error \<and>
     createOperationDeadline True (Some (Finite 1)) (Parent None) True (Clock_returns (Finite 0)) None
       (Schedule_handle 7 Quiet) = Inr d \<and>
     timeoutMs d None (Clock_returns (Finite 0)) (Clock_returns (Finite 1)) (Clock_returns (Finite 1)) =
       (Inl (Thrown_reason Deadline_exceeded), d')"
  by (simp add: createOperationDeadlineView_def createOperationDeadline_def parseTimeout_def timeout_limits
      isSafeInteger_def maxSafeInteger_def readInitialNow_def constructDeadline_def Let_def view_timeout_def
      view_throwIfAborted_def view_remainingMs_def readMonotonicNow_def parseCap_def timeoutMs_def
      deadline_ops throwAbortReason_def)

end
