(* ===== verification/List_Cursors.thy ===== *)
theory List_Cursors
  imports Selected_Runtime Iso_Timestamp "HOL-Library.Word"
begin

text \<open>
  The page cursors of the two list endpoints: \<open>packages/contracts/src/device-listing.ts\<close> and the
  cursor part of \<open>packages/contracts/src/selected-session-read.ts\<close>, with their URL-safe base64
  codec, the order of the session list and the validation of a page. A cursor is decoded with
  every check of the source; the codec is the source's bit accumulator, not a table of triples.
\<close>

section \<open>URL-safe base64 of ASCII text\<close>

unbundle bit_operations_syntax

definition base64UrlAlphabet :: js_string where
  "base64UrlAlphabet = js ''ABCDEFGHIJKLMNOPQRSTUVWXYZabcdefghijklmnopqrstuvwxyz0123456789-_''"

datatype cursor_error =
  Device_id_invalid | Text_not_ascii | Cursor_invalid | Cursor_value_invalid | Cursor_too_long

text \<open>
  The loop over \<open>index\<close> in steps of three. \<open>bad\<close> is the error of the copy at hand: the two
  files hold the same routine with different messages.
\<close>

fun encodeBase64UrlAscii :: "cursor_error \<Rightarrow> js_string \<Rightarrow> cursor_error + js_string" where
  "encodeBase64UrlAscii bad [] = Inr []"
| "encodeBase64UrlAscii bad [a] =
     (if 127 < a then Inl bad
      else Inr [base64UrlAlphabet ! drop_bit 2 a, base64UrlAlphabet ! push_bit 4 (a AND 3)])"
| "encodeBase64UrlAscii bad [a, b] =
     (if 127 < a \<or> 127 < b then Inl bad
      else Inr [base64UrlAlphabet ! drop_bit 2 a,
                base64UrlAlphabet ! (push_bit 4 (a AND 3) OR drop_bit 4 b),
                base64UrlAlphabet ! push_bit 2 (b AND 15)])"
| "encodeBase64UrlAscii bad (a # b # c # rest) =
     (if 127 < a \<or> 127 < b \<or> 127 < c then Inl bad
      else case encodeBase64UrlAscii bad rest of
        Inl e \<Rightarrow> Inl e
      | Inr encoded \<Rightarrow>
          Inr ([base64UrlAlphabet ! drop_bit 2 a,
                base64UrlAlphabet ! (push_bit 4 (a AND 3) OR drop_bit 4 b),
                base64UrlAlphabet ! (push_bit 2 (b AND 15) OR drop_bit 6 c),
                base64UrlAlphabet ! (c AND 63)] @ encoded))"

fun indexOf :: "js_string \<Rightarrow> nat \<Rightarrow> nat option" where
  "indexOf [] c = None"
| "indexOf (x # xs) c = (if x = c then Some 0 else map_option Suc (indexOf xs c))"

text \<open>\<open>while (bitCount >= 8)\<close>\<close>

fun drainBits :: "nat \<Rightarrow> nat \<Rightarrow> nat list \<Rightarrow> nat \<times> nat \<times> nat list" where
  "drainBits bits bitCount bytes =
     (if 8 \<le> bitCount then
        (let bitCount = bitCount - 8 in
         drainBits (bits AND (if bitCount = 0 then 0 else push_bit bitCount 1 - 1)) bitCount
           (bytes @ [drop_bit bitCount bits AND 255]))
      else (bits, bitCount, bytes))"

declare drainBits.simps [simp del]

fun decodeBits :: "js_string \<Rightarrow> nat \<Rightarrow> nat \<Rightarrow> nat list \<Rightarrow> (nat \<times> nat \<times> nat list) option" where
  "decodeBits [] bits bitCount bytes = Some (bits, bitCount, bytes)"
| "decodeBits (character # rest) bits bitCount bytes =
     (case indexOf base64UrlAlphabet character of
        None \<Rightarrow> None
      | Some v \<Rightarrow>
          (case drainBits (push_bit 6 bits OR v) (bitCount + 6) bytes of
             (bits, bitCount, bytes) \<Rightarrow> decodeBits rest bits bitCount bytes))"

text \<open>\<open>maxBytes\<close> is the bound of the device copy, 120; the session copy has none.\<close>

definition decodeBase64UrlAscii :: "nat option \<Rightarrow> js_string \<Rightarrow> cursor_error + js_string" where
  "decodeBase64UrlAscii maxBytes payload =
     (if length payload mod 4 = 1 then Inl Cursor_invalid
      else case decodeBits payload 0 0 [] of
        None \<Rightarrow> Inl Cursor_invalid
      | Some (bits, bitCount, bytes) \<Rightarrow>
          if bitCount \<noteq> 0 \<and> bits \<noteq> 0 then Inl Cursor_invalid
          else if length bytes < 1 \<or> (case maxBytes of None \<Rightarrow> False | Some m \<Rightarrow> length bytes > m) \<or>
             list_ex (\<lambda>b. 127 < b) bytes
          then Inl Cursor_invalid
          else Inr bytes)"

section \<open>The codec is a bijection on ASCII text\<close>

lemma bits_arith:
  fixes a :: nat
  shows "drop_bit 2 a = a div 4" "drop_bit 4 a = a div 16" "drop_bit 6 a = a div 64"
    "a AND 3 = a mod 4" "a AND 15 = a mod 16" "a AND 63 = a mod 64" "a AND 255 = a mod 256"
proof -
  have mask: "a AND mask n = a mod 2 ^ n" for n
    by (simp add: take_bit_eq_mod flip: take_bit_eq_mask)
  show "a AND 3 = a mod 4" "a AND 15 = a mod 16" "a AND 63 = a mod 64" "a AND 255 = a mod 256"
    using mask [of 2] mask [of 4] mask [of 6] mask [of 8] by (simp_all add: mask_eq_exp_minus_1)
qed (simp_all add: drop_bit_eq_div)

lemma push_bit_or:
  assumes "v < 2 ^ n"
  shows "push_bit n a OR v = a * 2 ^ n + (v :: nat)"
proof -
  from assms have "take_bit n v = v" by (simp add: take_bit_nat_eq_self)
  then have "\<not> bit v m" if "n \<le> m" for m
    using that by (metis bit_take_bit_iff linorder_not_le)
  then have "push_bit n a AND v = 0" by (intro bit_eqI) (auto simp: bit_simps)
  then have "push_bit n a + v = push_bit n a OR v" by (rule disjunctive_add_eq_or)
  then show ?thesis by (simp add: push_bit_eq_mult)
qed

lemma alphabet_index: "v < 64 \<Longrightarrow> indexOf base64UrlAlphabet (base64UrlAlphabet ! v) = Some v"
proof -
  have "\<forall>v \<in> set [0..<64]. indexOf base64UrlAlphabet (base64UrlAlphabet ! v) = Some v"
    by code_simp
  then show "v < 64 \<Longrightarrow> ?thesis" by simp
qed

lemma drainBits_small: "n < 8 \<Longrightarrow> drainBits bits n bytes = (bits, n, bytes)"
  by (subst drainBits.simps) simp

lemma drainBits_one:
  assumes "8 \<le> n" "n < 16"
  shows "drainBits bits n bytes =
    (bits mod 2 ^ (n - 8), n - 8, bytes @ [(bits div 2 ^ (n - 8)) mod 256])"
proof -
  have "bits AND (2 ^ (n - 8) - 1) = bits mod 2 ^ (n - 8)"
    by (metis mask_eq_exp_minus_1 take_bit_eq_mask take_bit_eq_mod)
  then have "bits AND (if n - 8 = 0 then 0 else push_bit (n - 8) 1 - 1) = bits mod 2 ^ (n - 8)"
    by (simp add: push_bit_eq_mult)
  with assms show ?thesis
    by (subst drainBits.simps) (simp add: Let_def drainBits_small bits_arith drop_bit_eq_div)
qed

text \<open>The accumulator after one group of characters.\<close>

lemma decodeBits_char:
  assumes "v < 64" "n < 8"
  shows "decodeBits (base64UrlAlphabet ! v # rest) bits n bytes =
    (if n < 2 then decodeBits rest (bits * 64 + v) (n + 6) bytes
     else decodeBits rest ((bits * 64 + v) mod 2 ^ (n - 2)) (n - 2) (bytes @ [((bits * 64 + v) div 2 ^ (n - 2)) mod 256]))"
proof -
  have "push_bit 6 bits OR v = bits * 64 + v"
    using assms push_bit_or [of v 6 bits] by simp
  then show ?thesis
    using assms by (simp add: alphabet_index drainBits_small drainBits_one)
qed

declare decodeBits.simps(2) [simp del]

lemma sextets:
  fixes a b c :: nat
  assumes "a < 128" "b < 128" "c < 128"
  shows "push_bit 4 (a AND 3) = (a mod 4) * 16" "push_bit 2 (b AND 15) = (b mod 16) * 4"
    "push_bit 4 (a AND 3) OR drop_bit 4 b = (a mod 4) * 16 + b div 16"
    "push_bit 2 (b AND 15) OR drop_bit 6 c = (b mod 16) * 4 + c div 64"
    "a div 4 < 64" "(a mod 4) * 16 + b div 16 < 64" "(b mod 16) * 4 + c div 64 < 64" "c mod 64 < 64"
    "(a mod 4) * 16 < 64" "(b mod 16) * 4 < 64"
  using assms push_bit_or [of "b div 16" 4 "a mod 4"] push_bit_or [of "c div 64" 2 "b mod 16"]
  by (auto simp: bits_arith push_bit_eq_mult)

lemma encode_one:
  "encodeBase64UrlAscii bad [a] =
     (if 127 < a then Inl bad else Inr [base64UrlAlphabet ! (a div 4), base64UrlAlphabet ! ((a mod 4) * 16)])"
  using sextets [of a a a] by (auto simp: bits_arith)

lemma encode_two:
  "encodeBase64UrlAscii bad [a, b] =
     (if 127 < a \<or> 127 < b then Inl bad
      else Inr [base64UrlAlphabet ! (a div 4), base64UrlAlphabet ! ((a mod 4) * 16 + b div 16),
                base64UrlAlphabet ! ((b mod 16) * 4)])"
proof (cases "127 < a \<or> 127 < b")
  case False
  then have "a < 128" "b < 128" by auto
  from sextets [OF this this(2)] False show ?thesis by (simp add: bits_arith)
qed simp

lemma encode_more:
  "encodeBase64UrlAscii bad (a # b # c # rest) =
     (if 127 < a \<or> 127 < b \<or> 127 < c then Inl bad
      else case encodeBase64UrlAscii bad rest of
        Inl e \<Rightarrow> Inl e
      | Inr encoded \<Rightarrow>
          Inr ([base64UrlAlphabet ! (a div 4), base64UrlAlphabet ! ((a mod 4) * 16 + b div 16),
                base64UrlAlphabet ! ((b mod 16) * 4 + c div 64), base64UrlAlphabet ! (c mod 64)] @ encoded))"
proof (cases "127 < a \<or> 127 < b \<or> 127 < c")
  case False
  then have "a < 128" "b < 128" "c < 128" by auto
  from sextets [OF this] False show ?thesis
    by (cases "encodeBase64UrlAscii bad rest") (simp_all add: bits_arith)
qed simp

lemmas encode_arith = encode_one encode_two encode_more

declare encodeBase64UrlAscii.simps(2-4) [simp del]

text \<open>Two, three and four characters, over the values the accumulator goes through.\<close>

lemma group_two:
  assumes "u < 64" "v < 64" "(u * 64 + v) div 16 = a" "(u * 64 + v) mod 16 = r" "a < 256"
  shows "decodeBits (base64UrlAlphabet ! u # base64UrlAlphabet ! v # rest) 0 0 acc =
    decodeBits rest r 4 (acc @ [a])"
  using assms by (simp add: decodeBits_char)

lemma group_three:
  assumes "u < 64" "v < 64" "w < 64" "(u * 64 + v) div 16 = a" "(u * 64 + v) mod 16 = r" "a < 256"
    and "(r * 64 + w) div 4 = b" "(r * 64 + w) mod 4 = q" "b < 256"
  shows "decodeBits (base64UrlAlphabet ! u # base64UrlAlphabet ! v # base64UrlAlphabet ! w # rest) 0 0 acc =
    decodeBits rest q 2 (acc @ [a, b])"
  using assms(3,7,8,9) by (simp add: group_two [OF assms(1,2,4-6)] decodeBits_char)

lemma group_four:
  assumes "u < 64" "v < 64" "w < 64" "(u * 64 + v) div 16 = a" "(u * 64 + v) mod 16 = r" "a < 256"
    and "(r * 64 + w) div 4 = b" "(r * 64 + w) mod 4 = q" "b < 256" "x < 64" "q * 64 + x = c" "c < 256"
  shows "decodeBits (base64UrlAlphabet ! u # base64UrlAlphabet ! v # base64UrlAlphabet ! w #
      base64UrlAlphabet ! x # rest) 0 0 acc = decodeBits rest 0 0 (acc @ [a, b, c])"
  using assms(10-12) by (simp add: group_three [OF assms(1-9)] decodeBits_char)

lemma rejoin:
  assumes "k * m = p"
  shows "a div k * p + (a mod k * m + v) = a * m + (v :: nat)" "a div k * p + a mod k * m = a * m"
proof -
  have "(a div k * k + a mod k) * m = a * m" by (simp only: div_mult_mod_eq)
  then show "a div k * p + (a mod k * m + v) = a * m + v" "a div k * p + a mod k * m = a * m"
    by (simp_all only: assms [symmetric] add_mult_distrib mult.assoc add.assoc [symmetric])
qed

lemma rejoin_4:
  "a div 4 * 64 + (a mod 4 * 16 + v) = a * 16 + (v :: nat)" "a div 4 * 64 + a mod 4 * 16 = a * (16 :: nat)"
  by (rule rejoin, simp)+

lemma rejoin_16:
  "a div 16 * 64 + (a mod 16 * 4 + v) = a * 4 + (v :: nat)" "a div 16 * 64 + a mod 16 * 4 = a * (4 :: nat)"
  by (rule rejoin, simp)+

lemma resplit:
  assumes "v < m"
  shows "(a * m + v) div m = a" "(a * m + v) mod m = (v :: nat)"
  using assms by simp_all

lemma div_lt: "a < m * k \<Longrightarrow> a div k < (m :: nat)"
  by (simp add: less_mult_imp_div_less)

lemma sextet_bounds:
  fixes a b c :: nat
  assumes "a < 128" "b < 128" "c < 128"
  shows "a div 4 < 64" "a mod 4 * 16 < 64" "a mod 4 * 16 + b div 16 < 64" "b mod 16 * 4 < 64"
    "b mod 16 * 4 + c div 64 < 64" "c mod 64 < 64" "b div 16 < 16" "c div 64 < 4" "a < 256" "b < 256" "c < 256"
proof -
  show "b div 16 < 16" using assms by (intro div_lt) simp
  show "c div 64 < 4" using assms by (intro div_lt) simp
  show "a < 256" "b < 256" "c < 256" using assms by simp_all
qed (rule sextets [OF assms])+

lemma decode_two:
  assumes "a < 128"
  shows "decodeBits [base64UrlAlphabet ! (a div 4), base64UrlAlphabet ! ((a mod 4) * 16)] 0 0 acc =
    Some (0, 4, acc @ [a])"
proof -
  note b = sextet_bounds [OF assms assms assms]
  have "(a div 4 * 64 + a mod 4 * 16) div 16 = a" "(a div 4 * 64 + a mod 4 * 16) mod 16 = 0"
    unfolding rejoin_4 by simp_all
  from group_two [OF b(1,2) this b(9), of "[]" acc] show ?thesis by (simp only: decodeBits.simps)
qed

lemma decode_three:
  assumes "a < 128" "b < 128"
  shows "decodeBits [base64UrlAlphabet ! (a div 4), base64UrlAlphabet ! ((a mod 4) * 16 + b div 16),
      base64UrlAlphabet ! ((b mod 16) * 4)] 0 0 acc = Some (0, 2, acc @ [a, b])"
proof -
  note b = sextet_bounds [OF assms assms(2)]
  have 1: "(a div 4 * 64 + (a mod 4 * 16 + b div 16)) div 16 = a"
    "(a div 4 * 64 + (a mod 4 * 16 + b div 16)) mod 16 = b div 16"
    unfolding rejoin_4 by (rule resplit [OF b(7)])+
  have 2: "(b div 16 * 64 + b mod 16 * 4) div 4 = b" "(b div 16 * 64 + b mod 16 * 4) mod 4 = 0"
    unfolding rejoin_16 by simp_all
  from group_three [OF b(1,3,4) 1 b(9) 2 b(10), of "[]" acc] show ?thesis by (simp only: decodeBits.simps)
qed

lemma decode_four:
  assumes "a < 128" "b < 128" "c < 128"
  shows "decodeBits ([base64UrlAlphabet ! (a div 4), base64UrlAlphabet ! ((a mod 4) * 16 + b div 16),
      base64UrlAlphabet ! ((b mod 16) * 4 + c div 64), base64UrlAlphabet ! (c mod 64)] @ rest) 0 0 acc =
    decodeBits rest 0 0 (acc @ [a, b, c])"
proof -
  note b = sextet_bounds [OF assms]
  have 1: "(a div 4 * 64 + (a mod 4 * 16 + b div 16)) div 16 = a"
    "(a div 4 * 64 + (a mod 4 * 16 + b div 16)) mod 16 = b div 16"
    unfolding rejoin_4 by (rule resplit [OF b(7)])+
  have 2: "(b div 16 * 64 + (b mod 16 * 4 + c div 64)) div 4 = b"
    "(b div 16 * 64 + (b mod 16 * 4 + c div 64)) mod 4 = c div 64"
    unfolding rejoin_16 by (rule resplit [OF b(8)])+
  have 3: "c div 64 * 64 + c mod 64 = c" by (rule div_mult_mod_eq)
  from group_four [OF b(1,3,5) 1 b(9) 2 b(10) b(6) 3 b(11), of rest acc] show ?thesis
    by (simp only: append.simps)
qed

lemma decodeBits_encode:
  "encodeBase64UrlAscii bad s = Inr e \<Longrightarrow> \<exists>k. decodeBits e 0 0 acc = Some (0, k, acc @ s)"
proof (induction bad s arbitrary: e acc rule: encodeBase64UrlAscii.induct)
  case (2 bad a)
  then have "a < 128" by (auto simp: encode_arith split: if_splits)
  from 2 decode_two [OF this, of acc] show ?case by (auto simp: encode_arith split: if_splits)
next
  case (3 bad a b)
  then have "a < 128" "b < 128" by (auto simp: encode_arith split: if_splits)
  from 3 decode_three [OF this, of acc] show ?case by (auto simp: encode_arith split: if_splits)
next
  case (4 bad a b c rest)
  then have lt: "a < 128" "b < 128" "c < 128" by (auto simp: encode_arith split: if_splits)
  from 4(2) lt obtain e' where e': "encodeBase64UrlAscii bad rest = Inr e'"
    by (auto simp: encode_arith split: if_splits sum.splits)
  from 4(1) [OF _ e', of "acc @ [a, b, c]"] lt
  obtain k where "decodeBits e' 0 0 (acc @ [a, b, c]) = Some (0, k, acc @ (a # b # c # rest))" by auto
  with 4(2) e' lt decode_four [OF lt, of e' acc] show ?case
    by (auto simp: encode_arith)
qed simp

lemma encode_Inr_iff: "(\<exists>e. encodeBase64UrlAscii bad s = Inr e) \<longleftrightarrow> list_all (\<lambda>c. c \<le> 127) s"
proof (induction bad s rule: encodeBase64UrlAscii.induct)
  case (4 bad a b c rest)
  show ?case
  proof (cases "127 < a \<or> 127 < b \<or> 127 < c")
    case False
    then have "(\<exists>e. encodeBase64UrlAscii bad rest = Inr e) \<longleftrightarrow> list_all (\<lambda>c. c \<le> 127) rest"
      using 4 by blast
    with False show ?thesis
      by (cases "encodeBase64UrlAscii bad rest") (auto simp: encode_arith)
  qed (auto simp: encode_arith)
qed (auto simp: encode_arith)

lemma length_encode:
  "encodeBase64UrlAscii bad s = Inr e \<Longrightarrow> length e = (4 * length s + 2) div 3"
proof (induction bad s arbitrary: e rule: encodeBase64UrlAscii.induct)
  case (4 bad a b c rest)
  from 4(2) obtain e' where e': "encodeBase64UrlAscii bad rest = Inr e'"
    and lt: "\<not> (127 < a \<or> 127 < b \<or> 127 < c)"
    by (cases "encodeBase64UrlAscii bad rest") (simp_all add: encode_more split: if_splits)
  from 4(2) e' lt have "length e = length e' + 4" by (auto simp: encode_more)
  with 4(1) [OF lt e'] have "length e = (4 * length rest + 2) div 3 + 4" by simp
  moreover have "(4 * (length rest + 3) + 2) div 3 = (4 * length rest + 2) div 3 + 4" by presburger
  ultimately show ?case by simp
qed (auto simp: encode_arith split: if_splits)

definition isBase64UrlChar :: "nat \<Rightarrow> bool" where
  "isBase64UrlChar c \<longleftrightarrow> isLetter c \<or> isDigit c \<or> c = 95 \<or> c = 45"

lemma alphabet_chars: "v < 64 \<Longrightarrow> isBase64UrlChar (base64UrlAlphabet ! v)"
proof -
  have "\<forall>v \<in> set [0..<64]. isBase64UrlChar (base64UrlAlphabet ! v)" by code_simp
  then show "v < 64 \<Longrightarrow> ?thesis" by simp
qed

lemma encode_chars:
  "encodeBase64UrlAscii bad s = Inr e \<Longrightarrow> list_all isBase64UrlChar e"
proof (induction bad s arbitrary: e rule: encodeBase64UrlAscii.induct)
  case (2 bad a)
  then have lt: "a < 128" by (simp add: encode_arith split: if_splits)
  note ok = alphabet_chars [OF sextets(5) [OF lt lt lt]] alphabet_chars [OF sextets(9) [OF lt lt lt]]
  from 2 have "e = [base64UrlAlphabet ! (a div 4), base64UrlAlphabet ! ((a mod 4) * 16)]"
    by (simp add: encode_arith split: if_splits)
  then show ?case by (simp only: list.pred_inject ok simp_thms)
next
  case (3 bad a b)
  then have lt: "a < 128" "b < 128" by (simp_all add: encode_arith split: if_splits)
  note ok = alphabet_chars [OF sextets(5) [OF lt lt(2)]] alphabet_chars [OF sextets(6) [OF lt lt(2)]]
    alphabet_chars [OF sextets(10) [OF lt lt(2)]]
  from 3 have "e = [base64UrlAlphabet ! (a div 4), base64UrlAlphabet ! ((a mod 4) * 16 + b div 16),
                base64UrlAlphabet ! ((b mod 16) * 4)]"
    by (simp add: encode_arith split: if_splits)
  then show ?case by (simp only: list.pred_inject ok simp_thms)
next
  case (4 bad a b c rest)
  then have lt: "a < 128" "b < 128" "c < 128" by (simp_all add: encode_arith split: if_splits)
  note ok = alphabet_chars [OF sextets(5) [OF lt]] alphabet_chars [OF sextets(6) [OF lt]]
    alphabet_chars [OF sextets(7) [OF lt]] alphabet_chars [OF sextets(8) [OF lt]]
  from 4(2) lt obtain e' where "encodeBase64UrlAscii bad rest = Inr e'" and
    e: "e = [base64UrlAlphabet ! (a div 4), base64UrlAlphabet ! ((a mod 4) * 16 + b div 16),
             base64UrlAlphabet ! ((b mod 16) * 4 + c div 64), base64UrlAlphabet ! (c mod 64)] @ e'"
    by (cases "encodeBase64UrlAscii bad rest") (simp_all add: encode_arith)
  with 4(1) [of e'] lt have "list_all isBase64UrlChar e'" by simp
  then show ?case by (simp only: e append.simps list.pred_inject ok simp_thms)
qed simp

lemma decode_encode:
  assumes "encodeBase64UrlAscii bad s = Inr e" "s \<noteq> []" "\<And>m. maxBytes = Some m \<Longrightarrow> length s \<le> m"
  shows "decodeBase64UrlAscii maxBytes e = Inr s"
proof -
  obtain k where k: "decodeBits e 0 0 [] = Some (0, k, s)"
    using decodeBits_encode [OF assms(1), of "[]"] by auto
  have "length e mod 4 \<noteq> 1" using length_encode [OF assms(1)] by presburger
  moreover have "\<forall>c \<in> set s. c \<le> 127" using assms(1) encode_Inr_iff [of bad s] by (auto simp: list_all_iff)
  ultimately show ?thesis
    using k assms(2,3) by (cases maxBytes) (auto simp: decodeBase64UrlAscii_def Suc_le_eq not_less leD list_ex_iff)
qed

section \<open>What a list endpoint relies on\<close>

text \<open>
  A cursor codec: every valid position has a cursor that decodes to it, and a cursor that
  decodes is the only one for its position.
\<close>

locale cursor_codec =
  fixes encode :: "'v \<Rightarrow> 'e + js_string" and decode :: "js_string \<Rightarrow> 'e + 'v" and valid :: "'v \<Rightarrow> bool"
  assumes decode_encode: "valid v \<Longrightarrow> \<exists>c. encode v = Inr c \<and> decode c = Inr v"
    and canonical: "decode c = Inr v \<Longrightarrow> valid v \<and> encode v = Inr c"
begin

lemma decode_iff: "decode c = Inr v \<longleftrightarrow> valid v \<and> encode v = Inr c"
  using decode_encode [of v] canonical [of c v] by auto

lemma encode_inj: "valid v \<Longrightarrow> valid w \<Longrightarrow> encode v = encode w \<Longrightarrow> v = w"
  using decode_encode [of v] decode_encode [of w] by auto

lemma decode_inj: "decode c = Inr v \<Longrightarrow> decode d = Inr v \<Longrightarrow> c = d"
  by (auto dest!: canonical)

end

section \<open>Device ids and the device-list cursor\<close>

text \<open>\<open>z.string().min(1).max(120).regex(/^[A-Za-z0-9_.:-]+$/u)\<close>\<close>

definition deviceIdChar :: "nat \<Rightarrow> bool" where
  "deviceIdChar c \<longleftrightarrow> isLetter c \<or> isDigit c \<or> c = 95 \<or> c = 46 \<or> c = 58 \<or> c = 45"

definition selectedDeviceIdSchema :: "js_string \<Rightarrow> js_string option" where
  "selectedDeviceIdSchema value =
     (if 1 \<le> length value \<and> length value \<le> 120 \<and> list_all deviceIdChar value then Some value else None)"

definition selectedDeviceListCursorMaxLength :: nat where
  "selectedDeviceListCursorMaxLength = 163"

definition encodeSelectedDeviceListCursor :: "js_string \<Rightarrow> cursor_error + js_string" where
  "encodeSelectedDeviceListCursor deviceId =
     (case selectedDeviceIdSchema deviceId of
        None \<Rightarrow> Inl Device_id_invalid
      | Some parsed \<Rightarrow>
          (case encodeBase64UrlAscii Device_id_invalid parsed of
             Inl e \<Rightarrow> Inl e
           | Inr encoded \<Rightarrow> Inr (js ''v1.'' @ encoded)))"

definition decodeSelectedDeviceListCursor :: "js_string \<Rightarrow> cursor_error + js_string" where
  "decodeSelectedDeviceListCursor cursor =
     (if length cursor < 5 \<or> length cursor > selectedDeviceListCursorMaxLength \<or>
         \<not> startsWith cursor (js ''v1.'') then Inl Cursor_invalid
      else
        (let payload = drop 3 cursor in
         if \<not> (list_all isBase64UrlChar payload \<and> 2 \<le> length payload \<and> length payload \<le> 160)
         then Inl Cursor_invalid
         else case decodeBase64UrlAscii (Some 120) payload of
           Inl e \<Rightarrow> Inl e
         | Inr deviceId \<Rightarrow>
             (case selectedDeviceIdSchema deviceId of
                None \<Rightarrow> Inl Cursor_invalid
              | Some parsed \<Rightarrow>
                  (case encodeBase64UrlAscii Device_id_invalid parsed of
                     Inl e \<Rightarrow> Inl e
                   | Inr encoded \<Rightarrow> if encoded \<noteq> payload then Inl Cursor_invalid else Inr parsed))))"

text \<open>\<open>selectedDeviceListCursorSchema\<close>: its own bounds and pattern, then the decoder.\<close>

definition selectedDeviceListCursorSchema :: "js_string \<Rightarrow> js_string option" where
  "selectedDeviceListCursorSchema value =
     (if 5 \<le> length value \<and> length value \<le> selectedDeviceListCursorMaxLength \<and>
         startsWith value (js ''v1.'') \<and> list_all isBase64UrlChar (drop 3 value) \<and>
         2 \<le> length (drop 3 value) \<and> length (drop 3 value) \<le> 160
      then (case decodeSelectedDeviceListCursor value of Inl _ \<Rightarrow> None | Inr _ \<Rightarrow> Some value)
      else None)"

lemma deviceId_ascii: "list_all deviceIdChar s \<Longrightarrow> list_all (\<lambda>c. c \<le> 127) s"
  by (auto simp: list_all_iff deviceIdChar_def char_class_defs)

lemma deviceIdSchema_iff:
  "selectedDeviceIdSchema v = Some w \<longleftrightarrow> w = v \<and> 1 \<le> length v \<and> length v \<le> 120 \<and> list_all deviceIdChar v"
  by (auto simp: selectedDeviceIdSchema_def)

lemma deviceId_encodes:
  assumes "selectedDeviceIdSchema d = Some d"
  obtains e where "encodeBase64UrlAscii Device_id_invalid d = Inr e" "decodeBase64UrlAscii (Some 120) e = Inr d"
    "2 \<le> length e" "length e \<le> 160" "list_all isBase64UrlChar e"
proof -
  from assms have d: "1 \<le> length d" "length d \<le> 120" "list_all deviceIdChar d"
    by (auto simp: deviceIdSchema_iff)
  then obtain e where e: "encodeBase64UrlAscii Device_id_invalid d = Inr e"
    using encode_Inr_iff [of Device_id_invalid d] deviceId_ascii by blast
  moreover have "decodeBase64UrlAscii (Some 120) e = Inr d"
    using d by (intro decode_encode [OF e]) auto
  moreover have "2 \<le> length e" "length e \<le> 160"
    using d unfolding length_encode [OF e] by linarith+
  ultimately show ?thesis using that encode_chars [OF e] by blast
qed

lemma js_v1 [simp]: "js ''v1.'' = [118, 49, 46]"
  by (simp add: js_def)

interpretation device_cursor: cursor_codec encodeSelectedDeviceListCursor decodeSelectedDeviceListCursor
  "\<lambda>d. selectedDeviceIdSchema d = Some d"
proof unfold_locales
  fix d c
  show "\<exists>c. encodeSelectedDeviceListCursor d = Inr c \<and> decodeSelectedDeviceListCursor c = Inr d"
    if "selectedDeviceIdSchema d = Some d"
  proof (rule deviceId_encodes [OF that])
    fix e
    assume "encodeBase64UrlAscii Device_id_invalid d = Inr e" "decodeBase64UrlAscii (Some 120) e = Inr d"
      "2 \<le> length e" "length e \<le> 160" "list_all isBase64UrlChar e"
    with that show ?thesis
      by (simp add: encodeSelectedDeviceListCursor_def decodeSelectedDeviceListCursor_def startsWith_def
          selectedDeviceListCursorMaxLength_def)
  qed
  show "selectedDeviceIdSchema d = Some d \<and> encodeSelectedDeviceListCursor d = Inr c"
    if "decodeSelectedDeviceListCursor c = Inr d"
  proof -
    have c: "startsWith c [118, 49, 46]" using that by (auto simp: decodeSelectedDeviceListCursor_def split: if_splits)
    then have "take 3 c = [118, 49, 46]" by (simp add: startsWith_def numeral_3_eq_3)
    then have "c = [118, 49, 46] @ drop 3 c" by (metis append_take_drop_id)
    then show ?thesis
      using that
      by (auto simp: decodeSelectedDeviceListCursor_def encodeSelectedDeviceListCursor_def Let_def
          deviceIdSchema_iff split: if_splits sum.splits option.splits)
  qed
qed

section \<open>Order of the session list\<close>

text \<open>
  \<open>selectedSessionListSortKeySchema\<close>, as a datatype so that the comparison below makes it a
  linear order of the library.
\<close>

datatype sort_key =
  Sort_key (key_rank: int) (key_activity: "js_string option") (key_session: js_string)

text \<open>\<open><\<close> on strings: by code unit, a proper prefix first.\<close>

fun str_less :: "js_string \<Rightarrow> js_string \<Rightarrow> bool" where
  "str_less [] [] = False"
| "str_less [] (_ # _) = True"
| "str_less (_ # _) [] = False"
| "str_less (a # s) (b # t) = (a < b \<or> a = b \<and> str_less s t)"

lemma str_less_irrefl [simp]: "\<not> str_less s s"
  by (induction s) auto

lemma str_less_trans: "str_less s t \<Longrightarrow> str_less t u \<Longrightarrow> str_less s u"
proof (induction s u arbitrary: t rule: str_less.induct)
  case (4 a s b u)
  then show ?case by (cases t) auto
next
  case (1 t)
  then show ?case by (cases t) auto
next
  case (3 a s t)
  then show ?case by (cases t) auto
qed simp

lemma str_less_linear: "s \<noteq> t \<Longrightarrow> str_less s t \<or> str_less t s"
  by (induction s t rule: str_less.induct) auto

lemma str_less_asym: "str_less s t \<Longrightarrow> \<not> str_less t s"
  using str_less_trans str_less_irrefl by blast

definition compareSelectedSessionListSortKeys :: "sort_key \<Rightarrow> sort_key \<Rightarrow> int" where
  "compareSelectedSessionListSortKeys left right =
     (if key_rank left \<noteq> key_rank right then key_rank right - key_rank left
      else if key_activity left = None \<and> key_activity right \<noteq> None then 1
      else if key_activity left \<noteq> None \<and> key_activity right = None then -1
      else if key_activity left \<noteq> key_activity right
        then (if str_less (case_option [] id (key_activity right)) (case_option [] id (key_activity left))
              then -1 else 1)
      else if key_session left = key_session right then 0
      else if str_less (key_session left) (key_session right) then -1 else 1)"

lemma compare_zero: "compareSelectedSessionListSortKeys a b = 0 \<longleftrightarrow> a = b"
  by (cases a; cases b) (auto simp: compareSelectedSessionListSortKeys_def)

lemma compare_swap:
  "sgn (compareSelectedSessionListSortKeys b a) = - sgn (compareSelectedSessionListSortKeys a b)"
proof (cases "key_rank a = key_rank b")
  case True
  show ?thesis
  proof (cases "key_activity a = key_activity b")
    case same: True
    with True str_less_linear [of "key_session a" "key_session b"]
      str_less_asym [of "key_session a" "key_session b"]
    show ?thesis by (auto simp: compareSelectedSessionListSortKeys_def)
  next
    case False
    with True str_less_linear [of "the (key_activity a)" "the (key_activity b)"]
      str_less_asym [of "the (key_activity a)" "the (key_activity b)"]
    show ?thesis
      by (cases "key_activity a"; cases "key_activity b") (auto simp: compareSelectedSessionListSortKeys_def)
  qed
next
  case False
  then show ?thesis by (simp add: compareSelectedSessionListSortKeys_def sgn_if)
qed

text \<open>The strict order the comparison stands for.\<close>

definition activity_before :: "js_string option \<Rightarrow> js_string option \<Rightarrow> bool" where
  "activity_before a b =
     (case (a, b) of (Some x, None) \<Rightarrow> True | (Some x, Some y) \<Rightarrow> str_less y x | _ \<Rightarrow> False)"

definition before :: "sort_key \<Rightarrow> sort_key \<Rightarrow> bool" where
  "before a b \<longleftrightarrow>
     key_rank b < key_rank a \<or>
     key_rank a = key_rank b \<and>
       (activity_before (key_activity a) (key_activity b) \<or>
        key_activity a = key_activity b \<and> str_less (key_session a) (key_session b))"

lemma activity_before_irrefl [simp]: "\<not> activity_before a a"
  by (cases a) (simp_all add: activity_before_def)

lemma activity_before_trans: "activity_before a b \<Longrightarrow> activity_before b c \<Longrightarrow> activity_before a c"
  by (cases a; cases b; cases c) (auto simp: activity_before_def intro: str_less_trans)

lemma compare_negative: "compareSelectedSessionListSortKeys a b < 0 \<longleftrightarrow> before a b"
proof (cases "key_rank a = key_rank b")
  case True
  then show ?thesis
    by (cases "key_activity a"; cases "key_activity b")
      (simp_all add: compareSelectedSessionListSortKeys_def before_def activity_before_def)
next
  case False
  then show ?thesis by (simp add: compareSelectedSessionListSortKeys_def before_def)
qed

lemma before_trans:
  assumes "before a b" "before b c"
  shows "before a c"
proof (cases "key_rank a = key_rank b \<and> key_rank b = key_rank c")
  case True
  with assms have "activity_before (key_activity a) (key_activity b) \<or>
        key_activity a = key_activity b \<and> str_less (key_session a) (key_session b)"
    "activity_before (key_activity b) (key_activity c) \<or>
        key_activity b = key_activity c \<and> str_less (key_session b) (key_session c)"
    by (simp_all add: before_def)
  then have "activity_before (key_activity a) (key_activity c) \<or>
        key_activity a = key_activity c \<and> str_less (key_session a) (key_session c)"
    by (metis activity_before_trans str_less_trans)
  with True show ?thesis by (simp add: before_def)
next
  case False
  with assms show ?thesis by (auto simp: before_def)
qed

lemma before_irrefl [simp]: "\<not> before a a"
  by (simp add: before_def)

instantiation sort_key :: linorder
begin

definition less_sort_key :: "sort_key \<Rightarrow> sort_key \<Rightarrow> bool" where
  "less_sort_key a b \<longleftrightarrow> compareSelectedSessionListSortKeys a b < 0"

definition less_eq_sort_key :: "sort_key \<Rightarrow> sort_key \<Rightarrow> bool" where
  "less_eq_sort_key a b \<longleftrightarrow> compareSelectedSessionListSortKeys a b \<le> 0"

instance
proof
  fix a b c :: sort_key
  have le: "x \<le> y \<longleftrightarrow> before x y \<or> x = y" for x y :: sort_key
    using compare_negative [of x y] compare_zero [of x y] by (auto simp: less_eq_sort_key_def)
  have asym: "before x y \<Longrightarrow> \<not> before y x" for x y
    using before_trans [of x y x] before_irrefl [of x] by blast
  show "(a < b) = (a \<le> b \<and> \<not> b \<le> a)"
    using compare_swap [of a b] by (auto simp: less_sort_key_def less_eq_sort_key_def sgn_if split: if_splits)
  show "a \<le> a" by (simp add: le)
  show "a \<le> b \<Longrightarrow> b \<le> c \<Longrightarrow> a \<le> c" unfolding le by (metis before_trans)
  show "a \<le> b \<Longrightarrow> b \<le> a \<Longrightarrow> a = b" unfolding le by (metis asym)
  show "a \<le> b \<or> b \<le> a"
    using compare_swap [of a b] by (auto simp: less_eq_sort_key_def sgn_if split: if_splits)
qed

end

section \<open>The session-list cursor\<close>

definition attentionRanks :: "int list" where
  "attentionRanks = [0, 20, 30, 40, 50, 60]"

text \<open>\<open>selectedSessionListSortKeySchema\<close> and \<open>selectedSessionListOrderSnapshotSchema\<close>.\<close>

definition parseActivity :: "js_string option \<Rightarrow> js_string option option" where
  "parseActivity a =
     (case a of
        None \<Rightarrow> Some None
      | Some t \<Rightarrow> map_option Some (brandedStringSchema parseIsoTimestamp (Some t)))"

definition parseSortKey :: "sort_key \<Rightarrow> sort_key option" where
  "parseSortKey key =
     (if key_rank key \<notin> set attentionRanks then None
      else case (parseActivity (key_activity key), brandedStringSchema parseSessionId (Some (key_session key))) of
        (Some activity, Some session) \<Rightarrow> Some (Sort_key (key_rank key) activity session)
      | _ \<Rightarrow> None)"

definition isHexChar :: "nat \<Rightarrow> bool" where
  "isHexChar c \<longleftrightarrow> isDigit c \<or> 97 \<le> c \<and> c \<le> 102"

definition parseOrderSnapshot :: "js_string \<Rightarrow> js_string option" where
  "parseOrderSnapshot s = (if length s = 64 \<and> list_all isHexChar s then Some s else None)"

definition parseCursorValue :: "js_string \<times> sort_key \<Rightarrow> (js_string \<times> sort_key) option" where
  "parseCursorValue v =
     (case (parseOrderSnapshot (fst v), parseSortKey (snd v)) of
        (Some s, Some k) \<Rightarrow> Some (s, k)
      | _ \<Rightarrow> None)"

record order_entry =
  entry_attention :: attention_level
  entry_id :: js_string
  entry_last_activity :: "js_string option"

text \<open>\<open>selectedSessionListSortKey\<close> throws (\<open>None\<close>) when the schema refuses the key.\<close>

definition selectedSessionListSortKey :: "order_entry \<Rightarrow> sort_key option" where
  "selectedSessionListSortKey session =
     parseSortKey (Sort_key (mobileAttentionPriority (entry_attention session))
       (entry_last_activity session) (entry_id session))"

definition compareSelectedSessionListOrder :: "order_entry \<Rightarrow> order_entry \<Rightarrow> int option" where
  "compareSelectedSessionListOrder left right =
     (case (selectedSessionListSortKey left, selectedSessionListSortKey right) of
        (Some l, Some r) \<Rightarrow> Some (compareSelectedSessionListSortKeys l r)
      | _ \<Rightarrow> None)"

subsection \<open>\<open>Number(text)\<close> and \<open>text.split(".")\<close>\<close>

definition digitOf :: "nat \<Rightarrow> nat" where
  "digitOf c = (if isDigit c then c - 48 else if isLower c then c - 87 else if isUpper c then c - 55 else 99)"

definition radixNumber :: "nat \<Rightarrow> js_string \<Rightarrow> js_number" where
  "radixNumber radix s =
     (if s = [] \<or> \<not> list_all (\<lambda>c. digitOf c < radix) s then NaN
      else Finite (of_nat (foldl (\<lambda>n c. radix * n + digitOf c) 0 s)))"

definition splitSign :: "js_string \<Rightarrow> rat \<times> js_string" where
  "splitSign s = (case s of [] \<Rightarrow> (1, []) | c # r \<Rightarrow> if c = 45 then (-1, r) else if c = 43 then (1, r) else (1, s))"

definition exponentValue :: "js_string \<Rightarrow> rat option" where
  "exponentValue s =
     (case s of
        [] \<Rightarrow> Some 1
      | e # r \<Rightarrow>
          if e = 101 \<or> e = 69 then
            (case splitSign r of
               (sign, ds) \<Rightarrow>
                 if ds = [] \<or> \<not> list_all isDigit ds then None
                 else let k = foldl (\<lambda>n c. 10 * n + digitOf c) 0 ds in
                   Some (if sign < 0 then 1 / 10 ^ k else 10 ^ k))
          else None)"

definition decimalNumber :: "js_string \<Rightarrow> js_number" where
  "decimalNumber s =
     (case splitSign s of
        (sign, body) \<Rightarrow>
          if body = js ''Infinity'' then (if sign < 0 then NegInfinity else PosInfinity)
          else
            let whole = takeWhile isDigit body; r = dropWhile isDigit body;
                (frac, r) = (case r of [] \<Rightarrow> ([], r)
                             | c # r' \<Rightarrow> if c = 46 then (takeWhile isDigit r', dropWhile isDigit r') else ([], r)) in
            if whole = [] \<and> frac = [] then NaN
            else case exponentValue r of
              None \<Rightarrow> NaN
            | Some e \<Rightarrow>
                Finite (sign * e * of_nat (foldl (\<lambda>n c. 10 * n + digitOf c) 0 (whole @ frac)) / 10 ^ length frac))"

definition numberOf :: "js_string \<Rightarrow> js_number" where
  "numberOf text =
     (let s = trim text in
      if s = [] then Finite 0
      else if startsWith s (js ''0x'') \<or> startsWith s (js ''0X'') then radixNumber 16 (drop 2 s)
      else if startsWith s (js ''0o'') \<or> startsWith s (js ''0O'') then radixNumber 8 (drop 2 s)
      else if startsWith s (js ''0b'') \<or> startsWith s (js ''0B'') then radixNumber 2 (drop 2 s)
      else decimalNumber s)"

fun natText :: "nat \<Rightarrow> js_string" where
  "natText n = (if n < 10 then [48 + n] else natText (n div 10) @ [48 + n mod 10])"

declare natText.simps [simp del]

fun splitOn :: "nat \<Rightarrow> js_string \<Rightarrow> js_string list" where
  "splitOn d [] = [[]]"
| "splitOn d (c # s) =
     (if c = d then [] # splitOn d s
      else case splitOn d s of [] \<Rightarrow> [[c]] | p # ps \<Rightarrow> (c # p) # ps)"

lemma splitOn_plain: "d \<notin> set p \<Longrightarrow> splitOn d p = [p]"
  by (induction p) auto

lemma splitOn_join: "d \<notin> set p \<Longrightarrow> splitOn d (p @ d # s) = p # splitOn d s"
  by (induction p) auto

subsection \<open>Encoding and decoding\<close>

definition selectedSessionListCursorMaxLength :: nat where
  "selectedSessionListCursorMaxLength = 196"

definition encodeSelectedSessionListCursor :: "js_string \<times> sort_key \<Rightarrow> cursor_error + js_string" where
  "encodeSelectedSessionListCursor v =
     (case parseCursorValue v of
        None \<Rightarrow> Inl Cursor_value_invalid
      | Some (snapshot, key) \<Rightarrow>
          (case (case key_activity key of
                   None \<Rightarrow> Inr (js ''-'')
                 | Some t \<Rightarrow> encodeBase64UrlAscii Text_not_ascii t) of
             Inl e \<Rightarrow> Inl e
           | Inr activity \<Rightarrow>
               (case encodeBase64UrlAscii Text_not_ascii (key_session key) of
                  Inl e \<Rightarrow> Inl e
                | Inr session \<Rightarrow>
                    (let encoded = js ''v1'' @ [46] @ snapshot @ [46] @ natText (nat (key_rank key)) @ [46] @
                                   activity @ [46] @ session in
                     if length encoded > selectedSessionListCursorMaxLength then Inl Cursor_too_long
                     else Inr encoded))))"

definition decodeSelectedSessionListCursor :: "js_string \<Rightarrow> cursor_error + js_string \<times> sort_key" where
  "decodeSelectedSessionListCursor cursor =
     (if length cursor < 87 \<or> length cursor > selectedSessionListCursorMaxLength then Inl Cursor_invalid
      else case splitOn 46 cursor of
        [version, snapshot, rankText, activityText, sessionText] \<Rightarrow>
          if version \<noteq> js ''v1'' then Inl Cursor_invalid
          else
            (case numberOf rankText of
               Finite r \<Rightarrow>
                 if \<not> list_ex (\<lambda>k. of_int k = r) attentionRanks then Inl Cursor_invalid
                 else
                   (case (if activityText = js ''-'' then Inr None
                          else map_sum id Some (decodeBase64UrlAscii None activityText)) of
                      Inl e \<Rightarrow> Inl e
                    | Inr activity \<Rightarrow>
                        (case decodeBase64UrlAscii None sessionText of
                           Inl e \<Rightarrow> Inl e
                         | Inr session \<Rightarrow>
                             (case parseCursorValue (snapshot, Sort_key \<lfloor>r\<rfloor> activity session) of
                                None \<Rightarrow> Inl Cursor_invalid
                              | Some v \<Rightarrow>
                                  (case encodeSelectedSessionListCursor v of
                                     Inl e \<Rightarrow> Inl e
                                   | Inr c \<Rightarrow> if c \<noteq> cursor then Inl Cursor_invalid else Inr v))))
             | _ \<Rightarrow> Inl Cursor_invalid)
      | _ \<Rightarrow> Inl Cursor_invalid)"

lemma natText_rank:
  "natText 0 = [48]" "natText 20 = [50, 48]" "natText 30 = [51, 48]" "natText 40 = [52, 48]"
  "natText 50 = [53, 48]" "natText 60 = [54, 48]"
  by (simp_all add: natText.simps)

lemma decimalNumber_digits:
  assumes "ds \<noteq> []" "list_all isDigit ds"
  shows "numberOf ds = Finite (of_nat (foldl (\<lambda>n c. 10 * n + digitOf c) 0 ds))"
proof -
  from assms have not_ws: "\<forall>c \<in> set ds. \<not> isWhitespace c"
    by (auto simp: list_all_iff isDigit_def isWhitespace_def)
  with assms(1) have trim: "trim ds = ds" by (intro trim_fixed) auto
  from assms have hd: "isDigit (hd ds)" by (cases ds) auto
  then have sign: "splitSign ds = (1, ds)" using assms(1) by (cases ds) (auto simp: splitSign_def isDigit_def)
  have inf: "ds \<noteq> js ''Infinity''" using hd by (auto simp: js_def isDigit_def)
  have whole: "takeWhile isDigit ds = ds" "dropWhile isDigit ds = []"
    using assms(2) by (auto simp: list_all_iff takeWhile_eq_all_conv dropWhile_eq_Nil_conv)
  have second: "\<not> startsWith ds [48, c]" if "\<not> isDigit c" for c
    using assms that by (cases ds; cases "tl ds") (auto simp: startsWith_def)
  have pref: "\<not> startsWith ds (js ''0x'')" "\<not> startsWith ds (js ''0X'')" "\<not> startsWith ds (js ''0o'')"
    "\<not> startsWith ds (js ''0O'')" "\<not> startsWith ds (js ''0b'')" "\<not> startsWith ds (js ''0B'')"
    using second by (simp_all add: js_def isDigit_def)
  show ?thesis
    by (simp add: numberOf_def decimalNumber_def exponentValue_def Let_def trim sign inf whole pref assms(1))
qed

lemma rank_text:
  assumes "r \<in> set attentionRanks"
  shows "numberOf (natText (nat r)) = Finite (of_int r) \<and> 46 \<notin> set (natText (nat r)) \<and>
     1 \<le> length (natText (nat r)) \<and> length (natText (nat r)) \<le> 2"
proof -
  have "numberOf [c, 48] = Finite (of_nat (10 * (c - 48)))" if "50 \<le> c" "c \<le> 54" for c
    using decimalNumber_digits [of "[c, 48]"] that by (simp add: isDigit_def digitOf_def)
  moreover have "numberOf [48] = Finite 0"
    using decimalNumber_digits [of "[48]"] by (simp add: isDigit_def digitOf_def)
  ultimately show ?thesis
    using assms by (auto simp: attentionRanks_def natText_rank)
qed

lemma rank_member: "r \<in> set attentionRanks \<Longrightarrow> list_ex (\<lambda>k. of_int k = (of_int r :: rat)) attentionRanks"
  by (auto simp: attentionRanks_def)

lemma encode_no_dot: "encodeBase64UrlAscii bad s = Inr e \<Longrightarrow> 46 \<notin> set e"
  using encode_chars [of bad s e] by (auto simp: list_all_iff isBase64UrlChar_def char_class_defs)

lemma stable_cursor_value:
  "parseCursorValue (snap, key) = Some (snap, key) \<longleftrightarrow>
     length snap = 64 \<and> list_all isHexChar snap \<and> key_rank key \<in> set attentionRanks \<and>
     sessionIdPattern (key_session key) \<and>
     (\<forall>t. key_activity key = Some t \<longrightarrow> parseIsoTimestamp t = Inr t)"
  by (cases key)
    (auto simp: parseCursorValue_def parseOrderSnapshot_def parseSortKey_def parseActivity_def
      brandedStringSchema_iff brandedStringSchema_None parseSessionId_Inr split: if_splits option.splits)

lemma parseCursorValue_twice:
  assumes "parseCursorValue u = Some v" "parseCursorValue v = Some w"
  shows "w = v"
proof -
  have 1: "parseActivity a = Some b \<Longrightarrow> parseActivity b = Some c \<Longrightarrow> c = b" for a b c
    by (auto simp: parseActivity_def brandedStringSchema_iff split: option.splits dest: parse_twice)
  show ?thesis
    using assms
    by (auto simp: parseCursorValue_def parseOrderSnapshot_def parseSortKey_def brandedStringSchema_iff
        parseSessionId_Inr split: if_splits option.splits dest: 1)
qed

lemma sessionIdPattern_size:
  assumes "sessionIdPattern s"
  shows "11 \<le> length s \<and> length s \<le> 69 \<and> list_all (\<lambda>c. c \<le> 127) s"
proof -
  from assms have "take 5 s = js ''sess_''"
    by (simp add: sessionIdPattern_def startsWith_def eval_nat_numeral)
  moreover from assms obtain c r where "drop 5 s = c # r" "isLower c \<or> isDigit c" "list_all idTail r"
    "5 \<le> length r" "length r \<le> 63"
    by (auto simp: sessionIdPattern_def split: list.splits)
  ultimately have s: "s = js ''sess_'' @ c # r" "c \<le> 122" "list_all (\<lambda>c. c \<le> 127) r"
    using append_take_drop_id [of 5 s] by (auto simp: list_all_iff idTail_def char_class_defs)
  with \<open>5 \<le> length r\<close> \<open>length r \<le> 63\<close> show ?thesis by (simp add: js_def)
qed

lemma stable_encodes:
  assumes "parseCursorValue (snap, key) = Some (snap, key)"
  obtains act sess c where
    "c = js ''v1'' @ 46 # snap @ 46 # natText (nat (key_rank key)) @ 46 # act @ 46 # sess"
    "encodeSelectedSessionListCursor (snap, key) = Inr c"
    "case key_activity key of None \<Rightarrow> act = js ''-''
     | Some t \<Rightarrow> act \<noteq> js ''-'' \<and> decodeBase64UrlAscii None act = Inr t"
    "decodeBase64UrlAscii None sess = Inr (key_session key)" "46 \<notin> set act" "46 \<notin> set sess"
    "87 \<le> length c" "length c \<le> 196"
proof -
  from assms have v: "length snap = 64" "key_rank key \<in> set attentionRanks" "sessionIdPattern (key_session key)"
    "\<And>t. key_activity key = Some t \<Longrightarrow> parseIsoTimestamp t = Inr t"
    by (simp_all add: stable_cursor_value)
  note size = sessionIdPattern_size [OF v(3)]
  then obtain sess where sess: "encodeBase64UrlAscii Text_not_ascii (key_session key) = Inr sess"
    using encode_Inr_iff [of Text_not_ascii "key_session key"] by blast
  have sess': "decodeBase64UrlAscii None sess = Inr (key_session key)"
    by (rule decode_encode [OF sess]) (use size in auto)
  have sess_len: "15 \<le> length sess" "length sess \<le> 92"
    using size unfolding length_encode [OF sess] by linarith+
  have "\<exists>act. (case key_activity key of None \<Rightarrow> Inr (js ''-'') | Some t \<Rightarrow> encodeBase64UrlAscii Text_not_ascii t) =
      Inr act \<and> 46 \<notin> set act \<and> 1 \<le> length act \<and> length act \<le> 32 \<and>
      (case key_activity key of None \<Rightarrow> act = js ''-''
       | Some t \<Rightarrow> act \<noteq> js ''-'' \<and> decodeBase64UrlAscii None act = Inr t)"
  proof (cases "key_activity key")
    case None
    then show ?thesis by (simp add: js_def)
  next
    case (Some t)
    note t = stable_timestamp [OF v(4) [OF Some]]
    then obtain act where act: "encodeBase64UrlAscii Text_not_ascii t = Inr act"
      using encode_Inr_iff [of Text_not_ascii t] by blast
    have "length act = 32" using t by (simp add: length_encode [OF act])
    moreover have "decodeBase64UrlAscii None act = Inr t"
      by (rule decode_encode [OF act]) (use t in auto)
    ultimately show ?thesis using Some act encode_no_dot [OF act] by (auto simp: js_def)
  qed
  then obtain act where act: "(case key_activity key of None \<Rightarrow> Inr (js ''-'')
      | Some t \<Rightarrow> encodeBase64UrlAscii Text_not_ascii t) = Inr act" "46 \<notin> set act" "1 \<le> length act" "length act \<le> 32"
    "case key_activity key of None \<Rightarrow> act = js ''-''
     | Some t \<Rightarrow> act \<noteq> js ''-'' \<and> decodeBase64UrlAscii None act = Inr t" by blast
  note rank = rank_text [OF v(2)]
  let ?c = "js ''v1'' @ 46 # snap @ 46 # natText (nat (key_rank key)) @ 46 # act @ 46 # sess"
  have len: "87 \<le> length ?c" "length ?c \<le> 196" using v(1) rank act(3,4) sess_len by simp_all
  moreover have "encodeSelectedSessionListCursor (snap, key) = Inr ?c"
    using assms act(1) sess len by (simp add: encodeSelectedSessionListCursor_def selectedSessionListCursorMaxLength_def)
  ultimately show ?thesis
    using that act(2,5) sess' encode_no_dot [OF sess] by blast
qed

interpretation session_cursor: cursor_codec encodeSelectedSessionListCursor decodeSelectedSessionListCursor
  "\<lambda>v. parseCursorValue v = Some v"
proof unfold_locales
  fix v c
  show "\<exists>c. encodeSelectedSessionListCursor v = Inr c \<and> decodeSelectedSessionListCursor c = Inr v"
    if "parseCursorValue v = Some v"
  proof -
    obtain snap key where v: "v = (snap, key)" by fastforce
    with that have stable: "parseCursorValue (snap, key) = Some (snap, key)" by simp
    then have snap: "46 \<notin> set snap" and rank: "key_rank key \<in> set attentionRanks"
      by (auto simp: stable_cursor_value list_all_iff isHexChar_def isDigit_def)
    from stable obtain act sess c where c_def: "c = js ''v1'' @ 46 # snap @ 46 # natText (nat (key_rank key)) @ 46 # act @ 46 # sess"
      and c: "encodeSelectedSessionListCursor (snap, key) = Inr c"
      and act: "case key_activity key of None \<Rightarrow> act = js ''-''
        | Some t \<Rightarrow> act \<noteq> js ''-'' \<and> decodeBase64UrlAscii None act = Inr t"
      and sess: "decodeBase64UrlAscii None sess = Inr (key_session key)" "46 \<notin> set act" "46 \<notin> set sess"
      and len: "87 \<le> length c" "length c \<le> 196" by (rule stable_encodes)
    have "46 \<notin> set (js ''v1'')" by (simp add: js_def)
    then have parts: "splitOn 46 c = [js ''v1'', snap, natText (nat (key_rank key)), act, sess]"
      using snap rank_text [OF rank] sess(2,3) unfolding c_def by (simp only: splitOn_join splitOn_plain simp_thms)
    have actv: "(if act = js ''-'' then Inr None else map_sum id Some (decodeBase64UrlAscii None act)) =
        (Inr (key_activity key) :: cursor_error + js_string option)"
      using act by (cases "key_activity key") auto
    have "decodeSelectedSessionListCursor c = Inr (snap, key)"
      using len parts actv sess(1) rank_text [OF rank] rank_member [OF rank] stable c
      by (simp add: decodeSelectedSessionListCursor_def selectedSessionListCursorMaxLength_def)
    with c v show ?thesis by blast
  qed
  show "parseCursorValue v = Some v \<and> encodeSelectedSessionListCursor v = Inr c"
    if "decodeSelectedSessionListCursor c = Inr v"
  proof -
    from that obtain u where u: "parseCursorValue u = Some v" and c: "encodeSelectedSessionListCursor v = Inr c"
      by (auto simp: decodeSelectedSessionListCursor_def split: if_splits list.splits js_number.splits sum.splits option.splits)
    from c obtain w where "parseCursorValue v = Some w"
      by (auto simp: encodeSelectedSessionListCursor_def split: option.splits)
    with parseCursorValue_twice [OF u] c show ?thesis by blast
  qed
qed

section \<open>Validation of a session list\<close>

record list_item =
  item_entry :: order_entry
  item_archived_at :: "js_string option"
  item_state :: managed_session_state

definition isArchived :: "list_item \<Rightarrow> bool" where
  "isArchived item \<longleftrightarrow> item_archived_at item \<noteq> None \<or> item_state item = MS_archived"

datatype list_issue = Archived_session nat | Duplicate_identity nat | Wrong_order nat

text \<open>
  The loop of \<open>validateSelectedSessionList\<close>: \<open>ids\<close> is the set of ids seen, \<open>previous\<close> the item
  before. \<open>None\<close> is an exception of the comparison.
\<close>

fun validateItems :: "nat \<Rightarrow> js_string list \<Rightarrow> list_item option \<Rightarrow> list_item list \<Rightarrow> list_issue list option" where
  "validateItems index ids previous [] = Some []"
| "validateItems index ids previous (item # items) =
     (case (case previous of
              None \<Rightarrow> Some []
            | Some p \<Rightarrow>
                (case compareSelectedSessionListOrder (item_entry p) (item_entry item) of
                   None \<Rightarrow> None
                 | Some n \<Rightarrow> Some (if 0 \<le> n then [Wrong_order index] else []))) of
        None \<Rightarrow> None
      | Some order \<Rightarrow>
          map_option (\<lambda>rest.
              (if isArchived item then [Archived_session index] else []) @
              (if entry_id (item_entry item) \<in> set ids then [Duplicate_identity index] else []) @
              order @ rest)
            (validateItems (index + 1) (entry_id (item_entry item) # ids) (Some item) items))"

definition validateSelectedSessionList :: "list_item list \<Rightarrow> list_issue list option" where
  "validateSelectedSessionList sessions = validateItems 0 [] None sessions"

lemma validateItems_accepted:
  assumes "validateItems index ids (Some p) items = Some []" "selectedSessionListSortKey (item_entry p) = Some k"
  shows "\<exists>ks. map (\<lambda>i. selectedSessionListSortKey (item_entry i)) items = map Some ks \<and>
    sorted_wrt (<) (k # ks) \<and> (\<forall>item \<in> set items. \<not> isArchived item \<and> entry_id (item_entry item) \<notin> set ids)"
  using assms
proof (induction items arbitrary: index ids p k)
  case (Cons item items)
  from Cons.prems obtain k1 where k1: "selectedSessionListSortKey (item_entry item) = Some k1"
    "compareSelectedSessionListSortKeys k k1 < 0" and not: "\<not> isArchived item" "entry_id (item_entry item) \<notin> set ids"
    and rest: "validateItems (index + 1) (entry_id (item_entry item) # ids) (Some item) items = Some []"
    by (auto simp: compareSelectedSessionListOrder_def not_le split: option.splits if_splits)
  from Cons.IH [OF rest k1(1)] obtain ks where ks: "map (\<lambda>i. selectedSessionListSortKey (item_entry i)) items = map Some ks"
    "sorted_wrt (<) (k1 # ks)"
    "\<forall>i \<in> set items. \<not> isArchived i \<and> entry_id (item_entry i) \<notin> set (entry_id (item_entry item) # ids)"
    by blast
  from k1(2) have "k < k1" by (simp add: less_sort_key_def)
  with ks(2) have "sorted_wrt (<) (k # k1 # ks)" by auto
  with ks k1 not show ?case by (intro exI [of _ "k1 # ks"]) auto
qed simp

lemma accepted_keys:
  assumes "validateSelectedSessionList items = Some []" "1 < length items"
  shows "\<exists>ks. map (\<lambda>i. selectedSessionListSortKey (item_entry i)) items = map Some ks \<and> sorted_wrt (<) ks"
proof -
  from assms(2) obtain p q items' where items: "items = p # q # items'"
    by (cases items; cases "tl items") auto
  with assms(1) obtain k ids where k: "selectedSessionListSortKey (item_entry p) = Some k"
    "validateItems 1 [entry_id (item_entry p)] (Some p) (q # items') = Some []"
    by (auto simp: validateSelectedSessionList_def compareSelectedSessionListOrder_def split: option.splits if_splits)
  from validateItems_accepted [OF k(2,1)] obtain ks where
    "map (\<lambda>i. selectedSessionListSortKey (item_entry i)) (q # items') = map Some ks" "sorted_wrt (<) (k # ks)"
    by blast
  with items k(1) show ?thesis by (intro exI [of _ "k # ks"]) auto
qed

lemma accepted_ids:
  assumes "validateItems index ids prev items = Some []"
  shows "distinct (map (\<lambda>i. entry_id (item_entry i)) items) \<and>
    (\<forall>i \<in> set items. \<not> isArchived i \<and> entry_id (item_entry i) \<notin> set ids)"
  using assms
proof (induction items arbitrary: index ids prev)
  case (Cons item items)
  from Cons.prems have "validateItems (index + 1) (entry_id (item_entry item) # ids) (Some item) items = Some []"
    "\<not> isArchived item" "entry_id (item_entry item) \<notin> set ids"
    by (auto split: option.splits if_splits)
  with Cons.IH show ?case by fastforce
qed simp

lemma sorted_list_unique:
  "sorted_wrt (<) xs \<Longrightarrow> sorted_wrt (<) ys \<Longrightarrow> set xs = set ys \<Longrightarrow> xs = (ys :: 'a :: linorder list)"
  by (metis sorted_distinct_set_unique strict_sorted_iff)

section \<open>Properties\<close>

text \<open>The device-list cursor is a bijection between device ids and the cursors the decoder
  accepts: a text decodes to an id exactly when the id encodes to that text, so every encoded
  cursor decodes to its id and no id has a second cursor.\<close>

theorem device_list_cursor_bijection:
  "decodeSelectedDeviceListCursor c = Inr d \<longleftrightarrow> encodeSelectedDeviceListCursor d = Inr c"
proof
  assume "encodeSelectedDeviceListCursor d = Inr c"
  moreover from this have "selectedDeviceIdSchema d = Some d"
    by (auto simp: encodeSelectedDeviceListCursor_def deviceIdSchema_iff split: option.splits)
  ultimately show "decodeSelectedDeviceListCursor c = Inr d" by (simp add: device_cursor.decode_iff)
qed (simp add: device_cursor.decode_iff)

text \<open>C30: a session-list position in normal form (snapshot, rank, canonical timestamp and session
  id all accepted unchanged) always encodes, within the 87 to 196 characters of the cursor
  schema, and the cursors of such positions are exactly the texts the decoder accepts, each
  decoding to its position.\<close>

theorem session_list_cursor_bijection:
  "(decodeSelectedSessionListCursor c = Inr v \<longleftrightarrow>
      parseCursorValue v = Some v \<and> encodeSelectedSessionListCursor v = Inr c) \<and>
   (parseCursorValue v = Some v \<longrightarrow>
      (\<exists>w. encodeSelectedSessionListCursor v = Inr w \<and> 87 \<le> length w \<and> length w \<le> 196))"
proof -
  have "\<exists>w. encodeSelectedSessionListCursor v = Inr w \<and> 87 \<le> length w \<and> length w \<le> 196"
    if "parseCursorValue v = Some v"
  proof -
    obtain snap key where v: "v = (snap, key)" by fastforce
    with that have "parseCursorValue (snap, key) = Some (snap, key)" by simp
    then show ?thesis unfolding v by (rule stable_encodes) blast
  qed
  then show ?thesis using session_cursor.decode_iff [of c v] by blast
qed

theorem session_list_cursor_bijection_witness:
  "\<exists>w. encodeSelectedSessionListCursor (replicate 64 97, Sort_key 0 None (js ''sess_abcdef'')) = Inr w \<and>
     87 \<le> length w \<and> length w \<le> 196"
proof -
  have "sessionIdPattern (js ''sess_abcdef'')"
    by (simp add: sessionIdPattern_def startsWith_def js_def idTail_def char_class_defs)
  then have "parseCursorValue (replicate 64 97, Sort_key 0 None (js ''sess_abcdef'')) =
      Some (replicate 64 97, Sort_key 0 None (js ''sess_abcdef''))"
    by (simp add: stable_cursor_value attentionRanks_def isHexChar_def list_all_iff)
  then show ?thesis by (rule session_list_cursor_bijection [THEN conjunct2, rule_format])
qed

text \<open>The order of a session list is determined by its content. A list that the validation
  accepts has no archived session and no repeated id, and two accepted lists with the same
  sessions are the same list.\<close>

theorem session_list_order_unique:
  assumes "validateSelectedSessionList xs = Some []" "validateSelectedSessionList ys = Some []"
    and "set xs = set ys"
  shows "xs = ys \<and> distinct (map (\<lambda>i. entry_id (item_entry i)) xs) \<and> (\<forall>i \<in> set xs. \<not> isArchived i)"
proof -
  let ?id = "\<lambda>i. entry_id (item_entry i)" and ?key = "\<lambda>i. selectedSessionListSortKey (item_entry i)"
  have ids: "distinct (map ?id xs)" "distinct (map ?id ys)" and arch: "\<forall>i \<in> set xs. \<not> isArchived i"
    using assms(1,2) accepted_ids unfolding validateSelectedSessionList_def by blast+
  then have len: "length xs = length ys"
    using assms(3) by (metis distinct_card distinct_map)
  have "xs = ys"
  proof (cases "1 < length xs")
    case True
    with assms len obtain kx ky where kx: "map ?key xs = map Some kx" "sorted_wrt (<) kx"
      and ky: "map ?key ys = map Some ky" "sorted_wrt (<) ky"
      using accepted_keys by metis
    have "Some ` set kx = Some ` set ky"
      using kx(1) ky(1) assms(3) by (metis image_set)
    then have "set kx = set ky" by (simp add: inj_image_eq_iff)
    with kx ky have "kx = ky" by (blast intro: sorted_list_unique)
    with kx ky have eq: "map ?key xs = map ?key ys" by simp
    have inj: "inj_on ?key (set xs \<union> set ys)"
    proof (rule inj_onI)
      fix i j
      assume "i \<in> set xs \<union> set ys" "j \<in> set xs \<union> set ys" and key: "?key i = ?key j"
      with assms(3) have i: "i \<in> set xs" "j \<in> set xs" by auto
      with kx(1) have "?key i \<in> Some ` set kx" by (metis image_eqI image_set list.set_map)
      then obtain k where "?key i = Some k" "?key j = Some k" using key by auto
      then have "?id i = ?id j"
        by (auto simp: selectedSessionListSortKey_def parseSortKey_def brandedStringSchema_iff parseSessionId_Inr
            split: if_splits option.splits)
      with i ids(1) show "i = j" by (auto simp: distinct_map dest: inj_onD)
    qed
    show ?thesis using map_inj_on [OF eq inj] .
  next
    case False
    with len assms(3) show ?thesis by (cases xs; cases ys) auto
  qed
  with ids arch show ?thesis by blast
qed

theorem session_list_order_unique_witness:
  "let i = \<lparr>item_entry = \<lparr>entry_attention = AL_failed, entry_id = js ''sess_abcdef'', entry_last_activity = None\<rparr>,
            item_archived_at = None, item_state = MS_active\<rparr>
   in \<not> isArchived i"
proof -
  let ?i = "\<lparr>item_entry = \<lparr>entry_attention = AL_failed, entry_id = js ''sess_abcdef'', entry_last_activity = None\<rparr>,
            item_archived_at = None, item_state = MS_active\<rparr>"
  let ?j = "\<lparr>item_entry = \<lparr>entry_attention = AL_none, entry_id = js ''sess_abcdeg'', entry_last_activity = None\<rparr>,
            item_archived_at = None, item_state = MS_active\<rparr>"
  have "sessionIdPattern (js ''sess_abcdef'')" "sessionIdPattern (js ''sess_abcdeg'')"
    by (simp_all add: sessionIdPattern_def startsWith_def js_def idTail_def char_class_defs)
  then have "validateSelectedSessionList [?i, ?j] = Some []"
    by (simp add: validateSelectedSessionList_def compareSelectedSessionListOrder_def selectedSessionListSortKey_def
        parseSortKey_def parseActivity_def attentionRanks_def brandedStringSchema_def parseSessionId_Inr [THEN iffD2]
        compareSelectedSessionListSortKeys_def isArchived_def)
  from session_list_order_unique [OF this this refl] show ?thesis by (simp add: Let_def)
qed

text \<open>
  The encoder accepts positions whose cursor the decoder refuses: a timestamp with a four-digit
  year may normalise to a year outside 0 to 9999, and its normal form is not a timestamp.
\<close>

lemma encode_parts:
  assumes c: "encodeSelectedSessionListCursor v = Inr c" and v: "parseCursorValue v = Some (snap, key)"
  obtains act sess where
    "splitOn 46 c = [js ''v1'', snap, natText (nat (key_rank key)), act, sess]"
    "case key_activity key of None \<Rightarrow> act = js ''-''
     | Some t \<Rightarrow> act \<noteq> js ''-'' \<and> decodeBase64UrlAscii None act = Inr t"
    "decodeBase64UrlAscii None sess = Inr (key_session key)"
proof -
  from v have snap: "46 \<notin> set snap" and rank: "key_rank key \<in> set attentionRanks"
    and id: "sessionIdPattern (key_session key)" and
    time: "\<And>t. key_activity key = Some t \<Longrightarrow> \<exists>x. t = toISOString x"
    by (auto simp: parseCursorValue_def parseOrderSnapshot_def parseSortKey_def parseActivity_def list_all_iff
        isHexChar_def isDigit_def brandedStringSchema_iff parseSessionId_Inr parseIsoTimestamp_instant
        split: if_splits option.splits)
  from c v obtain act sess where act: "(case key_activity key of None \<Rightarrow> Inr (js ''-'')
        | Some t \<Rightarrow> encodeBase64UrlAscii Text_not_ascii t) = Inr act"
    and sess: "encodeBase64UrlAscii Text_not_ascii (key_session key) = Inr sess"
    and c_def: "c = js ''v1'' @ 46 # snap @ 46 # natText (nat (key_rank key)) @ 46 # act @ 46 # sess"
    by (auto simp: encodeSelectedSessionListCursor_def Let_def split: sum.splits if_splits)
  have act': "46 \<notin> set act \<and> (case key_activity key of None \<Rightarrow> act = js ''-''
     | Some t \<Rightarrow> act \<noteq> js ''-'' \<and> decodeBase64UrlAscii None act = Inr t)"
  proof (cases "key_activity key")
    case None
    with act show ?thesis by (auto simp: js_def)
  next
    case (Some t)
    from time [OF Some] obtain x where "t = toISOString x" by blast
    with toISOString_shape [of x] have "20 \<le> length t" by fastforce
    moreover from Some act have e: "encodeBase64UrlAscii Text_not_ascii t = Inr act" by simp
    ultimately have "2 \<le> length act" "t \<noteq> []" unfolding length_encode [OF e] by auto
    with Some encode_no_dot [OF e] decode_encode [OF e] show ?thesis by auto
  qed
  have "46 \<notin> set (js ''v1'')" by (simp add: js_def)
  then have "splitOn 46 c = [js ''v1'', snap, natText (nat (key_rank key)), act, sess]"
    using snap rank_text [OF rank] act' encode_no_dot [OF sess]
    unfolding c_def by (simp only: splitOn_join splitOn_plain simp_thms)
  moreover have "decodeBase64UrlAscii None sess = Inr (key_session key)"
    by (rule decode_encode [OF sess]) (use sessionIdPattern_size [OF id] in auto)
  ultimately show ?thesis using act' that by blast
qed

lemma decode_encoded:
  assumes c: "encodeSelectedSessionListCursor v = Inr c" and v: "parseCursorValue v = Some v'"
    and w: "decodeSelectedSessionListCursor c = Inr w"
  shows "w = v'"
proof -
  obtain s k s' k' where eq: "v' = (s, k)" "w = (s', k')" by fastforce
  from w have w': "parseCursorValue (s', k') = Some (s', k')" "encodeSelectedSessionListCursor (s', k') = Inr c"
    unfolding eq by (simp_all add: session_cursor.decode_iff)
  from encode_parts [OF c v [unfolded eq]] obtain act sess where 1:
    "splitOn 46 c = [js ''v1'', s, natText (nat (key_rank k)), act, sess]"
    "case key_activity k of None \<Rightarrow> act = js ''-'' | Some t \<Rightarrow> act \<noteq> js ''-'' \<and> decodeBase64UrlAscii None act = Inr t"
    "decodeBase64UrlAscii None sess = Inr (key_session k)" by blast
  from encode_parts [OF w'(2,1)] obtain act' sess' where 2:
    "splitOn 46 c = [js ''v1'', s', natText (nat (key_rank k')), act', sess']"
    "case key_activity k' of None \<Rightarrow> act' = js ''-'' | Some t \<Rightarrow> act' \<noteq> js ''-'' \<and> decodeBase64UrlAscii None act' = Inr t"
    "decodeBase64UrlAscii None sess' = Inr (key_session k')" by blast
  have "key_rank k \<in> set attentionRanks" "key_rank k' \<in> set attentionRanks"
    using v w'(1) unfolding eq
    by (auto simp: parseCursorValue_def parseSortKey_def split: if_splits option.splits)
  moreover have "natText (nat (key_rank k)) = natText (nat (key_rank k'))" using 1(1) 2(1) by simp
  ultimately have "key_rank k = key_rank k'" using rank_text by (metis js_number.inject of_int_eq_iff)
  moreover have "key_activity k = key_activity k'"
    using 1 2 by (cases "key_activity k"; cases "key_activity k'") auto
  moreover have "key_session k = key_session k'" using 1 2 by auto
  ultimately show ?thesis using 1(1) 2(1) unfolding eq by (simp add: sort_key.expand)
qed

definition earlyTimestamp :: js_string where
  "earlyTimestamp = js ''0000-01-01T00:00:00.000+00:01''"

lemma earlyTimestamp_instant: "instantOf earlyTimestamp = Some (- 62167219260000)"
  by code_simp

lemma earlyTimestamp_year: "\<not> fourDigitYear (- 62167219260000)"
  by code_simp

lemma earlyTimestamp_text: "toISOString (- 62167219260000) = js ''-000001-12-31T23:59:00.000Z''"
  by code_simp

theorem session_cursor_undecodable:
  "\<exists>v c e. encodeSelectedSessionListCursor v = Inr c \<and> decodeSelectedSessionListCursor c = Inl e"
proof -
  let ?t = "js ''-000001-12-31T23:59:00.000Z''" and ?snap = "replicate 64 (97 :: nat)"
  let ?v = "(?snap, Sort_key 0 (Some earlyTimestamp) (js ''sess_abcdef''))"
  let ?w = "(?snap, Sort_key 0 (Some ?t) (js ''sess_abcdef''))"
  have id: "sessionIdPattern (js ''sess_abcdef'')"
    by (simp add: sessionIdPattern_def startsWith_def js_def idTail_def char_class_defs)
  have iso: "parseIsoTimestamp earlyTimestamp = Inr ?t"
    using earlyTimestamp_instant earlyTimestamp_text by (auto simp: parseIsoTimestamp_instant)
  have parse: "parseCursorValue ?v = Some ?w"
    using iso id
    by (simp add: parseCursorValue_def parseOrderSnapshot_def parseSortKey_def parseActivity_def attentionRanks_def
        brandedStringSchema_def parseSessionId_Inr [THEN iffD2] isHexChar_def list_all_iff)
  have "list_all (\<lambda>c. c \<le> 127) ?t" "list_all (\<lambda>c. c \<le> 127) (js ''sess_abcdef'')" by (simp_all add: js_def)
  then obtain a b where ab: "encodeBase64UrlAscii Text_not_ascii ?t = Inr a"
    "encodeBase64UrlAscii Text_not_ascii (js ''sess_abcdef'') = Inr b"
    using encode_Inr_iff [of Text_not_ascii] by blast
  have "length a = 36" "length b = 15" by (simp_all add: length_encode [OF ab(1)] length_encode [OF ab(2)])
  then obtain c where c: "encodeSelectedSessionListCursor ?v = Inr c"
    using ab parse by (simp add: encodeSelectedSessionListCursor_def natText_rank selectedSessionListCursorMaxLength_def)
  have "parseIsoTimestamp ?t \<noteq> Inr ?t"
    using parse_toISOString_accepts [of "- 62167219260000"] earlyTimestamp_year earlyTimestamp_text by auto
  then have "parseCursorValue ?w \<noteq> Some ?w" by (simp add: stable_cursor_value)
  then have unstable: "parseCursorValue w \<noteq> Some w" if "w = ?w" for w using that by blast
  show ?thesis
  proof (cases "decodeSelectedSessionListCursor c")
    case (Inl e)
    with c show ?thesis by blast
  next
    case (Inr w)
    from decode_encoded [OF c parse Inr] unstable have "parseCursorValue w \<noteq> Some w" by blast
    with Inr show ?thesis by (simp only: session_cursor.decode_iff) blast
  qed
qed

end
