(* ===== verification/Machine.thy ===== *)
theory Machine
  imports Prelude
begin

text \<open>
  What the stateful components have in common: a component is a step function over its
  operations, an invariant every operation keeps, and a relation between an earlier and a later
  state (what never changes back). The locale carries both over any sequence of operations, so
  each component proves them once for one operation.
\<close>

definition runSteps :: "('op \<Rightarrow> 's \<Rightarrow> 's) \<Rightarrow> 'op list \<Rightarrow> 's \<Rightarrow> 's" where
  "runSteps step ops s = fold step ops s"

lemma runSteps_simps [simp]:
  "runSteps step [] s = s" "runSteps step (op # ops) s = runSteps step ops (step op s)"
  "runSteps step (ops @ ops') s = runSteps step ops' (runSteps step ops s)"
  by (simp_all add: runSteps_def)

locale machine =
  fixes step :: "'op \<Rightarrow> 's \<Rightarrow> 's" and ok :: "'s \<Rightarrow> bool" and later :: "'s \<Rightarrow> 's \<Rightarrow> bool"
  assumes step_ok: "ok s \<Longrightarrow> ok (step op s)"
    and step_later: "ok s \<Longrightarrow> later s (step op s)"
    and later_refl: "later s s"
    and later_trans: "later s t \<Longrightarrow> later t u \<Longrightarrow> later s u"
begin

lemma run_ok: "ok s \<Longrightarrow> ok (runSteps step ops s)"
  by (induction ops arbitrary: s) (simp_all add: step_ok)

lemma run_later: "ok s \<Longrightarrow> later s (runSteps step ops s)"
  by (induction ops arbitrary: s) (auto intro: later_refl later_trans step_later step_ok)

end

text \<open>A machine with states it never leaves and in which no operation has an effect that counts.\<close>

locale latched_machine = machine +
  fixes terminal :: "'b \<Rightarrow> bool" and observe :: "'b \<Rightarrow> 'c"
  assumes terminal_step: "ok s \<Longrightarrow> terminal s \<Longrightarrow> terminal (step op s) \<and> observe (step op s) = observe s"
begin

lemma terminal_run:
  "ok s \<Longrightarrow> terminal s \<Longrightarrow> terminal (runSteps step ops s) \<and> observe (runSteps step ops s) = observe s"
proof (induction ops arbitrary: s)
  case (Cons op ops)
  from terminal_step [OF Cons.prems] Cons.IH [OF step_ok [OF Cons.prems(1)]] show ?case by force
qed simp

end

end
