(* ===== verification/Fanout_Hub.thy ===== *)
theory Fanout_Hub
  imports Identifiers Machine
begin

text \<open>
  \<open>packages/server/src/projection-fanout-hub.ts\<close>: the in-process hub that hands every committed
  event of a session to its live subscribers.

  Object identity is explicit: a subscriber record carries its \<open>Symbol\<close> token, a session state
  the number of the object it is. A subscriber callback is what it does to the hub before it
  returns, throws or returns a value: any list of hub calls, a nested \<open>publish\<close> included. Abort
  listeners run after the hub has finished changing its state, so their calls are calls that
  follow. The log records, in order, what the hub did to its subscribers.
\<close>

section \<open>Errors and state\<close>

datatype fanout_error =
  Fanout_closed | Fanout_stopped | Invalid_publication | Invalid_subscription
| Publication_backward | Publication_duplicate | Publication_gap | Publication_reentrant
| Subscriber_delivery_failed | Subscriber_exists | Subscriber_limit | Subscriber_session_limit
| Fanout_type_error

record fanout_failure =
  failure_code :: fanout_error
  failure_cursor :: "nat option"
  failure_subscribers :: nat
  failure_session :: "js_string option"

record subscriber =
  sub_id :: js_string
  sub_session :: js_string
  sub_token :: nat

record session_fanout =
  fan_object :: nat
  fan_last :: "nat option"
  fan_subs :: "(js_string, subscriber) js_map"

datatype close_reason = Closed_by_subscriber | Closed_by_hub | Stopped_by_failure

datatype effect = Delivered nat nat | Aborted nat close_reason

record hub =
  hub_sessions :: "(js_string, session_fanout) js_map"
  hub_subscribers :: "(js_string, subscriber) js_map"
  hub_failure :: "fanout_failure option"
  hub_closed :: bool
  hub_publishing :: bool
  max_subscribers :: nat
  max_per_session :: nat
  next_token :: nat
  next_object :: nat
  hub_log :: "effect list"

section \<open>Options\<close>

record limit_definition =
  default_limit :: int
  minimum_limit :: int
  maximum_limit :: int

text \<open>\<open>sse_max_subscribers\<close> and \<open>sse_max_subscribers_per_session\<close> of the resource policy.\<close>

definition globalSubscriberDefinition :: limit_definition where
  "globalSubscriberDefinition = \<lparr>default_limit = 32, minimum_limit = 1, maximum_limit = 512\<rparr>"

definition sessionSubscriberDefinition :: limit_definition where
  "sessionSubscriberDefinition = \<lparr>default_limit = 4, minimum_limit = 1, maximum_limit = 32\<rparr>"

text \<open>\<open>None\<close> is \<open>undefined\<close>.\<close>

definition parseLimit :: "js_number option \<Rightarrow> limit_definition \<Rightarrow> fanout_error + int" where
  "parseLimit candidate def =
     (let v = (case candidate of None \<Rightarrow> Finite (of_int (default_limit def)) | Some n \<Rightarrow> n) in
      case v of
        Finite r \<Rightarrow>
          if \<not> isSafeInteger v \<or> r < of_int (minimum_limit def) \<or> r > of_int (maximum_limit def)
          then Inl Fanout_type_error else Inr \<lfloor>r\<rfloor>
      | _ \<Rightarrow> Inl Fanout_type_error)"

text \<open>\<open>plain\<close>: the options are a plain object with no other key.\<close>

definition parseOptions :: "bool \<Rightarrow> js_number option \<Rightarrow> js_number option \<Rightarrow> fanout_error + int \<times> int" where
  "parseOptions plain maxSubs maxPer =
     (if \<not> plain then Inl Fanout_type_error
      else case parseLimit maxSubs globalSubscriberDefinition of
        Inl e \<Rightarrow> Inl e
      | Inr g \<Rightarrow>
          (case parseLimit maxPer sessionSubscriberDefinition of
             Inl e \<Rightarrow> Inl e
           | Inr s \<Rightarrow> if s > g then Inl Fanout_type_error else Inr (g, s)))"

definition createProjectionFanoutHub ::
    "bool \<Rightarrow> js_number option \<Rightarrow> js_number option \<Rightarrow> fanout_error + hub" where
  "createProjectionFanoutHub plain maxSubs maxPer =
     (case parseOptions plain maxSubs maxPer of
        Inl e \<Rightarrow> Inl e
      | Inr (g, s) \<Rightarrow>
          Inr \<lparr>hub_sessions = [], hub_subscribers = [], hub_failure = None, hub_closed = False,
               hub_publishing = False, max_subscribers = nat g, max_per_session = nat s,
               next_token = 0, next_object = 0, hub_log = []\<rparr>)"

section \<open>Failing and closing\<close>

definition assertAvailable :: "hub \<Rightarrow> fanout_error + unit" where
  "assertAvailable h =
     (if hub_closed h then Inl Fanout_closed
      else if hub_failure h \<noteq> None then Inl Fanout_stopped
      else Inr ())"

definition clearSubscribers :: "close_reason \<Rightarrow> hub \<Rightarrow> hub" where
  "clearSubscribers reason h =
     h\<lparr>hub_subscribers := [], hub_sessions := [],
       hub_log := hub_log h @ map (\<lambda>p. Aborted (sub_token (snd p)) reason) (hub_subscribers h)\<rparr>"

definition fatalFailureCode :: "fanout_error \<Rightarrow> fanout_error option" where
  "fatalFailureCode code =
     (if code \<in> set [Invalid_publication, Publication_backward, Publication_duplicate, Publication_gap,
                   Publication_reentrant, Subscriber_delivery_failed]
      then Some code else None)"

definition fail :: "fanout_error \<Rightarrow> js_string option \<Rightarrow> nat option \<Rightarrow> nat \<Rightarrow> hub \<Rightarrow> fanout_error \<times> hub" where
  "fail error sessionId cursor failedCount h =
     (if hub_failure h = None then
        (case fatalFailureCode error of
           None \<Rightarrow> (Fanout_type_error, h)
         | Some code \<Rightarrow>
             (error, clearSubscribers Stopped_by_failure
                (h\<lparr>hub_failure := Some \<lparr>failure_code = code, failure_cursor = cursor,
                     failure_subscribers = failedCount, failure_session = sessionId\<rparr>\<rparr>)))
      else (error, clearSubscribers Stopped_by_failure h))"

definition close_hub :: "hub \<Rightarrow> nat \<times> hub" where
  "close_hub h =
     (if hub_closed h then (0, h)
      else (map_size (hub_subscribers h), clearSubscribers Closed_by_hub (h\<lparr>hub_closed := True\<rparr>)))"

section \<open>Subscribing\<close>

text \<open>\<open>Malformed\<close>: not a plain object with exactly the three keys, or an id that is no string.\<close>

datatype subscription_input = Malformed | Subscription js_string bool js_string

definition subscriberIdChar :: "nat \<Rightarrow> bool" where
  "subscriberIdChar c \<longleftrightarrow> isLetter c \<or> isDigit c \<or> c = 95 \<or> c = 46 \<or> c = 58 \<or> c = 45"

definition subscriberIdPattern :: "js_string \<Rightarrow> bool" where
  "subscriberIdPattern s \<longleftrightarrow> list_all subscriberIdChar s \<and> 1 \<le> length s \<and> length s \<le> 120"

definition parseSubscription :: "subscription_input \<Rightarrow> fanout_error + js_string \<times> js_string" where
  "parseSubscription candidate =
     (case candidate of
        Malformed \<Rightarrow> Inl Invalid_subscription
      | Subscription i callable sid \<Rightarrow>
          (case brandedStringSchema parseSessionId (Some sid) of
             None \<Rightarrow> Inl Invalid_subscription
           | Some session \<Rightarrow>
               if \<not> subscriberIdPattern i \<or> \<not> callable then Inl Invalid_subscription
               else Inr (i, session)))"

text \<open>The subscription handed out: its record and the high-water cursor it observed.\<close>

definition subscribe :: "subscription_input \<Rightarrow> hub \<Rightarrow> (fanout_error + subscriber \<times> nat option) \<times> hub" where
  "subscribe candidate h =
     (case assertAvailable h of
        Inl e \<Rightarrow> (Inl e, h)
      | Inr _ \<Rightarrow>
          (case parseSubscription candidate of
             Inl e \<Rightarrow> (Inl e, h)
           | Inr (i, sid) \<Rightarrow>
               if map_get (hub_subscribers h) i \<noteq> None then (Inl Subscriber_exists, h)
               else if map_size (hub_subscribers h) \<ge> max_subscribers h then (Inl Subscriber_limit, h)
               else
                 let current = map_get (hub_sessions h) sid in
                 if (case current of None \<Rightarrow> 0 | Some s \<Rightarrow> map_size (fan_subs s)) \<ge> max_per_session h
                 then (Inl Subscriber_session_limit, h)
                 else
                   let session = (case current of
                         Some s \<Rightarrow> s
                       | None \<Rightarrow> \<lparr>fan_object = next_object h, fan_last = None, fan_subs = []\<rparr>);
                       record = \<lparr>sub_id = i, sub_session = sid, sub_token = next_token h\<rparr>;
                       session = session\<lparr>fan_subs := map_set (fan_subs session) i record\<rparr> in
                   (Inr (record, fan_last session),
                    h\<lparr>hub_sessions := map_set (hub_sessions h) sid session,
                      hub_subscribers := map_set (hub_subscribers h) i record,
                      next_token := next_token h + 1,
                      next_object := (if current = None then next_object h + 1 else next_object h)\<rparr>)))"

definition hasSubscription :: "hub \<Rightarrow> js_string \<Rightarrow> nat \<Rightarrow> bool" where
  "hasSubscription h i token = (map_option sub_token (map_get (hub_subscribers h) i) = Some token)"

definition unsubscribe :: "js_string \<Rightarrow> nat \<Rightarrow> hub \<Rightarrow> bool \<times> hub" where
  "unsubscribe i token h =
     (case map_get (hub_subscribers h) i of
        None \<Rightarrow> (False, h)
      | Some record \<Rightarrow>
          if sub_token record \<noteq> token then (False, h)
          else
            let h = h\<lparr>hub_subscribers := map_delete (hub_subscribers h) i\<rparr>;
                h = (case map_get (hub_sessions h) (sub_session record) of
                       None \<Rightarrow> h
                     | Some session \<Rightarrow>
                         let session = session\<lparr>fan_subs := map_delete (fan_subs session) i\<rparr> in
                         h\<lparr>hub_sessions :=
                             (if map_size (fan_subs session) = 0
                              then map_delete (hub_sessions h) (sub_session record)
                              else map_set (hub_sessions h) (sub_session record) session)\<rparr>) in
            (True, h\<lparr>hub_log := hub_log h @ [Aborted token Closed_by_subscriber]\<rparr>))"

section \<open>Publishing\<close>

text \<open>
  A committed append as the hub reads it, after the record schemas of the contracts package:
  \<open>None\<close> for an event, projection or revision those schemas refuse. \<open>measured_length\<close> is the
  byte length of the event's encoding, which the hub recomputes.
\<close>

record publication_event =
  event_session :: js_string
  event_cursor :: nat
  event_byte_length :: nat
  measured_length :: nat

record publication_projection =
  projection_session :: js_string
  projection_last_cursor :: "nat option"
  projection_retained :: nat
  projection_earliest :: "nat option"
  projection_updated_at :: js_string

record publication_revision =
  revision_last_cursor :: nat
  revision_mapping_updated_at :: js_string
  revision_projection_updated_at :: js_string

record publication =
  deeply_frozen :: bool
  exact_fields :: bool
  pub_event :: "publication_event option"
  pub_projection :: "publication_projection option"
  pub_revision :: "publication_revision option"

definition parseCommittedPublication :: "publication \<Rightarrow> fanout_error + publication_event" where
  "parseCommittedPublication p =
     (if \<not> deeply_frozen p then Inl Invalid_publication
      else if \<not> exact_fields p then Inl Invalid_publication
      else case (pub_revision p, pub_event p, pub_projection p) of
        (Some revision, Some event, Some projection) \<Rightarrow>
          if event_cursor event < 1 \<or>
             event_byte_length event \<noteq> measured_length event \<or>
             event_session event \<noteq> projection_session projection \<or>
             projection_last_cursor projection \<noteq> Some (event_cursor event) \<or>
             projection_retained projection < 1 \<or>
             (case projection_earliest projection of None \<Rightarrow> True | Some e \<Rightarrow> e > event_cursor event) \<or>
             revision_last_cursor revision \<noteq> event_cursor event \<or>
             revision_projection_updated_at revision \<noteq> projection_updated_at projection
          then Inl Invalid_publication else Inr event
      | _ \<Rightarrow> Inl Invalid_publication)"

text \<open>What a callback does to the hub, and how it ends.\<close>

datatype nested_call =
  Nested_subscribe subscription_input | Nested_unsubscribe js_string nat | Nested_close | Nested_publish

datatype outcome = Accepts | Returns_value | Throws

type_synonym callback = "nested_call list \<times> outcome"

text \<open>The first two checks of \<open>publish\<close>; a nested call does not get past the second.\<close>

definition publishEntry :: "hub \<Rightarrow> (fanout_error + unit) \<times> hub" where
  "publishEntry h =
     (case assertAvailable h of
        Inl e \<Rightarrow> (Inl e, h)
      | Inr _ \<Rightarrow>
          if hub_publishing h then (case fail Publication_reentrant None None 0 h of (e, h) \<Rightarrow> (Inl e, h))
          else (Inr (), h))"

fun nestedCall :: "nested_call \<Rightarrow> hub \<Rightarrow> hub" where
  "nestedCall (Nested_subscribe candidate) h = snd (subscribe candidate h)"
| "nestedCall (Nested_unsubscribe i token) h = snd (unsubscribe i token h)"
| "nestedCall Nested_close h = snd (close_hub h)"
| "nestedCall Nested_publish h = snd (publishEntry h)"

text \<open>The delivery loop over the snapshot; \<open>failed\<close> counts the deliveries not accepted.\<close>

fun deliver ::
    "(subscriber \<Rightarrow> callback) \<Rightarrow> nat \<Rightarrow> subscriber list \<Rightarrow> nat \<Rightarrow> hub \<Rightarrow> (fanout_error + nat) \<times> hub" where
  "deliver callbacks cursor [] failed h = (Inr failed, h)"
| "deliver callbacks cursor (r # snapshot) failed h =
     (if map_get (hub_subscribers h) (sub_id r) \<noteq> Some r then deliver callbacks cursor snapshot failed h
      else
        let h = h\<lparr>hub_log := hub_log h @ [Delivered (sub_token r) cursor]\<rparr>;
            h = fold nestedCall (fst (callbacks r)) h;
            failed = (if snd (callbacks r) = Accepts then failed else failed + 1) in
        if hub_failure h \<noteq> None then (Inl Fanout_stopped, h)
        else if hub_closed h then (Inl Fanout_closed, h)
        else deliver callbacks cursor snapshot failed h)"

text \<open>The part of \<open>publish\<close> inside \<open>try\<close>, for the session object found under the event's id.\<close>

definition deliverAll ::
    "(subscriber \<Rightarrow> callback) \<Rightarrow> publication_event \<Rightarrow> session_fanout \<Rightarrow> hub \<Rightarrow> (fanout_error + unit) \<times> hub" where
  "deliverAll callbacks event session h =
     (case deliver callbacks (event_cursor event) (map snd (fan_subs session)) 0 h of
        (Inl e, h) \<Rightarrow> (Inl e, h)
      | (Inr failed, h) \<Rightarrow>
          if failed > 0 then
            (case fail Subscriber_delivery_failed (Some (event_session event)) (Some (event_cursor event)) failed h of
               (e, h) \<Rightarrow> (Inl e, h))
          else
            (case map_get (hub_sessions h) (event_session event) of
               None \<Rightarrow> (Inr (), h)
             | Some s \<Rightarrow>
                 if fan_object s = fan_object session then
                   (Inr (), h\<lparr>hub_sessions :=
                      map_set (hub_sessions h) (event_session event) (s\<lparr>fan_last := Some (event_cursor event)\<rparr>)\<rparr>)
                 else (Inr (), h)))"

definition publish :: "(subscriber \<Rightarrow> callback) \<Rightarrow> publication \<Rightarrow> hub \<Rightarrow> (fanout_error + unit) \<times> hub" where
  "publish callbacks candidate h =
     (case publishEntry h of
        (Inl e, h) \<Rightarrow> (Inl e, h)
      | (Inr _, h) \<Rightarrow>
          (case parseCommittedPublication candidate of
             Inl code \<Rightarrow> (case fail code None None 0 h of (e, h) \<Rightarrow> (Inl e, h))
           | Inr event \<Rightarrow>
               (let sid = event_session event; cursor = event_cursor event;
                    stop = (\<lambda>code. case fail code (Some sid) (Some cursor) 0 h of (e, h) \<Rightarrow> (Inl e, h)) in
                case map_get (hub_sessions h) sid of
                  None \<Rightarrow> (Inr (), h)
                | Some session \<Rightarrow>
                    (case (case fan_last session of
                             None \<Rightarrow> None
                           | Some l \<Rightarrow>
                               if cursor = l then Some Publication_duplicate
                               else if cursor < l then Some Publication_backward
                               else if cursor \<noteq> l + 1 then Some Publication_gap
                               else None) of
                       Some code \<Rightarrow> stop code
                     | None \<Rightarrow>
                         (case deliverAll callbacks event session (h\<lparr>hub_publishing := True\<rparr>) of
                            (result, h) \<Rightarrow> (result, h\<lparr>hub_publishing := False\<rparr>))))))"

section \<open>The invariant\<close>

definition liveTokens :: "hub \<Rightarrow> nat list" where
  "liveTokens h = map (\<lambda>p. sub_token (snd p)) (hub_subscribers h)"

fun abortsOf :: "nat \<Rightarrow> effect list \<Rightarrow> nat" where
  "abortsOf t [] = 0"
| "abortsOf t (Aborted u reason # es) = (if u = t then 1 else 0) + abortsOf t es"
| "abortsOf t (Delivered u c # es) = abortsOf t es"

fun received :: "nat \<Rightarrow> effect list \<Rightarrow> nat list" where
  "received t [] = []"
| "received t (Delivered u c # es) = (if u = t then [c] else []) @ received t es"
| "received t (Aborted u reason # es) = received t es"

lemma abortsOf_append [simp]: "abortsOf t (l @ l') = abortsOf t l + abortsOf t l'"
  by (induction t l rule: abortsOf.induct) auto

lemma received_append [simp]: "received t (l @ l') = received t l @ received t l'"
  by (induction t l rule: received.induct) auto

lemma received_aborts [simp]: "received t (map (\<lambda>p. Aborted (f p) reason) ps) = []"
  by (induction ps) auto

lemma abortsOf_aborts [simp]: "abortsOf t (map (\<lambda>p. Aborted (f p) reason) ps) = count_list (map f ps) t"
  by (induction ps) auto

text \<open>A session object and the hub's own table agree about who is subscribed.\<close>

definition session_ok :: "hub \<Rightarrow> js_string \<Rightarrow> session_fanout \<Rightarrow> bool" where
  "session_ok h sid s \<longleftrightarrow>
     map_ok (fan_subs s) \<and> fan_subs s \<noteq> [] \<and> fan_object s < next_object h \<and>
     map_size (fan_subs s) \<le> max_per_session h \<and>
     (\<forall>i r. map_get (fan_subs s) i = Some r \<longrightarrow> map_get (hub_subscribers h) i = Some r \<and> sub_session r = sid)"

definition subscriber_ok :: "hub \<Rightarrow> js_string \<Rightarrow> subscriber \<Rightarrow> bool" where
  "subscriber_ok h i r \<longleftrightarrow>
     sub_id r = i \<and>
     (\<exists>s. map_get (hub_sessions h) (sub_session r) = Some s \<and> map_get (fan_subs s) i = Some r)"

definition stopped :: "hub \<Rightarrow> bool" where
  "stopped h \<longleftrightarrow> hub_closed h \<or> hub_failure h \<noteq> None"

definition hub_ok :: "hub \<Rightarrow> bool" where
  "hub_ok h \<longleftrightarrow>
     map_ok (hub_subscribers h) \<and> map_ok (hub_sessions h) \<and>
     (\<forall>i r. map_get (hub_subscribers h) i = Some r \<longrightarrow> subscriber_ok h i r) \<and>
     (\<forall>sid s. map_get (hub_sessions h) sid = Some s \<longrightarrow> session_ok h sid s) \<and>
     map_size (hub_subscribers h) \<le> max_subscribers h \<and>
     (stopped h \<longrightarrow> hub_subscribers h = [] \<and> hub_sessions h = []) \<and>
     (\<forall>t. abortsOf t (hub_log h) + count_list (liveTokens h) t = (if t < next_token h then 1 else 0)) \<and>
     (\<forall>t. received t (hub_log h) \<noteq> [] \<longrightarrow> t < next_token h)"

lemma hub_ok_clear:
  assumes "hub_ok h"
  shows "hub_ok (clearSubscribers reason (h\<lparr>hub_closed := c, hub_failure := f\<rparr>))"
  using assms by (simp add: hub_ok_def clearSubscribers_def liveTokens_def stopped_def)

lemma hub_ok_clear_only: "hub_ok h \<Longrightarrow> hub_ok (clearSubscribers reason h)"
  by (simp add: hub_ok_def clearSubscribers_def liveTokens_def stopped_def)

lemma hub_ok_fail: "hub_ok h \<Longrightarrow> hub_ok (snd (fail e sid c n h))"
  using hub_ok_clear [where c = "hub_closed h" and reason = Stopped_by_failure, of h]
    hub_ok_clear_only [of h Stopped_by_failure]
  by (simp add: fail_def fatalFailureCode_def)

lemma hub_ok_close: "hub_ok h \<Longrightarrow> hub_ok (snd (close_hub h))"
  using hub_ok_clear [where c = True and f = "hub_failure h" and reason = Closed_by_hub, of h]
  by (simp add: close_hub_def clearSubscribers_def)

lemma hub_ok_publishing: "hub_ok h \<Longrightarrow> hub_ok (h\<lparr>hub_publishing := b\<rparr>)"
  by (simp add: hub_ok_def stopped_def liveTokens_def subscriber_ok_def session_ok_def)

lemma hub_ok_unsubscribe:
  assumes ok: "hub_ok h"
  shows "hub_ok (snd (unsubscribe i token h))"
proof (cases "map_get (hub_subscribers h) i")
  case None
  with ok show ?thesis by (simp add: unsubscribe_def)
next
  case (Some r0)
  show ?thesis
  proof (cases "sub_token r0 = token")
    case True
    from ok Some obtain s where s: "map_get (hub_sessions h) (sub_session r0) = Some s"
      "map_get (fan_subs s) i = Some r0" by (auto simp: hub_ok_def subscriber_ok_def)
    define h' where "h' = snd (unsubscribe i token h)"
    let ?s' = "s\<lparr>fan_subs := map_delete (fan_subs s) i\<rparr>"
    have h': "h' = h\<lparr>hub_subscribers := map_delete (hub_subscribers h) i,
        hub_sessions := (if fan_subs ?s' = [] then map_delete (hub_sessions h) (sub_session r0)
           else map_set (hub_sessions h) (sub_session r0) ?s'),
        hub_log := hub_log h @ [Aborted token Closed_by_subscriber]\<rparr>"
      using Some True s by (simp add: h'_def unsubscribe_def Let_def)
    have sess: "map_get (hub_sessions h') sid =
        (if sid = sub_session r0 then (if fan_subs ?s' = [] then None else Some ?s')
         else map_get (hub_sessions h) sid)" for sid
      by (simp add: h' map_laws)
    have subs: "map_get (hub_subscribers h') j = (if j = i then None else map_get (hub_subscribers h) j)" for j
      by (simp add: h' map_laws)
    have old: "session_ok h sid s0" if "map_get (hub_sessions h) sid = Some s0" for sid s0
      using ok that by (simp add: hub_ok_def)
    have "session_ok h' sid s0" if "map_get (hub_sessions h') sid = Some s0" for sid s0
    proof (cases "sid = sub_session r0")
      case same: True
      with that sess [of sid] have s0: "s0 = ?s'" "fan_subs ?s' \<noteq> []" by (auto split: if_splits)
      from old [OF s(1)] have "map_ok (fan_subs s)" "map_size (fan_subs s) \<le> max_per_session h"
        by (simp_all add: session_ok_def)
      then have "map_size (map_delete (fan_subs s) i) \<le> max_per_session h" by (auto simp: map_laws)
      with s0 old [OF s(1)] same show ?thesis by (auto simp: session_ok_def h' map_laws split: if_splits)
    next
      case False
      with that sess [of sid] have s0: "map_get (hub_sessions h) sid = Some s0" by simp
      then have so: "session_ok h sid s0" by (rule old)
      have "j \<noteq> i" if "map_get (fan_subs s0) j = Some r" for j r
        using so that Some False by (auto simp: session_ok_def)
      with so show ?thesis by (auto simp: session_ok_def h' map_laws)
    qed
    moreover have "subscriber_ok h' j r" if "map_get (hub_subscribers h') j = Some r" for j r
    proof -
      from that subs [of j] have j: "j \<noteq> i" "map_get (hub_subscribers h) j = Some r" by (auto split: if_splits)
      with ok obtain s0 where s0: "sub_id r = j" "map_get (hub_sessions h) (sub_session r) = Some s0"
        "map_get (fan_subs s0) j = Some r" by (auto simp: hub_ok_def subscriber_ok_def)
      show ?thesis
      proof (cases "sub_session r = sub_session r0")
        case True
        with s0 s j have "map_get (fan_subs ?s') j = Some r" by (simp add: map_laws)
        moreover from this have "fan_subs ?s' \<noteq> []" by auto
        ultimately show ?thesis using True s0(1) sess [of "sub_session r"] by (simp add: subscriber_ok_def)
      next
        case False
        with s0 sess [of "sub_session r"] show ?thesis by (simp add: subscriber_ok_def)
      qed
    qed
    moreover have "abortsOf t (hub_log h') + count_list (liveTokens h') t = (if t < next_token h' then 1 else 0)" for t
    proof -
      from ok have "map_ok (hub_subscribers h)" by (simp add: hub_ok_def)
      then obtain xs ys where xy: "hub_subscribers h = xs @ (i, r0) # ys"
        "map_delete (hub_subscribers h) i = xs @ ys" using Some by (rule map_delete_split)
      have "abortsOf t (hub_log h) + count_list (liveTokens h) t = (if t < next_token h then 1 else 0)"
        using ok by (simp add: hub_ok_def)
      with True xy show ?thesis by (auto simp: h' liveTokens_def split: if_splits)
    qed
    moreover have "map_size (hub_subscribers h') \<le> max_subscribers h'"
      using ok by (auto simp: hub_ok_def h' map_laws)
    moreover have "\<not> stopped h'" using ok Some by (auto simp: hub_ok_def h' stopped_def)
    ultimately show ?thesis
      using ok unfolding h'_def [symmetric] by (simp add: hub_ok_def) (simp add: h' map_laws)
  qed (use ok Some in \<open>simp add: unsubscribe_def\<close>)
qed

lemma parseSubscription_Inr:
  "parseSubscription input = Inr (i, sid) \<Longrightarrow> input = Subscription i True sid \<and> subscriberIdPattern i \<and> sessionIdPattern sid"
  by (auto simp: parseSubscription_def brandedStringSchema_iff parseSessionId_Inr
      split: subscription_input.splits option.splits if_splits)

text \<open>Either a call to \<open>subscribe\<close> fails and changes nothing, or it adds one record.\<close>

lemma subscribe_cases:
  obtains (refused) e where "subscribe input h = (Inl e, h)"
  | (added) i sid s where "\<not> stopped h" "parseSubscription input = Inr (i, sid)"
      "map_get (hub_subscribers h) i = None" "map_size (hub_subscribers h) < max_subscribers h"
      "(map_get (hub_sessions h) sid = None \<and> s = \<lparr>fan_object = next_object h, fan_last = None, fan_subs = []\<rparr> \<and>
         0 < max_per_session h) \<or>
       (map_get (hub_sessions h) sid = Some s \<and> map_size (fan_subs s) < max_per_session h)"
      "subscribe input h = (Inr (\<lparr>sub_id = i, sub_session = sid, sub_token = next_token h\<rparr>, fan_last s),
         h\<lparr>hub_sessions := map_set (hub_sessions h) sid
              (s\<lparr>fan_subs := map_set (fan_subs s) i \<lparr>sub_id = i, sub_session = sid, sub_token = next_token h\<rparr>\<rparr>),
           hub_subscribers := map_set (hub_subscribers h) i \<lparr>sub_id = i, sub_session = sid, sub_token = next_token h\<rparr>,
           next_token := next_token h + 1,
           next_object := (if map_get (hub_sessions h) sid = None then next_object h + 1 else next_object h)\<rparr>)"
proof (cases "\<exists>e. subscribe input h = (Inl e, h)")
  case False
  obtain i sid where p: "parseSubscription input = Inr (i, sid)" and av: "\<not> stopped h"
    and free: "map_get (hub_subscribers h) i = None" "map_size (hub_subscribers h) < max_subscribers h"
    using False
    by (cases "parseSubscription input")
      (auto simp: subscribe_def assertAvailable_def stopped_def Let_def split: if_splits)
  show thesis
  proof (cases "map_get (hub_sessions h) sid")
    case None
    with False p av free show thesis
      by (intro added [of i sid "\<lparr>fan_object = next_object h, fan_last = None, fan_subs = []\<rparr>"])
        (auto simp: subscribe_def assertAvailable_def stopped_def Let_def split: if_splits)
  next
    case (Some s)
    with False p av free show thesis
      by (intro added [of i sid s])
        (auto simp: subscribe_def assertAvailable_def stopped_def Let_def split: if_splits)
  qed
qed (use refused in blast)

lemma hub_ok_subscribe:
  assumes ok: "hub_ok h"
  shows "hub_ok (snd (subscribe input h))"
proof (cases rule: subscribe_cases [of input h])
  case (refused e)
  with ok show ?thesis by simp
next
  case (added i sid s)
  let ?r = "\<lparr>sub_id = i, sub_session = sid, sub_token = next_token h\<rparr>"
  let ?s' = "s\<lparr>fan_subs := map_set (fan_subs s) i ?r\<rparr>"
  define h' where "h' = snd (subscribe input h)"
  have h': "h' = h\<lparr>hub_sessions := map_set (hub_sessions h) sid ?s',
      hub_subscribers := map_set (hub_subscribers h) i ?r, next_token := next_token h + 1,
      next_object := (if map_get (hub_sessions h) sid = None then next_object h + 1 else next_object h)\<rparr>"
    by (simp add: h'_def added(6))
  have old: "session_ok h a b" if "map_get (hub_sessions h) a = Some b" for a b
    using ok that by (simp add: hub_ok_def)
  have absent: "map_get (fan_subs s) i = None"
    using added(3,5) old [of sid s] by (cases "map_get (fan_subs s) i") (auto simp: session_ok_def)
  have "session_ok h' a b" if "map_get (hub_sessions h') a = Some b" for a b
  proof (cases "a = sid")
    case True
    with that have b: "b = ?s'" by (simp add: h' map_laws)
    have "map_set (fan_subs s) i ?r \<noteq> []" using absent by (simp add: map_set_absent)
    with added(5) old [of sid s] absent show ?thesis
      unfolding True b by (auto simp: session_ok_def h' map_laws map_ok_set [OF map_ok_Nil, simplified])
  next
    case False
    with that have "map_get (hub_sessions h) a = Some b" by (simp add: h' map_laws)
    from old [OF this] added(3) show ?thesis by (auto simp: session_ok_def h' map_laws)
  qed
  moreover have "subscriber_ok h' j r" if "map_get (hub_subscribers h') j = Some r" for j r
  proof (cases "j = i")
    case True
    with that show ?thesis by (auto simp: subscriber_ok_def h' map_laws)
  next
    case False
    with that have "map_get (hub_subscribers h) j = Some r" by (simp add: h' map_laws)
    with ok have "subscriber_ok h j r" by (simp add: hub_ok_def)
    with False added(5) show ?thesis by (auto simp: subscriber_ok_def h' map_laws)
  qed
  moreover have "abortsOf t (hub_log h') + count_list (liveTokens h') t = (if t < next_token h' then 1 else 0)" for t
  proof -
    have "abortsOf t (hub_log h) + count_list (liveTokens h) t = (if t < next_token h then 1 else 0)"
      using ok by (simp add: hub_ok_def)
    with added(3) show ?thesis by (auto simp: h' liveTokens_def map_set_absent split: if_splits)
  qed
  ultimately show ?thesis
    using ok added(1,3,4) unfolding h'_def [symmetric] by (simp add: hub_ok_def) (auto simp: h' map_laws stopped_def)
qed

lemma live_token:
  assumes ok: "hub_ok h" and r: "map_get (hub_subscribers h) i = Some r"
  shows "sub_token r < next_token h"
proof -
  have "(i, r) \<in> set (hub_subscribers h)" using ok r by (simp add: hub_ok_def map_get_set_mem)
  then have "sub_token r \<in> set (liveTokens h)" by (force simp: liveTokens_def)
  then have "count_list (liveTokens h) (sub_token r) \<noteq> 0" by (simp add: count_list_0_iff)
  moreover have "abortsOf (sub_token r) (hub_log h) + count_list (liveTokens h) (sub_token r) =
      (if sub_token r < next_token h then 1 else 0)" using ok by (simp add: hub_ok_def)
  ultimately show ?thesis by (simp split: if_splits)
qed

lemma hub_ok_deliver_one:
  assumes "hub_ok h" "map_get (hub_subscribers h) (sub_id r) = Some r"
  shows "hub_ok (h\<lparr>hub_log := hub_log h @ [Delivered (sub_token r) c]\<rparr>)"
  using assms live_token [OF assms]
  by (simp add: hub_ok_def liveTokens_def stopped_def subscriber_ok_def session_ok_def)

lemma publishEntry_snd: "snd (publishEntry h) = h \<or> snd (publishEntry h) = snd (fail Publication_reentrant None None 0 h)"
  by (simp add: publishEntry_def split: sum.splits prod.splits)

lemma hub_ok_entry: "hub_ok h \<Longrightarrow> hub_ok (snd (publishEntry h))"
  using publishEntry_snd [of h] hub_ok_fail [of h] by auto

lemma hub_ok_nested: "hub_ok h \<Longrightarrow> hub_ok (nestedCall call h)"
  by (cases call) (simp_all add: hub_ok_subscribe hub_ok_unsubscribe hub_ok_close hub_ok_entry)

lemma hub_ok_nesteds: "hub_ok h \<Longrightarrow> hub_ok (fold nestedCall calls h)"
  by (induction calls arbitrary: h) (simp_all add: hub_ok_nested)

lemma hub_ok_deliver: "hub_ok h \<Longrightarrow> hub_ok (snd (deliver callbacks c snapshot failed h))"
proof (induction callbacks c snapshot failed h rule: deliver.induct)
  case (2 callbacks c r snapshot failed h)
  show ?case
  proof (cases "map_get (hub_subscribers h) (sub_id r) = Some r")
    case True
    from hub_ok_nesteds [OF hub_ok_deliver_one [OF 2(3) True, of c]] 2(2) True show ?thesis
      by (auto simp: Let_def)
  qed (use 2 in simp)
qed simp

lemma hub_ok_cursor:
  assumes ok: "hub_ok h" and s: "map_get (hub_sessions h) sid = Some s"
  shows "hub_ok (h\<lparr>hub_sessions := map_set (hub_sessions h) sid (s\<lparr>fan_last := c\<rparr>)\<rparr>)" (is "hub_ok ?h")
proof -
  have "session_ok ?h a b" if "map_get (hub_sessions ?h) a = Some b" for a b
  proof -
    have "session_ok h sid s" using ok s by (simp add: hub_ok_def)
    moreover have "session_ok h a b" if "map_get (hub_sessions h) a = Some b" using ok that by (simp add: hub_ok_def)
    ultimately show ?thesis using that by (auto simp: session_ok_def map_laws split: if_splits)
  qed
  moreover have "subscriber_ok ?h i r" if "map_get (hub_subscribers ?h) i = Some r" for i r
    using ok that s by (fastforce simp: hub_ok_def subscriber_ok_def map_laws)
  ultimately show ?thesis
    using ok s by (auto simp: hub_ok_def stopped_def liveTokens_def map_laws)
qed

lemma hub_ok_fail_eq: "fail e sid c n h = (e', h') \<Longrightarrow> hub_ok h \<Longrightarrow> hub_ok h'"
  using hub_ok_fail [of h e sid c n] by simp

lemma hub_ok_deliverAll: "hub_ok h \<Longrightarrow> hub_ok (snd (deliverAll callbacks event session h))"
  using hub_ok_deliver [of h callbacks "event_cursor event" "map snd (fan_subs session)" 0]
  by (auto simp: deliverAll_def hub_ok_cursor split: prod.splits sum.splits option.splits
      dest: hub_ok_fail_eq)

text \<open>How a publication can end: refused at the door, stopped by a failure, ignored, or delivered.\<close>

lemma publish_cases:
  obtains (entry) e where "publish callbacks candidate h = (Inl e, snd (publishEntry h))"
  | (failed) code sid c where "\<not> stopped h" "\<not> hub_publishing h"
      "publish callbacks candidate h = (Inl (fst (fail code sid c 0 h)), snd (fail code sid c 0 h))"
      "code \<in> {Invalid_publication, Publication_duplicate, Publication_backward, Publication_gap}"
  | (ignored) event where "\<not> stopped h" "\<not> hub_publishing h" "parseCommittedPublication candidate = Inr event"
      "map_get (hub_sessions h) (event_session event) = None" "publish callbacks candidate h = (Inr (), h)"
  | (delivered) event session where "\<not> stopped h" "\<not> hub_publishing h"
      "parseCommittedPublication candidate = Inr event"
      "map_get (hub_sessions h) (event_session event) = Some session"
      "\<And>l. fan_last session = Some l \<Longrightarrow> event_cursor event = l + 1"
      "publish callbacks candidate h =
         (fst (deliverAll callbacks event session (h\<lparr>hub_publishing := True\<rparr>)),
          (snd (deliverAll callbacks event session (h\<lparr>hub_publishing := True\<rparr>)))\<lparr>hub_publishing := False\<rparr>)"
proof (cases "stopped h \<or> hub_publishing h")
  case True
  have "fst (publishEntry h) \<noteq> Inr ()"
    using True by (auto simp: publishEntry_def assertAvailable_def stopped_def split: prod.splits)
  then obtain e h1 where "publishEntry h = (Inl e, h1)"
    by (cases "publishEntry h"; cases "fst (publishEntry h)") auto
  then show thesis by (intro entry [of e]) (simp add: publish_def)
next
  case False
  then have enter: "publishEntry h = (Inr (), h)"
    by (simp add: publishEntry_def assertAvailable_def stopped_def)
  show thesis
  proof (cases "parseCommittedPublication candidate")
    case (Inl code)
    then have "code = Invalid_publication"
      by (auto simp: parseCommittedPublication_def split: if_splits option.splits)
    with Inl False enter show thesis
      by (intro failed [of code None None]) (auto simp: publish_def split: prod.splits)
  next
    case (Inr event)
    show thesis
    proof (cases "map_get (hub_sessions h) (event_session event)")
      case None
      with Inr False enter show thesis by (intro ignored [of event]) (auto simp: publish_def)
    next
      case (Some session)
      show thesis
      proof (cases "\<forall>l. fan_last session = Some l \<longrightarrow> event_cursor event = l + 1")
        case True
        then have "(case fan_last session of
                             None \<Rightarrow> None
                           | Some l \<Rightarrow>
                               if event_cursor event = l then Some Publication_duplicate
                               else if event_cursor event < l then Some Publication_backward
                               else if event_cursor event \<noteq> l + 1 then Some Publication_gap
                               else None) = (None :: fanout_error option)"
          by (auto split: option.splits)
        with True Inr Some False enter show thesis
          by (intro delivered [of event session]) (simp_all add: publish_def split: prod.splits)
      next
        case gap: False
        then obtain l where l: "fan_last session = Some l" "event_cursor event \<noteq> l + 1" by blast
        define code where "code = (if event_cursor event = l then Publication_duplicate
            else if event_cursor event < l then Publication_backward else Publication_gap)"
        have "publish callbacks candidate h =
            (let r = fail code (Some (event_session event)) (Some (event_cursor event)) 0 h in (Inl (fst r), snd r))"
          using l Inr Some enter by (simp add: publish_def code_def Let_def split: prod.splits)
        with False show thesis
          by (intro failed [of code "Some (event_session event)" "Some (event_cursor event)"])
            (auto simp: code_def Let_def)
      qed
    qed
  qed
qed

lemma hub_ok_publish: "hub_ok h \<Longrightarrow> hub_ok (snd (publish callbacks candidate h))"
  by (cases rule: publish_cases [of callbacks candidate h])
    (simp_all add: hub_ok_entry hub_ok_fail hub_ok_deliverAll hub_ok_publishing)

section \<open>Runs\<close>

datatype hub_call =
  Subscribe subscription_input | Unsubscribe js_string nat | Close_hub
| Publish "subscriber \<Rightarrow> callback" publication

fun hubStep :: "hub_call \<Rightarrow> hub \<Rightarrow> hub" where
  "hubStep (Subscribe input) h = snd (subscribe input h)"
| "hubStep (Unsubscribe i token) h = snd (unsubscribe i token h)"
| "hubStep Close_hub h = snd (close_hub h)"
| "hubStep (Publish callbacks candidate) h = snd (publish callbacks candidate h)"

lemma hub_ok_step: "hub_ok h \<Longrightarrow> hub_ok (hubStep call h)"
  by (cases call) (simp_all add: hub_ok_subscribe hub_ok_unsubscribe hub_ok_close hub_ok_publish)

section \<open>The order of deliveries\<close>

definition consecutive :: "nat list \<Rightarrow> bool" where
  "consecutive xs \<longleftrightarrow> (\<exists>a. xs = [a..<a + length xs])"

lemma consecutive_Nil [simp]: "consecutive []"
  by (simp add: consecutive_def)

lemma consecutive_single [simp]: "consecutive [a]"
  by (simp add: consecutive_def exI [of _ a])

lemma consecutive_snoc:
  assumes "consecutive xs" "xs \<noteq> [] \<Longrightarrow> c = last xs + 1"
  shows "consecutive (xs @ [c])"
proof (cases "xs = []")
  case False
  from assms(1) obtain a where a: "xs = [a..<a + length xs]" by (auto simp: consecutive_def)
  with False have "last xs = a + length xs - 1" by (metis last_upt length_greater_0_conv less_add_same_cancel1)
  with assms(2) False have "c = a + length xs" by (cases xs) auto
  then have "xs @ [c] = [a..<a + length (xs @ [c])]" using a by (metis add_Suc_right le_add1 length_append_singleton upt_Suc_append)
  then show ?thesis by (auto simp: consecutive_def)
qed simp

text \<open>What a nested call leaves alone: subscribers that stay, their sessions, and what was received.\<close>

definition frame :: "hub \<Rightarrow> hub \<Rightarrow> bool" where
  "frame h h' \<longleftrightarrow>
     next_token h \<le> next_token h' \<and> (\<forall>t. received t (hub_log h') = received t (hub_log h)) \<and>
     (\<forall>i r s'. map_get (hub_subscribers h') i = Some r \<and> map_get (hub_sessions h') (sub_session r) = Some s' \<longrightarrow>
        next_token h \<le> sub_token r \<or>
        map_get (hub_subscribers h) i = Some r \<and>
        (\<exists>s. map_get (hub_sessions h) (sub_session r) = Some s \<and> fan_object s = fan_object s' \<and>
             fan_last s = fan_last s'))"

lemma frame_refl [simp]: "frame h h"
  by (auto simp: frame_def)

lemma frame_trans:
  assumes 1: "frame h h1" and 2: "frame h1 h2"
  shows "frame h h2"
  unfolding frame_def
proof (intro conjI allI impI)
  show "next_token h \<le> next_token h2" using 1 2 by (simp add: frame_def)
  show "received t (hub_log h2) = received t (hub_log h)" for t using 1 2 by (simp add: frame_def)
  fix i r s2
  assume r: "map_get (hub_subscribers h2) i = Some r \<and> map_get (hub_sessions h2) (sub_session r) = Some s2"
  then consider "next_token h1 \<le> sub_token r" | s1 where "map_get (hub_subscribers h1) i = Some r"
    "map_get (hub_sessions h1) (sub_session r) = Some s1" "fan_object s1 = fan_object s2" "fan_last s1 = fan_last s2"
    using 2 unfolding frame_def by blast
  then show "next_token h \<le> sub_token r \<or> map_get (hub_subscribers h) i = Some r \<and>
      (\<exists>s. map_get (hub_sessions h) (sub_session r) = Some s \<and> fan_object s = fan_object s2 \<and>
           fan_last s = fan_last s2)"
  proof cases
    case 1
    then show ?thesis using \<open>frame h h1\<close> by (simp add: frame_def)
  next
    case (2 s1)
    then show ?thesis using 1 unfolding frame_def by metis
  qed
qed

lemma frame_empty:
  "hub_subscribers h' = [] \<Longrightarrow> next_token h' = next_token h \<Longrightarrow>
     (\<And>t. received t (hub_log h') = received t (hub_log h)) \<Longrightarrow> frame h h'"
  by (simp add: frame_def)

lemma frame_fail: "frame h (snd (fail Publication_reentrant sid c n h))"
  by (intro frame_empty) (simp_all add: fail_def fatalFailureCode_def clearSubscribers_def)

lemma frame_close: "frame h (snd (close_hub h))"
  by (cases "hub_closed h") (auto intro: frame_empty simp: close_hub_def clearSubscribers_def)

lemma live_session:
  assumes "hub_ok h" "map_get (hub_subscribers h) i = Some r"
  obtains s where "map_get (hub_sessions h) (sub_session r) = Some s" "map_get (fan_subs s) i = Some r" "sub_id r = i"
  using assms unfolding hub_ok_def subscriber_ok_def by blast

lemma frame_subscribe:
  assumes "hub_ok h"
  shows "frame h (snd (subscribe input h))"
proof (cases rule: subscribe_cases [of input h])
  case (added i sid s)
  have "map_get (hub_sessions h) (sub_session r) \<noteq> None" if "map_get (hub_subscribers h) j = Some r" for j r
    using live_session [OF assms that] by auto
  with added show ?thesis by (fastforce simp: frame_def map_laws split: if_splits)
qed simp

lemma frame_unsubscribe:
  assumes "hub_ok h"
  shows "frame h (snd (unsubscribe i token h))"
proof (cases "map_get (hub_subscribers h) i")
  case None
  then show ?thesis by (simp add: unsubscribe_def)
next
  case (Some r0)
  with assms obtain s where "map_get (hub_sessions h) (sub_session r0) = Some s" by (rule live_session)
  with Some show ?thesis
    by (auto simp: frame_def unsubscribe_def Let_def map_laws split: if_splits)
qed

interpretation nested: machine nestedCall hub_ok frame
proof unfold_locales
  show "hub_ok h \<Longrightarrow> frame h (nestedCall call h)" for h call
    using publishEntry_snd [of h] frame_fail [of h None None 0]
    by (cases call) (auto simp: frame_subscribe frame_unsubscribe frame_close)
qed (auto intro: hub_ok_nested frame_trans)

text \<open>
  \<open>pre t\<close> is what subscriber \<open>t\<close> knew before its first delivery: nothing, or the high-water
  cursor it was told.
\<close>

definition seen :: "(nat \<Rightarrow> nat list) \<Rightarrow> hub \<Rightarrow> nat \<Rightarrow> nat list" where
  "seen pre h t = pre t @ received t (hub_log h)"

definition seq_ok :: "(nat \<Rightarrow> nat list) \<Rightarrow> hub \<Rightarrow> bool" where
  "seq_ok pre h \<longleftrightarrow>
     (\<forall>t. consecutive (seen pre h t)) \<and> (\<forall>t \<ge> next_token h. pre t = []) \<and>
     (\<forall>i r s. map_get (hub_subscribers h) i = Some r \<and> map_get (hub_sessions h) (sub_session r) = Some s \<and>
        seen pre h (sub_token r) \<noteq> [] \<longrightarrow> fan_last s = Some (last (seen pre h (sub_token r))))"

text \<open>The same while a cursor is being delivered to the rest of the snapshot of a session object.\<close>

definition delivering ::
    "(nat \<Rightarrow> nat list) \<Rightarrow> nat \<Rightarrow> nat option \<Rightarrow> js_string \<Rightarrow> nat \<Rightarrow> subscriber list \<Rightarrow> hub \<Rightarrow> bool" where
  "delivering pre c lastc sid obj rest h \<longleftrightarrow>
     (\<forall>t. consecutive (seen pre h t)) \<and> (\<forall>t \<ge> next_token h. pre t = []) \<and>
     (\<forall>r \<in> set rest. sub_token r < next_token h) \<and>
     (\<forall>i r s. map_get (hub_subscribers h) i = Some r \<and> map_get (hub_sessions h) (sub_session r) = Some s \<longrightarrow>
        (r \<in> set rest \<longrightarrow> sub_session r = sid \<and> fan_object s = obj) \<and>
        (seen pre h (sub_token r) \<noteq> [] \<longrightarrow>
           (if sub_session r = sid \<and> fan_object s = obj
            then (if r \<in> set rest then lastc = Some (last (seen pre h (sub_token r)))
                  else last (seen pre h (sub_token r)) = c)
            else fan_last s = Some (last (seen pre h (sub_token r))))))"

lemma seen_frame: "frame h h' \<Longrightarrow> seen pre h' t = seen pre h t"
  by (simp add: frame_def seen_def)

lemma delivering_frame:
  assumes ok: "hub_ok h" and fr: "frame h h'" and d: "delivering pre c lastc sid obj rest h"
  shows "delivering pre c lastc sid obj rest h'"
proof -
  have new: "seen pre h t = []" if "next_token h \<le> t" for t
    using ok d that by (auto simp: hub_ok_def delivering_def seen_def)
  show ?thesis
    unfolding delivering_def
  proof (intro conjI allI impI ballI)
    show "consecutive (seen pre h' t)" for t using d by (simp add: seen_frame [OF fr] delivering_def)
    show "pre t = []" if "next_token h' \<le> t" for t
      using fr d that by (auto simp: frame_def delivering_def)
    show "sub_token r < next_token h'" if "r \<in> set rest" for r
      using fr d that by (auto simp: frame_def delivering_def)
  next
    fix i r s'
    assume r: "map_get (hub_subscribers h') i = Some r \<and> map_get (hub_sessions h') (sub_session r) = Some s'"
    consider "next_token h \<le> sub_token r" | s where "map_get (hub_subscribers h) i = Some r"
      "map_get (hub_sessions h) (sub_session r) = Some s" "fan_object s = fan_object s'" "fan_last s = fan_last s'"
      using fr r unfolding frame_def by blast
    then have "(r \<in> set rest \<longrightarrow> sub_session r = sid \<and> fan_object s' = obj) \<and>
        (seen pre h (sub_token r) \<noteq> [] \<longrightarrow>
           (if sub_session r = sid \<and> fan_object s' = obj
            then (if r \<in> set rest then lastc = Some (last (seen pre h (sub_token r)))
                  else last (seen pre h (sub_token r)) = c)
            else fan_last s' = Some (last (seen pre h (sub_token r)))))"
    proof cases
      case 1
      with d have "r \<notin> set rest" by (auto simp: delivering_def)
      with new [OF 1] show ?thesis by simp
    next
      case (2 s)
      with d show ?thesis unfolding delivering_def by metis
    qed
    then show "r \<in> set rest \<Longrightarrow> sub_session r = sid" "r \<in> set rest \<Longrightarrow> fan_object s' = obj"
      "seen pre h' (sub_token r) \<noteq> [] \<Longrightarrow>
         (if sub_session r = sid \<and> fan_object s' = obj
          then (if r \<in> set rest then lastc = Some (last (seen pre h' (sub_token r)))
                else last (seen pre h' (sub_token r)) = c)
          else fan_last s' = Some (last (seen pre h' (sub_token r))))"
      by (simp_all add: seen_frame [OF fr])
  qed
qed

lemma live_token_unique:
  assumes ok: "hub_ok h" and "map_get (hub_subscribers h) i = Some r" "map_get (hub_subscribers h) j = Some r'"
    and "sub_token r = sub_token r'"
  shows "r = r'"
proof (rule ccontr)
  assume "r \<noteq> r'"
  have mem: "(i, r) \<in> set (hub_subscribers h)" "(j, r') \<in> set (hub_subscribers h)"
    using assms by (simp_all add: hub_ok_def map_get_set_mem)
  then obtain xs ys where xy: "hub_subscribers h = xs @ (i, r) # ys" by (meson split_list)
  with mem(2) \<open>r \<noteq> r'\<close> have "(j, r') \<in> set (xs @ ys)" by auto
  then have "sub_token r' \<in> set (map (\<lambda>p. sub_token (snd p)) (xs @ ys))" by force
  then have "0 < count_list (map (\<lambda>p. sub_token (snd p)) (xs @ ys)) (sub_token r')"
    by (metis count_list_0_iff gr0I)
  then have "0 < count_list (map (\<lambda>p. sub_token (snd p)) xs) (sub_token r') +
      count_list (map (\<lambda>p. sub_token (snd p)) ys) (sub_token r')"
    by (simp only: map_append count_list_append)
  moreover have "count_list (liveTokens h) (sub_token r') =
      count_list (map (\<lambda>p. sub_token (snd p)) xs) (sub_token r') +
      count_list (map (\<lambda>p. sub_token (snd p)) ys) (sub_token r') + 1"
    using xy assms(4) by (simp add: liveTokens_def)
  moreover have "abortsOf (sub_token r') (hub_log h) + count_list (liveTokens h) (sub_token r') \<le> 1"
    using ok by (simp add: hub_ok_def)
  ultimately show False by linarith
qed

lemma delivering_one:
  assumes ok: "hub_ok h" and d: "delivering pre c lastc sid obj (r # rest) h"
    and act: "map_get (hub_subscribers h) (sub_id r) = Some r" and fresh: "r \<notin> set rest"
    and next_c: "\<And>l. lastc = Some l \<Longrightarrow> c = l + 1"
  shows "delivering pre c lastc sid obj rest (h\<lparr>hub_log := hub_log h @ [Delivered (sub_token r) c]\<rparr>)"
    (is "delivering _ _ _ _ _ _ ?h")
proof -
  have seen: "seen pre ?h t = (if t = sub_token r then seen pre h t @ [c] else seen pre h t)" for t
    by (simp add: seen_def)
  obtain s where s: "map_get (hub_sessions h) (sub_session r) = Some s"
    using live_session [OF ok act] by blast
  with act d have last: "seen pre h (sub_token r) \<noteq> [] \<Longrightarrow> lastc = Some (last (seen pre h (sub_token r)))"
    "sub_session r = sid" "fan_object s = obj"
    unfolding delivering_def by (metis list.set_intros(1))+
  show ?thesis
    unfolding delivering_def
  proof (intro conjI allI impI ballI)
    have "consecutive (seen pre h t)" for t using d by (simp add: delivering_def)
    then show "consecutive (seen pre ?h t)" for t
      using last(1) next_c by (auto simp: seen intro!: consecutive_snoc)
    show "pre t = []" if "next_token ?h \<le> t" for t using d that by (simp add: delivering_def)
    show "sub_token q < next_token ?h" if "q \<in> set rest" for q using d that by (simp add: delivering_def)
  next
    fix i q s'
    assume "map_get (hub_subscribers ?h) i = Some q \<and> map_get (hub_sessions ?h) (sub_session q) = Some s'"
    then have q: "map_get (hub_subscribers h) i = Some q" "map_get (hub_sessions h) (sub_session q) = Some s'" by simp_all
    then have old: "(q \<in> set (r # rest) \<longrightarrow> sub_session q = sid \<and> fan_object s' = obj) \<and>
        (seen pre h (sub_token q) \<noteq> [] \<longrightarrow>
           (if sub_session q = sid \<and> fan_object s' = obj
            then (if q \<in> set (r # rest) then lastc = Some (last (seen pre h (sub_token q)))
                  else last (seen pre h (sub_token q)) = c)
            else fan_last s' = Some (last (seen pre h (sub_token q)))))"
      using d unfolding delivering_def by metis
    show "q \<in> set rest \<Longrightarrow> sub_session q = sid" "q \<in> set rest \<Longrightarrow> fan_object s' = obj" using old by auto
    show "if sub_session q = sid \<and> fan_object s' = obj
          then (if q \<in> set rest then lastc = Some (last (seen pre ?h (sub_token q)))
                else last (seen pre ?h (sub_token q)) = c)
          else fan_last s' = Some (last (seen pre ?h (sub_token q)))"
      if "seen pre ?h (sub_token q) \<noteq> []"
    proof (cases "sub_token q = sub_token r")
      case True
      with live_token_unique [OF ok q(1) act] have "q = r" by simp
      with s q(2) last fresh show ?thesis by (simp add: seen)
    next
      case False
      then have "q \<noteq> r" by auto
      with False old that show ?thesis by (auto simp: seen)
    qed
  qed
qed

lemma delivering_skip:
  assumes "delivering pre c lastc sid obj (r # rest) h" "map_get (hub_subscribers h) (sub_id r) \<noteq> Some r"
    and "hub_ok h"
  shows "delivering pre c lastc sid obj rest h"
proof -
  have mem: "q \<in> set (r # rest) \<longleftrightarrow> q \<in> set rest" if "map_get (hub_subscribers h) i = Some q" for i q
    using assms(2) live_session [OF assms(3) that] that by auto
  show ?thesis
    unfolding delivering_def
  proof (intro conjI allI impI ballI)
    fix i q s
    assume q: "map_get (hub_subscribers h) i = Some q \<and> map_get (hub_sessions h) (sub_session q) = Some s"
    then have "map_get (hub_subscribers h) i = Some q" by simp
    note m = mem [OF this]
    have "(q \<in> set (r # rest) \<longrightarrow> sub_session q = sid \<and> fan_object s = obj) \<and>
        (seen pre h (sub_token q) \<noteq> [] \<longrightarrow>
           (if sub_session q = sid \<and> fan_object s = obj
            then (if q \<in> set (r # rest) then lastc = Some (last (seen pre h (sub_token q)))
                  else last (seen pre h (sub_token q)) = c)
            else fan_last s = Some (last (seen pre h (sub_token q)))))"
      using assms(1) q unfolding delivering_def by metis
    then show "q \<in> set rest \<Longrightarrow> sub_session q = sid" "q \<in> set rest \<Longrightarrow> fan_object s = obj"
      "seen pre h (sub_token q) \<noteq> [] \<Longrightarrow>
         (if sub_session q = sid \<and> fan_object s = obj
          then (if q \<in> set rest then lastc = Some (last (seen pre h (sub_token q)))
                else last (seen pre h (sub_token q)) = c)
          else fan_last s = Some (last (seen pre h (sub_token q))))"
      unfolding m by blast+
  qed (use assms(1) in \<open>simp_all add: delivering_def\<close>)
qed

lemma deliver_delivering:
  assumes "hub_ok h" "delivering pre c lastc sid obj snapshot h" "distinct snapshot"
    and "\<And>l. lastc = Some l \<Longrightarrow> c = l + 1"
  shows "case deliver callbacks c snapshot failed h of
      (Inl e, h') \<Rightarrow> stopped h' \<and> (\<forall>t. consecutive (seen pre h' t)) \<and> (\<forall>t \<ge> next_token h'. pre t = [])
    | (Inr n, h') \<Rightarrow> delivering pre c lastc sid obj [] h'"
  using assms
proof (induction callbacks c snapshot failed h rule: deliver.induct)
  case (2 callbacks c r snapshot failed h)
  show ?case
  proof (cases "map_get (hub_subscribers h) (sub_id r) = Some r")
    case True
    define h1 where "h1 = h\<lparr>hub_log := hub_log h @ [Delivered (sub_token r) c]\<rparr>"
    define h2 where "h2 = fold nestedCall (fst (callbacks r)) h1"
    have d1: "delivering pre c lastc sid obj snapshot h1"
      unfolding h1_def using 2(3-6) True by (intro delivering_one) auto
    have ok1: "hub_ok h1" unfolding h1_def by (rule hub_ok_deliver_one [OF 2(3) True])
    have ok2: "hub_ok h2" and "frame h1 h2"
      unfolding h2_def using nested.run_ok [OF ok1] nested.run_later [OF ok1] by (simp_all add: runSteps_def)
    then have d2: "delivering pre c lastc sid obj snapshot h2" by (intro delivering_frame [OF ok1 _ d1])
    have step: "deliver callbacks c (r # snapshot) failed h =
        (if hub_failure h2 \<noteq> None then (Inl Fanout_stopped, h2)
         else if hub_closed h2 then (Inl Fanout_closed, h2)
         else deliver callbacks c snapshot (if snd (callbacks r) = Accepts then failed else failed + 1) h2)"
      using True by (simp add: h1_def h2_def Let_def)
    show ?thesis
    proof (cases "stopped h2")
      case True
      with d2 show ?thesis unfolding step by (auto simp: stopped_def delivering_def)
    next
      case False
      then have run: "\<not> hub_failure h2 \<noteq> None" "\<not> hub_closed h2" by (auto simp: stopped_def)
      have "distinct snapshot" using 2(5) by simp
      with 2(2) [OF _ refl refl refl, folded h1_def, folded h2_def, OF _ run ok2 d2 _ 2(6)] \<open>map_get _ _ = _\<close> run
      show ?thesis unfolding step by simp
    qed
  next
    case False
    with 2(1) [OF False 2(3) delivering_skip [OF 2(4) False 2(3)]] 2(5,6) show ?thesis by simp
  qed
qed simp

lemma seq_ok_frame:
  assumes ok: "hub_ok h" and fr: "frame h h'" and q: "seq_ok pre h"
  shows "seq_ok pre h'"
proof -
  have new: "seen pre h t = []" if "next_token h \<le> t" for t
    using ok q that by (auto simp: hub_ok_def seq_ok_def seen_def)
  have "fan_last s' = Some (last (seen pre h (sub_token r)))"
    if "map_get (hub_subscribers h') i = Some r" "map_get (hub_sessions h') (sub_session r) = Some s'"
      "seen pre h (sub_token r) \<noteq> []" for i r s'
  proof -
    from fr that(1,2) consider "next_token h \<le> sub_token r" | s where "map_get (hub_subscribers h) i = Some r"
      "map_get (hub_sessions h) (sub_session r) = Some s" "fan_last s = fan_last s'"
      unfolding frame_def by blast
    then show ?thesis
    proof cases
      case 1
      with new that(3) show ?thesis by simp
    next
      case (2 s)
      with q that(3) show ?thesis unfolding seq_ok_def by metis
    qed
  qed
  then show ?thesis
    using q fr by (auto simp: seq_ok_def seen_frame [OF fr] frame_def)
qed

lemma seq_ok_clear: "seq_ok pre h \<Longrightarrow> seq_ok pre (snd (fail e sid c n h))"
  by (auto simp: seq_ok_def fail_def clearSubscribers_def seen_def split: option.splits)

lemma seq_ok_deliverAll:
  assumes ok: "hub_ok h" and q: "seq_ok pre h" and s: "map_get (hub_sessions h) (event_session event) = Some session"
    and next_c: "\<And>l. fan_last session = Some l \<Longrightarrow> event_cursor event = l + 1"
  shows "seq_ok pre (snd (deliverAll callbacks event session h))"
proof -
  let ?c = "event_cursor event" and ?sid = "event_session event" and ?rest = "map snd (fan_subs session)"
  have so: "session_ok h ?sid session" using ok s by (simp add: hub_ok_def)
  have mem: "r \<in> set ?rest \<longleftrightarrow> map_get (fan_subs session) (sub_id r) = Some r" for r
  proof -
    have "r \<in> set ?rest \<longleftrightarrow> (\<exists>i. map_get (fan_subs session) i = Some r)"
      using so by (force simp: session_ok_def map_get_set_mem [symmetric])
    moreover have "sub_id r = i" if "map_get (fan_subs session) i = Some r" for i
      using so that live_session [OF ok] by (metis session_ok_def)
    ultimately show ?thesis by blast
  qed
  have "distinct ?rest"
  proof -
    have "map fst (fan_subs session) = map sub_id ?rest"
    proof (simp, intro ballI)
      fix p
      assume "p \<in> set (fan_subs session)"
      with so have "map_get (fan_subs session) (fst p) = Some (snd p)"
        by (simp add: session_ok_def map_get_set_mem [symmetric])
      with so live_session [OF ok] show "fst p = sub_id (snd p)" by (metis session_ok_def)
    qed
    with so have "distinct (map sub_id ?rest)" by (simp add: session_ok_def map_ok_def)
    then show ?thesis by (rule distinct_map [THEN iffD1, THEN conjunct1])
  qed
  moreover have "delivering pre ?c (fan_last session) ?sid (fan_object session) ?rest h"
    unfolding delivering_def
  proof (intro conjI allI impI ballI)
    show "sub_token r < next_token h" if "r \<in> set ?rest" for r
    proof -
      from that mem so have act: "map_get (hub_subscribers h) (sub_id r) = Some r" by (metis session_ok_def)
      from live_token [OF ok act] show ?thesis .
    qed
  next
    fix i r s'
    assume r: "map_get (hub_subscribers h) i = Some r \<and> map_get (hub_sessions h) (sub_session r) = Some s'"
    show "r \<in> set ?rest \<Longrightarrow> sub_session r = ?sid" using mem so by (metis session_ok_def)
    then show "r \<in> set ?rest \<Longrightarrow> fan_object s' = fan_object session" using r s by auto
    show "if sub_session r = ?sid \<and> fan_object s' = fan_object session
          then (if r \<in> set ?rest then fan_last session = Some (last (seen pre h (sub_token r)))
                else last (seen pre h (sub_token r)) = ?c)
          else fan_last s' = Some (last (seen pre h (sub_token r)))"
      if "seen pre h (sub_token r) \<noteq> []"
    proof -
      from q r that have "fan_last s' = Some (last (seen pre h (sub_token r)))" unfolding seq_ok_def by metis
      moreover have "r \<in> set ?rest \<and> s' = session" if "sub_session r = ?sid"
        using r s that live_session [OF ok] mem by (metis option.inject)
      ultimately show ?thesis by auto
    qed
  qed (use q in \<open>simp_all add: seq_ok_def\<close>)
  ultimately have del: "case deliver callbacks ?c ?rest 0 h of
      (Inl e, h') \<Rightarrow> stopped h' \<and> (\<forall>t. consecutive (seen pre h' t)) \<and> (\<forall>t \<ge> next_token h'. pre t = [])
    | (Inr n, h') \<Rightarrow> delivering pre ?c (fan_last session) ?sid (fan_object session) [] h'"
    by (intro deliver_delivering [OF ok] next_c)
  obtain result h' where run: "deliver callbacks ?c ?rest 0 h = (result, h')" by fastforce
  have ok': "hub_ok h'" using hub_ok_deliver [OF ok, of callbacks ?c ?rest 0] run by simp
  show ?thesis
  proof (cases result)
    case (Inl e)
    with del run have "stopped h'" "\<forall>t. consecutive (seen pre h' t)" "\<forall>t \<ge> next_token h'. pre t = []" by simp_all
    with ok' have "seq_ok pre h'" by (simp add: seq_ok_def hub_ok_def)
    with Inl run show ?thesis by (simp add: deliverAll_def)
  next
    case (Inr n)
    with del run have d: "delivering pre ?c (fan_last session) ?sid (fan_object session) [] h'" by simp
    show ?thesis
    proof (cases "n > 0")
      case True
      have "consecutive (seen pre h' t)" "next_token h' \<le> t \<Longrightarrow> pre t = []" for t
        using d by (simp_all add: delivering_def)
      with True Inr run show ?thesis
        by (auto simp: deliverAll_def fail_def fatalFailureCode_def clearSubscribers_def seq_ok_def seen_def
            split: prod.splits)
    next
      case False
      define h2 where "h2 = snd (deliverAll callbacks event session h)"
      have h2: "h2 = (case map_get (hub_sessions h') ?sid of None \<Rightarrow> h'
          | Some s' \<Rightarrow> if fan_object s' = fan_object session
              then h'\<lparr>hub_sessions := map_set (hub_sessions h') ?sid (s'\<lparr>fan_last := Some ?c\<rparr>)\<rparr> else h')"
        using False Inr run by (simp add: h2_def deliverAll_def split: option.splits)
      have "fan_last s2 = Some (last (seen pre h' (sub_token r)))"
        if "map_get (hub_subscribers h') i = Some r" "map_get (hub_sessions h2) (sub_session r) = Some s2"
          "seen pre h' (sub_token r) \<noteq> []" for i r s2
      proof -
        from ok' that(1) obtain s1 where s1: "map_get (hub_sessions h') (sub_session r) = Some s1"
          by (rule live_session)
        with d that(1,3) have "if sub_session r = ?sid \<and> fan_object s1 = fan_object session
            then last (seen pre h' (sub_token r)) = ?c
            else fan_last s1 = Some (last (seen pre h' (sub_token r)))"
          unfolding delivering_def by (metis list.set(1) empty_iff)
        with s1 that(2) show ?thesis
          by (auto simp: h2 map_laws split: option.splits if_splits)
      qed
      moreover have "hub_subscribers h2 = hub_subscribers h'" "next_token h2 = next_token h'" "seen pre h2 t = seen pre h' t" for t
        by (simp_all add: h2 seen_def split: option.splits)
      ultimately show ?thesis
        using d unfolding h2_def [symmetric] by (auto simp: seq_ok_def delivering_def)
    qed
  qed
qed

lemma seq_ok_flag: "seq_ok pre (h\<lparr>hub_publishing := b\<rparr>) = seq_ok pre h"
  by (simp add: seq_ok_def seen_def)

lemma seq_ok_step: "hub_ok h \<Longrightarrow> seq_ok pre h \<Longrightarrow> seq_ok pre (hubStep call h)"
proof (cases call)
  case (Publish callbacks candidate)
  assume ok: "hub_ok h" and q: "seq_ok pre h"
  show ?thesis
  proof (cases rule: publish_cases [of callbacks candidate h])
    case (entry e)
    with Publish q publishEntry_snd [of h] seq_ok_clear [OF q] show ?thesis by auto
  next
    case (failed code sid c)
    with Publish seq_ok_clear [OF q] show ?thesis by simp
  next
    case (delivered event session)
    have "seq_ok pre (snd (deliverAll callbacks event session (h\<lparr>hub_publishing := True\<rparr>)))"
      by (intro seq_ok_deliverAll hub_ok_publishing ok delivered(5))
        (use q delivered(4) in \<open>simp_all add: seq_ok_flag\<close>)
    with Publish delivered(6) show ?thesis by (simp add: seq_ok_flag)
  qed (use Publish q in simp)
qed (auto intro: seq_ok_frame frame_subscribe frame_unsubscribe frame_close)

section \<open>The hub as a machine that latches\<close>

definition hub_later :: "hub \<Rightarrow> hub \<Rightarrow> bool" where
  "hub_later h h' \<longleftrightarrow>
     (hub_closed h \<longrightarrow> hub_closed h') \<and> (hub_failure h \<noteq> None \<longrightarrow> hub_failure h' = hub_failure h) \<and>
     max_subscribers h' = max_subscribers h \<and> max_per_session h' = max_per_session h \<and>
     next_token h \<le> next_token h'"

lemma hub_later_refl [simp]: "hub_later h h"
  by (simp add: hub_later_def)

lemma hub_later_trans: "hub_later h h1 \<Longrightarrow> hub_later h1 h2 \<Longrightarrow> hub_later h h2"
  by (auto simp: hub_later_def)

lemma hub_later_fail: "hub_later h (snd (fail e sid c n h))"
  by (auto simp: hub_later_def fail_def clearSubscribers_def split: option.splits)

lemma hub_later_close: "hub_later h (snd (close_hub h))"
  by (simp add: hub_later_def close_hub_def clearSubscribers_def)

lemma hub_later_subscribe: "hub_later h (snd (subscribe input h))"
  by (cases rule: subscribe_cases [of input h]) (simp_all add: hub_later_def)

lemma hub_later_unsubscribe: "hub_later h (snd (unsubscribe i token h))"
  by (auto simp: hub_later_def unsubscribe_def Let_def split: option.splits)

lemma hub_later_entry: "hub_later h (snd (publishEntry h))"
  using publishEntry_snd [of h] hub_later_fail by auto

lemma hub_later_nested: "hub_later h (fold nestedCall calls h)"
proof (induction calls arbitrary: h)
  case (Cons call calls)
  have "hub_later h (nestedCall call h)"
    by (cases call) (simp_all add: hub_later_subscribe hub_later_unsubscribe hub_later_close hub_later_entry)
  with Cons show ?case by (auto intro: hub_later_trans)
qed simp

lemma hub_later_deliver: "hub_later h (snd (deliver callbacks c snapshot failed h))"
proof (induction snapshot arbitrary: failed h)
  case (Cons r snapshot)
  define h1 where "h1 = h\<lparr>hub_log := hub_log h @ [Delivered (sub_token r) c]\<rparr>"
  define h2 where "h2 = fold nestedCall (fst (callbacks r)) h1"
  have "hub_later h h1" by (simp add: h1_def hub_later_def)
  then have later: "hub_later h h2" unfolding h2_def by (rule hub_later_trans) (rule hub_later_nested)
  then have "hub_later h (snd (deliver callbacks c snapshot n h2))" for n
    by (rule hub_later_trans) (rule Cons.IH)
  with later Cons.IH [of h failed] show ?case
    by (simp add: Let_def flip: h1_def h2_def)
qed simp

lemma hub_later_deliverAll: "hub_later h (snd (deliverAll callbacks event session h))"
  using hub_later_deliver [of h callbacks "event_cursor event" "map snd (fan_subs session)" 0]
  by (auto simp: deliverAll_def split: prod.splits sum.splits option.splits
      elim!: hub_later_trans)
    (auto simp: hub_later_def fail_def fatalFailureCode_def clearSubscribers_def split: if_splits)

lemma hub_later_step: "hub_later h (hubStep call h)"
proof (cases call)
  case (Publish callbacks candidate)
  show ?thesis
  proof (cases rule: publish_cases [of callbacks candidate h])
    case (delivered event session)
    with Publish hub_later_deliverAll [of "h\<lparr>hub_publishing := True\<rparr>" callbacks event session]
    show ?thesis by (simp add: hub_later_def)
  qed (use Publish hub_later_entry hub_later_fail in simp_all)
qed (simp_all add: hub_later_subscribe hub_later_unsubscribe hub_later_close)

lemma stopped_step:
  assumes "hub_ok h" "stopped h"
  shows "stopped (hubStep call h) \<and> hub_log (hubStep call h) = hub_log h"
proof (cases call)
  case (Subscribe input)
  have "subscribe input h = (Inl e, h) \<Longrightarrow> ?thesis" for e using assms Subscribe by simp
  moreover have "\<exists>e. subscribe input h = (Inl e, h)"
    using assms(2) by (auto simp: subscribe_def assertAvailable_def stopped_def)
  ultimately show ?thesis by blast
next
  case (Publish callbacks candidate)
  then show ?thesis
    using assms(2) by (auto simp: publish_def publishEntry_def assertAvailable_def stopped_def)
qed (use assms in \<open>auto simp: hub_ok_def unsubscribe_def close_hub_def clearSubscribers_def stopped_def\<close>)

interpretation hub: latched_machine hubStep hub_ok hub_later stopped hub_log
  by unfold_locales (auto intro: hub_ok_step hub_later_step hub_later_trans dest: stopped_step)

lemma hub_created:
  assumes "createProjectionFanoutHub plain maxSubs maxPer = Inr h"
  shows "hub_ok h \<and> seq_ok (\<lambda>t. []) h \<and> 1 \<le> max_per_session h \<and> max_per_session h \<le> max_subscribers h \<and>
    max_per_session h \<le> 32 \<and> max_subscribers h \<le> 512 \<and> \<not> stopped h"
proof -
  have limit: "parseLimit c def = Inr n \<Longrightarrow> minimum_limit def \<le> n \<and> n \<le> maximum_limit def" for c def n
    by (auto simp: parseLimit_def Let_def isSafeInteger_iff split: option.splits js_number.splits if_splits)
  from assms obtain g s where "parseOptions plain maxSubs maxPer = Inr (g, s)"
    and h: "h = \<lparr>hub_sessions = [], hub_subscribers = [], hub_failure = None, hub_closed = False,
               hub_publishing = False, max_subscribers = nat g, max_per_session = nat s,
               next_token = 0, next_object = 0, hub_log = []\<rparr>"
    by (auto simp: createProjectionFanoutHub_def split: sum.splits)
  then have "1 \<le> g \<and> g \<le> 512" "1 \<le> s \<and> s \<le> 32" "s \<le> g"
    by (auto simp: parseOptions_def globalSubscriberDefinition_def sessionSubscriberDefinition_def
        split: if_splits sum.splits dest: limit)
  with h show ?thesis
    by (auto simp: hub_ok_def seq_ok_def seen_def stopped_def liveTokens_def)
qed

section \<open>Properties\<close>

text \<open>The hub with the default limits, a subscription to it and an accepted publication.\<close>

definition exampleHub :: hub where
  "exampleHub = \<lparr>hub_sessions = [], hub_subscribers = [], hub_failure = None, hub_closed = False,
     hub_publishing = False, max_subscribers = 32, max_per_session = 4, next_token = 0,
     next_object = 0, hub_log = []\<rparr>"

definition exampleSession :: js_string where
  "exampleSession = js ''sess_abcdef''"

definition exampleInput :: subscription_input where
  "exampleInput = Subscription (js ''a'') True exampleSession"

definition examplePublication :: "nat \<Rightarrow> publication" where
  "examplePublication c =
     \<lparr>deeply_frozen = True, exact_fields = True,
      pub_event = Some \<lparr>event_session = exampleSession, event_cursor = c, event_byte_length = 40, measured_length = 40\<rparr>,
      pub_projection = Some \<lparr>projection_session = exampleSession, projection_last_cursor = Some c,
        projection_retained = 1, projection_earliest = Some c, projection_updated_at = js ''t''\<rparr>,
      pub_revision = Some \<lparr>revision_last_cursor = c, revision_mapping_updated_at = js ''t'',
        revision_projection_updated_at = js ''t''\<rparr>\<rparr>"

lemma exampleHub_simps [simp]:
  "hub_closed exampleHub = False" "hub_failure exampleHub = None" "hub_log exampleHub = []"
  "hub_subscribers exampleHub = []" "hub_sessions exampleHub = []" "next_token exampleHub = 0"
  "next_object exampleHub = 0" "max_subscribers exampleHub = 32" "max_per_session exampleHub = 4"
  "hub_publishing exampleHub = False"
  by (simp_all add: exampleHub_def)

lemma exampleHub_created: "createProjectionFanoutHub True None None = Inr exampleHub"
  by (simp add: createProjectionFanoutHub_def parseOptions_def parseLimit_def isSafeInteger_def maxSafeInteger_def
      globalSubscriberDefinition_def sessionSubscriberDefinition_def exampleHub_def Let_def)

lemma exampleInput_parsed: "parseSubscription exampleInput = Inr (js ''a'', exampleSession)"
proof -
  have "sessionIdPattern exampleSession" "subscriberIdPattern (js ''a'')"
    by (simp_all add: exampleSession_def sessionIdPattern_def startsWith_def js_def idTail_def char_class_defs
        subscriberIdPattern_def subscriberIdChar_def)
  then show ?thesis
    by (simp add: exampleInput_def parseSubscription_def brandedStringSchema_def parseSessionId_Inr [THEN iffD2])
qed

lemma example_subscribed:
  "subscribe exampleInput exampleHub =
     (Inr (\<lparr>sub_id = js ''a'', sub_session = exampleSession, sub_token = 0\<rparr>, None),
      exampleHub\<lparr>hub_sessions := [(exampleSession, \<lparr>fan_object = 0, fan_last = None,
           fan_subs = [(js ''a'', \<lparr>sub_id = js ''a'', sub_session = exampleSession, sub_token = 0\<rparr>)]\<rparr>)],
        hub_subscribers := [(js ''a'', \<lparr>sub_id = js ''a'', sub_session = exampleSession, sub_token = 0\<rparr>)],
        next_token := 1, next_object := 1\<rparr>)"
  by (simp add: subscribe_def assertAvailable_def exampleInput_parsed Let_def)

text \<open>C24: whatever calls a hub gets, and whatever its subscribers' callbacks do to it, its two
  tables agree: a record is in the hub's table exactly when it is in its session's. The numbers of
  subscribers stay within the configured limits, themselves within the resource policy, no session
  is kept without a subscriber, and a closed or failed hub holds none.\<close>

theorem hub_registry_consistent:
  assumes "createProjectionFanoutHub plain maxSubs maxPer = Inr h0" and "h = runSteps hubStep calls h0"
  shows "(map_get (hub_subscribers h) i = Some r \<longleftrightarrow>
            (\<exists>s. map_get (hub_sessions h) (sub_session r) = Some s \<and> map_get (fan_subs s) i = Some r)) \<and>
    map_size (hub_subscribers h) \<le> max_subscribers h0 \<and> max_subscribers h0 \<le> 512 \<and>
    (\<forall>sid s. map_get (hub_sessions h) sid = Some s \<longrightarrow>
       1 \<le> map_size (fan_subs s) \<and> map_size (fan_subs s) \<le> max_per_session h0 \<and> max_per_session h0 \<le> 32) \<and>
    (stopped h \<longrightarrow> hub_subscribers h = [] \<and> hub_sessions h = [])"
proof -
  note created = hub_created [OF assms(1)]
  have ok: "hub_ok h" and later: "hub_later h0 h"
    unfolding assms(2) using hub.run_ok [of h0] hub.run_later [of h0] created by blast+
  have "map_get (hub_subscribers h) i = Some r \<longleftrightarrow>
            (\<exists>s. map_get (hub_sessions h) (sub_session r) = Some s \<and> map_get (fan_subs s) i = Some r)"
    using ok unfolding hub_ok_def subscriber_ok_def session_ok_def by metis
  moreover have "1 \<le> map_size (fan_subs s) \<and> map_size (fan_subs s) \<le> max_per_session h0"
    if "map_get (hub_sessions h) sid = Some s" for sid s
  proof -
    from ok that have "session_ok h sid s" by (simp add: hub_ok_def)
    then show ?thesis using later
      by (auto simp: session_ok_def hub_later_def map_size_def Suc_le_eq)
  qed
  ultimately show ?thesis
    using ok later created by (auto simp: hub_ok_def hub_later_def)
qed

theorem hub_registry_consistent_witness:
  "map_size (hub_subscribers (runSteps hubStep [Subscribe exampleInput, Close_hub] exampleHub)) \<le> 32"
  using hub_registry_consistent [OF exampleHub_created refl, THEN conjunct2, THEN conjunct1]
  by (simp only: exampleHub_simps)

text \<open>C25: every subscription a hub ever gave out is either still registered, its signal not
  aborted, or its signal has been aborted exactly once. No subscription is dropped silently.\<close>

theorem hub_signals_every_removal:
  assumes "createProjectionFanoutHub plain maxSubs maxPer = Inr h0" and "h = runSteps hubStep calls h0"
    and "token < next_token h"
  shows "abortsOf token (hub_log h) =
    (if \<exists>i r. map_get (hub_subscribers h) i = Some r \<and> sub_token r = token then 0 else 1)"
proof -
  have ok: "hub_ok h"
    unfolding assms(2) using hub.run_ok [of h0] hub_created [OF assms(1)] by blast
  have mo: "map_ok (hub_subscribers h)" using ok by (simp add: hub_ok_def)
  have "token \<in> set (liveTokens h) \<longleftrightarrow> (\<exists>i r. map_get (hub_subscribers h) i = Some r \<and> sub_token r = token)"
    unfolding map_get_set_mem [OF mo, symmetric] liveTokens_def by force
  moreover have "abortsOf token (hub_log h) + count_list (liveTokens h) token = 1"
    using ok assms(3) by (simp add: hub_ok_def)
  ultimately show ?thesis
    using count_list_0_iff [of "liveTokens h" token] by (cases "count_list (liveTokens h) token") auto
qed

theorem hub_signals_every_removal_witness:
  "abortsOf 0 (hub_log (runSteps hubStep [Subscribe exampleInput, Close_hub] exampleHub)) = 1"
proof -
  have "hub_subscribers (runSteps hubStep [Subscribe exampleInput, Close_hub] exampleHub) = []"
    "0 < next_token (runSteps hubStep [Subscribe exampleInput, Close_hub] exampleHub)"
    by (simp_all add: example_subscribed close_hub_def clearSubscribers_def)
  with hub_signals_every_removal [OF exampleHub_created refl, of 0 "[Subscribe exampleInput, Close_hub]"]
  show ?thesis by (auto simp del: runSteps_simps)
qed



text \<open>C27: a failed or closed hub is finished. Every later \<open>subscribe\<close> and \<open>publish\<close> is refused
  with the same two errors, no call delivers or aborts anything any more, and the recorded
  failure never changes.\<close>

theorem hub_stops_for_good:
  assumes "createProjectionFanoutHub plain maxSubs maxPer = Inr h0" and "h = runSteps hubStep calls h0"
    and "stopped h" and "h' = runSteps hubStep calls' h"
  shows "fst (subscribe input h') \<in> {Inl Fanout_closed, Inl Fanout_stopped} \<and>
    fst (publish callbacks candidate h') \<in> {Inl Fanout_closed, Inl Fanout_stopped} \<and>
    hub_log h' = hub_log h \<and> (hub_failure h \<noteq> None \<longrightarrow> hub_failure h' = hub_failure h)"
proof -
  have ok: "hub_ok h"
    unfolding assms(2) using hub.run_ok [of h0] hub_created [OF assms(1)] by blast
  from hub.terminal_run [OF ok assms(3), of calls'] hub.run_later [OF ok, of calls']
  have "stopped h'" "hub_log h' = hub_log h" "hub_failure h \<noteq> None \<longrightarrow> hub_failure h' = hub_failure h"
    unfolding assms(4) by (simp_all add: hub_later_def)
  then show ?thesis
    by (auto simp: subscribe_def publish_def publishEntry_def assertAvailable_def stopped_def)
qed

theorem hub_stops_for_good_witness:
  "fst (subscribe exampleInput (runSteps hubStep [Close_hub] exampleHub)) \<in> {Inl Fanout_closed, Inl Fanout_stopped}"
proof -
  have "stopped (runSteps hubStep [Close_hub] exampleHub)"
    by (simp add: close_hub_def clearSubscribers_def stopped_def)
  from hub_stops_for_good [OF exampleHub_created refl this refl, of exampleInput "[]"]
  show ?thesis by (simp del: runSteps_simps add: runSteps_simps(1))
qed

lemma deliver_quiet:
  assumes "\<And>r. fst (callbacks r) = []" "\<not> stopped h"
    and "\<forall>r \<in> set rs. map_get (hub_subscribers h) (sub_id r) = Some r"
  shows "deliver callbacks c rs n h =
    (Inr (n + length (filter (\<lambda>r. snd (callbacks r) \<noteq> Accepts) rs)),
     h\<lparr>hub_log := hub_log h @ map (\<lambda>r. Delivered (sub_token r) c) rs\<rparr>)"
  using assms
proof (induction rs arbitrary: n h)
  case (Cons r rs)
  have "\<not> stopped (h\<lparr>hub_log := l\<rparr>)" for l using Cons.prems(2) by (simp add: stopped_def)
  with Cons show ?case by (simp add: Let_def stopped_def)
qed simp

text \<open>C26: publishing the next committed event of a session whose callbacks do not call back into
  the hub hands it to every subscriber of the session, once and in the order they subscribed,
  whatever the others answer. If all accept, the session's cursor advances and nothing else
  changes; if any does not, the hub stops with the exact count of refusals, every subscription
  is aborted and the publisher is told.\<close>

theorem publish_reaches_every_subscriber:
  assumes "createProjectionFanoutHub plain maxSubs maxPer = Inr h0" and "h = runSteps hubStep calls h0"
    and "\<not> stopped h" "\<not> hub_publishing h" and "parseCommittedPublication candidate = Inr event"
    and "map_get (hub_sessions h) (event_session event) = Some session"
    and "fan_last session = None \<or> fan_last session = Some (event_cursor event - 1)"
    and "\<And>r. fst (callbacks r) = []"
    and "refused = length (filter (\<lambda>r. snd (callbacks r) \<noteq> Accepts) (map snd (fan_subs session)))"
    and "handed = map (\<lambda>r. Delivered (sub_token r) (event_cursor event)) (map snd (fan_subs session))"
  shows "publish callbacks candidate h =
    (if refused = 0
     then (Inr (), h\<lparr>hub_log := hub_log h @ handed,
             hub_sessions := map_set (hub_sessions h) (event_session event)
               (session\<lparr>fan_last := Some (event_cursor event)\<rparr>)\<rparr>)
     else (Inl Subscriber_delivery_failed,
           h\<lparr>hub_log := hub_log h @ handed @ map (\<lambda>p. Aborted (sub_token (snd p)) Stopped_by_failure) (hub_subscribers h),
             hub_sessions := [], hub_subscribers := [],
             hub_failure := Some \<lparr>failure_code = Subscriber_delivery_failed,
               failure_cursor = Some (event_cursor event), failure_subscribers = refused,
               failure_session = Some (event_session event)\<rparr>\<rparr>))"
proof -
  have ok: "hub_ok h"
    unfolding assms(2) using hub.run_ok [of h0] hub_created [OF assms(1)] by blast
  from ok assms(6) have so: "session_ok h (event_session event) session" by (simp add: hub_ok_def)
  have "event_cursor event \<ge> 1"
    using assms(5) by (auto simp: parseCommittedPublication_def split: option.splits if_splits)
  with assms(7) have next_c: "(case fan_last session of
                             None \<Rightarrow> None
                           | Some l \<Rightarrow>
                               if event_cursor event = l then Some Publication_duplicate
                               else if event_cursor event < l then Some Publication_backward
                               else if event_cursor event \<noteq> l + 1 then Some Publication_gap
                               else None) = (None :: fanout_error option)"
    by (auto split: option.splits)
  have act: "\<forall>r \<in> set (map snd (fan_subs session)). map_get (hub_subscribers h) (sub_id r) = Some r"
  proof
    fix r
    assume "r \<in> set (map snd (fan_subs session))"
    then obtain i where "map_get (fan_subs session) i = Some r"
      using so by (auto simp: session_ok_def map_get_set_mem [symmetric])
    with so have "map_get (hub_subscribers h) i = Some r" by (auto simp: session_ok_def)
    with live_session [OF ok this] show "map_get (hub_subscribers h) (sub_id r) = Some r" by auto
  qed
  have "\<not> stopped (h\<lparr>hub_publishing := True\<rparr>)" using assms(3) by (simp add: stopped_def)
  from deliver_quiet [where callbacks = callbacks, OF assms(8) this, where rs = "map snd (fan_subs session)" and n = 0] act
  have "deliver callbacks (event_cursor event) (map snd (fan_subs session)) 0 (h\<lparr>hub_publishing := True\<rparr>) =
      (Inr refused, h\<lparr>hub_publishing := True, hub_log := hub_log h @ handed\<rparr>)"
    by (simp add: assms(9,10))
  moreover have "publishEntry h = (Inr (), h)" "hub_failure h = None"
    using assms(3,4) by (simp_all add: publishEntry_def assertAvailable_def stopped_def)
  ultimately show ?thesis
    using assms(4,5,6) next_c
    by (simp add: publish_def deliverAll_def Let_def fail_def fatalFailureCode_def clearSubscribers_def)
qed

theorem publish_reaches_every_subscriber_witness:
  "fst (publish (\<lambda>r. ([], Accepts)) (examplePublication 5) (snd (subscribe exampleInput exampleHub))) = Inr ()"
proof -
  let ?session = "\<lparr>fan_object = 0, fan_last = None,
           fan_subs = [(js ''a'', \<lparr>sub_id = js ''a'', sub_session = exampleSession, sub_token = 0\<rparr>)]\<rparr>"
  let ?event = "\<lparr>event_session = exampleSession, event_cursor = 5, event_byte_length = 40, measured_length = 40\<rparr>"
  have "fst (publish (\<lambda>r. ([], Accepts)) (examplePublication 5) (runSteps hubStep [Subscribe exampleInput] exampleHub)) = Inr ()"
    by (subst publish_reaches_every_subscriber [OF exampleHub_created refl, where event = ?event and session = ?session])
      (simp_all add: example_subscribed stopped_def examplePublication_def parseCommittedPublication_def)
  then show ?thesis by simp
qed

text \<open>
  A callback that subscribes while its session's event is being handed out observes the cursor
  before that event and is not given the event itself: its first delivery is the one after.
\<close>

definition resubscribing :: "subscriber \<Rightarrow> callback" where
  "resubscribing r = ([Nested_subscribe (Subscription (js ''b'') True exampleSession)], Accepts)"

theorem subscribing_inside_delivery_skips_an_event:
  "let h = runSteps hubStep [Subscribe exampleInput, Publish (\<lambda>r. ([], Accepts)) (examplePublication 5),
       Publish resubscribing (examplePublication 6), Publish (\<lambda>r. ([], Accepts)) (examplePublication 7)] exampleHub
   in hub_failure h = None \<and> received 0 (hub_log h) = [5, 6, 7] \<and> received 1 (hub_log h) = [7]"
proof -
  have "parseSubscription (Subscription (js ''b'') True exampleSession) = Inr (js ''b'', exampleSession)"
    using exampleInput_parsed
    by (auto simp: exampleInput_def parseSubscription_def subscriberIdPattern_def subscriberIdChar_def js_def
        char_class_defs split: option.splits if_splits)
  with exampleInput_parsed show ?thesis
    by (simp add: publish_def publishEntry_def assertAvailable_def examplePublication_def
        parseCommittedPublication_def deliverAll_def subscribe_def Let_def map_size_def resubscribing_def)
qed

end
