(* ===== verification/Cli_Parser.thy ===== *)
theory Cli_Parser
  imports List_Cursors
begin

text \<open>
  \<open>packages/cli/src/parser.ts\<close>: the whole command-line parser. \<open>scanArgs\<close> is the global loop
  (configuration options, help and version, \<open>--json\<close>, the terminator \<open>--\<close>), \<open>dispatch\<close> the
  chain of commands, and each command's option loop is a function on the tokens that are left,
  with a record for the loop's variables. A throw is \<open>Inl\<close> of the \<open>CliFailure\<close> that
  \<open>usageFailure\<close> builds. An option with a separate value takes two tokens, as the source's
  \<open>index += 1\<close> does. The elements of \<open>argv\<close> are strings, so the source's tests
  \<open>token === undefined\<close> inside a loop never hold and have no counterpart.
\<close>

section \<open>Failures\<close>

datatype cli_failure_kind = Usage_failure | Invalid_config | Daemon_unavailable | Api_error | Internal_failure

record cli_failure =
  failure_kind :: cli_failure_kind
  failure_code :: js_string
  failure_message :: js_string
  failure_exitCode :: nat
  failure_field :: "js_string option"
  failure_retryable :: bool

definition exitUsage :: nat where
  "exitUsage = 64"

definition usageFailure :: "js_string \<Rightarrow> js_string \<Rightarrow> cli_failure" where
  "usageFailure message field =
     \<lparr> failure_kind = Usage_failure, failure_code = js ''malformed_request'', failure_message = message,
       failure_exitCode = exitUsage, failure_field = Some field, failure_retryable = False \<rparr>"

text \<open>The default of the second parameter.\<close>

definition usageArgs :: "js_string \<Rightarrow> cli_failure" where
  "usageArgs message = usageFailure message (js ''args'')"

text \<open>The message templates that occur more than once.\<close>

definition onlyOnce :: "js_string \<Rightarrow> js_string \<Rightarrow> cli_failure" where
  "onlyOnce command option =
     usageArgs (js ''The '' @ command @ js '' command accepts '' @ option @ js '' only once.'')"

definition unknownOption :: "js_string \<Rightarrow> js_string \<Rightarrow> cli_failure" where
  "unknownOption command token = usageArgs (js ''Unknown '' @ command @ js '' option: '' @ token)"

definition unexpectedArgument :: "js_string \<Rightarrow> js_string \<Rightarrow> cli_failure" where
  "unexpectedArgument command token = usageArgs (js ''Unexpected '' @ command @ js '' argument: '' @ token)"

definition noPositionals :: "js_string \<Rightarrow> cli_failure" where
  "noPositionals command =
     usageArgs (js ''The '' @ command @ js '' command does not accept positional arguments.'')"

definition oneManagedSession :: "js_string \<Rightarrow> cli_failure" where
  "oneManagedSession command =
     usageArgs (js ''The '' @ command @ js '' command requires one managed session id.'')"

section \<open>Option values\<close>

text \<open>\<open>rest\<close> are the tokens after the option, so its head is \<open>args[index + 1]\<close>.\<close>

definition readOptionValue :: "js_string list \<Rightarrow> js_string \<Rightarrow> cli_failure + js_string" where
  "readOptionValue rest optionName =
     (case rest of
        [] \<Rightarrow> Inl (usageFailure (optionName @ js '' requires a value.'') optionName)
      | v # _ \<Rightarrow>
          if startsWith v (js ''--'') then Inl (usageFailure (optionName @ js '' requires a value.'') optionName)
          else Inr v)"

definition readInlineOptionValue :: "js_string \<Rightarrow> js_string \<Rightarrow> cli_failure + js_string" where
  "readInlineOptionValue token optionName =
     (let v = drop (length optionName + 1) token in
      if length v = 0 then Inl (usageFailure (optionName @ js '' requires a value.'') optionName)
      else Inr v)"

definition isFlag :: "js_string \<Rightarrow> bool" where
  "isFlag token = startsWith token (js ''-'')"

definition isInline :: "js_string \<Rightarrow> js_string \<Rightarrow> bool" where
  "isInline token optionName = startsWith token (optionName @ js ''='')"

lemma readOptionValue_Inr:
  "readOptionValue rest optionName = Inr v \<longleftrightarrow> rest \<noteq> [] \<and> v = hd rest \<and> \<not> startsWith v (js ''--'')"
  by (cases rest) (auto simp: readOptionValue_def)

lemma readInlineOptionValue_Inr:
  "readInlineOptionValue token optionName = Inr v \<longleftrightarrow> v = drop (length optionName + 1) token \<and> v \<noteq> []"
  by (auto simp: readInlineOptionValue_def Let_def)

section \<open>Parsed commands\<close>

datatype service_action =
  Service_install | Service_upgrade | Service_status | Service_start | Service_stop | Service_restart
| Service_uninstall

datatype goal_action = Goal_clear | Goal_complete | Goal_pause | Goal_resume | Goal_set
datatype plan_action = Plan_enter | Plan_exit
datatype approval_decision = Approve | Deny
datatype pair_permission = Pair_read | Pair_write
datatype legacy_action = Legacy_reset | Legacy_status
datatype remote_action = Remote_disable | Remote_enable | Remote_status

datatype parsed_command =
  C_help
| C_version
| C_serve
| C_status bool
| C_list "js_number option" "js_string option" bool
| C_devices "js_number option" "js_string option" bool
| C_discover "js_number option" bool
| C_adopt (adopt_thread: js_string) js_string bool bool
| C_unmanage js_string bool bool
| C_revoke js_string bool bool
| C_service service_action bool
| C_start js_string js_string bool
| C_archive js_string bool
| C_send js_string js_string bool
| C_resume js_string
| C_model js_string "js_string option" "js_string option" "js_number option" bool
| C_goal js_string "goal_action option" "js_string option" "js_string option" bool
| C_plan js_string "plan_action option" "js_number option" bool
| C_usage js_string bool
| C_compact js_string bool bool
| C_skills js_string bool
| C_approvals js_string "js_string option" "approval_decision option" bool bool
| C_interrupt js_string js_string bool bool
| C_pair "js_string option" pair_permission
| C_lock bool
| C_unlock bool
| C_legacy legacy_action bool bool
| C_remote remote_action bool

record config_flags =
  apiUrl :: "js_string option"
  port :: "js_string option"
  configPath :: "js_string option"
  stateDir :: "js_string option"
  databasePath :: "js_string option"

datatype config_key = ApiUrl | Port | ConfigPath | StateDir | DatabasePath

record parsed_args =
  parsedCommand :: parsed_command
  parsedFlags :: config_flags

section \<open>The global loop\<close>

datatype meta_command = Meta_help | Meta_version

record scan_state =
  configFlags :: config_flags
  seenConfigFlags :: "config_key list"
  positionals :: "js_string list"
  scanJson :: bool
  jsonSeen :: bool
  metaCommand :: "meta_command option"

definition initialScan :: scan_state where
  "initialScan =
     \<lparr> configFlags = \<lparr> apiUrl = None, port = None, configPath = None, stateDir = None, databasePath = None \<rparr>,
       seenConfigFlags = [], positionals = [], scanJson = False, jsonSeen = False, metaCommand = None \<rparr>"

fun assignFlag :: "config_key \<Rightarrow> js_string \<Rightarrow> config_flags \<Rightarrow> config_flags" where
  "assignFlag ApiUrl v flags = flags\<lparr> apiUrl := Some v \<rparr>"
| "assignFlag Port v flags = flags\<lparr> port := Some v \<rparr>"
| "assignFlag ConfigPath v flags = flags\<lparr> configPath := Some v \<rparr>"
| "assignFlag StateDir v flags = flags\<lparr> stateDir := Some v \<rparr>"
| "assignFlag DatabasePath v flags = flags\<lparr> databasePath := Some v \<rparr>"

fun flagOf :: "config_flags \<Rightarrow> config_key \<Rightarrow> js_string option" where
  "flagOf flags ApiUrl = apiUrl flags"
| "flagOf flags Port = port flags"
| "flagOf flags ConfigPath = configPath flags"
| "flagOf flags StateDir = stateDir flags"
| "flagOf flags DatabasePath = databasePath flags"

text \<open>\<open>flags[key] = value; seen.add(key)\<close>\<close>

definition setConfigFlag :: "config_key \<Rightarrow> js_string \<Rightarrow> js_string \<Rightarrow> scan_state \<Rightarrow> cli_failure + scan_state" where
  "setConfigFlag key v optionName st =
     (if key \<in> set (seenConfigFlags st)
      then Inl (usageFailure (optionName @ js '' may be specified only once.'') optionName)
      else Inr (st\<lparr> configFlags := assignFlag key v (configFlags st),
                    seenConfigFlags := key # seenConfigFlags st \<rparr>))"

definition requireGlobalOptionPosition :: "js_string \<Rightarrow> scan_state \<Rightarrow> cli_failure + unit" where
  "requireGlobalOptionPosition optionName st =
     (if positionals st \<noteq> []
      then Inl (usageFailure (optionName @ js '' must appear before the command.'') optionName)
      else Inr ())"

text \<open>The configuration options in the order of the source's branches; no two of them match one token.\<close>

definition configOptions :: "(js_string \<times> config_key) list" where
  "configOptions =
     [(js ''--api-url'', ApiUrl), (js ''--port'', Port), (js ''--config'', ConfigPath),
      (js ''--state-dir'', StateDir), (js ''--database'', DatabasePath), (js ''--database-path'', DatabasePath)]"

definition noTerminatorCommands :: "js_string list" where
  "noTerminatorCommands =
     [js ''model'', js ''goal'', js ''plan'', js ''compact'', js ''approvals'', js ''interrupt'',
      js ''legacy'', js ''serve'', js ''status'', js ''list'', js ''devices'', js ''discover'',
      js ''adopt'', js ''unmanage'', js ''revoke'', js ''service'']"

definition metaOption :: "meta_command \<Rightarrow> js_string \<Rightarrow> scan_state \<Rightarrow> cli_failure + scan_state" where
  "metaOption meta token st =
     (if positionals st \<noteq> [] then Inl (usageArgs (token @ js '' must appear before the command.''))
      else if metaCommand st \<noteq> None
      then Inl (usageArgs (js ''Help and version options may be specified only once.''))
      else Inr (st\<lparr> metaCommand := Some meta \<rparr>))"

text \<open>The branches that take one token, and \<open>--\<close>, which takes them all.\<close>

definition scanToken :: "js_string \<Rightarrow> scan_state \<Rightarrow> cli_failure + scan_state" where
  "scanToken token st =
     (if token = js ''--help'' \<or> token = js ''-h'' then metaOption Meta_help token st
      else if token = js ''--version'' \<or> token = js ''-v'' then metaOption Meta_version token st
      else if token = js ''--json'' then
        (if jsonSeen st then Inl (usageArgs (js ''The --json option may be specified only once.''))
         else Inr (st\<lparr> scanJson := True, jsonSeen := True \<rparr>))
      else case find (\<lambda>option. isInline token (fst option)) configOptions of
        Some (optionName, key) \<Rightarrow>
          andThen (requireGlobalOptionPosition optionName st) (\<lambda>_.
          andThen (readInlineOptionValue token optionName) (\<lambda>v.
            setConfigFlag key v optionName st))
      | None \<Rightarrow>
          if isFlag token \<and> positionals st = []
          then Inl (usageArgs (js ''Unknown option: '' @ token))
          else Inr (st\<lparr> positionals := positionals st @ [token] \<rparr>))"

definition terminator :: "js_string list \<Rightarrow> scan_state \<Rightarrow> cli_failure + scan_state" where
  "terminator rest st =
     (if positionals st \<noteq> [] \<and> hd (positionals st) \<in> set noTerminatorCommands
      then Inl (usageArgs (js ''The '' @ hd (positionals st) @ js '' command does not accept an option terminator.''))
      else Inr (st\<lparr> positionals := positionals st @ rest \<rparr>))"

function (sequential) scanArgs :: "js_string list \<Rightarrow> scan_state \<Rightarrow> cli_failure + scan_state" where
  "scanArgs [] st = Inr st"
| "scanArgs (token # rest) st =
     (if token = js ''--'' then terminator rest st
      else case map_of configOptions token of
        Some key \<Rightarrow>
          andThen (requireGlobalOptionPosition token st) (\<lambda>_.
          andThen (readOptionValue rest token) (\<lambda>v.
          andThen (setConfigFlag key v token st) (\<lambda>st.
            scanArgs (tl rest) st)))
      | None \<Rightarrow> andThen (scanToken token st) (\<lambda>st. scanArgs rest st))"
  by pat_completeness auto
termination by (relation "measure (\<lambda>(args, _). length args)") auto

section \<open>Numbers, cursors and revisions\<close>

text \<open>\<open>/^(?:[1-9]|[1-9][0-9]|100)$/u\<close>\<close>

definition pageLimitPattern :: "js_string \<Rightarrow> bool" where
  "pageLimitPattern s \<longleftrightarrow>
     (case s of
        [a] \<Rightarrow> 49 \<le> a \<and> a \<le> 57
      | [a, b] \<Rightarrow> 49 \<le> a \<and> a \<le> 57 \<and> isDigit b
      | [a, b, c] \<Rightarrow> a = 49 \<and> b = 48 \<and> c = 48
      | _ \<Rightarrow> False)"

definition parsePageLimit :: "js_string \<Rightarrow> js_string \<Rightarrow> cli_failure + js_number" where
  "parsePageLimit candidate command =
     (if \<not> pageLimitPattern candidate
      then Inl (usageFailure (command @ js '' limit must be an integer from 1 through 100.'') (js ''--limit''))
      else Inr (numberOf candidate))"

text \<open>
  \<open>selectedSessionListCursorSchema\<close>: the length, the pattern
  \<open>/^v1\.[0-9a-f]{64}\.(?:0|20|30|40|50|60)\.(?:-|[A-Za-z0-9_-]{32})\.[A-Za-z0-9_-]{15,92}$/u\<close>
  and the decoder. The classes between the dots hold no dot, so the pattern is one on the parts.
\<close>

definition sessionCursorPattern :: "js_string \<Rightarrow> bool" where
  "sessionCursorPattern s \<longleftrightarrow>
     (case splitOn 46 s of
        [version, snapshot, rankText, activityText, sessionText] \<Rightarrow>
          version = js ''v1'' \<and> length snapshot = 64 \<and> list_all isHexChar snapshot \<and>
          rankText \<in> set [js ''0'', js ''20'', js ''30'', js ''40'', js ''50'', js ''60''] \<and>
          (activityText = js ''-'' \<or> length activityText = 32 \<and> list_all isBase64UrlChar activityText) \<and>
          15 \<le> length sessionText \<and> length sessionText \<le> 92 \<and> list_all isBase64UrlChar sessionText
      | _ \<Rightarrow> False)"

definition selectedSessionListCursorSchema :: "js_string \<Rightarrow> js_string option" where
  "selectedSessionListCursorSchema candidate =
     (if 87 \<le> length candidate \<and> length candidate \<le> selectedSessionListCursorMaxLength \<and>
         sessionCursorPattern candidate
      then (case decodeSelectedSessionListCursor candidate of Inl _ \<Rightarrow> None | Inr _ \<Rightarrow> Some candidate)
      else None)"

text \<open>The commands \<open>list\<close> and \<open>devices\<close> share their options; each has its own cursor.\<close>

datatype page_command = Page_devices | Page_list

fun pageName :: "page_command \<Rightarrow> js_string" where
  "pageName Page_devices = js ''devices''"
| "pageName Page_list = js ''list''"

definition parsePageCursor :: "js_string \<Rightarrow> page_command \<Rightarrow> cli_failure + js_string" where
  "parsePageCursor candidate command =
     (case (case command of Page_list \<Rightarrow> selectedSessionListCursorSchema candidate
            | Page_devices \<Rightarrow> selectedDeviceListCursorSchema candidate) of
        None \<Rightarrow> Inl (usageFailure (pageName command @ js '' cursor is invalid.'') (js ''--cursor''))
      | Some _ \<Rightarrow> Inr candidate)"

text \<open>
  \<open>/^[1-9]\d*$/u\<close>, then \<open>Number\<close> and its safe-integer test. Rounding to a double is monotone
  and exact below \<open>2 ^ 53\<close>, so the test on the exact value gives the source's answer.
\<close>

definition positiveIntegerPattern :: "js_string \<Rightarrow> bool" where
  "positiveIntegerPattern s \<longleftrightarrow>
     (case s of [] \<Rightarrow> False | c # r \<Rightarrow> 49 \<le> c \<and> c \<le> 57 \<and> list_all isDigit r)"

definition parsePositiveRevision :: "js_string \<Rightarrow> cli_failure + js_number" where
  "parsePositiveRevision candidate =
     (if \<not> positiveIntegerPattern candidate
      then Inl (usageArgs (js ''Model expected revision must be a positive integer.''))
      else let revision = numberOf candidate in
        if \<not> isSafeInteger revision
        then Inl (usageArgs (js ''Model expected revision exceeds the supported range.''))
        else Inr revision)"

definition parsePlanRevision :: "js_string \<Rightarrow> cli_failure + js_number" where
  "parsePlanRevision candidate =
     (if \<not> positiveIntegerPattern candidate
      then Inl (usageArgs (js ''Plan expected revision must be a positive integer.''))
      else let revision = numberOf candidate in
        if \<not> isSafeInteger revision
        then Inl (usageArgs (js ''Plan expected revision exceeds the supported range.''))
        else Inr revision)"

text \<open>\<open>/^[a-f0-9]{64}$/u\<close>\<close>

definition parseGoalRevision :: "js_string \<Rightarrow> cli_failure + js_string" where
  "parseGoalRevision candidate =
     (if \<not> (length candidate = 64 \<and> list_all isHexChar candidate)
      then Inl (usageArgs (js ''Goal expected revision must be 64 lowercase hexadecimal characters.''))
      else Inr candidate)"

section \<open>The option loops of the commands\<close>

text \<open>
  The loop over the tokens of one command. Its body sees the token, the tokens after it and the
  loop's variables; it gives the new variables and whether it used the next token as well
  (\<open>index += 1\<close> before the \<open>continue\<close>).
\<close>

function (sequential) optionLoop ::
  "(js_string \<Rightarrow> js_string list \<Rightarrow> 's \<Rightarrow> cli_failure + bool \<times> 's) \<Rightarrow> js_string list \<Rightarrow> 's \<Rightarrow> cli_failure + 's" where
  "optionLoop body [] st = Inr st"
| "optionLoop body (token # rest) st =
     andThen (body token rest st) (\<lambda>(skip, st). optionLoop body (if skip then tl rest else rest) st)"
  by pat_completeness auto
termination by (relation "measure (\<lambda>(_, args, _). length args)") auto

definition takeOne :: "'s \<Rightarrow> 'e + bool \<times> 's" where
  "takeOne st = Inr (False, st)"

definition takeTwo :: "'s \<Rightarrow> 'e + bool \<times> 's" where
  "takeTwo st = Inr (True, st)"

lemma take_Inr_iff [simp]:
  "takeOne st = Inr r \<longleftrightarrow> r = (False, st)" "takeTwo st = Inr r \<longleftrightarrow> r = (True, st)"
  by (auto simp: takeOne_def takeTwo_def)

text \<open>An invariant of the body is one of the loop, and what the body makes sure of each token holds of all.\<close>

lemma optionLoop_invariant:
  assumes "\<And>token rest st skip st'. body token rest st = Inr (skip, st') \<Longrightarrow> token \<in> used \<Longrightarrow> keep st \<Longrightarrow> keep st'"
  shows "optionLoop body args st = Inr st' \<Longrightarrow> keep st \<Longrightarrow> set args \<subseteq> used \<Longrightarrow> keep st'"
  using assms
proof (induction body args st rule: optionLoop.induct)
  case (2 body token rest st)
  from 2(2) obtain skip st1 where step: "body token rest st = Inr (skip, st1)"
    and loop: "optionLoop body (if skip then tl rest else rest) st1 = Inr st'" by auto
  have "set (if skip then tl rest else rest) \<subseteq> used" using 2(4) by (cases rest) auto
  moreover have "keep st1" using 2(5) [OF step] 2(3,4) by simp
  ultimately show ?case using 2(1) [OF step refl loop] 2(5) by blast
qed simp

lemma optionLoop_tokens:
  assumes "\<And>token rest st skip st'. body token rest st = Inr (skip, st') \<Longrightarrow>
      P token \<and> (skip \<longrightarrow> rest \<noteq> [] \<and> P (hd rest))"
  shows "optionLoop body args st = Inr st' \<Longrightarrow> t \<in> set args \<Longrightarrow> P t"
  using assms
proof (induction body args st rule: optionLoop.induct)
  case (2 body token rest st)
  from 2(2) obtain skip st1 where step: "body token rest st = Inr (skip, st1)"
    and loop: "optionLoop body (if skip then tl rest else rest) st1 = Inr st'" by auto
  from 2(4) [OF step] 2(3) have "P t \<or> t \<in> set (if skip then tl rest else rest)"
    by (cases rest) (auto split: if_splits)
  then show ?case using 2(1) [OF step refl loop] 2(4) by blast
qed simp

definition singleSessionArgument :: "js_string \<Rightarrow> js_string list \<Rightarrow> cli_failure + js_string" where
  "singleSessionArgument command args =
     (if length args \<noteq> 1
      then Inl (usageArgs (js ''The '' @ command @ js '' command requires exactly one session target.''))
      else Inr (hd args))"

fun parseNoArgJsonOptions :: "js_string \<Rightarrow> js_string list \<Rightarrow> bool \<Rightarrow> cli_failure + bool" where
  "parseNoArgJsonOptions command [] json = Inr json"
| "parseNoArgJsonOptions command (token # rest) json =
     (if token = js ''--json'' then
        (if json then Inl (onlyOnce command token) else parseNoArgJsonOptions command rest True)
      else if isFlag token then Inl (unknownOption command token)
      else Inl (noPositionals command))"

record page_options =
  pageLimit :: "js_number option"
  pageCursor :: "js_string option"
  limitSeen :: bool
  cursorSeen :: bool
  pageJson :: bool

definition pageOption :: "page_command \<Rightarrow> js_string \<Rightarrow> js_string list \<Rightarrow> page_options \<Rightarrow> cli_failure + bool \<times> page_options" where
  "pageOption command token rest st =
     (if token = js ''--json'' then
        (if pageJson st then Inl (onlyOnce (pageName command) token)
         else takeOne (st\<lparr> pageJson := True \<rparr>))
      else if token = js ''--limit'' then
        (if limitSeen st then Inl (onlyOnce (pageName command) (js ''--limit''))
         else andThen (readOptionValue rest (js ''--limit'')) (\<lambda>v.
              andThen (parsePageLimit v (pageName command)) (\<lambda>n.
                takeTwo (st\<lparr> pageLimit := Some n, limitSeen := True \<rparr>))))
      else if isInline token (js ''--limit'') then
        (if limitSeen st then Inl (onlyOnce (pageName command) (js ''--limit''))
         else andThen (readInlineOptionValue token (js ''--limit'')) (\<lambda>v.
              andThen (parsePageLimit v (pageName command)) (\<lambda>n.
                takeOne (st\<lparr> pageLimit := Some n, limitSeen := True \<rparr>))))
      else if token = js ''--cursor'' then
        (if cursorSeen st then Inl (onlyOnce (pageName command) (js ''--cursor''))
         else andThen (readOptionValue rest (js ''--cursor'')) (\<lambda>v.
              andThen (parsePageCursor v command) (\<lambda>c.
                takeTwo (st\<lparr> pageCursor := Some c, cursorSeen := True \<rparr>))))
      else if isInline token (js ''--cursor'') then
        (if cursorSeen st then Inl (onlyOnce (pageName command) (js ''--cursor''))
         else andThen (readInlineOptionValue token (js ''--cursor'')) (\<lambda>v.
              andThen (parsePageCursor v command) (\<lambda>c.
                takeOne (st\<lparr> pageCursor := Some c, cursorSeen := True \<rparr>))))
      else if isFlag token then Inl (unknownOption (pageName command) token)
      else Inl (noPositionals (pageName command)))"

definition parsePaginationCommand :: "page_command \<Rightarrow> js_string list \<Rightarrow> bool \<Rightarrow> cli_failure + parsed_command" where
  "parsePaginationCommand command args globalJson =
     andThen (optionLoop (pageOption command) args
         \<lparr> pageLimit = None, pageCursor = None, limitSeen = False, cursorSeen = False, pageJson = globalJson \<rparr>)
       (\<lambda>st. Inr ((case command of Page_list \<Rightarrow> C_list | Page_devices \<Rightarrow> C_devices)
                    (pageLimit st) (pageCursor st) (pageJson st)))"

definition discoverOption :: "js_string \<Rightarrow> js_string list \<Rightarrow> js_number option \<times> bool \<Rightarrow> cli_failure + bool \<times> js_number option \<times> bool" where
  "discoverOption token rest = (\<lambda>(limit, seen).
     (if token = js ''--limit'' then
        (if seen then Inl (onlyOnce (js ''discover'') (js ''--limit''))
         else andThen (readOptionValue rest (js ''--limit'')) (\<lambda>v.
              andThen (parsePageLimit v (js ''discover'')) (\<lambda>n. takeTwo (Some n, True))))
      else if isInline token (js ''--limit'') then
        (if seen then Inl (onlyOnce (js ''discover'') (js ''--limit''))
         else andThen (readInlineOptionValue token (js ''--limit'')) (\<lambda>v.
              andThen (parsePageLimit v (js ''discover'')) (\<lambda>n. takeOne (Some n, True))))
      else if isFlag token then Inl (unknownOption (js ''discover'') token)
      else Inl (noPositionals (js ''discover''))))"

definition parseDiscoveryCommand :: "js_string list \<Rightarrow> bool \<Rightarrow> cli_failure + parsed_command" where
  "parseDiscoveryCommand args globalJson =
     andThen (optionLoop discoverOption args (None, False)) (\<lambda>(limit, _). Inr (C_discover limit globalJson))"

text \<open>\<open>const [first, ...rest] = args\<close>\<close>

definition firstArg :: "'a list \<Rightarrow> 'a option" where
  "firstArg args = (case args of [] \<Rightarrow> None | a # _ \<Rightarrow> Some a)"

definition adoptOption :: "js_string \<Rightarrow> js_string list \<Rightarrow> js_string option \<times> bool \<Rightarrow> cli_failure + bool \<times> js_string option \<times> bool" where
  "adoptOption token rest = (\<lambda>(name, confirmHandoff).
     (if token = js ''--name'' then
        (if name \<noteq> None then Inl (onlyOnce (js ''adopt'') (js ''--name''))
         else andThen (readOptionValue rest (js ''--name'')) (\<lambda>v. takeTwo (Some v, confirmHandoff)))
      else if isInline token (js ''--name'') then
        (if name \<noteq> None then Inl (onlyOnce (js ''adopt'') (js ''--name''))
         else andThen (readInlineOptionValue token (js ''--name'')) (\<lambda>v. takeOne (Some v, confirmHandoff)))
      else if token = js ''--confirm-handoff'' then
        (if confirmHandoff then Inl (onlyOnce (js ''adopt'') (js ''--confirm-handoff''))
         else takeOne (name, True))
      else if isFlag token then Inl (unknownOption (js ''adopt'') token)
      else Inl (unexpectedArgument (js ''adopt'') token)))"

definition parseAdoptCommand :: "js_string list \<Rightarrow> bool \<Rightarrow> cli_failure + parsed_command" where
  "parseAdoptCommand args globalJson =
     (case brandedStringSchema parseCodexThreadId (firstArg args) of
        None \<Rightarrow> Inl (usageFailure (js ''The adopt command requires one valid native Codex thread id.'') (js ''thread_id''))
      | Some thread \<Rightarrow>
          andThen (optionLoop adoptOption (tl args) (None, False)) (\<lambda>(name, confirmHandoff).
            case brandedStringSchema parseSessionName name of
              None \<Rightarrow> Inl (usageFailure (js ''The adopt command requires one valid --name value.'') (js ''name''))
            | Some parsedName \<Rightarrow>
                if \<not> confirmHandoff
                then Inl (usageArgs (js ''Native session adoption requires --confirm-handoff.''))
                else Inr (C_adopt thread parsedName True globalJson)))"

definition parseUnmanageCommand :: "js_string list \<Rightarrow> bool \<Rightarrow> cli_failure + parsed_command" where
  "parseUnmanageCommand args globalJson =
     (case brandedStringSchema parseSessionId (firstArg args) of
        None \<Rightarrow> Inl (usageFailure (js ''The unmanage command requires one valid managed session id.'') (js ''session_id''))
      | Some session \<Rightarrow>
          if tl args \<noteq> [js ''--confirm'']
          then Inl (usageArgs (js ''Native session unmanage requires SESSION_ID --confirm.''))
          else Inr (C_unmanage session True globalJson))"

fun revokeLoop :: "js_string list \<Rightarrow> bool \<Rightarrow> bool \<Rightarrow> cli_failure + bool \<times> bool" where
  "revokeLoop [] confirmed json = Inr (confirmed, json)"
| "revokeLoop (token # rest) confirmed json =
     (if token = js ''--confirm'' then
        (if confirmed then Inl (onlyOnce (js ''revoke'') (js ''--confirm''))
         else revokeLoop rest True json)
      else if token = js ''--json'' then
        (if json then Inl (onlyOnce (js ''revoke'') (js ''--json''))
         else revokeLoop rest confirmed True)
      else if isFlag token then Inl (unknownOption (js ''revoke'') token)
      else Inl (unexpectedArgument (js ''revoke'') token))"

definition parseRevokeCommand :: "js_string list \<Rightarrow> bool \<Rightarrow> cli_failure + parsed_command" where
  "parseRevokeCommand args globalJson =
     (case (case firstArg args of None \<Rightarrow> None | Some d \<Rightarrow> selectedDeviceIdSchema d) of
        None \<Rightarrow> Inl (usageFailure (js ''The revoke command requires one valid device id.'') (js ''device_id''))
      | Some deviceId \<Rightarrow>
          andThen (revokeLoop (tl args) False globalJson) (\<lambda>(confirmed, json).
            if \<not> confirmed then Inl (usageArgs (js ''Device revoke requires --confirm.''))
            else Inr (C_revoke deviceId True json)))"

fun serviceAction :: "js_string option \<Rightarrow> service_action option" where
  "serviceAction None = None"
| "serviceAction (Some candidate) =
     (if candidate = js ''install'' then Some Service_install
      else if candidate = js ''upgrade'' then Some Service_upgrade
      else if candidate = js ''status'' then Some Service_status
      else if candidate = js ''start'' then Some Service_start
      else if candidate = js ''stop'' then Some Service_stop
      else if candidate = js ''restart'' then Some Service_restart
      else if candidate = js ''uninstall'' then Some Service_uninstall
      else None)"

definition parseServiceCommand :: "js_string list \<Rightarrow> bool \<Rightarrow> cli_failure + parsed_command" where
  "parseServiceCommand args globalJson =
     (case serviceAction (firstArg args) of
        None \<Rightarrow> Inl (usageArgs (js ''Service requires install, upgrade, status, start, stop, restart, or uninstall.''))
      | Some action \<Rightarrow>
          andThen (parseNoArgJsonOptions (js ''service '' @ hd args) (tl args) globalJson) (\<lambda>json.
            Inr (C_service action json)))"

record start_options =
  startName :: "js_string option"
  startCwd :: "js_string option"
  startJson :: bool
  nameSeen :: bool
  cwdSeen :: bool

definition startOption :: "js_string \<Rightarrow> js_string list \<Rightarrow> start_options \<Rightarrow> cli_failure + bool \<times> start_options" where
  "startOption token rest st =
     (if token = js ''--name'' then
        (if nameSeen st then Inl (onlyOnce (js ''start'') (js ''--name''))
         else andThen (readOptionValue rest (js ''--name'')) (\<lambda>v.
              takeTwo (st\<lparr> startName := Some v, nameSeen := True \<rparr>)))
      else if isInline token (js ''--name'') then
        (if nameSeen st then Inl (onlyOnce (js ''start'') (js ''--name''))
         else andThen (readInlineOptionValue token (js ''--name'')) (\<lambda>v.
              takeOne (st\<lparr> startName := Some v, nameSeen := True \<rparr>)))
      else if token = js ''--cwd'' then
        (if cwdSeen st then Inl (onlyOnce (js ''start'') (js ''--cwd''))
         else andThen (readOptionValue rest (js ''--cwd'')) (\<lambda>v.
              takeTwo (st\<lparr> startCwd := Some v, cwdSeen := True \<rparr>)))
      else if isInline token (js ''--cwd'') then
        (if cwdSeen st then Inl (onlyOnce (js ''start'') (js ''--cwd''))
         else andThen (readInlineOptionValue token (js ''--cwd'')) (\<lambda>v.
              takeOne (st\<lparr> startCwd := Some v, cwdSeen := True \<rparr>)))
      else if token = js ''--json'' then
        (if startJson st then Inl (onlyOnce (js ''start'') (js ''--json''))
         else takeOne (st\<lparr> startJson := True \<rparr>))
      else if isFlag token then Inl (unknownOption (js ''start'') token)
      else Inl (unexpectedArgument (js ''start'') token))"

definition parseStartOptions :: "js_string list \<Rightarrow> cli_failure + js_string \<times> js_string \<times> bool" where
  "parseStartOptions args =
     andThen (optionLoop startOption args
         \<lparr> startName = None, startCwd = None, startJson = False, nameSeen = False, cwdSeen = False \<rparr>)
       (\<lambda>st. case startName st of
          None \<Rightarrow> Inl (usageArgs (js ''The start command requires --name.''))
        | Some name \<Rightarrow>
            (case startCwd st of
               None \<Rightarrow> Inl (usageArgs (js ''The start command requires --cwd.''))
             | Some cwd \<Rightarrow> Inr (name, cwd, startJson st)))"

text \<open>\<open>session === undefined || session.startsWith("-")\<close>\<close>

definition noSession :: "js_string option \<Rightarrow> bool" where
  "noSession session = (case session of None \<Rightarrow> True | Some s \<Rightarrow> isFlag s)"

record model_options =
  modelId :: "js_string option"
  modelEffort :: "js_string option"
  modelRevision :: "js_number option"
  effortSeen :: bool
  modelRevisionSeen :: bool
  modelJson :: bool

definition modelOption :: "js_string \<Rightarrow> js_string list \<Rightarrow> model_options \<Rightarrow> cli_failure + bool \<times> model_options" where
  "modelOption token rest st =
     (if token = js ''--json'' then takeOne (st\<lparr> modelJson := True \<rparr>)
      else if token = js ''--effort'' then
        (if effortSeen st then Inl (onlyOnce (js ''model'') (js ''--effort''))
         else andThen (readOptionValue rest (js ''--effort'')) (\<lambda>v.
              takeTwo (st\<lparr> modelEffort := Some v, effortSeen := True \<rparr>)))
      else if isInline token (js ''--effort'') then
        (if effortSeen st then Inl (onlyOnce (js ''model'') (js ''--effort''))
         else andThen (readInlineOptionValue token (js ''--effort'')) (\<lambda>v.
              takeOne (st\<lparr> modelEffort := Some v, effortSeen := True \<rparr>)))
      else if token = js ''--expected-revision'' then
        (if modelRevisionSeen st then Inl (onlyOnce (js ''model'') (js ''--expected-revision''))
         else andThen (readOptionValue rest (js ''--expected-revision'')) (\<lambda>v.
              andThen (parsePositiveRevision v) (\<lambda>n.
                takeTwo (st\<lparr> modelRevision := Some n, modelRevisionSeen := True \<rparr>))))
      else if isInline token (js ''--expected-revision'') then
        (if modelRevisionSeen st then Inl (onlyOnce (js ''model'') (js ''--expected-revision''))
         else andThen (readInlineOptionValue token (js ''--expected-revision'')) (\<lambda>v.
              andThen (parsePositiveRevision v) (\<lambda>n.
                takeOne (st\<lparr> modelRevision := Some n, modelRevisionSeen := True \<rparr>))))
      else if isFlag token then Inl (unknownOption (js ''model'') token)
      else if modelId st \<noteq> None then Inl (unexpectedArgument (js ''model'') token)
      else takeOne (st\<lparr> modelId := Some token \<rparr>))"

definition parseModelOptions :: "js_string list \<Rightarrow> bool \<Rightarrow> cli_failure + parsed_command" where
  "parseModelOptions args globalJson =
     (if noSession (firstArg args) then Inl (oneManagedSession (js ''model''))
      else andThen (optionLoop modelOption (tl args)
          \<lparr> modelId = None, modelEffort = None, modelRevision = None, effortSeen = False,
            modelRevisionSeen = False, modelJson = globalJson \<rparr>)
        (\<lambda>st. if modelId st = None \<and> (effortSeen st \<or> modelRevisionSeen st)
              then Inl (usageArgs (js ''Model effort and expected revision require one catalog model id.''))
              else Inr (C_model (hd args) (modelId st) (modelEffort st) (modelRevision st) (modelJson st))))"

definition goalAction :: "js_string \<Rightarrow> goal_action option" where
  "goalAction candidate =
     (if candidate = js ''set'' then Some Goal_set
      else if candidate = js ''pause'' then Some Goal_pause
      else if candidate = js ''resume'' then Some Goal_resume
      else if candidate = js ''complete'' then Some Goal_complete
      else if candidate = js ''clear'' then Some Goal_clear
      else None)"

record goal_options =
  goalObjective :: "js_string option"
  goalRevision :: "js_string option"
  objectiveSeen :: bool
  goalRevisionSeen :: bool
  goalJson :: bool

definition goalOption :: "js_string \<Rightarrow> js_string list \<Rightarrow> goal_options \<Rightarrow> cli_failure + bool \<times> goal_options" where
  "goalOption token rest st =
     (if token = js ''--json'' then takeOne (st\<lparr> goalJson := True \<rparr>)
      else if token = js ''--objective'' then
        (if objectiveSeen st then Inl (onlyOnce (js ''goal'') (js ''--objective''))
         else andThen (readOptionValue rest (js ''--objective'')) (\<lambda>v.
              takeTwo (st\<lparr> goalObjective := Some v, objectiveSeen := True \<rparr>)))
      else if isInline token (js ''--objective'') then
        (if objectiveSeen st then Inl (onlyOnce (js ''goal'') (js ''--objective''))
         else andThen (readInlineOptionValue token (js ''--objective'')) (\<lambda>v.
              takeOne (st\<lparr> goalObjective := Some v, objectiveSeen := True \<rparr>)))
      else if token = js ''--expected-revision'' then
        (if goalRevisionSeen st then Inl (onlyOnce (js ''goal'') (js ''--expected-revision''))
         else andThen (readOptionValue rest (js ''--expected-revision'')) (\<lambda>v.
              andThen (parseGoalRevision v) (\<lambda>r.
                takeTwo (st\<lparr> goalRevision := Some r, goalRevisionSeen := True \<rparr>))))
      else if isInline token (js ''--expected-revision'') then
        (if goalRevisionSeen st then Inl (onlyOnce (js ''goal'') (js ''--expected-revision''))
         else andThen (readInlineOptionValue token (js ''--expected-revision'')) (\<lambda>v.
              andThen (parseGoalRevision v) (\<lambda>r.
                takeOne (st\<lparr> goalRevision := Some r, goalRevisionSeen := True \<rparr>))))
      else if isFlag token then Inl (unknownOption (js ''goal'') token)
      else Inl (unexpectedArgument (js ''goal'') token))"

definition parseGoalOptions :: "js_string list \<Rightarrow> bool \<Rightarrow> cli_failure + parsed_command" where
  "parseGoalOptions args globalJson =
     (if noSession (firstArg args) then Inl (oneManagedSession (js ''goal''))
      else case tl args of
        [] \<Rightarrow> Inr (C_goal (hd args) None None None globalJson)
      | actionCandidate # rest \<Rightarrow>
          (case goalAction actionCandidate of
             None \<Rightarrow> Inl (usageArgs (js ''Unknown goal action: '' @ actionCandidate))
           | Some action \<Rightarrow>
               andThen (optionLoop goalOption rest
                   \<lparr> goalObjective = None, goalRevision = None, objectiveSeen = False,
                     goalRevisionSeen = False, goalJson = globalJson \<rparr>)
                 (\<lambda>st. if action = Goal_set then
                          (if \<not> objectiveSeen st
                           then Inl (usageArgs (js ''The goal set action requires --objective.''))
                           else Inr (C_goal (hd args) (Some action) (goalObjective st) (goalRevision st) (goalJson st)))
                        else if objectiveSeen st
                        then Inl (usageArgs (js ''Only the goal set action accepts --objective.''))
                        else if \<not> goalRevisionSeen st
                        then Inl (usageArgs (js ''The goal '' @ actionCandidate @ js '' action requires --expected-revision.''))
                        else Inr (C_goal (hd args) (Some action) (goalObjective st) (goalRevision st) (goalJson st)))))"

definition planAction :: "js_string \<Rightarrow> plan_action option" where
  "planAction candidate =
     (if candidate = js ''enter'' then Some Plan_enter
      else if candidate = js ''exit'' then Some Plan_exit
      else None)"

definition planOption :: "js_string \<Rightarrow> js_string list \<Rightarrow> js_number option \<times> bool \<times> bool \<Rightarrow>
    cli_failure + bool \<times> js_number option \<times> bool \<times> bool" where
  "planOption token rest = (\<lambda>(revision, seen, json).
     (if token = js ''--json'' then takeOne (revision, seen, True)
      else if token = js ''--expected-revision'' then
        (if seen then Inl (onlyOnce (js ''plan'') (js ''--expected-revision''))
         else andThen (readOptionValue rest (js ''--expected-revision'')) (\<lambda>v.
              andThen (parsePlanRevision v) (\<lambda>n. takeTwo (Some n, True, json))))
      else if isInline token (js ''--expected-revision'') then
        (if seen then Inl (onlyOnce (js ''plan'') (js ''--expected-revision''))
         else andThen (readInlineOptionValue token (js ''--expected-revision'')) (\<lambda>v.
              andThen (parsePlanRevision v) (\<lambda>n. takeOne (Some n, True, json))))
      else if isFlag token then Inl (unknownOption (js ''plan'') token)
      else Inl (unexpectedArgument (js ''plan'') token)))"

definition parsePlanOptions :: "js_string list \<Rightarrow> bool \<Rightarrow> cli_failure + parsed_command" where
  "parsePlanOptions args globalJson =
     (if noSession (firstArg args) then Inl (oneManagedSession (js ''plan''))
      else case tl args of
        [] \<Rightarrow> Inr (C_plan (hd args) None None globalJson)
      | actionCandidate # rest \<Rightarrow>
          (case planAction actionCandidate of
             None \<Rightarrow> Inl (usageArgs (js ''Unknown plan action: '' @ actionCandidate))
           | Some action \<Rightarrow>
               andThen (optionLoop planOption rest (None, False, globalJson)) (\<lambda>(revision, _, json).
                 Inr (C_plan (hd args) (Some action) revision json))))"

fun compactLoop :: "js_string list \<Rightarrow> bool \<Rightarrow> cli_failure + bool" where
  "compactLoop [] confirm = Inr confirm"
| "compactLoop (token # rest) confirm =
     (if token = js ''--confirm'' then
        (if confirm then Inl (onlyOnce (js ''compact'') (js ''--confirm'')) else compactLoop rest True)
      else if isFlag token then Inl (unknownOption (js ''compact'') token)
      else Inl (unexpectedArgument (js ''compact'') token))"

definition parseCompactOptions :: "js_string list \<Rightarrow> bool \<Rightarrow> cli_failure + parsed_command" where
  "parseCompactOptions args globalJson =
     (if noSession (firstArg args) then Inl (oneManagedSession (js ''compact''))
      else andThen (compactLoop (tl args) False) (\<lambda>confirm. Inr (C_compact (hd args) confirm globalJson)))"

definition approvalDecision :: "js_string \<Rightarrow> approval_decision option" where
  "approvalDecision candidate =
     (if candidate = js ''approve'' then Some Approve
      else if candidate = js ''deny'' then Some Deny
      else None)"

definition approvalUsage :: cli_failure where
  "approvalUsage = usageArgs (js ''Approval response requires SESSION_ID REQUEST_ID approve|deny --confirm.'')"

definition parseApprovalsOptions :: "js_string list \<Rightarrow> bool \<Rightarrow> cli_failure + parsed_command" where
  "parseApprovalsOptions args globalJson =
     (if noSession (firstArg args) then Inl (oneManagedSession (js ''approvals''))
      else case tl args of
        [] \<Rightarrow> Inr (C_approvals (hd args) None None False globalJson)
      | [request] \<Rightarrow> Inl approvalUsage
      | request # decision # rest \<Rightarrow>
          if isFlag request then Inl approvalUsage
          else (case approvalDecision decision of
             None \<Rightarrow> Inl approvalUsage
           | Some d \<Rightarrow>
               if rest \<noteq> [js ''--confirm''] then Inl approvalUsage
               else Inr (C_approvals (hd args) (Some request) (Some d) True globalJson)))"

definition parseInterruptOptions :: "js_string list \<Rightarrow> bool \<Rightarrow> cli_failure + parsed_command" where
  "parseInterruptOptions args globalJson =
     (let refused = Inl (usageArgs (js ''Interrupt requires SESSION_ID TURN_ID --confirm.'')) in
      if noSession (firstArg args) \<or> noSession (firstArg (tl args)) then refused
      else if tl (tl args) \<noteq> [js ''--confirm''] then refused
      else Inr (C_interrupt (hd args) (hd (tl args)) True globalJson))"

definition pairNoJson :: cli_failure where
  "pairNoJson =
     usageArgs (js ''The pair command does not support --json because its output contains a one-time secret.'')"

record pair_options =
  pairLabel :: "js_string option"
  pairPermission :: pair_permission
  permissionOptionSeen :: bool

definition pairOption :: "js_string \<Rightarrow> js_string list \<Rightarrow> pair_options \<Rightarrow> cli_failure + bool \<times> pair_options" where
  "pairOption token rest st =
     (if token = js ''--json'' then Inl pairNoJson
      else if token = js ''--label'' then
        (if pairLabel st \<noteq> None then Inl (onlyOnce (js ''pair'') (js ''--label''))
         else andThen (readOptionValue rest (js ''--label'')) (\<lambda>v.
              takeTwo (st\<lparr> pairLabel := Some v \<rparr>)))
      else if isInline token (js ''--label'') then
        (if pairLabel st \<noteq> None then Inl (onlyOnce (js ''pair'') (js ''--label''))
         else andThen (readInlineOptionValue token (js ''--label'')) (\<lambda>v.
              takeOne (st\<lparr> pairLabel := Some v \<rparr>)))
      else if token = js ''--read-only'' then
        (if permissionOptionSeen st then Inl (usageArgs (js ''The pair command accepts one permission option.''))
         else takeOne (st\<lparr> pairPermission := Pair_read, permissionOptionSeen := True \<rparr>))
      else if token = js ''--write'' then
        (if permissionOptionSeen st then Inl (usageArgs (js ''The pair command accepts one permission option.''))
         else takeOne (st\<lparr> pairPermission := Pair_write, permissionOptionSeen := True \<rparr>))
      else if isFlag token then Inl (unknownOption (js ''pair'') token)
      else Inl (unexpectedArgument (js ''pair'') token))"

definition parsePairOptions :: "js_string list \<Rightarrow> bool \<Rightarrow> cli_failure + parsed_command" where
  "parsePairOptions args globalJson =
     (if globalJson then Inl pairNoJson
      else andThen (optionLoop pairOption args \<lparr> pairLabel = None, pairPermission = Pair_write, permissionOptionSeen = False \<rparr>)
        (\<lambda>st. Inr (C_pair (pairLabel st) (pairPermission st))))"

definition parseLegacyCommand :: "js_string list \<Rightarrow> bool \<Rightarrow> cli_failure + parsed_command" where
  "parseLegacyCommand args globalJson =
     (if firstArg args = Some (js ''status'') then
        andThen (parseNoArgJsonOptions (js ''legacy status'') (tl args) globalJson) (\<lambda>json.
          Inr (C_legacy Legacy_status False json))
      else if firstArg args = Some (js ''reset'') then
        (if tl args \<noteq> [js ''--confirm'']
         then Inl (usageArgs (js ''Legacy reset requires --confirm.''))
         else Inr (C_legacy Legacy_reset True globalJson))
      else Inl (usageArgs (js ''Legacy requires status or reset --confirm.'')))"

definition remoteAction :: "js_string \<Rightarrow> remote_action option" where
  "remoteAction candidate =
     (if candidate = js ''status'' then Some Remote_status
      else if candidate = js ''enable'' then Some Remote_enable
      else if candidate = js ''disable'' then Some Remote_disable
      else None)"

definition parseRemoteCommand :: "js_string list \<Rightarrow> bool \<Rightarrow> cli_failure + parsed_command" where
  "parseRemoteCommand args globalJson =
     (case args of
        [] \<Rightarrow> Inl (usageArgs (js ''The remote command requires status, enable, or disable.''))
      | action # rest \<Rightarrow>
          (case remoteAction action of
             None \<Rightarrow> Inl (usageArgs (js ''Unknown remote command: '' @ action))
           | Some a \<Rightarrow>
               andThen (parseNoArgJsonOptions (js ''remote '' @ action) rest globalJson) (\<lambda>json.
                 Inr (C_remote a json))))"

section \<open>The chain of commands\<close>

text \<open>\<open>textParts.join(" ")\<close>\<close>

fun joinSpace :: "js_string list \<Rightarrow> js_string" where
  "joinSpace [] = []"
| "joinSpace [p] = p"
| "joinSpace (p # q # ps) = p @ [32] @ joinSpace (q # ps)"

text \<open>The second half of the chain, from \<open>send\<close> on.\<close>

definition dispatchSession :: "js_string \<Rightarrow> js_string list \<Rightarrow> bool \<Rightarrow> cli_failure + parsed_command" where
  "dispatchSession command rest json =
     (if command = js ''send'' then
        (if length rest < 2 then Inl (usageArgs (js ''The send command requires a session target and text.''))
         else Inr (C_send (hd rest) (joinSpace (tl rest)) json))
      else if command = js ''resume'' then
        (if json then Inl (usageArgs (js ''The resume command does not support --json.''))
         else andThen (singleSessionArgument (js ''resume'') rest) (\<lambda>session. Inr (C_resume session)))
      else if command = js ''model'' then parseModelOptions rest json
      else if command = js ''goal'' then parseGoalOptions rest json
      else if command = js ''plan'' then parsePlanOptions rest json
      else if command = js ''usage'' then
        andThen (singleSessionArgument (js ''usage'') rest) (\<lambda>session. Inr (C_usage session json))
      else if command = js ''compact'' then parseCompactOptions rest json
      else if command = js ''skills'' then
        andThen (singleSessionArgument (js ''skills'') rest) (\<lambda>session. Inr (C_skills session json))
      else if command = js ''approvals'' then parseApprovalsOptions rest json
      else if command = js ''interrupt'' then parseInterruptOptions rest json
      else if command = js ''pair'' then parsePairOptions rest json
      else if command = js ''lock'' then
        andThen (parseNoArgJsonOptions (js ''lock'') rest json) (\<lambda>json. Inr (C_lock json))
      else if command = js ''unlock'' then
        andThen (parseNoArgJsonOptions (js ''unlock'') rest json) (\<lambda>json. Inr (C_unlock json))
      else if command = js ''legacy'' then parseLegacyCommand rest json
      else if command = js ''remote'' then parseRemoteCommand rest json
      else Inl (usageArgs (js ''Unknown command: '' @ command)))"

definition dispatch :: "js_string \<Rightarrow> js_string list \<Rightarrow> bool \<Rightarrow> cli_failure + parsed_command" where
  "dispatch command rest json =
     (if command = js ''help'' then
        (if rest \<noteq> [] \<or> json then Inl (usageArgs (js ''The help command does not accept extra arguments.''))
         else Inr C_help)
      else if command = js ''version'' then
        (if rest \<noteq> [] \<or> json then Inl (usageArgs (js ''The version command does not accept extra arguments.''))
         else Inr C_version)
      else if command = js ''serve'' then
        (if rest \<noteq> [] \<or> json then Inl (usageArgs (js ''The serve command does not accept arguments or --json.''))
         else Inr C_serve)
      else if command = js ''status'' then
        andThen (parseNoArgJsonOptions (js ''status'') rest json) (\<lambda>json. Inr (C_status json))
      else if command = js ''list'' then parsePaginationCommand Page_list rest json
      else if command = js ''devices'' then parsePaginationCommand Page_devices rest json
      else if command = js ''discover'' then parseDiscoveryCommand rest json
      else if command = js ''adopt'' then parseAdoptCommand rest json
      else if command = js ''unmanage'' then parseUnmanageCommand rest json
      else if command = js ''revoke'' then parseRevokeCommand rest json
      else if command = js ''service'' then parseServiceCommand rest json
      else if command = js ''start'' then
        andThen (parseStartOptions rest) (\<lambda>(name, cwd, startJson). Inr (C_start name cwd (startJson \<or> json)))
      else if command = js ''archive'' then
        andThen (singleSessionArgument (js ''archive'') rest) (\<lambda>session. Inr (C_archive session json))
      else dispatchSession command rest json)"

lemmas dispatch_defs = dispatch_def dispatchSession_def

fun metaName :: "meta_command \<Rightarrow> js_string" where
  "metaName Meta_help = js ''help''"
| "metaName Meta_version = js ''version''"

text \<open>What follows the loop.\<close>

definition finishScan :: "scan_state \<Rightarrow> cli_failure + parsed_command" where
  "finishScan st =
     (case metaCommand st of
        Some meta \<Rightarrow>
          if positionals st \<noteq> [] \<or> scanJson st
          then Inl (usageArgs (js ''The '' @ metaName meta @ js '' option does not accept command arguments or --json.''))
          else Inr (case meta of Meta_help \<Rightarrow> C_help | Meta_version \<Rightarrow> C_version)
      | None \<Rightarrow>
          (case positionals st of
             [] \<Rightarrow>
               if scanJson st then Inl (usageArgs (js ''The --json option requires a command.''))
               else Inr C_help
           | command # rest \<Rightarrow> dispatch command rest (scanJson st)))"

definition parseCliArgs :: "js_string list \<Rightarrow> cli_failure + parsed_args" where
  "parseCliArgs args =
     andThen (scanArgs args initialScan) (\<lambda>st.
     andThen (finishScan st) (\<lambda>command.
       Inr \<lparr> parsedCommand = command, parsedFlags = configFlags st \<rparr>))"

section \<open>Literals in front of a value\<close>

lemma startsWith_append_iff:
  "startsWith (p @ v) q \<longleftrightarrow> take (length p) q = take (length q) p \<and> startsWith v (drop (length p) q)"
proof (cases "length q \<le> length p")
  case True
  then show ?thesis by (auto simp: startsWith_def)
next
  case False
  then have "take (length q) (p @ v) = q \<longleftrightarrow>
      p @ take (length q - length p) v = take (length p) q @ drop (length p) q" by simp
  also have "\<dots> \<longleftrightarrow> p = take (length p) q \<and> take (length q - length p) v = drop (length p) q"
    using False by (intro append_eq_append_conv) simp
  finally show ?thesis using False by (auto simp: startsWith_def)
qed

lemma js_append_eq_iff:
  "js s @ v = js t \<longleftrightarrow> take (length s) t = s \<and> v = js (drop (length s) t)"
  "js t = js s @ v \<longleftrightarrow> take (length s) t = s \<and> v = js (drop (length s) t)"
proof -
  have "js s @ v = js t \<longleftrightarrow> js s @ v = js (take (length s) t) @ js (drop (length s) t)" by simp
  also have "\<dots> \<longleftrightarrow> take (length s) t = s \<and> v = js (drop (length s) t)"
  proof (cases "length s \<le> length t")
    case True
    then have "length (js s) = length (js (take (length s) t))" by simp
    then show ?thesis by (metis append_eq_append_conv js_eq_iff)
  next
    case False
    then show ?thesis by (metis append_Nil2 drop_all js_Nil length_append length_js le_add1 linear take_all)
  qed
  finally show "js s @ v = js t \<longleftrightarrow> take (length s) t = s \<and> v = js (drop (length s) t)" .
  then show "js t = js s @ v \<longleftrightarrow> take (length s) t = s \<and> v = js (drop (length s) t)" by (simp add: eq_commute)
qed

lemma token_facts [js_simps]:
  "isInline (js s @ v) (js t) \<longleftrightarrow>
     take (length s) (t @ ''='') = take (Suc (length t)) s \<and> startsWith v (js (drop (length s) (t @ ''='')))"
  "isInline (js s) (js t) \<longleftrightarrow> startsWith s (t @ ''='')"
  "isFlag (js s) \<longleftrightarrow> startsWith s ''-''"
  "isFlag (js s @ v) \<longleftrightarrow> take (length s) ''-'' = take 1 s \<and> startsWith v (js (drop (length s) ''-''))"
  "readInlineOptionValue (js s @ v) (js t) =
     (let w = drop (Suc (length t)) (js s @ v) in
      if w = [] then Inl (usageFailure (js t @ js '' requires a value.'') (js t)) else Inr w)"
  by (simp_all add: isInline_def isFlag_def readInlineOptionValue_def startsWith_append_iff Let_def
      del: append_take_drop_id drop_append)

lemma startsWith_simps [simp]:
  "startsWith s []" "startsWith (c # s) (d # p) \<longleftrightarrow> c = d \<and> startsWith s p" "\<not> startsWith [] (d # p)"
  by (auto simp: startsWith_def)

end
