(* ===== verification/Cli_Command_Lines.thy ===== *)
theory Cli_Command_Lines
  imports Cli_Parser
begin

text \<open>
  What the command-line parser of \<open>Cli_Parser\<close> returns. \<open>wellFormed\<close> says which commands have a
  meaning; every option loop keeps an invariant that gives it (\<open>optionLoop_invariant\<close>), and
  \<open>commandLine\<close> writes a command as tokens that parse back to it, so the well-formed commands are
  exactly the results of the parser. The other lemmas follow single tokens through the loops
  (a confirmation, \<open>--json\<close>) and the failures.
\<close>

section \<open>Decimal numerals\<close>

abbreviation decimalValue :: "js_string \<Rightarrow> nat" where
  "decimalValue s \<equiv> foldl (\<lambda>n c. 10 * n + digitOf c) 0 s"

lemma positiveInteger_number:
  assumes "positiveIntegerPattern s"
  shows "numberOf s = Finite (of_nat (decimalValue s))" "0 < decimalValue s"
proof -
  from assms obtain c r where s: "s = c # r" and c: "49 \<le> c" "c \<le> 57" and r: "list_all isDigit r"
    by (cases s) (auto simp: positiveIntegerPattern_def)
  then have digits: "list_all isDigit s" by (simp add: isDigit_def)
  then have noSpace: "\<not> isWhitespace x" if "x \<in> set s" for x
    using that by (auto simp: list_all_iff isDigit_def isWhitespace_def)
  have "trim s = s"
    using noSpace [of "hd s"] noSpace [of "last s"] s by (intro trim_fixed) auto
  moreover have "takeWhile isDigit s = s" "dropWhile isDigit s = []"
    using digits by (auto simp: list_all_iff takeWhile_eq_all_conv dropWhile_eq_Nil_conv)
  moreover have "s \<noteq> js ''Infinity''" "\<not> startsWith s (js ''0x'')" "\<not> startsWith s (js ''0X'')"
    "\<not> startsWith s (js ''0o'')" "\<not> startsWith s (js ''0O'')" "\<not> startsWith s (js ''0b'')" "\<not> startsWith s (js ''0B'')"
    using s c by (auto simp: startsWith_def js_def)
  moreover have "splitSign s = (1, s)" using s c by (simp add: splitSign_def)
  ultimately show "numberOf s = Finite (of_nat (decimalValue s))"
    using s by (simp add: numberOf_def decimalNumber_def exponentValue_def)
  have grow: "a \<le> foldl (\<lambda>n c. 10 * n + digitOf c) a xs" for a and xs :: js_string
  proof (induction xs arbitrary: a)
    case (Cons x xs)
    from Cons.IH [of "10 * a + digitOf x"] show ?case by simp
  qed simp
  have "0 < digitOf c" using c by (simp add: digitOf_def isDigit_def)
  with grow [of "digitOf c" r] show "0 < decimalValue s" by (simp add: s)
qed

lemma natText_digits: "list_all isDigit (natText n) \<and> natText n \<noteq> [] \<and> decimalValue (natText n) = n"
proof (induction n rule: natText.induct)
  case (1 n)
  show ?case
  proof (cases "n < 10")
    case True
    then show ?thesis by (subst (1 2 3) natText.simps) (simp add: isDigit_def digitOf_def)
  next
    case False
    with 1 have "list_all isDigit (natText (n div 10))" "decimalValue (natText (n div 10)) = n div 10" by simp_all
    moreover have "n mod 10 < 10" by simp
    then have "n mod 10 \<le> 9" by linarith
    then have "isDigit (48 + n mod 10)" "digitOf (48 + n mod 10) = n mod 10"
      by (simp_all add: digitOf_def isDigit_def)
    ultimately show ?thesis using False
      by (subst (1 2 3) natText.simps) simp
  qed
qed

lemma natText_head: "0 < n \<Longrightarrow> 49 \<le> hd (natText n) \<and> hd (natText n) \<le> 57"
proof (induction n rule: natText.induct)
  case (1 n)
  show ?case
  proof (cases "n < 10")
    case True
    with 1 show ?thesis by (subst (1 2) natText.simps) simp
  next
    case False
    with 1 have "49 \<le> hd (natText (n div 10)) \<and> hd (natText (n div 10)) \<le> 57" by simp
    with False natText_digits [of "n div 10"] show ?thesis by (subst (1 2) natText.simps) simp
  qed
qed

lemma natText_pattern: "0 < n \<Longrightarrow> positiveIntegerPattern (natText n)"
  using natText_head [of n] natText_digits [of n]
  by (cases "natText n") (simp_all add: positiveIntegerPattern_def)

lemma natText_number: "0 < n \<Longrightarrow> numberOf (natText n) = Finite (of_nat n)"
  using positiveInteger_number(1) [OF natText_pattern] natText_digits by simp

lemma pageLimit_positive: "pageLimitPattern s \<Longrightarrow> positiveIntegerPattern s"
  by (auto simp: pageLimitPattern_def positiveIntegerPattern_def isDigit_def split: list.splits)

lemma pageLimit_bound: "pageLimitPattern s \<Longrightarrow> decimalValue s \<le> 100"
  by (auto simp: pageLimitPattern_def digitOf_def isDigit_def split: list.splits)

lemma natText_pageLimit: "1 \<le> n \<Longrightarrow> n \<le> 100 \<Longrightarrow> pageLimitPattern (natText n)"
proof -
  have "\<forall>n \<in> set [1..<101]. pageLimitPattern (natText n)" by code_simp
  then show "1 \<le> n \<Longrightarrow> n \<le> 100 \<Longrightarrow> ?thesis" by simp
qed

section \<open>The commands a command line can mean\<close>

fun pageLimitOk :: "js_number option \<Rightarrow> bool" where
  "pageLimitOk None = True"
| "pageLimitOk (Some (Finite r)) = (of_int \<lfloor>r\<rfloor> = r \<and> 1 \<le> r \<and> r \<le> 100)"
| "pageLimitOk (Some _) = False"

fun revisionOk :: "js_number option \<Rightarrow> bool" where
  "revisionOk None = True"
| "revisionOk (Some (Finite r)) = (isSafeInteger (Finite r) \<and> 0 < r)"
| "revisionOk (Some _) = False"

definition cursorOk :: "page_command \<Rightarrow> js_string option \<Rightarrow> bool" where
  "cursorOk command cursor =
     (case cursor of
        None \<Rightarrow> True
      | Some c \<Rightarrow>
          (case command of Page_list \<Rightarrow> selectedSessionListCursorSchema c = Some c
           | Page_devices \<Rightarrow> selectedDeviceListCursorSchema c = Some c))"

fun wellFormed :: "parsed_command \<Rightarrow> bool" where
  "wellFormed (C_list limit cursor json) = (pageLimitOk limit \<and> cursorOk Page_list cursor)"
| "wellFormed (C_devices limit cursor json) = (pageLimitOk limit \<and> cursorOk Page_devices cursor)"
| "wellFormed (C_discover limit json) = pageLimitOk limit"
| "wellFormed (C_adopt thread name confirmHandoff json) =
     (parseCodexThreadId thread = Inr thread \<and> parseSessionName name = Inr name \<and> confirmHandoff)"
| "wellFormed (C_unmanage session confirm json) = (parseSessionId session = Inr session \<and> confirm)"
| "wellFormed (C_revoke deviceId confirm json) = (selectedDeviceIdSchema deviceId = Some deviceId \<and> confirm)"
| "wellFormed (C_model session model effort revision json) =
     (\<not> isFlag session \<and> revisionOk revision \<and>
      (case model of None \<Rightarrow> effort = None \<and> revision = None | Some m \<Rightarrow> \<not> isFlag m))"
| "wellFormed (C_goal session action objective revision json) =
     (\<not> isFlag session \<and> (case revision of None \<Rightarrow> True | Some r \<Rightarrow> length r = 64 \<and> list_all isHexChar r) \<and>
      (case action of
         None \<Rightarrow> objective = None \<and> revision = None
       | Some a \<Rightarrow> if a = Goal_set then objective \<noteq> None else objective = None \<and> revision \<noteq> None))"
| "wellFormed (C_plan session action revision json) =
     (\<not> isFlag session \<and> revisionOk revision \<and> (action \<noteq> None \<or> revision = None))"
| "wellFormed (C_compact session confirm json) = (\<not> isFlag session)"
| "wellFormed (C_approvals session request decision confirm json) =
     (\<not> isFlag session \<and>
      (case request of
         None \<Rightarrow> decision = None \<and> \<not> confirm
       | Some r \<Rightarrow> \<not> isFlag r \<and> decision \<noteq> None \<and> confirm))"
| "wellFormed (C_interrupt session turn confirm json) = (\<not> isFlag session \<and> \<not> isFlag turn \<and> confirm)"
| "wellFormed (C_legacy action confirmed json) = (confirmed = (action = Legacy_reset))"
| "wellFormed _ = True"

lemma parsePageLimit_Inr:
  assumes "parsePageLimit s command = Inr n"
  shows "pageLimitOk (Some n)"
proof -
  from assms have s: "pageLimitPattern s" and n: "n = numberOf s"
    by (auto simp: parsePageLimit_def split: if_splits)
  note p = positiveInteger_number [OF pageLimit_positive [OF s]]
  have "(of_nat (decimalValue s) :: rat) \<le> of_nat 100" by (subst of_nat_le_iff) (rule pageLimit_bound [OF s])
  moreover have "(of_nat 1 :: rat) \<le> of_nat (decimalValue s)" using p(2) by (subst of_nat_le_iff) simp
  ultimately show ?thesis by (simp add: n p(1))
qed

lemma revision_Inr:
  assumes "positiveIntegerPattern s" "isSafeInteger (numberOf s)"
  shows "revisionOk (Some (numberOf s))"
  using positiveInteger_number [OF assms(1)] assms(2) by simp

lemma parsePositiveRevision_Inr: "parsePositiveRevision s = Inr n \<Longrightarrow> revisionOk (Some n)"
  by (auto simp: parsePositiveRevision_def Let_def revision_Inr split: if_splits)

lemma parsePlanRevision_Inr: "parsePlanRevision s = Inr n \<Longrightarrow> revisionOk (Some n)"
  by (auto simp: parsePlanRevision_def Let_def revision_Inr split: if_splits)

lemma parsePageCursor_Inr: "parsePageCursor s command = Inr c \<Longrightarrow> cursorOk command (Some c)"
  by (auto simp: parsePageCursor_def cursorOk_def selectedSessionListCursorSchema_def
      selectedDeviceListCursorSchema_def split: option.splits page_command.splits if_splits sum.splits)

section \<open>What the loops return\<close>

definition pageOptionsOk :: "page_command \<Rightarrow> page_options \<Rightarrow> bool" where
  "pageOptionsOk command st \<longleftrightarrow> pageLimitOk (pageLimit st) \<and> cursorOk command (pageCursor st)"

lemma pageOption_ok: "pageOption command token rest st = Inr (skip, st') \<Longrightarrow> pageOptionsOk command st \<Longrightarrow> pageOptionsOk command st'"
  by (auto simp: pageOptionsOk_def pageOption_def simp del: pageLimitOk.simps
      intro: parsePageLimit_Inr parsePageCursor_Inr split: if_splits)

lemma discoverOption_ok: "discoverOption token rest st = Inr (skip, st') \<Longrightarrow> pageLimitOk (fst st) \<Longrightarrow> pageLimitOk (fst st')"
  by (cases st) (auto simp: discoverOption_def simp del: pageLimitOk.simps intro: parsePageLimit_Inr split: if_splits)

definition modelOptionsOk :: "model_options \<Rightarrow> bool" where
  "modelOptionsOk st \<longleftrightarrow>
     revisionOk (modelRevision st) \<and> (\<forall>m. modelId st = Some m \<longrightarrow> \<not> isFlag m) \<and>
     (modelEffort st \<noteq> None \<longrightarrow> effortSeen st) \<and> (modelRevision st \<noteq> None \<longrightarrow> modelRevisionSeen st)"

lemma modelOption_ok: "modelOption token rest st = Inr (skip, st') \<Longrightarrow> modelOptionsOk st \<Longrightarrow> modelOptionsOk st'"
  by (auto simp: modelOptionsOk_def modelOption_def simp del: revisionOk.simps intro: parsePositiveRevision_Inr split: if_splits)

definition goalOptionsOk :: "goal_options \<Rightarrow> bool" where
  "goalOptionsOk st \<longleftrightarrow>
     (\<forall>r. goalRevision st = Some r \<longrightarrow> length r = 64 \<and> list_all isHexChar r) \<and>
     (goalObjective st \<noteq> None \<longleftrightarrow> objectiveSeen st) \<and> (goalRevision st \<noteq> None \<longleftrightarrow> goalRevisionSeen st)"

lemma goalOption_ok: "goalOption token rest st = Inr (skip, st') \<Longrightarrow> goalOptionsOk st \<Longrightarrow> goalOptionsOk st'"
  by (auto simp: goalOptionsOk_def goalOption_def parseGoalRevision_def split: if_splits)

lemma planOption_ok: "planOption token rest st = Inr (skip, st') \<Longrightarrow> revisionOk (fst st) \<Longrightarrow> revisionOk (fst st')"
  by (cases st) (auto simp: planOption_def simp del: revisionOk.simps intro: parsePlanRevision_Inr split: if_splits)

lemma option_invariant:
  assumes "optionLoop body args st = Inr st'" "keep st"
    and "\<And>token rest st skip st'. body token rest st = Inr (skip, st') \<Longrightarrow> keep st \<Longrightarrow> keep st'"
  shows "keep st'"
  by (rule optionLoop_invariant [of body UNIV keep, OF _ assms(1,2)]) (auto intro: assms(3))

lemma pageLoop_ok:
  "optionLoop (pageOption command) args st = Inr st' \<Longrightarrow> pageOptionsOk command st \<Longrightarrow> pageOptionsOk command st'"
  by (erule option_invariant) (simp_all add: pageOption_ok)

lemma discoverLoop_ok:
  "optionLoop discoverOption args st = Inr st' \<Longrightarrow> pageLimitOk (fst st) \<Longrightarrow> pageLimitOk (fst st')"
  by (erule option_invariant) (simp_all add: discoverOption_ok)

lemma modelLoop_ok: "optionLoop modelOption args st = Inr st' \<Longrightarrow> modelOptionsOk st \<Longrightarrow> modelOptionsOk st'"
  by (erule option_invariant) (simp_all add: modelOption_ok)

lemma goalLoop_ok: "optionLoop goalOption args st = Inr st' \<Longrightarrow> goalOptionsOk st \<Longrightarrow> goalOptionsOk st'"
  by (erule option_invariant) (simp_all add: goalOption_ok)

lemma planLoop_ok:
  "optionLoop planOption args st = Inr st' \<Longrightarrow> revisionOk (fst st) \<Longrightarrow> revisionOk (fst st')"
  by (erule option_invariant) (simp_all add: planOption_ok)

lemmas loop_ok = pageLoop_ok discoverLoop_ok modelLoop_ok goalLoop_ok planLoop_ok

lemma start_revision [simp]: "revisionOk None" "pageLimitOk None" "cursorOk command None"
  by (simp_all add: cursorOk_def)

section \<open>Every accepted command is well formed\<close>

lemma pagination_ok:
  "parsePaginationCommand command args json = Inr c \<Longrightarrow> wellFormed c"
  by (auto simp: parsePaginationCommand_def pageOptionsOk_def dest!: loop_ok split: page_command.splits)

lemma discovery_ok: "parseDiscoveryCommand args json = Inr c \<Longrightarrow> wellFormed c"
  by (auto simp: parseDiscoveryCommand_def dest!: loop_ok)

lemma thread_schema: "brandedStringSchema parseCodexThreadId v = Some t \<Longrightarrow> parseCodexThreadId t = Inr t"
  unfolding brandedStringSchema_iff parseCodexThreadId_def using codex_id.stable by blast
lemma name_schema: "brandedStringSchema parseSessionName v = Some t \<Longrightarrow> parseSessionName t = Inr t"
  unfolding brandedStringSchema_iff using session_name.stable by blast
lemma session_schema: "brandedStringSchema parseSessionId v = Some t \<Longrightarrow> parseSessionId t = Inr t"
  unfolding brandedStringSchema_iff using session_id.stable by blast

lemma adopt_ok:
  assumes "parseAdoptCommand args json = Inr c"
  shows "wellFormed c"
proof -
  from assms obtain thread name v where "c = C_adopt thread name True json"
    "brandedStringSchema parseCodexThreadId (firstArg args) = Some thread"
    "brandedStringSchema parseSessionName v = Some name"
    unfolding parseAdoptCommand_def by (simp split: option.splits prod.splits if_splits) blast
  then show ?thesis by (simp add: thread_schema name_schema)
qed

lemma unmanage_ok: "parseUnmanageCommand args json = Inr c \<Longrightarrow> wellFormed c"
  by (auto simp: parseUnmanageCommand_def dest: session_schema split: option.splits if_splits)

lemma revoke_ok: "parseRevokeCommand args json = Inr c \<Longrightarrow> wellFormed c"
  by (auto simp: parseRevokeCommand_def selectedDeviceIdSchema_def split: option.splits if_splits)

lemma service_ok: "parseServiceCommand args json = Inr c \<Longrightarrow> wellFormed c"
  by (auto simp: parseServiceCommand_def split: option.splits)

lemma model_ok: "parseModelOptions args json = Inr c \<Longrightarrow> wellFormed c"
  by (cases args) (auto simp: parseModelOptions_def noSession_def firstArg_def modelOptionsOk_def
      dest!: loop_ok split: option.splits if_splits)

lemma goal_ok: "parseGoalOptions args json = Inr c \<Longrightarrow> wellFormed c"
  by (cases args) (auto simp: parseGoalOptions_def noSession_def firstArg_def goalOptionsOk_def
      dest!: loop_ok split: option.splits if_splits list.splits)

lemma plan_ok: "parsePlanOptions args json = Inr c \<Longrightarrow> wellFormed c"
  by (cases args) (auto simp: parsePlanOptions_def noSession_def firstArg_def
      dest!: loop_ok split: option.splits if_splits list.splits)

lemma compact_ok: "parseCompactOptions args json = Inr c \<Longrightarrow> wellFormed c"
  by (cases args) (auto simp: parseCompactOptions_def noSession_def firstArg_def split: if_splits)

lemma approvals_ok: "parseApprovalsOptions args json = Inr c \<Longrightarrow> wellFormed c"
  by (cases args) (auto simp: parseApprovalsOptions_def noSession_def firstArg_def
      split: if_splits list.splits option.splits)

lemma interrupt_ok: "parseInterruptOptions args json = Inr c \<Longrightarrow> wellFormed c"
  by (auto simp: parseInterruptOptions_def noSession_def firstArg_def Let_def
      split: if_splits list.splits option.splits)

lemma pair_ok: "parsePairOptions args json = Inr c \<Longrightarrow> wellFormed c"
  by (auto simp: parsePairOptions_def split: if_splits)

lemma legacy_ok: "parseLegacyCommand args json = Inr c \<Longrightarrow> wellFormed c"
  by (auto simp: parseLegacyCommand_def split: if_splits)

lemma remote_ok: "parseRemoteCommand args json = Inr c \<Longrightarrow> wellFormed c"
  by (auto simp: parseRemoteCommand_def split: list.splits option.splits)

lemmas command_ok = pagination_ok discovery_ok adopt_ok unmanage_ok revoke_ok service_ok model_ok goal_ok
  plan_ok compact_ok approvals_ok interrupt_ok pair_ok legacy_ok remote_ok

lemma dispatch_ok: "dispatch command rest json = Inr c \<Longrightarrow> wellFormed c"
  unfolding dispatch_defs
  by (auto dest: command_ok split: if_splits)

section \<open>A command line for every well-formed command\<close>

text \<open>An option with its value in one token, or in two when the value is empty.\<close>

definition optionTokens :: "string \<Rightarrow> js_string option \<Rightarrow> js_string list" where
  "optionTokens name candidate =
     (case candidate of
        None \<Rightarrow> []
      | Some v \<Rightarrow> if v = [] then [js name, []] else [js (name @ ''='') @ v])"

definition jsonTokens :: "bool \<Rightarrow> js_string list" where
  "jsonTokens json = (if json then [js ''--json''] else [])"

fun numberText :: "js_number option \<Rightarrow> js_string option" where
  "numberText (Some (Finite r)) = Some (natText (nat \<lfloor>r\<rfloor>))"
| "numberText _ = None"

fun serviceText :: "service_action \<Rightarrow> js_string" where
  "serviceText Service_install = js ''install''"
| "serviceText Service_upgrade = js ''upgrade''"
| "serviceText Service_status = js ''status''"
| "serviceText Service_start = js ''start''"
| "serviceText Service_stop = js ''stop''"
| "serviceText Service_restart = js ''restart''"
| "serviceText Service_uninstall = js ''uninstall''"

fun goalText :: "goal_action \<Rightarrow> js_string" where
  "goalText Goal_clear = js ''clear''"
| "goalText Goal_complete = js ''complete''"
| "goalText Goal_pause = js ''pause''"
| "goalText Goal_resume = js ''resume''"
| "goalText Goal_set = js ''set''"

fun commandTokens :: "parsed_command \<Rightarrow> js_string list" where
  "commandTokens C_help = [js ''help'']"
| "commandTokens C_version = [js ''version'']"
| "commandTokens C_serve = [js ''serve'']"
| "commandTokens (C_status _) = [js ''status'']"
| "commandTokens (C_list limit cursor _) =
     js ''list'' # optionTokens ''--limit'' (numberText limit) @ optionTokens ''--cursor'' cursor"
| "commandTokens (C_devices limit cursor _) =
     js ''devices'' # optionTokens ''--limit'' (numberText limit) @ optionTokens ''--cursor'' cursor"
| "commandTokens (C_discover limit _) = js ''discover'' # optionTokens ''--limit'' (numberText limit)"
| "commandTokens (C_adopt thread name _ _) =
     [js ''adopt'', thread] @ optionTokens ''--name'' (Some name) @ [js ''--confirm-handoff'']"
| "commandTokens (C_unmanage session _ _) = [js ''unmanage'', session, js ''--confirm'']"
| "commandTokens (C_revoke deviceId _ _) = [js ''revoke'', deviceId, js ''--confirm'']"
| "commandTokens (C_service action _) = [js ''service'', serviceText action]"
| "commandTokens (C_start name cwd _) =
     js ''start'' # optionTokens ''--name'' (Some name) @ optionTokens ''--cwd'' (Some cwd)"
| "commandTokens (C_archive session _) = [js ''archive'', session]"
| "commandTokens (C_send session words _) = [js ''send'', session, words]"
| "commandTokens (C_resume session) = [js ''resume'', session]"
| "commandTokens (C_model session model effort revision _) =
     [js ''model'', session] @ (case model of None \<Rightarrow> [] | Some m \<Rightarrow> [m]) @
     optionTokens ''--effort'' effort @ optionTokens ''--expected-revision'' (numberText revision)"
| "commandTokens (C_goal session action objective revision _) =
     [js ''goal'', session] @ (case action of None \<Rightarrow> [] | Some a \<Rightarrow> [goalText a]) @
     optionTokens ''--objective'' objective @ optionTokens ''--expected-revision'' revision"
| "commandTokens (C_plan session action revision _) =
     [js ''plan'', session] @
     (case action of None \<Rightarrow> [] | Some Plan_enter \<Rightarrow> [js ''enter''] | Some Plan_exit \<Rightarrow> [js ''exit'']) @
     optionTokens ''--expected-revision'' (numberText revision)"
| "commandTokens (C_usage session _) = [js ''usage'', session]"
| "commandTokens (C_compact session confirm _) =
     [js ''compact'', session] @ (if confirm then [js ''--confirm''] else [])"
| "commandTokens (C_skills session _) = [js ''skills'', session]"
| "commandTokens (C_approvals session request decision _ _) =
     [js ''approvals'', session] @
     (case (request, decision) of
        (Some r, Some d) \<Rightarrow> [r, (case d of Approve \<Rightarrow> js ''approve'' | Deny \<Rightarrow> js ''deny''), js ''--confirm'']
      | _ \<Rightarrow> [])"
| "commandTokens (C_interrupt session turn _ _) = [js ''interrupt'', session, turn, js ''--confirm'']"
| "commandTokens (C_pair label permission) =
     js ''pair'' # optionTokens ''--label'' label @ (case permission of Pair_read \<Rightarrow> [js ''--read-only''] | Pair_write \<Rightarrow> [])"
| "commandTokens (C_lock _) = [js ''lock'']"
| "commandTokens (C_unlock _) = [js ''unlock'']"
| "commandTokens (C_legacy action _ _) =
     js ''legacy'' # (case action of Legacy_status \<Rightarrow> [js ''status''] | Legacy_reset \<Rightarrow> [js ''reset'', js ''--confirm''])"
| "commandTokens (C_remote action _) =
     [js ''remote'', (case action of Remote_disable \<Rightarrow> js ''disable'' | Remote_enable \<Rightarrow> js ''enable'' | Remote_status \<Rightarrow> js ''status'')]"

fun commandJson :: "parsed_command \<Rightarrow> bool" where
  "commandJson (C_status json) = json"
| "commandJson (C_list _ _ json) = json"
| "commandJson (C_devices _ _ json) = json"
| "commandJson (C_discover _ json) = json"
| "commandJson (C_adopt _ _ _ json) = json"
| "commandJson (C_unmanage _ _ json) = json"
| "commandJson (C_revoke _ _ json) = json"
| "commandJson (C_service _ json) = json"
| "commandJson (C_start _ _ json) = json"
| "commandJson (C_archive _ json) = json"
| "commandJson (C_send _ _ json) = json"
| "commandJson (C_model _ _ _ _ json) = json"
| "commandJson (C_goal _ _ _ _ json) = json"
| "commandJson (C_plan _ _ _ json) = json"
| "commandJson (C_usage _ json) = json"
| "commandJson (C_compact _ _ json) = json"
| "commandJson (C_skills _ json) = json"
| "commandJson (C_approvals _ _ _ _ json) = json"
| "commandJson (C_interrupt _ _ _ json) = json"
| "commandJson (C_lock json) = json"
| "commandJson (C_unlock json) = json"
| "commandJson (C_legacy _ _ json) = json"
| "commandJson (C_remote _ json) = json"
| "commandJson _ = False"

definition flagTokens :: "config_flags \<Rightarrow> js_string list" where
  "flagTokens flags =
     optionTokens ''--api-url'' (apiUrl flags) @ optionTokens ''--port'' (port flags) @
     optionTokens ''--config'' (configPath flags) @ optionTokens ''--state-dir'' (stateDir flags) @
     optionTokens ''--database'' (databasePath flags)"

text \<open>Options first, then \<open>--\<close>, so that nothing of the command is taken for a global option.\<close>

definition commandLine :: "parsed_args \<Rightarrow> js_string list" where
  "commandLine p =
     flagTokens (parsedFlags p) @ jsonTokens (commandJson (parsedCommand p)) @ [js ''--''] @
     commandTokens (parsedCommand p)"

subsection \<open>The global part\<close>

lemma inline_flag:
  assumes "(js name, key) \<in> set configOptions"
  shows "map_of configOptions (js (name @ ''='') @ v) = None"
    "find (\<lambda>option. isInline (js (name @ ''='') @ v) (fst option)) configOptions = Some (js name, key)"
    "js (name @ ''='') @ v \<notin> set [js ''--'', js ''--help'', js ''-h'', js ''--version'', js ''-v'', js ''--json'']"
    "map_of configOptions (js name) = Some key" "name \<noteq> ''--''"
    "readInlineOptionValue (js (name @ ''='') @ v) (js name) =
       (if v = [] then Inl (usageFailure (js name @ js '' requires a value.'') (js name)) else Inr v)"
proof -
  from assms have "(name, key) \<in> set [(''--api-url'', ApiUrl), (''--port'', Port), (''--config'', ConfigPath),
      (''--state-dir'', StateDir), (''--database'', DatabasePath), (''--database-path'', DatabasePath)]"
    by (auto simp: configOptions_def)
  then show "map_of configOptions (js (name @ ''='') @ v) = None"
    "find (\<lambda>option. isInline (js (name @ ''='') @ v) (fst option)) configOptions = Some (js name, key)"
    "js (name @ ''='') @ v \<notin> set [js ''--'', js ''--help'', js ''-h'', js ''--version'', js ''-v'', js ''--json'']"
    "map_of configOptions (js name) = Some key" "name \<noteq> ''--''"
    "readInlineOptionValue (js (name @ ''='') @ v) (js name) =
       (if v = [] then Inl (usageFailure (js name @ js '' requires a value.'') (js name)) else Inr v)"
    unfolding set_simps insert_iff empty_iff prod.inject configOptions_def
    by (elim disjE conjE; simp add: js_append_eq_iff token_facts Let_def)+
qed

lemma scan_flag:
  assumes "(js name, key) \<in> set configOptions" "positionals st = []" "key \<notin> set (seenConfigFlags st)"
  shows "scanArgs (optionTokens name v @ rest) st =
    scanArgs rest (case v of None \<Rightarrow> st
      | Some v \<Rightarrow> st\<lparr> configFlags := assignFlag key v (configFlags st), seenConfigFlags := key # seenConfigFlags st \<rparr>)"
proof (cases v)
  case (Some w)
  note facts = inline_flag [OF assms(1)]
  show ?thesis
  proof (cases "w = []")
    case True
    have "\<not> startsWith [] (js ''--'')" by (simp add: startsWith_def)
    with True Some assms(2,3) show ?thesis
      by (simp add: optionTokens_def facts(4,5) requireGlobalOptionPosition_def readOptionValue_def setConfigFlag_def)
  next
    case False
    with Some assms(2,3) facts(3) [of w] show ?thesis
      by (simp add: optionTokens_def facts(1,2,6) scanToken_def requireGlobalOptionPosition_def setConfigFlag_def)
  qed
qed (simp add: optionTokens_def)

lemma scan_json:
  "jsonSeen st = False \<Longrightarrow> scanArgs (jsonTokens json @ rest) st =
     scanArgs rest (if json then st\<lparr> scanJson := True, jsonSeen := True \<rparr> else st)"
  by (simp add: jsonTokens_def scanToken_def configOptions_def)

lemma scan_commandLine:
  "\<exists>seen. scanArgs (flagTokens flags @ jsonTokens json @ [js ''--''] @ ws) initialScan =
     Inr \<lparr> configFlags = flags, seenConfigFlags = seen,
           positionals = ws, scanJson = json, jsonSeen = json, metaCommand = None \<rparr>"
proof -
  have keys: "(js ''--api-url'', ApiUrl) \<in> set configOptions" "(js ''--port'', Port) \<in> set configOptions"
    "(js ''--config'', ConfigPath) \<in> set configOptions" "(js ''--state-dir'', StateDir) \<in> set configOptions"
    "(js ''--database'', DatabasePath) \<in> set configOptions" by (simp_all add: configOptions_def)
  obtain a b c d e where flags: "flags = \<lparr> apiUrl = a, port = b, configPath = c, stateDir = d, databasePath = e \<rparr>"
    by (cases flags)
  show ?thesis
    by (cases a; cases b; cases c; cases d; cases e)
      (simp_all add: flags flagTokens_def scan_flag [OF keys(1)] scan_flag [OF keys(2)] scan_flag [OF keys(3)]
        scan_flag [OF keys(4)] scan_flag [OF keys(5)] scan_json initialScan_def terminator_def)
qed

subsection \<open>The loops\<close>

lemma optionLoop_option:
  assumes "\<And>rest. v = [] \<Longrightarrow> body (js name) ([] # rest) st = Inr (True, st')"
    and "\<And>rest. v \<noteq> [] \<Longrightarrow> body (js (name @ ''='') @ v) rest st = Inr (False, st')"
  shows "optionLoop body (optionTokens name (Some v) @ rest) st = optionLoop body rest st'"
  using assms by (simp add: optionTokens_def)

lemma optionTokens_None [simp]: "optionTokens name None = []"
  by (simp add: optionTokens_def)

lemma not_dashes [simp]: "\<not> startsWith [] (js ''--'')"
  by (simp add: startsWith_def)

lemma empty_value [simp]: "readOptionValue ([] # rest) name = Inr []"
  by (simp add: readOptionValue_def)

lemmas option_facts = js_append_eq_iff token_facts Let_def takeOne_def takeTwo_def

lemma page_tokens:
  assumes "limitSeen st = False" "parsePageLimit v (pageName command) = Inr n"
  shows "optionLoop (pageOption command) (optionTokens ''--limit'' (Some v) @ rest) st =
    optionLoop (pageOption command) rest (st\<lparr> pageLimit := Some n, limitSeen := True \<rparr>)"
proof (rule optionLoop_option)
  from assms(2) have "v \<noteq> []" by (auto simp: parsePageLimit_def pageLimitPattern_def)
  then show "pageOption command (js ''--limit'') ([] # rest') st = Inr (True, st\<lparr> pageLimit := Some n, limitSeen := True \<rparr>)"
    if "v = []" for rest' using that by simp
  show "pageOption command (js (''--limit'' @ ''='') @ v) rest' st =
      Inr (False, st\<lparr> pageLimit := Some n, limitSeen := True \<rparr>)" if "v \<noteq> []" for rest'
    using assms that by (simp add: pageOption_def option_facts)
qed

lemma start_tokens:
  "optionLoop startOption (optionTokens ''--name'' (Some n) @ optionTokens ''--cwd'' (Some c))
     \<lparr> startName = None, startCwd = None, startJson = False, nameSeen = False, cwdSeen = False \<rparr> =
   Inr \<lparr> startName = Some n, startCwd = Some c, startJson = False, nameSeen = True, cwdSeen = True \<rparr>"
proof -
  have 1: "optionLoop startOption (optionTokens ''--name'' (Some n) @ rest) st =
      optionLoop startOption rest (st\<lparr> startName := Some n, nameSeen := True \<rparr>)" if "\<not> nameSeen st" for rest st
    using that by (intro optionLoop_option) (simp_all add: startOption_def option_facts)
  have 2: "optionLoop startOption (optionTokens ''--cwd'' (Some c) @ rest) st =
      optionLoop startOption rest (st\<lparr> startCwd := Some c, cwdSeen := True \<rparr>)" if "\<not> cwdSeen st" for rest st
    using that by (intro optionLoop_option) (simp_all add: startOption_def option_facts)
  from 2 [of _ "[]"] show ?thesis by (simp add: 1)
qed


lemma cursor_tokens:
  assumes "cursorSeen st = False" "parsePageCursor v command = Inr c" "v \<noteq> []"
  shows "optionLoop (pageOption command) (optionTokens ''--cursor'' (Some v) @ rest) st =
    optionLoop (pageOption command) rest (st\<lparr> pageCursor := Some c, cursorSeen := True \<rparr>)"
  by (rule optionLoop_option) (use assms in \<open>simp_all add: pageOption_def option_facts\<close>)

lemma page_number:
  assumes "pageLimitOk (Some n)"
  obtains v where "numberText (Some n) = Some v" "pageLimitPattern v" "numberOf v = n" "v \<noteq> []"
proof -
  from assms obtain r where r: "n = Finite r" "of_int \<lfloor>r\<rfloor> = r" "1 \<le> r" "r \<le> 100" by (cases n) auto
  let ?k = "nat \<lfloor>r\<rfloor>"
  from r have k: "1 \<le> \<lfloor>r\<rfloor>" "\<lfloor>r\<rfloor> \<le> 100" by linarith+
  then have bound: "1 \<le> ?k" "?k \<le> 100" by linarith+
  have "(of_nat ?k :: rat) = of_int \<lfloor>r\<rfloor>" using k by simp
  then have "numberOf (natText ?k) = n" using natText_number [of ?k] bound r by simp
  with r that [of "natText ?k"] natText_pageLimit [OF bound] natText_digits [of ?k] show thesis by simp
qed

lemma revision_number:
  assumes "revisionOk (Some n)"
  obtains v where "numberText (Some n) = Some v" "positiveIntegerPattern v" "numberOf v = n" "v \<noteq> []"
    "isSafeInteger n"
proof -
  from assms obtain r where r: "n = Finite r" "isSafeInteger n" "0 < r" by (cases n) auto
  then obtain k where k: "r = of_int k" by (auto simp: isSafeInteger_iff)
  with r have pos: "0 < k" by simp
  have "(of_nat (nat k) :: rat) = of_int k" using pos by simp
  then have "numberOf (natText (nat k)) = n" using natText_number [of "nat k"] pos r k by simp
  with r k that [of "natText (nat k)"] natText_pattern [of "nat k"] natText_digits [of "nat k"] pos
  show thesis by simp
qed

lemma page_complete:
  assumes "pageLimitOk limit" "cursorOk command cursor"
  shows "parsePaginationCommand command (optionTokens ''--limit'' (numberText limit) @ optionTokens ''--cursor'' cursor) json =
    Inr ((case command of Page_list \<Rightarrow> C_list | Page_devices \<Rightarrow> C_devices) limit cursor json)"
proof -
  have cursor: "optionLoop (pageOption command) (optionTokens ''--cursor'' cursor) st =
      Inr (case cursor of None \<Rightarrow> st | Some c \<Rightarrow> st\<lparr> pageCursor := Some c, cursorSeen := True \<rparr>)"
    if "cursorSeen st = False" for st
  proof (cases cursor)
    case (Some c)
    from assms(2) Some have "parsePageCursor c command = Inr c" "c \<noteq> []"
      by (auto simp: cursorOk_def parsePageCursor_def selectedSessionListCursorSchema_def
          selectedDeviceListCursorSchema_def split: page_command.splits if_splits)
    from cursor_tokens [OF that this, of "[]"] Some show ?thesis by simp
  qed simp
  show ?thesis
  proof (cases limit)
    case None
    then show ?thesis by (simp add: parsePaginationCommand_def cursor split: option.split)
  next
    case (Some n)
    from assms(1) page_number [of n] obtain v where v: "numberText limit = Some v" "pageLimitPattern v"
      "numberOf v = n" "v \<noteq> []" unfolding Some by blast
    then have "parsePageLimit v (pageName command) = Inr n" by (simp add: parsePageLimit_def)
    then show ?thesis using v(1) Some
      by (simp add: parsePaginationCommand_def page_tokens cursor split: option.split)
  qed
qed

lemma discover_complete:
  assumes "pageLimitOk limit"
  shows "parseDiscoveryCommand (optionTokens ''--limit'' (numberText limit)) json = Inr (C_discover limit json)"
proof (cases limit)
  case None
  then show ?thesis by (simp add: parseDiscoveryCommand_def)
next
  case (Some n)
  from assms page_number [of n] obtain v where v: "numberText limit = Some v" "pageLimitPattern v"
    "numberOf v = n" "v \<noteq> []" unfolding Some by blast
  have "optionLoop discoverOption (optionTokens ''--limit'' (Some v) @ []) (None, False) =
      optionLoop discoverOption [] (Some n, True)"
    by (rule optionLoop_option) (use v in \<open>simp_all add: discoverOption_def option_facts parsePageLimit_def\<close>)
  then show ?thesis using v(1) Some by (simp add: parseDiscoveryCommand_def)
qed

lemma adopt_complete:
  assumes "parseCodexThreadId thread = Inr thread" "parseSessionName name = Inr name"
  shows "parseAdoptCommand (thread # optionTokens ''--name'' (Some name) @ [js ''--confirm-handoff'']) json =
    Inr (C_adopt thread name True json)"
proof -
  have "name \<noteq> []" using assms(2) by (auto simp: parseSessionName_def trim_def)
  then have "optionLoop adoptOption (optionTokens ''--name'' (Some name) @ [js ''--confirm-handoff'']) (None, False) =
      optionLoop adoptOption [js ''--confirm-handoff''] (Some name, False)"
    by (intro optionLoop_option) (simp_all add: adoptOption_def option_facts)
  then show ?thesis using assms
    by (simp add: parseAdoptCommand_def firstArg_def brandedStringSchema_def adoptOption_def option_facts)
qed

lemma pair_complete:
  "parsePairOptions (optionTokens ''--label'' label @
      (case permission of Pair_read \<Rightarrow> [js ''--read-only''] | Pair_write \<Rightarrow> [])) False = Inr (C_pair label permission)"
proof -
  have label: "optionLoop pairOption (optionTokens ''--label'' (Some v) @ rest) st =
      optionLoop pairOption rest (st\<lparr> pairLabel := Some v \<rparr>)" if "pairLabel st = None" for v rest st
    using that by (intro optionLoop_option) (simp_all add: pairOption_def option_facts)
  show ?thesis
    by (cases label; cases permission)
      (simp_all add: parsePairOptions_def label label [where rest = "[]", simplified] pairOption_def option_facts)
qed

lemma model_complete:
  assumes "wellFormed (C_model session model effort revision json)"
  shows "parseModelOptions (session # (case model of None \<Rightarrow> [] | Some m \<Rightarrow> [m]) @
      optionTokens ''--effort'' effort @ optionTokens ''--expected-revision'' (numberText revision)) json =
    Inr (C_model session model effort revision json)"
proof (cases model)
  case None
  with assms show ?thesis by (simp add: parseModelOptions_def firstArg_def noSession_def)
next
  case (Some m)
  with assms have m: "\<not> isFlag m" "\<not> isFlag session" "revisionOk revision" by simp_all
  have m_token: "optionLoop modelOption (m # rest) st = optionLoop modelOption rest (st\<lparr> modelId := Some m \<rparr>)"
    if "modelId st = None" for rest st
  proof -
    have "\<not> isInline m (js name)" if "startsWith name ''-''" for name
      using m(1) that unfolding isFlag_def isInline_def by (cases name; cases m) (auto simp: js_Cons)
    then have "\<not> isInline m (js ''--effort'')" "\<not> isInline m (js ''--expected-revision'')" by simp_all
    moreover have "m \<noteq> js ''--json''" "m \<noteq> js ''--effort''" "m \<noteq> js ''--expected-revision''"
      using m(1) by (auto simp: token_facts)
    ultimately show ?thesis using m(1) that by (simp add: modelOption_def option_facts)
  qed
  have effort_token: "optionLoop modelOption (optionTokens ''--effort'' effort @ rest) st =
      optionLoop modelOption rest (case effort of None \<Rightarrow> st | Some e \<Rightarrow> st\<lparr> modelEffort := Some e, effortSeen := True \<rparr>)"
    if "effortSeen st = False" for rest st
  proof (cases effort)
    case (Some e)
    show ?thesis using that unfolding Some option.case
      by (intro optionLoop_option) (simp_all add: modelOption_def option_facts)
  qed simp
  show ?thesis
  proof (cases revision)
    case None
    then show ?thesis using m Some effort_token [of _ "[]"]
      by (simp add: parseModelOptions_def firstArg_def noSession_def m_token
          del: optionLoop.simps(2) split: option.split)
  next
    case (Some r)
    with m(3) revision_number [of r] obtain v where v: "numberText revision = Some v" "positiveIntegerPattern v"
      "numberOf v = r" "v \<noteq> []" "isSafeInteger r" by blast
    have "optionLoop modelOption (optionTokens ''--expected-revision'' (Some v) @ []) st =
        optionLoop modelOption [] (st\<lparr> modelRevision := Some r, modelRevisionSeen := True \<rparr>)"
      if "modelRevisionSeen st = False" for st
      by (rule optionLoop_option)
        (use v that in \<open>simp_all add: modelOption_def option_facts parsePositiveRevision_def\<close>)
    then show ?thesis using m v(1) Some \<open>model = Some m\<close>
      by (simp add: parseModelOptions_def firstArg_def noSession_def m_token effort_token
          del: optionLoop.simps(2) split: option.split)
  qed
qed

lemma goal_text: "goalAction (goalText a) = Some a"
  by (cases a) (simp_all add: goalAction_def)

lemma goal_complete:
  assumes "wellFormed (C_goal session action objective revision json)"
  shows "parseGoalOptions (session # (case action of None \<Rightarrow> [] | Some a \<Rightarrow> [goalText a]) @
      optionTokens ''--objective'' objective @ optionTokens ''--expected-revision'' revision) json =
    Inr (C_goal session action objective revision json)"
proof (cases action)
  case None
  with assms show ?thesis by (simp add: parseGoalOptions_def firstArg_def noSession_def)
next
  case (Some a)
  have obj: "optionLoop goalOption (optionTokens ''--objective'' objective @ rest) st =
      optionLoop goalOption rest (case objective of None \<Rightarrow> st | Some e \<Rightarrow> st\<lparr> goalObjective := Some e, objectiveSeen := True \<rparr>)"
    if "objectiveSeen st = False" for rest st
  proof (cases objective)
    case (Some e)
    show ?thesis using that unfolding Some option.case
      by (intro optionLoop_option) (simp_all add: goalOption_def option_facts)
  qed simp
  have rev: "optionLoop goalOption (optionTokens ''--expected-revision'' revision) st =
      Inr (case revision of None \<Rightarrow> st | Some e \<Rightarrow> st\<lparr> goalRevision := Some e, goalRevisionSeen := True \<rparr>)"
    if "goalRevisionSeen st = False" for st
  proof (cases revision)
    case (Some r)
    have "optionLoop goalOption (optionTokens ''--expected-revision'' (Some r) @ []) st =
        optionLoop goalOption [] (st\<lparr> goalRevision := Some r, goalRevisionSeen := True \<rparr>)"
      by (rule optionLoop_option)
        (use assms that Some in \<open>auto simp: goalOption_def option_facts parseGoalRevision_def\<close>)
    then show ?thesis using Some by simp
  qed simp
  show ?thesis using assms Some
    by (auto simp: parseGoalOptions_def firstArg_def noSession_def goal_text obj rev split: option.split if_splits)
qed

lemma plan_complete:
  assumes "wellFormed (C_plan session action revision json)"
  shows "parsePlanOptions (session # (case action of None \<Rightarrow> [] | Some Plan_enter \<Rightarrow> [js ''enter''] | Some Plan_exit \<Rightarrow> [js ''exit'']) @
      optionTokens ''--expected-revision'' (numberText revision)) json =
    Inr (C_plan session action revision json)"
proof (cases action)
  case None
  with assms show ?thesis by (simp add: parsePlanOptions_def firstArg_def noSession_def)
next
  case (Some a)
  have rev: "optionLoop planOption (optionTokens ''--expected-revision'' (numberText revision)) (None, False, json) =
      Inr (revision, revision \<noteq> None, json)"
  proof (cases revision)
    case (Some r)
    with assms revision_number [of r] obtain v where v: "numberText revision = Some v" "positiveIntegerPattern v"
      "numberOf v = r" "v \<noteq> []" "isSafeInteger r" by auto
    have "optionLoop planOption (optionTokens ''--expected-revision'' (Some v) @ []) (None, False, json) =
        optionLoop planOption [] (Some r, True, json)"
      by (rule optionLoop_option)
        (use v in \<open>simp_all add: planOption_def option_facts parsePlanRevision_def\<close>)
    then show ?thesis using v(1) Some by simp
  qed simp
  show ?thesis using assms Some
    by (cases a) (simp_all add: parsePlanOptions_def firstArg_def noSession_def planAction_def rev)
qed

lemma service_complete:
  "serviceAction (Some (serviceText a)) = Some a"
  by (cases a) simp_all

lemma dispatch_complete:
  assumes "wellFormed c"
  shows "dispatch (hd (commandTokens c)) (tl (commandTokens c)) (commandJson c) = Inr c"
proof (cases c)
  case (C_list limit cursor json)
  then show ?thesis using assms page_complete [of limit Page_list cursor json] by (simp add: dispatch_defs)
next
  case (C_devices limit cursor json)
  then show ?thesis using assms page_complete [of limit Page_devices cursor json] by (simp add: dispatch_defs)
next
  case (C_discover limit json)
  then show ?thesis using assms discover_complete by (simp add: dispatch_defs)
next
  case (C_adopt thread name confirmHandoff json)
  then show ?thesis using assms adopt_complete [of thread name json] by (simp add: dispatch_defs)
next
  case (C_unmanage session confirm json)
  then show ?thesis using assms
    by (simp add: dispatch_defs parseUnmanageCommand_def firstArg_def brandedStringSchema_def)
next
  case (C_revoke deviceId confirm json)
  then show ?thesis using assms by (simp add: dispatch_defs parseRevokeCommand_def firstArg_def)
next
  case (C_service action json)
  then show ?thesis
    by (simp add: dispatch_defs parseServiceCommand_def firstArg_def service_complete del: serviceAction.simps)
next
  case (C_start name cwd json)
  then show ?thesis by (simp add: dispatch_defs parseStartOptions_def start_tokens)
next
  case (C_model session model effort revision json)
  then show ?thesis using assms model_complete [of session model effort revision json] by (simp add: dispatch_defs)
next
  case (C_goal session action objective revision json)
  then show ?thesis using assms goal_complete [of session action objective revision json] by (simp add: dispatch_defs)
next
  case (C_plan session action revision json)
  then show ?thesis using assms plan_complete [of session action revision json] by (simp add: dispatch_defs)
next
  case (C_compact session confirm json)
  then show ?thesis using assms
    by (simp add: dispatch_defs parseCompactOptions_def firstArg_def noSession_def)
next
  case (C_approvals session request decision confirm json)
  then show ?thesis using assms
    by (auto simp: dispatch_defs parseApprovalsOptions_def firstArg_def noSession_def approvalDecision_def
        split: option.splits approval_decision.splits)
next
  case (C_interrupt session turn confirm json)
  then show ?thesis using assms
    by (simp add: dispatch_defs parseInterruptOptions_def firstArg_def noSession_def)
next
  case (C_pair label permission)
  then show ?thesis using pair_complete [of label permission] by (simp add: dispatch_defs)
next
  case (C_legacy action confirmed json)
  then show ?thesis using assms
    by (cases action) (simp_all add: dispatch_defs parseLegacyCommand_def firstArg_def)
next
  case (C_remote action json)
  then show ?thesis
    by (cases action) (simp_all add: dispatch_defs parseRemoteCommand_def remoteAction_def)
qed (simp_all add: dispatch_defs singleSessionArgument_def)

lemma commandTokens_Cons: "commandTokens c = hd (commandTokens c) # tl (commandTokens c)"
  by (cases c) simp_all

lemma parse_commandLine:
  assumes "wellFormed (parsedCommand p)"
  shows "parseCliArgs (commandLine p) = Inr p"
proof -
  obtain seen where "scanArgs (commandLine p) initialScan =
     Inr \<lparr> configFlags = parsedFlags p, seenConfigFlags = seen, positionals = commandTokens (parsedCommand p),
           scanJson = commandJson (parsedCommand p), jsonSeen = commandJson (parsedCommand p), metaCommand = None \<rparr>"
    unfolding commandLine_def using scan_commandLine by blast
  moreover have "case commandTokens (parsedCommand p) of [] \<Rightarrow> False
      | command # rest \<Rightarrow> dispatch command rest (commandJson (parsedCommand p)) = Inr (parsedCommand p)"
    using dispatch_complete [OF assms] by (subst commandTokens_Cons) simp
  ultimately show ?thesis
    by (cases p; cases "commandJson (parsedCommand p)")
      (simp_all add: parseCliArgs_def finishScan_def split: list.splits)
qed

lemma finish_ok: "finishScan st = Inr c \<Longrightarrow> wellFormed c"
  by (auto simp: finishScan_def dispatch_ok split: option.splits meta_command.splits if_splits list.splits)

section \<open>Which tokens a command line holds\<close>

lemma flag_fields [simp]:
  "setConfigFlag key v name st = Inr st' \<Longrightarrow> positionals st' = positionals st \<and> scanJson st' = scanJson st"
  by (auto simp: setConfigFlag_def split: if_splits)

lemma token_positionals:
  assumes "scanToken token st = Inr st'"
  shows "set (positionals st) \<subseteq> set (positionals st')" "set (positionals st') \<subseteq> insert token (set (positionals st))"
    "scanJson st' \<longleftrightarrow> scanJson st \<or> token = js ''--json''"
  using assms by (auto simp: scanToken_def metaOption_def dest!: flag_fields split: if_splits option.splits)

lemma terminator_positionals:
  "terminator rest st = Inr st' \<Longrightarrow> positionals st' = positionals st @ rest \<and> scanJson st' = scanJson st"
  by (auto simp: terminator_def split: if_splits)

lemma configOptions_not_json: "map_of configOptions (js ''--json'') = None" "js ''--json'' \<noteq> js ''--''"
  by (simp_all add: configOptions_def)

text \<open>What is in the positionals comes from the command line, and no \<open>--json\<close> is lost.\<close>

lemma scan_tokens:
  "scanArgs args st = Inr st' \<Longrightarrow>
     set (positionals st) \<subseteq> set (positionals st') \<and> set (positionals st') \<subseteq> set (positionals st) \<union> set args \<and>
     (scanJson st \<longrightarrow> scanJson st') \<and>
     (js ''--json'' \<in> set args \<longrightarrow> scanJson st' \<or> js ''--json'' \<in> set (positionals st'))"
proof (induction args st rule: scanArgs.induct)
  case (2 token rest st)
  show ?case
  proof (cases "token = js ''--''")
    case True
    with 2(3) have "terminator rest st = Inr st'" by simp
    from terminator_positionals [OF this] True show ?thesis by auto
  next
    case no: False
    show ?thesis
    proof (cases "map_of configOptions token")
      case None
      with no 2(3) obtain st1 where st1: "scanToken token st = Inr st1" "scanArgs rest st1 = Inr st'" by auto
      from 2(1) [OF no None st1(1) st1(2)] token_positionals [OF st1(1)]
      show ?thesis by auto
    next
      case (Some key)
      with no 2(3) obtain v st1 where st1: "readOptionValue rest token = Inr v"
        "setConfigFlag key v token st = Inr st1" "scanArgs (tl rest) st1 = Inr st'"
        "requireGlobalOptionPosition token st = Inr ()" by auto
      from st1(1) obtain ws where rest: "rest = v # ws" "\<not> startsWith v (js ''--'')"
        by (cases rest) (auto simp: readOptionValue_Inr)
      then have "v \<noteq> js ''--json''" "token \<noteq> js ''--json''" using Some configOptions_not_json by auto
      with 2(2) [OF no Some st1(4) st1(1) st1(2) st1(3)] flag_fields [OF st1(2)] rest(1)
      show ?thesis by auto
    qed
  qed
qed simp

text \<open>The tokens that a command with a lasting effect must have been given.\<close>

fun requiredTokens :: "parsed_command \<Rightarrow> js_string list" where
  "requiredTokens (C_adopt thread _ _ _) = [thread, js ''--confirm-handoff'']"
| "requiredTokens (C_unmanage session _ _) = [session, js ''--confirm'']"
| "requiredTokens (C_revoke deviceId _ _) = [deviceId, js ''--confirm'']"
| "requiredTokens (C_interrupt session turn _ _) = [session, turn, js ''--confirm'']"
| "requiredTokens (C_approvals session (Some request) (Some Approve) _ _) = [session, request, js ''approve'', js ''--confirm'']"
| "requiredTokens (C_approvals session (Some request) (Some Deny) _ _) = [session, request, js ''deny'', js ''--confirm'']"
| "requiredTokens (C_compact session True _) = [session, js ''--confirm'']"
| "requiredTokens (C_legacy Legacy_reset _ _) = [js ''reset'', js ''--confirm'']"
| "requiredTokens (C_archive session _) = [session]"
| "requiredTokens (C_send session _ _) = [session]"
| "requiredTokens _ = []"

lemma adoptLoop_confirm:
  "optionLoop adoptOption args st = Inr st' \<Longrightarrow> (snd st \<longrightarrow> js ''--confirm-handoff'' \<in> set args) \<Longrightarrow>
     snd st' \<longrightarrow> js ''--confirm-handoff'' \<in> set args"
  by (erule optionLoop_invariant [where used = "set args" and keep = "\<lambda>st. snd st \<longrightarrow> js ''--confirm-handoff'' \<in> set args", rotated])
    (auto simp: adoptOption_def split: if_splits)

lemma revokeLoop_confirm: "revokeLoop args confirmed json = Inr (True, j) \<Longrightarrow> confirmed \<or> js ''--confirm'' \<in> set args"
  by (induction args confirmed json rule: revokeLoop.induct) (auto split: if_splits)

lemma compactLoop_confirm: "compactLoop args confirm = Inr True \<Longrightarrow> confirm \<or> js ''--confirm'' \<in> set args"
  by (induction args confirm rule: compactLoop.induct) (auto split: if_splits)

lemma schema_thread: "brandedStringSchema parseCodexThreadId (firstArg args) = Some t \<Longrightarrow> t \<in> set args"
  using codex_id.exact by (fastforce simp: brandedStringSchema_iff parseCodexThreadId_def firstArg_def split: list.splits)

lemma schema_session: "brandedStringSchema parseSessionId (firstArg args) = Some t \<Longrightarrow> t \<in> set args"
  using session_id.exact by (fastforce simp: brandedStringSchema_iff firstArg_def split: list.splits)


lemma dispatch_Inr:
  assumes "dispatch command rest json = Inr c"
  shows "c \<in> {C_help, C_version, C_serve} \<or> (\<exists>j. c \<in> {C_status j, C_lock j, C_unlock j}) \<or>
    (\<exists>page. parsePaginationCommand page rest json = Inr c) \<or> parseDiscoveryCommand rest json = Inr c \<or>
    parseAdoptCommand rest json = Inr c \<or> parseUnmanageCommand rest json = Inr c \<or>
    parseRevokeCommand rest json = Inr c \<or> parseServiceCommand rest json = Inr c \<or>
    (\<exists>name cwd j. c = C_start name cwd j) \<or>
    (\<exists>s. rest = [s] \<and> c \<in> {C_archive s json, C_usage s json, C_skills s json, C_resume s}) \<or>
    (rest \<noteq> [] \<and> c = C_send (hd rest) (joinSpace (tl rest)) json) \<or>
    parseModelOptions rest json = Inr c \<or> parseGoalOptions rest json = Inr c \<or> parsePlanOptions rest json = Inr c \<or>
    parseCompactOptions rest json = Inr c \<or> parseApprovalsOptions rest json = Inr c \<or>
    parseInterruptOptions rest json = Inr c \<or> command = js ''pair'' \<and> parsePairOptions rest json = Inr c \<or>
    parseLegacyCommand rest json = Inr c \<or> parseRemoteCommand rest json = Inr c"
  using assms unfolding dispatch_defs
  by (auto simp: singleSessionArgument_def length_Suc_conv split: if_splits)

lemma dispatch_tokens:
  assumes "dispatch command rest json = Inr c"
  shows "set (requiredTokens c) \<subseteq> set rest"
proof -
  have rest_tl: "t \<in> set (tl rest) \<Longrightarrow> t \<in> set rest" for t by (cases rest) auto
  have adopt: "set (requiredTokens c) \<subseteq> set rest" if "parseAdoptCommand rest json = Inr c"
  proof -
    from that obtain thread name n where c: "c = C_adopt thread name True json"
      "brandedStringSchema parseCodexThreadId (firstArg rest) = Some thread"
      "optionLoop adoptOption (tl rest) (None, False) = Inr (n, True)"
      unfolding parseAdoptCommand_def by (simp split: option.splits prod.splits if_splits) blast
    from adoptLoop_confirm [OF c(3)] rest_tl schema_thread [OF c(2)] show ?thesis by (simp add: c(1))
  qed
  have unmanage: "set (requiredTokens c) \<subseteq> set rest" if "parseUnmanageCommand rest json = Inr c"
  proof -
    from that obtain session where c: "c = C_unmanage session True json"
      "brandedStringSchema parseSessionId (firstArg rest) = Some session" "tl rest = [js ''--confirm'']"
      unfolding parseUnmanageCommand_def by (simp split: option.splits if_splits) blast
    have "js ''--confirm'' \<in> set rest" using c(3) rest_tl [of "js ''--confirm''"] by simp
    with schema_session [OF c(2)] show ?thesis by (simp add: c(1))
  qed
  have revoke: "set (requiredTokens c) \<subseteq> set rest" if "parseRevokeCommand rest json = Inr c"
    using that rest_tl
    by (auto simp: parseRevokeCommand_def firstArg_def selectedDeviceIdSchema_def dest!: revokeLoop_confirm
        split: option.splits if_splits list.splits)
  have interrupt: "set (requiredTokens c) \<subseteq> set rest" if "parseInterruptOptions rest json = Inr c"
    using that by (cases rest; cases "tl rest")
      (auto simp: parseInterruptOptions_def Let_def noSession_def firstArg_def split: if_splits)
  have approvals: "set (requiredTokens c) \<subseteq> set rest" if "parseApprovalsOptions rest json = Inr c"
    using that by (cases rest)
      (auto simp: parseApprovalsOptions_def noSession_def firstArg_def approvalDecision_def split: if_splits list.splits)
  have compact: "set (requiredTokens c) \<subseteq> set rest" if "parseCompactOptions rest json = Inr c"
  proof -
    from that obtain confirm where c: "c = C_compact (hd rest) confirm json" "rest \<noteq> []"
      "compactLoop (tl rest) False = Inr confirm"
      by (auto simp: parseCompactOptions_def noSession_def firstArg_def split: if_splits list.splits)
    with rest_tl show ?thesis by (cases confirm) (auto dest!: compactLoop_confirm)
  qed
  have legacy: "set (requiredTokens c) \<subseteq> set rest" if "parseLegacyCommand rest json = Inr c"
    using that by (cases rest) (auto simp: parseLegacyCommand_def firstArg_def split: if_splits)
  have none: "requiredTokens c = []" if "\<exists>command. parsePaginationCommand command rest json = Inr c"
  proof -
    from that obtain command where "parsePaginationCommand command rest json = Inr c" by blast
    then show ?thesis by (cases command) (auto simp: parsePaginationCommand_def)
  qed
  have other: "requiredTokens c = []" if "parseDiscoveryCommand rest json = Inr c \<or> parseServiceCommand rest json = Inr c \<or>
      parseModelOptions rest json = Inr c \<or> parseGoalOptions rest json = Inr c \<or> parsePlanOptions rest json = Inr c \<or>
      parsePairOptions rest json = Inr c \<or> parseRemoteCommand rest json = Inr c"
    using that
    by (elim disjE) (auto simp: parseDiscoveryCommand_def parseServiceCommand_def parseModelOptions_def parseGoalOptions_def
        parsePlanOptions_def parsePairOptions_def parseRemoteCommand_def split: if_splits option.splits list.splits)
  show ?thesis
    using dispatch_Inr [OF assms] adopt unmanage revoke interrupt approvals compact legacy none other
    by (elim disjE) (auto intro: hd_in_set)
qed

lemma finish_cases:
  assumes "finishScan st = Inr c"
  obtains "c = C_help" | "c = C_version"
  | command rest where "positionals st = command # rest" "dispatch command rest (scanJson st) = Inr c"
proof (cases "metaCommand st")
  case None
  show thesis
  proof (cases "positionals st")
    case Nil
    with None assms have "c = C_help" by (simp add: finishScan_def split: if_splits)
    then show thesis by (rule that(1))
  next
    case (Cons command rest)
    with None assms have "dispatch command rest (scanJson st) = Inr c" by (simp add: finishScan_def)
    with Cons show thesis by (rule that(3))
  qed
next
  case (Some m)
  with assms have "c = C_help \<or> c = C_version" by (cases m) (simp_all add: finishScan_def split: if_splits)
  then show thesis using that(1,2) by blast
qed

lemma parse_tokens:
  assumes "parseCliArgs args = Inr p"
  shows "set (requiredTokens (parsedCommand p)) \<subseteq> set args"
proof -
  from assms obtain st where st: "scanArgs args initialScan = Inr st" "finishScan st = Inr (parsedCommand p)"
    by (auto simp: parseCliArgs_def)
  from scan_tokens [OF st(1)] have "set (positionals st) \<subseteq> set args" by (simp add: initialScan_def)
  moreover from st(2) have "set (requiredTokens (parsedCommand p)) \<subseteq> set (positionals st)"
  proof (cases rule: finish_cases)
    case (3 command rest)
    from dispatch_tokens [OF 3(2)] 3(1) show ?thesis by auto
  qed simp_all
  ultimately show ?thesis by blast
qed

lemma pairOption_token:
  "pairOption token rest st = Inr (skip, st') \<Longrightarrow>
     token \<noteq> js ''--json'' \<and> (skip \<longrightarrow> rest \<noteq> [] \<and> hd rest \<noteq> js ''--json'')"
  by (auto simp: pairOption_def readOptionValue_Inr split: if_splits)

lemma not_a_pairing:
  "parsePaginationCommand page rest json \<noteq> Inr (C_pair label permission)"
  "parseDiscoveryCommand rest json \<noteq> Inr (C_pair label permission)"
  "parseAdoptCommand rest json \<noteq> Inr (C_pair label permission)"
  "parseUnmanageCommand rest json \<noteq> Inr (C_pair label permission)"
  "parseRevokeCommand rest json \<noteq> Inr (C_pair label permission)"
  "parseServiceCommand rest json \<noteq> Inr (C_pair label permission)"
  "parseModelOptions rest json \<noteq> Inr (C_pair label permission)"
  "parseGoalOptions rest json \<noteq> Inr (C_pair label permission)"
  "parsePlanOptions rest json \<noteq> Inr (C_pair label permission)"
  "parseCompactOptions rest json \<noteq> Inr (C_pair label permission)"
  "parseApprovalsOptions rest json \<noteq> Inr (C_pair label permission)"
  "parseInterruptOptions rest json \<noteq> Inr (C_pair label permission)"
  "parseLegacyCommand rest json \<noteq> Inr (C_pair label permission)"
  "parseRemoteCommand rest json \<noteq> Inr (C_pair label permission)"
  by (auto simp: parsePaginationCommand_def parseDiscoveryCommand_def parseAdoptCommand_def parseUnmanageCommand_def
        parseRevokeCommand_def parseServiceCommand_def parseModelOptions_def parseGoalOptions_def parsePlanOptions_def
        parseCompactOptions_def parseApprovalsOptions_def parseInterruptOptions_def parseLegacyCommand_def
        parseRemoteCommand_def Let_def split: if_splits option.splits list.splits page_command.splits)

lemma pair_no_json:
  assumes "dispatch command rest json = Inr (C_pair label permission)"
  shows "\<not> json \<and> command = js ''pair'' \<and> js ''--json'' \<notin> set rest"
proof -
  from dispatch_Inr [OF assms] have "command = js ''pair''" "parsePairOptions rest json = Inr (C_pair label permission)"
    by (simp_all add: not_a_pairing)
  moreover then obtain st where "\<not> json" "optionLoop pairOption rest
      \<lparr> pairLabel = None, pairPermission = Pair_write, permissionOptionSeen = False \<rparr> = Inr st"
    by (auto simp: parsePairOptions_def split: if_splits)
  moreover from optionLoop_tokens [of pairOption "\<lambda>t. t \<noteq> js ''--json''", OF _ this(2)]
  have "js ''--json'' \<notin> set rest" using pairOption_token by blast
  ultimately show ?thesis by blast
qed

section \<open>How the parser fails\<close>

definition isUsage :: "cli_failure \<Rightarrow> bool" where
  "isUsage e \<longleftrightarrow>
     failure_kind e = Usage_failure \<and> failure_code e = js ''malformed_request'' \<and> failure_exitCode e = 64 \<and>
     failure_field e \<noteq> None \<and> \<not> failure_retryable e"

definition failsAsUsage :: "cli_failure + 'a \<Rightarrow> bool" where
  "failsAsUsage r \<longleftrightarrow> (\<forall>e. r = Inl e \<longrightarrow> isUsage e)"

lemma isUsage_usageFailure [simp]: "isUsage (usageFailure message field)"
  by (simp add: isUsage_def usageFailure_def exitUsage_def)

lemma isUsage_messages [simp]:
  "isUsage (usageArgs message)" "isUsage (onlyOnce command option)" "isUsage (unknownOption command token)"
  "isUsage (unexpectedArgument command token)" "isUsage (noPositionals command)" "isUsage (oneManagedSession command)"
  "isUsage approvalUsage" "isUsage pairNoJson"
  by (simp_all add: usageArgs_def onlyOnce_def unknownOption_def unexpectedArgument_def noPositionals_def
      oneManagedSession_def approvalUsage_def pairNoJson_def)

lemma fails_simps [simp]:
  "failsAsUsage (Inl e) = isUsage e" "failsAsUsage (Inr x)" "failsAsUsage (takeOne st)" "failsAsUsage (takeTwo st)"
  by (simp_all add: failsAsUsage_def takeOne_def takeTwo_def)

lemma fails_andThen [intro!]: "failsAsUsage r \<Longrightarrow> (\<And>x. r = Inr x \<Longrightarrow> failsAsUsage (f x)) \<Longrightarrow> failsAsUsage (andThen r f)"
  by (cases r) simp_all

lemma fails_leaf [simp]:
  "failsAsUsage (readOptionValue rest name)" "failsAsUsage (readInlineOptionValue token name)"
  "failsAsUsage (setConfigFlag key v name st)" "failsAsUsage (requireGlobalOptionPosition name st)"
  "failsAsUsage (metaOption meta token st)" "failsAsUsage (terminator rest st)" "failsAsUsage (parsePageLimit v c)"
  "failsAsUsage (parsePageCursor v command)" "failsAsUsage (parsePositiveRevision v)" "failsAsUsage (parsePlanRevision v)"
  "failsAsUsage (parseGoalRevision v)" "failsAsUsage (singleSessionArgument c rest)"
  by (auto simp: failsAsUsage_def readOptionValue_def readInlineOptionValue_def setConfigFlag_def
      requireGlobalOptionPosition_def metaOption_def terminator_def parsePageLimit_def parsePageCursor_def
      parsePositiveRevision_def parsePlanRevision_def parseGoalRevision_def singleSessionArgument_def Let_def
      split: list.splits if_splits option.splits)

lemma fails_noArg [simp]: "failsAsUsage (parseNoArgJsonOptions command rest json)"
  by (induction command rest json rule: parseNoArgJsonOptions.induct) auto

lemma fails_revoke [simp]: "failsAsUsage (revokeLoop rest confirmed json)"
  by (induction rest confirmed json rule: revokeLoop.induct) auto

lemma fails_compact [simp]: "failsAsUsage (compactLoop rest confirm)"
  by (induction rest confirm rule: compactLoop.induct) auto

lemma fails_loop:
  assumes "\<And>token rest st. failsAsUsage (body token rest st)"
  shows "failsAsUsage (optionLoop body args st)"
  using assms by (induction body args st rule: optionLoop.induct) auto

lemma fails_bodies:
  "failsAsUsage (pageOption command token rest ps)" "failsAsUsage (discoverOption token rest ds)"
  "failsAsUsage (adoptOption token rest as)" "failsAsUsage (startOption token rest ss)"
  "failsAsUsage (modelOption token rest ms)" "failsAsUsage (goalOption token rest gs)"
  "failsAsUsage (planOption token rest qs)" "failsAsUsage (pairOption token rest rs)"
  by (auto simp: pageOption_def discoverOption_def adoptOption_def startOption_def modelOption_def goalOption_def
      planOption_def pairOption_def split: prod.splits)

lemma fails_loops [simp]:
  "failsAsUsage (optionLoop (pageOption command) args ps)" "failsAsUsage (optionLoop discoverOption args ds)"
  "failsAsUsage (optionLoop adoptOption args as)" "failsAsUsage (optionLoop startOption args ss)"
  "failsAsUsage (optionLoop modelOption args ms)" "failsAsUsage (optionLoop goalOption args gs)"
  "failsAsUsage (optionLoop planOption args qs)" "failsAsUsage (optionLoop pairOption args rs)"
  by (intro fails_loop fails_bodies)+

lemma fails_scanToken [simp]: "failsAsUsage (scanToken token st)"
  by (auto simp: scanToken_def split: option.split)

lemma fails_scan: "failsAsUsage (scanArgs args st)"
  by (induction args st rule: scanArgs.induct) (auto split: option.split)

lemma fails_commands [simp]:
  "failsAsUsage (parsePaginationCommand page rest json)" "failsAsUsage (parseDiscoveryCommand rest json)"
  "failsAsUsage (parseAdoptCommand rest json)" "failsAsUsage (parseUnmanageCommand rest json)"
  "failsAsUsage (parseRevokeCommand rest json)" "failsAsUsage (parseServiceCommand rest json)"
  "failsAsUsage (parseStartOptions rest)" "failsAsUsage (parseModelOptions rest json)"
  "failsAsUsage (parseGoalOptions rest json)" "failsAsUsage (parsePlanOptions rest json)"
  "failsAsUsage (parseCompactOptions rest json)" "failsAsUsage (parseApprovalsOptions rest json)"
  "failsAsUsage (parseInterruptOptions rest json)" "failsAsUsage (parsePairOptions rest json)"
  "failsAsUsage (parseLegacyCommand rest json)" "failsAsUsage (parseRemoteCommand rest json)"
  by (auto simp: parsePaginationCommand_def parseDiscoveryCommand_def parseAdoptCommand_def parseUnmanageCommand_def
      parseRevokeCommand_def parseServiceCommand_def parseStartOptions_def parseModelOptions_def parseGoalOptions_def
      parsePlanOptions_def parseCompactOptions_def parseApprovalsOptions_def parseInterruptOptions_def
      parsePairOptions_def parseLegacyCommand_def parseRemoteCommand_def Let_def split: option.split list.split prod.split)

lemma fails_dispatch: "failsAsUsage (dispatch command rest json)"
  unfolding dispatch_defs by (auto split: prod.split)

lemma fails_finish: "failsAsUsage (finishScan st)"
  by (auto simp: finishScan_def fails_dispatch split: option.split list.split)

section \<open>Properties\<close>

text \<open>C38: The commands the parser can return are exactly the well-formed ones, with any configuration
  options: limits from 1 to 100, cursors that decode, identifiers their parsers accept, positive
  safe revisions, confirmed destructive commands, and no option without the argument it needs.\<close>

theorem parser_returns_well_formed_commands:
  "(\<exists>args. parseCliArgs args = Inr p) \<longleftrightarrow> wellFormed (parsedCommand p)"
proof
  assume "wellFormed (parsedCommand p)"
  from parse_commandLine [OF this] show "\<exists>args. parseCliArgs args = Inr p" by blast
qed (auto simp: parseCliArgs_def finish_ok)

text \<open>C40: What was parsed can be written as a command line, options first and everything else behind
  the terminator, and reads back as the same command and configuration options.\<close>

theorem parsed_command_roundtrip:
  assumes "parseCliArgs args = Inr p"
  shows "parseCliArgs (commandLine p) = Inr p"
  using assms by (intro parse_commandLine) (auto simp: parseCliArgs_def finish_ok)

theorem parsed_command_roundtrip_witness:
  "parseCliArgs (commandLine \<lparr> parsedCommand = C_send (js ''sess_a'') (js ''--json'') True,
       parsedFlags = \<lparr> apiUrl = None, port = Some (js ''80''), configPath = None, stateDir = None, databasePath = None \<rparr> \<rparr>) =
     Inr \<lparr> parsedCommand = C_send (js ''sess_a'') (js ''--json'') True,
       parsedFlags = \<lparr> apiUrl = None, port = Some (js ''80''), configPath = None, stateDir = None, databasePath = None \<rparr> \<rparr>"
  by (rule parsed_command_roundtrip [of "[js ''--port'', js ''80'', js ''--json'', js ''send'', js ''sess_a'', js ''--'', js ''--json'']"])
    (simp add: parseCliArgs_def initialScan_def configOptions_def requireGlobalOptionPosition_def readOptionValue_def
      setConfigFlag_def scanToken_def terminator_def noTerminatorCommands_def finishScan_def dispatch_defs token_facts)

text \<open>C39: A command with a lasting effect (adopt, unmanage, revoke, interrupt, an approval response,
  a confirmed compaction, the legacy reset) is only parsed when its confirmation option and the
  target it names are tokens of the command line itself.\<close>

theorem destructive_commands_are_confirmed:
  assumes "parseCliArgs args = Inr p"
  shows "set (requiredTokens (parsedCommand p)) \<subseteq> set args"
  using assms by (rule parse_tokens)

theorem destructive_commands_are_confirmed_witness:
  "set [js ''sess_abcdef'', js ''--confirm''] \<subseteq>
     set [js ''unmanage'', js ''sess_abcdef'', js ''--confirm'']"
  using destructive_commands_are_confirmed [of "[js ''unmanage'', js ''sess_abcdef'', js ''--confirm'']"
      "\<lparr> parsedCommand = C_unmanage (js ''sess_abcdef'') True False,
         parsedFlags = \<lparr> apiUrl = None, port = None, configPath = None, stateDir = None, databasePath = None \<rparr> \<rparr>"]
  by (simp add: parseCliArgs_def initialScan_def configOptions_def scanToken_def finishScan_def dispatch_defs token_facts
      parseUnmanageCommand_def firstArg_def brandedStringSchema_def parseSessionId_def sessionIdPattern_def
      idTail_def js_def char_class_defs startsWith_def isFlag_def isInline_def)

text \<open>A pairing, whose output holds a one-time secret, is never parsed from a command line with
  \<open>--json\<close> in any place.\<close>

theorem pairing_never_as_json:
  assumes "parseCliArgs args = Inr p" "parsedCommand p = C_pair label permission"
  shows "js ''--json'' \<notin> set args"
proof -
  from assms obtain st where st: "scanArgs args initialScan = Inr st" "finishScan st = Inr (C_pair label permission)"
    by (auto simp: parseCliArgs_def)
  from st(2) obtain command rest where pos: "positionals st = command # rest"
    and d: "dispatch command rest (scanJson st) = Inr (C_pair label permission)"
    by (auto simp: finishScan_def split: option.splits if_splits list.splits meta_command.splits)
  from pair_no_json [OF d] have "\<not> scanJson st" "js ''--json'' \<notin> set (positionals st)" by (auto simp: pos)
  with scan_tokens [OF st(1)] show ?thesis by blast
qed

theorem pairing_never_as_json_witness:
  "js ''--json'' \<notin> set [js ''pair'', js ''--label'', js ''phone'']"
  using pairing_never_as_json [of "[js ''pair'', js ''--label'', js ''phone'']"
      "\<lparr> parsedCommand = C_pair (Some (js ''phone'')) Pair_write,
         parsedFlags = \<lparr> apiUrl = None, port = None, configPath = None, stateDir = None, databasePath = None \<rparr> \<rparr>"
      "Some (js ''phone'')" Pair_write]
  by (simp add: parseCliArgs_def initialScan_def configOptions_def scanToken_def finishScan_def dispatch_defs token_facts
      parsePairOptions_def pairOption_def readOptionValue_def takeTwo_def)

text \<open>Whatever the command line, a refusal is a usage failure: the code \<open>malformed_request\<close>, the
  exit code 64, the name of a field, and no suggestion to try again.\<close>

theorem parser_fails_as_usage:
  assumes "parseCliArgs args = Inl e"
  shows "failure_kind e = Usage_failure \<and> failure_code e = js ''malformed_request'' \<and> failure_exitCode e = 64 \<and>
    failure_field e \<noteq> None \<and> \<not> failure_retryable e"
proof -
  have "failsAsUsage (parseCliArgs args)"
    unfolding parseCliArgs_def by (auto simp: fails_scan fails_finish)
  with assms show ?thesis by (simp add: failsAsUsage_def isUsage_def)
qed

theorem parser_fails_as_usage_witness:
  "failure_exitCode (usageArgs (js ''Unknown option: '' @ js ''-x'')) = 64"
  using parser_fails_as_usage [of "[js ''-x'']" "usageArgs (js ''Unknown option: '' @ js ''-x'')"]
  by (simp add: parseCliArgs_def initialScan_def configOptions_def scanToken_def token_facts)

end
