(* ===== verification/Projection_Contract.thy ===== *)
theory Projection_Contract
  imports Selected_Runtime Iso_Timestamp Error_Envelope List_Cursors "HOL-Library.Monad_Syntax"
begin

text \<open>
  The contracts of the session projection and of its event log:
  \<open>packages/contracts/src/selected-runtime.ts\<close> (session projection, projected events, event
  stream), \<open>selected-storage.ts\<close> (the stored records) and \<open>storage.ts\<close> (the retention policy).
  A schema is a function to \<open>option\<close>: \<open>None\<close> for a failed \<open>safeParse\<close>, otherwise the parsed
  data, in which names are trimmed and timestamps are in their normal form. Enumerations are
  datatypes, so \<open>z.enum\<close> has nothing left to refuse; a number field that a schema requires to
  be an integer is an \<open>int\<close>. \<open>frozen\<close> and \<open>strict\<close> say nothing about typed records.
\<close>

section \<open>Scalars\<close>

definition maxSafe :: int where
  "maxSafe = 9007199254740991"

text \<open>\<open>outputCursorSchema\<close> on an integer.\<close>

definition outputCursorOk :: "int \<Rightarrow> bool" where
  "outputCursorOk c \<longleftrightarrow> 0 \<le> c \<and> c \<le> maxSafe"

lemma outputCursorOk_parse: "outputCursorOk c \<longleftrightarrow> (\<exists>v. parseOutputCursor (Finite (of_int c)) = Inr v)"
proof -
  have "\<not> isSafeInteger (Finite (of_int c)) \<longleftrightarrow> \<not> \<bar>c\<bar> \<le> 9007199254740991" by (auto simp: isSafeInteger_iff)
  then show ?thesis
    by (auto simp: outputCursorOk_def parseOutputCursor_def maxSafe_def isInteger_def num_less_def)
qed

text \<open>The decimal text of an integer, in a template and in JSON.\<close>

definition intText :: "int \<Rightarrow> js_string" where
  "intText n = (if n < 0 then 45 # natText (nat (- n)) else natText (nat n))"

lemma natText_length: "n < 10 ^ k \<Longrightarrow> 0 < k \<Longrightarrow> length (natText n) \<le> k"
proof (induction k arbitrary: n)
  case (Suc k)
  show ?case
  proof (cases "n < 10")
    case True then show ?thesis by (simp add: natText.simps [of n])
  next
    case False
    with Suc.prems have "n div 10 < 10 ^ k" by auto
    moreover from False Suc.prems have "0 < k" by (cases k) auto
    ultimately have "length (natText (n div 10)) \<le> k" by (rule Suc.IH)
    with False show ?thesis by (simp add: natText.simps [of n])
  qed
qed simp

definition isoTimestampSchema :: "js_string \<Rightarrow> js_string option" where
  "isoTimestampSchema s = brandedStringSchema parseIsoTimestamp (Some s)"

definition sessionIdSchema :: "js_string \<Rightarrow> js_string option" where
  "sessionIdSchema s = brandedStringSchema parseSessionId (Some s)"

definition sessionNameSchema :: "js_string \<Rightarrow> js_string option" where
  "sessionNameSchema s = brandedStringSchema parseSessionName (Some s)"

definition absoluteCwdSchema :: "js_string \<Rightarrow> js_string option" where
  "absoluteCwdSchema s = brandedStringSchema parseAbsoluteCwd (Some s)"

definition codexThreadIdSchema :: "js_string \<Rightarrow> js_string option" where
  "codexThreadIdSchema s = brandedStringSchema parseCodexThreadId (Some s)"

definition codexTurnIdSchema :: "js_string \<Rightarrow> js_string option" where
  "codexTurnIdSchema s = brandedStringSchema parseCodexTurnId (Some s)"

definition codexItemIdSchema :: "js_string \<Rightarrow> js_string option" where
  "codexItemIdSchema s = brandedStringSchema parseCodexItemId (Some s)"

definition runtimeRequestIdSchema :: "js_string \<Rightarrow> js_string option" where
  "runtimeRequestIdSchema s = brandedStringSchema parseRuntimeRequestId (Some s)"

text \<open>\<open>.nullable()\<close>, \<open>.min(a).max(b)\<close> and a literal.\<close>

definition nullable :: "('a \<Rightarrow> 'b option) \<Rightarrow> 'a option \<Rightarrow> 'b option option" where
  "nullable f v = (case v of None \<Rightarrow> Some None | Some x \<Rightarrow> map_option Some (f x))"

definition bounded :: "nat \<Rightarrow> nat \<Rightarrow> js_string \<Rightarrow> js_string option" where
  "bounded least most s = (if least \<le> length s \<and> length s \<le> most then Some s else None)"

definition guard :: "bool \<Rightarrow> unit option" where
  "guard b = (if b then Some () else None)"

definition selectedRuntimeSource :: js_string where
  "selectedRuntimeSource = js ''codex_app_server''"

definition versionLength :: nat where "versionLength = 64"
definition reasonLength :: nat where "reasonLength = 240"
definition modelLength :: nat where "modelLength = 160"
definition reasoningEffortLength :: nat where "reasoningEffortLength = 80"
definition branchLength :: nat where "branchLength = 240"
definition summaryLength :: nat where "summaryLength = 512"
definition eventTypeLength :: nat where "eventTypeLength = 160"
definition eventTextLength :: nat where "eventTextLength = 12000"
definition eventLabelLength :: nat where "eventLabelLength = 240"
definition eventDetailLength :: nat where "eventDetailLength = 2000"
definition approvalFieldLength :: nat where "approvalFieldLength = 1000"

lemmas runtime_limits = versionLength_def reasonLength_def modelLength_def reasoningEffortLength_def
  branchLength_def summaryLength_def eventTypeLength_def eventTextLength_def eventLabelLength_def
  eventDetailLength_def approvalFieldLength_def

text \<open>\<open>/^\d+\.\d+\.\d+(?:[-+][0-9A-Za-z.-]+)?$/u\<close>\<close>

definition takeNumber :: "js_string \<Rightarrow> js_string option" where
  "takeNumber s = (if takeWhile isDigit s = [] then None else Some (dropWhile isDigit s))"

definition takeDot :: "js_string \<Rightarrow> js_string option" where
  "takeDot s = (case s of [] \<Rightarrow> None | c # r \<Rightarrow> if c = 46 then Some r else None)"

definition versionSuffix :: "js_string \<Rightarrow> bool" where
  "versionSuffix s \<longleftrightarrow>
     (case s of
        [] \<Rightarrow> True
      | c # r \<Rightarrow>
          (c = 45 \<or> c = 43) \<and> r \<noteq> [] \<and> list_all (\<lambda>d. isDigit d \<or> isLetter d \<or> d = 46 \<or> d = 45) r)"

definition codexVersionSchema :: "js_string \<Rightarrow> js_string option" where
  "codexVersionSchema s =
     do {
       _ \<leftarrow> bounded 1 versionLength s;
       r \<leftarrow> takeNumber s;
       r \<leftarrow> takeDot r;
       r \<leftarrow> takeNumber r;
       r \<leftarrow> takeDot r;
       r \<leftarrow> takeNumber r;
       _ \<leftarrow> guard (versionSuffix r);
       Some s
     }"

section \<open>The session projection\<close>

datatype goal_state =
  GS_active | GS_paused | GS_blocked | GS_usage_limited | GS_budget_limited | GS_complete

record goal_cue =
  goal_objective :: js_string
  goal_status :: goal_state

datatype collaboration_mode = CM_default | CM_plan

record session_settings =
  collaborationMode :: collaboration_mode
  runtimeModel :: js_string
  reasoningEffort :: "js_string option"
  observedAt :: js_string

text \<open>Without \<open>last_event_cursor\<close> this is the \<open>UncommittedManagedSessionProjection\<close>.\<close>

record session_projection =
  sessionIdent :: js_string
  sessionName :: js_string
  codexThreadId :: js_string
  sessionCwd :: js_string
  runtimeSource :: js_string
  runtimeVersion :: js_string
  createdAt :: js_string
  archivedAt :: "js_string option"
  lifecycleState :: managed_session_state
  turnState :: turn_state
  sessionAttention :: attention_level
  sessionFreshness :: projection_freshness
  freshnessReason :: "js_string option"
  updatedAt :: js_string
  lastActivityAt :: "js_string option"
  sessionBranch :: "js_string option"
  sessionModel :: "js_string option"
  sessionSettings :: "session_settings option"
  sessionGoal :: "goal_cue option"
  recentSummary :: js_string

record managed_session = session_projection +
  lastEventCursor :: "int option"

definition goalCueSchema :: "goal_cue \<Rightarrow> goal_cue option" where
  "goalCueSchema g =
     do {
       objective \<leftarrow> bounded 1 summaryLength (goal_objective g);
       Some \<lparr> goal_objective = objective, goal_status = goal_status g \<rparr>
     }"

definition managedSessionSettingsProjectionSchema :: "session_settings \<Rightarrow> session_settings option" where
  "managedSessionSettingsProjectionSchema s =
     do {
       model \<leftarrow> bounded 1 modelLength (runtimeModel s);
       effort \<leftarrow> nullable (bounded 1 reasoningEffortLength) (reasoningEffort s);
       observed \<leftarrow> isoTimestampSchema (observedAt s);
       Some \<lparr> collaborationMode = collaborationMode s, runtimeModel = model, reasoningEffort = effort,
              observedAt = observed \<rparr>
     }"

text \<open>\<open>superRefine\<close>: the checks across fields, on the parsed values.\<close>

definition waitingTurn :: "turn_state \<Rightarrow> bool" where
  "waitingTurn t \<longleftrightarrow> t \<in> {TS_in_progress, TS_waiting_for_input, TS_waiting_for_approval}"

definition sessionRefined :: "'a session_projection_scheme \<Rightarrow> bool" where
  "sessionRefined v \<longleftrightarrow>
     \<not> (sessionFreshness v = PF_current \<and> freshnessReason v \<noteq> None) \<and>
     \<not> (sessionFreshness v \<noteq> PF_current \<and> freshnessReason v = None) \<and>
     \<not> (lifecycleState v = MS_archived \<and> waitingTurn (turnState v)) \<and>
     (lifecycleState v = MS_archived \<longleftrightarrow> archivedAt v \<noteq> None) \<and>
     (case sessionSettings v of
        None \<Rightarrow> True
      | Some s \<Rightarrow> sessionModel v = Some (runtimeModel s) \<and> \<not> str_less (updatedAt v) (observedAt s))"

definition managedSessionProjectionSchema :: "managed_session \<Rightarrow> managed_session option" where
  "managedSessionProjectionSchema v =
     do {
       ident \<leftarrow> sessionIdSchema (sessionIdent v);
       name \<leftarrow> sessionNameSchema (sessionName v);
       thread \<leftarrow> codexThreadIdSchema (codexThreadId v);
       cwd \<leftarrow> absoluteCwdSchema (sessionCwd v);
       _ \<leftarrow> guard (runtimeSource v = selectedRuntimeSource);
       version \<leftarrow> codexVersionSchema (runtimeVersion v);
       created \<leftarrow> isoTimestampSchema (createdAt v);
       archived \<leftarrow> nullable isoTimestampSchema (archivedAt v);
       reason \<leftarrow> nullable (bounded 1 reasonLength) (freshnessReason v);
       updated \<leftarrow> isoTimestampSchema (updatedAt v);
       activity \<leftarrow> nullable isoTimestampSchema (lastActivityAt v);
       branch \<leftarrow> nullable (bounded 1 branchLength) (sessionBranch v);
       model \<leftarrow> nullable (bounded 1 modelLength) (sessionModel v);
       settings \<leftarrow> nullable managedSessionSettingsProjectionSchema (sessionSettings v);
       goal \<leftarrow> nullable goalCueSchema (sessionGoal v);
       summary \<leftarrow> bounded 0 summaryLength (recentSummary v);
       _ \<leftarrow> guard (case lastEventCursor v of None \<Rightarrow> True | Some c \<Rightarrow> outputCursorOk c);
       parsed \<leftarrow> Some (v\<lparr> sessionIdent := ident, sessionName := name, codexThreadId := thread, sessionCwd := cwd,
         runtimeVersion := version, createdAt := created, archivedAt := archived, freshnessReason := reason,
         updatedAt := updated, lastActivityAt := activity, sessionBranch := branch, sessionModel := model,
         sessionSettings := settings, sessionGoal := goal, recentSummary := summary \<rparr>);
       _ \<leftarrow> guard (sessionRefined parsed);
       Some parsed
     }"

section \<open>Projected events\<close>

datatype content_state = Content_complete | Content_redacted | Content_truncated | Content_redacted_and_truncated

datatype message_role = Role_user | Role_agent
datatype message_phase = Phase_delta | Phase_completed

datatype activity_kind =
  AK_command | AK_tool | AK_file_change | AK_reasoning | AK_compaction | AK_rate_limit | AK_thread
| AK_settings | AK_usage | AK_approval

datatype activity_state = AS_started | AS_updated | AS_completed | AS_failed

datatype approval_state = AP_pending | AP_approved | AP_denied | AP_expired | AP_superseded
datatype approval_risk = Risk_normal | Risk_elevated | Risk_broad
datatype approval_choice = Choice_approve | Choice_deny

datatype control_kind = CK_model | CK_goal | CK_plan | CK_usage | CK_compact | CK_skills

datatype control_state =
  CTL_available | CTL_updating | CTL_active | CTL_paused | CTL_complete | CTL_failed | CTL_unsupported

datatype boundary_reason = BR_retention | BR_disconnect | BR_restart | BR_schema_change | BR_adoption

text \<open>
  The variants of the union. \<open>'n\<close> is the \<open>next_cursor\<close> of a replay boundary: an \<open>int\<close> in a stored
  event, \<open>unit\<close> in an uncommitted one, which has no address yet.
\<close>

datatype 'n event_body =
  Message message_role message_phase "js_string option" js_string
| Turn js_string turn_state "(js_string \<times> js_string) option"
| Activity activity_kind activity_state "js_string option" js_string "js_string option"
| Approval js_string approval_state js_string js_string "js_string option" approval_risk "js_string option"
    "approval_choice option"
| Control control_kind control_state "js_string option"
| Runtime runtime_connection_state "js_string option"
| Replay_boundary "int option" 'n boundary_reason
| Unknown_optional js_string js_string

record 'n event_fields =
  capturedAt :: js_string
  upstreamAt :: "js_string option"
  codexEventId :: "js_string option"
  codexEventType :: "js_string option"
  contentState :: content_state
  contentNotice :: "js_string option"
  eventBody :: "'n event_body"

record projection_event = "int event_fields" +
  eventSessionId :: js_string
  eventCursor :: int

type_synonym uncommitted_event = "unit event_fields"

definition turnErrorSchema :: "js_string \<times> js_string \<Rightarrow> (js_string \<times> js_string) option" where
  "turnErrorSchema err =
     do { _ \<leftarrow> guard (isErrorCode (fst err)); info \<leftarrow> bounded 1 reasonLength (snd err); Some (fst err, info) }"

text \<open>The schema of one variant; a boundary also looks at the event's own cursor.\<close>

definition eventBodySchema :: "int \<Rightarrow> int event_body \<Rightarrow> int event_body option" where
  "eventBodySchema cursor b =
     (case b of
        Message role phase item text \<Rightarrow>
          do {
            item \<leftarrow> nullable codexItemIdSchema item;
            text \<leftarrow> bounded 0 eventTextLength text;
            _ \<leftarrow> guard (\<not> (role = Role_user \<and> phase = Phase_delta));
            Some (Message role phase item text)
          }
      | Turn turn state err \<Rightarrow>
          do {
            turn \<leftarrow> codexTurnIdSchema turn;
            err \<leftarrow> nullable turnErrorSchema err;
            _ \<leftarrow> guard (\<not> (state = TS_failed \<and> err = None));
            _ \<leftarrow> guard (\<not> (state \<noteq> TS_failed \<and> err \<noteq> None));
            Some (Turn turn state err)
          }
      | Activity kind state item title detail \<Rightarrow>
          do {
            item \<leftarrow> nullable codexItemIdSchema item;
            title \<leftarrow> bounded 1 eventLabelLength title;
            detail \<leftarrow> nullable (bounded 0 eventDetailLength) detail;
            Some (Activity kind state item title detail)
          }
      | Approval request state action scope reason risk expires decision \<Rightarrow>
          do {
            request \<leftarrow> runtimeRequestIdSchema request;
            action \<leftarrow> bounded 1 approvalFieldLength action;
            scope \<leftarrow> bounded 1 approvalFieldLength scope;
            reason \<leftarrow> nullable (bounded 0 approvalFieldLength) reason;
            expires \<leftarrow> nullable isoTimestampSchema expires;
            _ \<leftarrow> guard (\<not> (state = AP_pending \<and> decision \<noteq> None));
            _ \<leftarrow> guard (\<not> (state = AP_approved \<and> decision \<noteq> Some Choice_approve));
            _ \<leftarrow> guard (\<not> (state = AP_denied \<and> decision \<noteq> Some Choice_deny));
            _ \<leftarrow> guard (\<not> (state \<in> {AP_expired, AP_superseded} \<and> decision \<noteq> None));
            Some (Approval request state action scope reason risk expires decision)
          }
      | Control kind state summary \<Rightarrow>
          do {
            summary \<leftarrow> nullable (bounded 0 summaryLength) summary;
            Some (Control kind state summary)
          }
      | Runtime state info \<Rightarrow>
          do {
            info \<leftarrow> nullable (bounded 1 reasonLength) info;
            _ \<leftarrow> guard (\<not> (state \<noteq> RC_ready \<and> info = None));
            _ \<leftarrow> guard (\<not> (state = RC_ready \<and> info \<noteq> None));
            Some (Runtime state info)
          }
      | Replay_boundary after next_cursor reason \<Rightarrow>
          do {
            _ \<leftarrow> guard (case after of None \<Rightarrow> True | Some a \<Rightarrow> outputCursorOk a);
            _ \<leftarrow> guard (outputCursorOk next_cursor);
            _ \<leftarrow> guard (\<not> (case after of None \<Rightarrow> False | Some a \<Rightarrow> next_cursor \<le> a));
            _ \<leftarrow> guard (cursor = next_cursor);
            Some b
          }
      | Unknown_optional upstream summary \<Rightarrow>
          do {
            upstream \<leftarrow> bounded 1 eventTypeLength upstream;
            summary \<leftarrow> bounded 1 summaryLength summary;
            Some (Unknown_optional upstream summary)
          })"

definition selectedProjectionEventSchema :: "projection_event \<Rightarrow> projection_event option" where
  "selectedProjectionEventSchema e =
     do {
       session \<leftarrow> sessionIdSchema (eventSessionId e);
       _ \<leftarrow> guard (outputCursorOk (eventCursor e));
       captured \<leftarrow> isoTimestampSchema (capturedAt e);
       upstream \<leftarrow> nullable isoTimestampSchema (upstreamAt e);
       ident \<leftarrow> nullable (bounded 1 eventTypeLength) (codexEventId e);
       kind \<leftarrow> nullable (bounded 1 eventTypeLength) (codexEventType e);
       notice \<leftarrow> nullable (bounded 1 reasonLength) (contentNotice e);
       b \<leftarrow> eventBodySchema (eventCursor e) (eventBody e);
       _ \<leftarrow> guard (\<not> (contentState e = Content_complete \<and> notice \<noteq> None));
       _ \<leftarrow> guard (\<not> (contentState e \<noteq> Content_complete \<and> notice = None));
       Some (e\<lparr> eventSessionId := session, capturedAt := captured, upstreamAt := upstream, codexEventId := ident,
               codexEventType := kind, contentNotice := notice, eventBody := b \<rparr>)
     }"

definition isBoundary :: "('n, 'a) event_fields_scheme \<Rightarrow> bool" where
  "isBoundary e = (case eventBody e of Replay_boundary _ _ _ \<Rightarrow> True | _ \<Rightarrow> False)"

definition boundaryAfter :: "('n, 'a) event_fields_scheme \<Rightarrow> int option" where
  "boundaryAfter e = (case eventBody e of Replay_boundary after _ _ \<Rightarrow> after | _ \<Rightarrow> None)"

section \<open>Event streams\<close>

record event_stream =
  streamSession :: js_string
  streamEvents :: "projection_event list"
  streamNext :: int
  streamTruncated :: bool

text \<open>The loop of the stream's \<open>superRefine\<close>: no issue is found, and whether a boundary was seen.\<close>

fun streamLoop :: "js_string \<Rightarrow> int \<Rightarrow> nat \<Rightarrow> int \<Rightarrow> bool \<Rightarrow> projection_event list \<Rightarrow> bool option" where
  "streamLoop session next_cursor index previous hasReplayBoundary [] = Some hasReplayBoundary"
| "streamLoop session next_cursor index previous hasReplayBoundary (event # events) =
     do {
       _ \<leftarrow> guard (eventSessionId event = session);
       _ \<leftarrow> guard (\<not> eventCursor event \<le> previous);
       _ \<leftarrow> guard (\<not> eventCursor event > next_cursor);
       _ \<leftarrow> guard (\<not> (isBoundary event \<and> (hasReplayBoundary \<or> index \<noteq> 0)));
       streamLoop session next_cursor (index + 1) (eventCursor event) (hasReplayBoundary \<or> isBoundary event) events
     }"

fun parseEvents :: "projection_event list \<Rightarrow> projection_event list option" where
  "parseEvents [] = Some []"
| "parseEvents (e # es) = do { e \<leftarrow> selectedProjectionEventSchema e; es \<leftarrow> parseEvents es; Some (e # es) }"

definition selectedSessionEventStreamSchema :: "event_stream \<Rightarrow> event_stream option" where
  "selectedSessionEventStreamSchema v =
     do {
       session \<leftarrow> sessionIdSchema (streamSession v);
       events \<leftarrow> parseEvents (streamEvents v);
       _ \<leftarrow> guard (outputCursorOk (streamNext v));
       hasReplayBoundary \<leftarrow> streamLoop session (streamNext v) 0 (- 1) False events;
       _ \<leftarrow> guard (streamTruncated v = hasReplayBoundary);
       Some (v\<lparr> streamSession := session, streamEvents := events \<rparr>)
     }"

section \<open>Stored records\<close>

definition maxEventBytes :: int where "maxEventBytes = 1000000"
definition maxProjectionEvents :: int where "maxProjectionEvents = 1000000"
definition maxProjectionBytes :: int where "maxProjectionBytes = 1000000000"

lemmas storage_limits = maxEventBytes_def maxProjectionEvents_def maxProjectionBytes_def

datatype mapping_disposition = Disposition_selected | Disposition_recovery_required

record session_mapping =
  mappingId :: js_string
  mappingName :: js_string
  mappingThread :: js_string
  mappingCwd :: js_string
  mappingSource :: js_string
  mappingVersion :: js_string
  mappingDisposition :: mapping_disposition
  mappingCreatedAt :: js_string
  mappingUpdatedAt :: js_string
  mappingArchivedAt :: "js_string option"

record projection_record =
  projectionSession :: managed_session
  retainedCount :: int
  retainedBytes :: int
  earliestCursor :: "int option"
  boundaryCursor :: "int option"

record event_record =
  recordEvent :: projection_event
  recordBytes :: int

definition selectedSessionMappingRecordSchema :: "session_mapping \<Rightarrow> session_mapping option" where
  "selectedSessionMappingRecordSchema v =
     do {
       ident \<leftarrow> sessionIdSchema (mappingId v);
       name \<leftarrow> sessionNameSchema (mappingName v);
       thread \<leftarrow> codexThreadIdSchema (mappingThread v);
       cwd \<leftarrow> absoluteCwdSchema (mappingCwd v);
       _ \<leftarrow> guard (mappingSource v = selectedRuntimeSource);
       version \<leftarrow> codexVersionSchema (mappingVersion v);
       created \<leftarrow> isoTimestampSchema (mappingCreatedAt v);
       updated \<leftarrow> isoTimestampSchema (mappingUpdatedAt v);
       archived \<leftarrow> nullable isoTimestampSchema (mappingArchivedAt v);
       Some (v\<lparr> mappingId := ident, mappingName := name, mappingThread := thread, mappingCwd := cwd,
               mappingVersion := version, mappingCreatedAt := created, mappingUpdatedAt := updated,
               mappingArchivedAt := archived \<rparr>)
     }"

definition cursorOptionOk :: "int option \<Rightarrow> bool" where
  "cursorOptionOk c = (case c of None \<Rightarrow> True | Some c \<Rightarrow> outputCursorOk c)"

definition projectionCountersOk :: "projection_record \<Rightarrow> bool" where
  "projectionCountersOk v \<longleftrightarrow>
     0 \<le> retainedCount v \<and> retainedCount v \<le> maxProjectionEvents \<and>
     0 \<le> retainedBytes v \<and> retainedBytes v \<le> maxProjectionBytes \<and>
     cursorOptionOk (earliestCursor v) \<and> cursorOptionOk (boundaryCursor v) \<and>
     \<not> (retainedCount v = 0 \<and> earliestCursor v \<noteq> None) \<and>
     \<not> (retainedCount v > 0 \<and> earliestCursor v = None) \<and>
     (case (boundaryCursor v, earliestCursor v) of (Some b, Some e) \<Rightarrow> \<not> b \<ge> e | _ \<Rightarrow> True)"

definition selectedSessionProjectionRecordSchema :: "projection_record \<Rightarrow> projection_record option" where
  "selectedSessionProjectionRecordSchema v =
     do {
       session \<leftarrow> managedSessionProjectionSchema (projectionSession v);
       _ \<leftarrow> guard (projectionCountersOk v);
       Some (v\<lparr> projectionSession := session \<rparr>)
     }"

definition selectedProjectedEventRecordSchema :: "event_record \<Rightarrow> event_record option" where
  "selectedProjectedEventRecordSchema v =
     do {
       event \<leftarrow> selectedProjectionEventSchema (recordEvent v);
       _ \<leftarrow> guard (0 < recordBytes v \<and> recordBytes v \<le> maxEventBytes);
       Some (v\<lparr> recordEvent := event \<rparr>)
     }"

record retention_policy =
  outputEventLimit :: int
  outputByteLimit :: int
  auditEventLimit :: int
  auditRetentionDays :: int

definition retentionPolicySchema :: "retention_policy \<Rightarrow> retention_policy option" where
  "retentionPolicySchema p =
     (if 0 < outputEventLimit p \<and> outputEventLimit p \<le> 1000000 \<and>
         0 < outputByteLimit p \<and> outputByteLimit p \<le> 1000000000 \<and>
         0 < auditEventLimit p \<and> auditEventLimit p \<le> 1000000 \<and>
         0 < auditRetentionDays p \<and> auditRetentionDays p \<le> 365
      then Some p else None)"

definition defaultRetentionPolicy :: retention_policy where
  "defaultRetentionPolicy =
     \<lparr> outputEventLimit = 10000, outputByteLimit = 10000000, auditEventLimit = 5000, auditRetentionDays = 30 \<rparr>"

section \<open>The values a schema keeps\<close>

lemma guard_Some [simp]: "guard b = Some u \<longleftrightarrow> b"
  by (simp add: guard_def)

lemma bounded_Some [simp]: "bounded a b s = Some t \<longleftrightarrow> t = s \<and> a \<le> length s \<and> length s \<le> b"
  by (auto simp: bounded_def)

lemma nullable_None [simp]: "nullable f None = Some None"
  by (simp add: nullable_def)

lemma nullable_Some [simp]: "nullable f (Some x) = Some y \<longleftrightarrow> (\<exists>z. f x = Some z \<and> y = Some z)"
  by (auto simp: nullable_def)

lemma nullable_bounded:
  "nullable (bounded a b) v = Some w \<longleftrightarrow> w = v \<and> (\<forall>s. v = Some s \<longrightarrow> a \<le> length s \<and> length s \<le> b)"
  by (cases v) auto

text \<open>
  Stored and reduced data are in normal form: their schema returns them unchanged. (A timestamp
  whose instant lies outside the years 0 to 9999 is accepted once and refused in its normal form,
  so not every parsed value is.)
\<close>

definition sessionFieldsOk :: "'a session_projection_scheme \<Rightarrow> bool" where
  "sessionFieldsOk v \<longleftrightarrow>
     sessionIdSchema (sessionIdent v) = Some (sessionIdent v) \<and> sessionNameSchema (sessionName v) = Some (sessionName v) \<and>
     codexThreadIdSchema (codexThreadId v) = Some (codexThreadId v) \<and>
     absoluteCwdSchema (sessionCwd v) = Some (sessionCwd v) \<and> runtimeSource v = selectedRuntimeSource \<and>
     codexVersionSchema (runtimeVersion v) = Some (runtimeVersion v) \<and>
     isoTimestampSchema (createdAt v) = Some (createdAt v) \<and>
     nullable isoTimestampSchema (archivedAt v) = Some (archivedAt v) \<and>
     nullable (bounded 1 reasonLength) (freshnessReason v) = Some (freshnessReason v) \<and>
     isoTimestampSchema (updatedAt v) = Some (updatedAt v) \<and>
     nullable isoTimestampSchema (lastActivityAt v) = Some (lastActivityAt v) \<and>
     nullable (bounded 1 branchLength) (sessionBranch v) = Some (sessionBranch v) \<and>
     nullable (bounded 1 modelLength) (sessionModel v) = Some (sessionModel v) \<and>
     nullable managedSessionSettingsProjectionSchema (sessionSettings v) = Some (sessionSettings v) \<and>
     nullable goalCueSchema (sessionGoal v) = Some (sessionGoal v) \<and>
     length (recentSummary v) \<le> summaryLength \<and> sessionRefined v"

definition sessionOk :: "managed_session \<Rightarrow> bool" where
  "sessionOk v \<longleftrightarrow> sessionFieldsOk v \<and> cursorOptionOk (lastEventCursor v)"

lemma session_kept_iff: "managedSessionProjectionSchema v = Some v \<longleftrightarrow> sessionOk v"
proof
  assume "sessionOk v"
  then show "managedSessionProjectionSchema v = Some v"
    by (simp add: sessionOk_def sessionFieldsOk_def managedSessionProjectionSchema_def cursorOptionOk_def guard_def bounded_def)
next
  assume "managedSessionProjectionSchema v = Some v"
  then show "sessionOk v"
    by (cases v) (auto simp: managedSessionProjectionSchema_def bind_eq_Some_conv sessionOk_def sessionFieldsOk_def
        cursorOptionOk_def)
qed

definition eventOk :: "projection_event \<Rightarrow> bool" where
  "eventOk e \<longleftrightarrow>
     sessionIdSchema (eventSessionId e) = Some (eventSessionId e) \<and> outputCursorOk (eventCursor e) \<and>
     isoTimestampSchema (capturedAt e) = Some (capturedAt e) \<and>
     nullable isoTimestampSchema (upstreamAt e) = Some (upstreamAt e) \<and>
     nullable (bounded 1 eventTypeLength) (codexEventId e) = Some (codexEventId e) \<and>
     nullable (bounded 1 eventTypeLength) (codexEventType e) = Some (codexEventType e) \<and>
     nullable (bounded 1 reasonLength) (contentNotice e) = Some (contentNotice e) \<and>
     eventBodySchema (eventCursor e) (eventBody e) = Some (eventBody e) \<and>
     (contentState e = Content_complete \<longleftrightarrow> contentNotice e = None)"

lemma event_kept_iff: "selectedProjectionEventSchema e = Some e \<longleftrightarrow> eventOk e"
proof
  assume "eventOk e"
  then show "selectedProjectionEventSchema e = Some e"
    by (auto simp: eventOk_def selectedProjectionEventSchema_def guard_def)
next
  assume "selectedProjectionEventSchema e = Some e"
  then show "eventOk e"
    by (cases e) (auto simp: selectedProjectionEventSchema_def bind_eq_Some_conv eventOk_def)
qed

lemma projection_kept_iff:
  "selectedSessionProjectionRecordSchema p = Some p \<longleftrightarrow> sessionOk (projectionSession p) \<and> projectionCountersOk p"
  by (cases p) (auto simp: selectedSessionProjectionRecordSchema_def bind_eq_Some_conv guard_def session_kept_iff [symmetric])

lemma record_kept_iff:
  "selectedProjectedEventRecordSchema r = Some r \<longleftrightarrow>
     eventOk (recordEvent r) \<and> 0 < recordBytes r \<and> recordBytes r \<le> maxEventBytes"
  by (cases r) (auto simp: selectedProjectedEventRecordSchema_def bind_eq_Some_conv guard_def event_kept_iff [symmetric])

end
