(* ===== verification/Codex_Event.thy ===== *)
theory Codex_Event
  imports Projection_Contract
begin

text \<open>
  The normalized Codex events of \<open>packages/codex-adapter/src/event-normalizer.ts\<close>, with the
  content helpers of \<open>event-normalizer-support.ts\<close>. \<open>normalizedOk\<close> states what the normalizer
  promises of an event; \<open>Codex_Normalizer\<close> proves it and \<open>Projection_Reducer\<close> relies on it.
\<close>

section \<open>Values\<close>

datatype thread_status = Thread_active | Thread_idle | Thread_not_loaded | Thread_system_error

datatype active_flag = Waiting_on_approval | Waiting_on_user_input

datatype item_category =
  Cat_agent_message | Cat_command | Cat_compaction | Cat_file_change | Cat_other | Cat_plan | Cat_reasoning
| Cat_tool | Cat_user_message

datatype item_state = Item_is_completed | Item_is_failed | Item_is_started

datatype terminal_status = Turn_is_completed | Turn_is_failed | Turn_is_interrupted

datatype plan_status = Step_completed | Step_in_progress | Step_pending

record codex_item =
  itemId :: js_string
  itemCategory :: item_category
  itemState :: item_state
  itemTitle :: js_string
  itemText :: "js_string option"
  itemContentState :: content_state
  itemContentNotice :: "js_string option"

record token_usage =
  totalTokens :: int
  inputTokens :: int
  cachedInputTokens :: int
  outputTokens :: int
  reasoningOutputTokens :: int

record rate_window =
  usedPercent :: js_number
  windowDuration :: "int option"
  resetsAt :: "js_string option"

section \<open>Events\<close>

text \<open>The members of \<open>NormalizedCodexEvent\<close> that belong to one thread, without their common fields.\<close>

datatype codex_event =
  Thread_started thread_status "active_flag list" "js_string option"
| Thread_status_changed thread_status "active_flag list"
| Thread_name_updated "js_string option"
| Thread_archived
| Thread_settings_updated js_string "js_string option" collaboration_mode
| Thread_goal_updated "js_string option" js_string goal_state "int option" int content_state "js_string option"
| Thread_goal_cleared
| Thread_token_usage_updated js_string token_usage token_usage "int option"
| Turn_started js_string
| Turn_completed js_string terminal_status "js_string option"
| Turn_plan_updated js_string "js_string option" "(js_string \<times> plan_status) list"
| Item_started js_string codex_item
| Item_completed js_string codex_item
| Agent_message_delta js_string js_string js_string content_state "js_string option"
| Plan_delta js_string js_string js_string content_state "js_string option"
| Request_resolved js_string

record event_common =
  evSequence :: int
  evCapturedAt :: js_string
  evUpstreamAt :: "js_string option"
  evCodexId :: "js_string option"

record thread_event = event_common +
  evThread :: js_string
  evPayload :: codex_event

record rate_limits_event = event_common +
  evPrimary :: "rate_window option"
  evSecondary :: "rate_window option"
  evReached :: "js_string option"

datatype normalized_event = Thread_scope thread_event | Runtime_scope rate_limits_event

fun eventMethod :: "codex_event \<Rightarrow> js_string" where
  "eventMethod (Thread_started _ _ _) = js ''thread/started''"
| "eventMethod (Thread_status_changed _ _) = js ''thread/status/changed''"
| "eventMethod (Thread_name_updated _) = js ''thread/name/updated''"
| "eventMethod Thread_archived = js ''thread/archived''"
| "eventMethod (Thread_settings_updated _ _ _) = js ''thread/settings/updated''"
| "eventMethod (Thread_goal_updated _ _ _ _ _ _ _) = js ''thread/goal/updated''"
| "eventMethod Thread_goal_cleared = js ''thread/goal/cleared''"
| "eventMethod (Thread_token_usage_updated _ _ _ _) = js ''thread/tokenUsage/updated''"
| "eventMethod (Turn_started _) = js ''turn/started''"
| "eventMethod (Turn_completed _ _ _) = js ''turn/completed''"
| "eventMethod (Turn_plan_updated _ _ _) = js ''turn/plan/updated''"
| "eventMethod (Item_started _ _) = js ''item/started''"
| "eventMethod (Item_completed _ _) = js ''item/completed''"
| "eventMethod (Agent_message_delta _ _ _ _ _) = js ''item/agentMessage/delta''"
| "eventMethod (Plan_delta _ _ _ _ _) = js ''item/plan/delta''"
| "eventMethod (Request_resolved _) = js ''serverRequest/resolved''"

section \<open>Bounded content\<close>

definition maximumTextLength :: nat where "maximumTextLength = 12000"
definition maximumSummaryLength :: nat where "maximumSummaryLength = 512"
definition maximumDetailLength :: nat where "maximumDetailLength = 2000"
definition maximumMethodLength :: nat where "maximumMethodLength = 160"

lemmas content_limits = maximumTextLength_def maximumSummaryLength_def maximumDetailLength_def maximumMethodLength_def

definition boundCodexContent ::
  "js_string \<Rightarrow> nat \<Rightarrow> js_string \<Rightarrow> bool \<Rightarrow> js_string \<times> content_state \<times> js_string option" where
  "boundCodexContent text maximum notice redacted =
     (let truncated = length text > maximum in
      (if truncated then take maximum text else text,
       if redacted then (if truncated then Content_redacted_and_truncated else Content_redacted)
       else if truncated then Content_truncated else Content_complete,
       if redacted \<or> truncated then Some notice else None))"

definition boundedCodexText :: "js_string \<Rightarrow> nat \<Rightarrow> js_string" where
  "boundedCodexText text maximum =
     (if length text \<le> maximum then text else take (maximum - 3) text @ js ''...'')"

definition contentOk :: "nat \<Rightarrow> js_string option \<Rightarrow> content_state \<Rightarrow> js_string option \<Rightarrow> bool" where
  "contentOk maximum text state notice \<longleftrightarrow>
     (\<forall>t. text = Some t \<longrightarrow> length t \<le> maximum) \<and> (state = Content_complete \<longleftrightarrow> notice = None) \<and>
     (\<forall>n. notice = Some n \<longrightarrow> 1 \<le> length n \<and> length n \<le> 240)"

lemma boundCodexContent_ok:
  assumes "boundCodexContent text maximum notice redacted = (t, s, n)" "1 \<le> length notice" "length notice \<le> 240"
  shows "contentOk maximum (Some t) s n" "text \<noteq> [] \<Longrightarrow> 0 < maximum \<Longrightarrow> t \<noteq> []"
  using assms by (auto simp: boundCodexContent_def contentOk_def Let_def split: if_splits)

lemma boundedCodexText_length:
  "3 \<le> maximum \<Longrightarrow> length (boundedCodexText text maximum) \<le> maximum"
  "text \<noteq> [] \<Longrightarrow> boundedCodexText text maximum \<noteq> []"
  by (auto simp: boundedCodexText_def)

section \<open>What the normalizer promises\<close>

definition itemOk :: "codex_item \<Rightarrow> bool" where
  "itemOk i \<longleftrightarrow>
     codexItemIdSchema (itemId i) = Some (itemId i) \<and>
     1 \<le> length (itemTitle i) \<and> length (itemTitle i) \<le> 240 \<and>
     contentOk maximumTextLength (itemText i) (itemContentState i) (itemContentNotice i)"

text \<open>
  The length of a decimal text of a safe integer, for the details that print one.
\<close>

definition safeCount :: "int \<Rightarrow> bool" where
  "safeCount n \<longleftrightarrow> 0 \<le> n \<and> n \<le> maxSafe"

fun payloadOk :: "codex_event \<Rightarrow> bool" where
  "payloadOk (Thread_name_updated name) = (\<forall>n. name = Some n \<longrightarrow> 1 \<le> length n \<and> length n \<le> 240)"
| "payloadOk (Thread_settings_updated model effort mode) =
     (1 \<le> length model \<and> length model \<le> modelLength \<and>
      (\<forall>e. effort = Some e \<longrightarrow> length e \<le> reasoningEffortLength))"
| "payloadOk (Thread_goal_updated turn objective status budget used state notice) =
     (1 \<le> length objective \<and> contentOk maximumSummaryLength (Some objective) state notice)"
| "payloadOk (Thread_token_usage_updated turn overall latest window) =
     (safeCount (totalTokens overall) \<and> safeCount (totalTokens latest) \<and> (\<forall>w. window = Some w \<longrightarrow> safeCount w))"
| "payloadOk (Turn_started turn) = (codexTurnIdSchema turn = Some turn)"
| "payloadOk (Turn_completed turn status err) =
     (codexTurnIdSchema turn = Some turn \<and> (status = Turn_is_failed \<longleftrightarrow> err \<noteq> None) \<and>
      (\<forall>e. err = Some e \<longrightarrow> 1 \<le> length e \<and> length e \<le> 240))"
| "payloadOk (Turn_plan_updated turn explanation plan) =
     ((\<forall>e. explanation = Some e \<longrightarrow> length e \<le> maximumDetailLength) \<and> length plan \<le> 256)"
| "payloadOk (Item_started turn i) = itemOk i"
| "payloadOk (Item_completed turn i) = (itemOk i \<and> itemState i \<noteq> Item_is_started)"
| "payloadOk (Agent_message_delta turn i delta state notice) =
     (codexItemIdSchema i = Some i \<and> contentOk maximumTextLength (Some delta) state notice)"
| "payloadOk (Plan_delta turn i delta state notice) =
     (codexItemIdSchema i = Some i \<and> contentOk maximumTextLength (Some delta) state notice)"
| "payloadOk _ = True"

definition normalizedOk :: "thread_event \<Rightarrow> bool" where
  "normalizedOk e \<longleftrightarrow>
     isoTimestampSchema (evCapturedAt e) = Some (evCapturedAt e) \<and>
     nullable isoTimestampSchema (evUpstreamAt e) = Some (evUpstreamAt e) \<and>
     (\<forall>i. evCodexId e = Some i \<longrightarrow> 1 \<le> length i \<and> length i \<le> 160) \<and>
     payloadOk (evPayload e)"

end
