(* ===== verification/Projection_Reducer.thy ===== *)
theory Projection_Reducer
  imports Codex_Event
begin

text \<open>
  \<open>packages/server/src/codex-projection-reducer.ts\<close>: one normalized event and the committed session
  give the event to append and the next session. A patch (\<open>Partial\<close>) is a function on sessions, so
  spreading it over an object is applying it. The next session has no \<open>last_event_cursor\<close>; the
  append port adds it.
\<close>

section \<open>Helpers\<close>

definition boundedSummary :: "js_string \<Rightarrow> js_string" where
  "boundedSummary text = (if length text \<le> 512 then text else take 509 text @ js ''...'')"

definition activeTurnState :: "turn_state \<Rightarrow> bool" where
  "activeTurnState state \<longleftrightarrow> state \<in> {TS_in_progress, TS_waiting_for_approval, TS_waiting_for_input}"

fun statusText :: "thread_status \<Rightarrow> js_string" where
  "statusText Thread_active = js ''active''"
| "statusText Thread_idle = js ''idle''"
| "statusText Thread_not_loaded = js ''not_loaded''"
| "statusText Thread_system_error = js ''system_error''"

fun goalStatusName :: "goal_state \<Rightarrow> js_string" where
  "goalStatusName GS_active = js ''active''"
| "goalStatusName GS_paused = js ''paused''"
| "goalStatusName GS_blocked = js ''blocked''"
| "goalStatusName GS_usage_limited = js ''usage_limited''"
| "goalStatusName GS_budget_limited = js ''budget_limited''"
| "goalStatusName GS_complete = js ''complete''"

text \<open>\<open>replaceAll("_", " ")\<close>\<close>

definition spaced :: "js_string \<Rightarrow> js_string" where
  "spaced text = map (\<lambda>c. if c = 95 then 32 else c) text"

fun modeName :: "collaboration_mode \<Rightarrow> js_string" where
  "modeName CM_default = js ''default''"
| "modeName CM_plan = js ''plan''"

fun terminalName :: "terminal_status \<Rightarrow> js_string" where
  "terminalName Turn_is_completed = js ''completed''"
| "terminalName Turn_is_failed = js ''failed''"
| "terminalName Turn_is_interrupted = js ''interrupted''"

fun terminalTurn :: "terminal_status \<Rightarrow> turn_state" where
  "terminalTurn Turn_is_completed = TS_completed"
| "terminalTurn Turn_is_failed = TS_failed"
| "terminalTurn Turn_is_interrupted = TS_interrupted"

fun itemActivityState :: "item_state \<Rightarrow> activity_state" where
  "itemActivityState Item_is_started = AS_started"
| "itemActivityState Item_is_completed = AS_completed"
| "itemActivityState Item_is_failed = AS_failed"

fun itemActivity :: "item_category \<Rightarrow> activity_kind" where
  "itemActivity Cat_command = AK_command"
| "itemActivity Cat_file_change = AK_file_change"
| "itemActivity Cat_compaction = AK_compaction"
| "itemActivity Cat_reasoning = AK_reasoning"
| "itemActivity Cat_agent_message = AK_thread"
| "itemActivity Cat_plan = AK_thread"
| "itemActivity Cat_user_message = AK_thread"
| "itemActivity Cat_other = AK_tool"
| "itemActivity Cat_tool = AK_tool"

type_synonym session_patch = "session_projection \<Rightarrow> session_projection"

section \<open>The next session\<close>

definition nextSession :: "managed_session \<Rightarrow> thread_event \<Rightarrow> session_patch \<Rightarrow> session_projection" where
  "nextSession session event patch =
     patch ((session_projection.truncate session)\<lparr> updatedAt := evCapturedAt event \<rparr>)"

definition threadStatusPatch :: "managed_session \<Rightarrow> thread_status \<Rightarrow> active_flag list \<Rightarrow> bool \<Rightarrow> session_patch" where
  "threadStatusPatch session status flags initial =
     (if lifecycleState session = MS_archived then id
      else if status = Thread_system_error then
        (\<lambda>s. s\<lparr> lifecycleState := MS_unknown, turnState := TS_unknown, sessionAttention := AL_failed,
             sessionFreshness := PF_stale,
             freshnessReason := Some (js ''Codex reported a thread system error.''),
             recentSummary := js ''Codex reported a thread system error.'' \<rparr>)
      else if status = Thread_not_loaded then
        (\<lambda>s. s\<lparr> lifecycleState := MS_unknown, turnState := TS_unknown, sessionAttention := AL_unknown,
             sessionFreshness := PF_stale,
             freshnessReason := Some (js ''Codex thread is not loaded; reconciliation is required.''),
             recentSummary := js ''Codex thread is not loaded; reconciliation is required.'' \<rparr>)
      else if status = Thread_active then
        (if Waiting_on_approval \<in> set flags then
           (\<lambda>s. s\<lparr> lifecycleState := MS_active, turnState := TS_waiting_for_approval, sessionAttention := AL_needs_approval \<rparr>)
         else if Waiting_on_user_input \<in> set flags then
           (\<lambda>s. s\<lparr> lifecycleState := MS_active, turnState := TS_waiting_for_input, sessionAttention := AL_needs_input \<rparr>)
         else
           (\<lambda>s. s\<lparr> lifecycleState := MS_active,
                turnState := (if activeTurnState (turnState session) then TS_in_progress else TS_unknown),
                sessionAttention := AL_watch \<rparr>))
      else if activeTurnState (turnState session) then (\<lambda>s. s\<lparr> lifecycleState := MS_active \<rparr>)
      else
        (\<lambda>s. (if initial then s\<lparr> recentSummary := js ''Codex thread is ready.'' \<rparr> else s)
           \<lparr> lifecycleState := MS_active, turnState := TS_idle, sessionAttention := AL_none \<rparr>))"

definition activityReduction ::
  "managed_session \<Rightarrow> thread_event \<Rightarrow> uncommitted_event \<Rightarrow> session_patch \<Rightarrow> bool \<Rightarrow>
     uncommitted_event \<times> session_projection" where
  "activityReduction session event projected patch updateSummary =
     (let summary = (case eventBody projected of Activity _ _ _ title _ \<Rightarrow> title | _ \<Rightarrow> recentSummary session) in
      (projected,
       nextSession session event
         (\<lambda>s. patch ((if updateSummary then (\<lambda>s. s\<lparr> recentSummary := boundedSummary summary \<rparr>) else id)
                (s\<lparr> lastActivityAt := Some (evCapturedAt event) \<rparr>)))))"

text \<open>\<open>{ ...base, ... }\<close>: the common fields with complete content, then the variant's own.\<close>

definition eventBase :: "thread_event \<Rightarrow> unit event_body \<Rightarrow> uncommitted_event" where
  "eventBase event b =
     \<lparr> capturedAt = evCapturedAt event, upstreamAt = evUpstreamAt event, codexEventId = evCodexId event,
       codexEventType = Some (eventMethod (evPayload event)), contentState = Content_complete,
       contentNotice = None, eventBody = b \<rparr>"

definition withContent :: "content_state \<Rightarrow> js_string option \<Rightarrow> uncommitted_event \<Rightarrow> uncommitted_event" where
  "withContent state notice e = e\<lparr> contentState := state, contentNotice := notice \<rparr>"

definition reduceItem :: "managed_session \<Rightarrow> thread_event \<Rightarrow> codex_item \<Rightarrow> uncommitted_event \<times> session_projection" where
  "reduceItem session event item =
     (case (if itemCategory item \<in> {Cat_agent_message, Cat_plan, Cat_user_message} \<and>
               \<not> (itemCategory item = Cat_user_message \<and> itemState item = Item_is_started)
            then itemText item else None) of
        Some (c # text) \<Rightarrow>
          (withContent (itemContentState item) (itemContentNotice item)
             (eventBase event
                (Message (if itemCategory item = Cat_user_message then Role_user else Role_agent)
                   (if itemState item = Item_is_started then Phase_delta else Phase_completed)
                   (Some (itemId item)) (c # text))),
           nextSession session event
             (\<lambda>s. s\<lparr> lastActivityAt := Some (evCapturedAt event), recentSummary := boundedSummary (c # text) \<rparr>))
      | _ \<Rightarrow>
          activityReduction session event
            (withContent (itemContentState item) (itemContentNotice item)
               (eventBase event
                  (Activity (itemActivity (itemCategory item)) (itemActivityState (itemState item))
                     (Some (itemId item)) (itemTitle item) None)))
            (\<lambda>s. s\<lparr> lastActivityAt := Some (evCapturedAt event), recentSummary := itemTitle item \<rparr>) True)"

section \<open>The reducer\<close>

definition threadActivity :: "activity_state \<Rightarrow> js_string \<Rightarrow> js_string \<Rightarrow> unit event_body" where
  "threadActivity state title detail = Activity AK_thread state None title (Some detail)"

definition reduceCodexProjectionEvent :: "managed_session \<Rightarrow> thread_event \<Rightarrow> uncommitted_event \<times> session_projection" where
  "reduceCodexProjectionEvent session event =
     (let archived = (lifecycleState session = MS_archived); now = evCapturedAt event in
      case evPayload event of
        Thread_started status flags name \<Rightarrow>
          activityReduction session event
            (eventBase event (threadActivity AS_started (js ''Codex thread started'')
               (js ''Runtime status: '' @ statusText status @ js ''.'')))
            (threadStatusPatch session status flags True) True
      | Thread_status_changed status flags \<Rightarrow>
          activityReduction session event
            (eventBase event (threadActivity AS_updated (js ''Codex thread status updated'')
               (js ''Runtime status: '' @ statusText status @ js ''.'')))
            (threadStatusPatch session status flags False) False
      | Thread_name_updated name \<Rightarrow>
          activityReduction session event
            (eventBase event (threadActivity AS_updated (js ''Codex thread name updated'')
               (case name of None \<Rightarrow> js ''Codex cleared its thread title.'' | Some n \<Rightarrow> js ''Codex title: '' @ n)))
            id False
      | Thread_archived \<Rightarrow>
          activityReduction session event
            (eventBase event (threadActivity AS_completed (js ''Codex thread archived'')
               (js ''HostDeck lifecycle reconciliation must confirm durable archive identity.'')))
            (\<lambda>s. s\<lparr> lifecycleState := (if archived then MS_archived else MS_unknown),
                 turnState := (if archived then turnState session else TS_unknown),
                 sessionAttention := (if archived then sessionAttention session else AL_unknown),
                 sessionFreshness := (if archived then sessionFreshness session else PF_stale),
                 freshnessReason := (if archived then freshnessReason session
                    else Some (js ''Codex archived the thread before HostDeck lifecycle reconciliation.'')),
                 recentSummary := (if archived then recentSummary session
                    else js ''Codex archived the thread; HostDeck lifecycle reconciliation is required.'') \<rparr>)
            True
      | Thread_settings_updated model effort mode \<Rightarrow>
          activityReduction session event
            (eventBase event
               (Activity AK_settings AS_updated None (js ''Codex settings updated'')
                  (Some (js ''Model '' @ model @ js ''; collaboration mode '' @ modeName mode @ js ''; effort '' @
                     (case effort of None \<Rightarrow> js ''default'' | Some e \<Rightarrow> e) @ js ''.''))))
            (\<lambda>s. s\<lparr> sessionModel := Some model,
                 sessionSettings := Some \<lparr> collaborationMode = mode, runtimeModel = model, reasoningEffort = effort,
                   observedAt = now \<rparr> \<rparr>)
            False
      | Thread_goal_updated turn objective status budget used state notice \<Rightarrow>
          (withContent state notice
             (eventBase event
                (Control CK_goal
                   (case status of GS_active \<Rightarrow> CTL_active | GS_paused \<Rightarrow> CTL_paused | GS_complete \<Rightarrow> CTL_complete
                    | _ \<Rightarrow> CTL_failed)
                   (Some objective))),
           nextSession session event
             (\<lambda>s. s\<lparr> sessionGoal := Some \<lparr> goal_objective = objective, goal_status = status \<rparr>,
                  lastActivityAt := Some now,
                  recentSummary := (if status = GS_active then js ''Goal is active.''
                    else js ''Goal is '' @ spaced (goalStatusName status) @ js ''.'') \<rparr>))
      | Thread_goal_cleared \<Rightarrow>
          (eventBase event (Control CK_goal CTL_available None),
           nextSession session event
             (\<lambda>s. s\<lparr> sessionGoal := None, lastActivityAt := Some now, recentSummary := js ''Goal cleared.'' \<rparr>))
      | Thread_token_usage_updated turn overall latest window \<Rightarrow>
          activityReduction session event
            (eventBase event
               (Activity AK_usage AS_updated None (js ''Token usage updated'')
                  (Some (js ''Total '' @ intText (totalTokens overall) @ js ''; last turn '' @
                     intText (totalTokens latest) @ js ''; context '' @
                     (case window of None \<Rightarrow> js ''unknown'' | Some w \<Rightarrow> intText w) @ js ''.''))))
            id False
      | Turn_started turn \<Rightarrow>
          (eventBase event (Turn turn TS_in_progress None),
           nextSession session event
             (\<lambda>s. s\<lparr> lifecycleState := (if archived then MS_archived else MS_active),
                  turnState := (if archived then turnState session else TS_in_progress),
                  sessionAttention := (if archived then sessionAttention session else AL_watch),
                  lastActivityAt := Some now,
                  recentSummary := (if archived then recentSummary session else js ''Codex turn started.'') \<rparr>))
      | Turn_completed turn status err \<Rightarrow>
          (eventBase event
             (Turn turn (terminalTurn status)
                (if status = Turn_is_failed
                 then Some (js ''unknown_error'',
                   case err of None \<Rightarrow> js ''Codex turn failed without a bounded reason.'' | Some m \<Rightarrow> m)
                 else None)),
           nextSession session event
             (\<lambda>s. s\<lparr> turnState := (if archived then turnState session else terminalTurn status),
                  sessionAttention := (if archived then sessionAttention session
                    else if status = Turn_is_failed then AL_failed
                    else if status = Turn_is_interrupted then AL_stuck else AL_none),
                  lastActivityAt := Some now,
                  recentSummary := (if archived then recentSummary session
                    else if status = Turn_is_failed then (case err of None \<Rightarrow> js ''Codex turn failed.'' | Some m \<Rightarrow> m)
                    else js ''Codex turn '' @ terminalName status @ js ''.'') \<rparr>))
      | Turn_plan_updated turn explanation plan \<Rightarrow>
          (eventBase event
             (Control CK_plan CTL_updating
                (Some (boundedSummary (case explanation of Some e \<Rightarrow> e
                   | None \<Rightarrow> natText (length plan) @ js '' plan steps updated.'')))),
           nextSession session event
             (\<lambda>s. s\<lparr> lastActivityAt := Some now, recentSummary := js ''Codex plan updated.'' \<rparr>))
      | Item_started turn item \<Rightarrow> reduceItem session event item
      | Item_completed turn item \<Rightarrow> reduceItem session event item
      | Agent_message_delta turn item delta state notice \<Rightarrow>
          (withContent state notice (eventBase event (Message Role_agent Phase_delta (Some item) delta)),
           nextSession session event
             (\<lambda>s. s\<lparr> lastActivityAt := Some now,
                  recentSummary := (if boundedSummary delta = [] then recentSummary session else boundedSummary delta) \<rparr>))
      | Plan_delta turn item delta state notice \<Rightarrow>
          (withContent state notice (eventBase event (Message Role_agent Phase_delta (Some item) delta)),
           nextSession session event
             (\<lambda>s. s\<lparr> lastActivityAt := Some now,
                  recentSummary := (if boundedSummary delta = [] then recentSummary session else boundedSummary delta) \<rparr>))
      | Request_resolved request \<Rightarrow>
          activityReduction session event
            (eventBase event
               (Activity AK_approval AS_completed None (js ''Approval request resolved'')
                  (Some (js ''Resolution notification carries no decision or command outcome.''))))
            id False)"

end
