(* ===== verification/Projection_Reducer_Laws.thy ===== *)
theory Projection_Reducer_Laws
  imports Projection_Reducer
begin

text \<open>
  What the reducer promises: the next session of a well-formed event satisfies the session
  contract, and the event to append satisfies the event contract once it is addressed.
\<close>



section \<open>The reduction of a well-formed event\<close>

lemma boundedSummary_length: "length (boundedSummary text) \<le> 512"
  by (simp add: boundedSummary_def)

lemma boundedSummary_empty [simp]: "boundedSummary text = [] \<longleftrightarrow> text = []"
  by (auto simp: boundedSummary_def)

text \<open>The settings of an event that the stored settings contract accepts.\<close>

fun settingsAccepted :: "codex_event \<Rightarrow> bool" where
  "settingsAccepted (Thread_settings_updated model effort mode) = (effort \<noteq> Some [])"
| "settingsAccepted _ = True"

lemma truncate_fields [simp]:
  "sessionIdent (session_projection.truncate s) = sessionIdent s"
  "sessionName (session_projection.truncate s) = sessionName s"
  "codexThreadId (session_projection.truncate s) = codexThreadId s"
  "sessionCwd (session_projection.truncate s) = sessionCwd s"
  "runtimeSource (session_projection.truncate s) = runtimeSource s"
  "runtimeVersion (session_projection.truncate s) = runtimeVersion s"
  "createdAt (session_projection.truncate s) = createdAt s"
  "archivedAt (session_projection.truncate s) = archivedAt s"
  "lifecycleState (session_projection.truncate s) = lifecycleState s"
  "turnState (session_projection.truncate s) = turnState s"
  "sessionAttention (session_projection.truncate s) = sessionAttention s"
  "sessionFreshness (session_projection.truncate s) = sessionFreshness s"
  "freshnessReason (session_projection.truncate s) = freshnessReason s"
  "updatedAt (session_projection.truncate s) = updatedAt s"
  "lastActivityAt (session_projection.truncate s) = lastActivityAt s"
  "sessionBranch (session_projection.truncate s) = sessionBranch s"
  "sessionModel (session_projection.truncate s) = sessionModel s"
  "sessionSettings (session_projection.truncate s) = sessionSettings s"
  "sessionGoal (session_projection.truncate s) = sessionGoal s"
  "recentSummary (session_projection.truncate s) = recentSummary s"
  by (simp_all add: session_projection.defs)

text \<open>The next session as one update of the committed one.\<close>

definition patched :: "managed_session \<Rightarrow> thread_event \<Rightarrow> managed_session_state \<Rightarrow> turn_state \<Rightarrow> attention_level \<Rightarrow>
    projection_freshness \<Rightarrow> js_string option \<Rightarrow> js_string option \<Rightarrow> session_settings option \<Rightarrow> goal_cue option \<Rightarrow>
    js_string \<Rightarrow> session_projection" where
  "patched session event st t a f r m se g su =
     \<lparr> sessionIdent = sessionIdent session, sessionName = sessionName session, codexThreadId = codexThreadId session,
       sessionCwd = sessionCwd session, runtimeSource = runtimeSource session, runtimeVersion = runtimeVersion session,
       createdAt = createdAt session, archivedAt = archivedAt session, lifecycleState = st, turnState = t,
       sessionAttention = a, sessionFreshness = f, freshnessReason = r, updatedAt = evCapturedAt event,
       lastActivityAt = Some (evCapturedAt event), sessionBranch = sessionBranch session, sessionModel = m,
       sessionSettings = se, sessionGoal = g, recentSummary = su \<rparr>"

lemma settings_not_later:
  assumes "sessionRefined s" "\<not> str_less now (updatedAt s)" "sessionSettings s = Some t"
  shows "\<not> str_less now (observedAt t)"
proof -
  from assms have "\<not> str_less (updatedAt s) (observedAt t)" by (simp add: sessionRefined_def)
  with assms(2) show ?thesis by (metis str_less_trans str_less_linear)
qed

definition freshPatch :: "managed_session \<Rightarrow> projection_freshness \<Rightarrow> js_string option \<Rightarrow> bool" where
  "freshPatch session f r \<longleftrightarrow>
     f = sessionFreshness session \<and> r = freshnessReason session \<or>
     f \<noteq> PF_current \<and> (\<exists>x. r = Some x \<and> 1 \<le> length x \<and> length x \<le> reasonLength)"

definition settingsPatch :: "managed_session \<Rightarrow> js_string \<Rightarrow> js_string option \<Rightarrow> session_settings option \<Rightarrow> bool" where
  "settingsPatch session now m se \<longleftrightarrow>
     m = sessionModel session \<and> se = sessionSettings session \<or>
     (\<exists>mode model effort. m = Some model \<and> 1 \<le> length model \<and> length model \<le> modelLength \<and>
         (\<forall>e. effort = Some e \<longrightarrow> 1 \<le> length e \<and> length e \<le> reasoningEffortLength) \<and>
         se = Some \<lparr> collaborationMode = mode, runtimeModel = model, reasoningEffort = effort, observedAt = now \<rparr>)"

definition goalPatch :: "managed_session \<Rightarrow> goal_cue option \<Rightarrow> bool" where
  "goalPatch session g \<longleftrightarrow>
     g = None \<or> g = sessionGoal session \<or>
     (\<exists>obj st. g = Some \<lparr> goal_objective = obj, goal_status = st \<rparr> \<and> 1 \<le> length obj \<and> length obj \<le> summaryLength)"

definition statePatch :: "managed_session \<Rightarrow> managed_session_state \<Rightarrow> turn_state \<Rightarrow> bool" where
  "statePatch session st t \<longleftrightarrow>
     (st = MS_archived \<longleftrightarrow> lifecycleState session = MS_archived) \<and>
     (lifecycleState session = MS_archived \<longrightarrow> t = turnState session)"

lemma patch_same [simp]:
  "freshPatch session (sessionFreshness session) (freshnessReason session)"
  "settingsPatch session now (sessionModel session) (sessionSettings session)"
  "goalPatch session None" "goalPatch session (sessionGoal session)"
  "statePatch session (lifecycleState session) (turnState session)"
  by (simp_all add: freshPatch_def settingsPatch_def goalPatch_def statePatch_def)

definition patchOk :: "managed_session \<Rightarrow> js_string \<Rightarrow> managed_session_state \<Rightarrow> turn_state \<Rightarrow>
    projection_freshness \<Rightarrow> js_string option \<Rightarrow> js_string option \<Rightarrow> session_settings option \<Rightarrow> goal_cue option \<Rightarrow>
    js_string \<Rightarrow> bool" where
  "patchOk session now st t f r m se g su \<longleftrightarrow>
     statePatch session st t \<and> freshPatch session f r \<and> settingsPatch session now m se \<and> goalPatch session g \<and>
     length su \<le> summaryLength"

lemma fields_facts:
  assumes "sessionFieldsOk s"
  shows "nullable (bounded 1 reasonLength) (freshnessReason s) = Some (freshnessReason s)"
    "nullable (bounded 1 modelLength) (sessionModel s) = Some (sessionModel s)"
    "nullable managedSessionSettingsProjectionSchema (sessionSettings s) = Some (sessionSettings s)"
    "nullable goalCueSchema (sessionGoal s) = Some (sessionGoal s)"
    "length (recentSummary s) \<le> summaryLength" "sessionRefined s"
  using assms unfolding sessionFieldsOk_def by blast+

lemma freshPatch_fields:
  assumes "sessionFieldsOk s" "freshPatch s f r"
  shows "nullable (bounded 1 reasonLength) r = Some r" "f = PF_current \<longleftrightarrow> r = None"
  using assms(2) fields_facts(1,6) [OF assms(1)] by (auto simp: freshPatch_def sessionRefined_def)

lemma settingsPatch_fields:
  assumes "sessionFieldsOk s" "settingsPatch s now m se" "isoTimestampSchema now = Some now"
    "\<not> str_less now (updatedAt s)"
  shows "nullable (bounded 1 modelLength) m = Some m \<and> nullable managedSessionSettingsProjectionSchema se = Some se \<and>
    (case se of None \<Rightarrow> True | Some t \<Rightarrow> m = Some (runtimeModel t) \<and> \<not> str_less now (observedAt t))"
  using assms(2) unfolding settingsPatch_def
proof
  assume 1: "m = sessionModel s \<and> se = sessionSettings s"
  note old = fields_facts [OF assms(1)]
  show ?thesis
  proof (cases "sessionSettings s")
    case None then show ?thesis using 1 old by simp
  next
    case (Some t)
    from settings_not_later [OF old(6) assms(4) Some] Some 1 old show ?thesis by (simp add: sessionRefined_def)
  qed
next
  assume "\<exists>mode model effort. m = Some model \<and> 1 \<le> length model \<and> length model \<le> modelLength \<and>
    (\<forall>e. effort = Some e \<longrightarrow> 1 \<le> length e \<and> length e \<le> reasoningEffortLength) \<and>
    se = Some \<lparr>collaborationMode = mode, runtimeModel = model, reasoningEffort = effort, observedAt = now\<rparr>"
  then show ?thesis
    using assms(3) by (auto simp: managedSessionSettingsProjectionSchema_def nullable_bounded bind_eq_Some_conv)
qed

lemma goalPatch_fields:
  assumes "sessionFieldsOk s" "goalPatch s g"
  shows "nullable goalCueSchema g = Some g"
  using assms(2) fields_facts(4) [OF assms(1)] by (auto simp: goalPatch_def goalCueSchema_def bind_eq_Some_conv)

lemma statePatch_fields:
  assumes "sessionFieldsOk s" "statePatch s st t"
  shows "\<not> (st = MS_archived \<and> waitingTurn t)" "st = MS_archived \<longleftrightarrow> archivedAt s \<noteq> None"
  using assms(2) fields_facts(6) [OF assms(1)] by (auto simp: statePatch_def sessionRefined_def)

definition identityOk :: "'a session_projection_scheme \<Rightarrow> bool" where
  "identityOk v \<longleftrightarrow>
     sessionIdSchema (sessionIdent v) = Some (sessionIdent v) \<and> sessionNameSchema (sessionName v) = Some (sessionName v) \<and>
     codexThreadIdSchema (codexThreadId v) = Some (codexThreadId v) \<and>
     absoluteCwdSchema (sessionCwd v) = Some (sessionCwd v) \<and> runtimeSource v = selectedRuntimeSource \<and>
     codexVersionSchema (runtimeVersion v) = Some (runtimeVersion v) \<and>
     isoTimestampSchema (createdAt v) = Some (createdAt v) \<and>
     nullable isoTimestampSchema (archivedAt v) = Some (archivedAt v) \<and>
     nullable (bounded 1 branchLength) (sessionBranch v) = Some (sessionBranch v)"

lemma sessionFieldsOk_split:
  "sessionFieldsOk v \<longleftrightarrow>
     identityOk v \<and> nullable (bounded 1 reasonLength) (freshnessReason v) = Some (freshnessReason v) \<and>
     isoTimestampSchema (updatedAt v) = Some (updatedAt v) \<and>
     nullable isoTimestampSchema (lastActivityAt v) = Some (lastActivityAt v) \<and>
     nullable (bounded 1 modelLength) (sessionModel v) = Some (sessionModel v) \<and>
     nullable managedSessionSettingsProjectionSchema (sessionSettings v) = Some (sessionSettings v) \<and>
     nullable goalCueSchema (sessionGoal v) = Some (sessionGoal v) \<and>
     length (recentSummary v) \<le> summaryLength \<and> sessionRefined v"
  unfolding sessionFieldsOk_def identityOk_def by blast

lemma identity_patched: "identityOk (patched session event st t a f r m se g su) = identityOk session"
  by (simp add: identityOk_def patched_def)

lemma patched_fields:
  assumes "sessionFieldsOk session" "isoTimestampSchema (evCapturedAt event) = Some (evCapturedAt event)"
    "\<not> str_less (evCapturedAt event) (updatedAt session)" "patchOk session (evCapturedAt event) st t f r m se g su"
  shows "sessionFieldsOk (patched session event st t a f r m se g su)"
proof -
  have p: "statePatch session st t" "freshPatch session f r" "settingsPatch session (evCapturedAt event) m se"
    "goalPatch session g" "length su \<le> summaryLength" using assms(4) by (simp_all add: patchOk_def)
  have "sessionRefined (patched session event st t a f r m se g su)"
    using freshPatch_fields(2) [OF assms(1) p(2)] settingsPatch_fields [OF assms(1) p(3) assms(2,3)]
      statePatch_fields [OF assms(1) p(1)]
    by (cases se; cases r) (simp_all add: sessionRefined_def patched_def)
  moreover have "identityOk session" using assms(1) by (simp add: sessionFieldsOk_split)
  ultimately show ?thesis
    using assms(2) freshPatch_fields(1) [OF assms(1) p(2)] settingsPatch_fields [OF assms(1) p(3) assms(2,3)]
      goalPatch_fields [OF assms(1) p(4)] p(5)
    unfolding sessionFieldsOk_split identity_patched by (simp add: patched_def)
qed

text \<open>Every payload's patch.\<close>

lemma patchedI:
  assumes "session' = patched session event st t a f r m se g su" "patchOk session (evCapturedAt event) st t f r m se g su"
  shows "\<exists>st t a f r m se g su. session' = patched session event st t a f r m se g su \<and>
    patchOk session (evCapturedAt event) st t f r m se g su"
  using assms by blast

lemma base_patched:
  "(session_projection.truncate session)\<lparr> updatedAt := evCapturedAt event, lastActivityAt := Some (evCapturedAt event) \<rparr> =
    patched session event (lifecycleState session) (turnState session) (sessionAttention session) (sessionFreshness session)
      (freshnessReason session) (sessionModel session) (sessionSettings session) (sessionGoal session) (recentSummary session)"
  by (simp add: patched_def session_projection.defs)

lemma patched_upd:
  "(patched session event st t a f r m se g su)\<lparr> lifecycleState := st' \<rparr> = patched session event st' t a f r m se g su"
  "(patched session event st t a f r m se g su)\<lparr> turnState := t' \<rparr> = patched session event st t' a f r m se g su"
  "(patched session event st t a f r m se g su)\<lparr> sessionAttention := a' \<rparr> = patched session event st t a' f r m se g su"
  "(patched session event st t a f r m se g su)\<lparr> sessionFreshness := f' \<rparr> = patched session event st t a f' r m se g su"
  "(patched session event st t a f r m se g su)\<lparr> freshnessReason := r' \<rparr> = patched session event st t a f r' m se g su"
  "(patched session event st t a f r m se g su)\<lparr> sessionModel := m' \<rparr> = patched session event st t a f r m' se g su"
  "(patched session event st t a f r m se g su)\<lparr> sessionSettings := se' \<rparr> = patched session event st t a f r m se' g su"
  "(patched session event st t a f r m se g su)\<lparr> sessionGoal := g' \<rparr> = patched session event st t a f r m se g' su"
  "(patched session event st t a f r m se g su)\<lparr> recentSummary := su' \<rparr> = patched session event st t a f r m se g su'"
  "(patched session event st t a f r m se g su)\<lparr> lastActivityAt := Some (evCapturedAt event) \<rparr> = patched session event st t a f r m se g su"
  by (simp_all add: patched_def)


definition reducedTo :: "managed_session \<Rightarrow> thread_event \<Rightarrow> session_projection \<Rightarrow> bool" where
  "reducedTo session event n \<longleftrightarrow>
     (\<exists>st t a f r m se g su. n = patched session event st t a f r m se g su \<and>
        patchOk session (evCapturedAt event) st t f r m se g su)"

lemma reducedToI:
  "patchOk session (evCapturedAt event) st t f r m se g su \<Longrightarrow>
     reducedTo session event (patched session event st t a f r m se g su)"
  unfolding reducedTo_def by blast

lemma activity_patched:
  "snd (activityReduction session event projected patch up) =
     patch (patched session event (lifecycleState session) (turnState session) (sessionAttention session)
       (sessionFreshness session) (freshnessReason session) (sessionModel session) (sessionSettings session)
       (sessionGoal session)
       (if up then boundedSummary (case eventBody projected of Activity _ _ _ title _ \<Rightarrow> title | _ \<Rightarrow> recentSummary session)
        else recentSummary session))"
  by (cases up) (simp_all add: activityReduction_def nextSession_def Let_def patched_def session_projection.defs)

lemmas reducedTo_record = reducedToI [unfolded patched_def]

lemmas next_record = nextSession_def session_projection.defs

lemma status_patched:
  assumes "length su \<le> summaryLength"
  shows "reducedTo session event
    (threadStatusPatch session status flags initial
      (patched session event (lifecycleState session) (turnState session) (sessionAttention session)
       (sessionFreshness session) (freshnessReason session) (sessionModel session) (sessionSettings session)
       (sessionGoal session) su))"
  using assms
  by (auto simp: threadStatusPatch_def patched_upd statePatch_def freshPatch_def patchOk_def summaryLength_def
      reasonLength_def intro!: reducedToI)


lemma item_reduced:
  assumes "itemOk i" "length (recentSummary session) \<le> summaryLength"
  shows "reducedTo session event (snd (reduceItem session event i))"
proof -
  have "length (itemTitle i) \<le> summaryLength" using assms(1) by (simp add: itemOk_def summaryLength_def)
  moreover have "length (boundedSummary x) \<le> summaryLength" for x using boundedSummary_length [of x] by (simp add: summaryLength_def)
  ultimately show ?thesis
    by (auto simp: reduceItem_def activity_patched patched_upd patchOk_def next_record split: option.splits list.splits
      intro!: reducedToI reducedTo_record)
qed

lemma event_reduced:
  assumes "payloadOk (evPayload event)" "settingsAccepted (evPayload event)" "length (recentSummary session) \<le> summaryLength"
  shows "reducedTo session event (snd (reduceCodexProjectionEvent session event))"
proof -
  have b: "length (boundedSummary x) \<le> summaryLength" for x using boundedSummary_length [of x] by (simp add: summaryLength_def)
  show ?thesis
  proof (cases "evPayload event")
    case (Thread_started status flags name)
    then show ?thesis by (simp add: reduceCodexProjectionEvent_def activity_patched status_patched b)
  next
    case (Thread_status_changed status flags)
    then show ?thesis using assms(3) by (simp add: reduceCodexProjectionEvent_def activity_patched status_patched)
  next
    case Thread_archived
    then show ?thesis using assms(3)
      by (auto simp: reduceCodexProjectionEvent_def Let_def activity_patched patched_upd patchOk_def statePatch_def
        freshPatch_def reasonLength_def summaryLength_def intro!: reducedToI)
  next
    case (Thread_settings_updated model effort mode)
    then show ?thesis using assms
      by (auto simp: reduceCodexProjectionEvent_def activity_patched patched_upd patchOk_def settingsPatch_def
        Suc_le_eq intro!: reducedToI)
  next
    case (Thread_goal_updated turn objective status budget used state notice)
    then show ?thesis using assms
      by (cases status) (auto simp: reduceCodexProjectionEvent_def Let_def next_record patchOk_def goalPatch_def contentOk_def
          content_limits summaryLength_def spaced_def intro!: reducedTo_record)
  next
    case Thread_goal_cleared
    then show ?thesis
      by (auto simp: reduceCodexProjectionEvent_def Let_def next_record patchOk_def summaryLength_def intro!: reducedTo_record)
  next
    case (Turn_started turn)
    then show ?thesis using assms(3)
      by (auto simp: reduceCodexProjectionEvent_def Let_def next_record patchOk_def statePatch_def summaryLength_def intro!: reducedTo_record)
  next
    case (Turn_completed turn status err)
    have "length (terminalName status) \<le> 11" by (cases status) simp_all
    then show ?thesis using assms Turn_completed
      by (auto simp: reduceCodexProjectionEvent_def Let_def next_record patchOk_def statePatch_def summaryLength_def
          intro!: reducedTo_record split: option.splits)
  next
    case (Turn_plan_updated turn explanation plan)
    then show ?thesis
      by (auto simp: reduceCodexProjectionEvent_def Let_def next_record patchOk_def summaryLength_def intro!: reducedTo_record)
  next
    case (Agent_message_delta turn i delta state notice)
    then show ?thesis using assms(3) b
      by (auto simp: reduceCodexProjectionEvent_def Let_def next_record patchOk_def intro!: reducedTo_record)
  next
    case (Plan_delta turn i delta state notice)
    then show ?thesis using assms(3) b
      by (auto simp: reduceCodexProjectionEvent_def Let_def next_record patchOk_def intro!: reducedTo_record)
  next
    case (Item_started turn i)
    then show ?thesis using assms by (simp add: reduceCodexProjectionEvent_def item_reduced)
  next
    case (Item_completed turn i)
    then show ?thesis using assms by (simp add: reduceCodexProjectionEvent_def item_reduced)
  qed (use assms(3) in \<open>auto simp: reduceCodexProjectionEvent_def activity_patched patchOk_def intro!: reducedToI\<close>)
qed

section \<open>The event to append\<close>

text \<open>An event that satisfies its schema under every address.\<close>

definition uncommittedOk :: "uncommitted_event \<Rightarrow> bool" where
  "uncommittedOk e \<longleftrightarrow>
     isoTimestampSchema (capturedAt e) = Some (capturedAt e) \<and>
     nullable isoTimestampSchema (upstreamAt e) = Some (upstreamAt e) \<and>
     (\<forall>i. codexEventId e = Some i \<longrightarrow> 1 \<le> length i \<and> length i \<le> eventTypeLength) \<and>
     (\<forall>k. codexEventType e = Some k \<longrightarrow> 1 \<le> length k \<and> length k \<le> eventTypeLength) \<and>
     (contentState e = Content_complete \<longleftrightarrow> contentNotice e = None) \<and>
     (\<forall>n. contentNotice e = Some n \<longrightarrow> 1 \<le> length n \<and> length n \<le> reasonLength) \<and>
     \<not> isBoundary e \<and>
     (\<forall>c. eventBodySchema c (map_event_body (\<lambda>_. c) (eventBody e)) = Some (map_event_body (\<lambda>_. c) (eventBody e)))"

definition bodyOk :: "unit event_body \<Rightarrow> bool" where
  "bodyOk b \<longleftrightarrow>
     \<not> (case b of Replay_boundary _ _ _ \<Rightarrow> True | _ \<Rightarrow> False) \<and>
     (\<forall>c. eventBodySchema c (map_event_body (\<lambda>_. c) b) = Some (map_event_body (\<lambda>_. c) b))"

lemma method_length: "1 \<le> length (eventMethod p) \<and> length (eventMethod p) \<le> eventTypeLength"
  by (cases p) (simp_all add: eventTypeLength_def)

lemma withContent_ok:
  assumes "normalizedOk event" "bodyOk b" "contentOk m t state notice"
  shows "uncommittedOk (withContent state notice (eventBase event b))"
  using assms method_length [of "evPayload event"]
  by (simp add: uncommittedOk_def withContent_def eventBase_def bodyOk_def normalizedOk_def contentOk_def isBoundary_def
      eventTypeLength_def reasonLength_def)

lemma eventBase_ok: "normalizedOk event \<Longrightarrow> bodyOk b \<Longrightarrow> uncommittedOk (eventBase event b)"
  using withContent_ok [of event b 0 None Content_complete None]
  by (simp add: withContent_def contentOk_def eventBase_def)

lemma activity_ok:
  assumes "1 \<le> length title" "length title \<le> 240" "\<And>d. detail = Some d \<Longrightarrow> length d \<le> 2000"
    "\<And>i. item = Some i \<Longrightarrow> codexItemIdSchema i = Some i"
  shows "bodyOk (Activity kind state item title detail)"
  using assms by (cases item; cases detail)
    (simp_all add: bodyOk_def eventBodySchema_def bind_eq_Some_conv eventLabelLength_def eventDetailLength_def bounded_def)

lemma message_ok:
  assumes "codexItemIdSchema i = Some i" "length text \<le> 12000" "role = Role_user \<Longrightarrow> phase \<noteq> Phase_delta"
  shows "bodyOk (Message role phase (Some i) text)"
  using assms by (auto simp: bodyOk_def eventBodySchema_def bind_eq_Some_conv eventTextLength_def bounded_def guard_def)

lemma control_ok: "(\<And>s. summary = Some s \<Longrightarrow> length s \<le> 512) \<Longrightarrow> bodyOk (Control kind state summary)"
  by (cases summary) (simp_all add: bodyOk_def eventBodySchema_def bind_eq_Some_conv summaryLength_def bounded_def)

lemma safe_length: "safeCount n \<Longrightarrow> length (intText n) \<le> 16"
  by (auto simp: safeCount_def maxSafe_def intText_def intro!: natText_length)

lemma activity_fst: "fst (activityReduction session event projected patch up) = projected"
  by (simp add: activityReduction_def Let_def)

lemma item_event_ok:
  assumes "normalizedOk event" "itemOk i"
  shows "uncommittedOk (fst (reduceItem session event i))"
proof -
  have c: "contentOk maximumTextLength (itemText i) (itemContentState i) (itemContentNotice i)"
    and i: "codexItemIdSchema (itemId i) = Some (itemId i)" "1 \<le> length (itemTitle i)" "length (itemTitle i) \<le> 240"
    using assms(2) by (simp_all add: itemOk_def)
  have a: "bodyOk (Activity kind state (Some (itemId i)) (itemTitle i) None)" for kind state
    using i by (intro activity_ok) simp_all
  show ?thesis
  proof (cases "if itemCategory i \<in> {Cat_agent_message, Cat_plan, Cat_user_message} \<and>
      \<not> (itemCategory i = Cat_user_message \<and> itemState i = Item_is_started) then itemText i else None")
    case None
    then show ?thesis using withContent_ok [OF assms(1) a c] by (simp add: reduceItem_def activity_fst)
  next
    case (Some words)
    show ?thesis
    proof (cases words)
      case Nil
      then show ?thesis using withContent_ok [OF assms(1) a c] Some by (simp add: reduceItem_def activity_fst)
    next
      case (Cons x xs)
      have t: "itemText i = Some (x # xs)" "\<not> (itemCategory i = Cat_user_message \<and> itemState i = Item_is_started)"
        using Some Cons by (auto split: if_splits)
      have "length (x # xs) \<le> 12000" using c t(1) by (simp add: contentOk_def maximumTextLength_def)
      then have "bodyOk (Message (if itemCategory i = Cat_user_message then Role_user else Role_agent)
          (if itemState i = Item_is_started then Phase_delta else Phase_completed) (Some (itemId i)) (x # xs))"
        using t(2) i(1) by (intro message_ok) auto
      from withContent_ok [OF assms(1) this c] show ?thesis using Some Cons by (simp add: reduceItem_def)
    qed
  qed
qed

lemma turn_ok:
  assumes "codexTurnIdSchema turn = Some turn" "status = Turn_is_failed \<longleftrightarrow> err \<noteq> None"
    "\<And>e. err = Some e \<Longrightarrow> 1 \<le> length e \<and> length e \<le> 240"
  shows "bodyOk (Turn turn (terminalTurn status)
    (if status = Turn_is_failed
     then Some (js ''unknown_error'', case err of None \<Rightarrow> js ''Codex turn failed without a bounded reason.'' | Some m \<Rightarrow> m)
     else None))"
proof -
  have "isErrorCode (js ''unknown_error'')" by (simp add: isErrorCode_def errorCodes_def)
  then show ?thesis using assms
    by (cases status; cases err)
      (auto simp: bodyOk_def eventBodySchema_def bind_eq_Some_conv turnErrorSchema_def guard_def bounded_def reasonLength_def)
qed

lemma started_ok: "codexTurnIdSchema turn = Some turn \<Longrightarrow> bodyOk (Turn turn TS_in_progress None)"
  by (simp add: bodyOk_def eventBodySchema_def bind_eq_Some_conv guard_def)

lemma event_appendable:
  assumes "normalizedOk event"
  shows "uncommittedOk (fst (reduceCodexProjectionEvent session event))"
proof -
  note base = eventBase_ok [OF assms] and content = withContent_ok [OF assms]
  from assms have p: "payloadOk (evPayload event)" by (simp add: normalizedOk_def)
  have status_length: "length (statusText status) \<le> 12" for status by (cases status) simp_all
  show ?thesis
  proof (cases "evPayload event")
    case (Thread_started status flags name)
    then show ?thesis using status_length [of status]
      by (auto simp: reduceCodexProjectionEvent_def activity_fst threadActivity_def intro!: base activity_ok)
  next
    case (Thread_status_changed status flags)
    then show ?thesis using status_length [of status]
      by (auto simp: reduceCodexProjectionEvent_def activity_fst threadActivity_def intro!: base activity_ok)
  next
    case (Thread_name_updated name)
    then show ?thesis using p
      by (auto simp: reduceCodexProjectionEvent_def activity_fst threadActivity_def intro!: base activity_ok split: option.splits)
  next
    case Thread_archived
    then show ?thesis
      by (auto simp: reduceCodexProjectionEvent_def Let_def activity_fst threadActivity_def intro!: base activity_ok)
  next
    case (Thread_settings_updated model effort mode)
    have "length (modeName mode) \<le> 7" by (cases mode) simp_all
    then show ?thesis using p Thread_settings_updated
      by (auto simp: reduceCodexProjectionEvent_def activity_fst modelLength_def reasoningEffortLength_def
          intro!: base activity_ok split: option.splits)
  next
    case (Thread_goal_updated turn objective status budget used state notice)
    then show ?thesis using p
      by (cases status) (auto simp: reduceCodexProjectionEvent_def contentOk_def content_limits
          intro!: content control_ok)
  next
    case Thread_goal_cleared
    then show ?thesis by (auto simp: reduceCodexProjectionEvent_def intro!: base control_ok)
  next
    case (Thread_token_usage_updated turn overall latest window)
    then show ?thesis using p safe_length [of "totalTokens overall"] safe_length [of "totalTokens latest"] safe_length [of "the window"]
      by (auto simp: reduceCodexProjectionEvent_def activity_fst intro!: base activity_ok split: option.splits)
  next
    case (Turn_started turn)
    then show ?thesis using p by (auto simp: reduceCodexProjectionEvent_def Let_def intro!: base started_ok)
  next
    case (Turn_completed turn status err)
    with p have "bodyOk (Turn turn (terminalTurn status)
      (if status = Turn_is_failed
       then Some (js ''unknown_error'', case err of None \<Rightarrow> js ''Codex turn failed without a bounded reason.'' | Some m \<Rightarrow> m)
       else None))" by (intro turn_ok) auto
    from base [OF this] Turn_completed show ?thesis by (simp add: reduceCodexProjectionEvent_def Let_def)
  next
    case (Turn_plan_updated turn explanation plan)
    then show ?thesis using boundedSummary_length
      by (auto simp: reduceCodexProjectionEvent_def intro!: base control_ok)
  next
    case (Item_started turn i)
    then show ?thesis using p item_event_ok [OF assms, of i] by (simp add: reduceCodexProjectionEvent_def)
  next
    case (Item_completed turn i)
    then show ?thesis using p item_event_ok [OF assms, of i] by (simp add: reduceCodexProjectionEvent_def)
  next
    case (Agent_message_delta turn i delta state notice)
    then show ?thesis using p
      by (auto simp: reduceCodexProjectionEvent_def contentOk_def content_limits intro!: content message_ok)
  next
    case (Plan_delta turn i delta state notice)
    then show ?thesis using p
      by (auto simp: reduceCodexProjectionEvent_def contentOk_def content_limits intro!: content message_ok)
  next
    case (Request_resolved request)
    then show ?thesis by (auto simp: reduceCodexProjectionEvent_def activity_fst intro!: base activity_ok)
  qed
qed

section \<open>The next session\<close>

lemma reduced_fields:
  assumes "reducedTo session event n"
  shows "sessionIdent n = sessionIdent session \<and> sessionName n = sessionName session \<and>
    codexThreadId n = codexThreadId session \<and> sessionCwd n = sessionCwd session \<and>
    runtimeSource n = runtimeSource session \<and> runtimeVersion n = runtimeVersion session \<and>
    createdAt n = createdAt session \<and> archivedAt n = archivedAt session \<and>
    updatedAt n = evCapturedAt event \<and> lastActivityAt n = Some (evCapturedAt event)"
  using assms by (auto simp: reducedTo_def patched_def)

lemma reduced_session:
  assumes "sessionFieldsOk session" "normalizedOk event" "settingsAccepted (evPayload event)"
    "\<not> str_less (evCapturedAt event) (updatedAt session)"
  shows "sessionFieldsOk (snd (reduceCodexProjectionEvent session event))"
    "reducedTo session event (snd (reduceCodexProjectionEvent session event))"
proof -
  have "length (recentSummary session) \<le> summaryLength" using fields_facts(5) [OF assms(1)] .
  moreover have "payloadOk (evPayload event)" "isoTimestampSchema (evCapturedAt event) = Some (evCapturedAt event)"
    using assms(2) by (simp_all add: normalizedOk_def)
  ultimately show red: "reducedTo session event (snd (reduceCodexProjectionEvent session event))"
    using event_reduced [of event session] assms(3) by simp
  then obtain st t a f r m se g su where
    "snd (reduceCodexProjectionEvent session event) = patched session event st t a f r m se g su"
    "patchOk session (evCapturedAt event) st t f r m se g su" by (auto simp: reducedTo_def)
  then show "sessionFieldsOk (snd (reduceCodexProjectionEvent session event))"
    using patched_fields [OF assms(1) \<open>isoTimestampSchema _ = _\<close> assms(4)] by simp
qed

text \<open>An archived session keeps its life-cycle state and its turn under every event.\<close>

lemma archived_kept:
  assumes "reducedTo session event n" "lifecycleState session = MS_archived"
  shows "lifecycleState n = MS_archived" "turnState n = turnState session"
  using assms by (auto simp: reducedTo_def patched_def patchOk_def statePatch_def)

end
