(* ===== verification/Event_Json.thy ===== *)
theory Event_Json
  imports Projection_Contract
begin

text \<open>
  The stored form of a projected event: the text \<open>JSON.stringify\<close> gives for it and the bytes of
  that text in UTF-8, as \<open>selectedProjectedEventByteLength\<close> of
  \<open>packages/storage/src/selected-state-repository.ts\<close> measures it. The keys are those of the
  event schemas of \<open>packages/contracts/src/selected-runtime.ts\<close>.
\<close>

section \<open>JSON text\<close>

datatype json = J_null | J_string js_string | J_int int | J_object "(js_string \<times> json) list"

definition isHighSurrogate :: "nat \<Rightarrow> bool" where
  "isHighSurrogate c \<longleftrightarrow> 55296 \<le> c \<and> c \<le> 56319"

definition isLowSurrogate :: "nat \<Rightarrow> bool" where
  "isLowSurrogate c \<longleftrightarrow> 56320 \<le> c \<and> c \<le> 57343"

definition hexDigit :: "nat \<Rightarrow> nat" where
  "hexDigit n = (if n < 10 then 48 + n else 87 + n)"

text \<open>\<open>\\uXXXX\<close>\<close>

definition unicodeEscape :: "nat \<Rightarrow> js_string" where
  "unicodeEscape c =
     [92, 117, hexDigit (c div 4096 mod 16), hexDigit (c div 256 mod 16), hexDigit (c div 16 mod 16), hexDigit (c mod 16)]"

definition quoteUnit :: "nat \<Rightarrow> js_string" where
  "quoteUnit c =
     (if c = 34 then [92, 34] else if c = 92 then [92, 92] else if c = 8 then [92, 98] else if c = 12 then [92, 102]
      else if c = 10 then [92, 110] else if c = 13 then [92, 114] else if c = 9 then [92, 116]
      else if c < 32 \<or> isHighSurrogate c \<or> isLowSurrogate c then unicodeEscape c else [c])"

text \<open>A surrogate pair stays as it is, a lone surrogate is escaped.\<close>

fun quoteUnits :: "js_string \<Rightarrow> js_string" where
  "quoteUnits [] = []"
| "quoteUnits [c] = quoteUnit c"
| "quoteUnits (c # d # s) =
     (if isHighSurrogate c \<and> isLowSurrogate d then c # d # quoteUnits s else quoteUnit c @ quoteUnits (d # s))"

definition quoteText :: "js_string \<Rightarrow> js_string" where
  "quoteText s = 34 # quoteUnits s @ [34]"

fun jsonText :: "json \<Rightarrow> js_string" and membersText :: "(js_string \<times> json) list \<Rightarrow> js_string" where
  "jsonText J_null = js ''null''"
| "jsonText (J_string s) = quoteText s"
| "jsonText (J_int n) = intText n"
| "jsonText (J_object ms) = 123 # membersText ms @ [125]"
| "membersText [] = []"
| "membersText [(k, v)] = quoteText k @ 58 # jsonText v"
| "membersText ((k, v) # m # ms) = quoteText k @ 58 # jsonText v @ 44 # membersText (m # ms)"

text \<open>\<open>Buffer.byteLength(text, "utf8")\<close>\<close>

fun utf8Length :: "js_string \<Rightarrow> nat" where
  "utf8Length [] = 0"
| "utf8Length [c] = (if c < 128 then 1 else if c < 2048 then 2 else 3)"
| "utf8Length (c # d # s) =
     (if isHighSurrogate c \<and> isLowSurrogate d then 4 + utf8Length s
      else (if c < 128 then 1 else if c < 2048 then 2 else 3) + utf8Length (d # s))"

section \<open>Events as JSON\<close>

definition orNull :: "('a \<Rightarrow> json) \<Rightarrow> 'a option \<Rightarrow> json" where
  "orNull f v = (case v of None \<Rightarrow> J_null | Some x \<Rightarrow> f x)"

abbreviation text_or_null :: "js_string option \<Rightarrow> json" where
  "text_or_null \<equiv> orNull J_string"

fun contentStateName :: "content_state \<Rightarrow> js_string" where
  "contentStateName Content_complete = js ''complete''"
| "contentStateName Content_redacted = js ''redacted''"
| "contentStateName Content_truncated = js ''truncated''"
| "contentStateName Content_redacted_and_truncated = js ''redacted_and_truncated''"

fun turnStateName :: "turn_state \<Rightarrow> js_string" where
  "turnStateName TS_idle = js ''idle''"
| "turnStateName TS_in_progress = js ''in_progress''"
| "turnStateName TS_waiting_for_input = js ''waiting_for_input''"
| "turnStateName TS_waiting_for_approval = js ''waiting_for_approval''"
| "turnStateName TS_completed = js ''completed''"
| "turnStateName TS_interrupted = js ''interrupted''"
| "turnStateName TS_failed = js ''failed''"
| "turnStateName TS_unknown = js ''unknown''"

fun activityKindName :: "activity_kind \<Rightarrow> js_string" where
  "activityKindName AK_command = js ''command''"
| "activityKindName AK_tool = js ''tool''"
| "activityKindName AK_file_change = js ''file_change''"
| "activityKindName AK_reasoning = js ''reasoning''"
| "activityKindName AK_compaction = js ''compaction''"
| "activityKindName AK_rate_limit = js ''rate_limit''"
| "activityKindName AK_thread = js ''thread''"
| "activityKindName AK_settings = js ''settings''"
| "activityKindName AK_usage = js ''usage''"
| "activityKindName AK_approval = js ''approval''"

fun activityStateName :: "activity_state \<Rightarrow> js_string" where
  "activityStateName AS_started = js ''started''"
| "activityStateName AS_updated = js ''updated''"
| "activityStateName AS_completed = js ''completed''"
| "activityStateName AS_failed = js ''failed''"

fun approvalStateName :: "approval_state \<Rightarrow> js_string" where
  "approvalStateName AP_pending = js ''pending''"
| "approvalStateName AP_approved = js ''approved''"
| "approvalStateName AP_denied = js ''denied''"
| "approvalStateName AP_expired = js ''expired''"
| "approvalStateName AP_superseded = js ''superseded''"

fun riskName :: "approval_risk \<Rightarrow> js_string" where
  "riskName Risk_normal = js ''normal''"
| "riskName Risk_elevated = js ''elevated''"
| "riskName Risk_broad = js ''broad''"

fun choiceName :: "approval_choice \<Rightarrow> js_string" where
  "choiceName Choice_approve = js ''approve''"
| "choiceName Choice_deny = js ''deny''"

fun controlKindName :: "control_kind \<Rightarrow> js_string" where
  "controlKindName CK_model = js ''model''"
| "controlKindName CK_goal = js ''goal''"
| "controlKindName CK_plan = js ''plan''"
| "controlKindName CK_usage = js ''usage''"
| "controlKindName CK_compact = js ''compact''"
| "controlKindName CK_skills = js ''skills''"

fun controlStateName :: "control_state \<Rightarrow> js_string" where
  "controlStateName CTL_available = js ''available''"
| "controlStateName CTL_updating = js ''updating''"
| "controlStateName CTL_active = js ''active''"
| "controlStateName CTL_paused = js ''paused''"
| "controlStateName CTL_complete = js ''complete''"
| "controlStateName CTL_failed = js ''failed''"
| "controlStateName CTL_unsupported = js ''unsupported''"

fun connectionName :: "runtime_connection_state \<Rightarrow> js_string" where
  "connectionName RC_ready = js ''ready''"
| "connectionName RC_degraded = js ''degraded''"
| "connectionName RC_incompatible = js ''incompatible''"
| "connectionName RC_disconnected = js ''disconnected''"

fun boundaryReasonName :: "boundary_reason \<Rightarrow> js_string" where
  "boundaryReasonName BR_retention = js ''retention''"
| "boundaryReasonName BR_disconnect = js ''disconnect''"
| "boundaryReasonName BR_restart = js ''restart''"
| "boundaryReasonName BR_schema_change = js ''schema_change''"
| "boundaryReasonName BR_adoption = js ''adoption''"

text \<open>The \<open>type\<close> of a variant and its own keys.\<close>

fun eventType :: "'n event_body \<Rightarrow> js_string" where
  "eventType (Message _ _ _ _) = js ''message''"
| "eventType (Turn _ _ _) = js ''turn''"
| "eventType (Activity _ _ _ _ _) = js ''activity''"
| "eventType (Approval _ _ _ _ _ _ _ _) = js ''approval''"
| "eventType (Control _ _ _) = js ''control''"
| "eventType (Runtime _ _) = js ''runtime''"
| "eventType (Replay_boundary _ _ _) = js ''replay_boundary''"
| "eventType (Unknown_optional _ _) = js ''unknown_optional''"

fun bodyMembers :: "int event_body \<Rightarrow> (js_string \<times> json) list" where
  "bodyMembers (Message role phase item words) =
     [(js ''role'', J_string (case role of Role_user \<Rightarrow> js ''user'' | Role_agent \<Rightarrow> js ''agent'')),
      (js ''phase'', J_string (case phase of Phase_delta \<Rightarrow> js ''delta'' | Phase_completed \<Rightarrow> js ''completed'')),
      (js ''item_id'', text_or_null item), (js ''text'', J_string words)]"
| "bodyMembers (Turn turn state err) =
     [(js ''turn_id'', J_string turn), (js ''state'', J_string (turnStateName state)),
      (js ''error'', orNull (\<lambda>e. J_object [(js ''code'', J_string (fst e)), (js ''message'', J_string (snd e))]) err)]"
| "bodyMembers (Activity kind state item title detail) =
     [(js ''activity'', J_string (activityKindName kind)), (js ''state'', J_string (activityStateName state)),
      (js ''item_id'', text_or_null item), (js ''title'', J_string title), (js ''detail'', text_or_null detail)]"
| "bodyMembers (Approval request state action scope reason risk expires decision) =
     [(js ''request_id'', J_string request), (js ''state'', J_string (approvalStateName state)),
      (js ''action'', J_string action), (js ''scope'', J_string scope), (js ''reason'', text_or_null reason),
      (js ''risk'', J_string (riskName risk)), (js ''expires_at'', text_or_null expires),
      (js ''decision'', orNull (\<lambda>d. J_string (choiceName d)) decision)]"
| "bodyMembers (Control kind state summary) =
     [(js ''control'', J_string (controlKindName kind)), (js ''state'', J_string (controlStateName state)),
      (js ''value_summary'', text_or_null summary)]"
| "bodyMembers (Runtime state info) =
     [(js ''state'', J_string (connectionName state)), (js ''message'', text_or_null info)]"
| "bodyMembers (Replay_boundary after next_cursor reason) =
     [(js ''after'', orNull J_int after), (js ''next_cursor'', J_int next_cursor),
      (js ''reason'', J_string (boundaryReasonName reason))]"
| "bodyMembers (Unknown_optional upstream summary) =
     [(js ''upstream_type'', J_string upstream), (js ''summary'', J_string summary)]"

definition eventJson :: "projection_event \<Rightarrow> json" where
  "eventJson e =
     J_object
       ([(js ''session_id'', J_string (eventSessionId e)), (js ''cursor'', J_int (eventCursor e)),
         (js ''captured_at'', J_string (capturedAt e)), (js ''upstream_at'', text_or_null (upstreamAt e)),
         (js ''codex_event_id'', text_or_null (codexEventId e)),
         (js ''codex_event_type'', text_or_null (codexEventType e)),
         (js ''content_state'', J_string (contentStateName (contentState e))),
         (js ''content_notice'', text_or_null (contentNotice e)),
         (js ''type'', J_string (eventType (eventBody e)))]
        @ bodyMembers (eventBody e))"

definition eventBytes :: "projection_event \<Rightarrow> int" where
  "eventBytes e = int (utf8Length (jsonText (eventJson e)))"

definition settingsJson :: "session_settings \<Rightarrow> json" where
  "settingsJson s =
     J_object
       [(js ''collaboration_mode'', J_string (case collaborationMode s of CM_default \<Rightarrow> js ''default'' | CM_plan \<Rightarrow> js ''plan'')),
        (js ''runtime_model'', J_string (runtimeModel s)), (js ''reasoning_effort'', text_or_null (reasoningEffort s)),
        (js ''observed_at'', J_string (observedAt s))]"

section \<open>Bounds\<close>

definition unitBytes :: "nat \<Rightarrow> nat" where
  "unitBytes c = (if c < 128 then 1 else if c < 2048 then 2 else 3)"

lemma utf8Length_Cons: "utf8Length (c # s) \<le> unitBytes c + utf8Length s"
  by (cases s; cases "tl s") (auto simp: unitBytes_def isHighSurrogate_def isLowSurrogate_def)

lemma utf8Length_append: "utf8Length (s @ t) \<le> utf8Length s + utf8Length t"
proof (induction s rule: utf8Length.induct)
  case (2 c)
  show ?case using utf8Length_Cons [of c t] by (simp add: unitBytes_def)
qed auto

lemma utf8Length_unit: "c < 128 \<Longrightarrow> utf8Length (c # s) = Suc (utf8Length s)"
  by (cases s) (auto simp: isHighSurrogate_def)

lemma utf8Length_ascii: "list_all (\<lambda>c. c < 128) s \<Longrightarrow> utf8Length s = length s"
  by (induction s) (simp_all add: utf8Length_unit)

lemma quoteUnit_bytes: "utf8Length (quoteUnit c) \<le> 6"
proof -
  have hex: "n < 16 \<Longrightarrow> hexDigit n < 128" for n by (simp add: hexDigit_def)
  have "utf8Length (unicodeEscape c) = 6"
    using utf8Length_ascii [of "unicodeEscape c"] by (simp add: unicodeEscape_def hex)
  then show ?thesis by (simp add: quoteUnit_def isHighSurrogate_def)
qed

lemma quoteUnits_bytes: "utf8Length (quoteUnits s) \<le> 6 * length s"
proof (induction s rule: quoteUnits.induct)
  case (2 c)
  show ?case using quoteUnit_bytes [of c] by simp
next
  case (3 c d s)
  show ?case
  proof (cases "isHighSurrogate c \<and> isLowSurrogate d")
    case True
    with 3(1) show ?thesis by simp
  next
    case False
    with 3(2) [OF False] utf8Length_append [of "quoteUnit c" "quoteUnits (d # s)"] quoteUnit_bytes [of c]
    show ?thesis by (auto simp del: quoteUnits.simps(2))
  qed
qed simp

lemma quoteText_bytes: "utf8Length (quoteText s) \<le> 2 + 6 * length s"
proof -
  have "utf8Length (quoteText s) \<le> 1 + (utf8Length (quoteUnits s) + 1)"
    using utf8Length_append [of "quoteUnits s" "[34]"] by (simp add: quoteText_def utf8Length_unit)
  with quoteUnits_bytes [of s] show ?thesis by simp
qed

text \<open>An upper bound on the bytes of a JSON value, from the lengths of its strings.\<close>

fun jsonWeight :: "json \<Rightarrow> nat" and membersWeight :: "(js_string \<times> json) list \<Rightarrow> nat" where
  "jsonWeight J_null = 4"
| "jsonWeight (J_string s) = 2 + 6 * length s"
| "jsonWeight (J_int n) = length (intText n)"
| "jsonWeight (J_object ms) = 2 + membersWeight ms"
| "membersWeight [] = 0"
| "membersWeight ((k, v) # ms) = 4 + 6 * length k + jsonWeight v + membersWeight ms"

lemma natText_ascii: "list_all (\<lambda>c. c < 128) (natText n)"
  by (induction n rule: natText.induct) (subst natText.simps, auto)

lemma utf8Length_member:
  "utf8Length (quoteText k @ 58 # s) \<le> 3 + 6 * length k + utf8Length s"
  using utf8Length_append [of "quoteText k" "58 # s"] quoteText_bytes [of k] by (simp add: utf8Length_unit)

lemma json_bytes: "utf8Length (jsonText j) \<le> jsonWeight j" "utf8Length (membersText ms) \<le> membersWeight ms"
proof (induction j and ms rule: jsonText_membersText.induct)
  case 1
  then show ?case using utf8Length_ascii [of "js ''null''"] by simp
next
  case (2 s)
  then show ?case using quoteText_bytes [of s] by simp
next
  case (3 n)
  have "list_all (\<lambda>c. c < 128) (intText n)" using natText_ascii by (simp add: intText_def)
  then show ?case by (simp add: utf8Length_ascii)
next
  case (4 ms)
  then show ?case using utf8Length_append [of "membersText ms" "[125]"] by (simp add: utf8Length_unit)
next
  case 5
  then show ?case by simp
next
  case (6 k v)
  then show ?case using utf8Length_member [of k "jsonText v"] by simp
next
  case (7 k v m ms)
  have "utf8Length (jsonText v @ 44 # membersText (m # ms)) \<le> utf8Length (jsonText v) + (1 + utf8Length (membersText (m # ms)))"
    using utf8Length_append [of "jsonText v" "44 # membersText (m # ms)"] by (simp add: utf8Length_unit)
  with 7 utf8Length_member [of k "jsonText v @ 44 # membersText (m # ms)"] show ?case by simp
qed

lemma intText_length: "\<bar>n\<bar> \<le> maxSafe \<Longrightarrow> length (intText n) \<le> 17"
proof -
  assume "\<bar>n\<bar> \<le> maxSafe"
  then have "nat \<bar>n\<bar> < 10 ^ 16" by (simp add: maxSafe_def)
  from natText_length [OF this] show ?thesis by (auto simp: intText_def abs_if split: if_splits)
qed

lemma iso_length: "isoTimestampSchema s = Some t \<Longrightarrow> length t \<le> 27"
  by (auto simp: isoTimestampSchema_def brandedStringSchema_iff parseIsoTimestamp_def toISOString_def Let_def
      formatYear_def split: option.splits if_splits prod.splits)

lemma identifier_lengths:
  "sessionIdSchema s = Some t \<Longrightarrow> length t \<le> 69" "codexItemIdSchema s = Some t \<Longrightarrow> length t \<le> 128"
  "codexTurnIdSchema s = Some t \<Longrightarrow> length t \<le> 128" "runtimeRequestIdSchema s = Some t \<Longrightarrow> length t \<le> 128"
proof -
  assume "sessionIdSchema s = Some t"
  then have "t = s" "sessionIdPattern s"
    by (auto simp: sessionIdSchema_def brandedStringSchema_iff parseSessionId_Inr)
  then obtain c r where "drop 5 s = c # r" "length r \<le> 63" "t = s"
    by (auto simp: sessionIdPattern_def split: list.splits)
  then have "length (drop 5 s) \<le> 64" by simp
  with \<open>t = s\<close> show "length t \<le> 69" by simp
qed (auto simp: codexItemIdSchema_def codexTurnIdSchema_def runtimeRequestIdSchema_def brandedStringSchema_iff
    parseCodexItemId_def parseCodexTurnId_def parseRuntimeRequestId_def parseOpaqueRuntimeId_Inr)

lemma orNull_weight: "(\<And>x. v = Some x \<Longrightarrow> jsonWeight (f x) \<le> n) \<Longrightarrow> 4 \<le> n \<Longrightarrow> jsonWeight (orNull f v) \<le> n"
  by (cases v) (simp_all add: orNull_def)

lemma membersWeight_append: "membersWeight (ms @ ns) = membersWeight ms + membersWeight ns"
  by (induction ms) auto

lemma text_weight: "(\<And>x. v = Some x \<Longrightarrow> length x \<le> n) \<Longrightarrow> jsonWeight (text_or_null v) \<le> 4 + 6 * n"
  by (cases v) (force simp: orNull_def)+

lemma name_lengths:
  "length (contentStateName a) \<le> 22" "length (turnStateName b) \<le> 20" "length (activityKindName c) \<le> 20"
  "length (activityStateName d) \<le> 20" "length (approvalStateName e) \<le> 20" "length (riskName f) \<le> 20"
  "length (choiceName g) \<le> 20" "length (controlKindName h) \<le> 20" "length (controlStateName i) \<le> 20"
  "length (connectionName j) \<le> 20" "length (boundaryReasonName k) \<le> 20" "length (eventType l) \<le> 20"
proof -
  show "length (contentStateName a) \<le> 22" by (cases a) simp_all
  show "length (turnStateName b) \<le> 20" by (cases b) simp_all
  show "length (activityKindName c) \<le> 20" by (cases c) simp_all
  show "length (activityStateName d) \<le> 20" by (cases d) simp_all
  show "length (approvalStateName e) \<le> 20" by (cases e) simp_all
  show "length (riskName f) \<le> 20" by (cases f) simp_all
  show "length (choiceName g) \<le> 20" by (cases g) simp_all
  show "length (controlKindName h) \<le> 20" by (cases h) simp_all
  show "length (controlStateName i) \<le> 20" by (cases i) simp_all
  show "length (connectionName j) \<le> 20" by (cases j) simp_all
  show "length (boundaryReasonName k) \<le> 20" by (cases k) simp_all
  show "length (eventType l) \<le> 20" by (cases l) simp_all
qed

lemma errorCode_length: "isErrorCode c \<Longrightarrow> length c \<le> 30"
  by (auto simp: isErrorCode_def errorCodes_def)

lemma body_weight:
  assumes "eventBodySchema cursor b = Some b"
  shows "membersWeight (bodyMembers b) \<le> 80000"
proof (cases b)
  case (Message role phase item words)
  then have "item = Some x \<Longrightarrow> length x \<le> 128" "length words \<le> 12000" for x
    using assms by (auto simp: eventBodySchema_def bind_eq_Some_conv eventTextLength_def identifier_lengths)
  with text_weight [of item 128] Message show ?thesis by (cases role; cases phase) simp_all
next
  case (Turn turn state err)
  then have "length turn \<le> 128" and e: "err = Some x \<Longrightarrow> length (fst x) \<le> 30 \<and> length (snd x) \<le> 240" for x
    using assms by (auto simp: eventBodySchema_def bind_eq_Some_conv identifier_lengths turnErrorSchema_def errorCode_length
        reasonLength_def)
  moreover have "jsonWeight (orNull (\<lambda>e. J_object [(js ''code'', J_string (fst e)), (js ''message'', J_string (snd e))]) err) \<le> 2000"
    by (rule orNull_weight) (use e in force)+
  ultimately show ?thesis using Turn name_lengths(2) [of state] by simp
next
  case (Activity kind state item title detail)
  then have "item = Some x \<Longrightarrow> length x \<le> 128" "length title \<le> 240" "detail = Some x \<Longrightarrow> length x \<le> 2000" for x
    using assms by (auto simp: eventBodySchema_def bind_eq_Some_conv eventLabelLength_def eventDetailLength_def identifier_lengths)
  with text_weight [of item 128] text_weight [of detail 2000] Activity name_lengths(3) [of kind] name_lengths(4) [of state]
  show ?thesis by simp
next
  case (Approval request state action scope reason risk expires decision)
  then have "length request \<le> 128" "length action \<le> 1000" "length scope \<le> 1000" "reason = Some x \<Longrightarrow> length x \<le> 1000"
    "expires = Some x \<Longrightarrow> length x \<le> 27" for x
    using assms by (auto simp: eventBodySchema_def bind_eq_Some_conv approvalFieldLength_def identifier_lengths iso_length)
  moreover have "jsonWeight (orNull (\<lambda>d. J_string (choiceName d)) decision) \<le> 200"
  proof (rule orNull_weight)
    fix x show "jsonWeight (J_string (choiceName x)) \<le> 200" using name_lengths(7) [of x] by simp
  qed simp
  ultimately show ?thesis
    using text_weight [of reason 1000] text_weight [of expires 27] Approval name_lengths(5) [of state] name_lengths(6) [of risk]
    by simp
next
  case (Control kind state summary)
  then have "summary = Some x \<Longrightarrow> length x \<le> 512" for x
    using assms by (auto simp: eventBodySchema_def bind_eq_Some_conv summaryLength_def)
  with text_weight [of summary 512] Control name_lengths(8) [of kind] name_lengths(9) [of state] show ?thesis by simp
next
  case (Runtime state info)
  then have "info = Some x \<Longrightarrow> length x \<le> 240" for x
    using assms by (auto simp: eventBodySchema_def bind_eq_Some_conv reasonLength_def)
  with text_weight [of info 240] Runtime name_lengths(10) [of state] show ?thesis by simp
next
  case (Replay_boundary after next_cursor reason)
  then have "after = Some x \<Longrightarrow> \<bar>x\<bar> \<le> maxSafe" "\<bar>next_cursor\<bar> \<le> maxSafe" for x
    using assms by (auto simp: eventBodySchema_def bind_eq_Some_conv outputCursorOk_def)
  moreover from this have "jsonWeight (orNull J_int after) \<le> 20"
    by (intro orNull_weight) (use intText_length in \<open>force intro: order.trans\<close>)+
  ultimately show ?thesis using Replay_boundary name_lengths(11) [of reason] intText_length [of next_cursor] by simp
next
  case (Unknown_optional upstream summary)
  then show ?thesis using assms by (auto simp: eventBodySchema_def bind_eq_Some_conv eventTypeLength_def summaryLength_def)
qed

lemma eventBytes_pos: "0 < eventBytes e"
proof -
  have "jsonText (eventJson e) \<noteq> []" by (simp add: eventJson_def)
  then have "0 < utf8Length (jsonText (eventJson e))"
    by (cases "jsonText (eventJson e)" rule: utf8Length.cases) auto
  then show ?thesis by (simp add: eventBytes_def)
qed

lemma eventBytes_bound:
  assumes "eventOk e"
  shows "eventBytes e \<le> 100000"
proof -
  have t: "upstreamAt e = Some x \<Longrightarrow> length x \<le> 27" "codexEventId e = Some x \<Longrightarrow> length x \<le> 160"
    "codexEventType e = Some x \<Longrightarrow> length x \<le> 160" "contentNotice e = Some x \<Longrightarrow> length x \<le> 240" for x
    using assms by (auto simp: eventOk_def eventTypeLength_def reasonLength_def iso_length)
  have l: "length (eventSessionId e) \<le> 69" "length (capturedAt e) \<le> 27" "\<bar>eventCursor e\<bar> \<le> maxSafe"
    using assms by (auto simp: eventOk_def identifier_lengths iso_length outputCursorOk_def)
  have b: "membersWeight (bodyMembers (eventBody e)) \<le> 80000"
    using assms body_weight [of "eventCursor e" "eventBody e"] by (simp add: eventOk_def)
  have "jsonWeight (eventJson e) \<le> 100000"
    using text_weight [of "upstreamAt e" 27] text_weight [of "codexEventId e" 160] text_weight [of "codexEventType e" 160]
      text_weight [of "contentNotice e" 240] t l b intText_length [OF l(3)] name_lengths(1) [of "contentState e"]
      name_lengths(12) [of "eventBody e"]
    by (simp add: eventJson_def membersWeight_append)
  with json_bytes(1) [of "eventJson e"] show ?thesis by (simp add: eventBytes_def)
qed

end
