(* ===== verification/State_Repository.thy ===== *)
theory State_Repository
  imports Event_Json
begin

text \<open>
  \<open>packages/storage/src/selected-state-repository.ts\<close>: the tables of the selected sessions and
  every operation of the repository on them. A table is the list of its rows; a query filters and
  sorts it. An operation is a function of the database to an error or a result with the new
  database; \<open>transaction\<close> rolls a failed one back. The tables' constraints are those of
  \<open>packages/storage/src/migrations.ts\<close> that the schemas do not imply: the unique columns, the
  length of \<open>settings_json\<close>, the foreign keys and the identity trigger of the memberships. When
  an insertion violates several unique columns, SQLite reports one; the model reports the first in
  the order \<open>mapStateConstraint\<close> looks for them. A column holds the value itself: JSON columns
  are written by \<open>JSON.stringify\<close> and read by \<open>JSON.parse\<close>.
\<close>

section \<open>Errors and rows\<close>

datatype repository_error =
  Cursor_not_monotonic | Duplicate_session_name | Duplicate_thread_id | Event_exists | Identity_mismatch
| Invalid_event | Invalid_legacy_record | Invalid_mapping | Invalid_membership | Invalid_projection
| Invalid_recovery | Invalid_retention_policy | Invalid_replay | Projection_conflict | Projection_write_failed
| Recovery_conflict | Session_exists | Session_not_adopted | Session_not_quiet | Session_not_found

type_synonym 'a outcome = "repository_error + 'a"

record selected_state =
  stateMapping :: session_mapping
  stateProjection :: projection_record

record state_revision =
  revMappingUpdatedAt :: js_string
  revProjectionUpdatedAt :: js_string
  revLastCursor :: "int option"

record projection_row =
  prSession :: js_string
  prState :: managed_session_state
  prTurn :: turn_state
  prAttention :: attention_level
  prFreshness :: projection_freshness
  prReason :: "js_string option"
  prUpdatedAt :: js_string
  prActivityAt :: "js_string option"
  prBranch :: "js_string option"
  prModel :: "js_string option"
  prSettings :: "session_settings option"
  prGoal :: "goal_cue option"
  prSummary :: js_string
  prLastCursor :: "int option"
  prCount :: int
  prBytes :: int
  prEarliest :: "int option"
  prBoundary :: "int option"

record event_row =
  rowSession :: js_string
  rowCursor :: int
  rowType :: js_string
  rowEventId :: "js_string option"
  rowEventType :: "js_string option"
  rowCapturedAt :: js_string
  rowContentState :: content_state
  rowBytes :: int
  rowEvent :: projection_event

record membership =
  memberSession :: js_string
  memberThread :: js_string
  adoptedAt :: js_string
  handoffConfirmedAt :: js_string

datatype recovery_state = RS_reserved | RS_thread_created | RS_persisted | RS_failed

record recovery =
  recoveryOperation :: js_string
  recoverySession :: js_string
  recoveryName :: js_string
  recoveryCwd :: js_string
  recoveryThread :: "js_string option"
  recoveryState :: recovery_state
  recoveryCreatedAt :: js_string
  recoveryUpdatedAt :: js_string
  recoveryErrorCode :: "js_string option"
  recoveryErrorMessage :: "js_string option"

record legacy_disposition =
  legacyId :: js_string
  legacyName :: js_string
  legacyCwd :: js_string
  legacyReason :: js_string
  legacyUpdatedAt :: js_string

record database =
  sessionTable :: "session_mapping list"
  projectionTable :: "projection_row list"
  eventTable :: "event_row list"
  membershipTable :: "membership list"
  recoveryTable :: "recovery list"
  legacyTable :: "legacy_disposition list"

definition transaction :: "(database \<Rightarrow> ('a \<times> database) outcome) \<Rightarrow> database \<Rightarrow> 'a outcome \<times> database" where
  "transaction f db = (case f db of Inl e \<Rightarrow> (Inl e, db) | Inr (x, db') \<Rightarrow> (Inr x, db'))"

section \<open>Schemas of the remaining records\<close>

definition clientOperationIdSchema :: "js_string \<Rightarrow> js_string option" where
  "clientOperationIdSchema s = brandedStringSchema parseClientOperationId (Some s)"

definition membershipSchema :: "membership \<Rightarrow> membership option" where
  "membershipSchema v =
     do {
       session \<leftarrow> sessionIdSchema (memberSession v);
       thread \<leftarrow> codexThreadIdSchema (memberThread v);
       adopted \<leftarrow> isoTimestampSchema (adoptedAt v);
       handoff \<leftarrow> isoTimestampSchema (handoffConfirmedAt v);
       _ \<leftarrow> guard (\<not> str_less adopted handoff);
       Some \<lparr> memberSession = session, memberThread = thread, adoptedAt = adopted, handoffConfirmedAt = handoff \<rparr>
     }"

definition recoverySchema :: "recovery \<Rightarrow> recovery option" where
  "recoverySchema v =
     do {
       operation \<leftarrow> clientOperationIdSchema (recoveryOperation v);
       session \<leftarrow> sessionIdSchema (recoverySession v);
       name \<leftarrow> sessionNameSchema (recoveryName v);
       cwd \<leftarrow> absoluteCwdSchema (recoveryCwd v);
       thread \<leftarrow> nullable codexThreadIdSchema (recoveryThread v);
       created \<leftarrow> isoTimestampSchema (recoveryCreatedAt v);
       updated \<leftarrow> isoTimestampSchema (recoveryUpdatedAt v);
       _ \<leftarrow> guard (case recoveryErrorCode v of None \<Rightarrow> True | Some c \<Rightarrow> isErrorCode c);
       info \<leftarrow> nullable (bounded 1 240) (recoveryErrorMessage v);
       _ \<leftarrow> guard (\<not> (recoveryState v = RS_reserved \<and> thread \<noteq> None));
       _ \<leftarrow> guard (\<not> (recoveryState v \<in> {RS_thread_created, RS_persisted} \<and> thread = None));
       _ \<leftarrow> guard (\<not> (recoveryState v = RS_failed \<and> (recoveryErrorCode v = None \<or> info = None)));
       _ \<leftarrow> guard (\<not> (recoveryState v \<noteq> RS_failed \<and> (recoveryErrorCode v \<noteq> None \<or> info \<noteq> None)));
       Some \<lparr> recoveryOperation = operation, recoverySession = session, recoveryName = name, recoveryCwd = cwd,
              recoveryThread = thread, recoveryState = recoveryState v, recoveryCreatedAt = created,
              recoveryUpdatedAt = updated, recoveryErrorCode = recoveryErrorCode v, recoveryErrorMessage = info \<rparr>
     }"

definition legacySchema :: "legacy_disposition \<Rightarrow> legacy_disposition option" where
  "legacySchema v =
     do {
       ident \<leftarrow> sessionIdSchema (legacyId v);
       name \<leftarrow> sessionNameSchema (legacyName v);
       cwd \<leftarrow> absoluteCwdSchema (legacyCwd v);
       reason \<leftarrow> bounded 1 240 (legacyReason v);
       updated \<leftarrow> isoTimestampSchema (legacyUpdatedAt v);
       Some \<lparr> legacyId = ident, legacyName = name, legacyCwd = cwd, legacyReason = reason, legacyUpdatedAt = updated \<rparr>
     }"

text \<open>\<open>const result = schema.safeParse(candidate); if (!result.success) throw ...\<close>\<close>

definition parsed :: "'a option \<Rightarrow> repository_error \<Rightarrow> 'a outcome" where
  "parsed r e = (case r of None \<Rightarrow> Inl e | Some x \<Rightarrow> Inr x)"

lemma parsed_Inr [simp]: "parsed r e = Inr x \<longleftrightarrow> r = Some x"
  by (auto simp: parsed_def split: option.splits)

lemma parsed_Some [simp]: "parsed (Some x) e = Inr x"
  by simp

definition parseMapping :: "session_mapping \<Rightarrow> session_mapping outcome" where
  "parseMapping v = parsed (selectedSessionMappingRecordSchema v) Invalid_mapping"

definition parseProjection :: "projection_record \<Rightarrow> projection_record outcome" where
  "parseProjection v = parsed (selectedSessionProjectionRecordSchema v) Invalid_projection"

definition parseProjectedEventRecord :: "event_record \<Rightarrow> event_record outcome" where
  "parseProjectedEventRecord v = parsed (selectedProjectedEventRecordSchema v) Invalid_event"

definition parseNativeMembership :: "membership \<Rightarrow> membership outcome" where
  "parseNativeMembership v = parsed (membershipSchema v) Invalid_membership"

definition parseRecovery :: "recovery \<Rightarrow> recovery outcome" where
  "parseRecovery v = parsed (recoverySchema v) Invalid_recovery"

definition parseLegacyDisposition :: "legacy_disposition \<Rightarrow> legacy_disposition outcome" where
  "parseLegacyDisposition v = parsed (legacySchema v) Invalid_legacy_record"

definition parseSelectedStateRevision :: "state_revision \<Rightarrow> state_revision outcome" where
  "parseSelectedStateRevision v =
     parsed
       (do {
          mapping \<leftarrow> isoTimestampSchema (revMappingUpdatedAt v);
          projection \<leftarrow> isoTimestampSchema (revProjectionUpdatedAt v);
          _ \<leftarrow> guard (cursorOptionOk (revLastCursor v));
          Some \<lparr> revMappingUpdatedAt = mapping, revProjectionUpdatedAt = projection, revLastCursor = revLastCursor v \<rparr>
        })
       Invalid_projection"

definition parseSessionIdArg :: "js_string \<Rightarrow> js_string outcome" where
  "parseSessionIdArg s = parsed (sessionIdSchema s) Session_not_found"

definition parseThreadIdArg :: "js_string \<Rightarrow> js_string outcome" where
  "parseThreadIdArg s = parsed (codexThreadIdSchema s) Session_not_found"

definition parseOperationIdArg :: "js_string \<Rightarrow> js_string outcome" where
  "parseOperationIdArg s = parsed (clientOperationIdSchema s) Invalid_recovery"

definition selectedProjectedEventByteLength :: "projection_event \<Rightarrow> int outcome" where
  "selectedProjectedEventByteLength event =
     andThen (parsed (selectedProjectionEventSchema event) Invalid_event) (\<lambda>e. Inr (eventBytes e))"

definition assertEventByteLength :: "event_record \<Rightarrow> unit outcome" where
  "assertEventByteLength record =
     andThen (selectedProjectedEventByteLength (recordEvent record)) (\<lambda>actual.
       throwIf (recordBytes record \<noteq> actual) Invalid_event)"

definition selectedStateRevision :: "selected_state \<Rightarrow> state_revision" where
  "selectedStateRevision state =
     \<lparr> revMappingUpdatedAt = mappingUpdatedAt (stateMapping state),
       revProjectionUpdatedAt = updatedAt (projectionSession (stateProjection state)),
       revLastCursor = lastEventCursor (projectionSession (stateProjection state)) \<rparr>"

section \<open>Assertions\<close>

definition assertProjectionIdentity :: "session_mapping \<Rightarrow> projection_record \<Rightarrow> unit outcome" where
  "assertProjectionIdentity m p =
     (let s = projectionSession p in
      throwIf
        (mappingId m \<noteq> sessionIdent s \<or> mappingName m \<noteq> sessionName s \<or> mappingThread m \<noteq> codexThreadId s \<or>
         mappingCwd m \<noteq> sessionCwd s \<or> mappingSource m \<noteq> runtimeSource s \<or> mappingVersion m \<noteq> runtimeVersion s \<or>
         mappingCreatedAt m \<noteq> createdAt s \<or> mappingArchivedAt m \<noteq> archivedAt s)
        Identity_mismatch)"

definition assertStateChronology :: "session_mapping \<Rightarrow> projection_record \<Rightarrow> unit outcome" where
  "assertStateChronology m p =
     (let s = projectionSession p in
      andThen (throwIf (str_less (mappingUpdatedAt m) (mappingCreatedAt m) \<or> str_less (updatedAt s) (createdAt s))
        Invalid_projection) (\<lambda>_.
      andThen
        (throwIf
          (case mappingArchivedAt m of
             None \<Rightarrow> False
           | Some a \<Rightarrow> str_less a (mappingCreatedAt m) \<or> str_less (mappingUpdatedAt m) a \<or> str_less (updatedAt s) a)
          Invalid_projection) (\<lambda>_.
      throwIf
        (case lastActivityAt s of
           None \<Rightarrow> False
         | Some a \<Rightarrow> str_less a (createdAt s) \<or> str_less (updatedAt s) a)
        Invalid_projection)))"

definition assertImmutableMappingIdentity :: "session_mapping \<Rightarrow> session_mapping \<Rightarrow> unit outcome" where
  "assertImmutableMappingIdentity current next =
     throwIf
       (mappingId current \<noteq> mappingId next \<or> mappingThread current \<noteq> mappingThread next \<or>
        mappingCreatedAt current \<noteq> mappingCreatedAt next \<or>
        mappingArchivedAt current \<noteq> None \<and> mappingArchivedAt current \<noteq> mappingArchivedAt next)
       Identity_mismatch"

definition assertCurrentRevision :: "selected_state \<Rightarrow> state_revision \<Rightarrow> unit outcome" where
  "assertCurrentRevision current expected =
     (let actual = selectedStateRevision current in
      throwIf
        (revMappingUpdatedAt actual \<noteq> revMappingUpdatedAt expected \<or>
         revProjectionUpdatedAt actual \<noteq> revProjectionUpdatedAt expected \<or>
         revLastCursor actual \<noteq> revLastCursor expected)
        Projection_conflict)"

definition sameEventState :: "projection_record \<Rightarrow> projection_record \<Rightarrow> bool" where
  "sameEventState next current \<longleftrightarrow>
     lastEventCursor (projectionSession next) = lastEventCursor (projectionSession current) \<and>
     retainedCount next = retainedCount current \<and> retainedBytes next = retainedBytes current \<and>
     earliestCursor next = earliestCursor current \<and> boundaryCursor next = boundaryCursor current"

definition assertSafeStateReplacement :: "selected_state \<Rightarrow> selected_state \<Rightarrow> unit outcome" where
  "assertSafeStateReplacement current next =
     andThen
       (throwIf
         (\<not> str_less (mappingUpdatedAt (stateMapping current)) (mappingUpdatedAt (stateMapping next)) \<or>
          \<not> str_less (updatedAt (projectionSession (stateProjection current)))
              (updatedAt (projectionSession (stateProjection next))))
         Projection_conflict) (\<lambda>_.
     throwIf (\<not> sameEventState (stateProjection next) (stateProjection current)) Projection_conflict)"

definition cursorFloor :: "projection_record \<Rightarrow> int" where
  "cursorFloor p = max (case lastEventCursor (projectionSession p) of None \<Rightarrow> 0 | Some c \<Rightarrow> c)
     (case boundaryCursor p of None \<Rightarrow> 0 | Some c \<Rightarrow> c)"

definition assertEventAdvance :: "projection_record \<Rightarrow> event_record \<Rightarrow> projection_record \<Rightarrow> unit outcome" where
  "assertEventAdvance current record next =
     (let event = recordEvent record; session = projectionSession current; nextSession = projectionSession next in
      andThen (throwIf (eventSessionId event \<noteq> sessionIdent session \<or> sessionIdent nextSession \<noteq> sessionIdent session)
        Identity_mismatch) (\<lambda>_.
      andThen (throwIf (str_less (capturedAt event) (createdAt session)) Invalid_event) (\<lambda>_.
      andThen (throwIf (eventCursor event \<noteq> cursorFloor current + 1) Cursor_not_monotonic) (\<lambda>_.
      andThen (throwIf (lastEventCursor nextSession \<noteq> Some (eventCursor event)) Projection_conflict) (\<lambda>_.
      andThen (throwIf (str_less (updatedAt nextSession) (updatedAt session) \<or>
          str_less (updatedAt nextSession) (capturedAt event)) Projection_conflict) (\<lambda>_.
      andThen
        (throwIf
          (retainedCount next \<noteq> retainedCount current + 1 \<or>
           retainedBytes next \<noteq> retainedBytes current + recordBytes record \<or>
           earliestCursor next \<noteq>
             Some (case earliestCursor current of None \<Rightarrow> eventCursor event | Some c \<Rightarrow> c))
          Projection_conflict) (\<lambda>_.
      throwIf
        (if isBoundary event then
           retainedCount current \<noteq> 0 \<or> boundaryCursor next \<noteq> boundaryAfter event \<or>
           (case boundaryCursor current of
              None \<Rightarrow> False
            | Some b \<Rightarrow> (case boundaryCursor next of None \<Rightarrow> True | Some n \<Rightarrow> n < b))
         else boundaryCursor next \<noteq> boundaryCursor current)
        Projection_conflict)))))))"

definition isRetentionBoundary :: "projection_event \<Rightarrow> bool" where
  "isRetentionBoundary e = (case eventBody e of Replay_boundary _ _ r \<Rightarrow> r = BR_retention | _ \<Rightarrow> False)"

definition boundaryNext :: "projection_event \<Rightarrow> int option" where
  "boundaryNext e = (case eventBody e of Replay_boundary _ n _ \<Rightarrow> Some n | _ \<Rightarrow> None)"

definition assertContinuityBoundaryReplacement ::
  "projection_record \<Rightarrow> event_record \<Rightarrow> projection_record \<Rightarrow> unit outcome" where
  "assertContinuityBoundaryReplacement current record next =
     (let event = recordEvent record; session = projectionSession current; nextSession = projectionSession next;
          floor = cursorFloor current; expectedCursor = floor + 1;
          expectedAfter = (if floor = 0 then None else Some floor) in
      andThen (throwIf (\<not> isBoundary event \<or> isRetentionBoundary event) Invalid_event) (\<lambda>_.
      andThen (throwIf (eventSessionId event \<noteq> sessionIdent session \<or> sessionIdent nextSession \<noteq> sessionIdent session)
        Identity_mismatch) (\<lambda>_.
      andThen (throwIf (str_less (capturedAt event) (createdAt session)) Invalid_event) (\<lambda>_.
      andThen
        (throwIf (eventCursor event \<noteq> expectedCursor \<or> boundaryNext event \<noteq> Some expectedCursor \<or>
           boundaryAfter event \<noteq> expectedAfter) Cursor_not_monotonic) (\<lambda>_.
      andThen
        (throwIf
          (lastEventCursor nextSession \<noteq> Some expectedCursor \<or>
           str_less (updatedAt nextSession) (updatedAt session) \<or>
           str_less (updatedAt nextSession) (capturedAt event))
          Projection_conflict) (\<lambda>_.
      throwIf
        (retainedCount next \<noteq> 1 \<or> retainedBytes next \<noteq> recordBytes record \<or>
         earliestCursor next \<noteq> Some expectedCursor \<or> boundaryCursor next \<noteq> expectedAfter)
        Projection_conflict))))))"

definition assertInitialProjection :: "projection_record \<Rightarrow> unit outcome" where
  "assertInitialProjection p =
     throwIf
       (lastEventCursor (projectionSession p) \<noteq> None \<or> retainedCount p \<noteq> 0 \<or> retainedBytes p \<noteq> 0 \<or>
        earliestCursor p \<noteq> None \<or> boundaryCursor p \<noteq> None)
       Invalid_projection"

definition assertNativeAdoptionIdentity :: "membership \<Rightarrow> selected_state \<Rightarrow> unit outcome" where
  "assertNativeAdoptionIdentity member state =
     (let m = stateMapping state; s = projectionSession (stateProjection state) in
      andThen (throwIf (memberSession member \<noteq> mappingId m \<or> memberThread member \<noteq> mappingThread m)
        Identity_mismatch) (\<lambda>_.
      throwIf
        (mappingDisposition m \<noteq> Disposition_selected \<or> mappingArchivedAt m \<noteq> None \<or>
         lifecycleState s \<noteq> MS_active \<or> turnState s \<noteq> TS_idle \<or> sessionAttention s \<noteq> AL_none \<or>
         sessionFreshness s \<noteq> PF_current \<or>
         str_less (mappingUpdatedAt m) (adoptedAt member) \<or> str_less (updatedAt s) (adoptedAt member))
        Invalid_membership))"

definition adoptionBoundary :: "membership \<Rightarrow> projection_event \<Rightarrow> bool" where
  "adoptionBoundary member e \<longleftrightarrow>
     eventBody e = Replay_boundary None 1 BR_adoption \<and> eventCursor e = 1 \<and> codexEventId e = None \<and>
     codexEventType e = None \<and> capturedAt e = adoptedAt member"

text \<open>The loop over \<open>events.entries()\<close> and its two accumulators.\<close>

fun adoptionLoop ::
  "selected_state \<Rightarrow> nat \<Rightarrow> js_string list \<Rightarrow> int \<Rightarrow> event_record list \<Rightarrow> int outcome" where
  "adoptionLoop state index codexEventIds retained [] = Inr retained"
| "adoptionLoop state index codexEventIds retained (record # records) =
     (let event = recordEvent record in
      andThen (throwIf (eventSessionId event \<noteq> mappingId (stateMapping state) \<or> eventCursor event \<noteq> int index + 1)
        Cursor_not_monotonic) (\<lambda>_.
      andThen
        (throwIf
          (str_less (capturedAt event) (mappingCreatedAt (stateMapping state)) \<or>
           str_less (updatedAt (projectionSession (stateProjection state))) (capturedAt event))
          Invalid_event) (\<lambda>_.
      andThen
        (if index > 0 then
           andThen
             (throwIf
               (\<not> (case eventBody event of
                     Message _ phase _ _ \<Rightarrow> phase = Phase_completed
                   | Turn _ st _ \<Rightarrow> st \<in> {TS_completed, TS_interrupted, TS_failed}
                   | _ \<Rightarrow> False))
               Invalid_event) (\<lambda>_.
           (case codexEventId event of
              None \<Rightarrow> Inl Invalid_event
            | Some i \<Rightarrow> if i \<in> set codexEventIds then Inl Invalid_event else Inr (codexEventIds @ [i])))
         else Inr codexEventIds) (\<lambda>codexEventIds.
      adoptionLoop state (index + 1) codexEventIds (retained + recordBytes record) records))))"

definition assertNativeAdoptionProjection ::
  "membership \<Rightarrow> selected_state \<Rightarrow> event_record list \<Rightarrow> unit outcome" where
  "assertNativeAdoptionProjection member state events =
     andThen
       (throwIf (case events of [] \<Rightarrow> True | record # _ \<Rightarrow> \<not> adoptionBoundary member (recordEvent record))
         Invalid_event) (\<lambda>_.
     andThen (adoptionLoop state 0 [] 0 events) (\<lambda>retained.
     (let p = stateProjection state in
      throwIf
        (lastEventCursor (projectionSession p) \<noteq> Some (int (length events)) \<or>
         retainedCount p \<noteq> int (length events) \<or> retainedBytes p \<noteq> retained \<or> earliestCursor p \<noteq> Some 1 \<or>
         boundaryCursor p \<noteq> None)
        Invalid_projection)))"

definition assertNativeSessionQuietForUnmanage :: "selected_state \<Rightarrow> unit outcome" where
  "assertNativeSessionQuietForUnmanage state =
     (let m = stateMapping state; s = projectionSession (stateProjection state) in
      throwIf
        (mappingDisposition m \<noteq> Disposition_selected \<or> mappingArchivedAt m \<noteq> None \<or> lifecycleState s \<noteq> MS_active \<or>
         turnState s \<notin> {TS_idle, TS_completed} \<or> sessionAttention s \<noteq> AL_none \<or> sessionFreshness s \<noteq> PF_current)
        Session_not_quiet)"

section \<open>Reading rows\<close>

text \<open>\<open>sort_key\<close> is stable; the cursors of one session are distinct (the primary key).\<close>

definition sessionEvents :: "database \<Rightarrow> js_string \<Rightarrow> event_row list" where
  "sessionEvents db sid = sort_key rowCursor (filter (\<lambda>r. rowSession r = sid) (eventTable db))"

definition parseStateRows :: "session_mapping \<Rightarrow> projection_row \<Rightarrow> selected_state outcome" where
  "parseStateRows mappingRow row =
     andThen (parseMapping mappingRow) (\<lambda>m.
     andThen
       (parseProjection
         \<lparr> projectionSession =
             \<lparr> sessionIdent = mappingId m, sessionName = mappingName m, codexThreadId = mappingThread m,
               sessionCwd = mappingCwd m, runtimeSource = mappingSource m, runtimeVersion = mappingVersion m,
               createdAt = mappingCreatedAt m, archivedAt = mappingArchivedAt m, lifecycleState = prState row,
               turnState = prTurn row, sessionAttention = prAttention row, sessionFreshness = prFreshness row,
               freshnessReason = prReason row, updatedAt = prUpdatedAt row, lastActivityAt = prActivityAt row,
               sessionBranch = prBranch row, sessionModel = prModel row, sessionSettings = prSettings row,
               sessionGoal = prGoal row, recentSummary = prSummary row, lastEventCursor = prLastCursor row \<rparr>,
           retainedCount = prCount row, retainedBytes = prBytes row, earliestCursor = prEarliest row,
           boundaryCursor = prBoundary row \<rparr>) (\<lambda>p.
     andThen (assertStateChronology m p) (\<lambda>_. Inr \<lparr> stateMapping = m, stateProjection = p \<rparr>)))"

definition readState :: "database \<Rightarrow> js_string \<Rightarrow> selected_state option outcome" where
  "readState db sid =
     (case find (\<lambda>m. mappingId m = sid) (sessionTable db) of
        None \<Rightarrow> Inr None
      | Some m \<Rightarrow>
          (case find (\<lambda>r. prSession r = sid) (projectionTable db) of
             None \<Rightarrow> Inl Invalid_projection
           | Some r \<Rightarrow> andThen (parseStateRows m r) (\<lambda>s. Inr (Some s))))"

definition requireState :: "database \<Rightarrow> js_string \<Rightarrow> selected_state outcome" where
  "requireState db sid =
     andThen (readState db sid) (\<lambda>state. case state of None \<Rightarrow> Inl Session_not_found | Some s \<Rightarrow> Inr s)"

definition parseEventRow :: "event_row \<Rightarrow> event_record outcome" where
  "parseEventRow row =
     andThen (parseProjectedEventRecord \<lparr> recordEvent = rowEvent row, recordBytes = rowBytes row \<rparr>) (\<lambda>record.
     (let event = recordEvent record in
      andThen
        (throwIf
          (eventSessionId event \<noteq> rowSession row \<or> eventCursor event \<noteq> rowCursor row \<or>
           eventType (eventBody event) \<noteq> rowType row \<or> codexEventId event \<noteq> rowEventId row \<or>
           codexEventType event \<noteq> rowEventType row \<or> capturedAt event \<noteq> rowCapturedAt row \<or>
           contentState event \<noteq> rowContentState row)
          Invalid_event) (\<lambda>_.
      andThen (assertEventByteLength record) (\<lambda>_. Inr record))))"

record event_aggregate =
  aggregateCount :: int
  aggregateBytes :: int
  aggregateEarliest :: "int option"
  aggregateLatest :: "int option"

definition readSelectedProjectionAggregate :: "database \<Rightarrow> js_string \<Rightarrow> event_aggregate" where
  "readSelectedProjectionAggregate db sid =
     (let rows = sessionEvents db sid in
      \<lparr> aggregateCount = int (length rows), aggregateBytes = sum_list (map rowBytes rows),
        aggregateEarliest = (if rows = [] then None else Some (rowCursor (hd rows))),
        aggregateLatest = (if rows = [] then None else Some (rowCursor (last rows))) \<rparr>)"

definition assertPersistedEventProjection :: "database \<Rightarrow> projection_record \<Rightarrow> unit outcome" where
  "assertPersistedEventProjection db p =
     (let sid = sessionIdent (projectionSession p); aggregate = readSelectedProjectionAggregate db sid in
      andThen
        (throwIf
          (aggregateCount aggregate \<noteq> retainedCount p \<or> aggregateBytes aggregate \<noteq> retainedBytes p \<or>
           aggregateEarliest aggregate \<noteq> earliestCursor p \<or>
           aggregateLatest aggregate \<noteq> lastEventCursor (projectionSession p))
          Invalid_projection) (\<lambda>_.
      case sessionEvents db sid of
        [] \<Rightarrow> throwIf (boundaryCursor p \<noteq> None) Invalid_projection
      | row # rows \<Rightarrow>
          andThen
            (throwIf (rowCursor (last (row # rows)) - rowCursor row + 1 \<noteq> aggregateCount aggregate) Invalid_projection) (\<lambda>_.
          andThen (parseEventRow row) (\<lambda>firstRecord.
          (let firstEvent = recordEvent firstRecord in
           if isBoundary firstEvent then throwIf (boundaryCursor p \<noteq> boundaryAfter firstEvent) Invalid_projection
           else throwIf (boundaryCursor p \<noteq> None \<or> eventCursor firstEvent \<noteq> 1) Invalid_projection)))))"

section \<open>Writing rows\<close>

definition projectionToRow :: "projection_record \<Rightarrow> projection_row" where
  "projectionToRow p =
     (let s = projectionSession p in
      \<lparr> prSession = sessionIdent s, prState = lifecycleState s, prTurn = turnState s, prAttention = sessionAttention s,
        prFreshness = sessionFreshness s, prReason = freshnessReason s, prUpdatedAt = updatedAt s,
        prActivityAt = lastActivityAt s, prBranch = sessionBranch s, prModel = sessionModel s,
        prSettings = sessionSettings s, prGoal = sessionGoal s, prSummary = recentSummary s,
        prLastCursor = lastEventCursor s, prCount = retainedCount p, prBytes = retainedBytes p,
        prEarliest = earliestCursor p, prBoundary = boundaryCursor p \<rparr>)"

definition eventToRow :: "event_record \<Rightarrow> event_row" where
  "eventToRow record =
     (let e = recordEvent record in
      \<lparr> rowSession = eventSessionId e, rowCursor = eventCursor e, rowType = eventType (eventBody e),
        rowEventId = codexEventId e, rowEventType = codexEventType e, rowCapturedAt = capturedAt e,
        rowContentState = contentState e, rowBytes = recordBytes record, rowEvent = e \<rparr>)"

text \<open>\<open>length(CAST(settings_json AS BLOB)) BETWEEN 2 AND 1024\<close>\<close>

definition settingsFit :: "session_settings option \<Rightarrow> bool" where
  "settingsFit s = (case s of None \<Rightarrow> True | Some s \<Rightarrow> utf8Length (jsonText (settingsJson s)) \<le> 1024)"

text \<open>\<open>mapStateConstraint\<close> on the constraint that an insertion or an update of a mapping violates.\<close>

definition mappingConstraint :: "session_mapping list \<Rightarrow> session_mapping \<Rightarrow> repository_error option" where
  "mappingConstraint others m =
     (if list_ex (\<lambda>o'. mappingName o' = mappingName m) others then Some Duplicate_session_name
      else if list_ex (\<lambda>o'. mappingThread o' = mappingThread m) others then Some Duplicate_thread_id
      else if list_ex (\<lambda>o'. mappingId o' = mappingId m) others then Some Session_exists
      else None)"

definition insertMapping :: "session_mapping \<Rightarrow> database \<Rightarrow> database outcome" where
  "insertMapping m db =
     (case mappingConstraint (sessionTable db) m of
        Some e \<Rightarrow> Inl e
      | None \<Rightarrow> Inr (db\<lparr> sessionTable := sessionTable db @ [m] \<rparr>))"

definition insertProjection :: "projection_record \<Rightarrow> database \<Rightarrow> database outcome" where
  "insertProjection p db =
     (if \<not> settingsFit (sessionSettings (projectionSession p)) \<or>
         list_ex (\<lambda>r. prSession r = sessionIdent (projectionSession p)) (projectionTable db)
      then Inl Invalid_mapping
      else Inr (db\<lparr> projectionTable := projectionTable db @ [projectionToRow p] \<rparr>))"

text \<open>The number of rows an update changes and the database after it; \<open>None\<close> when a check fails.\<close>

definition updateProjection :: "projection_record \<Rightarrow> database \<Rightarrow> (nat \<times> database) option" where
  "updateProjection p db =
     (let sid = sessionIdent (projectionSession p);
          changed = length (filter (\<lambda>r. prSession r = sid) (projectionTable db)) in
      if changed > 0 \<and> \<not> settingsFit (sessionSettings (projectionSession p)) then None
      else Some (changed,
        db\<lparr> projectionTable := map (\<lambda>r. if prSession r = sid then projectionToRow p else r) (projectionTable db) \<rparr>))"

text \<open>\<open>mapEventConstraint\<close>: every failure but the unique columns is \<open>projection_write_failed\<close>.\<close>

definition insertEvent :: "event_record \<Rightarrow> database \<Rightarrow> database outcome" where
  "insertEvent record db =
     (let row = eventToRow record in
      if list_ex (\<lambda>r. rowSession r = rowSession row \<and>
           (rowCursor r = rowCursor row \<or> rowEventId row \<noteq> None \<and> rowEventId r = rowEventId row)) (eventTable db)
      then Inl Event_exists
      else if \<not> list_ex (\<lambda>m. mappingId m = rowSession row) (sessionTable db) then Inl Projection_write_failed
      else Inr (db\<lparr> eventTable := eventTable db @ [row] \<rparr>))"

definition insertNativeMembership :: "membership \<Rightarrow> database \<Rightarrow> database outcome" where
  "insertNativeMembership member db =
     (if \<not> list_ex (\<lambda>m. mappingId m = memberSession member \<and> mappingThread m = memberThread member \<and>
             mappingDisposition m = Disposition_selected \<and> mappingArchivedAt m = None) (sessionTable db) \<or>
         list_ex (\<lambda>r. memberSession r = memberSession member \<or> memberThread r = memberThread member) (membershipTable db)
      then Inl Invalid_membership
      else Inr (db\<lparr> membershipTable := membershipTable db @ [member] \<rparr>))"

text \<open>\<open>DELETE ... WHERE session_id = ? AND cursor <= ?\<close> and the number of deleted rows.\<close>

definition deleteEventsThrough :: "js_string \<Rightarrow> int \<Rightarrow> database \<Rightarrow> int \<times> database" where
  "deleteEventsThrough sid cursor db =
     (let gone = (\<lambda>r. rowSession r = sid \<and> rowCursor r \<le> cursor) in
      (int (length (filter gone (eventTable db))),
       db\<lparr> eventTable := filter (\<lambda>r. \<not> gone r) (eventTable db) \<rparr>))"

definition deleteSessionEvents :: "js_string \<Rightarrow> database \<Rightarrow> database" where
  "deleteSessionEvents sid db = db\<lparr> eventTable := filter (\<lambda>r. rowSession r \<noteq> sid) (eventTable db) \<rparr>"

text \<open>\<open>DELETE FROM selected_sessions WHERE id = ?\<close> cascades.\<close>

definition deleteSession :: "js_string \<Rightarrow> database \<Rightarrow> database" where
  "deleteSession sid db =
     db\<lparr> sessionTable := filter (\<lambda>m. mappingId m \<noteq> sid) (sessionTable db),
         projectionTable := filter (\<lambda>r. prSession r \<noteq> sid) (projectionTable db),
         eventTable := filter (\<lambda>r. rowSession r \<noteq> sid) (eventTable db),
         membershipTable := filter (\<lambda>r. memberSession r \<noteq> sid) (membershipTable db) \<rparr>"

section \<open>Retention\<close>

definition projectionMeetsRetention :: "projection_record \<Rightarrow> retention_policy \<Rightarrow> bool" where
  "projectionMeetsRetention p policy \<longleftrightarrow>
     retainedCount p \<le> outputEventLimit policy \<and> retainedBytes p \<le> outputByteLimit policy"

definition parseSelectedProjectionRetentionPolicy :: "retention_policy \<Rightarrow> retention_policy outcome" where
  "parseSelectedProjectionRetentionPolicy candidate =
     (case retentionPolicySchema candidate of
        None \<Rightarrow> Inl Invalid_retention_policy
      | Some policy \<Rightarrow> if outputEventLimit policy < 2 then Inl Invalid_retention_policy else Inr policy)"

definition retentionBoundaryEvent :: "js_string \<Rightarrow> int \<Rightarrow> js_string \<Rightarrow> projection_event" where
  "retentionBoundaryEvent sid cursor captured =
     \<lparr> capturedAt = captured, upstreamAt = None, codexEventId = None, codexEventType = None,
       contentState = Content_complete, contentNotice = None,
       eventBody = Replay_boundary (Some (cursor - 1)) cursor BR_retention,
       eventSessionId = sid, eventCursor = cursor \<rparr>"

text \<open>
  \<open>schema.parse\<close> throws the schema's own error, which both callers turn into
  \<open>projection_write_failed\<close>.
\<close>

definition createRetentionBoundaryRecord :: "js_string \<Rightarrow> int \<Rightarrow> js_string \<Rightarrow> event_record outcome" where
  "createRetentionBoundaryRecord sid cursor captured =
     andThen (parsed (selectedProjectionEventSchema (retentionBoundaryEvent sid cursor captured)) Projection_write_failed) (\<lambda>event.
     andThen (throwIf (\<not> isBoundary event) Invalid_event) (\<lambda>_.
     andThen (selectedProjectedEventByteLength event) (\<lambda>bytes.
     Inr \<lparr> recordEvent = event, recordBytes = bytes \<rparr>)))"

abbreviation recordCursor :: "event_record \<Rightarrow> int" where
  "recordCursor r \<equiv> eventCursor (recordEvent r)"

abbreviation recordCapture :: "event_record \<Rightarrow> js_string" where
  "recordCapture r \<equiv> capturedAt (recordEvent r)"

definition realRecord :: "event_record \<Rightarrow> bool" where
  "realRecord r \<longleftrightarrow> \<not> isBoundary (recordEvent r)"

definition contiguousRecords :: "event_record list \<Rightarrow> bool" where
  "contiguousRecords rs \<longleftrightarrow> list_all (\<lambda>(a, b). recordCursor b = recordCursor a + 1) (zip rs (tl rs))"

definition assertSelectedRetentionLayout :: "event_record list \<Rightarrow> projection_record \<Rightarrow> unit outcome" where
  "assertSelectedRetentionLayout recordsNewestFirst p =
     (case rev recordsNewestFirst of
        [] \<Rightarrow> throwIf (retainedCount p \<noteq> 0) Invalid_projection
      | first # rest \<Rightarrow>
          (let ascending = first # rest; boundaries = filter (\<lambda>r. \<not> realRecord r) ascending; final = last ascending in
           andThen
             (throwIf (length boundaries > 1 \<or> length boundaries = 1 \<and> realRecord first) Invalid_event) (\<lambda>_.
           andThen (throwIf (\<not> list_ex realRecord ascending) Invalid_event) (\<lambda>_.
           andThen (throwIf (\<not> contiguousRecords ascending) Invalid_event) (\<lambda>_.
           andThen
             (throwIf
               (Some (recordCursor first) \<noteq> earliestCursor p \<or>
                Some (recordCursor final) \<noteq> lastEventCursor (projectionSession p))
               Invalid_projection) (\<lambda>_.
           (case boundaryCursor p of
              None \<Rightarrow> throwIf (\<not> realRecord first \<or> recordCursor first \<noteq> 1) Invalid_projection
            | Some b \<Rightarrow>
                throwIf
                  (realRecord first \<or> boundaryAfter (recordEvent first) \<noteq> Some b \<or> recordCursor first \<noteq> b + 1)
                  Invalid_projection)))))))"

text \<open>The \<open>for\<close> loop of \<open>planSelectedProjectionRetention\<close>.\<close>

fun retainLoop ::
  "js_string \<Rightarrow> retention_policy \<Rightarrow> event_record list \<Rightarrow> int \<Rightarrow> event_record list \<Rightarrow> (event_record list \<times> int) outcome" where
  "retainLoop sid policy retained bytes [] = Inr (retained, bytes)"
| "retainLoop sid policy retained bytes (candidate # rest) =
     (if int (length retained) \<ge> outputEventLimit policy - 1 \<or> recordCursor candidate \<le> 1 then Inr (retained, bytes)
      else
        andThen (createRetentionBoundaryRecord sid (recordCursor candidate - 1) (recordCapture candidate)) (\<lambda>b.
          if recordBytes b + bytes + recordBytes candidate > outputByteLimit policy then Inr (retained, bytes)
          else retainLoop sid policy (retained @ [candidate]) (bytes + recordBytes candidate) rest))"

record retention_plan =
  planBoundary :: "event_record option"
  newestOversize :: bool
  planRemovable :: "event_record list"
  planRetained :: "event_record list"
  planBytes :: int

text \<open>The end of \<open>planSelectedProjectionRetention\<close>, from the records the loop retained.\<close>

definition finishRetentionPlan ::
  "js_string \<Rightarrow> event_record list \<Rightarrow> event_record list \<Rightarrow> int \<Rightarrow> retention_plan outcome" where
  "finishRetentionPlan sid realNewestFirst retained bytes =
     (let oldest = last retained in
      if recordCursor oldest \<le> 1 then
        Inr \<lparr> planBoundary = None, newestOversize = True, planRemovable = [], planRetained = retained,
              planBytes = bytes \<rparr>
      else
        andThen (createRetentionBoundaryRecord sid (recordCursor oldest - 1) (recordCapture oldest)) (\<lambda>b.
        Inr \<lparr> planBoundary = Some b, newestOversize = False,
              planRemovable = filter (\<lambda>r. recordCursor r \<le> recordCursor b) (rev realNewestFirst),
              planRetained = retained, planBytes = bytes \<rparr>))"

definition planSelectedProjectionRetention ::
  "event_record list \<Rightarrow> projection_record \<Rightarrow> retention_policy \<Rightarrow> retention_plan outcome" where
  "planSelectedProjectionRetention records p policy =
     (let realNewestFirst = filter realRecord records; sid = sessionIdent (projectionSession p) in
      if projectionMeetsRetention p policy then
        Inr \<lparr> planBoundary = None, newestOversize = False, planRemovable = [], planRetained = realNewestFirst,
              planBytes = sum_list (map recordBytes realNewestFirst) \<rparr>
      else
        case realNewestFirst of
          [] \<Rightarrow> Inl Invalid_projection
        | [newest] \<Rightarrow>
            Inr \<lparr> planBoundary = None, newestOversize = True, planRemovable = [], planRetained = [newest],
                  planBytes = recordBytes newest \<rparr>
        | newest # older \<Rightarrow>
            andThen (retainLoop sid policy [newest] (recordBytes newest) older) (\<lambda>(retained, bytes).
            finishRetentionPlan sid realNewestFirst retained bytes))"

text \<open>The end of \<open>applySelectedProjectionRetention\<close>, from a plan that removes records.\<close>

definition executeRetentionPlan ::
  "projection_record \<Rightarrow> retention_plan \<Rightarrow> event_record \<Rightarrow> database \<Rightarrow> (projection_record \<times> database) outcome" where
  "executeRetentionPlan next plan boundary db =
     andThen
       (throwIf
         (case (boundaryCursor next, boundaryAfter (recordEvent boundary)) of
            (Some b, Some a) \<Rightarrow> a < b
          | _ \<Rightarrow> False)
         Invalid_projection) (\<lambda>_.
     (let (changes, db) = deleteEventsThrough (sessionIdent (projectionSession next)) (recordCursor boundary) db in
      andThen (throwIf (changes < 1) Projection_write_failed) (\<lambda>_.
      andThen (insertEvent boundary db) (\<lambda>db.
      andThen
        (parseProjection
          (next\<lparr> retainedCount := int (length (planRetained plan)) + 1,
                 retainedBytes := planBytes plan + recordBytes boundary,
                 earliestCursor := Some (recordCursor boundary),
                 boundaryCursor := boundaryAfter (recordEvent boundary) \<rparr>)) (\<lambda>p.
      Inr (p, db))))))"

definition applySelectedProjectionRetention ::
  "projection_record \<Rightarrow> retention_policy \<Rightarrow> database \<Rightarrow> (projection_record \<times> database) outcome" where
  "applySelectedProjectionRetention next policy db =
     (if projectionMeetsRetention next policy then Inr (next, db)
      else
        andThen (mapAll parseEventRow (rev (sessionEvents db (sessionIdent (projectionSession next))))) (\<lambda>records.
        andThen (assertSelectedRetentionLayout records next) (\<lambda>_.
        andThen (planSelectedProjectionRetention records next policy) (\<lambda>plan.
        case planBoundary plan of
          None \<Rightarrow> Inr (next, db)
        | Some boundary \<Rightarrow>
            if planRemovable plan = [] then Inr (next, db) else executeRetentionPlan next plan boundary db))))"

section \<open>Transactions\<close>

record append_result =
  resultEvent :: event_record
  resultProjection :: projection_record
  resultRevision :: state_revision

definition commitProjection :: "projection_record \<Rightarrow> database \<Rightarrow> database outcome" where
  "commitProjection p db =
     (case updateProjection p db of
        None \<Rightarrow> Inl Projection_write_failed
      | Some (changes, db) \<Rightarrow> if changes \<noteq> 1 then Inl Session_not_found else Inr db)"

definition appendEventTransaction ::
  "event_record \<Rightarrow> projection_record \<Rightarrow> state_revision \<Rightarrow> retention_policy option \<Rightarrow> database \<Rightarrow>
     (append_result \<times> database) outcome" where
  "appendEventTransaction event nextProjection expectedRevision retention db =
     andThen (requireState db (eventSessionId (recordEvent event))) (\<lambda>current.
     andThen (assertPersistedEventProjection db (stateProjection current)) (\<lambda>_.
     andThen (assertCurrentRevision current expectedRevision) (\<lambda>_.
     andThen (assertProjectionIdentity (stateMapping current) nextProjection) (\<lambda>_.
     andThen (assertStateChronology (stateMapping current) nextProjection) (\<lambda>_.
     andThen (assertEventAdvance (stateProjection current) event nextProjection) (\<lambda>_.
     andThen (insertEvent event db) (\<lambda>db.
     andThen
       (case retention of
          None \<Rightarrow> Inr (nextProjection, db)
        | Some policy \<Rightarrow> applySelectedProjectionRetention nextProjection policy db) (\<lambda>(committed, db).
     andThen (commitProjection committed db) (\<lambda>db.
     Inr
       (\<lparr> resultEvent = event, resultProjection = committed,
          resultRevision = selectedStateRevision \<lparr> stateMapping = stateMapping current, stateProjection = committed \<rparr> \<rparr>,
        db))))))))))"

definition replaceEventsWithBoundaryTransaction ::
  "event_record \<Rightarrow> projection_record \<Rightarrow> state_revision \<Rightarrow> database \<Rightarrow> (append_result \<times> database) outcome" where
  "replaceEventsWithBoundaryTransaction event nextProjection expectedRevision db =
     andThen (requireState db (eventSessionId (recordEvent event))) (\<lambda>current.
     andThen (assertPersistedEventProjection db (stateProjection current)) (\<lambda>_.
     andThen (assertCurrentRevision current expectedRevision) (\<lambda>_.
     andThen (assertProjectionIdentity (stateMapping current) nextProjection) (\<lambda>_.
     andThen (assertStateChronology (stateMapping current) nextProjection) (\<lambda>_.
     andThen (assertContinuityBoundaryReplacement (stateProjection current) event nextProjection) (\<lambda>_.
     andThen (insertEvent event (deleteSessionEvents (eventSessionId (recordEvent event)) db)) (\<lambda>db.
     andThen (commitProjection nextProjection db) (\<lambda>db.
     Inr
       (\<lparr> resultEvent = event, resultProjection = nextProjection,
          resultRevision = selectedStateRevision \<lparr> stateMapping = stateMapping current, stateProjection = nextProjection \<rparr> \<rparr>,
        db)))))))))"

definition parseState :: "selected_state \<Rightarrow> selected_state outcome" where
  "parseState candidate =
     andThen (parseMapping (stateMapping candidate)) (\<lambda>m.
     andThen (parseProjection (stateProjection candidate)) (\<lambda>p.
     andThen (assertProjectionIdentity m p) (\<lambda>_.
     andThen (assertStateChronology m p) (\<lambda>_.
     Inr \<lparr> stateMapping = m, stateProjection = p \<rparr>))))"

definition recoveryOf :: "session_mapping \<Rightarrow> recovery \<Rightarrow> bool" where
  "recoveryOf m r \<longleftrightarrow>
     recoverySession r = mappingId m \<or> recoveryName r = mappingName m \<or> recoveryThread r = Some (mappingThread m)"

definition assertSelectedCreateRecoveryCompatibility :: "database \<Rightarrow> session_mapping \<Rightarrow> unit outcome" where
  "assertSelectedCreateRecoveryCompatibility db m =
     andThen
       (mapAll
         (\<lambda>row. andThen (parseRecovery row) (\<lambda>r.
            throwIf
              (\<not> (recoverySession r = mappingId m \<and> recoveryName r = mappingName m \<and> recoveryCwd r = mappingCwd m \<and>
                  recoveryThread r = Some (mappingThread m) \<and> recoveryState r \<noteq> RS_reserved))
              Recovery_conflict))
         (filter (recoveryOf m) (recoveryTable db))) (\<lambda>_. Inr ())"

definition createTransaction :: "selected_state \<Rightarrow> database \<Rightarrow> (selected_state \<times> database) outcome" where
  "createTransaction state db =
     andThen (assertSelectedCreateRecoveryCompatibility db (stateMapping state)) (\<lambda>_.
     andThen (insertMapping (stateMapping state) db) (\<lambda>db.
     andThen (insertProjection (stateProjection state) db) (\<lambda>db.
     Inr (state, db))))"

text \<open>
  \<open>mapNativeAdoptionConstraint\<close>: what \<open>mapStateConstraint\<close> would call an invalid mapping is an
  invalid membership here.
\<close>

definition adoptionConstraint :: "repository_error \<Rightarrow> repository_error" where
  "adoptionConstraint e = (if e = Invalid_mapping then Invalid_membership else e)"

definition adopting :: "'a outcome \<Rightarrow> 'a outcome" where
  "adopting r = (case r of Inl e \<Rightarrow> Inl (adoptionConstraint e) | Inr x \<Rightarrow> Inr x)"

fun insertEvents :: "event_record list \<Rightarrow> database \<Rightarrow> database outcome" where
  "insertEvents [] db = Inr db"
| "insertEvents (e # es) db = andThen (insertEvent e db) (insertEvents es)"

definition adoptTransaction ::
  "membership \<Rightarrow> selected_state \<Rightarrow> event_record list \<Rightarrow> database \<Rightarrow> (selected_state \<times> database) outcome" where
  "adoptTransaction member state events db =
     andThen (throwIf (list_ex (recoveryOf (stateMapping state)) (recoveryTable db)) Recovery_conflict) (\<lambda>_.
     andThen (adopting (insertMapping (stateMapping state) db)) (\<lambda>db.
     andThen (adopting (insertProjection (stateProjection state) db)) (\<lambda>db.
     andThen (insertNativeMembership member db) (\<lambda>db.
     andThen (insertEvents events db) (\<lambda>db.
     andThen (assertPersistedEventProjection db (stateProjection state)) (\<lambda>_.
     Inr (state, db)))))))"

definition readNativeMembership :: "database \<Rightarrow> js_string \<Rightarrow> membership option outcome" where
  "readNativeMembership db sid =
     (case find (\<lambda>r. memberSession r = sid) (membershipTable db) of
        None \<Rightarrow> Inr None
      | Some row \<Rightarrow> andThen (parseNativeMembership row) (\<lambda>m. Inr (Some m)))"

definition unmanageAdoptedTransaction ::
  "js_string \<Rightarrow> state_revision \<Rightarrow> database \<Rightarrow> ((membership \<times> selected_state) \<times> database) outcome" where
  "unmanageAdoptedTransaction sid expectedRevision db =
     andThen (requireState db sid) (\<lambda>state.
     andThen (assertPersistedEventProjection db (stateProjection state)) (\<lambda>_.
     andThen (assertCurrentRevision state expectedRevision) (\<lambda>_.
     andThen (readNativeMembership db sid) (\<lambda>found.
     case found of
       None \<Rightarrow> Inl Session_not_adopted
     | Some member \<Rightarrow>
         andThen (assertNativeSessionQuietForUnmanage state) (\<lambda>_.
         (let db = db\<lparr> recoveryTable := filter (\<lambda>r. recoverySession r \<noteq> sid) (recoveryTable db) \<rparr>;
              changes = length (filter (\<lambda>m. mappingId m = sid) (sessionTable db)) in
          andThen (throwIf (changes \<noteq> 1) Session_not_found) (\<lambda>_.
          Inr ((member, state), deleteSession sid db))))))))"

text \<open>The columns that \<open>UPDATE selected_sessions\<close> sets.\<close>

definition updateMapping :: "session_mapping \<Rightarrow> session_mapping \<Rightarrow> session_mapping" where
  "updateMapping new row =
     (if mappingId row = mappingId new then
        row\<lparr> mappingName := mappingName new, mappingCwd := mappingCwd new, mappingSource := mappingSource new,
            mappingVersion := mappingVersion new, mappingDisposition := mappingDisposition new,
            mappingUpdatedAt := mappingUpdatedAt new, mappingArchivedAt := mappingArchivedAt new \<rparr>
      else row)"

text \<open>The two updates of a replacement.\<close>

definition writeReplacement :: "selected_state \<Rightarrow> database \<Rightarrow> database outcome" where
  "writeReplacement state db =
     (let sid = mappingId (stateMapping state); changes = length (filter (\<lambda>m. mappingId m = sid) (sessionTable db)) in
      andThen
        (throwIf
          (list_ex (\<lambda>m. mappingId m \<noteq> sid \<and> mappingName m = mappingName (stateMapping state)) (sessionTable db))
          Duplicate_session_name) (\<lambda>_.
      case updateProjection (stateProjection state)
          (db\<lparr> sessionTable := map (updateMapping (stateMapping state)) (sessionTable db) \<rparr>) of
        None \<Rightarrow> Inl Invalid_mapping
      | Some (changed, db) \<Rightarrow> andThen (throwIf (changes \<noteq> 1 \<or> changed \<noteq> 1) Session_not_found) (\<lambda>_. Inr db)))"

definition replaceTransaction ::
  "selected_state \<Rightarrow> state_revision \<Rightarrow> database \<Rightarrow> (selected_state \<times> database) outcome" where
  "replaceTransaction state expectedRevision db =
     andThen (requireState db (mappingId (stateMapping state))) (\<lambda>current.
     andThen (assertPersistedEventProjection db (stateProjection current)) (\<lambda>_.
     andThen (assertCurrentRevision current expectedRevision) (\<lambda>_.
     andThen (assertImmutableMappingIdentity (stateMapping current) (stateMapping state)) (\<lambda>_.
     andThen (assertSafeStateReplacement current state) (\<lambda>_.
     andThen (writeReplacement state db) (\<lambda>db. Inr (state, db)))))))"

section \<open>Recovery records\<close>

fun allowedRecovery :: "recovery_state \<Rightarrow> recovery_state list" where
  "allowedRecovery RS_reserved = [RS_reserved, RS_thread_created, RS_failed]"
| "allowedRecovery RS_thread_created = [RS_thread_created, RS_persisted, RS_failed]"
| "allowedRecovery RS_persisted = [RS_persisted]"
| "allowedRecovery RS_failed = [RS_failed]"

definition assertRecoveryTransition :: "recovery \<Rightarrow> recovery \<Rightarrow> unit outcome" where
  "assertRecoveryTransition current next =
     andThen
       (throwIf
         (recoveryOperation current \<noteq> recoveryOperation next \<or> recoverySession current \<noteq> recoverySession next \<or>
          recoveryName current \<noteq> recoveryName next \<or> recoveryCwd current \<noteq> recoveryCwd next \<or>
          recoveryCreatedAt current \<noteq> recoveryCreatedAt next \<or>
          recoveryThread current \<noteq> None \<and> recoveryThread current \<noteq> recoveryThread next)
         Recovery_conflict) (\<lambda>_.
     andThen (throwIf (str_less (recoveryUpdatedAt next) (recoveryUpdatedAt current)) Recovery_conflict) (\<lambda>_.
     andThen (throwIf (recoveryState next \<notin> set (allowedRecovery (recoveryState current))) Recovery_conflict) (\<lambda>_.
     throwIf (recoveryState current \<in> {RS_persisted, RS_failed} \<and> current \<noteq> next) Recovery_conflict)))"

definition assertRecoveryReservationAvailable :: "database \<Rightarrow> recovery \<Rightarrow> unit outcome" where
  "assertRecoveryReservationAvailable db r =
     throwIf (list_ex (\<lambda>m. mappingId m = recoverySession r \<or> mappingName m = recoveryName r) (sessionTable db))
       Recovery_conflict"

definition assertRecoveryThreadAvailable :: "database \<Rightarrow> recovery \<Rightarrow> unit outcome" where
  "assertRecoveryThreadAvailable db r =
     (case recoveryThread r of
        None \<Rightarrow> Inr ()
      | Some thread \<Rightarrow>
          (case find (\<lambda>m. mappingThread m = thread) (sessionTable db) of
             None \<Rightarrow> Inr ()
           | Some m \<Rightarrow> throwIf (mappingId m \<noteq> recoverySession r) Recovery_conflict))"

definition assertPersistedRecoveryMatchesSelectedState :: "database \<Rightarrow> recovery \<Rightarrow> unit outcome" where
  "assertPersistedRecoveryMatchesSelectedState db r =
     andThen (readState db (recoverySession r)) (\<lambda>selected.
       case selected of
         None \<Rightarrow> Inl Recovery_conflict
       | Some s \<Rightarrow>
           throwIf
             (mappingName (stateMapping s) \<noteq> recoveryName r \<or> mappingCwd (stateMapping s) \<noteq> recoveryCwd r \<or>
              Some (mappingThread (stateMapping s)) \<noteq> recoveryThread r)
             Recovery_conflict)"

definition readRecovery :: "database \<Rightarrow> js_string \<Rightarrow> recovery option outcome" where
  "readRecovery db operation =
     (case find (\<lambda>r. recoveryOperation r = operation) (recoveryTable db) of
        None \<Rightarrow> Inr None
      | Some row \<Rightarrow> andThen (parseRecovery row) (\<lambda>r. Inr (Some r)))"

text \<open>The unique columns of the table, against its other rows.\<close>

definition recoveryConstraint :: "recovery list \<Rightarrow> recovery \<Rightarrow> unit outcome" where
  "recoveryConstraint others r =
     throwIf
       (list_ex (\<lambda>o'. recoveryOperation o' = recoveryOperation r \<or> recoverySession o' = recoverySession r \<or>
          recoveryName o' = recoveryName r \<or> recoveryThread r \<noteq> None \<and> recoveryThread o' = recoveryThread r) others)
       Recovery_conflict"

definition putRecoveryTransaction :: "recovery \<Rightarrow> database \<Rightarrow> (recovery \<times> database) outcome" where
  "putRecoveryTransaction r db =
     andThen (throwIf (str_less (recoveryUpdatedAt r) (recoveryCreatedAt r)) Invalid_recovery) (\<lambda>_.
     andThen (readRecovery db (recoveryOperation r)) (\<lambda>found.
     case found of
       None \<Rightarrow>
         andThen (throwIf (recoveryState r \<noteq> RS_reserved) Recovery_conflict) (\<lambda>_.
         andThen (assertRecoveryReservationAvailable db r) (\<lambda>_.
         andThen (recoveryConstraint (recoveryTable db) r) (\<lambda>_.
         Inr (r, db\<lparr> recoveryTable := recoveryTable db @ [r] \<rparr>))))
     | Some current \<Rightarrow>
         andThen (assertRecoveryTransition current r) (\<lambda>_.
         andThen (assertRecoveryThreadAvailable db r) (\<lambda>_.
         andThen (if recoveryState r = RS_persisted then assertPersistedRecoveryMatchesSelectedState db r else Inr ()) (\<lambda>_.
         andThen
           (throwIf
             (list_ex (\<lambda>o'. recoveryOperation o' \<noteq> recoveryOperation r \<and> recoveryThread r \<noteq> None \<and>
                recoveryThread o' = recoveryThread r) (recoveryTable db))
             Recovery_conflict) (\<lambda>_.
         Inr (r,
           db\<lparr> recoveryTable :=
             map (\<lambda>row.
                 if recoveryOperation row = recoveryOperation r then
                   row\<lparr> recoveryThread := recoveryThread r, recoveryState := recoveryState r,
                       recoveryUpdatedAt := recoveryUpdatedAt r, recoveryErrorCode := recoveryErrorCode r,
                       recoveryErrorMessage := recoveryErrorMessage r \<rparr>
                 else row)
               (recoveryTable db) \<rparr>)))))))"

section \<open>The repository\<close>

definition repositoryGet :: "database \<Rightarrow> js_string \<Rightarrow> selected_state option outcome" where
  "repositoryGet db sid = andThen (parseSessionIdArg sid) (readState db)"

definition repositoryRequire :: "database \<Rightarrow> js_string \<Rightarrow> selected_state outcome" where
  "repositoryRequire db sid = andThen (parseSessionIdArg sid) (requireState db)"

definition getByThreadId :: "database \<Rightarrow> js_string \<Rightarrow> selected_state option outcome" where
  "getByThreadId db thread =
     andThen (parseThreadIdArg thread) (\<lambda>thread.
     case find (\<lambda>m. mappingThread m = thread) (sessionTable db) of
       None \<Rightarrow> Inr None
     | Some row \<Rightarrow> andThen (requireState db (mappingId row)) (\<lambda>s. Inr (Some s)))"

text \<open>\<open>ORDER BY a ASC, b ASC\<close> on text columns.\<close>

definition rowBefore :: "('a \<Rightarrow> js_string \<times> js_string) \<Rightarrow> 'a \<Rightarrow> 'a \<Rightarrow> bool" where
  "rowBefore key x y \<longleftrightarrow>
     str_less (fst (key x)) (fst (key y)) \<or> fst (key x) = fst (key y) \<and> str_less (snd (key x)) (snd (key y))"

fun insertRow :: "('a \<Rightarrow> js_string \<times> js_string) \<Rightarrow> 'a \<Rightarrow> 'a list \<Rightarrow> 'a list" where
  "insertRow key x [] = [x]"
| "insertRow key x (y # ys) = (if rowBefore key x y then x # y # ys else y # insertRow key x ys)"

definition orderBy :: "('a \<Rightarrow> js_string \<times> js_string) \<Rightarrow> 'a list \<Rightarrow> 'a list" where
  "orderBy key rows = foldl (\<lambda>sorted row. insertRow key row sorted) [] rows"

definition repositoryList :: "database \<Rightarrow> selected_state list outcome" where
  "repositoryList db =
     mapAll (\<lambda>m. requireState db (mappingId m)) (orderBy (\<lambda>m. (mappingCreatedAt m, mappingId m)) (sessionTable db))"

definition repositoryCreate :: "selected_state \<Rightarrow> database \<Rightarrow> (selected_state \<times> database) outcome" where
  "repositoryCreate state db =
     andThen (parseState state) (\<lambda>s.
     andThen (assertInitialProjection (stateProjection s)) (\<lambda>_. createTransaction s db))"

definition maxAdoptionEvents :: nat where
  "maxAdoptionEvents = 1 + 20 * (64 + 1)"

definition parseNativeSessionAdoption ::
  "membership \<Rightarrow> selected_state \<Rightarrow> event_record list \<Rightarrow> (membership \<times> selected_state \<times> event_record list) outcome" where
  "parseNativeSessionAdoption candidate state events =
     andThen (parseNativeMembership candidate) (\<lambda>member.
     andThen (parseState state) (\<lambda>state.
     andThen (throwIf (length events < 1 \<or> length events > maxAdoptionEvents) Invalid_event) (\<lambda>_.
     andThen
       (mapAll
         (\<lambda>event. andThen (parseProjectedEventRecord event) (\<lambda>record.
            andThen (assertEventByteLength record) (\<lambda>_. Inr record))) events) (\<lambda>events.
     andThen (assertNativeAdoptionIdentity member state) (\<lambda>_.
     andThen (assertNativeAdoptionProjection member state events) (\<lambda>_.
     Inr (member, state, events)))))))"

definition repositoryAdopt ::
  "membership \<Rightarrow> selected_state \<Rightarrow> event_record list \<Rightarrow> database \<Rightarrow> (selected_state \<times> database) outcome" where
  "repositoryAdopt member state events db =
     andThen (parseNativeSessionAdoption member state events) (\<lambda>(member, state, events).
     adoptTransaction member state events db)"

definition repositoryReplace :: "selected_state \<Rightarrow> state_revision \<Rightarrow> database \<Rightarrow> (selected_state \<times> database) outcome" where
  "repositoryReplace state expectedRevision db =
     andThen (parseState state) (\<lambda>state.
     andThen (parseSelectedStateRevision expectedRevision) (\<lambda>revision.
     replaceTransaction state revision db))"

definition appendEvent ::
  "event_record \<Rightarrow> projection_record \<Rightarrow> state_revision \<Rightarrow> retention_policy option \<Rightarrow> database \<Rightarrow>
     (append_result \<times> database) outcome" where
  "appendEvent event nextProjection expectedRevision retention db =
     andThen (parseProjectedEventRecord event) (\<lambda>event.
     andThen (assertEventByteLength event) (\<lambda>_.
     andThen (parseProjection nextProjection) (\<lambda>next.
     andThen (parseSelectedStateRevision expectedRevision) (\<lambda>revision.
     andThen
       (case retention of
          None \<Rightarrow> Inr None
        | Some r \<Rightarrow> andThen (parseSelectedProjectionRetentionPolicy r) (\<lambda>p. Inr (Some p))) (\<lambda>policy.
     appendEventTransaction event next revision policy db)))))"

definition replaceEventsWithBoundary ::
  "event_record \<Rightarrow> projection_record \<Rightarrow> state_revision \<Rightarrow> database \<Rightarrow> (append_result \<times> database) outcome" where
  "replaceEventsWithBoundary event nextProjection expectedRevision db =
     andThen (parseProjectedEventRecord event) (\<lambda>event.
     andThen (assertEventByteLength event) (\<lambda>_.
     andThen (parseProjection nextProjection) (\<lambda>next.
     andThen (parseSelectedStateRevision expectedRevision) (\<lambda>revision.
     replaceEventsWithBoundaryTransaction event next revision db))))"

definition maxEventLimit :: int where "maxEventLimit = 500"
definition defaultEventLimit :: int where "defaultEventLimit = 100"

text \<open>
  \<open>listEvents(sessionId, { after, limit })\<close> with the defaults filled in. The last \<open>parse\<close> throws
  the schema's own error; it is called \<open>invalid_replay\<close> here.
\<close>

definition listEvents :: "js_string \<Rightarrow> int option \<Rightarrow> int \<Rightarrow> database \<Rightarrow> event_stream outcome" where
  "listEvents sessionKey after limit db =
     andThen (parseSessionIdArg sessionKey) (\<lambda>sid.
     andThen (requireState db sid) (\<lambda>state.
     (let p = stateProjection state; committedCursor = lastEventCursor (projectionSession p) in
      andThen (assertPersistedEventProjection db p) (\<lambda>_.
      andThen (throwIf (\<not> cursorOptionOk after) Invalid_replay) (\<lambda>_.
      andThen (throwIf (limit < 1 \<or> limit > maxEventLimit) Invalid_replay) (\<lambda>_.
      andThen
        (throwIf
          (case after of
             None \<Rightarrow> False
           | Some a \<Rightarrow> a > (case committedCursor of None \<Rightarrow> 0 | Some c \<Rightarrow> c))
          Invalid_replay) (\<lambda>_.
      andThen
        (mapAll parseEventRow
          (take (nat limit)
            (case after of
               None \<Rightarrow> sessionEvents db sid
             | Some a \<Rightarrow> filter (\<lambda>r. rowCursor r > a) (sessionEvents db sid)))) (\<lambda>records.
      (let events = map recordEvent records in
       andThen
         (throwIf
           (events = [] \<and>
            (case committedCursor of
               None \<Rightarrow> False
             | Some c \<Rightarrow> (case after of None \<Rightarrow> True | Some a \<Rightarrow> a < c)))
           Invalid_event) (\<lambda>_.
       andThen
         (throwIf
           ((case boundaryCursor p of
               None \<Rightarrow> False
             | Some b \<Rightarrow> (case after of None \<Rightarrow> True | Some a \<Rightarrow> a \<le> b)) \<and>
            \<not> (case events of [] \<Rightarrow> False | e # _ \<Rightarrow> isBoundary e))
           Invalid_event) (\<lambda>_.
       parsed
         (selectedSessionEventStreamSchema
           \<lparr> streamSession = sid, streamEvents = events,
             streamNext = (if events = [] then (case committedCursor of None \<Rightarrow> 0 | Some c \<Rightarrow> c)
                           else eventCursor (last events)),
             streamTruncated = (case events of [] \<Rightarrow> False | e # _ \<Rightarrow> isBoundary e) \<rparr>)
         Invalid_replay)))))))))))"

definition getNativeMembership :: "database \<Rightarrow> js_string \<Rightarrow> membership option outcome" where
  "getNativeMembership db sid = andThen (parseSessionIdArg sid) (readNativeMembership db)"

definition listNativeMemberships :: "database \<Rightarrow> membership list outcome" where
  "listNativeMemberships db =
     mapAll parseNativeMembership (orderBy (\<lambda>m. (adoptedAt m, memberSession m)) (membershipTable db))"

definition unmanageAdopted ::
  "js_string \<Rightarrow> state_revision \<Rightarrow> database \<Rightarrow> ((membership \<times> selected_state) \<times> database) outcome" where
  "unmanageAdopted sid expectedRevision db =
     andThen (parseSessionIdArg sid) (\<lambda>sid.
     andThen (parseSelectedStateRevision expectedRevision) (\<lambda>revision.
     unmanageAdoptedTransaction sid revision db))"

definition getLegacyDisposition :: "database \<Rightarrow> js_string \<Rightarrow> legacy_disposition option outcome" where
  "getLegacyDisposition db sid =
     andThen (parseSessionIdArg sid) (\<lambda>sid.
     case find (\<lambda>r. legacyId r = sid) (legacyTable db) of
       None \<Rightarrow> Inr None
     | Some row \<Rightarrow> andThen (parseLegacyDisposition row) (\<lambda>r. Inr (Some r)))"

definition listLegacyDispositions :: "database \<Rightarrow> legacy_disposition list outcome" where
  "listLegacyDispositions db =
     mapAll parseLegacyDisposition (orderBy (\<lambda>r. (legacyUpdatedAt r, legacyId r)) (legacyTable db))"

definition getRecovery :: "database \<Rightarrow> js_string \<Rightarrow> recovery option outcome" where
  "getRecovery db operation = andThen (parseOperationIdArg operation) (readRecovery db)"

definition listRecoveries :: "database \<Rightarrow> recovery list outcome" where
  "listRecoveries db =
     mapAll parseRecovery (orderBy (\<lambda>r. (recoveryCreatedAt r, recoveryOperation r)) (recoveryTable db))"

definition putRecovery :: "recovery \<Rightarrow> database \<Rightarrow> (recovery \<times> database) outcome" where
  "putRecovery r db = andThen (parseRecovery r) (\<lambda>r. putRecoveryTransaction r db)"

definition deleteRecovery :: "js_string \<Rightarrow> database \<Rightarrow> (bool \<times> database) outcome" where
  "deleteRecovery operation db =
     andThen (parseOperationIdArg operation) (\<lambda>operation.
     Inr (length (filter (\<lambda>r. recoveryOperation r = operation) (recoveryTable db)) = 1,
          db\<lparr> recoveryTable := filter (\<lambda>r. recoveryOperation r \<noteq> operation) (recoveryTable db) \<rparr>))"

section \<open>The retention batch\<close>

record batch_result =
  batchReplaced :: bool
  batchOversize :: bool
  batchProjection :: projection_record
  batchPruned :: int
  batchRemaining :: bool

text \<open>
  The \<open>for\<close> loop: the removed records, their bytes and the boundary that would replace them. The
  loop ends when one record is left, at the committed cursor, after \<open>max_pruned\<close> records or when
  the rest would meet the policy.
\<close>

fun pruneLoop ::
  "projection_record \<Rightarrow> retention_policy \<Rightarrow> nat \<Rightarrow> event_record option \<Rightarrow> event_record list \<Rightarrow> int \<Rightarrow>
     event_record option \<Rightarrow> event_record list \<Rightarrow> (event_record list \<times> event_record option) outcome" where
  "pruneLoop current policy maxPruned prior removed removedBytes boundary (candidate # oldest # rest) =
     (if length removed \<ge> maxPruned \<or>
         Some (recordCursor candidate) = lastEventCursor (projectionSession current) then Inr (removed, boundary)
      else
        (let removed = removed @ [candidate]; removedBytes = removedBytes + recordBytes candidate in
         andThen
           (createRetentionBoundaryRecord (sessionIdent (projectionSession current)) (recordCursor candidate)
             (recordCapture oldest)) (\<lambda>b.
         (let projectedCount = retainedCount current - int (length removed) - (if prior = None then 0 else 1) + 1;
              projectedBytes = retainedBytes current - removedBytes -
                (case prior of None \<Rightarrow> 0 | Some r \<Rightarrow> recordBytes r) + recordBytes b in
          if projectedCount \<le> outputEventLimit policy \<and> projectedBytes \<le> outputByteLimit policy
          then Inr (removed, Some b)
          else pruneLoop current policy maxPruned prior removed removedBytes (Some b) (oldest # rest)))))"
| "pruneLoop current policy maxPruned prior removed removedBytes boundary _ = Inr (removed, boundary)"

text \<open>The rest of the transaction, once the loop has chosen a boundary.\<close>

definition commitRetentionBatch ::
  "js_string \<Rightarrow> retention_policy \<Rightarrow> projection_record \<Rightarrow> event_record option \<Rightarrow> event_record list \<Rightarrow> event_record \<Rightarrow>
     database \<Rightarrow> (batch_result \<times> database) outcome" where
  "commitRetentionBatch sid policy current prior removed boundary db =
     (let (changes, db) = deleteEventsThrough sid (recordCursor boundary) db in
      andThen
        (throwIf (changes \<noteq> int (length removed) + (if prior = None then 0 else 1)) Projection_write_failed) (\<lambda>_.
      andThen (insertEvent boundary db) (\<lambda>db.
      (let aggregate = readSelectedProjectionAggregate db sid in
       andThen
         (parseProjection
           (current\<lparr> retainedCount := aggregateCount aggregate, retainedBytes := aggregateBytes aggregate,
                     earliestCursor := aggregateEarliest aggregate,
                     boundaryCursor := boundaryAfter (recordEvent boundary) \<rparr>)) (\<lambda>p.
       andThen (commitProjection p db) (\<lambda>db.
       andThen (assertPersistedEventProjection db p) (\<lambda>_.
       (let overPolicy = \<not> projectionMeetsRetention p policy;
            remaining = (overPolicy \<and> retainedCount p > 2) in
        Inr (\<lparr> batchReplaced = (prior \<noteq> None), batchOversize = (overPolicy \<and> \<not> remaining),
               batchProjection = p, batchPruned = int (length removed), batchRemaining = remaining \<rparr>,
             db)))))))))"

definition unchangedBatch :: "projection_record \<Rightarrow> bool \<Rightarrow> batch_result" where
  "unchangedBatch current oversize =
     \<lparr> batchReplaced = False, batchOversize = oversize, batchProjection = current, batchPruned = 0, batchRemaining = False \<rparr>"

definition retentionBatchTransaction ::
  "js_string \<Rightarrow> retention_policy \<Rightarrow> nat \<Rightarrow> database \<Rightarrow> (batch_result \<times> database) outcome" where
  "retentionBatchTransaction sid policy maxPruned db =
     andThen (requireState db sid) (\<lambda>currentState.
     (let current = stateProjection currentState in
      andThen (assertPersistedEventProjection db current) (\<lambda>_.
      if projectionMeetsRetention current policy then Inr (unchangedBatch current False, db)
      else
        andThen (mapAll parseEventRow (take (maxPruned + 2) (sessionEvents db sid))) (\<lambda>window.
        (let prior = (case window of [] \<Rightarrow> None | r # _ \<Rightarrow> if realRecord r then None else Some r) in
         andThen (pruneLoop current policy maxPruned prior [] 0 None (filter realRecord window)) (\<lambda>(removed, found).
         case found of
           None \<Rightarrow> Inr (unchangedBatch current True, db)
         | Some boundary \<Rightarrow> commitRetentionBatch sid policy current prior removed boundary db))))))"

definition parseRetentionBatchSize :: "int \<Rightarrow> nat outcome" where
  "parseRetentionBatchSize n = (if n < 1 \<or> n > 1000 then Inl Invalid_retention_policy else Inr (nat n))"

definition maintainSelectedProjectionRetentionBatch ::
  "js_string \<Rightarrow> retention_policy \<Rightarrow> int \<Rightarrow> database \<Rightarrow> (batch_result \<times> database) outcome" where
  "maintainSelectedProjectionRetentionBatch sid retention maxPruned db =
     andThen (parseSessionIdArg sid) (\<lambda>sid.
     andThen (parseSelectedProjectionRetentionPolicy retention) (\<lambda>policy.
     andThen (parseRetentionBatchSize maxPruned) (\<lambda>n.
     retentionBatchTransaction sid policy n db)))"

end
