(* ===== verification/State_Repository_Laws.thy ===== *)
theory State_Repository_Laws
  imports State_Repository Machine
begin

text \<open>
  What the repository keeps: every session has one projection, its events form one contiguous log
  whose only possible boundary is its first event, and the projection's counters are those of the
  log. The invariant holds after any sequence of operations, failed ones included.
\<close>

section \<open>Sorted tables\<close>

lemma insort_key_append: "f y < (f x :: int) \<Longrightarrow> insort_key f y (zs @ [x]) = insort_key f y zs @ [x]"
  by (induction zs) auto

lemma sort_key_snoc_greatest:
  "(\<And>y. y \<in> set xs \<Longrightarrow> f y < (f x :: int)) \<Longrightarrow> sort_key f (xs @ [x]) = sort_key f xs @ [x]"
  by (induction xs) (simp_all add: insort_key_append)

lemma sort_key_snoc_least:
  "(\<And>y. y \<in> set xs \<Longrightarrow> (f x :: int) < f y) \<Longrightarrow> sort_key f (xs @ [x]) = x # sort_key f xs"
proof (induction xs)
  case (Cons a xs)
  have "\<not> f a \<le> f x" using Cons.prems [of a] by simp
  with Cons show ?case by simp
qed simp

lemma set_sessionEvents: "set (sessionEvents db sid) = {r \<in> set (eventTable db). rowSession r = sid}"
  by (auto simp: sessionEvents_def)

lemma sessionEvents_filter:
  "sessionEvents (db\<lparr> eventTable := filter P (eventTable db) \<rparr>) sid = filter P (sessionEvents db sid)"
  by (simp add: sessionEvents_def filter_sort conj_commute)

lemma sessionEvents_tables [simp]:
  "sessionEvents (db\<lparr> sessionTable := a \<rparr>) sid = sessionEvents db sid"
  "sessionEvents (db\<lparr> projectionTable := b \<rparr>) sid = sessionEvents db sid"
  "sessionEvents (db\<lparr> membershipTable := c \<rparr>) sid = sessionEvents db sid"
  "sessionEvents (db\<lparr> recoveryTable := d \<rparr>) sid = sessionEvents db sid"
  by (simp_all add: sessionEvents_def)

lemma sessionEvents_insert:
  "rowSession row \<noteq> sid \<Longrightarrow> sessionEvents (db\<lparr> eventTable := eventTable db @ [row] \<rparr>) sid = sessionEvents db sid"
  "\<forall>r \<in> set (sessionEvents db (rowSession row)). rowCursor r < rowCursor row \<Longrightarrow>
     sessionEvents (db\<lparr> eventTable := eventTable db @ [row] \<rparr>) (rowSession row) = sessionEvents db (rowSession row) @ [row]"
  "\<forall>r \<in> set (sessionEvents db (rowSession row)). rowCursor row < rowCursor r \<Longrightarrow>
     sessionEvents (db\<lparr> eventTable := eventTable db @ [row] \<rparr>) (rowSession row) = row # sessionEvents db (rowSession row)"
  by (auto simp: sessionEvents_def intro!: sort_key_snoc_greatest sort_key_snoc_least)

lemma insertEvent_Inr:
  assumes "insertEvent record db = Inr db'"
  shows "db' = db\<lparr> eventTable := eventTable db @ [eventToRow record] \<rparr>"
    "\<exists>m \<in> set (sessionTable db). mappingId m = eventSessionId (recordEvent record)"
  using assms by (auto simp: insertEvent_def Let_def eventToRow_def list_ex_iff split: if_splits)

lemma eventToRow_fields [simp]:
  "rowSession (eventToRow record) = eventSessionId (recordEvent record)"
  "rowCursor (eventToRow record) = eventCursor (recordEvent record)"
  "rowEvent (eventToRow record) = recordEvent record" "rowBytes (eventToRow record) = recordBytes record"
  "rowType (eventToRow record) = eventType (eventBody (recordEvent record))"
  by (simp_all add: eventToRow_def Let_def)

section \<open>One session's log\<close>

fun contiguousFrom :: "int \<Rightarrow> event_row list \<Rightarrow> bool" where
  "contiguousFrom c [] = True"
| "contiguousFrom c (r # rs) = (rowCursor r = c \<and> contiguousFrom (c + 1) rs)"

definition columnsOk :: "event_row \<Rightarrow> bool" where
  "columnsOk r \<longleftrightarrow> r = eventToRow \<lparr> recordEvent = rowEvent r, recordBytes = rowBytes r \<rparr>"

definition startOk :: "event_row \<Rightarrow> bool" where
  "startOk r \<longleftrightarrow>
     (if isBoundary (rowEvent r)
      then (case boundaryAfter (rowEvent r) of None \<Rightarrow> rowCursor r = 1 | Some a \<Rightarrow> rowCursor r = a + 1)
      else rowCursor r = 1)"

definition logOk :: "event_row list \<Rightarrow> bool" where
  "logOk rows \<longleftrightarrow>
     list_all columnsOk rows \<and>
     (case rows of
        [] \<Rightarrow> True
      | r # rs \<Rightarrow> startOk r \<and> 1 \<le> rowCursor r \<and> contiguousFrom (rowCursor r + 1) rs \<and>
          list_all (\<lambda>r. \<not> isBoundary (rowEvent r)) rs)"

definition countersOk :: "event_row list \<Rightarrow> projection_row \<Rightarrow> bool" where
  "countersOk rows p \<longleftrightarrow>
     prCount p = int (length rows) \<and> prBytes p = sum_list (map rowBytes rows) \<and>
     prEarliest p = (if rows = [] then None else Some (rowCursor (hd rows))) \<and>
     prLastCursor p = (if rows = [] then None else Some (rowCursor (last rows))) \<and>
     prBoundary p = (case rows of [] \<Rightarrow> None | r # _ \<Rightarrow> boundaryAfter (rowEvent r))"

lemma contiguousFrom_snoc:
  "contiguousFrom c (rs @ [r]) \<longleftrightarrow> contiguousFrom c rs \<and> rowCursor r = c + int (length rs)"
  by (induction rs arbitrary: c) (simp_all add: algebra_simps)

lemma contiguousFrom_bounds: "contiguousFrom c rs \<Longrightarrow> r \<in> set rs \<Longrightarrow> c \<le> rowCursor r \<and> rowCursor r < c + int (length rs)"
  by (induction rs arbitrary: c) fastforce+

lemma contiguousFrom_nth: "contiguousFrom c rs \<Longrightarrow> i < length rs \<Longrightarrow> rowCursor (rs ! i) = c + int i"
  by (induction rs arbitrary: c i) (auto simp: nth_Cons')

lemma contiguousFrom_drop: "contiguousFrom c rs \<Longrightarrow> i \<le> length rs \<Longrightarrow> contiguousFrom (c + int i) (drop i rs)"
proof (induction i arbitrary: c rs)
  case (Suc i)
  then obtain r rs' where rs: "rs = r # rs'" by (cases rs) auto
  with Suc.IH [of "c + 1" rs'] Suc.prems show ?case by (simp add: algebra_simps)
qed simp

lemma contiguousFrom_filter:
  "contiguousFrom c rs \<Longrightarrow> i \<le> length rs \<Longrightarrow> filter (\<lambda>r. c + int i \<le> rowCursor r) rs = drop i rs"
proof (induction i arbitrary: c rs)
  case 0
  then have "\<forall>r \<in> set rs. c \<le> rowCursor r" using contiguousFrom_bounds by blast
  then show ?case by (simp add: filter_id_conv)
next
  case (Suc i)
  then obtain r rs' where rs: "rs = r # rs'" by (cases rs) auto
  with Suc.IH [of "c + 1" rs'] Suc.prems show ?case by (simp add: algebra_simps)
qed

lemma contiguousFrom_last: "contiguousFrom c rs \<Longrightarrow> rs \<noteq> [] \<Longrightarrow> rowCursor (last rs) = c + int (length rs) - 1"
  using contiguousFrom_nth [of c rs "length rs - 1"] by (simp add: last_conv_nth of_nat_diff Suc_le_eq)

lemma logOk_contiguous: "logOk rows \<Longrightarrow> rows \<noteq> [] \<Longrightarrow> contiguousFrom (rowCursor (hd rows)) rows"
  by (cases rows) (simp_all add: logOk_def)

text \<open>The cursor of the next event.\<close>

definition nextRowCursor :: "event_row list \<Rightarrow> int" where
  "nextRowCursor rows = (if rows = [] then 1 else rowCursor (last rows) + 1)"

lemma nextRowCursor_greater: "logOk rows \<Longrightarrow> r \<in> set rows \<Longrightarrow> rowCursor r < nextRowCursor rows"
  using contiguousFrom_bounds [of "rowCursor (hd rows)" rows r] contiguousFrom_last [of "rowCursor (hd rows)" rows]
    logOk_contiguous [of rows]
  by (cases rows) (auto simp: nextRowCursor_def)

lemma logOk_snoc:
  assumes "logOk rows" "columnsOk r" "rowCursor r = nextRowCursor rows"
    "isBoundary (rowEvent r) \<Longrightarrow> rows = [] \<and> startOk r"
  shows "logOk (rows @ [r])"
proof (cases rows)
  case Nil
  with assms show ?thesis by (auto simp: logOk_def nextRowCursor_def startOk_def)
next
  case (Cons a as)
  with assms have "\<not> isBoundary (rowEvent r)" by auto
  moreover have "rowCursor (last (a # as)) = rowCursor a + int (length as)"
    using contiguousFrom_last [of "rowCursor a" "a # as"] assms(1) Cons by (simp add: logOk_def)
  ultimately show ?thesis using assms Cons by (simp add: logOk_def contiguousFrom_snoc nextRowCursor_def)
qed

text \<open>A retention boundary in front of the events after it.\<close>

lemma logOk_prune:
  assumes "logOk rows" "0 < i" "i \<le> length rows" "columnsOk b" "isBoundary (rowEvent b)"
    "boundaryAfter (rowEvent b) = Some (rowCursor b - 1)" "rowCursor b = rowCursor (rows ! (i - 1))"
  shows "logOk (b # drop i rows)" "filter (\<lambda>r. rowCursor b < rowCursor r) rows = drop i rows"
proof -
  from assms(2,3) obtain a as where rows: "rows = a # as" by (cases rows) auto
  have c: "contiguousFrom (rowCursor a) rows" "1 \<le> rowCursor a" using assms(1) rows by (simp_all add: logOk_def)
  have b: "rowCursor b = rowCursor a + int i - 1"
    using contiguousFrom_nth [OF c(1), of "i - 1"] assms(2,3,7) by (simp add: of_nat_diff)
  have d: "drop i rows = drop (i - 1) as" using assms(2) rows by (cases i) simp_all
  have "list_all (\<lambda>r. \<not> isBoundary (rowEvent r)) (drop (i - 1) as)"
    using assms(1) rows by (auto simp: logOk_def list_all_iff dest: in_set_dropD)
  moreover have "list_all columnsOk (drop i rows)"
    using assms(1) by (auto simp: logOk_def list_all_iff dest: in_set_dropD)
  moreover have "contiguousFrom (rowCursor b + 1) (drop i rows)"
    using contiguousFrom_drop [OF c(1) assms(3)] b by (simp add: algebra_simps)
  ultimately show "logOk (b # drop i rows)"
    using assms(4-6) c(2) b assms(2) d by (simp add: logOk_def startOk_def)
  show "filter (\<lambda>r. rowCursor b < rowCursor r) rows = drop i rows"
    using contiguousFrom_filter [OF c(1) assms(3)] b by (simp add: add1_zle_eq [symmetric] algebra_simps)
qed

section \<open>Reading a session\<close>

lemma exact_identifiers:
  "sessionIdSchema s = Some t \<Longrightarrow> t = s" "codexThreadIdSchema s = Some t \<Longrightarrow> t = s"
  by (auto simp: sessionIdSchema_def codexThreadIdSchema_def brandedStringSchema_iff parseSessionId_Inr
      parseCodexThreadId_def parseOpaqueRuntimeId_Inr)

lemma projection_schema_keeps:
  assumes "selectedSessionProjectionRecordSchema p = Some q"
  shows "sessionIdent (projectionSession q) = sessionIdent (projectionSession p) \<and>
    lastEventCursor (projectionSession q) = lastEventCursor (projectionSession p) \<and>
    retainedCount q = retainedCount p \<and> retainedBytes q = retainedBytes p \<and> earliestCursor q = earliestCursor p \<and>
    boundaryCursor q = boundaryCursor p"
  using assms
  by (auto simp: selectedSessionProjectionRecordSchema_def managedSessionProjectionSchema_def bind_eq_Some_conv
      dest: exact_identifiers)

lemma find_Some: "find P xs = Some x \<Longrightarrow> x \<in> set xs \<and> P x"
  by (auto simp: find_Some_iff)

lemma requireState_Inr:
  assumes "requireState db sid = Inr state"
  obtains m r where "find (\<lambda>m. mappingId m = sid) (sessionTable db) = Some m"
    "find (\<lambda>r. prSession r = sid) (projectionTable db) = Some r" "parseStateRows m r = Inr state"
  using assms by (auto simp: requireState_def readState_def split: option.splits)

lemma parseStateRows_Inr:
  assumes "parseStateRows m r = Inr state"
  shows "mappingId (stateMapping state) = mappingId m"
    "sessionIdent (projectionSession (stateProjection state)) = mappingId m"
    "lastEventCursor (projectionSession (stateProjection state)) = prLastCursor r"
    "retainedCount (stateProjection state) = prCount r" "retainedBytes (stateProjection state) = prBytes r"
    "earliestCursor (stateProjection state) = prEarliest r" "boundaryCursor (stateProjection state) = prBoundary r"
  using assms
  by (auto simp: parseStateRows_def parseProjection_def parseMapping_def selectedSessionMappingRecordSchema_def
      bind_eq_Some_conv dest!: projection_schema_keeps exact_identifiers)

lemma eventType_boundary: "eventType b = js ''replay_boundary'' \<longleftrightarrow> (\<exists>a n r. b = Replay_boundary a n r)"
  by (cases b) simp_all

lemma isBoundary_type: "isBoundary e \<longleftrightarrow> eventType (eventBody e) = js ''replay_boundary''"
  by (auto simp: isBoundary_def eventType_boundary split: event_body.splits)

lemma event_schema_keeps:
  assumes "selectedProjectionEventSchema e = Some e'"
  shows "eventSessionId e' = eventSessionId e" "eventCursor e' = eventCursor e"
    "isBoundary e' = isBoundary e" "boundaryAfter e' = boundaryAfter e" "boundaryNext e' = boundaryNext e"
proof -
  from assms obtain session captured upstream ident kind notice bd where
    i: "sessionIdSchema (eventSessionId e) = Some session" and b: "eventBodySchema (eventCursor e) (eventBody e) = Some bd"
    and e': "e' = e\<lparr> eventSessionId := session, capturedAt := captured, upstreamAt := upstream, codexEventId := ident,
      codexEventType := kind, contentNotice := notice, eventBody := bd \<rparr>"
    unfolding selectedProjectionEventSchema_def bind_eq_Some_conv by (elim exE conjE) (simp only: option.inject, metis)
  have c: "eventCursor e' = eventCursor e" "eventBody e' = bd" "eventSessionId e' = session" by (simp_all add: e')
  have s: "eventSessionId e' = eventSessionId e" "eventCursor e' = eventCursor e" using exact_identifiers(1) [OF i] c by simp_all
  show "eventSessionId e' = eventSessionId e" "eventCursor e' = eventCursor e" by (fact s)+
  show "isBoundary e' = isBoundary e" "boundaryAfter e' = boundaryAfter e" "boundaryNext e' = boundaryNext e"
    using b c(2) by (cases "eventBody e"; auto simp: eventBodySchema_def bind_eq_Some_conv isBoundary_def boundaryAfter_def
        boundaryNext_def)+
qed

lemma parseEventRow_Inr:
  assumes "parseEventRow row = Inr record" "columnsOk row"
  shows "recordBytes record = rowBytes row" "recordCursor record = rowCursor row"
    "realRecord record \<longleftrightarrow> \<not> isBoundary (rowEvent row)"
    "boundaryAfter (recordEvent record) = boundaryAfter (rowEvent row)"
proof -
  from assms(1) have "selectedProjectedEventRecordSchema \<lparr> recordEvent = rowEvent row, recordBytes = rowBytes row \<rparr> = Some record"
    by (auto simp: parseEventRow_def parseProjectedEventRecord_def Let_def)
  then have r: "recordBytes record = rowBytes row" "selectedProjectionEventSchema (rowEvent row) = Some (recordEvent record)"
    by (auto simp: selectedProjectedEventRecordSchema_def bind_eq_Some_conv)
  show "recordBytes record = rowBytes row" by (fact r)
  have "rowCursor row = eventCursor (rowEvent row)"
    using assms(2) unfolding columnsOk_def by (metis eventToRow_fields(2) event_record.select_convs(1))
  then show "recordCursor record = rowCursor row" using event_schema_keeps(2) [OF r(2)] by simp
  show "realRecord record \<longleftrightarrow> \<not> isBoundary (rowEvent row)" "boundaryAfter (recordEvent record) = boundaryAfter (rowEvent row)"
    using event_schema_keeps(3,4) [OF r(2)] by (simp_all add: realRecord_def)
qed

section \<open>The invariant\<close>

definition databaseOk :: "database \<Rightarrow> bool" where
  "databaseOk db \<longleftrightarrow>
     distinct (map mappingId (sessionTable db)) \<and> distinct (map mappingName (sessionTable db)) \<and>
     distinct (map mappingThread (sessionTable db)) \<and> distinct (map prSession (projectionTable db)) \<and>
     set (map prSession (projectionTable db)) = set (map mappingId (sessionTable db)) \<and>
     rowSession ` set (eventTable db) \<subseteq> set (map mappingId (sessionTable db)) \<and>
     memberSession ` set (membershipTable db) \<subseteq> set (map mappingId (sessionTable db)) \<and>
     (\<forall>p \<in> set (projectionTable db).
        logOk (sessionEvents db (prSession p)) \<and> countersOk (sessionEvents db (prSession p)) p)"

definition emptyDatabase :: database where
  "emptyDatabase =
     \<lparr> sessionTable = [], projectionTable = [], eventTable = [], membershipTable = [], recoveryTable = [],
       legacyTable = [] \<rparr>"

lemma emptyDatabase_ok: "databaseOk emptyDatabase"
  by (simp add: databaseOk_def emptyDatabase_def)

text \<open>A managed session and its projection row.\<close>

definition managed :: "database \<Rightarrow> js_string \<Rightarrow> bool" where
  "managed db sid \<longleftrightarrow> sid \<in> set (map mappingId (sessionTable db))"

lemma event_managed: "databaseOk db \<Longrightarrow> r \<in> set (eventTable db) \<Longrightarrow> managed db (rowSession r)"
  unfolding databaseOk_def managed_def by blast

lemma unmanaged_events: "databaseOk db \<Longrightarrow> \<not> managed db sid \<Longrightarrow> sessionEvents db sid = []"
  using event_managed [of db] set_sessionEvents [of db sid] by (metis (mono_tags, lifting) list.set_intros(1) mem_Collect_eq neq_Nil_conv)

lemma projection_log:
  "databaseOk db \<Longrightarrow> p \<in> set (projectionTable db) \<Longrightarrow>
     logOk (sessionEvents db (prSession p)) \<and> countersOk (sessionEvents db (prSession p)) p"
  unfolding databaseOk_def by blast

lemma require_facts:
  assumes "databaseOk db" "requireState db sid = Inr state"
  shows "managed db sid" "mappingId (stateMapping state) = sid"
    "sessionIdent (projectionSession (stateProjection state)) = sid"
    "logOk (sessionEvents db sid)"
    "\<exists>r \<in> set (projectionTable db). prSession r = sid \<and>
       lastEventCursor (projectionSession (stateProjection state)) = prLastCursor r \<and>
       retainedCount (stateProjection state) = prCount r \<and> retainedBytes (stateProjection state) = prBytes r \<and>
       earliestCursor (stateProjection state) = prEarliest r \<and> boundaryCursor (stateProjection state) = prBoundary r"
proof -
  obtain m r where f: "find (\<lambda>m. mappingId m = sid) (sessionTable db) = Some m"
    "find (\<lambda>r. prSession r = sid) (projectionTable db) = Some r" "parseStateRows m r = Inr state"
    by (rule requireState_Inr [OF assms(2)])
  note mr = find_Some [OF f(1)] find_Some [OF f(2)]
  show "managed db sid" using mr(1) by (auto simp: managed_def)
  show "mappingId (stateMapping state) = sid" "sessionIdent (projectionSession (stateProjection state)) = sid"
    using parseStateRows_Inr(1,2) [OF f(3)] mr(1) by simp_all
  show "logOk (sessionEvents db sid)" using assms(1) mr(2) by (auto simp: databaseOk_def)
  show "\<exists>r \<in> set (projectionTable db). prSession r = sid \<and>
       lastEventCursor (projectionSession (stateProjection state)) = prLastCursor r \<and>
       retainedCount (stateProjection state) = prCount r \<and> retainedBytes (stateProjection state) = prBytes r \<and>
       earliestCursor (stateProjection state) = prEarliest r \<and> boundaryCursor (stateProjection state) = prBoundary r"
    using parseStateRows_Inr(3-7) [OF f(3)] mr(2) by blast
qed

text \<open>The counters of a projection record, read off its log.\<close>

definition recordCountersOk :: "event_row list \<Rightarrow> projection_record \<Rightarrow> bool" where
  "recordCountersOk rows p \<longleftrightarrow>
     retainedCount p = int (length rows) \<and> retainedBytes p = sum_list (map rowBytes rows) \<and>
     earliestCursor p = (if rows = [] then None else Some (rowCursor (hd rows))) \<and>
     lastEventCursor (projectionSession p) = (if rows = [] then None else Some (rowCursor (last rows))) \<and>
     boundaryCursor p = (case rows of [] \<Rightarrow> None | r # _ \<Rightarrow> boundaryAfter (rowEvent r))"

lemma countersOk_row: "countersOk rows (projectionToRow p) = recordCountersOk rows p"
  by (simp add: countersOk_def recordCountersOk_def projectionToRow_def Let_def)

lemma require_counters:
  assumes "databaseOk db" "requireState db sid = Inr state"
  shows "recordCountersOk (sessionEvents db sid) (stateProjection state)"
proof -
  obtain r where r: "r \<in> set (projectionTable db)" "prSession r = sid" and e:
    "lastEventCursor (projectionSession (stateProjection state)) = prLastCursor r"
    "retainedCount (stateProjection state) = prCount r" "retainedBytes (stateProjection state) = prBytes r"
    "earliestCursor (stateProjection state) = prEarliest r" "boundaryCursor (stateProjection state) = prBoundary r"
    using require_facts(5) [OF assms] by blast
  have "countersOk (sessionEvents db sid) r" using projection_log [OF assms(1) r(1)] r(2) by simp
  then show ?thesis by (simp add: countersOk_def recordCountersOk_def e)
qed

lemma cursorFloor_next:
  assumes "logOk rows" "recordCountersOk rows p"
  shows "cursorFloor p + 1 = nextRowCursor rows"
proof (cases rows)
  case Nil
  with assms(2) show ?thesis by (simp add: recordCountersOk_def cursorFloor_def nextRowCursor_def)
next
  case (Cons r rs)
  have l: "rowCursor (last rows) = rowCursor r + int (length rs)"
    using contiguousFrom_last [of "rowCursor r" "r # rs"] assms(1) Cons by (simp add: logOk_def)
  have s: "startOk r" "1 \<le> rowCursor r" using assms(1) Cons by (simp_all add: logOk_def)
  have p: "lastEventCursor (projectionSession p) = Some (rowCursor (last rows))" "boundaryCursor p = boundaryAfter (rowEvent r)"
    using assms(2) Cons by (simp_all add: recordCountersOk_def)
  have "boundaryAfter (rowEvent r) = Some a \<Longrightarrow> a < rowCursor r" for a
    using s by (cases "isBoundary (rowEvent r)") (auto simp: startOk_def boundaryAfter_def isBoundary_def split: event_body.splits)
  with l s p Cons show ?thesis by (auto simp: cursorFloor_def nextRowCursor_def split: option.splits)
qed

text \<open>A database in which one session's log and projection row have changed.\<close>

lemma databaseOk_update:
  assumes "databaseOk db" "managed db sid"
    "map mappingId (sessionTable db') = map mappingId (sessionTable db)"
    "distinct (map mappingName (sessionTable db'))" "map mappingThread (sessionTable db') = map mappingThread (sessionTable db)"
    "membershipTable db' = membershipTable db"
    "projectionTable db' = map (\<lambda>r. if prSession r = sid then projectionToRow p else r) (projectionTable db)"
    "sessionIdent (projectionSession p) = sid"
    "\<And>s. sessionEvents db' s = (if s = sid then rows else sessionEvents db s)"
    "logOk rows" "recordCountersOk rows p"
  shows "databaseOk db'"
proof -
  have ids: "map prSession (projectionTable db') = map prSession (projectionTable db)"
    using assms(7,8) by (auto simp: projectionToRow_def Let_def)
  have ev: "rowSession ` set (eventTable db') \<subseteq> set (map mappingId (sessionTable db))"
  proof
    fix s assume "s \<in> rowSession ` set (eventTable db')"
    then obtain r where r: "r \<in> set (eventTable db')" "s = rowSession r" by blast
    show "s \<in> set (map mappingId (sessionTable db))"
    proof (cases "s = sid")
      case True then show ?thesis using assms(2) by (simp add: managed_def)
    next
      case False
      from r have "r \<in> set (sessionEvents db' s)" by (simp add: set_sessionEvents)
      with False assms(9) have "r \<in> set (sessionEvents db s)" by simp
      then have "r \<in> set (eventTable db)" by (simp add: set_sessionEvents)
      with event_managed [OF assms(1)] r show ?thesis by (simp add: managed_def)
    qed
  qed
  have "logOk (sessionEvents db' (prSession q)) \<and> countersOk (sessionEvents db' (prSession q)) q"
    if "q \<in> set (projectionTable db')" for q
  proof -
    from that assms(7) obtain r where r: "r \<in> set (projectionTable db)"
      "q = (if prSession r = sid then projectionToRow p else r)" by auto
    show ?thesis
    proof (cases "prSession r = sid")
      case True
      with r have "q = projectionToRow p" by simp
      moreover have "prSession (projectionToRow p) = sid" using assms(8) by (simp add: projectionToRow_def Let_def)
      ultimately show ?thesis using assms(9-11) by (simp add: countersOk_row)
    next
      case False
      with r assms(9) projection_log [OF assms(1) r(1)] show ?thesis by simp
    qed
  qed
  with assms(1,3-6) ids ev show ?thesis unfolding databaseOk_def by (metis (no_types, lifting))
qed

section \<open>Retention\<close>

lemma createRetentionBoundaryRecord_Inr:
  assumes "createRetentionBoundaryRecord sid c captured = Inr b"
  shows "recordCursor b = c" "eventSessionId (recordEvent b) = sid" "isBoundary (recordEvent b)"
    "boundaryAfter (recordEvent b) = Some (c - 1)" "boundaryNext (recordEvent b) = Some c"
proof -
  from assms have e: "selectedProjectionEventSchema (retentionBoundaryEvent sid c captured) = Some (recordEvent b)"
    by (auto simp: createRetentionBoundaryRecord_def)
  show "recordCursor b = c" "eventSessionId (recordEvent b) = sid" "isBoundary (recordEvent b)"
    "boundaryAfter (recordEvent b) = Some (c - 1)" "boundaryNext (recordEvent b) = Some c"
    using event_schema_keeps [OF e]
    by (simp_all add: retentionBoundaryEvent_def isBoundary_def boundaryAfter_def boundaryNext_def)
qed

lemma retainLoop_Inr:
  "retainLoop sid policy retained bytes cands = Inr (ret, octets) \<Longrightarrow>
     \<exists>n \<le> length cands. ret = retained @ take n cands \<and> octets = bytes + sum_list (map recordBytes (take n cands))"
proof (induction cands arbitrary: retained bytes)
  case (Cons c cs)
  show ?case
  proof (cases "retainLoop sid policy (retained @ [c]) (bytes + recordBytes c) cs = Inr (ret, octets)")
    case True
    from Cons.IH [OF this] obtain n where "n \<le> length cs" "ret = (retained @ [c]) @ take n cs"
      "octets = bytes + recordBytes c + sum_list (map recordBytes (take n cs))" by blast
    then show ?thesis by (intro exI [of _ "Suc n"]) simp
  next
    case False
    with Cons.prems have "ret = retained \<and> octets = bytes" by (auto split: if_splits)
    then show ?thesis by (intro exI [of _ 0]) simp
  qed
qed simp

lemma finish_Inr:
  assumes "finishRetentionPlan sid reals retained bytes = Inr plan" "planBoundary plan = Some b"
  shows "1 < recordCursor (last retained)"
    "createRetentionBoundaryRecord sid (recordCursor (last retained) - 1) (recordCapture (last retained)) = Inr b"
    "planRetained plan = retained" "planBytes plan = bytes"
    "planRemovable plan = filter (\<lambda>r. recordCursor r \<le> recordCursor b) (rev reals)"
  using assms by (auto simp: finishRetentionPlan_def Let_def split: if_splits)

text \<open>What a plan with a boundary says of the newest-first records.\<close>

lemma plan_Inr:
  assumes "planSelectedProjectionRetention records p policy = Inr plan" "planBoundary plan = Some b"
  obtains n where "n < length (filter realRecord records)" "planRetained plan = take (Suc n) (filter realRecord records)"
    "planBytes plan = sum_list (map recordBytes (take (Suc n) (filter realRecord records)))"
    "createRetentionBoundaryRecord (sessionIdent (projectionSession p)) (recordCursor (filter realRecord records ! n) - 1)
       (recordCapture (filter realRecord records ! n)) = Inr b"
    "1 < recordCursor (filter realRecord records ! n)"
    "planRemovable plan = filter (\<lambda>r. recordCursor r \<le> recordCursor b) (rev (filter realRecord records))"
    "\<not> projectionMeetsRetention p policy"
proof -
  let ?sid = "sessionIdent (projectionSession p)"
  have no: "\<not> projectionMeetsRetention p policy"
    using assms by (auto simp: planSelectedProjectionRetention_def Let_def)
  obtain newest second rest where reals: "filter realRecord records = newest # second # rest"
  proof (cases "filter realRecord records" rule: remdups_adj.cases)
    case 1 then show thesis using assms no by (auto simp: planSelectedProjectionRetention_def Let_def)
  next
    case (2 x) then show thesis using assms no by (auto simp: planSelectedProjectionRetention_def Let_def)
  qed (use that in blast)
  obtain retained bytes where loop: "retainLoop ?sid policy [newest] (recordBytes newest) (second # rest) = Inr (retained, bytes)"
    and fin: "finishRetentionPlan ?sid (newest # second # rest) retained bytes = Inr plan"
    using assms(1) no by (auto simp: planSelectedProjectionRetention_def Let_def reals split: prod.splits simp del: retainLoop.simps)
  from retainLoop_Inr [OF loop] obtain n where n: "n \<le> length (second # rest)" "retained = [newest] @ take n (second # rest)"
    "bytes = recordBytes newest + sum_list (map recordBytes (take n (second # rest)))" by blast
  have "last retained = (newest # second # rest) ! n"
    using n by (cases n) (auto simp: last_conv_nth min_def)
  with n no finish_Inr [OF fin assms(2)] show thesis by (intro that [of n]) (simp_all add: reals)
qed

text \<open>The records of a log, oldest first, and the index at which a plan cuts it.\<close>

lemma records_of_log:
  assumes "mapAll parseEventRow rows = Inr recs" "logOk rows"
  shows "length recs = length rows" "map recordBytes recs = map rowBytes rows" "map (\<lambda>r. recordCursor r) recs = map rowCursor rows"
    "list_all realRecord (tl recs)"
proof -
  from assms(1) have l: "list_all2 (\<lambda>x y. parseEventRow x = Inr y) rows recs" by (simp add: mapAll_Inr)
  have c: "\<forall>r \<in> set rows. columnsOk r" using assms(2) by (simp add: logOk_def list_all_iff)
  show "length recs = length rows" using l by (simp add: list_all2_lengthD)
  from l c show "map recordBytes recs = map rowBytes rows"
    by (induction rule: list_all2_induct) (simp_all add: parseEventRow_Inr(1))
  from l c show "map (\<lambda>r. recordCursor r) recs = map rowCursor rows"
    by (induction rule: list_all2_induct) (simp_all add: parseEventRow_Inr(2))
  have "\<forall>r \<in> set (tl rows). \<not> isBoundary (rowEvent r)" using assms(2) by (cases rows) (auto simp: logOk_def list_all_iff)
  moreover have "list_all2 (\<lambda>x y. parseEventRow x = Inr y) (tl rows) (tl recs)" using l by (cases rows; cases recs) auto
  moreover have "\<forall>r \<in> set (tl rows). columnsOk r" using c by (cases rows) auto
  ultimately show "list_all realRecord (tl recs)"
    by (auto simp: list_all_length list_all2_conv_all_nth parseEventRow_Inr(3))
qed

lemma filter_real:
  assumes "list_all realRecord (tl recs)"
  shows "filter realRecord (rev recs) = take (length (filter realRecord recs)) (rev recs)"
proof (cases recs)
  case (Cons r rs)
  with assms have "filter realRecord rs = rs" "filter realRecord (rev rs) = rev rs"
    by (simp_all add: list_all_iff filter_id_conv)
  with Cons show ?thesis by simp
qed simp

definition prunedLog :: "js_string \<Rightarrow> event_row list \<Rightarrow> event_row list \<Rightarrow> bool" where
  "prunedLog sid rows rows' \<longleftrightarrow>
     (\<exists>i b. 0 < i \<and> i < length rows \<and> rows' = b # drop i rows \<and> columnsOk b \<and> rowSession b = sid \<and>
        isBoundary (rowEvent b) \<and> boundaryAfter (rowEvent b) = Some (rowCursor b - 1) \<and>
        rowCursor b = rowCursor (rows ! (i - 1)))"

lemma prunedLog_ok: "prunedLog sid rows rows' \<Longrightarrow> logOk rows \<Longrightarrow> logOk rows' \<and> last rows' = last rows"
  unfolding prunedLog_def by (elim exE conjE) (simp add: logOk_prune(1))

lemma columnsOk_eventToRow [simp]: "columnsOk (eventToRow record)"
  by (cases "record") (simp add: columnsOk_def)

lemma boundary_log:
  assumes "insertEvent b (snd (deleteEventsThrough sid (recordCursor b) db)) = Inr db'"
    "logOk (sessionEvents db sid)" "0 < i" "i < length (sessionEvents db sid)" "isBoundary (recordEvent b)"
    "eventSessionId (recordEvent b) = sid" "boundaryAfter (recordEvent b) = Some (recordCursor b - 1)"
    "recordCursor b = rowCursor (sessionEvents db sid ! (i - 1))"
  shows "sessionEvents db' s = (if s = sid then eventToRow b # drop i (sessionEvents db sid) else sessionEvents db s)"
    "prunedLog sid (sessionEvents db sid) (eventToRow b # drop i (sessionEvents db sid))"
proof -
  let ?rows = "sessionEvents db sid" and ?mid = "snd (deleteEventsThrough sid (recordCursor b) db)"
  have mid: "?mid = db\<lparr> eventTable := filter (\<lambda>r. \<not> (rowSession r = sid \<and> rowCursor r \<le> recordCursor b)) (eventTable db) \<rparr>"
    by (simp add: deleteEventsThrough_def Let_def)
  have d: "filter (\<lambda>r. recordCursor b < rowCursor r) ?rows = drop i ?rows"
    using logOk_prune(2) [OF assms(2,3), of "eventToRow b"] assms(4-) by simp
  have own: "sessionEvents ?mid sid = drop i ?rows"
  proof -
    have "sessionEvents ?mid sid = filter (\<lambda>r. \<not> (rowSession r = sid \<and> rowCursor r \<le> recordCursor b)) ?rows"
      by (simp only: mid sessionEvents_filter)
    also have "\<dots> = filter (\<lambda>r. recordCursor b < rowCursor r) ?rows"
      by (rule filter_cong) (auto simp: set_sessionEvents)
    finally show ?thesis using d by simp
  qed
  have other: "sessionEvents ?mid s = sessionEvents db s" if "s \<noteq> sid"
    using that unfolding mid sessionEvents_filter by (auto simp: filter_id_conv set_sessionEvents)
  have db': "db' = ?mid\<lparr> eventTable := eventTable ?mid @ [eventToRow b] \<rparr>" using insertEvent_Inr(1) [OF assms(1)] .
  have "\<forall>r \<in> set (sessionEvents ?mid sid). recordCursor b < rowCursor r"
    unfolding own d [symmetric] by simp
  then show "sessionEvents db' s = (if s = sid then eventToRow b # drop i ?rows else sessionEvents db s)"
    using sessionEvents_insert(3) [of ?mid "eventToRow b"] sessionEvents_insert(1) [of "eventToRow b" s ?mid] assms(6) own other
    by (auto simp: db')
  show "prunedLog sid ?rows (eventToRow b # drop i ?rows)"
    unfolding prunedLog_def by (intro exI [of _ i] exI [of _ "eventToRow b"]) (use assms in simp)
qed

lemma mapAll_rev: "mapAll f (rev xs) = Inr ys \<Longrightarrow> mapAll f xs = Inr (rev ys)"
  by (simp add: mapAll_Inr) (metis list_all2_rev rev_rev_ident)

text \<open>The index of a plan's oldest retained record in the log.\<close>

lemma plan_index:
  assumes "mapAll parseEventRow (rev rows) = Inr records" "logOk rows"
    "planSelectedProjectionRetention records p policy = Inr plan" "planBoundary plan = Some b" "planRemovable plan \<noteq> []"
  obtains i where "0 < i" "i < length rows" "recordCursor b = rowCursor (rows ! (i - 1))"
    "length (planRetained plan) = length rows - i" "planBytes plan = sum_list (map rowBytes (drop i rows))"
    "isBoundary (recordEvent b)" "eventSessionId (recordEvent b) = sessionIdent (projectionSession p)"
    "boundaryAfter (recordEvent b) = Some (recordCursor b - 1)"
proof -
  from mapAll_rev [OF assms(1)] have asc: "mapAll parseEventRow rows = Inr (rev records)" .
  note recs = records_of_log [OF asc assms(2)]
  have reals: "filter realRecord records = take (length (filter realRecord records)) records"
    using filter_real [OF recs(4)] by (simp add: rev_filter [symmetric])
  obtain n where n: "n < length (filter realRecord records)" "planRetained plan = take (Suc n) (filter realRecord records)"
    "planBytes plan = sum_list (map recordBytes (take (Suc n) (filter realRecord records)))"
    "createRetentionBoundaryRecord (sessionIdent (projectionSession p)) (recordCursor (filter realRecord records ! n) - 1)
       (recordCapture (filter realRecord records ! n)) = Inr b"
    "planRemovable plan = filter (\<lambda>r. recordCursor r \<le> recordCursor b) (rev (filter realRecord records))"
    by (rule plan_Inr [OF assms(3,4)])
  note b = createRetentionBoundaryRecord_Inr [OF n(4)]
  have len: "n < length records" "length records = length rows" using n(1) recs(1) length_filter_le [of realRecord records] by auto
  define i where "i = length rows - Suc n"
  have oldest: "filter realRecord records ! n = records ! n" using reals n(1) by (metis nth_take)
  have cur: "recordCursor (records ! n) = rowCursor (rows ! i)"
    using recs(3) len unfolding i_def
    by (metis (no_types, lifting) diff_less length_greater_0_conv length_rev list.size(3) not_less_zero nth_map rev_nth rev_rev_ident zero_less_Suc)
  have rows: "rows \<noteq> []" using len by auto
  note c = logOk_contiguous [OF assms(2) rows]
  have "0 < i"
  proof (rule ccontr)
    assume "\<not> 0 < i"
    then have least: "recordCursor b = rowCursor (hd rows) - 1" using b(1) oldest cur rows by (simp add: hd_conv_nth)
    from assms(5) n(5) obtain r where "r \<in> set records" "recordCursor r \<le> recordCursor b"
      by (auto simp: filter_empty_conv)
    then have "recordCursor r \<in> rowCursor ` set rows" using recs(3) by (metis image_eqI image_set set_rev)
    then obtain row where "row \<in> set rows" "rowCursor row = recordCursor r" by auto
    with contiguousFrom_bounds [OF c] least \<open>recordCursor r \<le> recordCursor b\<close> show False by force
  qed
  have i: "i < length rows" using len by (simp add: i_def)
  have "rowCursor (rows ! i) = rowCursor (rows ! (i - 1)) + 1"
    using contiguousFrom_nth [OF c, of i] contiguousFrom_nth [OF c, of "i - 1"] \<open>0 < i\<close> i by (simp add: of_nat_diff)
  moreover have "take (Suc n) (filter realRecord records) = take (Suc n) records"
    using reals n(1) by (metis Suc_leI min.absorb1 take_take)
  moreover have "sum_list (map recordBytes (take (Suc n) records)) = sum_list (map rowBytes (drop i rows))"
  proof -
    have "map rowBytes (drop i rows) = drop i (rev (map recordBytes records))"
      using recs(2) by (simp add: drop_map rev_map)
    also have "\<dots> = rev (take (Suc n) (map recordBytes records))" using len by (simp add: i_def rev_take)
    finally show ?thesis by (simp add: take_map sum_list_rev)
  qed
  ultimately show thesis
    using \<open>0 < i\<close> i b oldest cur n(2,3) len by (intro that [of i]) (simp_all add: i_def)
qed

definition sameTables :: "database \<Rightarrow> database \<Rightarrow> bool" where
  "sameTables db db' \<longleftrightarrow>
     sessionTable db' = sessionTable db \<and> projectionTable db' = projectionTable db \<and>
     membershipTable db' = membershipTable db \<and> recoveryTable db' = recoveryTable db \<and> legacyTable db' = legacyTable db"

lemma insertEvent_tables: "insertEvent e db = Inr db' \<Longrightarrow> sameTables db db'"
  using insertEvent_Inr(1) [of e db db'] by (simp add: sameTables_def)

lemma deleteEvents_tables: "sameTables db (snd (deleteEventsThrough sid c db))"
  by (simp add: deleteEventsThrough_def sameTables_def Let_def)

lemma sameTables_trans: "sameTables a b \<Longrightarrow> sameTables b c \<Longrightarrow> sameTables a c"
  by (simp add: sameTables_def)

lemma parseProjection_Inr:
  "parseProjection p = Inr q \<Longrightarrow>
     sessionIdent (projectionSession q) = sessionIdent (projectionSession p) \<and> (recordCountersOk rows q \<longleftrightarrow> recordCountersOk rows p)"
  using projection_schema_keeps [of p q] by (auto simp: parseProjection_def recordCountersOk_def)

definition retentionLog :: "js_string \<Rightarrow> event_row list \<Rightarrow> event_row list \<Rightarrow> bool" where
  "retentionLog sid rows rows' \<longleftrightarrow> rows' = rows \<or> prunedLog sid rows rows'"

lemma execute_Inr:
  assumes "executeRetentionPlan next plan b db = Inr (p, db')"
  shows "insertEvent b (snd (deleteEventsThrough (sessionIdent (projectionSession next)) (recordCursor b) db)) = Inr db'"
    "parseProjection
       (next\<lparr> retainedCount := int (length (planRetained plan)) + 1, retainedBytes := planBytes plan + recordBytes b,
              earliestCursor := Some (recordCursor b), boundaryCursor := boundaryAfter (recordEvent b) \<rparr>) = Inr p"
  using assms by (auto simp: executeRetentionPlan_def Let_def split: prod.splits)

lemma retention_cases:
  assumes "applySelectedProjectionRetention next policy db = Inr (p, db')"
  obtains "p = next" "db' = db"
  | records plan b where "mapAll parseEventRow (rev (sessionEvents db (sessionIdent (projectionSession next)))) = Inr records"
    "planSelectedProjectionRetention records next policy = Inr plan" "planBoundary plan = Some b" "planRemovable plan \<noteq> []"
    "executeRetentionPlan next plan b db = Inr (p, db')"
  using assms by (auto simp: applySelectedProjectionRetention_def split: if_splits option.splits)

lemma retention_Inr:
  assumes "applySelectedProjectionRetention next policy db = Inr (p, db')"
    "sessionIdent (projectionSession next) = sid" "logOk (sessionEvents db sid)" "recordCountersOk (sessionEvents db sid) next"
  obtains rows where "retentionLog sid (sessionEvents db sid) rows" "recordCountersOk rows p"
    "sessionIdent (projectionSession p) = sid" "sameTables db db'"
    "\<And>s. sessionEvents db' s = (if s = sid then rows else sessionEvents db s)"
  using assms(1)
proof (rule retention_cases)
  assume "p = next" "db' = db"
  then show thesis using assms by (intro that [of "sessionEvents db sid"]) (simp_all add: retentionLog_def sameTables_def)
next
  fix records plan b
  assume "mapAll parseEventRow (rev (sessionEvents db (sessionIdent (projectionSession next)))) = Inr records"
    and plan: "planSelectedProjectionRetention records next policy = Inr plan" "planBoundary plan = Some b" "planRemovable plan \<noteq> []"
    and ex: "executeRetentionPlan next plan b db = Inr (p, db')"
  then have records: "mapAll parseEventRow (rev (sessionEvents db sid)) = Inr records" using assms(2) by simp
  note e = execute_Inr [OF ex, unfolded assms(2)]
  obtain i where i: "0 < i" "i < length (sessionEvents db sid)" "recordCursor b = rowCursor (sessionEvents db sid ! (i - 1))"
    "length (planRetained plan) = length (sessionEvents db sid) - i"
    "planBytes plan = sum_list (map rowBytes (drop i (sessionEvents db sid)))" "isBoundary (recordEvent b)"
    "eventSessionId (recordEvent b) = sessionIdent (projectionSession next)"
    "boundaryAfter (recordEvent b) = Some (recordCursor b - 1)"
    by (rule plan_index [OF records assms(3) plan])
  let ?rows = "eventToRow b # drop i (sessionEvents db sid)"
  note log = boundary_log [OF e(1) assms(3) i(1,2,6) _ i(8,3)]
  have t: "sameTables db db'" using deleteEvents_tables insertEvent_tables [OF e(1)] by (rule sameTables_trans)
  have "recordCountersOk ?rows
    (next\<lparr> retainedCount := int (length (planRetained plan)) + 1, retainedBytes := planBytes plan + recordBytes b,
           earliestCursor := Some (recordCursor b), boundaryCursor := boundaryAfter (recordEvent b) \<rparr>)"
    using assms(4) i by (auto simp: recordCountersOk_def of_nat_diff)
  then have "recordCountersOk ?rows p" "sessionIdent (projectionSession p) = sid"
    using parseProjection_Inr [OF e(2), of ?rows] assms(2) by simp_all
  with log i(7) assms(2) t show thesis by (intro that [of ?rows]) (simp_all add: retentionLog_def)
qed

section \<open>Appending\<close>

definition parsedEvent :: "projection_event \<Rightarrow> bool" where
  "parsedEvent e \<longleftrightarrow> (\<exists>candidate. selectedProjectionEventSchema candidate = Some e)"

lemma parsed_boundary:
  assumes "parsedEvent e" "isBoundary e"
  shows "boundaryNext e = Some (eventCursor e)" "boundaryAfter e = Some a \<Longrightarrow> 0 \<le> a \<and> a < eventCursor e"
proof -
  from assms(1) obtain c where c: "selectedProjectionEventSchema c = Some e" by (auto simp: parsedEvent_def)
  note k = event_schema_keeps [OF c]
  obtain b where "eventBodySchema (eventCursor c) (eventBody c) = Some b"
    using c by (auto simp: selectedProjectionEventSchema_def bind_eq_Some_conv)
  moreover obtain after n r where body: "eventBody c = Replay_boundary after n r"
    using assms(2) k(3) by (auto simp: isBoundary_def split: event_body.splits)
  ultimately have "n = eventCursor c" "\<And>a. after = Some a \<Longrightarrow> 0 \<le> a \<and> a < n"
    by (auto simp: eventBodySchema_def bind_eq_Some_conv outputCursorOk_def)
  moreover have "boundaryNext c = Some n" "boundaryAfter c = after" using body by (simp_all add: boundaryNext_def boundaryAfter_def)
  ultimately show "boundaryNext e = Some (eventCursor e)" "boundaryAfter e = Some a \<Longrightarrow> 0 \<le> a \<and> a < eventCursor e"
    using k by simp_all
qed

definition logChange :: "js_string \<Rightarrow> event_row list \<Rightarrow> database \<Rightarrow> database \<Rightarrow> bool" where
  "logChange sid rows db db' \<longleftrightarrow>
     sessionTable db' = sessionTable db \<and> membershipTable db' = membershipTable db \<and>
     (\<forall>s. sessionEvents db' s = (if s = sid then rows else sessionEvents db s))"

lemma commit_Inr:
  assumes "commitProjection p db = Inr db'"
  shows "db' = db\<lparr> projectionTable :=
    map (\<lambda>r. if prSession r = sessionIdent (projectionSession p) then projectionToRow p else r) (projectionTable db) \<rparr>"
  using assms by (auto simp: commitProjection_def updateProjection_def Let_def split: option.splits if_splits)

text \<open>A committed change of one session's log.\<close>

lemma commit_ok:
  assumes "databaseOk db" "managed db sid" "sameTables db db1" "commitProjection p db1 = Inr db'"
    "\<And>s. sessionEvents db1 s = (if s = sid then rows else sessionEvents db s)"
    "sessionIdent (projectionSession p) = sid" "logOk rows" "recordCountersOk rows p"
  shows "databaseOk db'" "logChange sid rows db db'"
proof -
  note db' = commit_Inr [OF assms(4)]
  have ev: "sessionEvents db' s = (if s = sid then rows else sessionEvents db s)" for s by (simp add: db' assms(5))
  have t: "sessionTable db' = sessionTable db" "membershipTable db' = membershipTable db"
    "projectionTable db' = map (\<lambda>r. if prSession r = sid then projectionToRow p else r) (projectionTable db)"
    using assms(3,6) by (simp_all add: sameTables_def db')
  have names: "distinct (map mappingName (sessionTable db))" using assms(1) by (simp add: databaseOk_def)
  show "databaseOk db'"
    by (rule databaseOk_update [OF assms(1,2), where p = p and rows = rows]) (use t ev names assms(6-8) in simp_all)
  show "logChange sid rows db db'" using t ev by (simp add: logChange_def)
qed

lemma advance_Inr:
  assumes "assertEventAdvance current event next = Inr ()"
  shows "eventSessionId (recordEvent event) = sessionIdent (projectionSession current)"
    "sessionIdent (projectionSession next) = sessionIdent (projectionSession current)"
    "recordCursor event = cursorFloor current + 1" "lastEventCursor (projectionSession next) = Some (recordCursor event)"
    "retainedCount next = retainedCount current + 1" "retainedBytes next = retainedBytes current + recordBytes event"
    "earliestCursor next = Some (case earliestCursor current of None \<Rightarrow> recordCursor event | Some c \<Rightarrow> c)"
    "isBoundary (recordEvent event) \<Longrightarrow> retainedCount current = 0 \<and> boundaryCursor next = boundaryAfter (recordEvent event)"
    "\<not> isBoundary (recordEvent event) \<Longrightarrow> boundaryCursor next = boundaryCursor current"
  using assms by (simp_all add: assertEventAdvance_def Let_def)

lemma advance_log:
  assumes "assertEventAdvance current event next = Inr ()" "logOk rows" "recordCountersOk rows current" "parsedEvent (recordEvent event)"
  shows "recordCursor event = nextRowCursor rows" "logOk (rows @ [eventToRow event])"
    "recordCountersOk (rows @ [eventToRow event]) next"
proof -
  note a = advance_Inr [OF assms(1)]
  show c: "recordCursor event = nextRowCursor rows" using a(3) cursorFloor_next [OF assms(2,3)] by simp
  have s: "rows = [] \<and> startOk (eventToRow event)" if b: "isBoundary (recordEvent event)"
  proof -
    have "rows = []" using a(8) [OF b] assms(3) by (simp add: recordCountersOk_def)
    with c have "recordCursor event = 1" by (simp add: nextRowCursor_def)
    with parsed_boundary(2) [OF assms(4) b] b have "startOk (eventToRow event)" by (force simp: startOk_def split: option.splits)
    with \<open>rows = []\<close> show ?thesis by simp
  qed
  show "logOk (rows @ [eventToRow event])" by (rule logOk_snoc [OF assms(2)]) (simp_all add: c s)
  have "boundaryAfter (recordEvent event) = None" if "\<not> isBoundary (recordEvent event)"
    using that by (auto simp: isBoundary_def boundaryAfter_def split: event_body.splits)
  then show "recordCountersOk (rows @ [eventToRow event]) next"
    using assms(3) a(4-9) s by (cases rows; cases "isBoundary (recordEvent event)") (auto simp: recordCountersOk_def)
qed

lemma append_Inr:
  assumes "databaseOk db" "appendEventTransaction event next revision retention db = Inr (res, db')"
    "parsedEvent (recordEvent event)" "sid = eventSessionId (recordEvent event)"
  obtains rows where "retentionLog sid (sessionEvents db sid @ [eventToRow event]) rows" "databaseOk db'"
    "logChange sid rows db db'" "recordCursor event = nextRowCursor (sessionEvents db sid)"
    "recordCountersOk rows (resultProjection res)" "managed db sid" "logOk rows"
proof -
  from assms(2,4) obtain current db1 db2 p where r: "requireState db sid = Inr current"
    "assertEventAdvance (stateProjection current) event next = Inr ()" "insertEvent event db = Inr db1"
    "(case retention of None \<Rightarrow> Inr (next, db1) | Some policy \<Rightarrow> applySelectedProjectionRetention next policy db1) = Inr (p, db2)"
    "commitProjection p db2 = Inr db'" "resultProjection res = p"
    by (auto simp: appendEventTransaction_def)
  note f = require_facts [OF assms(1) r(1)] and c = require_counters [OF assms(1) r(1)]
  let ?old = "sessionEvents db sid" and ?new = "sessionEvents db sid @ [eventToRow event]"
  note log = advance_log [OF r(2) f(4) c assms(3)]
  have ev: "sessionEvents db1 s = (if s = sid then ?new else sessionEvents db s)" for s
    using insertEvent_Inr(1) [OF r(3)] sessionEvents_insert(1) [of "eventToRow event"]
      sessionEvents_insert(2) [of db "eventToRow event"] nextRowCursor_greater [OF f(4)] log(1) assms(4)
    by auto
  have n: "sessionIdent (projectionSession next) = sid" using advance_Inr(2) [OF r(2)] f(3) by simp
  obtain rows where rows: "retentionLog sid ?new rows" "recordCountersOk rows p" "sessionIdent (projectionSession p) = sid"
    "sameTables db1 db2" "\<And>s. sessionEvents db2 s = (if s = sid then rows else sessionEvents db1 s)"
  proof (cases retention)
    case None
    with r(4) log n ev show thesis by (intro that [of ?new]) (auto simp: retentionLog_def sameTables_def)
  next
    case (Some policy)
    with r(4) have "applySelectedProjectionRetention next policy db1 = Inr (p, db2)" by simp
    from retention_Inr [OF this n] log ev show thesis by (metis that)
  qed
  have "logOk rows" using rows(1) log(2) prunedLog_ok by (auto simp: retentionLog_def)
  moreover have "sessionEvents db2 s = (if s = sid then rows else sessionEvents db s)" for s using rows(5) ev by simp
  moreover have "sameTables db db2" using insertEvent_tables [OF r(3)] rows(4) by (rule sameTables_trans)
  ultimately show thesis
    using commit_ok [OF assms(1) f(1) _ r(5), of rows] rows log f(1) r(6) by (intro that [of rows]) simp_all
qed

section \<open>Continuity boundaries and the retention batch\<close>

lemma sessionEvents_cleared:
  "sessionEvents (deleteSessionEvents sid db) s = (if s = sid then [] else sessionEvents db s)"
  unfolding deleteSessionEvents_def sessionEvents_filter
  by (auto simp: filter_empty_conv filter_id_conv set_sessionEvents)

lemma continuity_Inr:
  assumes "assertContinuityBoundaryReplacement current event next = Inr ()"
  shows "isBoundary (recordEvent event)" "eventSessionId (recordEvent event) = sessionIdent (projectionSession current)"
    "sessionIdent (projectionSession next) = sessionIdent (projectionSession current)"
    "recordCursor event = cursorFloor current + 1"
    "boundaryAfter (recordEvent event) = (if cursorFloor current = 0 then None else Some (cursorFloor current))"
    "lastEventCursor (projectionSession next) = Some (recordCursor event)"
    "retainedCount next = 1" "retainedBytes next = recordBytes event" "earliestCursor next = Some (recordCursor event)"
    "boundaryCursor next = boundaryAfter (recordEvent event)" "\<not> isRetentionBoundary (recordEvent event)"
  using assms by (simp_all add: assertContinuityBoundaryReplacement_def Let_def)

lemma nextRowCursor_pos: "logOk rows \<Longrightarrow> 1 \<le> nextRowCursor rows"
  using contiguousFrom_bounds [of "rowCursor (hd rows)" rows "last rows"] logOk_contiguous [of rows]
  by (cases rows) (auto simp: nextRowCursor_def logOk_def)

lemma floor_nonneg: "logOk rows \<Longrightarrow> recordCountersOk rows p \<Longrightarrow> 0 \<le> cursorFloor p"
  using cursorFloor_next [of rows p] nextRowCursor_pos [of rows] by simp

lemma boundary_Inr:
  assumes "databaseOk db" "replaceEventsWithBoundaryTransaction event next revision db = Inr (res, db')"
    "sid = eventSessionId (recordEvent event)"
  shows "databaseOk db'" "logChange sid [eventToRow event] db db'" "managed db sid" "isBoundary (recordEvent event)"
    "recordCursor event = nextRowCursor (sessionEvents db sid)"
    "boundaryAfter (recordEvent event) = (if nextRowCursor (sessionEvents db sid) = 1 then None else Some (recordCursor event - 1))"
    "\<not> isRetentionBoundary (recordEvent event)"
proof -
  from assms(2,3) obtain current db1 where r: "requireState db sid = Inr current"
    "assertContinuityBoundaryReplacement (stateProjection current) event next = Inr ()"
    "insertEvent event (deleteSessionEvents sid db) = Inr db1" "commitProjection next db1 = Inr db'"
    by (auto simp: replaceEventsWithBoundaryTransaction_def)
  note f = require_facts [OF assms(1) r(1)] and c = require_counters [OF assms(1) r(1)] and a = continuity_Inr [OF r(2)]
  note n = cursorFloor_next [OF f(4) c]
  show "recordCursor event = nextRowCursor (sessionEvents db sid)" "isBoundary (recordEvent event)"
    "\<not> isRetentionBoundary (recordEvent event)" "managed db sid" using a n f(1) by simp_all
  show "boundaryAfter (recordEvent event) = (if nextRowCursor (sessionEvents db sid) = 1 then None else Some (recordCursor event - 1))"
    using a(4,5) n by auto
  have row: "logOk [eventToRow event]" using a(1,4,5) floor_nonneg [OF f(4) c] by (simp add: logOk_def startOk_def)
  have ev: "sessionEvents db1 s = (if s = sid then [eventToRow event] else sessionEvents db s)" for s
    using insertEvent_Inr(1) [OF r(3)] sessionEvents_insert(1) [of "eventToRow event" s "deleteSessionEvents sid db"]
      sessionEvents_insert(2) [of "deleteSessionEvents sid db" "eventToRow event"] assms(3)
    by (auto simp: sessionEvents_cleared)
  have t: "sameTables db db1" using insertEvent_tables [OF r(3)] by (simp add: sameTables_def deleteSessionEvents_def)
  have "sessionIdent (projectionSession next) = sid" using a(3) f(3) by simp
  moreover have "recordCountersOk [eventToRow event] next" using a by (simp add: recordCountersOk_def)
  ultimately show "databaseOk db'" "logChange sid [eventToRow event] db db'"
    using commit_ok [OF assms(1) f(1) t r(4) ev _ row] by simp_all
qed

lemma pruneLoop_Inr:
  "pruneLoop current policy m prior removed bytes boundary L = Inr (rem, found) \<Longrightarrow>
     rem = removed \<and> found = boundary \<or>
     (\<exists>k b. Suc k < length L \<and> rem = removed @ take (Suc k) L \<and> found = Some b \<and>
        createRetentionBoundaryRecord (sessionIdent (projectionSession current)) (recordCursor (L ! k)) (recordCapture (L ! Suc k)) = Inr b)"
proof (induction L arbitrary: removed bytes boundary)
  case (Cons c L)
  show ?case
  proof (cases L)
    case Nil
    with Cons.prems show ?thesis by simp
  next
    case (Cons d rest)
    let ?loop = "\<lambda>b. pruneLoop current policy m prior (removed @ [c]) (bytes + recordBytes c) (Some b) L"
    let ?create = "\<lambda>L k. createRetentionBoundaryRecord (sessionIdent (projectionSession current)) (recordCursor (L ! k)) (recordCapture (L ! Suc k))"
    have cases: "rem = removed \<and> found = boundary \<or>
      (\<exists>b. ?create (c # L) 0 = Inr b \<and> (rem = removed @ [c] \<and> found = Some b \<or> ?loop b = Inr (rem, found)))"
      using Cons.prems Cons by (auto simp: Let_def split: if_splits)
    then consider "rem = removed \<and> found = boundary"
      | b where "?create (c # L) 0 = Inr b" "rem = removed @ [c]" "found = Some b"
      | b where "?create (c # L) 0 = Inr b" "?loop b = Inr (rem, found)" by blast
    then show ?thesis
    proof cases
      case 1 then show ?thesis by blast
    next
      case (2 b) then show ?thesis using Cons by (intro disjI2 exI [of _ 0] exI [of _ b]) simp
    next
      case (3 b)
      from Cons.IH [OF 3(2)] show ?thesis
      proof (elim disjE exE conjE)
        assume "rem = removed @ [c]" "found = Some b"
        then show ?thesis using 3(1) Cons by (intro disjI2 exI [of _ 0] exI [of _ b]) simp
      next
        fix k b' assume "Suc k < length L" "rem = (removed @ [c]) @ take (Suc k) L" "found = Some b'" "?create L k = Inr b'"
        then show ?thesis by (intro disjI2 exI [of _ "Suc k"] exI [of _ b']) simp
      qed
    qed
  qed
qed simp

lemma mapAll_take: "mapAll f xs = Inr ys \<Longrightarrow> list_all2 (\<lambda>x y. f x = Inr y) xs ys"
  by (simp add: mapAll_Inr)

lemma logOk_take: "logOk rows \<Longrightarrow> logOk (take n rows)"
proof (cases rows; cases n)
  fix r rs k
  assume "logOk rows" "rows = r # rs" "n = Suc k"
  moreover have "contiguousFrom c xs \<Longrightarrow> contiguousFrom c (take k xs)" for c xs
    by (induction xs arbitrary: c k) (auto simp: take_Cons' split: if_splits)
  ultimately show ?thesis by (auto simp: logOk_def list_all_iff dest: in_set_takeD)
qed (simp_all add: logOk_def)

text \<open>The boundary of a batch stands for the records up to an index of the log.\<close>

lemma window_index:
  assumes "mapAll parseEventRow (take n rows) = Inr window" "logOk rows" "Suc k < length (filter realRecord window)"
  obtains i where "0 < i" "i < length rows" "recordCursor (filter realRecord window ! k) = rowCursor (rows ! (i - 1))"
proof -
  note recs = records_of_log [OF assms(1) logOk_take [OF assms(2)]]
  obtain d where d: "filter realRecord window = drop d window"
  proof (cases window)
    case (Cons w ws)
    then have "filter realRecord ws = ws" using recs(4) by (simp add: filter_id_conv list_all_iff)
    with Cons show thesis by (cases "realRecord w") (auto intro: that [of 0] that [of "Suc 0"])
  qed (use that [of 0] in simp)
  have len: "Suc (d + k) < length window" using assms(3) by (simp add: d)
  then have "recordCursor (window ! (d + k)) = rowCursor (take n rows ! (d + k))"
    using recs(1,3) by (metis (no_types, lifting) Suc_lessD nth_map)
  with len recs(1) show thesis by (intro that [of "Suc (d + k)"]) (auto simp: d)
qed

lemma commitBatch_Inr:
  assumes "commitRetentionBatch sid policy current prior removed b db = Inr (res, db')"
  obtains db1 where "insertEvent b (snd (deleteEventsThrough sid (recordCursor b) db)) = Inr db1"
    "parseProjection
      (current\<lparr> retainedCount := aggregateCount (readSelectedProjectionAggregate db1 sid),
        retainedBytes := aggregateBytes (readSelectedProjectionAggregate db1 sid),
        earliestCursor := aggregateEarliest (readSelectedProjectionAggregate db1 sid),
        boundaryCursor := boundaryAfter (recordEvent b) \<rparr>) = Inr (batchProjection res)"
    "commitProjection (batchProjection res) db1 = Inr db'"
  using assms by (auto simp: commitRetentionBatch_def Let_def split: prod.splits)

lemma batch_cases:
  assumes "retentionBatchTransaction sid policy m db = Inr (res, db')" "requireState db sid = Inr current"
  obtains "db' = db" "batchProjection res = stateProjection current"
  | window prior removed b where "mapAll parseEventRow (take (m + 2) (sessionEvents db sid)) = Inr window"
    "pruneLoop (stateProjection current) policy m prior [] 0 None (filter realRecord window) = Inr (removed, Some b)"
    "commitRetentionBatch sid policy (stateProjection current) prior removed b db = Inr (res, db')"
  using assms by (auto simp: retentionBatchTransaction_def unchangedBatch_def Let_def split: if_splits option.splits)

lemma batch_Inr:
  assumes "databaseOk db" "retentionBatchTransaction sid policy m db = Inr (res, db')"
  obtains rows where "retentionLog sid (sessionEvents db sid) rows" "databaseOk db'" "logChange sid rows db db'" "managed db sid"
    "recordCountersOk rows (batchProjection res)"
proof -
  from assms(2) obtain current where q: "requireState db sid = Inr current" by (auto simp: retentionBatchTransaction_def)
  note f = require_facts [OF assms(1) q] and c = require_counters [OF assms(1) q]
  show thesis
    using assms(2) q
  proof (rule batch_cases)
    assume "db' = db" "batchProjection res = stateProjection current"
    then show thesis using assms(1) f c by (intro that [of "sessionEvents db sid"]) (simp_all add: retentionLog_def logChange_def)
  next
    fix window prior removed b
    assume w: "mapAll parseEventRow (take (m + 2) (sessionEvents db sid)) = Inr window"
      and loop: "pruneLoop (stateProjection current) policy m prior [] 0 None (filter realRecord window) = Inr (removed, Some b)"
      and "commitRetentionBatch sid policy (stateProjection current) prior removed b db = Inr (res, db')"
    from commitBatch_Inr [OF this(3)] obtain db1 where r:
      "insertEvent b (snd (deleteEventsThrough sid (recordCursor b) db)) = Inr db1"
      "parseProjection
        ((stateProjection current)\<lparr> retainedCount := aggregateCount (readSelectedProjectionAggregate db1 sid),
          retainedBytes := aggregateBytes (readSelectedProjectionAggregate db1 sid),
          earliestCursor := aggregateEarliest (readSelectedProjectionAggregate db1 sid),
          boundaryCursor := boundaryAfter (recordEvent b) \<rparr>) = Inr (batchProjection res)"
      "commitProjection (batchProjection res) db1 = Inr db'" .
    from pruneLoop_Inr [OF loop] obtain k where k: "Suc k < length (filter realRecord window)"
      "createRetentionBoundaryRecord (sessionIdent (projectionSession (stateProjection current)))
        (recordCursor (filter realRecord window ! k)) (recordCapture (filter realRecord window ! Suc k)) = Inr b" by auto
    obtain i where i: "0 < i" "i < length (sessionEvents db sid)"
      "recordCursor (filter realRecord window ! k) = rowCursor (sessionEvents db sid ! (i - 1))"
      by (rule window_index [OF w f(4) k(1)])
    note b = createRetentionBoundaryRecord_Inr [OF k(2)]
    let ?rows = "eventToRow b # drop i (sessionEvents db sid)"
    note log = boundary_log [OF r(1) f(4) i(1,2) b(3)]
    have l: "sessionEvents db1 s = (if s = sid then ?rows else sessionEvents db s)" "prunedLog sid (sessionEvents db sid) ?rows" for s
      using log b i f(3) by simp_all
    have t: "sameTables db db1" using deleteEvents_tables insertEvent_tables [OF r(1)] by (rule sameTables_trans)
    have "recordCountersOk ?rows ((stateProjection current)\<lparr> retainedCount := aggregateCount (readSelectedProjectionAggregate db1 sid),
          retainedBytes := aggregateBytes (readSelectedProjectionAggregate db1 sid),
          earliestCursor := aggregateEarliest (readSelectedProjectionAggregate db1 sid),
          boundaryCursor := boundaryAfter (recordEvent b) \<rparr>)"
      using c i by (auto simp: recordCountersOk_def readSelectedProjectionAggregate_def Let_def l)
    then have p: "recordCountersOk ?rows (batchProjection res)" "sessionIdent (projectionSession (batchProjection res)) = sid"
      using parseProjection_Inr [OF r(2), of ?rows] f(3) by simp_all
    have "logOk ?rows" using prunedLog_ok [OF l(2) f(4)] by simp
    with commit_ok [OF assms(1) f(1) t r(3) l(1) p(2)] p l(2) f(1) show thesis
      by (intro that [of ?rows]) (simp_all add: retentionLog_def)
  qed
qed

section \<open>New and removed sessions\<close>

lemma insertMapping_Inr:
  assumes "insertMapping m db = Inr db'"
  shows "db' = db\<lparr> sessionTable := sessionTable db @ [m] \<rparr>" "\<not> managed db (mappingId m)"
    "mappingName m \<notin> set (map mappingName (sessionTable db))" "mappingThread m \<notin> set (map mappingThread (sessionTable db))"
  using assms by (auto simp: insertMapping_def mappingConstraint_def managed_def list_ex_iff split: if_splits option.splits)

lemma insertProjection_Inr:
  "insertProjection p db = Inr db' \<Longrightarrow> db' = db\<lparr> projectionTable := projectionTable db @ [projectionToRow p] \<rparr>"
  by (auto simp: insertProjection_def split: if_splits)

lemma prSession_row [simp]: "prSession (projectionToRow p) = sessionIdent (projectionSession p)"
  by (simp add: projectionToRow_def Let_def)

lemma databaseOk_insert:
  assumes "databaseOk db" "\<not> managed db sid" "mappingId m = sid" "sessionIdent (projectionSession p) = sid"
    "mappingName m \<notin> set (map mappingName (sessionTable db))" "mappingThread m \<notin> set (map mappingThread (sessionTable db))"
    "sessionTable db' = sessionTable db @ [m]" "projectionTable db' = projectionTable db @ [projectionToRow p]"
    "memberSession ` set (membershipTable db') \<subseteq> insert sid (memberSession ` set (membershipTable db))"
    "\<And>s. sessionEvents db' s = (if s = sid then rows else sessionEvents db s)" "logOk rows" "recordCountersOk rows p"
  shows "databaseOk db'"
proof -
  have old: "set (map prSession (projectionTable db)) = set (map mappingId (sessionTable db))"
    "memberSession ` set (membershipTable db) \<subseteq> set (map mappingId (sessionTable db))"
    using assms(1) by (simp_all add: databaseOk_def)
  have ev: "rowSession ` set (eventTable db') \<subseteq> set (map mappingId (sessionTable db'))"
  proof
    fix s assume "s \<in> rowSession ` set (eventTable db')"
    then obtain r where r: "r \<in> set (eventTable db')" "s = rowSession r" by blast
    show "s \<in> set (map mappingId (sessionTable db'))"
    proof (cases "s = sid")
      case True then show ?thesis using assms(3,7) by simp
    next
      case False
      from r have "r \<in> set (sessionEvents db' s)" by (simp add: set_sessionEvents)
      with False assms(10) have "r \<in> set (eventTable db)" by (simp add: set_sessionEvents)
      with event_managed [OF assms(1)] r assms(7) show ?thesis by (simp add: managed_def)
    qed
  qed
  have new: "sid \<notin> set (map mappingId (sessionTable db))" using assms(2) by (simp add: managed_def)
  have logs: "logOk (sessionEvents db' (prSession q)) \<and> countersOk (sessionEvents db' (prSession q)) q"
    if "q \<in> set (projectionTable db')" for q
  proof (cases "q = projectionToRow p")
    case True then show ?thesis using assms(4,10-12) by (simp add: countersOk_row)
  next
    case False
    with that assms(8) have q: "q \<in> set (projectionTable db)" by simp
    then have "prSession q \<noteq> sid" using old new by (metis image_eqI image_set)
    with projection_log [OF assms(1) q] assms(10) show ?thesis by simp
  qed
  have d: "distinct (map mappingId (sessionTable db'))" "distinct (map mappingName (sessionTable db'))"
    "distinct (map mappingThread (sessionTable db'))" "distinct (map prSession (projectionTable db'))"
    "set (map prSession (projectionTable db')) = set (map mappingId (sessionTable db'))"
    using assms(1,3-8) new old by (auto simp: databaseOk_def)
  have "memberSession ` set (membershipTable db') \<subseteq> set (map mappingId (sessionTable db'))"
    using assms(3,7,9) old(2) by auto
  with d ev logs show ?thesis unfolding databaseOk_def by blast
qed

lemma parseState_Inr:
  "parseState candidate = Inr s \<Longrightarrow> mappingId (stateMapping s) = sessionIdent (projectionSession (stateProjection s))"
  by (auto simp: parseState_def assertProjectionIdentity_def Let_def)

lemma create_Inr:
  assumes "databaseOk db" "repositoryCreate state db = Inr (res, db')"
  shows "databaseOk db'" "\<not> managed db (mappingId (stateMapping res))"
    "\<And>s. managed db' s \<longleftrightarrow> managed db s \<or> s = mappingId (stateMapping res)" "\<And>s. sessionEvents db' s = sessionEvents db s"
proof -
  from assms(2) obtain db1 where r: "parseState state = Inr res" "assertInitialProjection (stateProjection res) = Inr ()"
    "insertMapping (stateMapping res) db = Inr db1" "insertProjection (stateProjection res) db1 = Inr db'"
    by (auto simp: repositoryCreate_def createTransaction_def)
  let ?sid = "mappingId (stateMapping res)"
  note m = insertMapping_Inr [OF r(3)] and p = insertProjection_Inr [OF r(4)]
  show "\<not> managed db ?sid" by (fact m(2))
  show "managed db' s \<longleftrightarrow> managed db s \<or> s = ?sid" for s by (auto simp: p m(1) managed_def)
  show ev: "sessionEvents db' s = sessionEvents db s" for s by (simp add: p m(1))
  have t: "sessionTable db' = sessionTable db @ [stateMapping res]" "membershipTable db' = membershipTable db"
    "projectionTable db' = projectionTable db @ [projectionToRow (stateProjection res)]" by (simp_all add: p m(1))
  show "databaseOk db'"
  proof (rule databaseOk_insert [OF assms(1) m(2) refl _ m(3,4) t(1,3), where rows = "[]"])
    show "recordCountersOk [] (stateProjection res)" using r(2) by (simp add: assertInitialProjection_def recordCountersOk_def)
    show "sessionEvents db' s = (if s = ?sid then [] else sessionEvents db s)" for s
      using ev unmanaged_events [OF assms(1) m(2)] by simp
  qed (use parseState_Inr [OF r(1)] t in \<open>auto simp: logOk_def\<close>)
qed

lemma insertEvents_log:
  "insertEvents es db = Inr db' \<Longrightarrow> contiguousFrom c (map eventToRow es) \<Longrightarrow> \<forall>e \<in> set es. eventSessionId (recordEvent e) = sid \<Longrightarrow>
   \<forall>r \<in> set (sessionEvents db sid). rowCursor r < c \<Longrightarrow>
   sameTables db db' \<and> (\<forall>s. sessionEvents db' s = (if s = sid then sessionEvents db s @ map eventToRow es else sessionEvents db s))"
proof (induction es arbitrary: db c)
  case Nil
  then show ?case by (simp add: sameTables_def)
next
  case (Cons e es)
  from Cons.prems(1) obtain db1 where i: "insertEvent e db = Inr db1" "insertEvents es db1 = Inr db'" by auto
  have ev: "sessionEvents db1 s = (if s = sid then sessionEvents db s @ [eventToRow e] else sessionEvents db s)" for s
    using insertEvent_Inr(1) [OF i(1)] sessionEvents_insert(1) [of "eventToRow e" s db] sessionEvents_insert(2) [of db "eventToRow e"]
      Cons.prems(2-4) by auto
  have "\<forall>r \<in> set (sessionEvents db1 sid). rowCursor r < c + 1" using Cons.prems(2,4) by (auto simp: ev)
  from Cons.IH [OF i(2), of "c + 1"] this Cons.prems(2,3) ev insertEvent_tables [OF i(1)] show ?case
    by (auto intro: sameTables_trans)
qed

lemma adoptionLoop_Inr:
  "adoptionLoop state index ids bytes es = Inr octets \<Longrightarrow>
     contiguousFrom (int index + 1) (map eventToRow es) \<and>
     (\<forall>e \<in> set es. eventSessionId (recordEvent e) = mappingId (stateMapping state)) \<and>
     octets = bytes + sum_list (map recordBytes es) \<and> (0 < index \<longrightarrow> (\<forall>e \<in> set es. \<not> isBoundary (recordEvent e)))"
proof (induction es arbitrary: index ids bytes)
  case (Cons e es)
  from Cons.prems obtain ids' where r: "adoptionLoop state (index + 1) ids' (bytes + recordBytes e) es = Inr octets"
    "eventSessionId (recordEvent e) = mappingId (stateMapping state)" "recordCursor e = int index + 1"
    by (auto simp: Let_def)
  have "\<not> isBoundary (recordEvent e)" if "0 < index"
    using Cons.prems that by (cases "eventBody (recordEvent e)") (auto simp: Let_def isBoundary_def)
  with Cons.IH [OF r(1)] r(2,3) show ?case by (simp add: algebra_simps)
qed simp

lemma adoption_log:
  assumes "assertNativeAdoptionProjection member state events = Inr ()"
  shows "logOk (map eventToRow events)" "recordCountersOk (map eventToRow events) (stateProjection state)"
    "contiguousFrom 1 (map eventToRow events)" "\<forall>e \<in> set events. eventSessionId (recordEvent e) = mappingId (stateMapping state)"
    "\<exists>b es. events = b # es \<and> adoptionBoundary member (recordEvent b)"
proof -
  from assms obtain b es octets where e: "events = b # es" "adoptionBoundary member (recordEvent b)"
    and loop: "adoptionLoop state 0 [] 0 events = Inr octets"
    and p: "lastEventCursor (projectionSession (stateProjection state)) = Some (int (length events))"
      "retainedCount (stateProjection state) = int (length events)" "retainedBytes (stateProjection state) = octets"
      "earliestCursor (stateProjection state) = Some 1" "boundaryCursor (stateProjection state) = None"
    by (cases events) (auto simp: assertNativeAdoptionProjection_def Let_def simp del: adoptionLoop.simps)
  note l = adoptionLoop_Inr [OF loop]
  from loop e(1) obtain ids where "adoptionLoop state 1 ids (recordBytes b) es = Inr octets" by (auto simp: Let_def)
  from adoptionLoop_Inr [OF this] have real: "\<forall>r \<in> set es. \<not> isBoundary (recordEvent r)" by simp
  show c: "contiguousFrom 1 (map eventToRow events)" "\<forall>e \<in> set events. eventSessionId (recordEvent e) = mappingId (stateMapping state)"
    using l by simp_all
  have b: "isBoundary (recordEvent b)" "boundaryAfter (recordEvent b) = None" "recordCursor b = 1"
    using e(2) by (auto simp: adoptionBoundary_def isBoundary_def boundaryAfter_def)
  show "logOk (map eventToRow events)" using c(1) real b e(1) by (simp add: logOk_def startOk_def list_all_iff)
  have "rowCursor (last (map eventToRow events)) = int (length events)" using contiguousFrom_last [OF c(1)] e(1) by simp
  moreover have "sum_list (map rowBytes (map eventToRow events)) = octets" using l by (simp add: comp_def)
  ultimately show "recordCountersOk (map eventToRow events) (stateProjection state)"
    using p b e(1) by (simp add: recordCountersOk_def)
  show "\<exists>b es. events = b # es \<and> adoptionBoundary member (recordEvent b)" using e by blast
qed

lemma adopting_Inr [simp]: "adopting r = Inr x \<longleftrightarrow> r = Inr x"
  by (cases r) (simp_all add: adopting_def)

lemma adopt_Inr:
  assumes "databaseOk db" "repositoryAdopt member state events db = Inr (res, db')"
  obtains member' events' where "databaseOk db'" "\<not> managed db (mappingId (stateMapping res))"
    "\<And>s. managed db' s \<longleftrightarrow> managed db s \<or> s = mappingId (stateMapping res)"
    "\<And>s. sessionEvents db' s = (if s = mappingId (stateMapping res) then map eventToRow events' else sessionEvents db s)"
    "assertNativeAdoptionProjection member' res events' = Inr ()"
proof -
  from assms(2) obtain member' events' db1 db2 db3 where p: "parseState state = Inr res"
    "assertNativeAdoptionProjection member' res events' = Inr ()"
    and r: "insertMapping (stateMapping res) db = Inr db1" "insertProjection (stateProjection res) db1 = Inr db2"
    "insertNativeMembership member' db2 = Inr db3" "insertEvents events' db3 = Inr db'"
    and id: "memberSession member' = mappingId (stateMapping res)"
    by (auto simp: repositoryAdopt_def parseNativeSessionAdoption_def adoptTransaction_def
        assertNativeAdoptionIdentity_def Let_def)
  let ?sid = "mappingId (stateMapping res)"
  note m = insertMapping_Inr [OF r(1)] and q = insertProjection_Inr [OF r(2)] and a = adoption_log [OF p(2)]
  have n: "db3 = db2\<lparr> membershipTable := membershipTable db2 @ [member'] \<rparr>"
    using r(3) by (auto simp: insertNativeMembership_def split: if_splits)
  have old: "sessionEvents db3 s = sessionEvents db s" for s by (simp add: n q m(1))
  note none = unmanaged_events [OF assms(1) m(2)]
  have ins: "sameTables db3 db'" "\<And>s. sessionEvents db' s = (if s = ?sid then map eventToRow events' else sessionEvents db s)"
    using insertEvents_log [OF r(4) a(3,4)] none by (simp_all add: old)
  have t: "sessionTable db' = sessionTable db @ [stateMapping res]"
    "projectionTable db' = projectionTable db @ [projectionToRow (stateProjection res)]"
    "membershipTable db' = membershipTable db @ [member']" using ins(1) by (simp_all add: sameTables_def n q m(1))
  have ok: "databaseOk db'"
    by (rule databaseOk_insert [OF assms(1) m(2) refl _ m(3,4) t(1,2) _ ins(2) a(1,2)])
      (use parseState_Inr [OF p(1)] t(3) id in auto)
  show thesis
    using ok m(2) ins(2) p(2) t(1) by (intro that [of events' member']) (auto simp: managed_def)
qed

lemma updateMapping_names:
  assumes "distinct (map mappingName ms)" "distinct (map mappingId ms)"
    "\<forall>m \<in> set ms. mappingId m = mappingId new \<or> mappingName m \<noteq> mappingName new"
  shows "distinct (map mappingName (map (updateMapping new) ms))"
  using assms
proof (induction ms)
  case (Cons m ms)
  have "mappingName (updateMapping new m) \<notin> mappingName ` updateMapping new ` set ms"
  proof
    assume "mappingName (updateMapping new m) \<in> mappingName ` updateMapping new ` set ms"
    then obtain k where k: "k \<in> set ms" "mappingName (updateMapping new m) = mappingName (updateMapping new k)" by auto
    from k(1) have "mappingId k \<in> mappingId ` set ms" "mappingName k \<in> mappingName ` set ms" by simp_all
    with Cons.prems(1,2) have "mappingId k \<noteq> mappingId m" "mappingName k \<noteq> mappingName m" by auto
    with k Cons.prems(3) show False by (auto simp: updateMapping_def split: if_splits)
  qed
  with Cons show ?case by (simp add: image_image)
qed simp

lemma writeReplacement_Inr:
  assumes "writeReplacement state db = Inr db'"
  shows "\<not> list_ex (\<lambda>m. mappingId m \<noteq> mappingId (stateMapping state) \<and> mappingName m = mappingName (stateMapping state)) (sessionTable db)"
    "db' = db\<lparr> sessionTable := map (updateMapping (stateMapping state)) (sessionTable db),
      projectionTable := map (\<lambda>r. if prSession r = sessionIdent (projectionSession (stateProjection state))
        then projectionToRow (stateProjection state) else r) (projectionTable db) \<rparr>"
  using assms by (auto simp: writeReplacement_def updateProjection_def Let_def split: option.splits if_splits)

lemma replace_Inr:
  assumes "databaseOk db" "repositoryReplace state revision db = Inr (res, db')"
  shows "databaseOk db'" "\<And>s. managed db' s \<longleftrightarrow> managed db s" "\<And>s. sessionEvents db' s = sessionEvents db s"
proof -
  from assms(2) obtain current where p: "parseState state = Inr res" "requireState db (mappingId (stateMapping res)) = Inr current"
    "assertImmutableMappingIdentity (stateMapping current) (stateMapping res) = Inr ()"
    "sameEventState (stateProjection res) (stateProjection current)"
    and w: "writeReplacement res db = Inr db'"
    by (auto simp: repositoryReplace_def replaceTransaction_def assertSafeStateReplacement_def)
  note n = writeReplacement_Inr(1) [OF w] and db' = writeReplacement_Inr(2) [OF w]
  let ?sid = "mappingId (stateMapping res)"
  note f = require_facts [OF assms(1) p(2)] and c = require_counters [OF assms(1) p(2)]
  have ids: "map mappingId (sessionTable db') = map mappingId (sessionTable db)"
    "map mappingThread (sessionTable db') = map mappingThread (sessionTable db)"
    by (simp_all add: db' updateMapping_def)
  have old: "distinct (map mappingName (sessionTable db))" "distinct (map mappingId (sessionTable db))"
    using assms(1) by (simp_all add: databaseOk_def)
  have names: "distinct (map mappingName (sessionTable db'))"
    using updateMapping_names [OF old] n by (auto simp: db' list_ex_iff)
  show "managed db' s \<longleftrightarrow> managed db s" for s using ids(1) by (simp add: managed_def)
  show ev: "sessionEvents db' s = sessionEvents db s" for s by (simp add: db')
  have s: "sessionIdent (projectionSession (stateProjection res)) = ?sid" using parseState_Inr [OF p(1)] by simp
  have "recordCountersOk (sessionEvents db ?sid) (stateProjection res)"
    using c p(4) by (simp add: recordCountersOk_def sameEventState_def)
  then show "databaseOk db'"
    by (intro databaseOk_update [OF assms(1) f(1) ids(1) names ids(2), where p = "stateProjection res" and rows = "sessionEvents db ?sid"])
      (use s f(4) ev in \<open>simp_all add: db'\<close>)
qed

lemma unmanage_Inr:
  assumes "databaseOk db" "unmanageAdopted sid revision db = Inr (res, db')"
  shows "databaseOk db'" "managed db sid" "\<And>s. managed db' s \<longleftrightarrow> managed db s \<and> s \<noteq> sid"
    "\<And>s. sessionEvents db' s = (if s = sid then [] else sessionEvents db s)"
proof -
  from assms(2) obtain state where r: "requireState db sid = Inr state"
    and db': "db' = deleteSession sid (db\<lparr> recoveryTable := filter (\<lambda>r. recoverySession r \<noteq> sid) (recoveryTable db) \<rparr>)"
    by (auto simp: unmanageAdopted_def unmanageAdoptedTransaction_def parseSessionIdArg_def Let_def
        dest: exact_identifiers split: option.splits)
  show "managed db sid" using require_facts(1) [OF assms(1) r] .
  show m: "managed db' s \<longleftrightarrow> managed db s \<and> s \<noteq> sid" for s by (auto simp: db' deleteSession_def managed_def)
  show ev: "sessionEvents db' s = (if s = sid then [] else sessionEvents db s)" for s
    by (auto simp: db' deleteSession_def sessionEvents_def filter_empty_conv intro!: arg_cong [where f = "sort_key rowCursor"] filter_cong)
  show "databaseOk db'"
    unfolding databaseOk_def
  proof (intro conjI ballI)
    fix p assume "p \<in> set (projectionTable db')"
    then have "p \<in> set (projectionTable db)" "prSession p \<noteq> sid" by (simp_all add: db' deleteSession_def)
    with projection_log [OF assms(1)] show "logOk (sessionEvents db' (prSession p))" "countersOk (sessionEvents db' (prSession p)) p"
      by (simp_all add: ev)
  qed (use assms(1) in \<open>auto simp: db' deleteSession_def databaseOk_def distinct_map_filter\<close>)
qed

end
