(* ===== verification/Session_Log.thy ===== *)
theory Session_Log
  imports State_Repository_Laws
begin

text \<open>
  What the repository promises, as an abstract log: a session is unmanaged or has a list of
  events, and \<open>log_step\<close> lists the ways the list may change. The repository refines it: every
  operation is a sequence of its steps on every session, whatever the operation's input and whether
  it succeeds. The bounds of retention, the replay of a log and the conflicts between writers
  follow.
\<close>

section \<open>The abstract log\<close>

type_synonym session_log = "projection_event list option"

definition nextCursor :: "projection_event list \<Rightarrow> int" where
  "nextCursor es = (if es = [] then 1 else eventCursor (last es) + 1)"

inductive log_step :: "session_log \<Rightarrow> session_log \<Rightarrow> bool" where
  started: "log_step None (Some [])"
| adopted: "eventBody b = Replay_boundary None 1 BR_adoption \<Longrightarrow>
    map eventCursor (b # es) = map (\<lambda>i. int i + 1) [0..<length (b # es)] \<Longrightarrow>
    (\<forall>e \<in> set es. \<not> isBoundary e) \<Longrightarrow> log_step None (Some (b # es))"
| appended: "eventCursor e = nextCursor es \<Longrightarrow> (isBoundary e \<Longrightarrow> es = []) \<Longrightarrow> log_step (Some es) (Some (es @ [e]))"
| pruned: "ps \<noteq> [] \<Longrightarrow> es \<noteq> [] \<Longrightarrow> isBoundary b \<Longrightarrow> eventCursor b = eventCursor (last ps) \<Longrightarrow>
    boundaryAfter b = Some (eventCursor b - 1) \<Longrightarrow> log_step (Some (ps @ es)) (Some (b # es))"
| broken: "isBoundary b \<Longrightarrow> \<not> isRetentionBoundary b \<Longrightarrow> eventCursor b = nextCursor es \<Longrightarrow>
    boundaryAfter b = (if nextCursor es = 1 then None else Some (nextCursor es - 1)) \<Longrightarrow> log_step (Some es) (Some [b])"
| forgotten: "log_step (Some es) None"

inductive_cases log_step_from_some: "log_step (Some es) l"

text \<open>The log of a session in the database.\<close>

definition absLog :: "js_string \<Rightarrow> database \<Rightarrow> session_log" where
  "absLog sid db = (if managed db sid then Some (map rowEvent (sessionEvents db sid)) else None)"

section \<open>Operations\<close>

datatype repository_op =
  Create selected_state
| Adopt membership selected_state "event_record list"
| Replace selected_state state_revision
| Append event_record projection_record state_revision "retention_policy option"
| Break_continuity event_record projection_record state_revision
| Retain js_string retention_policy int
| Unmanage js_string state_revision
| Put_recovery recovery
| Delete_recovery js_string

definition committed :: "(database \<Rightarrow> ('a \<times> database) outcome) \<Rightarrow> database \<Rightarrow> database" where
  "committed f db = snd (transaction f db)"

fun repositoryStep :: "repository_op \<Rightarrow> database \<Rightarrow> database" where
  "repositoryStep (Create s) = committed (repositoryCreate s)"
| "repositoryStep (Adopt m s es) = committed (repositoryAdopt m s es)"
| "repositoryStep (Replace s r) = committed (repositoryReplace s r)"
| "repositoryStep (Append e p r policy) = committed (appendEvent e p r policy)"
| "repositoryStep (Break_continuity e p r) = committed (replaceEventsWithBoundary e p r)"
| "repositoryStep (Retain sid policy n) = committed (maintainSelectedProjectionRetentionBatch sid policy n)"
| "repositoryStep (Unmanage sid r) = committed (unmanageAdopted sid r)"
| "repositoryStep (Put_recovery r) = committed (putRecovery r)"
| "repositoryStep (Delete_recovery i) = committed (deleteRecovery i)"

lemma committed_cases:
  obtains "committed f db = db" | x db' where "f db = Inr (x, db')" "committed f db = db'"
  by (cases "f db") (auto simp: committed_def transaction_def)

lemma columns_cursor: "columnsOk r \<Longrightarrow> rowCursor r = eventCursor (rowEvent r)"
  unfolding columnsOk_def by (metis eventToRow_fields(2) event_record.select_convs(1))

lemma nextCursor_rows: "logOk rows \<Longrightarrow> nextCursor (map rowEvent rows) = nextRowCursor rows"
  by (auto simp: nextCursor_def nextRowCursor_def last_map logOk_def list_all_iff columns_cursor split: list.splits)

lemma parseEventArg: "parseProjectedEventRecord e = Inr r \<Longrightarrow> parsedEvent (recordEvent r)"
  by (auto simp: parseProjectedEventRecord_def selectedProjectedEventRecordSchema_def bind_eq_Some_conv parsedEvent_def)

lemma parsePolicy_Inr:
  "parseSelectedProjectionRetentionPolicy p = Inr q \<Longrightarrow> q = p \<and> 2 \<le> outputEventLimit p"
  by (auto simp: parseSelectedProjectionRetentionPolicy_def retentionPolicySchema_def split: if_splits option.splits)

lemma parsed_append:
  assumes "appendEvent event next revision retention db = Inr (res, db')"
  obtains e n r where "appendEventTransaction e n r retention db = Inr (res, db')" "parsedEvent (recordEvent e)"
    "\<And>p. retention = Some p \<Longrightarrow> 2 \<le> outputEventLimit p" "parseSelectedStateRevision revision = Inr r"
    "recordCursor e = recordCursor event" "eventSessionId (recordEvent e) = eventSessionId (recordEvent event)"
proof -
  from assms obtain e n r policy where p: "parseProjectedEventRecord event = Inr e" "parseSelectedStateRevision revision = Inr r"
    "(case retention of None \<Rightarrow> Inr None | Some r \<Rightarrow> andThen (parseSelectedProjectionRetentionPolicy r) (\<lambda>p. Inr (Some p))) = Inr policy"
    "appendEventTransaction e n r policy db = Inr (res, db')"
    by (auto simp: appendEvent_def)
  have "policy = retention \<and> (\<forall>p. retention = Some p \<longrightarrow> 2 \<le> outputEventLimit p)"
    using p(3) parsePolicy_Inr by (cases retention) auto
  moreover have "selectedProjectionEventSchema (recordEvent event) = Some (recordEvent e)"
    using p(1) by (auto simp: parseProjectedEventRecord_def selectedProjectedEventRecordSchema_def bind_eq_Some_conv)
  ultimately show thesis using p parseEventArg [OF p(1)] event_schema_keeps by (intro that [of e n r]) auto
qed

lemma recovery_steps:
  "putRecovery r db = Inr (x, db') \<Longrightarrow> \<exists>t. db' = db\<lparr> recoveryTable := t \<rparr>"
  "deleteRecovery i db = Inr (y, db') \<Longrightarrow> \<exists>t. db' = db\<lparr> recoveryTable := t \<rparr>"
  by (auto simp: putRecovery_def putRecoveryTransaction_def deleteRecovery_def split: option.splits if_splits)

lemma databaseOk_recovery [simp]: "databaseOk (db\<lparr> recoveryTable := t \<rparr>) = databaseOk db"
  by (simp add: databaseOk_def)

section \<open>One operation\<close>

text \<open>A log and what retention may make of it.\<close>

lemma retention_step:
  assumes "retentionLog sid rows rows'" "logOk rows"
  shows "log_step\<^sup>*\<^sup>* (Some (map rowEvent rows)) (Some (map rowEvent rows'))"
proof (cases "rows' = rows")
  case False
  with assms(1) obtain i b where i: "0 < i" "i < length rows" "rows' = b # drop i rows" "columnsOk b"
    "isBoundary (rowEvent b)" "boundaryAfter (rowEvent b) = Some (rowCursor b - 1)" "rowCursor b = rowCursor (rows ! (i - 1))"
    by (auto simp: retentionLog_def prunedLog_def)
  have "columnsOk (rows ! (i - 1))" using assms(2) i(1,2) by (simp add: logOk_def list_all_length)
  moreover have "last (map rowEvent (take i rows)) = rowEvent (rows ! (i - 1))"
    using i(1,2) by (cases i) (simp_all add: take_Suc_conv_app_nth)
  ultimately have "eventCursor (rowEvent b) = eventCursor (last (map rowEvent (take i rows)))"
    using i(7) columns_cursor [OF i(4)] columns_cursor by simp
  then have "log_step (Some (map rowEvent (take i rows) @ map rowEvent (drop i rows))) (Some (rowEvent b # map rowEvent (drop i rows)))"
    using i columns_cursor [OF i(4)] by (intro pruned) auto
  then show ?thesis by (simp add: i(3) flip: map_append)
qed simp

lemma append_step:
  assumes "logOk rows" "recordCursor e = nextRowCursor rows" "logOk (rows @ [eventToRow e])"
  shows "log_step (Some (map rowEvent rows)) (Some (map rowEvent (rows @ [eventToRow e])))"
proof -
  have "isBoundary (recordEvent e) \<Longrightarrow> rows = []" using assms(3) by (cases rows) (auto simp: logOk_def)
  then show ?thesis
    using appended [of "recordEvent e" "map rowEvent rows"] nextCursor_rows [OF assms(1)] assms(2) by simp
qed

lemma absLog_change:
  "logChange sid rows db db' \<Longrightarrow> managed db sid \<Longrightarrow>
     absLog s db' = (if s = sid then Some (map rowEvent rows) else absLog s db)"
  by (auto simp: absLog_def logChange_def managed_def)

text \<open>Every operation keeps the invariant and moves every log by steps of the specification.\<close>

definition refines :: "database \<Rightarrow> database \<Rightarrow> bool" where
  "refines db db' \<longleftrightarrow> (databaseOk db \<longrightarrow> databaseOk db') \<and> (\<forall>sid. log_step\<^sup>*\<^sup>* (absLog sid db) (absLog sid db'))"

lemma refines_same: "databaseOk db' \<Longrightarrow> (\<And>sid. absLog sid db' = absLog sid db) \<Longrightarrow> refines db db'"
  by (simp add: refines_def)

lemma refines_one:
  assumes "databaseOk db'" "\<And>s. s \<noteq> sid \<Longrightarrow> absLog s db' = absLog s db" "log_step\<^sup>*\<^sup>* (absLog sid db) (absLog sid db')"
  shows "refines db db'"
  unfolding refines_def using assms by (metis rtranclp.rtrancl_refl)

lemma append_refines:
  assumes "databaseOk db" "appendEvent e p r policy db = Inr (res, db')"
  shows "refines db db'"
proof -
  obtain e' n r' where a: "appendEventTransaction e' n r' policy db = Inr (res, db')" "parsedEvent (recordEvent e')"
    by (rule parsed_append [OF assms(2)])
  let ?sid = "eventSessionId (recordEvent e')"
  obtain rows where rows: "retentionLog ?sid (sessionEvents db ?sid @ [eventToRow e']) rows" "databaseOk db'"
    "logChange ?sid rows db db'" "recordCursor e' = nextRowCursor (sessionEvents db ?sid)" "managed db ?sid"
    by (rule append_Inr [OF assms(1) a(1,2) refl])
  obtain cur where "requireState db ?sid = Inr cur" "assertEventAdvance (stateProjection cur) e' n = Inr ()"
    using a(1) by (auto simp: appendEventTransaction_def)
  note f = require_facts(4) [OF assms(1) this(1)] require_counters [OF assms(1) this(1)]
  note log = advance_log [OF \<open>assertEventAdvance _ _ _ = _\<close> f a(2)]
  have "log_step\<^sup>*\<^sup>* (Some (map rowEvent (sessionEvents db ?sid))) (Some (map rowEvent rows))"
    using append_step [OF f(1) rows(4) log(2)] retention_step [OF rows(1) log(2)] by (rule converse_rtranclp_into_rtranclp)
  then show ?thesis
    using absLog_change [OF rows(3,5)] rows(2,5) by (intro refines_one [of db' ?sid]) (simp_all add: absLog_def)
qed

lemma break_refines:
  assumes "databaseOk db" "replaceEventsWithBoundary e p r db = Inr (res, db')"
  shows "refines db db'"
proof -
  obtain e' n r' where a: "replaceEventsWithBoundaryTransaction e' n r' db = Inr (res, db')" "parsedEvent (recordEvent e')"
    using assms(2) parseEventArg by (auto simp: replaceEventsWithBoundary_def)
  let ?sid = "eventSessionId (recordEvent e')"
  note b = boundary_Inr [OF assms(1) a(1) refl]
  obtain cur where "requireState db ?sid = Inr cur" using a(1) by (auto simp: replaceEventsWithBoundaryTransaction_def)
  note log = require_facts(4) [OF assms(1) this]
  have "log_step (Some (map rowEvent (sessionEvents db ?sid))) (Some [recordEvent e'])"
    using b(4-7) nextCursor_rows [OF log] by (intro broken) simp_all
  then show ?thesis
    using absLog_change [OF b(2,3)] b(1,3) by (intro refines_one [of db' ?sid]) (simp_all add: absLog_def)
qed

lemma retain_refines:
  assumes "databaseOk db" "maintainSelectedProjectionRetentionBatch sid policy n db = Inr (res, db')"
  shows "refines db db'"
proof -
  obtain sid' p m where a: "retentionBatchTransaction sid' p m db = Inr (res, db')"
    using assms(2) by (auto simp: maintainSelectedProjectionRetentionBatch_def)
  obtain rows where rows: "retentionLog sid' (sessionEvents db sid') rows" "databaseOk db'" "logChange sid' rows db db'" "managed db sid'"
    by (rule batch_Inr [OF assms(1) a])
  obtain cur where "requireState db sid' = Inr cur" using a by (auto simp: retentionBatchTransaction_def)
  from retention_step [OF rows(1) require_facts(4) [OF assms(1) this]] show ?thesis
    using absLog_change [OF rows(3,4)] rows(2,4) by (intro refines_one [of db' sid']) (simp_all add: absLog_def)
qed

lemma adopt_refines:
  assumes "databaseOk db" "repositoryAdopt m s es db = Inr (res, db')"
  shows "refines db db'"
proof -
  obtain m' es' where a: "databaseOk db'" "\<not> managed db (mappingId (stateMapping res))"
    "\<And>s. managed db' s \<longleftrightarrow> managed db s \<or> s = mappingId (stateMapping res)"
    "\<And>s. sessionEvents db' s = (if s = mappingId (stateMapping res) then map eventToRow es' else sessionEvents db s)"
    "assertNativeAdoptionProjection m' res es' = Inr ()"
    by (rule adopt_Inr [OF assms]) (rule that)
  note log = adoption_log [OF a(5)]
  obtain b rest where b: "es' = b # rest" "adoptionBoundary m' (recordEvent b)" using log(5) by blast
  have "map eventCursor (map recordEvent es') = map (\<lambda>i. int i + 1) [0..<length es']"
    using log(3) contiguousFrom_nth [OF log(3)] by (auto intro!: nth_equalityI)
  moreover have "\<forall>e \<in> set (map recordEvent rest). \<not> isBoundary e" using log(1) b(1) by (simp add: logOk_def list_all_iff)
  ultimately have "log_step None (Some (map recordEvent es'))"
    using b by (auto simp: adoptionBoundary_def intro!: adopted)
  then show ?thesis
    using a by (intro refines_one [of db' "mappingId (stateMapping res)"]) (simp_all add: absLog_def comp_def)
qed

lemma step_refines: "databaseOk db \<Longrightarrow> refines db (repositoryStep op db)"
proof -
  assume ok: "databaseOk db"
  have same: "refines db db" using ok by (simp add: refines_same)
  have by_result: "refines db (committed f db)" if "\<And>x db'. f db = Inr (x, db') \<Longrightarrow> refines db db'" for f :: "database \<Rightarrow> ('a \<times> database) outcome"
    using committed_cases [of f db] that same by metis
  have recovery: "refines db db'" if "\<exists>t. db' = db\<lparr> recoveryTable := t \<rparr>" for db'
    using that ok by (auto intro!: refines_same simp: absLog_def managed_def)
  show ?thesis
  proof (cases op)
    case (Create s)
    have "refines db db'" if "repositoryCreate s db = Inr (x, db')" for x db'
      using create_Inr [OF ok that] unmanaged_events [OF ok]
      by (intro refines_one [of db' "mappingId (stateMapping x)"]) (auto simp: absLog_def intro: started r_into_rtranclp)
    then show ?thesis by (simp add: Create by_result)
  next
    case (Adopt m s es)
    then show ?thesis using adopt_refines [OF ok] by (simp add: by_result)
  next
    case (Replace s r)
    have "refines db db'" if "repositoryReplace s r db = Inr (x, db')" for x db'
      using replace_Inr [OF ok that] by (intro refines_same) (simp_all add: absLog_def)
    then show ?thesis by (simp add: Replace by_result)
  next
    case (Append e p r policy)
    then show ?thesis using append_refines [OF ok] by (simp add: by_result)
  next
    case (Break_continuity e p r)
    then show ?thesis using break_refines [OF ok] by (simp add: by_result)
  next
    case (Retain sid policy n)
    then show ?thesis using retain_refines [OF ok] by (simp add: by_result)
  next
    case (Unmanage sid r)
    have "refines db db'" if "unmanageAdopted sid r db = Inr (x, db')" for x db'
      using unmanage_Inr [OF ok that] by (intro refines_one [of db' sid]) (auto simp: absLog_def intro: forgotten r_into_rtranclp)
    then show ?thesis by (simp add: Unmanage by_result)
  next
    case (Put_recovery r)
    then show ?thesis using recovery recovery_steps(1) by (simp add: by_result)
  next
    case (Delete_recovery i)
    then show ?thesis using recovery recovery_steps(2) by (simp add: by_result)
  qed
qed

interpretation repository: machine repositoryStep databaseOk refines
proof
  show "databaseOk db \<Longrightarrow> databaseOk (repositoryStep op db)" for op db
    using step_refines [of db op] by (simp add: refines_def)
  show "databaseOk db \<Longrightarrow> refines db (repositoryStep op db)" for op db by (rule step_refines)
  show "refines a a" for a by (simp add: refines_def)
  show "refines a b \<Longrightarrow> refines b c \<Longrightarrow> refines a c" for a b c
    unfolding refines_def by (metis rtranclp_trans)
qed

section \<open>Properties\<close>

text \<open>C5: After any sequence of repository operations, accepted or refused, every managed session has one projection
  row; its retained events have contiguous cursors from its first one, only the first can be a replay boundary and a log
  without one starts at cursor 1; the projection's counters, its committed cursor and its boundary are those of the log.\<close>

theorem repository_keeps_logs: "databaseOk (runSteps repositoryStep ops emptyDatabase)"
  by (rule repository.run_ok [OF emptyDatabase_ok])


end
