(* ===== verification/Retention_Bounds.thy ===== *)
theory Retention_Bounds
  imports Session_Log
begin

text \<open>
  What retention guarantees of the projection it commits: the event limit always, and the byte
  limit except where one event alone exceeds it or where nothing but an older boundary could be
  dropped.
\<close>

section \<open>The loop's bounds\<close>

lemma retainLoop_bounds:
  "retainLoop sid policy retained bytes cands = Inr (ret, octets) \<Longrightarrow> int (length retained) \<le> outputEventLimit policy - 1 \<Longrightarrow>
     int (length ret) \<le> outputEventLimit policy - 1 \<and>
     (ret = retained \<or> 1 < recordCursor (last ret) \<and>
      (\<exists>b. createRetentionBoundaryRecord sid (recordCursor (last ret) - 1) (recordCapture (last ret)) = Inr b \<and>
         recordBytes b + octets \<le> outputByteLimit policy))"
proof (induction cands arbitrary: retained bytes)
  case (Cons c cs)
  show ?case
  proof (cases "retained = ret \<and> bytes = octets")
    case True with Cons.prems show ?thesis by simp
  next
    case False
    then obtain b where r: "retainLoop sid policy (retained @ [c]) (bytes + recordBytes c) cs = Inr (ret, octets)"
      "createRetentionBoundaryRecord sid (recordCursor c - 1) (recordCapture c) = Inr b"
      "recordBytes b + bytes + recordBytes c \<le> outputByteLimit policy" "1 < recordCursor c" "int (length retained) < outputEventLimit policy - 1"
      using Cons.prems(1) by (auto split: if_splits)
    have "octets = bytes + recordBytes c" if "ret = retained @ [c]"
      using retainLoop_Inr [OF r(1)] that by auto
    with Cons.IH [OF r(1)] r show ?thesis by (cases "ret = retained @ [c]") auto
  qed
qed simp

section \<open>The committed projection\<close>

text \<open>The bytes of a log's events, without its boundary.\<close>

definition realBytes :: "event_row list \<Rightarrow> int" where
  "realBytes rows = sum_list (map rowBytes (filter (\<lambda>r. \<not> isBoundary (rowEvent r)) rows))"

definition withinPolicy :: "retention_policy \<Rightarrow> event_row list \<Rightarrow> bool" where
  "withinPolicy policy rows \<longleftrightarrow>
     int (length rows) \<le> outputEventLimit policy \<and>
     (sum_list (map rowBytes rows) \<le> outputByteLimit policy \<or> length rows \<le> 2 \<or> realBytes rows \<le> outputByteLimit policy)"

lemma real_rows:
  assumes "mapAll parseEventRow rows = Inr recs" "logOk rows"
  shows "map recordBytes (filter realRecord recs) = map rowBytes (filter (\<lambda>r. \<not> isBoundary (rowEvent r)) rows)"
    "length rows \<le> Suc (length (filter realRecord recs))"
proof -
  from assms(1) have l: "list_all2 (\<lambda>x y. parseEventRow x = Inr y) rows recs" by (simp add: mapAll_Inr)
  have "\<forall>r \<in> set rows. columnsOk r" using assms(2) by (simp add: logOk_def list_all_iff)
  with l show "map recordBytes (filter realRecord recs) = map rowBytes (filter (\<lambda>r. \<not> isBoundary (rowEvent r)) rows)"
    by (induction rule: list_all2_induct) (auto simp: parseEventRow_Inr(1,3))
  note k = records_of_log [OF assms]
  have "filter realRecord (tl recs) = tl recs" using k(4) by (simp add: filter_id_conv list_all_iff)
  then have "length recs \<le> Suc (length (filter realRecord recs))" by (cases recs) auto
  with k(1) show "length rows \<le> Suc (length (filter realRecord recs))" by simp
qed

lemma finish_None:
  "finishRetentionPlan sid reals retained bytes = Inr plan \<Longrightarrow> planBoundary plan = None \<Longrightarrow> recordCursor (last retained) \<le> 1"
  by (auto simp: finishRetentionPlan_def Let_def split: if_splits)

lemma plan_step:
  assumes "planSelectedProjectionRetention records p policy = Inr plan" "\<not> projectionMeetsRetention p policy"
  obtains newest where "filter realRecord records = [newest]"
  | newest second rest n where "filter realRecord records = newest # second # rest"
    "n \<le> length (second # rest)"
    "retainLoop (sessionIdent (projectionSession p)) policy [newest] (recordBytes newest) (second # rest) =
       Inr (newest # take n (second # rest), sum_list (map recordBytes (newest # take n (second # rest))))"
    "finishRetentionPlan (sessionIdent (projectionSession p)) (newest # second # rest) (newest # take n (second # rest))
       (sum_list (map recordBytes (newest # take n (second # rest)))) = Inr plan"
proof (cases "filter realRecord records" rule: remdups_adj.cases)
  case 1
  with assms show thesis by (auto simp: planSelectedProjectionRetention_def Let_def)
next
  case (2 x)
  then show thesis by (rule that(1))
next
  case (3 newest second rest)
  obtain ret octets where loop: "retainLoop (sessionIdent (projectionSession p)) policy [newest] (recordBytes newest) (second # rest) = Inr (ret, octets)"
    and fin: "finishRetentionPlan (sessionIdent (projectionSession p)) (newest # second # rest) ret octets = Inr plan"
    using assms by (auto simp: planSelectedProjectionRetention_def Let_def 3 split: prod.splits simp del: retainLoop.simps)
  from retainLoop_Inr [OF loop] obtain n where n: "n \<le> length (second # rest)" "ret = newest # take n (second # rest)"
    "octets = sum_list (map recordBytes (newest # take n (second # rest)))" by auto
  show thesis by (rule that(2) [OF 3 n(1) loop [unfolded n(2,3)] fin [unfolded n(2,3)]])
qed

lemma newest_first_cursor:
  assumes "mapAll parseEventRow (rev rows) = Inr records" "logOk rows" "k < length records"
  shows "recordCursor (records ! k) = rowCursor (hd rows) + int (length rows) - 1 - int k" "length records = length rows"
proof -
  note m = records_of_log [OF mapAll_rev [OF assms(1)] assms(2)]
  show l: "length records = length rows" using m(1) by simp
  then have rows: "rows \<noteq> []" using assms(3) by auto
  have "map (\<lambda>r. recordCursor r) records = rev (map rowCursor rows)" using m(3) by (metis rev_map rev_rev_ident)
  then have "recordCursor (records ! k) = rev (map rowCursor rows) ! k" using assms(3) by (metis nth_map)
  also have "\<dots> = rowCursor (rows ! (length rows - 1 - k))" using assms(3) l by (simp add: rev_nth)
  finally show "recordCursor (records ! k) = rowCursor (hd rows) + int (length rows) - 1 - int k"
    using contiguousFrom_nth [OF logOk_contiguous [OF assms(2) rows], of "length rows - 1 - k"] assms(3) l
    by (simp add: of_nat_diff)
qed

lemma boundaryBytes_pos: "createRetentionBoundaryRecord sid c captured = Inr b \<Longrightarrow> 0 < recordBytes b"
  by (auto simp: createRetentionBoundaryRecord_def selectedProjectedEventByteLength_def eventBytes_pos)

lemma kept_within:
  assumes "mapAll parseEventRow (rev rows) = Inr records" "logOk rows"
    "planSelectedProjectionRetention records p policy = Inr plan" "\<not> projectionMeetsRetention p policy"
    "\<And>b. planBoundary plan = Some b \<Longrightarrow> planRemovable plan = []" "2 \<le> outputEventLimit policy"
  shows "withinPolicy policy rows"
proof -
  note asc = mapAll_rev [OF assms(1)]
  note real = real_rows [OF asc assms(2)]
  have prefix: "filter realRecord records = take (length (filter realRecord records)) records"
    using filter_real [OF records_of_log(4) [OF asc assms(2)]] by (simp add: rev_filter [symmetric])
  from assms(3,4) show ?thesis
  proof (rule plan_step)
    fix newest assume "filter realRecord records = [newest]"
    with real(2) have "length rows \<le> 2" by (simp add: rev_filter [symmetric])
    with assms(6) show ?thesis by (simp add: withinPolicy_def)
  next
    fix newest second :: event_record and rest n
    let ?reals = "newest # second # rest" and ?ret = "newest # take n (second # rest)"
    assume reals: "filter realRecord records = ?reals" and n: "n \<le> length (second # rest)"
      and loop: "retainLoop (sessionIdent (projectionSession p)) policy [newest] (recordBytes newest) (second # rest) =
        Inr (?ret, sum_list (map recordBytes ?ret))"
      and fin: "finishRetentionPlan (sessionIdent (projectionSession p)) ?reals ?ret (sum_list (map recordBytes ?ret)) = Inr plan"
    have cursorAt: "k < length ?reals \<Longrightarrow> k < length records \<and> recordCursor (?reals ! k) = rowCursor (hd rows) + int (length rows) - 1 - int k" for k
    proof -
      assume k: "k < length ?reals"
      have len: "length ?reals \<le> length records" using length_filter_le [of realRecord records] reals by simp
      have "?reals ! k = records ! k" using prefix k unfolding reals by (metis nth_take)
      with newest_first_cursor(1) [OF assms(1,2), of k] k len show ?thesis by simp
    qed
    note bounds = retainLoop_bounds [OF loop]
    have final: "last ?ret = ?reals ! n" using n by (cases n) (auto simp: last_conv_nth min_def)
    have start: "1 \<le> rowCursor (hd rows)" "2 \<le> length rows"
      using assms(2) cursorAt [of 1] newest_first_cursor(2) [OF assms(1,2), of 1] by (auto simp: logOk_def split: list.splits)
    obtain b where b: "planBoundary plan = Some b"
    proof (cases "planBoundary plan")
      case None
      from finish_None [OF fin None] have "recordCursor (last ?ret) \<le> 1" .
      moreover from this bounds assms(6) have "?ret = [newest]" by auto
      ultimately show thesis using cursorAt [of 0] start by simp
    qed (use that in blast)
    note f = finish_Inr [OF fin b]
    have all: "n = length (second # rest)"
    proof (rule ccontr)
      assume "n \<noteq> length (second # rest)"
      with n have k: "Suc n < length ?reals" by simp
      have "recordCursor (?reals ! Suc n) = recordCursor b"
        using cursorAt [OF k] cursorAt [of n] k final createRetentionBoundaryRecord_Inr(1) [OF f(2)] by simp
      moreover have "?reals ! Suc n \<in> set ?reals" using k by (rule nth_mem)
      moreover have "\<forall>x \<in> set ?reals. \<not> recordCursor x \<le> recordCursor b"
        using assms(5) [OF b] f(5) by (simp only: filter_empty_conv set_rev)
      ultimately show False by fastforce
    qed
    then have ret: "?ret = ?reals" by simp
    have len: "int (length [newest]) \<le> outputEventLimit policy - 1" using assms(6) by simp
    have more: "?ret \<noteq> [newest]" using ret by simp
    obtain b' where b': "int (length ?ret) \<le> outputEventLimit policy - 1"
      "createRetentionBoundaryRecord (sessionIdent (projectionSession p)) (recordCursor (last ?ret) - 1) (recordCapture (last ?ret)) = Inr b'"
      "recordBytes b' + sum_list (map recordBytes ?ret) \<le> outputByteLimit policy"
      using bounds [OF len] more by blast
    have c: "int (length ?reals) \<le> outputEventLimit policy - 1" "sum_list (map recordBytes ?reals) \<le> outputByteLimit policy"
      using b'(1,3) boundaryBytes_pos [OF b'(2)] unfolding ret by linarith+
    have "sum_list (map recordBytes (filter realRecord (rev records))) = sum_list (map recordBytes ?reals)"
      using reals by (metis rev_filter rev_map sum_list_rev)
    with c real show ?thesis by (auto simp: withinPolicy_def realBytes_def reals rev_filter [symmetric])
  qed
qed

lemma plan_bounds:
  assumes "planSelectedProjectionRetention records next policy = Inr plan" "planBoundary plan = Some b" "2 \<le> outputEventLimit policy"
  shows "int (length (planRetained plan)) \<le> outputEventLimit policy - 1 \<and>
    (length (planRetained plan) = 1 \<or> planBytes plan + recordBytes b \<le> outputByteLimit policy)"
proof -
  have no: "\<not> projectionMeetsRetention next policy"
    using assms(1,2) by (auto simp: planSelectedProjectionRetention_def Let_def)
  from assms(1) no show ?thesis
  proof (rule plan_step)
    fix newest assume "filter realRecord records = [newest]"
    with assms(1,2) no show ?thesis by (auto simp: planSelectedProjectionRetention_def Let_def)
  next
    fix newest second :: event_record and rest n
    let ?ret = "newest # take n (second # rest)"
    assume loop: "retainLoop (sessionIdent (projectionSession next)) policy [newest] (recordBytes newest) (second # rest) =
        Inr (?ret, sum_list (map recordBytes ?ret))"
      and fin: "finishRetentionPlan (sessionIdent (projectionSession next)) (newest # second # rest) ?ret (sum_list (map recordBytes ?ret)) = Inr plan"
    note f = finish_Inr [OF fin assms(2)]
    have len: "int (length [newest]) \<le> outputEventLimit policy - 1" using assms(3) by simp
    from retainLoop_bounds [OF loop len] f(2) show ?thesis unfolding f(3,4) by auto
  qed
qed

lemma executed_within:
  assumes "planSelectedProjectionRetention records next policy = Inr plan" "planBoundary plan = Some b"
    "executeRetentionPlan next plan b db = Inr (p, db')" "2 \<le> outputEventLimit policy" "recordCountersOk rows p"
  shows "withinPolicy policy rows"
proof -
  have p: "retainedCount p = int (length (planRetained plan)) + 1" "retainedBytes p = planBytes plan + recordBytes b"
    using execute_Inr(2) [OF assms(3)] projection_schema_keeps by (auto simp: parseProjection_def)
  show ?thesis using plan_bounds [OF assms(1,2,4)] p assms(5) by (auto simp: withinPolicy_def recordCountersOk_def)
qed

lemma retention_within:
  assumes "applySelectedProjectionRetention next policy db = Inr (p, db')" "sessionIdent (projectionSession next) = sid"
    "logOk (sessionEvents db sid)" "recordCountersOk (sessionEvents db sid) next" "2 \<le> outputEventLimit policy"
  shows "withinPolicy policy (sessionEvents db' sid)"
proof -
  obtain rows where rows: "recordCountersOk rows p" "\<And>s. sessionEvents db' s = (if s = sid then rows else sessionEvents db s)"
    by (rule retention_Inr [OF assms(1-4)]) (rule that)
  show ?thesis
  proof (cases "projectionMeetsRetention next policy")
    case True
    then have "p = next" "db' = db" using assms(1) by (simp_all add: applySelectedProjectionRetention_def)
    with True assms(4) show ?thesis by (simp add: withinPolicy_def projectionMeetsRetention_def recordCountersOk_def)
  next
    case False
    then obtain records plan where r: "mapAll parseEventRow (rev (sessionEvents db sid)) = Inr records"
      "planSelectedProjectionRetention records next policy = Inr plan"
      and e: "(case planBoundary plan of None \<Rightarrow> Inr (next, db)
        | Some boundary \<Rightarrow> if planRemovable plan = [] then Inr (next, db) else executeRetentionPlan next plan boundary db) = Inr (p, db')"
      using assms(1,2) by (auto simp: applySelectedProjectionRetention_def)
    show ?thesis
    proof (cases "\<exists>b. planBoundary plan = Some b \<and> planRemovable plan \<noteq> []")
      case True
      with e obtain b where b: "planBoundary plan = Some b" "executeRetentionPlan next plan b db = Inr (p, db')" by auto
      from executed_within [OF r(2) b(1,2) assms(5) rows(1)] rows(2) show ?thesis by simp
    next
      case none: False
      then have "db' = db" using e by (auto split: option.splits)
      moreover have "withinPolicy policy (sessionEvents db sid)"
        by (rule kept_within [OF r(1) assms(3) r(2) False _ assms(5)]) (use none in blast)
      ultimately show ?thesis by simp
    qed
  qed
qed

end
