(* ===== verification/Repository_Readable.thy ===== *)
theory Repository_Readable
  imports Session_Log
begin

text \<open>
  What the repository writes it can read back: every stored row passes the checks that reading it
  makes, so that a read of a managed session never fails. An event is parsed twice before it is
  written (once more for its byte length), which leaves it in normal form. A session is parsed once:
  its timestamps have to be in normal form when they are given, which \<open>normalOp\<close> states.
\<close>

section \<open>Stored events\<close>

lemma iso_twice: "isoTimestampSchema s = Some t \<Longrightarrow> isoTimestampSchema t = Some u \<Longrightarrow> u = t"
  using parse_twice by (auto simp: isoTimestampSchema_def brandedStringSchema_iff)

lemma exact_runtime_ids:
  "codexItemIdSchema s = Some t \<Longrightarrow> t = s" "codexTurnIdSchema s = Some t \<Longrightarrow> t = s" "runtimeRequestIdSchema s = Some t \<Longrightarrow> t = s"
  by (auto simp: codexItemIdSchema_def codexTurnIdSchema_def runtimeRequestIdSchema_def brandedStringSchema_iff
      parseCodexItemId_def parseCodexTurnId_def parseRuntimeRequestId_def parseOpaqueRuntimeId_Inr)

lemma nullable_twice:
  assumes "\<And>x y z. f x = Some y \<Longrightarrow> f y = Some z \<Longrightarrow> z = y" "nullable f v = Some w" "nullable f w = Some u"
  shows "u = w"
  using assms by (cases v) auto

lemma nullable_exact:
  assumes "\<And>x y. f x = Some y \<Longrightarrow> y = x" "nullable f v = Some w"
  shows "w = v"
  using assms by (cases v) auto

lemma exact_bodies:
  "nullable codexItemIdSchema v = Some w \<Longrightarrow> w = v" "nullable turnErrorSchema err = Some err' \<Longrightarrow> err' = err"
  by (erule nullable_exact [rotated], auto simp: turnErrorSchema_def bind_eq_Some_conv dest: exact_runtime_ids)+

lemma nullable_iso_twice: "nullable isoTimestampSchema v = Some w \<Longrightarrow> nullable isoTimestampSchema w = Some u \<Longrightarrow> u = w"
  using iso_twice by (cases v) auto

lemma body_exact: "eventBodySchema c b = Some b' \<Longrightarrow> \<nexists>r s a sc re ri e d. b = Approval r s a sc re ri e d \<Longrightarrow> b' = b"
  by (cases b) (auto simp: eventBodySchema_def bind_eq_Some_conv nullable_bounded dest: exact_bodies exact_runtime_ids)

lemma approval_body:
  assumes "eventBodySchema c (Approval r s a sc re ri e d) = Some b"
  obtains e' where "b = Approval r s a sc re ri e' d" "nullable isoTimestampSchema e = Some e'"
  using assms by (auto simp: eventBodySchema_def bind_eq_Some_conv nullable_bounded dest: exact_runtime_ids)

lemma body_twice:
  assumes "eventBodySchema c b = Some b'" "eventBodySchema c b' = Some b''"
  shows "b'' = b'"
proof (cases "\<exists>r s a sc re ri e d. b = Approval r s a sc re ri e d")
  case True
  then obtain r s a sc re ri e d where "b = Approval r s a sc re ri e d" by blast
  with assms show ?thesis by (auto elim!: approval_body dest: nullable_iso_twice)
next
  case False
  then have "b' = b" using body_exact [OF assms(1)] by blast
  with assms show ?thesis by simp
qed

lemma event_twice:
  assumes "selectedProjectionEventSchema e = Some e'" "selectedProjectionEventSchema e' = Some e''"
  shows "e'' = e'"
proof -
  obtain s c u i k n b where e': "e' = e\<lparr> eventSessionId := s, capturedAt := c, upstreamAt := u, codexEventId := i,
      codexEventType := k, contentNotice := n, eventBody := b \<rparr>"
    and p: "sessionIdSchema (eventSessionId e) = Some s" "isoTimestampSchema (capturedAt e) = Some c"
      "nullable isoTimestampSchema (upstreamAt e) = Some u" "eventBodySchema (eventCursor e) (eventBody e) = Some b"
    using assms(1) unfolding selectedProjectionEventSchema_def bind_eq_Some_conv by (elim exE conjE) (simp only: option.inject, metis)
  obtain s2 c2 u2 i2 k2 n2 b2 where e'': "e'' = e'\<lparr> eventSessionId := s2, capturedAt := c2, upstreamAt := u2, codexEventId := i2,
      codexEventType := k2, contentNotice := n2, eventBody := b2 \<rparr>"
    and q: "sessionIdSchema (eventSessionId e') = Some s2" "isoTimestampSchema (capturedAt e') = Some c2"
      "nullable isoTimestampSchema (upstreamAt e') = Some u2" "eventBodySchema (eventCursor e') (eventBody e') = Some b2"
      "i2 = codexEventId e'" "k2 = codexEventType e'" "n2 = contentNotice e'"
    using assms(2) unfolding selectedProjectionEventSchema_def bind_eq_Some_conv nullable_bounded
    by (elim exE conjE) (simp only: option.inject, metis)
  have same: "s2 = s" "c2 = c" "u2 = u" "b2 = b"
    using p q(1-4) exact_identifiers(1) [of s s2] iso_twice [of "capturedAt e" c c2] nullable_iso_twice [of "upstreamAt e" u u2]
      body_twice [of "eventCursor e" "eventBody e" b b2] by (simp_all add: e')
  show ?thesis using q(5-7) by (simp add: e'' e' same)
qed

definition checkedRecord :: "event_record \<Rightarrow> bool" where
  "checkedRecord r \<longleftrightarrow> eventOk (recordEvent r) \<and> recordBytes r = eventBytes (recordEvent r)"

lemma byteLength_checked:
  assumes "selectedProjectionEventSchema e = Some (recordEvent r)"
  shows "assertEventByteLength r = Inr () \<longleftrightarrow> checkedRecord r"
  using event_twice [OF assms]
  by (auto simp: assertEventByteLength_def selectedProjectedEventByteLength_def checkedRecord_def event_kept_iff [symmetric])

lemma parse_checked: "parseProjectedEventRecord e = Inr r \<Longrightarrow> assertEventByteLength r = Inr () \<Longrightarrow> checkedRecord r"
  using byteLength_checked
  by (auto simp: parseProjectedEventRecord_def selectedProjectedEventRecordSchema_def bind_eq_Some_conv)

lemma boundary_checked:
  assumes "createRetentionBoundaryRecord sid c t = Inr b"
  shows "checkedRecord b"
proof -
  obtain e e' where "selectedProjectionEventSchema (retentionBoundaryEvent sid c t) = Some e"
    "selectedProjectionEventSchema e = Some e'" "b = \<lparr> recordEvent = e, recordBytes = eventBytes e' \<rparr>"
    using assms by (auto simp: createRetentionBoundaryRecord_def selectedProjectedEventByteLength_def)
  moreover from event_twice [OF this(1,2)] have "e' = e" .
  ultimately show ?thesis by (simp add: checkedRecord_def event_kept_iff [symmetric])
qed

lemma checked_parse: "checkedRecord r \<Longrightarrow> parseProjectedEventRecord r = Inr r \<and> assertEventByteLength r = Inr ()"
  using eventBytes_pos [of "recordEvent r"] eventBytes_bound [of "recordEvent r"] record_kept_iff [of r]
    event_kept_iff [of "recordEvent r"]
  by (simp add: checkedRecord_def parseProjectedEventRecord_def maxEventBytes_def assertEventByteLength_def
      selectedProjectedEventByteLength_def)

definition rowReadable :: "event_row \<Rightarrow> bool" where
  "rowReadable r \<longleftrightarrow> columnsOk r \<and> eventOk (rowEvent r) \<and> rowBytes r = eventBytes (rowEvent r)"

abbreviation rowRecord :: "event_row \<Rightarrow> event_record" where
  "rowRecord r \<equiv> \<lparr> recordEvent = rowEvent r, recordBytes = rowBytes r \<rparr>"

lemma rowReadable_record: "rowReadable r \<Longrightarrow> checkedRecord (rowRecord r)"
  by (simp add: rowReadable_def checkedRecord_def)

lemma checked_row: "checkedRecord r \<Longrightarrow> rowReadable (eventToRow r)"
  by (simp add: rowReadable_def checkedRecord_def eventToRow_def Let_def columnsOk_def)

lemma readable_parse:
  assumes "rowReadable r"
  shows "parseEventRow r = Inr (rowRecord r)"
proof -
  have r: "r = eventToRow (rowRecord r)" using assms unfolding rowReadable_def columnsOk_def by blast
  have "rowSession r = eventSessionId (rowEvent r) \<and> rowCursor r = eventCursor (rowEvent r) \<and>
      rowType r = eventType (eventBody (rowEvent r)) \<and> rowEventId r = codexEventId (rowEvent r) \<and>
      rowEventType r = codexEventType (rowEvent r) \<and> rowCapturedAt r = capturedAt (rowEvent r) \<and>
      rowContentState r = contentState (rowEvent r)"
    by (subst (1 3 5 7 9 11 13) r) (simp add: eventToRow_def Let_def)
  then show ?thesis
    using checked_parse [OF rowReadable_record [OF assms]] by (simp add: parseEventRow_def Let_def throwIf_def)
qed

section \<open>Stored sessions\<close>

text \<open>A state in normal form that passes every check of its reading.\<close>

definition normalState :: "selected_state \<Rightarrow> bool" where
  "normalState s \<longleftrightarrow>
     selectedSessionMappingRecordSchema (stateMapping s) = Some (stateMapping s) \<and>
     selectedSessionProjectionRecordSchema (stateProjection s) = Some (stateProjection s)"

definition stateOk :: "selected_state \<Rightarrow> bool" where
  "stateOk s \<longleftrightarrow> normalState s \<and> assertProjectionIdentity (stateMapping s) (stateProjection s) = Inr () \<and>
     assertStateChronology (stateMapping s) (stateProjection s) = Inr ()"

lemma parseState_normal:
  assumes "parseState s = Inr s'" "normalState s"
  shows "s' = s" "stateOk s"
  using assms by (cases s; auto simp: parseState_def normalState_def stateOk_def parseMapping_def parseProjection_def)+

lemma rows_of_state:
  assumes "stateOk s"
  shows "parseStateRows (stateMapping s) (projectionToRow (stateProjection s)) = Inr s"
proof -
  let ?m = "stateMapping s" and ?p = "stateProjection s"
  have "\<lparr> projectionSession =
             \<lparr> sessionIdent = mappingId ?m, sessionName = mappingName ?m, codexThreadId = mappingThread ?m,
               sessionCwd = mappingCwd ?m, runtimeSource = mappingSource ?m, runtimeVersion = mappingVersion ?m,
               createdAt = mappingCreatedAt ?m, archivedAt = mappingArchivedAt ?m, lifecycleState = prState (projectionToRow ?p),
               turnState = prTurn (projectionToRow ?p), sessionAttention = prAttention (projectionToRow ?p),
               sessionFreshness = prFreshness (projectionToRow ?p),
               freshnessReason = prReason (projectionToRow ?p), updatedAt = prUpdatedAt (projectionToRow ?p),
               lastActivityAt = prActivityAt (projectionToRow ?p),
               sessionBranch = prBranch (projectionToRow ?p), sessionModel = prModel (projectionToRow ?p),
               sessionSettings = prSettings (projectionToRow ?p),
               sessionGoal = prGoal (projectionToRow ?p), recentSummary = prSummary (projectionToRow ?p),
               lastEventCursor = prLastCursor (projectionToRow ?p) \<rparr>,
           retainedCount = prCount (projectionToRow ?p), retainedBytes = prBytes (projectionToRow ?p),
           earliestCursor = prEarliest (projectionToRow ?p),
           boundaryCursor = prBoundary (projectionToRow ?p) \<rparr> = ?p"
    using assms by (simp add: stateOk_def assertProjectionIdentity_def Let_def projectionToRow_def)
  then show ?thesis
    using assms by (simp add: parseStateRows_def stateOk_def normalState_def parseMapping_def parseProjection_def)
qed

definition rowOf :: "session_mapping \<Rightarrow> projection_row \<Rightarrow> bool" where
  "rowOf m r \<longleftrightarrow> (\<exists>p. stateOk \<lparr> stateMapping = m, stateProjection = p \<rparr> \<and> r = projectionToRow p)"

lemma rowOf_state: "stateOk s \<Longrightarrow> rowOf (stateMapping s) (projectionToRow (stateProjection s))"
  by (cases s) (auto simp: rowOf_def)

definition eventsReadable :: "database \<Rightarrow> bool" where
  "eventsReadable db \<longleftrightarrow> (\<forall>r \<in> set (eventTable db). rowReadable r)"

definition statesReadable :: "database \<Rightarrow> bool" where
  "statesReadable db \<longleftrightarrow>
     (\<forall>m \<in> set (sessionTable db). \<forall>r \<in> set (projectionTable db). prSession r = mappingId m \<longrightarrow> rowOf m r)"

definition storedOk :: "database \<Rightarrow> bool" where
  "storedOk db \<longleftrightarrow> databaseOk db \<and> eventsReadable db \<and> statesReadable db"

lemma rowOf_parse: "rowOf m r \<Longrightarrow> \<exists>s. parseStateRows m r = Inr s \<and> stateOk s \<and> stateMapping s = m \<and> r = projectionToRow (stateProjection s)"
  using rows_of_state by (force simp: rowOf_def)

lemma managed_rows:
  assumes "databaseOk db" "managed db sid"
  obtains m r where "find (\<lambda>m. mappingId m = sid) (sessionTable db) = Some m" "m \<in> set (sessionTable db)" "mappingId m = sid"
    "find (\<lambda>r. prSession r = sid) (projectionTable db) = Some r" "r \<in> set (projectionTable db)" "prSession r = sid"
proof -
  have "sid \<in> set (map mappingId (sessionTable db))" using assms(2) by (simp add: managed_def)
  moreover from this have "sid \<in> set (map prSession (projectionTable db))"
    using assms(1) unfolding databaseOk_def by metis
  ultimately have "\<exists>m \<in> set (sessionTable db). mappingId m = sid" "\<exists>r \<in> set (projectionTable db). prSession r = sid" by auto
  then have "find (\<lambda>m. mappingId m = sid) (sessionTable db) \<noteq> None" "find (\<lambda>r. prSession r = sid) (projectionTable db) \<noteq> None"
    by (auto simp: find_None_iff)
  then obtain m r where f: "find (\<lambda>m. mappingId m = sid) (sessionTable db) = Some m"
    "find (\<lambda>r. prSession r = sid) (projectionTable db) = Some r" by auto
  then show thesis using find_Some [OF f(1)] find_Some [OF f(2)] by (intro that [of m r]) auto
qed

lemma stored_read:
  assumes "storedOk db" "managed db sid"
  obtains s where "requireState db sid = Inr s" "stateOk s" "stateMapping s \<in> set (sessionTable db)"
    "projectionToRow (stateProjection s) \<in> set (projectionTable db)" "mappingId (stateMapping s) = sid"
proof -
  obtain m r where f: "find (\<lambda>m. mappingId m = sid) (sessionTable db) = Some m" "m \<in> set (sessionTable db)" "mappingId m = sid"
    "find (\<lambda>r. prSession r = sid) (projectionTable db) = Some r" "r \<in> set (projectionTable db)" "prSession r = sid"
    using assms by (auto simp: storedOk_def elim: managed_rows)
  then have "rowOf m r" using assms(1) by (simp add: storedOk_def statesReadable_def)
  from rowOf_parse [OF this] obtain s where s: "parseStateRows m r = Inr s" "stateOk s" "stateMapping s = m"
    "r = projectionToRow (stateProjection s)" by blast
  then have "requireState db sid = Inr s" using f by (simp add: requireState_def readState_def)
  with s f show thesis by (intro that [of s]) auto
qed

lemma stored_required:
  assumes "storedOk db" "requireState db sid = Inr s"
  shows "stateOk s" "stateMapping s \<in> set (sessionTable db)" "projectionToRow (stateProjection s) \<in> set (projectionTable db)"
    "mappingId (stateMapping s) = sid"
proof -
  have "managed db sid" using require_facts(1) assms by (simp add: storedOk_def)
  from stored_read [OF assms(1) this] obtain s' where "requireState db sid = Inr s'" "stateOk s'"
    "stateMapping s' \<in> set (sessionTable db)" "projectionToRow (stateProjection s') \<in> set (projectionTable db)"
    "mappingId (stateMapping s') = sid" by metis
  with assms(2) show "stateOk s" "stateMapping s \<in> set (sessionTable db)"
    "projectionToRow (stateProjection s) \<in> set (projectionTable db)" "mappingId (stateMapping s) = sid" by auto
qed

section \<open>Writing\<close>

lemma insert_readable: "insertEvent r db = Inr db' \<Longrightarrow> checkedRecord r \<Longrightarrow> eventsReadable db \<Longrightarrow> eventsReadable db'"
  using checked_row by (auto simp: insertEvent_def Let_def eventsReadable_def split: if_splits)

lemma delete_readable: "eventsReadable db \<Longrightarrow> eventsReadable (snd (deleteEventsThrough sid c db))"
  by (auto simp: deleteEventsThrough_def Let_def eventsReadable_def)

lemma states_same: "sameTables db db' \<Longrightarrow> statesReadable db \<Longrightarrow> statesReadable db'"
  by (simp add: sameTables_def statesReadable_def)

lemma commit_states:
  assumes "commitProjection p db = Inr db'" "statesReadable db"
    "\<And>m. m \<in> set (sessionTable db) \<Longrightarrow> mappingId m = sessionIdent (projectionSession p) \<Longrightarrow>
       stateOk \<lparr> stateMapping = m, stateProjection = p \<rparr>"
  shows "statesReadable db'"
  using assms(2,3) unfolding commit_Inr [OF assms(1)]
  by (force simp: statesReadable_def rowOf_def)

lemma commit_events:
  assumes "commitProjection p db = Inr db'" "eventsReadable db"
  shows "eventsReadable db'"
  using assms(2) unfolding commit_Inr [OF assms(1)] by (simp add: eventsReadable_def)

text \<open>A projection written after its counters have been changed is in normal form if its session is.\<close>

abbreviation normalProjection :: "projection_record \<Rightarrow> bool" where
  "normalProjection p \<equiv> selectedSessionProjectionRecordSchema p = Some p"

lemma parse_counters:
  assumes "parseProjection q = Inr p" "projectionSession q = projectionSession next" "normalProjection next"
  shows "p = q" "normalProjection p"
proof -
  have "managedSessionProjectionSchema (projectionSession q) = Some (projectionSession q)"
    using assms(2,3) by (simp add: projection_kept_iff session_kept_iff)
  then show "p = q" using assms(1)
    by (cases q) (auto simp: parseProjection_def selectedSessionProjectionRecordSchema_def bind_eq_Some_conv)
  then show "normalProjection p" using assms(1) by (simp add: parseProjection_def)
qed

lemma session_checks:
  assumes "projectionSession p = projectionSession q"
  shows "assertProjectionIdentity m p = assertProjectionIdentity m q" "assertStateChronology m p = assertStateChronology m q"
  by (simp_all add: assertProjectionIdentity_def assertStateChronology_def assms)

lemma plan_boundary:
  assumes "planSelectedProjectionRetention records next policy = Inr plan" "planBoundary plan = Some b"
  shows "checkedRecord b"
  using assms boundary_checked
  by (auto simp: planSelectedProjectionRetention_def finishRetentionPlan_def Let_def split: if_splits list.splits)

lemma retention_written:
  assumes "applySelectedProjectionRetention next policy db = Inr (p, db')" "normalProjection next" "eventsReadable db"
  shows "projectionSession p = projectionSession next \<and> normalProjection p \<and> eventsReadable db'"
  using assms(1)
proof (cases rule: retention_cases)
  case (2 records plan b)
  note e = execute_Inr [OF 2(5)]
  have "eventsReadable db'" by (rule insert_readable [OF e(1) plan_boundary [OF 2(2,3)] delete_readable [OF assms(3)]])
  moreover note parse_counters [OF e(2) _ assms(2)]
  ultimately show ?thesis by simp
qed (use assms(2,3) in simp)

lemma retention_tables:
  assumes "applySelectedProjectionRetention next policy db = Inr (p, db')"
  shows "sameTables db db'"
  using assms
proof (cases rule: retention_cases)
  case (2 records plan b)
  show ?thesis
    by (rule sameTables_trans [OF deleteEvents_tables insertEvent_tables [OF execute_Inr(1) [OF 2(5)]]])
qed (simp add: sameTables_def)

lemma mapping_unique:
  "databaseOk db \<Longrightarrow> m \<in> set (sessionTable db) \<Longrightarrow> m' \<in> set (sessionTable db) \<Longrightarrow> mappingId m = mappingId m' \<Longrightarrow> m = m'"
  unfolding databaseOk_def distinct_map by (elim conjE inj_onD)

text \<open>A session that its schema has parsed twice is in normal form.\<close>

lemma settings_twice:
  "managedSessionSettingsProjectionSchema s = Some t \<Longrightarrow> managedSessionSettingsProjectionSchema t = Some u \<Longrightarrow> u = t"
  by (auto simp: managedSessionSettingsProjectionSchema_def bind_eq_Some_conv nullable_bounded dest: iso_twice)

lemma goal_twice: "goalCueSchema g = Some h \<Longrightarrow> goalCueSchema h = Some k \<Longrightarrow> k = h"
  by (auto simp: goalCueSchema_def bind_eq_Some_conv)

lemma name_twice: "sessionNameSchema s = Some t \<Longrightarrow> sessionNameSchema t = Some u \<Longrightarrow> u = t"
  using session_name.schema_stable [of "Some s" t] by (simp add: sessionNameSchema_def)

lemma cwd_twice: "absoluteCwdSchema s = Some t \<Longrightarrow> absoluteCwdSchema t = Some u \<Longrightarrow> u = t"
  using absolute_cwd.schema_stable [of "Some s" t] by (simp add: absoluteCwdSchema_def)

lemma version_exact: "codexVersionSchema s = Some t \<Longrightarrow> t = s"
  by (auto simp: codexVersionSchema_def bind_eq_Some_conv)

lemma session_twice:
  assumes "managedSessionProjectionSchema v = Some w" "managedSessionProjectionSchema w = Some u"
  shows "u = w"
proof -
  obtain i n t c ve cr ar re up ac br mo se go su where w: "w = v\<lparr> sessionIdent := i, sessionName := n, codexThreadId := t,
      sessionCwd := c, runtimeVersion := ve, createdAt := cr, archivedAt := ar, freshnessReason := re,
      updatedAt := up, lastActivityAt := ac, sessionBranch := br, sessionModel := mo,
      sessionSettings := se, sessionGoal := go, recentSummary := su \<rparr>"
    and p: "sessionNameSchema (sessionName v) = Some n" "absoluteCwdSchema (sessionCwd v) = Some c"
      "isoTimestampSchema (createdAt v) = Some cr" "nullable isoTimestampSchema (archivedAt v) = Some ar"
      "isoTimestampSchema (updatedAt v) = Some up" "nullable isoTimestampSchema (lastActivityAt v) = Some ac"
      "nullable managedSessionSettingsProjectionSchema (sessionSettings v) = Some se" "nullable goalCueSchema (sessionGoal v) = Some go"
    using assms(1) unfolding managedSessionProjectionSchema_def bind_eq_Some_conv
    by (elim exE conjE) (simp only: option.inject, metis)
  obtain i2 n2 t2 c2 ve2 cr2 ar2 re2 up2 ac2 br2 mo2 se2 go2 su2 where u: "u = w\<lparr> sessionIdent := i2, sessionName := n2,
      codexThreadId := t2, sessionCwd := c2, runtimeVersion := ve2, createdAt := cr2, archivedAt := ar2, freshnessReason := re2,
      updatedAt := up2, lastActivityAt := ac2, sessionBranch := br2, sessionModel := mo2,
      sessionSettings := se2, sessionGoal := go2, recentSummary := su2 \<rparr>"
    and q: "sessionNameSchema (sessionName w) = Some n2" "absoluteCwdSchema (sessionCwd w) = Some c2"
      "isoTimestampSchema (createdAt w) = Some cr2" "nullable isoTimestampSchema (archivedAt w) = Some ar2"
      "isoTimestampSchema (updatedAt w) = Some up2" "nullable isoTimestampSchema (lastActivityAt w) = Some ac2"
      "nullable managedSessionSettingsProjectionSchema (sessionSettings w) = Some se2" "nullable goalCueSchema (sessionGoal w) = Some go2"
    and r: "sessionIdSchema (sessionIdent w) = Some i2" "codexThreadIdSchema (codexThreadId w) = Some t2"
      "codexVersionSchema (runtimeVersion w) = Some ve2" "re2 = freshnessReason w" "br2 = sessionBranch w" "mo2 = sessionModel w"
      "su2 = recentSummary w"
    using assms(2) unfolding managedSessionProjectionSchema_def bind_eq_Some_conv nullable_bounded bounded_Some
    by (elim exE conjE) (simp only: option.inject, metis)
  have f: "sessionName w = n" "sessionCwd w = c" "createdAt w = cr" "archivedAt w = ar" "updatedAt w = up"
      "lastActivityAt w = ac" "sessionSettings w = se" "sessionGoal w = go" "sessionIdent w = i" "codexThreadId w = t"
      "runtimeVersion w = ve" "freshnessReason w = re" "sessionBranch w = br" "sessionModel w = mo" "recentSummary w = su"
    by (simp_all add: w)
  note q = q [unfolded f] and r = r [unfolded f]
  have settings_again: "se2 = se" by (rule nullable_twice [OF _ p(7) q(7)]) (rule settings_twice)
  have goal_again: "go2 = go" by (rule nullable_twice [OF _ p(8) q(8)]) (rule goal_twice)
  note name_twice [OF p(1) q(1)] cwd_twice [OF p(2) q(2)] iso_twice [OF p(3) q(3)] nullable_iso_twice [OF p(4) q(4)]
    iso_twice [OF p(5) q(5)] nullable_iso_twice [OF p(6) q(6)] settings_again goal_again exact_identifiers(1) [OF r(1)] exact_identifiers(2) [OF r(2)] version_exact [OF r(3)] r(4-7)
  note e = this
  show ?thesis unfolding u e by (intro managed_session.equality) (simp_all add: f)
qed

section \<open>Operations keep what is stored readable\<close>

lemma commit_stored:
  assumes "storedOk db" "requireState db sid = Inr current" "sameTables db db2" "commitProjection p db2 = Inr db'"
    "normalProjection p" "projectionSession p = projectionSession next"
    "assertProjectionIdentity (stateMapping current) next = Inr ()" "assertStateChronology (stateMapping current) next = Inr ()"
    "eventsReadable db2" "databaseOk db'"
  shows "storedOk db'"
proof -
  note c = stored_required [OF assms(1,2)]
  have "stateOk \<lparr> stateMapping = stateMapping current, stateProjection = p \<rparr>"
    using c(1) assms(5,7,8) session_checks [OF assms(6)] by (simp add: stateOk_def normalState_def)
  moreover have "mappingId (stateMapping current) = sessionIdent (projectionSession p)"
    using assms(7) by (simp add: assertProjectionIdentity_def Let_def assms(6))
  moreover have "m = stateMapping current"
    if "m \<in> set (sessionTable db2)" "mappingId m = mappingId (stateMapping current)" for m
    using that assms(1,3) c(2) by (intro mapping_unique [of db]) (simp_all add: storedOk_def sameTables_def)
  moreover have "statesReadable db2" using states_same [OF assms(3)] assms(1) by (simp add: storedOk_def)
  ultimately have "statesReadable db'" by (intro commit_states [OF assms(4)]) metis+
  then show ?thesis using commit_events [OF assms(4,9)] assms(10) by (simp add: storedOk_def)
qed

lemma append_stored:
  assumes "storedOk db" "appendEvent event next revision policy db = Inr (res, db')" "normalProjection next" "databaseOk db'"
  shows "storedOk db'"
proof -
  from assms(2,3) obtain e r q where a: "parseProjectedEventRecord event = Inr e" "assertEventByteLength e = Inr ()"
    "appendEventTransaction e next r q db = Inr (res, db')"
    by (auto simp: appendEvent_def parseProjection_def)
  from a(3) obtain current db1 db2 p where t: "requireState db (eventSessionId (recordEvent e)) = Inr current"
    "assertProjectionIdentity (stateMapping current) next = Inr ()" "assertStateChronology (stateMapping current) next = Inr ()"
    "insertEvent e db = Inr db1" "commitProjection p db2 = Inr db'"
    "(case q of None \<Rightarrow> Inr (next, db1) | Some policy \<Rightarrow> applySelectedProjectionRetention next policy db1) = Inr (p, db2)"
    by (auto simp: appendEventTransaction_def)
  have e1: "eventsReadable db1"
    using assms(1) by (intro insert_readable [OF t(4) parse_checked [OF a(1,2)]]) (simp add: storedOk_def)
  have p: "(projectionSession p = projectionSession next \<and> normalProjection p \<and> eventsReadable db2) \<and> sameTables db db2"
  proof (cases q)
    case (Some policy)
    then have r: "applySelectedProjectionRetention next policy db1 = Inr (p, db2)" using t(6) by simp
    show ?thesis
      by (intro conjI retention_written [OF r assms(3) e1] sameTables_trans [OF insertEvent_tables [OF t(4)] retention_tables [OF r]])
  qed (use t(6) e1 assms(3) insertEvent_tables [OF t(4)] in auto)
  then show ?thesis by (intro commit_stored [OF assms(1) t(1) _ t(5) _ _ t(2,3) _ assms(4)]) auto
qed

lemma break_stored:
  assumes "storedOk db" "replaceEventsWithBoundary event next revision db = Inr (res, db')" "normalProjection next" "databaseOk db'"
  shows "storedOk db'"
proof -
  from assms(2,3) obtain e r where a: "parseProjectedEventRecord event = Inr e" "assertEventByteLength e = Inr ()"
    "replaceEventsWithBoundaryTransaction e next r db = Inr (res, db')"
    by (auto simp: replaceEventsWithBoundary_def parseProjection_def)
  let ?sid = "eventSessionId (recordEvent e)"
  from a(3) obtain current db1 where t: "requireState db ?sid = Inr current"
    "assertProjectionIdentity (stateMapping current) next = Inr ()" "assertStateChronology (stateMapping current) next = Inr ()"
    "insertEvent e (deleteSessionEvents ?sid db) = Inr db1" "commitProjection next db1 = Inr db'"
    by (auto simp: replaceEventsWithBoundaryTransaction_def)
  have "sameTables db (deleteSessionEvents ?sid db)" by (simp add: sameTables_def deleteSessionEvents_def)
  note tables = sameTables_trans [OF this insertEvent_tables [OF t(4)]]
  have "eventsReadable (deleteSessionEvents ?sid db)"
    using assms(1) by (auto simp: storedOk_def eventsReadable_def deleteSessionEvents_def)
  from insert_readable [OF t(4) parse_checked [OF a(1,2)] this] show ?thesis
    by (intro commit_stored [OF assms(1) t(1) tables t(5) assms(3) refl t(2,3) _ assms(4)])
qed

lemma batch_stored:
  assumes "storedOk db" "maintainSelectedProjectionRetentionBatch sid policy n db = Inr (res, db')" "databaseOk db'"
  shows "storedOk db'"
proof -
  obtain sid' p m where a: "retentionBatchTransaction sid' p m db = Inr (res, db')"
    using assms(2) by (auto simp: maintainSelectedProjectionRetentionBatch_def)
  then obtain current where cur: "requireState db sid' = Inr current" by (auto simp: retentionBatchTransaction_def)
  from a cur show ?thesis
  proof (cases rule: batch_cases)
    case (2 window prior removed b)
    from 2(3) obtain db1 where c: "insertEvent b (snd (deleteEventsThrough sid' (recordCursor b) db)) = Inr db1"
      "parseProjection
        ((stateProjection current)\<lparr> retainedCount := aggregateCount (readSelectedProjectionAggregate db1 sid'),
          retainedBytes := aggregateBytes (readSelectedProjectionAggregate db1 sid'),
          earliestCursor := aggregateEarliest (readSelectedProjectionAggregate db1 sid'),
          boundaryCursor := boundaryAfter (recordEvent b) \<rparr>) = Inr (batchProjection res)"
      "commitProjection (batchProjection res) db1 = Inr db'" by (rule commitBatch_Inr)
    have ok: "stateOk current" using stored_required(1) [OF assms(1) cur] .
    have b: "checkedRecord b" using pruneLoop_Inr [OF 2(2)] boundary_checked by auto
    note p = parse_counters [OF c(2), of "stateProjection current"]
    have "projectionSession (batchProjection res) = projectionSession (stateProjection current)" "normalProjection (batchProjection res)"
      using p ok by (simp_all add: stateOk_def normalState_def)
    moreover have "eventsReadable db1"
      using assms(1) by (intro insert_readable [OF c(1) b] delete_readable) (simp add: storedOk_def)
    ultimately show ?thesis
      using ok sameTables_trans [OF deleteEvents_tables insertEvent_tables [OF c(1)]]
      by (intro commit_stored [OF assms(1) cur _ c(3) _ _ _ _ _ assms(3)]) (auto simp: stateOk_def)
  qed (use assms in simp)
qed

text \<open>The rows of a new session.\<close>

lemma insert_stored:
  assumes "storedOk db" "stateOk s" "\<not> managed db (mappingId (stateMapping s))" "sessionTable db' = sessionTable db @ [stateMapping s]"
    "projectionTable db' = projectionTable db @ [projectionToRow (stateProjection s)]" "eventsReadable db'" "databaseOk db'"
  shows "storedOk db'"
proof -
  let ?sid = "mappingId (stateMapping s)"
  have new: "sessionIdent (projectionSession (stateProjection s)) = ?sid"
    using assms(2) by (simp add: stateOk_def assertProjectionIdentity_def Let_def)
  have "rowOf m r" if "m \<in> set (sessionTable db')" "r \<in> set (projectionTable db')" "prSession r = mappingId m" for m r
  proof (cases "mappingId m = ?sid")
    case True
    have "m \<notin> set (sessionTable db)" using True assms(3) unfolding managed_def by (metis image_eqI set_map)
    then have "m = stateMapping s" using that(1) assms(4) by auto
    moreover have "?sid \<notin> set (map prSession (projectionTable db))"
      using assms(1,3) unfolding storedOk_def databaseOk_def managed_def by auto
    then have "r = projectionToRow (stateProjection s)" using that(2,3) True assms(5) by force
    ultimately show ?thesis using rowOf_state [OF assms(2)] by simp
  next
    case False
    then have "m \<in> set (sessionTable db)" "r \<in> set (projectionTable db)" using that assms(4,5) new by auto
    then show ?thesis using assms(1) that(3) by (simp add: storedOk_def statesReadable_def)
  qed
  then show ?thesis using assms(6,7) by (auto simp: storedOk_def statesReadable_def)
qed

lemma create_stored:
  assumes "storedOk db" "repositoryCreate s db = Inr (res, db')" "normalState s"
  shows "storedOk db'"
proof -
  from assms(2) obtain db1 where r: "parseState s = Inr res"
    "insertMapping (stateMapping res) db = Inr db1" "insertProjection (stateProjection res) db1 = Inr db'"
    by (auto simp: repositoryCreate_def createTransaction_def)
  note m = insertMapping_Inr [OF r(2)] and p = insertProjection_Inr [OF r(3)] and n = parseState_normal [OF r(1) assms(3)]
  have t: "sessionTable db' = sessionTable db @ [stateMapping s]"
    "projectionTable db' = projectionTable db @ [projectionToRow (stateProjection s)]" "eventTable db' = eventTable db"
    by (simp_all add: p m(1) n(1))
  have "databaseOk db'" using create_Inr(1) [OF _ assms(2)] assms(1) by (simp add: storedOk_def)
  moreover have "eventsReadable db'" using assms(1) by (simp add: storedOk_def eventsReadable_def t(3))
  ultimately show ?thesis using m(2) unfolding n(1) by (intro insert_stored [OF assms(1) n(2) _ t(1,2)])
qed

lemma insertEvents_readable:
  "insertEvents es db = Inr db' \<Longrightarrow> \<forall>e \<in> set es. checkedRecord e \<Longrightarrow> eventsReadable db \<Longrightarrow> eventsReadable db' \<and> sameTables db db'"
proof (induction es arbitrary: db)
  case (Cons e es)
  then obtain db1 where "insertEvent e db = Inr db1" "insertEvents es db1 = Inr db'" by auto
  then show ?case
    using Cons.IH [of db1] Cons.prems insert_readable insertEvent_tables sameTables_trans by (metis list.set_intros)
qed (simp add: sameTables_def)

lemma mapAll_checked:
  "mapAll (\<lambda>event. andThen (parseProjectedEventRecord event) (\<lambda>record.
     andThen (assertEventByteLength record) (\<lambda>_. Inr record))) es = Inr es' \<Longrightarrow> \<forall>e \<in> set es'. checkedRecord e"
  by (induction es arbitrary: es') (auto dest: parse_checked)

lemma adopt_stored:
  assumes "storedOk db" "repositoryAdopt member s es db = Inr (res, db')" "normalState s"
  shows "storedOk db'"
proof -
  from assms(2) obtain member' es' db1 db2 db3 where p: "parseState s = Inr res"
    "mapAll (\<lambda>event. andThen (parseProjectedEventRecord event) (\<lambda>record.
       andThen (assertEventByteLength record) (\<lambda>_. Inr record))) es = Inr es'"
    and r: "insertMapping (stateMapping res) db = Inr db1" "insertProjection (stateProjection res) db1 = Inr db2"
    "insertNativeMembership member' db2 = Inr db3" "insertEvents es' db3 = Inr db'"
    by (auto simp: repositoryAdopt_def parseNativeSessionAdoption_def adoptTransaction_def)
  note m = insertMapping_Inr [OF r(1)] and q = insertProjection_Inr [OF r(2)] and n = parseState_normal [OF p(1) assms(3)]
  have db3: "db3 = db2\<lparr> membershipTable := membershipTable db2 @ [member'] \<rparr>"
    using r(3) by (auto simp: insertNativeMembership_def split: if_splits)
  have "eventsReadable db3" using assms(1) by (simp add: db3 q m(1) storedOk_def eventsReadable_def)
  from insertEvents_readable [OF r(4) mapAll_checked [OF p(2)] this]
  have "eventsReadable db'" "sameTables db3 db'" by simp_all
  moreover have "sessionTable db3 = sessionTable db @ [stateMapping s]"
    "projectionTable db3 = projectionTable db @ [projectionToRow (stateProjection s)]"
    by (simp_all add: db3 q m(1) n(1))
  ultimately have t: "sessionTable db' = sessionTable db @ [stateMapping s]"
    "projectionTable db' = projectionTable db @ [projectionToRow (stateProjection s)]" "eventsReadable db'"
    by (simp_all add: sameTables_def)
  have "databaseOk db" using assms(1) by (simp add: storedOk_def)
  then have "databaseOk db'" by (rule adopt_Inr [OF _ assms(2)])
  from m(2) t this show ?thesis unfolding n(1) by (rule insert_stored [OF assms(1) n(2)])
qed

lemma updateMapping_new:
  "assertImmutableMappingIdentity m new = Inr () \<Longrightarrow> updateMapping new m = new"
  by (cases m; cases new) (auto simp: assertImmutableMappingIdentity_def updateMapping_def)

lemma replace_stored:
  assumes "storedOk db" "repositoryReplace s revision db = Inr (res, db')" "normalState s"
  shows "storedOk db'"
proof -
  from assms(2) obtain current where p: "parseState s = Inr res" "requireState db (mappingId (stateMapping res)) = Inr current"
    "assertImmutableMappingIdentity (stateMapping current) (stateMapping res) = Inr ()"
    and w: "writeReplacement res db = Inr db'"
    by (auto simp: repositoryReplace_def replaceTransaction_def)
  note n = parseState_normal [OF p(1) assms(3)] and db' = writeReplacement_Inr(2) [OF w]
  note c = stored_required [OF assms(1) p(2)]
  let ?sid = "mappingId (stateMapping s)"
  have sid: "sessionIdent (projectionSession (stateProjection s)) = ?sid"
    using n(2) by (simp add: stateOk_def assertProjectionIdentity_def Let_def)
  have row: "rowOf (updateMapping (stateMapping s) m) (if prSession r = ?sid then projectionToRow (stateProjection s) else r)"
    if "m \<in> set (sessionTable db)" "r \<in> set (projectionTable db)" "prSession r = mappingId m" for m r
  proof (cases "mappingId m = ?sid")
    case True
    then have "m = stateMapping current"
      using that(1) c(2,4) assms(1) n(1) by (intro mapping_unique [of db]) (simp_all add: storedOk_def)
    then have "updateMapping (stateMapping s) m = stateMapping s" using updateMapping_new [OF p(3)] n(1) by simp
    then show ?thesis using that(3) True rowOf_state [OF n(2)] by simp
  next
    case False
    then show ?thesis using that assms(1) by (simp add: storedOk_def statesReadable_def updateMapping_def)
  qed
  have "statesReadable db'"
    unfolding statesReadable_def
  proof (intro ballI impI)
    fix m' r' assume "m' \<in> set (sessionTable db')" "r' \<in> set (projectionTable db')" and eq: "prSession r' = mappingId m'"
    then obtain m r where o: "m \<in> set (sessionTable db)" "m' = updateMapping (stateMapping s) m"
      "r \<in> set (projectionTable db)" "r' = (if prSession r = ?sid then projectionToRow (stateProjection s) else r)"
      unfolding db' n(1) by (auto simp: sid)
    have "prSession r = mappingId m" using eq by (simp add: o(2,4) updateMapping_def sid split: if_splits)
    from row [OF o(1,3) this] show "rowOf m' r'" by (simp add: o(2,4))
  qed
  moreover have "databaseOk db'" using replace_Inr(1) [OF _ assms(2)] assms(1) by (simp add: storedOk_def)
  ultimately show ?thesis using assms(1) by (simp add: storedOk_def db' eventsReadable_def)
qed

lemma unmanage_stored:
  assumes "storedOk db" "unmanageAdopted sid revision db = Inr (res, db')"
  shows "storedOk db'"
proof -
  from assms(2) obtain sid' t where "db' = deleteSession sid' (db\<lparr> recoveryTable := t \<rparr>)"
    by (auto simp: unmanageAdopted_def unmanageAdoptedTransaction_def Let_def split: option.splits)
  then have "eventsReadable db'" "statesReadable db'"
    using assms(1) by (simp_all add: storedOk_def eventsReadable_def statesReadable_def deleteSession_def)
  moreover have "databaseOk db'" using unmanage_Inr(1) [OF _ assms(2)] assms(1) by (simp add: storedOk_def)
  ultimately show ?thesis by (simp add: storedOk_def)
qed

text \<open>The data of an operation is in normal form.\<close>

fun normalOp :: "repository_op \<Rightarrow> bool" where
  "normalOp (Create s) = normalState s"
| "normalOp (Adopt m s es) = normalState s"
| "normalOp (Replace s r) = normalState s"
| "normalOp (Append e p r policy) = normalProjection p"
| "normalOp (Break_continuity e p r) = normalProjection p"
| "normalOp _ = True"

lemma step_stored:
  assumes "storedOk db" "normalOp op"
  shows "storedOk (repositoryStep op db)"
proof -
  have ok: "databaseOk (repositoryStep op db)" using repository.step_ok assms(1) by (simp add: storedOk_def)
  have by_result: "storedOk (committed f db)"
    if "\<And>x db'. f db = Inr (x, db') \<Longrightarrow> committed f db = db' \<Longrightarrow> storedOk db'" for f :: "database \<Rightarrow> ('a \<times> database) outcome"
    using committed_cases [of f db] that assms(1) by metis
  have recovery: "storedOk db'" if "\<exists>t. db' = db\<lparr> recoveryTable := t \<rparr>" for db'
    using that assms(1) by (auto simp: storedOk_def eventsReadable_def statesReadable_def)
  show ?thesis
  proof (cases op)
    case (Put_recovery r)
    have "storedOk (committed (putRecovery r) db)"
      by (rule by_result) (use recovery recovery_steps(1) in metis)
    then show ?thesis by (simp add: Put_recovery)
  next
    case (Delete_recovery i)
    have "storedOk (committed (deleteRecovery i) db)"
      by (rule by_result) (use recovery recovery_steps(2) in metis)
    then show ?thesis by (simp add: Delete_recovery)
  next
    case (Create s)
    show ?thesis using assms(2) by (simp add: Create) (rule by_result, rule create_stored [OF assms(1)])
  next
    case (Adopt m s es)
    show ?thesis using assms(2) by (simp add: Adopt) (rule by_result, rule adopt_stored [OF assms(1)])
  next
    case (Replace s r)
    show ?thesis using assms(2) by (simp add: Replace) (rule by_result, rule replace_stored [OF assms(1)])
  next
    case (Append e p r policy)
    show ?thesis using assms(2) ok by (simp add: Append) (rule by_result, rule append_stored [OF assms(1)], simp_all)
  next
    case (Break_continuity e p r)
    show ?thesis using assms(2) ok by (simp add: Break_continuity) (rule by_result, rule break_stored [OF assms(1)], simp_all)
  next
    case (Retain sid policy n)
    show ?thesis using ok by (simp add: Retain) (rule by_result, rule batch_stored [OF assms(1)], simp_all)
  next
    case (Unmanage sid r)
    show ?thesis by (simp add: Unmanage) (rule by_result, rule unmanage_stored [OF assms(1)])
  qed
qed

lemma emptyDatabase_stored: "storedOk emptyDatabase"
  using emptyDatabase_ok by (simp add: storedOk_def eventsReadable_def statesReadable_def emptyDatabase_def)

lemma run_stored: "\<forall>op \<in> set ops. normalOp op \<Longrightarrow> storedOk db \<Longrightarrow> storedOk (runSteps repositoryStep ops db)"
  by (induction ops arbitrary: db) (simp_all add: step_stored)

end
