(* ===== verification/Repository_Samples.thy ===== *)
theory Repository_Samples
  imports Repository_Readable
begin

text \<open>
  Small databases for the witnesses: one session, the events that are appended to it and the
  projections that commit them. The operations are evaluated on them by the simplifier.
\<close>

definition sampleTime :: js_string where "sampleTime = js ''2026-01-02T03:04:05.000Z''"

definition sampleId :: js_string where "sampleId = js ''sess_abcdef''"

definition sampleSession :: "int option \<Rightarrow> managed_session" where
  "sampleSession cursor =
     \<lparr> sessionIdent = sampleId, sessionName = js ''demo'', codexThreadId = js ''thread-1'', sessionCwd = js ''/w'',
       runtimeSource = selectedRuntimeSource, runtimeVersion = js ''0.1.0'', createdAt = sampleTime, archivedAt = None,
       lifecycleState = MS_active, turnState = TS_idle, sessionAttention = AL_none, sessionFreshness = PF_current,
       freshnessReason = None, updatedAt = sampleTime, lastActivityAt = None, sessionBranch = None, sessionModel = None,
       sessionSettings = None, sessionGoal = None, recentSummary = [], lastEventCursor = cursor \<rparr>"

definition sampleMapping :: session_mapping where
  "sampleMapping =
     \<lparr> mappingId = sampleId, mappingName = js ''demo'', mappingThread = js ''thread-1'', mappingCwd = js ''/w'',
       mappingSource = selectedRuntimeSource, mappingVersion = js ''0.1.0'', mappingDisposition = Disposition_selected,
       mappingCreatedAt = sampleTime, mappingUpdatedAt = sampleTime, mappingArchivedAt = None \<rparr>"

definition emptyProjection :: projection_record where
  "emptyProjection =
     \<lparr> projectionSession = sampleSession None, retainedCount = 0, retainedBytes = 0, earliestCursor = None,
       boundaryCursor = None \<rparr>"

definition sampleEvent :: "int \<Rightarrow> projection_event" where
  "sampleEvent cursor =
     \<lparr> capturedAt = sampleTime, upstreamAt = None, codexEventId = None, codexEventType = None,
       contentState = Content_complete, contentNotice = None, eventBody = Message Role_agent Phase_completed None (js ''hi''),
       eventSessionId = sampleId, eventCursor = cursor \<rparr>"

definition sampleRecord :: "int \<Rightarrow> event_record" where
  "sampleRecord cursor = \<lparr> recordEvent = sampleEvent cursor, recordBytes = eventBytes (sampleEvent cursor) \<rparr>"

text \<open>The projection that appends the record of a cursor to another one.\<close>

definition sampleNext :: "projection_record \<Rightarrow> int \<Rightarrow> projection_record" where
  "sampleNext p cursor =
     p\<lparr> projectionSession := sampleSession (Some cursor), retainedCount := retainedCount p + 1,
        retainedBytes := retainedBytes p + eventBytes (sampleEvent cursor),
        earliestCursor := (case earliestCursor p of None \<Rightarrow> Some cursor | Some c \<Rightarrow> Some c) \<rparr>"

definition sampleRevision :: "int option \<Rightarrow> state_revision" where
  "sampleRevision cursor =
     \<lparr> revMappingUpdatedAt = sampleTime, revProjectionUpdatedAt = sampleTime, revLastCursor = cursor \<rparr>"

definition samplePolicy :: retention_policy where
  "samplePolicy = defaultRetentionPolicy\<lparr> outputEventLimit := 2 \<rparr>"

definition sampleStart :: selected_state where
  "sampleStart = \<lparr> stateMapping = sampleMapping, stateProjection = emptyProjection \<rparr>"

lemma sample_scalars:
  "sessionIdSchema sampleId = Some sampleId" "isoTimestampSchema sampleTime = Some sampleTime"
  "sessionNameSchema (js ''demo'') = Some (js ''demo'')" "codexThreadIdSchema (js ''thread-1'') = Some (js ''thread-1'')"
  "absoluteCwdSchema (js ''/w'') = Some (js ''/w'')" "codexVersionSchema (js ''0.1.0'') = Some (js ''0.1.0'')"
proof -
  have "sessionIdPattern sampleId"
    by (simp add: sampleId_def sessionIdPattern_def startsWith_def js_def idTail_def char_class_defs)
  then show "sessionIdSchema sampleId = Some sampleId"
    by (simp add: sessionIdSchema_def brandedStringSchema_iff parseSessionId_Inr sampleId_def)
  show "absoluteCwdSchema (js ''/w'') = Some (js ''/w'')"
    by (simp add: absoluteCwdSchema_def brandedStringSchema_def parseAbsoluteCwd_def js_def startsWith_def)
  show "sessionNameSchema (js ''demo'') = Some (js ''demo'')"
    by (simp add: sessionNameSchema_def brandedStringSchema_def parseSessionName_def trim_def js_def isWhitespace_def
        sessionNamePattern_def nameTail_def char_class_defs)
  show "codexThreadIdSchema (js ''thread-1'') = Some (js ''thread-1'')"
    by (simp add: codexThreadIdSchema_def brandedStringSchema_iff parseCodexThreadId_def parseOpaqueRuntimeId_Inr js_def
        isWhitespace_def isControl_def)
  show "isoTimestampSchema sampleTime = Some sampleTime" by code_simp
  show "codexVersionSchema (js ''0.1.0'') = Some (js ''0.1.0'')" by code_simp
qed

lemma sample_session: "cursorOptionOk cursor \<Longrightarrow> sessionOk (sampleSession cursor)"
  using sample_scalars
  by (simp add: sessionOk_def sessionFieldsOk_def sampleSession_def sessionRefined_def waitingTurn_def)

lemma sample_mapping: "selectedSessionMappingRecordSchema sampleMapping = Some sampleMapping"
  using sample_scalars by (simp add: selectedSessionMappingRecordSchema_def sampleMapping_def guard_def)

lemma sample_event: "outputCursorOk cursor \<Longrightarrow> eventOk (sampleEvent cursor)"
  using sample_scalars by (simp add: eventOk_def sampleEvent_def eventBodySchema_def guard_def bounded_def js_def runtime_limits)

lemma sample_checked: "outputCursorOk cursor \<Longrightarrow> checkedRecord (sampleRecord cursor)"
  by (simp add: checkedRecord_def sampleRecord_def sample_event)

lemma sample_identity:
  "projectionSession p = sampleSession cursor \<Longrightarrow>
     assertProjectionIdentity sampleMapping p = Inr () \<and> assertStateChronology sampleMapping p = Inr ()"
  by (simp add: assertProjectionIdentity_def assertStateChronology_def sampleMapping_def sampleSession_def)

lemma sample_start: "stateOk sampleStart"
  using sample_session [of None] sample_mapping sample_identity [of emptyProjection None]
  by (simp add: stateOk_def normalState_def sampleStart_def projection_kept_iff emptyProjection_def cursorOptionOk_def
      projectionCountersOk_def maxProjectionEvents_def maxProjectionBytes_def)

end
