(* ===== verification/Repository_Replay.thy ===== *)
theory Repository_Replay
  imports Repository_Samples
begin

text \<open>
  Reading a session's log back: a page of \<open>listEvents\<close> is the part of the log after a cursor, and
  following \<open>next_cursor\<close> reads the whole log.
\<close>

section \<open>A stored log is read as it is\<close>

lemma boundaryAfter_real [simp]: "\<not> isBoundary e \<Longrightarrow> boundaryAfter e = None"
  by (auto simp: isBoundary_def boundaryAfter_def split: event_body.splits)

lemma persisted_ok:
  assumes "logOk (sessionEvents db sid)" "recordCountersOk (sessionEvents db sid) p" "eventsReadable db"
    "sessionIdent (projectionSession p) = sid"
  shows "assertPersistedEventProjection db p = Inr ()"
proof (cases "sessionEvents db sid")
  case Nil
  with assms show ?thesis
    by (simp add: assertPersistedEventProjection_def readSelectedProjectionAggregate_def recordCountersOk_def Let_def)
next
  case (Cons row rows)
  have r: "parseEventRow row = Inr (rowRecord row)"
    using assms(3) set_sessionEvents [of db sid] Cons by (intro readable_parse) (auto simp: eventsReadable_def)
  have c: "rowCursor (last (row # rows)) = rowCursor row + int (length (row # rows)) - 1"
    using contiguousFrom_last [of "rowCursor row" "row # rows"] logOk_contiguous [OF assms(1)] Cons by simp
  have "columnsOk row" using assms(1) Cons by (simp add: logOk_def)
  then have "eventCursor (rowEvent row) = rowCursor row" using columns_cursor by simp
  with r c assms Cons show ?thesis
    by (auto simp: assertPersistedEventProjection_def readSelectedProjectionAggregate_def recordCountersOk_def Let_def
        logOk_def startOk_def)
qed

lemma mapAll_total: "(\<And>x. x \<in> set xs \<Longrightarrow> f x = Inr (g x)) \<Longrightarrow> mapAll f xs = Inr (map g xs)"
  by (induction xs) simp_all

lemma readable_records:
  "eventsReadable db \<Longrightarrow> set rows \<subseteq> set (sessionEvents db sid) \<Longrightarrow> mapAll parseEventRow rows = Inr (map rowRecord rows)"
  using set_sessionEvents [of db sid] by (intro mapAll_total readable_parse) (auto simp: eventsReadable_def)

text \<open>What the stream schema checks of consecutive events.\<close>

lemma streamLoop_events:
  assumes "contiguousFrom c rows" "\<forall>r \<in> set rows. columnsOk r \<and> eventSessionId (rowEvent r) = sid \<and> \<not> isBoundary (rowEvent r)"
    "rows = [] \<or> previous < c" "\<forall>r \<in> set rows. rowCursor r \<le> bound"
  shows "streamLoop sid bound index previous seen (map rowEvent rows) = Some seen"
  using assms
proof (induction rows arbitrary: c index previous)
  case (Cons r rows)
  then have "eventCursor (rowEvent r) = c" using columns_cursor by force
  moreover have "streamLoop sid bound (index + 1) c seen (map rowEvent rows) = Some seen"
    using Cons.prems by (intro Cons.IH [of "c + 1"]) auto
  ultimately show ?case using Cons.prems by (auto simp: guard_def)
qed simp

lemma parseEvents_kept: "\<forall>e \<in> set es. eventOk e \<Longrightarrow> parseEvents es = Some es"
  by (induction es) (simp_all add: event_kept_iff [THEN iffD2])

lemma stream_page:
  assumes "contiguousFrom (rowCursor r) (r # rs)" "\<forall>x \<in> set (r # rs). rowReadable x \<and> rowSession x = sid" "0 \<le> rowCursor r"
    "\<forall>x \<in> set rs. \<not> isBoundary (rowEvent x)" "sessionIdSchema sid = Some sid"
  shows "selectedSessionEventStreamSchema
      \<lparr> streamSession = sid, streamEvents = map rowEvent (r # rs), streamNext = rowCursor (last (r # rs)),
        streamTruncated = isBoundary (rowEvent r) \<rparr> =
    Some \<lparr> streamSession = sid, streamEvents = map rowEvent (r # rs), streamNext = rowCursor (last (r # rs)),
           streamTruncated = isBoundary (rowEvent r) \<rparr>"
proof -
  have cols: "columnsOk x \<and> eventOk (rowEvent x) \<and> eventSessionId (rowEvent x) = sid" if "x \<in> set (r # rs)" for x
  proof -
    have x: "rowReadable x" "rowSession x = sid" using assms(2) that by blast+
    then have "x = eventToRow (rowRecord x)" unfolding rowReadable_def columnsOk_def by blast
    then have "eventSessionId (rowEvent x) = rowSession x" by (metis eventToRow_fields(1) event_record.select_convs(1))
    with x show ?thesis by (simp add: rowReadable_def)
  qed
  have events: "parseEvents (map rowEvent (r # rs)) = Some (map rowEvent (r # rs))"
    using cols by (intro parseEvents_kept) auto
  have bound: "\<forall>x \<in> set rs. rowCursor x \<le> rowCursor (last (r # rs))" "rowCursor r \<le> rowCursor (last (r # rs))"
    using contiguousFrom_bounds [OF assms(1)] contiguousFrom_last [OF assms(1)] by force+
  have cursor: "eventCursor (rowEvent x) = rowCursor x" if "x \<in> set (r # rs)" for x using cols [OF that] columns_cursor by simp
  have "streamLoop sid (rowCursor (last (r # rs))) 1 (rowCursor r) (isBoundary (rowEvent r)) (map rowEvent rs) = Some (isBoundary (rowEvent r))"
    using assms(1,4) bound(1) cols by (intro streamLoop_events [of "rowCursor r + 1"]) auto
  then have "streamLoop sid (rowCursor (last (r # rs))) 0 (- 1) False (map rowEvent (r # rs)) = Some (isBoundary (rowEvent r))"
    using cols [of r] cursor [of r] bound(2) assms(3) by (simp add: guard_def)
  moreover have "last (r # rs) \<in> set (r # rs)" by (rule last_in_set) simp
  from cols [OF this] cursor [OF this] have "outputCursorOk (rowCursor (last (r # rs)))"
    by (simp add: eventOk_def del: last.simps)
  ultimately show ?thesis
    using events assms(5) by (simp add: selectedSessionEventStreamSchema_def guard_def del: streamLoop.simps parseEvents.simps)
qed

lemma contiguousFrom_take: "contiguousFrom c rows \<Longrightarrow> contiguousFrom c (take n rows)"
proof (induction rows arbitrary: c n)
  case (Cons r rows)
  then show ?case by (cases n) auto
qed simp

lemma filter_after:
  assumes "contiguousFrom c rows" "c - 1 \<le> a" "a < c + int (length rows)"
  shows "filter (\<lambda>r. rowCursor r > a) rows = drop (nat (a - c + 1)) rows"
  using assms
proof (induction rows arbitrary: c)
  case (Cons r rows)
  show ?case
  proof (cases "a < c")
    case True
    then have "a - c + 1 = 0" using Cons.prems(2) by simp
    moreover have "filter (\<lambda>r. rowCursor r > a) (r # rows) = r # rows"
      using contiguousFrom_bounds [OF Cons.prems(1)] True by (intro filter_True) force
    ultimately show ?thesis by simp
  next
    case False
    then have "nat (a - c + 1) = Suc (nat (a - (c + 1) + 1))" by simp
    moreover have "filter (\<lambda>r. rowCursor r > a) rows = drop (nat (a - (c + 1) + 1)) rows"
      using Cons.prems False by (intro Cons.IH) auto
    ultimately show ?thesis using Cons.prems(1) False by simp
  qed
qed simp

section \<open>Pages of a log\<close>

definition logAfter :: "int option \<Rightarrow> projection_event list \<Rightarrow> projection_event list" where
  "logAfter after es = (case after of None \<Rightarrow> es | Some a \<Rightarrow> filter (\<lambda>e. eventCursor e > a) es)"

definition lastCursor :: "projection_event list \<Rightarrow> int" where
  "lastCursor es = (if es = [] then 0 else eventCursor (last es))"

definition pageOf :: "js_string \<Rightarrow> int option \<Rightarrow> int \<Rightarrow> projection_event list \<Rightarrow> event_stream" where
  "pageOf sid after limit es =
     (let page = take (nat limit) (logAfter after es) in
      \<lparr> streamSession = sid, streamEvents = page,
        streamNext = (if page = [] then lastCursor es else lastCursor page),
        streamTruncated = (case page of [] \<Rightarrow> False | e # _ \<Rightarrow> isBoundary e) \<rparr>)"

text \<open>The rows of a page: consecutive, and a boundary only at the head of the whole log.\<close>

lemma rows_after:
  assumes "logOk rows" "after = None \<or> after = Some a \<and> 0 \<le> a \<and> a \<le> lastCursor (map rowEvent rows)"
  obtains k where "(case after of None \<Rightarrow> rows | Some a \<Rightarrow> filter (\<lambda>r. rowCursor r > a) rows) = drop k rows"
    "map rowEvent (drop k rows) = logAfter after (map rowEvent rows)"
    "k \<le> length rows" "rows \<noteq> [] \<Longrightarrow> after = Some a \<Longrightarrow> k = nat (a - rowCursor (hd rows) + 1)" "after = None \<Longrightarrow> k = 0"
proof -
  have cols: "r \<in> set rows \<Longrightarrow> eventCursor (rowEvent r) = rowCursor r" for r
    using assms(1) columns_cursor by (auto simp: logOk_def list_all_iff)
  have ev: "logAfter after (map rowEvent rows) = map rowEvent (case after of None \<Rightarrow> rows | Some a \<Rightarrow> filter (\<lambda>r. rowCursor r > a) rows)"
    using cols by (auto simp: logAfter_def filter_map comp_def intro!: arg_cong [where f = "map rowEvent"] filter_cong split: option.splits)
  show thesis
  proof (cases "rows = [] \<or> after = None")
    case True
    then show thesis using ev by (intro that [of 0]) (auto split: option.splits)
  next
    case False
    then have a: "after = Some a" "0 \<le> a" "a \<le> rowCursor (last rows)" "rows \<noteq> []"
      using assms(2) cols by (auto simp: lastCursor_def last_map)
    note c = logOk_contiguous [OF assms(1) a(4)]
    have "a < rowCursor (hd rows) + int (length rows)" using contiguousFrom_last [OF c a(4)] a(3) by simp
    show thesis
    proof (cases "rowCursor (hd rows) - 1 \<le> a")
      case True
      have k: "filter (\<lambda>r. rowCursor r > a) rows = drop (nat (a - rowCursor (hd rows) + 1)) rows"
        by (rule filter_after [OF c True]) fact
      show thesis using k ev a \<open>a < _\<close> by (intro that [of "nat (a - rowCursor (hd rows) + 1)"]) auto
    next
      case False
      then have "filter (\<lambda>r. rowCursor r > a) rows = rows"
        using contiguousFrom_bounds [OF c] by (intro filter_True) force
      then show thesis using ev a False by (intro that [of 0]) auto
    qed
  qed
qed

lemma stored_log:
  assumes "storedOk db" "absLog sid db = Some es"
  obtains s where "requireState db sid = Inr s" "stateOk s" "sessionIdent (projectionSession (stateProjection s)) = sid"
    "logOk (sessionEvents db sid)" "recordCountersOk (sessionEvents db sid) (stateProjection s)"
    "es = map rowEvent (sessionEvents db sid)" "eventsReadable db" "databaseOk db" "sessionIdSchema sid = Some sid"
proof -
  from assms(2) have m: "managed db sid" "es = map rowEvent (sessionEvents db sid)" by (auto simp: absLog_def split: if_splits)
  from assms(1) have ok: "databaseOk db" "eventsReadable db" by (simp_all add: storedOk_def)
  from stored_read [OF assms(1) m(1)] obtain s where s: "requireState db sid = Inr s" "stateOk s" "mappingId (stateMapping s) = sid"
    by metis
  have "sessionIdSchema sid = Some sid"
    using s(2,3) by (auto simp: stateOk_def normalState_def selectedSessionMappingRecordSchema_def bind_eq_Some_conv
        dest: exact_identifiers)
  with s m ok require_facts [OF ok(1) s(1)] require_counters [OF ok(1) s(1)] show thesis by (intro that) auto
qed

lemma list_page:
  assumes "storedOk db" "absLog sid db = Some es" "after = None \<or> after = Some a \<and> 0 \<le> a \<and> a \<le> lastCursor es"
    "1 \<le> limit" "limit \<le> maxEventLimit"
  shows "listEvents sid after limit db = Inr (pageOf sid after limit es)"
    "selectedSessionEventStreamSchema (pageOf sid after limit es) = Some (pageOf sid after limit es)"
proof -
  obtain s where s: "requireState db sid = Inr s" "stateOk s" "sessionIdent (projectionSession (stateProjection s)) = sid"
    "logOk (sessionEvents db sid)" "recordCountersOk (sessionEvents db sid) (stateProjection s)"
    "es = map rowEvent (sessionEvents db sid)" "eventsReadable db" "databaseOk db" "sessionIdSchema sid = Some sid"
    using stored_log [OF assms(1,2)] by metis
  define rows where "rows = sessionEvents db sid"
  let ?p = "stateProjection s"
  note log = s(4,5) [folded rows_def] and es = s(6) [folded rows_def]
  obtain k where k: "(case after of None \<Rightarrow> rows | Some a \<Rightarrow> filter (\<lambda>r. rowCursor r > a) rows) = drop k rows"
    "map rowEvent (drop k rows) = logAfter after es" "k \<le> length rows"
    "rows \<noteq> [] \<Longrightarrow> after = Some a \<Longrightarrow> k = nat (a - rowCursor (hd rows) + 1)" "after = None \<Longrightarrow> k = 0"
    by (rule rows_after [OF log(1), of after a]) (use assms(3) es in auto)
  define page where "page = take (nat limit) (drop k rows)"
  have persisted: "assertPersistedEventProjection db ?p = Inr ()" by (rule persisted_ok [OF s(4,5,7,3)])
  have records: "mapAll parseEventRow page = Inr (map rowRecord page)"
    by (rule readable_records [OF s(7)]) (auto simp: page_def rows_def dest: in_set_takeD in_set_dropD)
  have cols: "eventCursor (rowEvent r) = rowCursor r" if "r \<in> set rows" for r
    using log(1) that columns_cursor by (auto simp: logOk_def list_all_iff)
  have readable: "rowReadable r \<and> rowSession r = sid" if "r \<in> set rows" for r
    using that s(7) set_sessionEvents [of db sid] by (auto simp: rows_def eventsReadable_def)
  have final: "lastCursor es = (if rows = [] then 0 else rowCursor (last rows))"
    using cols by (simp add: es lastCursor_def last_map)
  have committed: "lastEventCursor (projectionSession ?p) = (if rows = [] then None else Some (lastCursor es))"
    using log(2) by (simp add: recordCountersOk_def final)
  have range: "cursorOptionOk after"
  proof (cases "rows = []")
    case False
    then have "outputCursorOk (lastCursor es)"
      using readable [of "last rows"] cols [of "last rows"] by (simp add: final rowReadable_def eventOk_def)
    with assms(3) show ?thesis by (auto simp: cursorOptionOk_def outputCursorOk_def)
  qed (use assms(3) final in \<open>auto simp: cursorOptionOk_def outputCursorOk_def maxSafe_def\<close>)
  have start: "k < length rows" if "rows \<noteq> []" "after = None \<or> after = Some a \<and> a < lastCursor es"
  proof -
    have "rowCursor (last rows) = rowCursor (hd rows) + int (length rows) - 1"
      using contiguousFrom_last [OF logOk_contiguous [OF log(1) that(1)] that(1)] .
    moreover have "nat x < n" if "x < int n" "0 < n" for x n using that by linarith
    ultimately show ?thesis
      using that
    proof (elim disjE conjE)
      assume "after = Some a" "a < lastCursor es"
      moreover have "a - rowCursor (hd rows) + 1 < int (length rows)"
        using calculation \<open>rowCursor (last rows) = _\<close> final that(1) by simp
      ultimately show ?thesis
        using k(4) [OF that(1)] that(1) \<open>\<And>x n. x < int n \<Longrightarrow> 0 < n \<Longrightarrow> nat x < n\<close> by simp
    qed (use k(5) in simp)
  qed
  have full: "page \<noteq> []" if "rows \<noteq> []" "after = None \<or> after = Some a \<and> a < lastCursor es"
    using start [OF that] assms(4) by (simp add: page_def)
  have crossing: "page \<noteq> [] \<and> isBoundary (rowEvent (hd page))"
    if "boundaryCursor ?p = Some b" "after = None \<or> after = Some a \<and> a \<le> b" for b
  proof -
    have b: "rows \<noteq> []" "boundaryAfter (rowEvent (hd rows)) = Some b"
      using that(1) log(2) by (auto simp: recordCountersOk_def split: list.splits)
    then have "isBoundary (rowEvent (hd rows))" using boundaryAfter_real by fastforce
    moreover have "rowCursor (hd rows) = b + 1" using b calculation log(1) by (cases rows) (auto simp: logOk_def startOk_def)
    moreover have "k = 0" using k(4) [OF b(1)] k(5) that(2) calculation(2) by auto
    ultimately show ?thesis using b(1) assms(4) by (auto simp: page_def hd_conv_nth)
  qed
  have page: "selectedSessionEventStreamSchema (pageOf sid after limit es) = Some (pageOf sid after limit es)"
  proof (cases page)
    case Nil
    then have "take (nat limit) (logAfter after es) = []" unfolding page_def k(2) [symmetric] take_map [symmetric] by simp
    moreover have "outputCursorOk (lastCursor es)"
      using readable [of "last rows"] cols [of "last rows"]
      by (simp add: final rowReadable_def eventOk_def outputCursorOk_def maxSafe_def)
    moreover have "pageOf sid after limit es =
        \<lparr> streamSession = sid, streamEvents = [], streamNext = lastCursor es, streamTruncated = False \<rparr>"
      by (simp only: pageOf_def calculation(1) Let_def) simp
    ultimately show ?thesis using s(9) by (simp add: selectedSessionEventStreamSchema_def guard_def)
  next
    case (Cons r rs)
    have m: "take (nat limit) (logAfter after es) = map rowEvent (r # rs)"
      using Cons unfolding page_def k(2) [symmetric] by (simp add: take_map)
    have sub: "set (r # rs) \<subseteq> set rows" unfolding Cons [symmetric] page_def by (auto dest: in_set_takeD in_set_dropD)
    have "rows \<noteq> []" using sub by auto
    then have "contiguousFrom (rowCursor (hd rows) + int k) (drop k rows)"
      by (intro contiguousFrom_drop logOk_contiguous log(1) k(3))
    then have "contiguousFrom (rowCursor (hd rows) + int k) (r # rs)"
      using Cons contiguousFrom_take [of _ "drop k rows" "nat limit"] unfolding page_def by metis
    then have "contiguousFrom (rowCursor r) (r # rs)" by simp
    moreover have "\<forall>x \<in> set rs. \<not> isBoundary (rowEvent x)"
    proof
      fix x assume "x \<in> set rs"
      moreover have "rs = tl (take (nat limit) (drop k rows))" using Cons by (simp add: page_def)
      ultimately have "x \<in> set (drop (Suc k) rows)" by (auto simp: tl_take tl_drop drop_Suc dest: in_set_takeD)
      then have "x \<in> set (tl rows)" by (simp add: drop_Suc in_set_dropD)
      with log(1) show "\<not> isBoundary (rowEvent x)" by (cases rows) (auto simp: logOk_def list_all_iff)
    qed
    moreover have "0 \<le> rowCursor r"
      using contiguousFrom_bounds [OF logOk_contiguous [OF log(1) \<open>rows \<noteq> []\<close>]] sub log(1) by (cases rows) (force simp: logOk_def)+
    ultimately have "selectedSessionEventStreamSchema
        \<lparr> streamSession = sid, streamEvents = map rowEvent (r # rs), streamNext = rowCursor (last (r # rs)),
          streamTruncated = isBoundary (rowEvent r) \<rparr> =
      Some \<lparr> streamSession = sid, streamEvents = map rowEvent (r # rs), streamNext = rowCursor (last (r # rs)),
             streamTruncated = isBoundary (rowEvent r) \<rparr>"
      using readable sub s(9) by (intro stream_page) auto
    moreover have "last (r # rs) \<in> set (r # rs)" by (rule last_in_set) simp
    then have "eventCursor (rowEvent (last (r # rs))) = rowCursor (last (r # rs))" using sub cols by blast
    moreover have "last (rowEvent r # map rowEvent rs) = rowEvent (last (r # rs))" using last_map [of "r # rs" rowEvent] by simp
    ultimately show ?thesis by (simp add: pageOf_def m Let_def lastCursor_def del: last.simps)
  qed
  have fields: "take (nat limit) (logAfter after es) = map rowEvent page"
    unfolding page_def k(2) [symmetric] by (simp add: take_map)
  have checks: "\<not> (case after of None \<Rightarrow> False
      | Some a \<Rightarrow> a > (case lastEventCursor (projectionSession ?p) of None \<Rightarrow> 0 | Some c \<Rightarrow> c))"
    "\<not> (map recordEvent (map rowRecord page) = [] \<and>
       (case lastEventCursor (projectionSession ?p) of None \<Rightarrow> False
        | Some c \<Rightarrow> (case after of None \<Rightarrow> True | Some a \<Rightarrow> a < c)))"
    "\<not> ((case boundaryCursor ?p of None \<Rightarrow> False | Some b \<Rightarrow> (case after of None \<Rightarrow> True | Some a \<Rightarrow> a \<le> b)) \<and>
       \<not> (case map recordEvent (map rowRecord page) of [] \<Rightarrow> False | e # _ \<Rightarrow> isBoundary e))"
    using assms(3) committed final full crossing by (auto split: option.splits list.splits if_splits)
  have stream: "\<lparr> streamSession = sid, streamEvents = map recordEvent (map rowRecord page),
      streamNext = (if map recordEvent (map rowRecord page) = []
        then (case lastEventCursor (projectionSession ?p) of None \<Rightarrow> 0 | Some c \<Rightarrow> c)
        else eventCursor (last (map recordEvent (map rowRecord page)))),
      streamTruncated = (case map recordEvent (map rowRecord page) of [] \<Rightarrow> False | e # _ \<Rightarrow> isBoundary e) \<rparr> =
      pageOf sid after limit es"
    using committed final by (auto simp: pageOf_def fields Let_def lastCursor_def comp_def split: list.splits)
  have rows_page: "take (nat limit) (case after of None \<Rightarrow> sessionEvents db sid
      | Some a \<Rightarrow> filter (\<lambda>r. rowCursor r > a) (sessionEvents db sid)) = page"
    unfolding page_def k(1) [symmetric] unfolding rows_def ..
  show "listEvents sid after limit db = Inr (pageOf sid after limit es)"
    unfolding listEvents_def parseSessionIdArg_def s(9) parsed_Some andThen_simps s(1) Let_def persisted rows_page records
      stream page
    using checks range assms(4,5) by simp
  show "selectedSessionEventStreamSchema (pageOf sid after limit es) = Some (pageOf sid after limit es)" by (rule page)
qed

end
