(* ===== verification/Append_Commits.thy ===== *)
theory Append_Commits
  imports Retention_Bounds Repository_Replay
begin

text \<open>
  When an append commits. Beyond the checks of its own input, only four things can stop it on a
  stored session: an upstream event id seen before, settings too large for their column, the schema's
  bounds on the counters, and retention on a log that starts with a boundary with nothing before it
  (\<open>openLog\<close>), as the repository leaves it after an adoption.
\<close>

section \<open>Retention plans on stored logs\<close>

lemma boundary_created:
  assumes "sessionIdSchema sid = Some sid" "isoTimestampSchema t = Some t" "1 \<le> c" "c \<le> maxSafe"
  shows "\<exists>b. createRetentionBoundaryRecord sid c t = Inr b"
proof -
  have "eventOk (retentionBoundaryEvent sid c t)"
    using assms by (simp add: eventOk_def retentionBoundaryEvent_def eventBodySchema_def outputCursorOk_def guard_def)
  then have k: "selectedProjectionEventSchema (retentionBoundaryEvent sid c t) = Some (retentionBoundaryEvent sid c t)"
    by (simp add: event_kept_iff)
  have "isBoundary (retentionBoundaryEvent sid c t)" by (simp add: isBoundary_def retentionBoundaryEvent_def)
  then show ?thesis by (simp add: createRetentionBoundaryRecord_def selectedProjectedEventByteLength_def k)
qed

lemma createRetentionBoundaryRecord_id:
  assumes "createRetentionBoundaryRecord sid c t = Inr b"
  shows "codexEventId (recordEvent b) = None"
proof -
  obtain e where e: "selectedProjectionEventSchema (retentionBoundaryEvent sid c t) = Some e" "recordEvent b = e"
    using assms by (auto simp: createRetentionBoundaryRecord_def)
  from e(1) have "codexEventId e = None"
    by (auto simp: selectedProjectionEventSchema_def bind_eq_Some_conv retentionBoundaryEvent_def)
  with e(2) show ?thesis by simp
qed

definition candidateOk :: "event_record \<Rightarrow> bool" where
  "candidateOk r \<longleftrightarrow> isoTimestampSchema (recordCapture r) = Some (recordCapture r) \<and> recordCursor r \<le> maxSafe"

lemma retainLoop_total:
  assumes "sessionIdSchema sid = Some sid" "\<forall>r \<in> set cands. candidateOk r"
  shows "\<exists>r. retainLoop sid policy retained bytes cands = Inr r"
  using assms(2)
proof (induction cands arbitrary: retained bytes)
  case (Cons c cs)
  show ?case
  proof (cases "int (length retained) \<ge> outputEventLimit policy - 1 \<or> recordCursor c \<le> 1")
    case False
    then obtain b where "createRetentionBoundaryRecord sid (recordCursor c - 1) (recordCapture c) = Inr b"
      using boundary_created [OF assms(1), of "recordCapture c" "recordCursor c - 1"] Cons.prems by (auto simp: candidateOk_def)
    then show ?thesis using Cons.IH Cons.prems False by simp
  qed simp
qed simp

lemma plan_total:
  assumes "sessionIdSchema (sessionIdent (projectionSession p)) = Some (sessionIdent (projectionSession p))"
    "\<forall>r \<in> set records. candidateOk r" "filter realRecord records \<noteq> []"
  shows "\<exists>plan. planSelectedProjectionRetention records p policy = Inr plan"
proof (cases "projectionMeetsRetention p policy")
  case True
  then show ?thesis by (simp add: planSelectedProjectionRetention_def Let_def)
next
  case False
  let ?sid = "sessionIdent (projectionSession p)"
  have ok: "\<forall>r \<in> set (filter realRecord records). candidateOk r" using assms(2) by simp
  show ?thesis
  proof (cases "filter realRecord records" rule: remdups_adj.cases)
    case (3 newest second rest)
    have "\<forall>r \<in> set (second # rest). candidateOk r" using ok by (simp add: 3)
    from retainLoop_total [OF assms(1) this] obtain x where "retainLoop ?sid policy [newest] (recordBytes newest) (second # rest) = Inr x"
      by blast
    then obtain ret octets where loop: "retainLoop ?sid policy [newest] (recordBytes newest) (second # rest) = Inr (ret, octets)"
      by (cases x) blast
    from retainLoop_Inr [OF loop] obtain n where "ret = [newest] @ take n (second # rest)" by blast
    then have "ret \<noteq> []" "set ret \<subseteq> set (filter realRecord records)" unfolding 3 by (auto dest: in_set_takeD)
    then have "candidateOk (last ret)" using ok last_in_set [of ret] by blast
    then have "recordCursor (last ret) \<le> 1 \<or> (\<exists>b. createRetentionBoundaryRecord ?sid (recordCursor (last ret) - 1) (recordCapture (last ret)) = Inr b)"
      using boundary_created [OF assms(1), of "recordCapture (last ret)" "recordCursor (last ret) - 1"] by (force simp: candidateOk_def)
    then have "\<exists>plan. finishRetentionPlan ?sid (newest # second # rest) ret octets = Inr plan"
      by (auto simp: finishRetentionPlan_def Let_def)
    then show ?thesis using False by (simp add: planSelectedProjectionRetention_def 3 loop Let_def del: retainLoop.simps)
  qed (use assms(3) False in \<open>simp_all add: planSelectedProjectionRetention_def Let_def\<close>)
qed

text \<open>The layout of a log with an event, whose boundary, if it has one, has something before it.\<close>

definition openLog :: "event_row list \<Rightarrow> bool" where
  "openLog rows \<longleftrightarrow>
     (\<exists>r \<in> set rows. \<not> isBoundary (rowEvent r)) \<and>
     (case rows of [] \<Rightarrow> True | r # _ \<Rightarrow> isBoundary (rowEvent r) \<longrightarrow> boundaryAfter (rowEvent r) \<noteq> None)"

lemma contiguous_records:
  "contiguousFrom c rows \<Longrightarrow> \<forall>r \<in> set rows. columnsOk r \<Longrightarrow> contiguousRecords (map rowRecord rows)"
proof (induction rows arbitrary: c rule: induct_list012)
  case (3 r s rows)
  then have "contiguousRecords (map rowRecord (s # rows))" by auto
  moreover have "eventCursor (rowEvent r) = c" "eventCursor (rowEvent s) = c + 1" using "3.prems" columns_cursor by auto
  ultimately show ?case by (simp add: contiguousRecords_def)
qed (simp_all add: contiguousRecords_def)

lemma layout_ok:
  assumes "logOk rows" "recordCountersOk rows p" "openLog rows"
  shows "assertSelectedRetentionLayout (rev (map rowRecord rows)) p = Inr ()"
proof (cases rows)
  case (Cons r rs)
  have cols: "\<forall>x \<in> set rows. columnsOk x" using assms(1) by (auto simp: logOk_def list_all_iff)
  then have cursor: "eventCursor (rowEvent x) = rowCursor x" if "x \<in> set rows" for x using that columns_cursor by simp
  have real: "filter (\<lambda>r. \<not> realRecord r) (map rowRecord rs) = []"
    using assms(1) Cons by (auto simp: logOk_def list_all_iff realRecord_def filter_empty_conv)
  have ex: "list_ex realRecord (map rowRecord rows)" using assms(3) by (auto simp: openLog_def list_ex_iff realRecord_def)
  note contiguous = contiguous_records [OF logOk_contiguous [OF assms(1)] cols]
  have final: "last (map rowRecord rows) = rowRecord (last rows)" using Cons by (simp add: last_map)
  have start: "startOk r" using assms(1) Cons by (simp add: logOk_def)
  have c: "earliestCursor p = Some (rowCursor r)" "lastEventCursor (projectionSession p) = Some (rowCursor (last rows))"
    "boundaryCursor p = boundaryAfter (rowEvent r)"
    using assms(2) Cons by (simp_all add: recordCountersOk_def)
  have b: "isBoundary (rowEvent r) \<Longrightarrow> \<exists>a. boundaryAfter (rowEvent r) = Some a \<and> rowCursor r = a + 1"
    "\<not> isBoundary (rowEvent r) \<Longrightarrow> boundaryAfter (rowEvent r) = None \<and> rowCursor r = 1"
    using start assms(3) Cons by (auto simp: startOk_def openLog_def boundaryAfter_def isBoundary_def split: option.splits if_splits event_body.splits)
  have l: "rev (rev (map rowRecord rows)) = rowRecord r # map rowRecord rs" by (simp add: Cons)
  have "filter (\<lambda>r. \<not> realRecord r) (rowRecord r # map rowRecord rs) = (if isBoundary (rowEvent r) then [rowRecord r] else [])"
    using real by (simp add: realRecord_def)
  moreover have "eventCursor (rowEvent (last rows)) = rowCursor (last rows)" using cursor [of "last rows"] Cons by simp
  ultimately have facts: "\<not> (length (filter (\<lambda>r. \<not> realRecord r) (rowRecord r # map rowRecord rs)) > 1 \<or>
      length (filter (\<lambda>r. \<not> realRecord r) (rowRecord r # map rowRecord rs)) = 1 \<and> realRecord (rowRecord r))"
    "list_ex realRecord (rowRecord r # map rowRecord rs)" "contiguousRecords (rowRecord r # map rowRecord rs)"
    "recordCursor (rowRecord r) = rowCursor r" "recordCursor (last (rowRecord r # map rowRecord rs)) = rowCursor (last rows)"
    using ex contiguous final cursor [of r] Cons by (simp_all add: realRecord_def split: if_splits)
  show ?thesis
    unfolding assertSelectedRetentionLayout_def l list.case Let_def
    using facts c b by (cases "isBoundary (rowEvent r)") (auto simp: realRecord_def)
qed (use assms(3) in \<open>simp add: openLog_def\<close>)

section \<open>Retention commits\<close>

lemma execute_total:
  assumes "planSelectedProjectionRetention (rev (map rowRecord rows)) next policy = Inr plan" "planBoundary plan = Some b"
    "planRemovable plan \<noteq> []" "rows = sessionEvents db sid" "sessionIdent (projectionSession next) = sid"
    "logOk rows" "recordCountersOk rows next" "eventsReadable db" "managed db sid" "normalProjection next"
    "2 \<le> outputEventLimit policy" "outputByteLimit policy \<le> maxProjectionBytes"
  shows "\<exists>r. executeRetentionPlan next plan b db = Inr r"
proof -
  have "mapAll parseEventRow (rev rows) = Inr (rev (map rowRecord rows))"
    using readable_records [OF assms(8), of "rev rows" sid] assms(4) by (simp add: rev_map)
  from plan_index [OF this assms(6,1-3)] obtain i where i: "0 < i" "i < length rows" "recordCursor b = rowCursor (rows ! (i - 1))"
    "length (planRetained plan) = length rows - i" "planBytes plan = sum_list (map rowBytes (drop i rows))"
    "isBoundary (recordEvent b)" "eventSessionId (recordEvent b) = sid" "boundaryAfter (recordEvent b) = Some (recordCursor b - 1)"
    using assms(5) by metis
  have rows: "rows \<noteq> []" using i(2) by auto
  note c = logOk_contiguous [OF assms(6) rows]
  have cut: "rowCursor (rows ! (i - 1)) = rowCursor (hd rows) + int (i - 1)"
    using contiguousFrom_nth [OF c] i by simp
  have checked: "checkedRecord b" by (rule plan_boundary [OF assms(1,2)])
  have ahead: "\<not> (case (boundaryCursor next, boundaryAfter (recordEvent b)) of (Some b, Some a) \<Rightarrow> a < b | _ \<Rightarrow> False)"
  proof (cases "boundaryCursor next")
    case (Some a)
    then have "boundaryAfter (rowEvent (hd rows)) = Some a" using assms(7) rows by (cases rows) (auto simp: recordCountersOk_def)
    then have "rowCursor (hd rows) = a + 1" using assms(6) rows by (cases rows) (auto simp: logOk_def startOk_def split: if_splits)
    then show ?thesis using Some i(3,8) cut by simp
  qed simp
  have removed: "\<not> fst (deleteEventsThrough sid (recordCursor b) db) < 1"
  proof -
    have "rows ! (i - 1) \<in> set (sessionEvents db sid)" using i(1,2) assms(4) by simp
    then have "filter (\<lambda>r. rowSession r = sid \<and> rowCursor r \<le> recordCursor b) (eventTable db) \<noteq> []"
      using i(3) by (auto simp: set_sessionEvents filter_empty_conv)
    then show ?thesis by (cases "filter (\<lambda>r. rowSession r = sid \<and> rowCursor r \<le> recordCursor b) (eventTable db)")
        (simp_all add: deleteEventsThrough_def Let_def)
  qed
  have "codexEventId (recordEvent b) = None"
    by (rule plan_Inr [OF assms(1,2)]) (rule createRetentionBoundaryRecord_id)
  then have "rowEventId (eventToRow b) = None" by (simp add: eventToRow_def Let_def)
  moreover have "recordCursor b < rowCursor r"
    if "r \<in> set (eventTable (snd (deleteEventsThrough sid (recordCursor b) db)))" "rowSession r = sid" for r
    using that by (simp add: deleteEventsThrough_def Let_def)
  moreover have "list_ex (\<lambda>m. mappingId m = sid) (sessionTable (snd (deleteEventsThrough sid (recordCursor b) db)))"
    using assms(9) by (auto simp: deleteEventsThrough_def Let_def managed_def list_ex_iff)
  ultimately have "\<exists>db'. insertEvent b (snd (deleteEventsThrough sid (recordCursor b) db)) = Inr db'"
    by (force simp: insertEvent_def Let_def list_ex_iff i(7))
  moreover have "parseProjection (next\<lparr> retainedCount := int (length (planRetained plan)) + 1,
      retainedBytes := planBytes plan + recordBytes b, earliestCursor := Some (recordCursor b),
      boundaryCursor := boundaryAfter (recordEvent b) \<rparr>) = Inr (next\<lparr> retainedCount := int (length (planRetained plan)) + 1,
      retainedBytes := planBytes plan + recordBytes b, earliestCursor := Some (recordCursor b),
      boundaryCursor := boundaryAfter (recordEvent b) \<rparr>)"
  proof -
    have bytes: "0 \<le> rowBytes r \<and> rowBytes r \<le> 100000" if "r \<in> set rows" for r
    proof -
      have "rowReadable r" using that assms(4,8) by (simp add: set_sessionEvents eventsReadable_def)
      then show ?thesis
        using eventBytes_bound [of "rowEvent r"] eventBytes_pos [of "rowEvent r"] by (simp add: rowReadable_def)
    qed
    have b: "0 < recordBytes b \<and> recordBytes b \<le> 100000"
      using checked eventBytes_bound [of "recordEvent b"] eventBytes_pos [of "recordEvent b"] by (simp add: checkedRecord_def)
    have "0 \<le> planBytes plan"
      unfolding i(5) using bytes by (intro sum_list_nonneg) (auto dest: in_set_dropD)
    moreover have "planBytes plan + recordBytes b \<le> maxProjectionBytes"
    proof (cases "length (planRetained plan) = 1")
      case True
      then have "drop i rows = [last rows]" using i(2,4) rows by (metis drop_Cons' append_butlast_last_id append_eq_conv_conj diff_diff_cancel length_butlast less_imp_le)
      then show ?thesis using bytes [of "last rows"] b rows by (simp add: i(5) maxProjectionBytes_def)
    qed (use plan_bounds [OF assms(1,2,11)] assms(12) in simp)
    moreover have "retainedCount next = int (length rows)" using assms(7) by (simp add: recordCountersOk_def)
    moreover have "projectionCountersOk next" using assms(10) by (simp add: projection_kept_iff)
    moreover have "outputCursorOk (recordCursor b)" using checked by (simp add: checkedRecord_def eventOk_def)
    moreover have "1 \<le> recordCursor b" using i(3) cut assms(6) rows by (cases rows) (auto simp: logOk_def)
    ultimately show ?thesis
      using assms(10) i b
      by (simp add: parseProjection_def projection_kept_iff projectionCountersOk_def cursorOptionOk_def outputCursorOk_def)
  qed
  ultimately show ?thesis using ahead removed
    by (auto simp: executeRetentionPlan_def Let_def split_beta assms(5))
qed

lemma retention_total:
  assumes "logOk (sessionEvents db sid)" "recordCountersOk (sessionEvents db sid) next" "sessionIdent (projectionSession next) = sid"
    "eventsReadable db" "managed db sid" "normalProjection next" "openLog (sessionEvents db sid)"
    "2 \<le> outputEventLimit policy" "outputByteLimit policy \<le> maxProjectionBytes"
  shows "\<exists>r. applySelectedProjectionRetention next policy db = Inr r"
proof (cases "projectionMeetsRetention next policy")
  case True
  then show ?thesis by (simp add: applySelectedProjectionRetention_def)
next
  case False
  let ?rows = "sessionEvents db sid"
  let ?records = "rev (map rowRecord ?rows)"
  have records: "mapAll parseEventRow (rev ?rows) = Inr ?records"
    using readable_records [OF assms(4), of "rev ?rows" sid] by (simp add: rev_map)
  have sid: "sessionIdSchema (sessionIdent (projectionSession next)) = Some (sessionIdent (projectionSession next))"
    using assms(6) by (simp add: projection_kept_iff sessionOk_def sessionFieldsOk_def)
  have "candidateOk r" if "r \<in> set ?records" for r
  proof -
    from that obtain x where "x \<in> set ?rows" "r = rowRecord x" by auto
    then show ?thesis
      using assms(4) by (auto simp: set_sessionEvents eventsReadable_def rowReadable_def candidateOk_def eventOk_def outputCursorOk_def)
  qed
  moreover have "filter realRecord ?records \<noteq> []"
    using assms(7) by (auto simp: openLog_def filter_empty_conv realRecord_def)
  ultimately obtain plan where plan: "planSelectedProjectionRetention ?records next policy = Inr plan"
    using plan_total [OF sid, of ?records policy] by blast
  have "\<exists>r. executeRetentionPlan next plan b db = Inr r" if "planBoundary plan = Some b" "planRemovable plan \<noteq> []" for b
    by (rule execute_total [OF plan that refl assms(3,1,2,4-6,8,9)])
  then have "\<exists>r. (case planBoundary plan of None \<Rightarrow> Inr (next, db)
      | Some b \<Rightarrow> if planRemovable plan = [] then Inr (next, db) else executeRetentionPlan next plan b db) = Inr r"
    by (cases "planBoundary plan") auto
  then show ?thesis
    using False by (simp add: applySelectedProjectionRetention_def assms(3) records layout_ok [OF assms(1,2,7)] plan)
qed

section \<open>An append commits\<close>

text \<open>No stored event of the session has the upstream id of the event.\<close>

definition freshEvent :: "database \<Rightarrow> projection_event \<Rightarrow> bool" where
  "freshEvent db e \<longleftrightarrow>
     codexEventId e = None \<or> (\<forall>r \<in> set (sessionEvents db (eventSessionId e)). codexEventId (rowEvent r) \<noteq> codexEventId e)"

lemma eventToRow_id: "rowEventId (eventToRow r) = codexEventId (recordEvent r)"
  by (simp add: eventToRow_def Let_def)

lemma distinct_filter_key: "distinct (map f xs) \<Longrightarrow> x \<in> set xs \<Longrightarrow> length (filter (\<lambda>y. f y = f x) xs) = 1"
proof (induction xs)
  case (Cons a xs)
  then have "filter (\<lambda>y. f y = f a) xs = []" by (auto simp: filter_empty_conv image_iff)
  with Cons show ?case by (cases "x = a") (auto simp: image_iff)
qed simp

lemma insert_total:
  assumes "storedOk db" "managed db (eventSessionId (recordEvent e))" "freshEvent db (recordEvent e)"
    "recordCursor e = nextRowCursor (sessionEvents db (eventSessionId (recordEvent e)))"
  shows "\<exists>db'. insertEvent e db = Inr db'"
proof -
  let ?sid = "eventSessionId (recordEvent e)"
  obtain s where "requireState db ?sid = Inr s" using stored_read [OF assms(1,2)] by metis
  then have log: "logOk (sessionEvents db ?sid)" using require_facts(4) assms(1) by (simp add: storedOk_def)
  have "\<not> (rowCursor r = recordCursor e \<or> codexEventId (recordEvent e) \<noteq> None \<and> rowEventId r = codexEventId (recordEvent e))"
    if "r \<in> set (eventTable db)" "rowSession r = ?sid" for r
  proof -
    have r: "r \<in> set (sessionEvents db ?sid)" using that by (simp add: set_sessionEvents)
    have "columnsOk r" using log r by (auto simp: logOk_def list_all_iff split: list.splits)
    then have "rowEventId r = codexEventId (rowEvent r)"
      using eventToRow_id [of "rowRecord r"] unfolding columnsOk_def by (metis event_record.select_convs(1))
    with assms(3,4) nextRowCursor_greater [OF log r] r show ?thesis by (auto simp: freshEvent_def)
  qed
  moreover have "list_ex (\<lambda>m. mappingId m = ?sid) (sessionTable db)" using assms(2) by (auto simp: managed_def list_ex_iff)
  ultimately show ?thesis by (auto simp: insertEvent_def list_ex_iff eventToRow_def Let_def)
qed

lemma commit_total:
  assumes "databaseOk db" "managed db sid" "projectionTable db2 = projectionTable db" "sessionIdent (projectionSession p) = sid"
    "settingsFit (sessionSettings (projectionSession p))"
  shows "\<exists>db'. commitProjection p db2 = Inr db'"
proof -
  obtain r where "r \<in> set (projectionTable db)" "prSession r = sid" by (rule managed_rows [OF assms(1,2)])
  moreover have "distinct (map prSession (projectionTable db))" using assms(1) unfolding databaseOk_def by blast
  ultimately have "length (filter (\<lambda>r. prSession r = sid) (projectionTable db)) = 1"
    by (metis distinct_filter_key)
  then show ?thesis using assms(3-5) by (simp add: commitProjection_def updateProjection_def Let_def)
qed

text \<open>A log that retention may cut: empty, or starting with an event or with a boundary after something.\<close>

definition prunable :: "event_row list \<Rightarrow> bool" where
  "prunable rows \<longleftrightarrow> (case rows of [] \<Rightarrow> True | r # _ \<Rightarrow> isBoundary (rowEvent r) \<longrightarrow> boundaryAfter (rowEvent r) \<noteq> None)"

lemma prunable_open: "prunable rows \<Longrightarrow> \<not> isBoundary (recordEvent e) \<Longrightarrow> openLog (rows @ [eventToRow e])"
  by (cases rows) (auto simp: prunable_def openLog_def)

lemma mapping_times:
  "selectedSessionMappingRecordSchema m = Some m \<Longrightarrow> isoTimestampSchema (mappingUpdatedAt m) = Some (mappingUpdatedAt m)"
  by (cases m) (auto simp: selectedSessionMappingRecordSchema_def bind_eq_Some_conv)

lemma revision_normal:
  "stateOk s \<Longrightarrow> parseSelectedStateRevision (selectedStateRevision s) = Inr (selectedStateRevision s)"
  using mapping_times [of "stateMapping s"]
  by (auto simp: stateOk_def normalState_def parseSelectedStateRevision_def selectedStateRevision_def projection_kept_iff
      sessionOk_def sessionFieldsOk_def guard_def)

lemma append_commits:
  assumes "storedOk db" "requireState db sid = Inr current" "checkedRecord e" "eventSessionId (recordEvent e) = sid"
    "normalProjection next" "assertProjectionIdentity (stateMapping current) next = Inr ()"
    "assertStateChronology (stateMapping current) next = Inr ()" "assertEventAdvance (stateProjection current) e next = Inr ()"
    "freshEvent db (recordEvent e)" "settingsFit (sessionSettings (projectionSession next))"
    "parseSelectedProjectionRetentionPolicy policy = Inr policy" "\<not> isBoundary (recordEvent e)"
    "projectionMeetsRetention next policy \<or> prunable (sessionEvents db sid)"
  shows "\<exists>r. appendEvent e next (selectedStateRevision current) (Some policy) db = Inr r"
proof -
  have ok: "databaseOk db" "eventsReadable db" using assms(1) by (simp_all add: storedOk_def)
  note f = require_facts [OF ok(1) assms(2)] and c = require_counters [OF ok(1) assms(2)]
  note parse = checked_parse [OF assms(3)]
  have "parsedEvent (recordEvent e)"
    using assms(3) event_kept_iff [of "recordEvent e"] unfolding checkedRecord_def parsedEvent_def by blast
  note log = advance_log [OF assms(8) f(4) c this]
  obtain db1 where ins: "insertEvent e db = Inr db1" using insert_total [OF assms(1) _ assms(9)] assms(4) f(1) log(1) by blast
  have rows: "sessionEvents db1 sid = sessionEvents db sid @ [eventToRow e]"
    using insertEvent_Inr(1) [OF ins] sessionEvents_insert(2) [of db "eventToRow e"] nextRowCursor_greater [OF f(4)] log(1) assms(4)
    by simp
  have read: "eventsReadable db1" by (rule insert_readable [OF ins assms(3) ok(2)])
  have target: "sessionIdent (projectionSession next) = sid" using advance_Inr(2) [OF assms(8)] f(3) by simp
  have m1: "managed db1 sid" using f(1) insertEvent_tables [OF ins] by (simp add: sameTables_def managed_def)
  have policy: "2 \<le> outputEventLimit policy" "outputByteLimit policy \<le> maxProjectionBytes"
    using assms(11) by (auto simp: parseSelectedProjectionRetentionPolicy_def retentionPolicySchema_def maxProjectionBytes_def split: option.splits if_splits)
  have "\<exists>r. applySelectedProjectionRetention next policy db1 = Inr r"
  proof (cases "projectionMeetsRetention next policy")
    case True
    then show ?thesis by (simp add: applySelectedProjectionRetention_def)
  next
    case False
    then have "openLog (sessionEvents db1 sid)" using prunable_open assms(12,13) by (simp add: rows)
    then show ?thesis
      using retention_total [OF _ _ target read m1 assms(5) _ policy] log(2,3) by (simp add: rows)
  qed
  then obtain p db2 where ret: "applySelectedProjectionRetention next policy db1 = Inr (p, db2)" by force
  note kept = retention_written [OF ret assms(5) read]
  have "projectionTable db2 = projectionTable db"
    using insertEvent_tables [OF ins] retention_tables [OF ret] by (simp add: sameTables_def)
  then obtain db' where written: "commitProjection p db2 = Inr db'"
    using commit_total [OF ok(1) f(1), of db2 p] kept target assms(10) by auto
  have "assertPersistedEventProjection db (stateProjection current) = Inr ()"
    by (rule persisted_ok [OF f(4) c ok(2) f(3)])
  moreover have "assertCurrentRevision current (selectedStateRevision current) = Inr ()"
    by (simp add: assertCurrentRevision_def Let_def)
  moreover have "parseProjection next = Inr next" using assms(5) by (simp add: parseProjection_def)
  ultimately show ?thesis
    using assms(2,6-8,11) ins ret written parse revision_normal [OF stored_required(1) [OF assms(1,2)]]
    by (simp add: appendEvent_def appendEventTransaction_def assms(4))
qed

end
