(* ===== verification/Append_Port.thy ===== *)
theory Append_Port
  imports Append_Commits Projection_Reducer_Laws
begin

text \<open>
  \<open>packages/storage/src/projection-append-port.ts\<close>: the two ports through which the server
  writes projected events. A port gives an event its session and its cursor, computes the projection
  that commits it, appends it (or replaces the log with it) and publishes what was committed. The
  publisher is an option of the port and a parameter of the model: a function from the committed
  append and a state of its own to whether it returned and its next state. Nothing runs between the
  read of the current state and the append.
\<close>

section \<open>Inputs and results\<close>

record append_input =
  inputSession :: js_string
  inputRevision :: state_revision
  inputEvent :: uncommitted_event
  inputNext :: session_projection

datatype port_error = Repository_failure repository_error | Publication_failed append_result

type_synonym 'h publisher = "append_result \<Rightarrow> 'h \<Rightarrow> bool \<times> 'h"

definition portFailure :: "'a outcome \<Rightarrow> port_error + 'a" where
  "portFailure r = (case r of Inl e \<Rightarrow> Inl (Repository_failure e) | Inr x \<Rightarrow> Inr x)"

lemma portFailure_Inr [simp]: "portFailure r = Inr x \<longleftrightarrow> r = Inr x"
  by (cases r) (simp_all add: portFailure_def)

section \<open>Addressing\<close>

definition parseNextCursor :: "int \<Rightarrow> int outcome" where
  "parseNextCursor base = (if outputCursorOk (base + 1) then Inr (base + 1) else Inl Cursor_not_monotonic)"

definition assignNextCursor :: "int option \<Rightarrow> int option \<Rightarrow> int outcome" where
  "assignNextCursor lastEvent boundary =
     parseNextCursor (max (case lastEvent of None \<Rightarrow> 0 | Some c \<Rightarrow> c) (case boundary of None \<Rightarrow> 0 | Some c \<Rightarrow> c))"

text \<open>\<open>{ ...input.event, session_id, cursor, next_cursor? }\<close>\<close>

definition addressedEvent :: "js_string \<Rightarrow> int \<Rightarrow> uncommitted_event \<Rightarrow> projection_event" where
  "addressedEvent sid cursor e =
     \<lparr> capturedAt = capturedAt e, upstreamAt = upstreamAt e, codexEventId = codexEventId e, codexEventType = codexEventType e,
       contentState = contentState e, contentNotice = contentNotice e,
       eventBody = map_event_body (\<lambda>_. cursor) (eventBody e), eventSessionId = sid, eventCursor = cursor \<rparr>"

definition parseAddressedEvent :: "js_string \<Rightarrow> int \<Rightarrow> uncommitted_event \<Rightarrow> projection_event outcome" where
  "parseAddressedEvent sid cursor e = parsed (selectedProjectionEventSchema (addressedEvent sid cursor e)) Invalid_event"

definition addressedSession :: "int \<Rightarrow> session_projection \<Rightarrow> managed_session" where
  "addressedSession cursor s = session_projection.extend s (managed_session.fields (Some cursor))"

definition parseAddressedSession :: "int \<Rightarrow> session_projection \<Rightarrow> managed_session outcome" where
  "parseAddressedSession cursor s = parsed (managedSessionProjectionSchema (addressedSession cursor s)) Invalid_projection"

definition recordOf :: "projection_event \<Rightarrow> event_record outcome" where
  "recordOf event = andThen (selectedProjectedEventByteLength event) (\<lambda>bytes. Inr \<lparr> recordEvent = event, recordBytes = bytes \<rparr>)"

section \<open>Appending\<close>

text \<open>The retention policy of a port, checked when the port is made; a failure is a \<open>TypeError\<close>.\<close>

definition parseRetention :: "retention_policy option \<Rightarrow> retention_policy option" where
  "parseRetention candidate =
     (case retentionPolicySchema (case candidate of None \<Rightarrow> defaultRetentionPolicy | Some p \<Rightarrow> p) of
        None \<Rightarrow> None
      | Some p \<Rightarrow> if outputEventLimit p < 2 then None else Some p)"

text \<open>
  The inputs are typed, so the checks of their object shape and keys have no counterpart; the event and
  the next session are kept as they are.
\<close>

definition parseAppendInput :: "append_input \<Rightarrow> (js_string \<times> state_revision) outcome" where
  "parseAppendInput input =
     andThen (parsed (sessionIdSchema (inputSession input)) Session_not_found) (\<lambda>sid.
     andThen (parseSelectedStateRevision (inputRevision input)) (\<lambda>revision. Inr (sid, revision)))"

definition assertExpectedRevision :: "selected_state \<Rightarrow> state_revision \<Rightarrow> unit outcome" where
  "assertExpectedRevision current expected =
     (let actual = selectedStateRevision current in
      throwIf
        (revMappingUpdatedAt actual \<noteq> revMappingUpdatedAt expected \<or>
         revProjectionUpdatedAt actual \<noteq> revProjectionUpdatedAt expected \<or>
         revLastCursor actual \<noteq> revLastCursor expected)
        Projection_conflict)"

definition appendedProjection :: "projection_record \<Rightarrow> managed_session \<Rightarrow> event_record \<Rightarrow> projection_record" where
  "appendedProjection current session record =
     \<lparr> projectionSession = session, retainedCount = retainedCount current + 1,
       retainedBytes = retainedBytes current + recordBytes record,
       earliestCursor = Some (case earliestCursor current of None \<Rightarrow> recordCursor record | Some c \<Rightarrow> c),
       boundaryCursor =
         (if isBoundary (recordEvent record) then boundaryAfter (recordEvent record) else boundaryCursor current) \<rparr>"

text \<open>What is read and computed before \<open>repository.appendEvent\<close>, and the call.\<close>

definition appendStored :: "retention_policy \<Rightarrow> append_input \<Rightarrow> database \<Rightarrow> (append_result \<times> database) outcome" where
  "appendStored retention input db =
     andThen (parseAppendInput input) (\<lambda>(sid, revision).
     andThen (repositoryRequire db sid) (\<lambda>current.
     andThen (assertExpectedRevision current revision) (\<lambda>_.
     (let p = stateProjection current in
      andThen (assignNextCursor (lastEventCursor (projectionSession p)) (boundaryCursor p)) (\<lambda>cursor.
      andThen (parseAddressedEvent sid cursor (inputEvent input)) (\<lambda>event.
      andThen (parseAddressedSession cursor (inputNext input)) (\<lambda>session.
      andThen (recordOf event) (\<lambda>record.
      appendEvent record (appendedProjection p session record) revision (Some retention) db))))))))"

text \<open>\<open>await publish(committed)\<close>: a failure does not undo the append.\<close>

definition publishing ::
  "'h publisher \<Rightarrow> (append_result \<times> database) outcome \<Rightarrow> database \<times> 'h \<Rightarrow> (port_error + append_result) \<times> database \<times> 'h" where
  "publishing publish r state =
     (case r of
        Inl e \<Rightarrow> (Inl (Repository_failure e), state)
      | Inr (res, db) \<Rightarrow>
          (case publish res (snd state) of
             (ok, hub) \<Rightarrow> (if ok then Inr res else Inl (Publication_failed res), db, hub)))"

definition portAppend ::
  "retention_policy \<Rightarrow> 'h publisher \<Rightarrow> append_input \<Rightarrow> database \<times> 'h \<Rightarrow> (port_error + append_result) \<times> database \<times> 'h" where
  "portAppend retention publish input state = publishing publish (appendStored retention input (fst state)) state"

section \<open>Continuity boundaries\<close>

record continuity_input =
  continuitySession :: js_string
  continuityRevision :: state_revision
  continuityCapturedAt :: js_string
  continuityReason :: boundary_reason
  continuityNext :: session_projection

definition continuityEvent :: "js_string \<Rightarrow> int \<Rightarrow> js_string \<Rightarrow> boundary_reason \<Rightarrow> projection_event" where
  "continuityEvent sid base captured reason =
     \<lparr> capturedAt = captured, upstreamAt = None, codexEventId = None, codexEventType = None,
       contentState = Content_complete, contentNotice = None,
       eventBody = Replay_boundary (if base = 0 then None else Some base) (base + 1) reason,
       eventSessionId = sid, eventCursor = base + 1 \<rparr>"

text \<open>\<open>schema.parse\<close> throws the schema's own error; it is called \<open>invalid_event\<close> here.\<close>

definition parseContinuityInput :: "continuity_input \<Rightarrow> (js_string \<times> js_string \<times> state_revision) outcome" where
  "parseContinuityInput input =
     andThen (parsed (sessionIdSchema (continuitySession input)) Session_not_found) (\<lambda>sid.
     andThen (parsed (isoTimestampSchema (continuityCapturedAt input)) Invalid_event) (\<lambda>captured.
     andThen (throwIf (continuityReason input \<notin> {BR_disconnect, BR_restart, BR_schema_change}) Invalid_event) (\<lambda>_.
     andThen (parseSelectedStateRevision (continuityRevision input)) (\<lambda>revision. Inr (sid, captured, revision)))))"

definition replaceStored :: "continuity_input \<Rightarrow> database \<Rightarrow> (append_result \<times> database) outcome" where
  "replaceStored input db =
     andThen (parseContinuityInput input) (\<lambda>(sid, captured, revision).
     andThen (repositoryRequire db sid) (\<lambda>current.
     andThen (assertExpectedRevision current revision) (\<lambda>_.
     (let base = cursorFloor (stateProjection current); after = (if base = 0 then None else Some base) in
      andThen (parseNextCursor base) (\<lambda>cursor.
      andThen (parsed (selectedProjectionEventSchema (continuityEvent sid base captured (continuityReason input))) Invalid_event)
        (\<lambda>event.
      andThen (parseAddressedSession cursor (continuityNext input)) (\<lambda>session.
      andThen (recordOf event) (\<lambda>record.
      replaceEventsWithBoundary record
        \<lparr> projectionSession = session, retainedCount = 1, retainedBytes = recordBytes record,
          earliestCursor = Some cursor, boundaryCursor = after \<rparr> revision db))))))))"

definition portReplace ::
  "'h publisher \<Rightarrow> continuity_input \<Rightarrow> database \<times> 'h \<Rightarrow> (port_error + append_result) \<times> database \<times> 'h" where
  "portReplace publish input state = publishing publish (replaceStored input (fst state)) state"

lemma parseRetention_policy: "parseRetention candidate = Some retention \<Longrightarrow> parseSelectedProjectionRetentionPolicy retention = Inr retention"
  by (auto simp: parseRetention_def retentionPolicySchema_def parseSelectedProjectionRetentionPolicy_def
      split: option.splits if_splits)

section \<open>What the port computes is what the repository checks\<close>

lemma addressed_ok:
  assumes "uncommittedOk e" "sessionIdSchema sid = Some sid" "outputCursorOk cursor"
  shows "eventOk (addressedEvent sid cursor e)"
proof -
  have "nullable (bounded 1 n) v = Some v" if "\<forall>i. v = Some i \<longrightarrow> 1 \<le> length i \<and> length i \<le> n" for v n
    using that by (cases v) (auto simp: bounded_def)
  then show ?thesis using assms by (simp add: eventOk_def addressedEvent_def uncommittedOk_def)
qed

lemma addressed_real: "isBoundary (addressedEvent sid cursor e) = isBoundary e"
  by (simp add: isBoundary_def addressedEvent_def split: event_body.splits)

lemma session_fields [simp]:
  "sessionIdent (addressedSession c s) = sessionIdent s" "sessionName (addressedSession c s) = sessionName s"
  "codexThreadId (addressedSession c s) = codexThreadId s" "sessionCwd (addressedSession c s) = sessionCwd s"
  "runtimeSource (addressedSession c s) = runtimeSource s" "runtimeVersion (addressedSession c s) = runtimeVersion s"
  "createdAt (addressedSession c s) = createdAt s" "archivedAt (addressedSession c s) = archivedAt s"
  "lifecycleState (addressedSession c s) = lifecycleState s" "turnState (addressedSession c s) = turnState s"
  "sessionAttention (addressedSession c s) = sessionAttention s" "sessionFreshness (addressedSession c s) = sessionFreshness s"
  "freshnessReason (addressedSession c s) = freshnessReason s" "sessionBranch (addressedSession c s) = sessionBranch s"
  "sessionModel (addressedSession c s) = sessionModel s" "sessionGoal (addressedSession c s) = sessionGoal s"
  "recentSummary (addressedSession c s) = recentSummary s"
  "updatedAt (addressedSession c s) = updatedAt s" "lastActivityAt (addressedSession c s) = lastActivityAt s"
  "sessionSettings (addressedSession c s) = sessionSettings s" "lastEventCursor (addressedSession c s) = Some c"
  by (simp_all add: addressedSession_def session_projection.defs managed_session.defs)

lemma addressed_session: "sessionOk (addressedSession c s) \<longleftrightarrow> sessionFieldsOk s \<and> outputCursorOk c"
  unfolding sessionOk_def sessionFieldsOk_def cursorOptionOk_def sessionRefined_def session_fields by simp

lemma addressed_fields [simp]:
  "eventSessionId (addressedEvent sid c e) = sid" "eventCursor (addressedEvent sid c e) = c"
  "capturedAt (addressedEvent sid c e) = capturedAt e" "codexEventId (addressedEvent sid c e) = codexEventId e"
  by (simp_all add: addressedEvent_def)

text \<open>A session and its next projection, as the reducer makes it.\<close>

definition sameIdentity :: "managed_session \<Rightarrow> session_projection \<Rightarrow> bool" where
  "sameIdentity s n \<longleftrightarrow>
     sessionIdent n = sessionIdent s \<and> sessionName n = sessionName s \<and> codexThreadId n = codexThreadId s \<and>
     sessionCwd n = sessionCwd s \<and> runtimeSource n = runtimeSource s \<and> runtimeVersion n = runtimeVersion s \<and>
     createdAt n = createdAt s \<and> archivedAt n = archivedAt s"

text \<open>What an input has to satisfy beyond its form.\<close>

definition appendable :: "retention_policy \<Rightarrow> append_input \<Rightarrow> selected_state \<Rightarrow> database \<Rightarrow> bool" where
  "appendable retention input current db \<longleftrightarrow>
     uncommittedOk (inputEvent input) \<and> sessionFieldsOk (inputNext input) \<and>
     sameIdentity (projectionSession (stateProjection current)) (inputNext input) \<and>
     \<not> str_less (updatedAt (inputNext input)) (updatedAt (projectionSession (stateProjection current))) \<and>
     \<not> str_less (updatedAt (inputNext input)) (capturedAt (inputEvent input)) \<and>
     \<not> str_less (capturedAt (inputEvent input)) (createdAt (projectionSession (stateProjection current))) \<and>
     (\<forall>a. lastActivityAt (inputNext input) = Some a \<longrightarrow>
        \<not> str_less a (createdAt (inputNext input)) \<and> \<not> str_less (updatedAt (inputNext input)) a) \<and>
     settingsFit (sessionSettings (inputNext input)) \<and>
     (codexEventId (inputEvent input) = None \<or>
      (\<forall>r \<in> set (sessionEvents db (inputSession input)). codexEventId (rowEvent r) \<noteq> codexEventId (inputEvent input))) \<and>
     retainedCount (stateProjection current) < maxProjectionEvents \<and>
     retainedBytes (stateProjection current) + 100000 \<le> maxProjectionBytes \<and>
     nextRowCursor (sessionEvents db (inputSession input)) \<le> maxSafe \<and>
     (prunable (sessionEvents db (inputSession input)) \<or>
      retainedCount (stateProjection current) < outputEventLimit retention \<and>
      retainedBytes (stateProjection current) + 100000 \<le> outputByteLimit retention)"

lemma not_less_trans: "\<not> str_less b a \<Longrightarrow> \<not> str_less c b \<Longrightarrow> \<not> str_less c a"
  using str_less_linear str_less_trans by metis

lemma port_commits:
  assumes "storedOk db" "requireState db (inputSession input) = Inr current" "inputRevision input = selectedStateRevision current"
    "parseSelectedProjectionRetentionPolicy retention = Inr retention" "appendable retention input current db"
  shows "\<exists>res db'. appendStored retention input db = Inr (res, db') \<and>
    recordEvent (resultEvent res) = addressedEvent (inputSession input) (nextRowCursor (sessionEvents db (inputSession input))) (inputEvent input)"
proof -
  let ?sid = "inputSession input" and ?p = "stateProjection current" and ?rows = "sessionEvents db (inputSession input)"
  let ?s = "projectionSession (stateProjection current)" and ?n = "inputNext input"
  have ok: "databaseOk db" using assms(1) by (simp add: storedOk_def)
  note f = require_facts [OF ok assms(2)] and c = require_counters [OF ok assms(2)] and st = stored_required(1) [OF assms(1,2)]
  note a = assms(5) [unfolded appendable_def]
  have sid: "sessionIdSchema ?sid = Some ?sid"
    using st f(2) by (auto simp: stateOk_def normalState_def selectedSessionMappingRecordSchema_def bind_eq_Some_conv
        dest: exact_identifiers)
  define cursor where "cursor = cursorFloor ?p + 1"
  have next_row: "cursor = nextRowCursor ?rows" using cursorFloor_next [OF f(4) c] by (simp add: cursor_def)
  have cur: "outputCursorOk cursor" using a floor_nonneg [OF f(4) c] by (simp add: next_row [symmetric] outputCursorOk_def cursor_def)
  let ?e = "addressedEvent ?sid cursor (inputEvent input)"
  let ?r = "\<lparr> recordEvent = ?e, recordBytes = eventBytes ?e \<rparr>"
  let ?next = "appendedProjection ?p (addressedSession cursor ?n) ?r"
  have e: "eventOk ?e" using a by (intro addressed_ok sid cur) simp
  have real: "\<not> isBoundary ?e" using a by (simp add: addressed_real uncommittedOk_def)
  have checked: "checkedRecord ?r" using e by (simp add: checkedRecord_def)
  have bytes: "0 < eventBytes ?e \<and> eventBytes ?e \<le> 100000" using eventBytes_pos eventBytes_bound [OF e] by simp
  have steps: "assignNextCursor (lastEventCursor ?s) (boundaryCursor ?p) = Inr cursor"
    "parseAddressedEvent ?sid cursor (inputEvent input) = Inr ?e" "recordOf ?e = Inr ?r"
    "parseAddressedSession cursor ?n = Inr (addressedSession cursor ?n)"
    using cur e a addressed_session [of cursor ?n] session_kept_iff [of "addressedSession cursor ?n"] event_kept_iff [of ?e]
    by (simp_all add: assignNextCursor_def parseNextCursor_def cursorFloor_def cursor_def parseAddressedEvent_def
        recordOf_def selectedProjectedEventByteLength_def parseAddressedSession_def)
  have "projectionCountersOk ?p" using st by (simp add: stateOk_def normalState_def projection_kept_iff)
  moreover have "earliestCursor ?p = None \<Longrightarrow> boundaryCursor ?p = None"
    using c by (auto simp: recordCountersOk_def split: list.splits if_splits)
  ultimately have "projectionCountersOk ?next"
    using a bytes cur real
    by (auto simp: projectionCountersOk_def appendedProjection_def cursorOptionOk_def split: option.splits)
  moreover have "sessionOk (addressedSession cursor ?n)" using a cur by (simp add: addressed_session)
  ultimately have normal: "normalProjection ?next" by (simp add: projection_kept_iff appendedProjection_def)
  have identity: "assertProjectionIdentity (stateMapping current) ?next = Inr ()"
    using st a by (simp add: stateOk_def assertProjectionIdentity_def Let_def appendedProjection_def sameIdentity_def)
  have times: "\<not> str_less (mappingUpdatedAt (stateMapping current)) (mappingCreatedAt (stateMapping current))"
    "\<not> str_less (updatedAt ?s) (createdAt ?s)"
    "\<And>a. mappingArchivedAt (stateMapping current) = Some a \<Longrightarrow> \<not> str_less a (mappingCreatedAt (stateMapping current)) \<and>
       \<not> str_less (mappingUpdatedAt (stateMapping current)) a \<and> \<not> str_less (updatedAt ?s) a"
    using st by (auto simp: stateOk_def assertStateChronology_def Let_def)
  have chronology: "assertStateChronology (stateMapping current) ?next = Inr ()"
    using a times not_less_trans [of "updatedAt ?s" _ "updatedAt ?n"]
    by (auto simp: assertStateChronology_def Let_def appendedProjection_def sameIdentity_def split: option.splits)
  have advance: "assertEventAdvance ?p ?r ?next = Inr ()"
    using f(3) a real
    by (simp add: assertEventAdvance_def Let_def appendedProjection_def sameIdentity_def cursor_def cong: option.case_cong)
  have "projectionMeetsRetention ?next retention \<or> prunable ?rows"
    using a bytes by (auto simp: projectionMeetsRetention_def appendedProjection_def)
  moreover have "freshEvent db ?e" using a by (simp add: freshEvent_def)
  moreover have "settingsFit (sessionSettings (projectionSession ?next))" using a by (simp add: appendedProjection_def)
  ultimately obtain r where "appendEvent ?r ?next (selectedStateRevision current) (Some retention) db = Inr r"
    using append_commits [OF assms(1,2) checked _ normal identity chronology advance _ _ assms(4)] real by auto
  moreover from this have "resultEvent (fst r) = ?r"
    using checked_parse [OF checked] by (cases r) (auto simp: appendEvent_def appendEventTransaction_def)
  ultimately show ?thesis
    using steps sid assms(2,3) revision_normal [OF st]
    by (cases r) (simp add: appendStored_def repositoryRequire_def parseSessionIdArg_def parseAppendInput_def assertExpectedRevision_def Let_def next_row [symmetric])
qed

end
