(* ===== verification/Projection_Service.thy ===== *)
theory Projection_Service
  imports Append_Port Machine
begin

text \<open>
  \<open>packages/server/src/codex-projection-service.ts\<close>: the service that turns normalized Codex
  events into committed projected events. Its calls run one after the other (each waits for the
  \<open>tail\<close> of the earlier ones), so a call is one step; a call that fails leaves its error, and
  every later call is refused.
\<close>

section \<open>Results\<close>

datatype service_error =
  Event_out_of_order | Event_too_late | Projection_stopped | Lookup_failed repository_error | Append_failed port_error

datatype projection_result =
  Committed int append_result
| Runtime_observation int rate_limits_event
| Unmanaged_observation int js_string js_string

record 'h service =
  serviceFailure :: "service_error option"
  lastSequence :: int
  serviceStore :: "database \<times> 'h"

fun eventSequence :: "normalized_event \<Rightarrow> int" where
  "eventSequence (Thread_scope e) = evSequence e"
| "eventSequence (Runtime_scope e) = evSequence e"

section \<open>One event\<close>

text \<open>\<open>{ session_id, expected_revision, event, next_session }\<close> of a reduction.\<close>

definition reducedInput :: "selected_state \<Rightarrow> thread_event \<Rightarrow> append_input" where
  "reducedInput current event =
     (case reduceCodexProjectionEvent (projectionSession (stateProjection current)) event of
        (projected, n) \<Rightarrow>
          \<lparr> inputSession = mappingId (stateMapping current), inputRevision = selectedStateRevision current,
            inputEvent = projected, inputNext = n \<rparr>)"

definition observed :: "selected_state option \<Rightarrow> bool" where
  "observed current = (case current of
     None \<Rightarrow> True
   | Some s \<Rightarrow> mappingArchivedAt (stateMapping s) \<noteq> None \<or> mappingDisposition (stateMapping s) \<noteq> Disposition_selected)"

definition projectThread ::
  "retention_policy \<Rightarrow> 'h publisher \<Rightarrow> thread_event \<Rightarrow> 'h service \<Rightarrow> (service_error + projection_result) \<times> 'h service" where
  "projectThread retention publish event s =
     (case getByThreadId (fst (serviceStore s)) (evThread event) of
        Inl e \<Rightarrow> (Inl (Lookup_failed e), s)
      | Inr found \<Rightarrow>
          if observed found then
            (Inr (Unmanaged_observation (evSequence event) (evThread event) (eventMethod (evPayload event))), s)
          else
            (let current = the found in
             if str_less (evCapturedAt event) (updatedAt (projectionSession (stateProjection current)))
             then (Inl Event_too_late, s)
             else
               (case portAppend retention publish (reducedInput current event) (serviceStore s) of
                  (Inl e, store) \<Rightarrow> (Inl (Append_failed e), s\<lparr> serviceStore := store \<rparr>)
                | (Inr res, store) \<Rightarrow> (Inr (Committed (evSequence event) res), s\<lparr> serviceStore := store \<rparr>))))"

definition projectOne ::
  "retention_policy \<Rightarrow> 'h publisher \<Rightarrow> normalized_event \<Rightarrow> 'h service \<Rightarrow> (service_error + projection_result) \<times> 'h service" where
  "projectOne retention publish event s =
     (if \<bar>eventSequence event\<bar> > maxSafe \<or> eventSequence event \<le> lastSequence s then (Inl Event_out_of_order, s)
      else
        (let s = s\<lparr> lastSequence := eventSequence event \<rparr> in
         case event of
           Runtime_scope e \<Rightarrow> (Inr (Runtime_observation (evSequence e) e), s)
         | Thread_scope e \<Rightarrow> projectThread retention publish e s))"

definition project ::
  "retention_policy \<Rightarrow> 'h publisher \<Rightarrow> normalized_event \<Rightarrow> 'h service \<Rightarrow> (service_error + projection_result) \<times> 'h service" where
  "project retention publish event s =
     (if serviceFailure s \<noteq> None then (Inl Projection_stopped, s)
      else
        (case projectOne retention publish event s of
           (Inl e, s) \<Rightarrow> (Inl e, s\<lparr> serviceFailure := Some e \<rparr>)
         | (Inr r, s) \<Rightarrow> (Inr r, s)))"

definition createService :: "database \<Rightarrow> 'h \<Rightarrow> 'h service" where
  "createService db hub = \<lparr> serviceFailure = None, lastSequence = 0, serviceStore = (db, hub) \<rparr>"

section \<open>Runs\<close>

text \<open>Calls of the service among other operations on the same repository.\<close>

datatype service_op = Project normalized_event | Elsewhere repository_op

fun serviceStep :: "retention_policy \<Rightarrow> 'h publisher \<Rightarrow> service_op \<Rightarrow> 'h service \<Rightarrow> 'h service" where
  "serviceStep retention publish (Project event) s = snd (project retention publish event s)"
| "serviceStep retention publish (Elsewhere op) s =
     s\<lparr> serviceStore := (repositoryStep op (fst (serviceStore s)), snd (serviceStore s)) \<rparr>"

end
