(* ===== verification/Repository_Histories.thy ===== *)
theory Repository_Histories
  imports Append_Commits
begin

text \<open>
  The state an append leaves to be read, and the databases on which the properties are applied: one
  session created, and three events appended to it under a policy of two events.
\<close>

section \<open>The state an append commits\<close>

lemma append_state:
  assumes "storedOk db" "appendEvent event next revision policy db = Inr (res, db')" "normalProjection next"
  obtains current where "requireState db (eventSessionId (recordEvent event)) = Inr current"
    "requireState db' (eventSessionId (recordEvent event)) =
       Inr \<lparr> stateMapping = stateMapping current, stateProjection = resultProjection res \<rparr>"
    "projectionSession (resultProjection res) = projectionSession next"
    "projectionMeetsRetention next (the policy) \<or> policy = None \<Longrightarrow> resultProjection res = next"
    "projectionMeetsRetention next (the policy) \<or> policy = None \<Longrightarrow> checkedRecord event \<Longrightarrow>
       eventTable db' = eventTable db @ [eventToRow event]"
proof -
  from assms(2,3) obtain e r q where a: "parseProjectedEventRecord event = Inr e" "assertEventByteLength e = Inr ()"
    "appendEventTransaction e next r q db = Inr (res, db')" "q = policy"
    by (auto simp: appendEvent_def parseProjection_def dest: parsePolicy_Inr split: option.splits)
  have sid: "eventSessionId (recordEvent e) = eventSessionId (recordEvent event)"
    using a(1) event_schema_keeps
    by (auto simp: parseProjectedEventRecord_def selectedProjectedEventRecordSchema_def bind_eq_Some_conv)
  let ?sid = "eventSessionId (recordEvent event)"
  from a(3) obtain current db1 db2 p where t: "requireState db ?sid = Inr current"
    "assertProjectionIdentity (stateMapping current) next = Inr ()" "assertStateChronology (stateMapping current) next = Inr ()"
    "assertEventAdvance (stateProjection current) e next = Inr ()"
    "insertEvent e db = Inr db1" "commitProjection p db2 = Inr db'"
    "(case policy of None \<Rightarrow> Inr (next, db1) | Some policy \<Rightarrow> applySelectedProjectionRetention next policy db1) = Inr (p, db2)"
    and res: "resultProjection res = p"
    by (auto simp: appendEventTransaction_def sid a(4))
  have ok: "databaseOk db" "eventsReadable db" using assms(1) by (simp_all add: storedOk_def)
  have e1: "eventsReadable db1" by (rule insert_readable [OF t(5) parse_checked [OF a(1,2)] ok(2)])
  have "(projectionSession p = projectionSession next \<and> normalProjection p \<and> eventsReadable db2) \<and> sameTables db db2"
  proof (cases policy)
    case (Some policy)
    then have r: "applySelectedProjectionRetention next policy db1 = Inr (p, db2)" using t(7) by simp
    show ?thesis
      by (intro conjI retention_written [OF r assms(3) e1] sameTables_trans [OF insertEvent_tables [OF t(5)] retention_tables [OF r]])
  qed (use t(7) e1 assms(3) insertEvent_tables [OF t(5)] in auto)
  then have p: "projectionSession p = projectionSession next \<and> normalProjection p" "sameTables db db2" by blast+
  let ?s = "\<lparr> stateMapping = stateMapping current, stateProjection = p \<rparr>"
  have "stateOk ?s"
    using stored_required(1) [OF assms(1) t(1)] p(1) t(2,3) session_checks [of p "next"] by (simp add: stateOk_def normalState_def)
  then have parse: "parseStateRows (stateMapping current) (projectionToRow p) = Inr ?s" using rows_of_state [of ?s] by simp
  have db': "storedOk db'" "db' = db2\<lparr> projectionTable :=
      map (\<lambda>r. if prSession r = sessionIdent (projectionSession p) then projectionToRow p else r) (projectionTable db2) \<rparr>"
    using append_stored [OF assms] repository.step_ok [OF ok(1), of "Append event next revision policy"] assms(2) commit_Inr [OF t(6)]
    by (simp_all add: committed_def transaction_def)
  have "managed db' ?sid" using require_facts(1) [OF ok(1) t(1)] p(2) db'(2) by (simp add: managed_def sameTables_def)
  from stored_read [OF db'(1) this] obtain s where s: "requireState db' ?sid = Inr s" "stateOk s"
    "stateMapping s \<in> set (sessionTable db')" "projectionToRow (stateProjection s) \<in> set (projectionTable db')"
    "mappingId (stateMapping s) = ?sid" by metis
  have target: "sessionIdent (projectionSession p) = ?sid"
    using advance_Inr(2) [OF t(4)] require_facts(3) [OF ok(1) t(1)] p(1) by simp
  have "stateMapping s = stateMapping current"
    using stored_required(2,4) [OF assms(1) t(1)] s(3,5) p(2) db'(2)
    by (intro mapping_unique [OF ok(1)]) (simp_all add: sameTables_def)
  moreover have "projectionToRow (stateProjection s) = projectionToRow p"
  proof -
    have "prSession (projectionToRow (stateProjection s)) = ?sid"
      using require_facts(3) [OF _ s(1)] db'(1) by (simp add: storedOk_def projectionToRow_def Let_def)
    then show ?thesis using s(4) db'(2) target by (auto split: if_splits)
  qed
  ultimately have "s = ?s" using rows_of_state [OF s(2)] parse by simp
  moreover have "resultProjection res = next" if "projectionMeetsRetention next (the policy) \<or> policy = None"
    using t(7) that by (cases policy) (auto simp: applySelectedProjectionRetention_def res)
  moreover have "eventTable db' = eventTable db @ [eventToRow event]"
    if "projectionMeetsRetention next (the policy) \<or> policy = None" "checkedRecord event"
  proof -
    have "e = event" using checked_parse [OF that(2)] a(1) by simp
    moreover have "db2 = db1"
      using t(7) that(1) by (cases policy) (auto simp: applySelectedProjectionRetention_def)
    ultimately show ?thesis using db'(2) insertEvent_Inr(1) [OF t(5)] by simp
  qed
  ultimately show thesis using s(1) t(1) p(1) res by (intro that [of current]) auto
qed

section \<open>Sample histories\<close>

definition sampleStored :: database where
  "sampleStored = emptyDatabase\<lparr> sessionTable := [sampleMapping], projectionTable := [projectionToRow emptyProjection] \<rparr>"

lemma sample_create: "repositoryCreate sampleStart emptyDatabase = Inr (sampleStart, sampleStored)"
proof -
  have "parseState sampleStart = Inr sampleStart"
    using sample_start by (simp add: parseState_def stateOk_def normalState_def parseMapping_def parseProjection_def)
  then show ?thesis
    by (simp add: repositoryCreate_def createTransaction_def sampleStart_def assertInitialProjection_def emptyProjection_def
        sampleSession_def assertSelectedCreateRecoveryCompatibility_def emptyDatabase_def insertMapping_def mappingConstraint_def
        insertProjection_def settingsFit_def sampleStored_def)
qed

lemma sample_created: "repositoryStep (Create sampleStart) emptyDatabase = sampleStored"
  by (simp add: committed_def transaction_def sample_create)

lemma sample_stored: "storedOk sampleStored"
proof -
  have "normalOp (Create sampleStart)" using sample_start by (simp add: stateOk_def)
  from step_stored [OF emptyDatabase_stored this] show ?thesis by (simp only: sample_created)
qed

lemma sample_managed: "managed sampleStored sampleId" "requireState sampleStored sampleId = Inr sampleStart"
  "sessionEvents sampleStored sampleId = []"
proof -
  show m: "managed sampleStored sampleId" by (simp add: managed_def sampleStored_def emptyDatabase_def sampleMapping_def)
  have "parseStateRows sampleMapping (projectionToRow emptyProjection) = Inr sampleStart"
    using rows_of_state [OF sample_start] by (simp add: sampleStart_def)
  then show "requireState sampleStored sampleId = Inr sampleStart"
    by (simp add: requireState_def readState_def sampleStored_def emptyDatabase_def sampleMapping_def projectionToRow_def
        emptyProjection_def sampleSession_def Let_def)
  show "sessionEvents sampleStored sampleId = []" by (simp add: sessionEvents_def sampleStored_def emptyDatabase_def)
qed

text \<open>The projections that commit the first, the second and the third sample event.\<close>

fun sampleProjection :: "nat \<Rightarrow> projection_record" where
  "sampleProjection 0 = emptyProjection"
| "sampleProjection (Suc n) = sampleNext (sampleProjection n) (int (Suc n))"

definition sampleAppend :: "nat \<Rightarrow> database \<Rightarrow> (append_result \<times> database) outcome" where
  "sampleAppend n =
     appendEvent (sampleRecord (int (Suc n))) (sampleProjection (Suc n)) (sampleRevision (if n = 0 then None else Some (int n)))
       (Some samplePolicy)"

lemma sample_projection:
  "n \<le> 3 \<Longrightarrow> projectionSession (sampleProjection n) = sampleSession (if n = 0 then None else Some (int n)) \<and>
     retainedCount (sampleProjection n) = int n \<and> 0 \<le> retainedBytes (sampleProjection n) \<and>
     retainedBytes (sampleProjection n) \<le> 100000 * int n \<and> (0 < n \<longrightarrow> 0 < retainedBytes (sampleProjection n)) \<and>
     earliestCursor (sampleProjection n) = (if n = 0 then None else Some 1) \<and> boundaryCursor (sampleProjection n) = None"
proof (induction n)
  case (Suc n)
  moreover have "eventOk (sampleEvent (int (Suc n)))" using Suc.prems by (intro sample_event) (simp add: outputCursorOk_def maxSafe_def)
  moreover note eventBytes_pos [of "sampleEvent (int (Suc n))"] eventBytes_bound [OF this]
  ultimately show ?case by (auto simp: sampleNext_def)
qed (simp add: emptyProjection_def)

lemma sample_normal: "n \<le> 3 \<Longrightarrow> normalProjection (sampleProjection n)"
proof -
  assume n: "n \<le> 3"
  then have "sessionOk (sampleSession (if n = 0 then None else Some (int n)))"
    by (intro sample_session) (simp add: cursorOptionOk_def outputCursorOk_def maxSafe_def)
  then show ?thesis
    using sample_projection [OF n] n
    by (auto simp: projection_kept_iff projectionCountersOk_def cursorOptionOk_def outputCursorOk_def maxProjectionEvents_def
        maxProjectionBytes_def maxSafe_def)
qed

lemma sample_policy: "parseSelectedProjectionRetentionPolicy samplePolicy = Inr samplePolicy"
  by (simp add: parseSelectedProjectionRetentionPolicy_def retentionPolicySchema_def samplePolicy_def defaultRetentionPolicy_def)

text \<open>The first two events fit the policy; the third makes retention cut the log.\<close>

definition sampleLog :: "nat \<Rightarrow> event_row list" where
  "sampleLog n = map (\<lambda>i. eventToRow (sampleRecord (int (Suc i)))) [0..<n]"

lemma sample_append:
  assumes "n \<le> 2" "storedOk db" "requireState db sampleId = Inr \<lparr> stateMapping = sampleMapping, stateProjection = sampleProjection n \<rparr>"
    "sessionEvents db sampleId = sampleLog n"
  obtains res db' where "sampleAppend n db = Inr (res, db')" "storedOk db'"
    "n < 2 \<Longrightarrow> requireState db' sampleId = Inr \<lparr> stateMapping = sampleMapping, stateProjection = sampleProjection (Suc n) \<rparr> \<and>
      sessionEvents db' sampleId = sampleLog (Suc n)"
proof -
  let ?e = "sampleRecord (int (Suc n))" and ?p = "sampleProjection (Suc n)" and ?q = "sampleProjection n"
  have c: "outputCursorOk (int (Suc n))" using assms(1) by (simp add: outputCursorOk_def maxSafe_def)
  have e: "checkedRecord ?e" by (rule sample_checked [OF c])
  have sid: "eventSessionId (recordEvent ?e) = sampleId" by (simp add: sampleRecord_def sampleEvent_def)
  have q: "projectionSession ?q = sampleSession (if n = 0 then None else Some (int n))" "earliestCursor ?q = (if n = 0 then None else Some 1)"
    "boundaryCursor ?q = None" "retainedCount ?q = int n" "retainedBytes ?q \<le> 100000 * int n"
    using sample_projection [of n] assms(1) by simp_all
  have p: "projectionSession ?p = sampleSession (Some (int (Suc n)))" by (simp add: sampleNext_def)
  have normal: "normalProjection ?p" using sample_normal [of "Suc n"] assms(1) by simp
  have prunable: "prunable (sessionEvents db sampleId)"
    using assms(1) unfolding assms(4)
    by (cases n) (auto simp: sampleLog_def prunable_def sampleRecord_def sampleEvent_def isBoundary_def split: list.splits
        simp del: upt_Suc simp: upt_rec)
  have bytes: "0 < eventBytes (sampleEvent (int (Suc n)))" by (rule eventBytes_pos)
  have rev: "selectedStateRevision \<lparr> stateMapping = sampleMapping, stateProjection = ?q \<rparr> =
      sampleRevision (if n = 0 then None else Some (int n))"
    by (simp add: selectedStateRevision_def sampleRevision_def q sampleSession_def sampleMapping_def)
  have advance: "assertEventAdvance ?q ?e ?p = Inr ()"
    using q bytes
    by (simp add: assertEventAdvance_def Let_def cursorFloor_def sampleNext_def sampleRecord_def sampleEvent_def sampleSession_def
        isBoundary_def)
  have fresh: "freshEvent db (recordEvent ?e)" by (simp add: freshEvent_def sampleRecord_def sampleEvent_def)
  have fit: "settingsFit (sessionSettings (projectionSession ?p))" by (simp only: p) (simp add: sampleSession_def settingsFit_def)
  have real: "\<not> isBoundary (recordEvent ?e)" by (simp add: sampleRecord_def sampleEvent_def isBoundary_def)
  have checks: "assertProjectionIdentity (stateMapping \<lparr> stateMapping = sampleMapping, stateProjection = ?q \<rparr>) ?p = Inr ()"
    "assertStateChronology (stateMapping \<lparr> stateMapping = sampleMapping, stateProjection = ?q \<rparr>) ?p = Inr ()"
    "assertEventAdvance (stateProjection \<lparr> stateMapping = sampleMapping, stateProjection = ?q \<rparr>) ?e ?p = Inr ()"
    using sample_identity [OF p] advance by simp_all
  obtain r where r: "appendEvent ?e ?p (sampleRevision (if n = 0 then None else Some (int n))) (Some samplePolicy) db = Inr r"
    using append_commits [OF assms(2,3) e sid normal checks fresh fit sample_policy real disjI2 [OF prunable]] unfolding rev by blast
  obtain res db' where r': "r = (res, db')" by (cases r)
  note a = r [unfolded r']
  have stored: "storedOk db'"
    using step_stored [OF assms(2), of "Append ?e ?p (sampleRevision (if n = 0 then None else Some (int n))) (Some samplePolicy)"]
      normal a by (simp add: committed_def transaction_def del: sampleProjection.simps)
  moreover have "requireState db' sampleId = Inr \<lparr> stateMapping = sampleMapping, stateProjection = ?p \<rparr> \<and>
      sessionEvents db' sampleId = sampleLog (Suc n)" if "n < 2"
  proof (rule append_state [OF assms(2) a normal], intro conjI)
    have meets: "projectionMeetsRetention ?p samplePolicy"
      using sample_projection [of "Suc n"] that
      by (simp add: projectionMeetsRetention_def samplePolicy_def defaultRetentionPolicy_def del: sampleProjection.simps)
    fix current assume s: "requireState db (eventSessionId (recordEvent ?e)) = Inr current"
      "requireState db' (eventSessionId (recordEvent ?e)) =
       Inr \<lparr> stateMapping = stateMapping current, stateProjection = resultProjection res \<rparr>"
      "projectionMeetsRetention ?p (the (Some samplePolicy)) \<or> Some samplePolicy = None \<Longrightarrow> resultProjection res = ?p"
      "projectionMeetsRetention ?p (the (Some samplePolicy)) \<or> Some samplePolicy = None \<Longrightarrow> checkedRecord ?e \<Longrightarrow>
       eventTable db' = eventTable db @ [eventToRow ?e]"
    have "Inr current = (Inr \<lparr> stateMapping = sampleMapping, stateProjection = ?q \<rparr> :: selected_state outcome)"
      using s(1) unfolding sid assms(3) ..
    then have "stateMapping current = sampleMapping" by auto
    then show "requireState db' sampleId = Inr \<lparr> stateMapping = sampleMapping, stateProjection = ?p \<rparr>"
      using s(2,3) meets unfolding sid by (simp del: sampleProjection.simps)
    have row: "rowSession (eventToRow ?e) = sampleId" "rowCursor (eventToRow ?e) = int (Suc n)"
      by (simp_all add: sampleRecord_def sampleEvent_def)
    have "eventTable db' = eventTable db @ [eventToRow ?e]" using s(4) meets e by simp
    then have "sessionEvents db' sampleId = sessionEvents (db\<lparr> eventTable := eventTable db @ [eventToRow ?e] \<rparr>) (rowSession (eventToRow ?e))"
      unfolding row(1) by (simp add: sessionEvents_def)
    also have "\<dots> = sessionEvents db sampleId @ [eventToRow ?e]"
      using sessionEvents_insert(2) [of db "eventToRow ?e"] unfolding row assms(4)
      by (auto simp: sampleLog_def sampleRecord_def sampleEvent_def)
    finally show "sessionEvents db' sampleId = sampleLog (Suc n)" using assms(4) by (simp add: sampleLog_def)
  qed
  ultimately show thesis using a by (intro that [of res db']) (simp_all add: sampleAppend_def del: sampleProjection.simps)
qed

fun sampleDatabase :: "nat \<Rightarrow> database" where
  "sampleDatabase 0 = sampleStored"
| "sampleDatabase (Suc n) = snd (transaction (sampleAppend n) (sampleDatabase n))"

lemma sample_database:
  "n \<le> 2 \<Longrightarrow> storedOk (sampleDatabase n) \<and>
     requireState (sampleDatabase n) sampleId = Inr \<lparr> stateMapping = sampleMapping, stateProjection = sampleProjection n \<rparr> \<and>
     sessionEvents (sampleDatabase n) sampleId = sampleLog n"
proof (induction n)
  case 0
  then show ?case using sample_stored sample_managed by (simp add: sampleLog_def sampleStart_def)
next
  case (Suc n)
  then have n: "n < 2" and i: "storedOk (sampleDatabase n)"
    "requireState (sampleDatabase n) sampleId = Inr \<lparr> stateMapping = sampleMapping, stateProjection = sampleProjection n \<rparr>"
    "sessionEvents (sampleDatabase n) sampleId = sampleLog n" by simp_all
  obtain res db' where a: "sampleAppend n (sampleDatabase n) = Inr (res, db')" "storedOk db'"
    "requireState db' sampleId = Inr \<lparr> stateMapping = sampleMapping, stateProjection = sampleProjection (Suc n) \<rparr> \<and>
      sessionEvents db' sampleId = sampleLog (Suc n)"
    using sample_append [OF _ i] n by (metis less_imp_le)
  then have "sampleDatabase (Suc n) = db'" by (simp add: transaction_def)
  with a show ?case by (simp del: sampleDatabase.simps sampleProjection.simps)
qed

text \<open>The third event is appended to a full log.\<close>

lemma sample_third:
  obtains res where "sampleAppend 2 (sampleDatabase 2) = Inr (res, sampleDatabase 3)" "storedOk (sampleDatabase 3)"
proof -
  have s: "storedOk (sampleDatabase 2)"
    "requireState (sampleDatabase 2) sampleId = Inr \<lparr> stateMapping = sampleMapping, stateProjection = sampleProjection 2 \<rparr>"
    "sessionEvents (sampleDatabase 2) sampleId = sampleLog 2"
    using sample_database [of 2] by simp_all
  obtain res db' where a: "sampleAppend 2 (sampleDatabase 2) = Inr (res, db')" "storedOk db'"
    by (rule sample_append [OF _ s]) simp_all
  moreover have "sampleDatabase 3 = db'" using a(1) by (simp only: eval_nat_numeral(3) sampleDatabase.simps) (simp add: transaction_def eval_nat_numeral)
  ultimately show thesis by (intro that [of res]) simp_all
qed

text \<open>The operations that lead there.\<close>

definition sampleOps :: "nat \<Rightarrow> repository_op list" where
  "sampleOps n =
     Create sampleStart #
     map (\<lambda>n. Append (sampleRecord (int (Suc n))) (sampleProjection (Suc n)) (sampleRevision (if n = 0 then None else Some (int n)))
       (Some samplePolicy)) [0..<n]"

lemma sample_run: "runSteps repositoryStep (sampleOps n) emptyDatabase = sampleDatabase n"
proof (induction n)
  case 0
  show ?case by (simp only: sampleOps_def) (simp del: repositoryStep.simps add: sample_created)
next
  case (Suc n)
  have "sampleOps (Suc n) = sampleOps n @ [Append (sampleRecord (int (Suc n))) (sampleProjection (Suc n))
      (sampleRevision (if n = 0 then None else Some (int n))) (Some samplePolicy)]" by (simp add: sampleOps_def)
  then show ?case using Suc by (simp add: committed_def sampleAppend_def [abs_def] del: sampleProjection.simps)
qed

lemma sample_ops_normal: "n \<le> 3 \<Longrightarrow> \<forall>op \<in> set (sampleOps n). normalOp op"
  using sample_start sample_normal by (auto simp: sampleOps_def stateOk_def simp del: sampleProjection.simps)

section \<open>An adopted session\<close>

text \<open>A session adopted with one earlier message, so that its log has the adoption boundary and that message.\<close>

definition sampleMember :: membership where
  "sampleMember = \<lparr> memberSession = sampleId, memberThread = js ''thread-1'', adoptedAt = sampleTime, handoffConfirmedAt = sampleTime \<rparr>"

definition adoptedBoundary :: projection_event where
  "adoptedBoundary = (sampleEvent 1)\<lparr> eventBody := Replay_boundary None 1 BR_adoption \<rparr>"

definition adoptedMessage :: projection_event where
  "adoptedMessage = (sampleEvent 2)\<lparr> codexEventId := Some (js ''event-1'') \<rparr>"

definition recordWith :: "projection_event \<Rightarrow> event_record" where
  "recordWith e = \<lparr> recordEvent = e, recordBytes = eventBytes e \<rparr>"

definition adoptedProjection :: projection_record where
  "adoptedProjection =
     \<lparr> projectionSession = sampleSession (Some 2), retainedCount = 2,
       retainedBytes = eventBytes adoptedBoundary + eventBytes adoptedMessage, earliestCursor = Some 1, boundaryCursor = None \<rparr>"

definition adoptedState :: selected_state where
  "adoptedState = \<lparr> stateMapping = sampleMapping, stateProjection = adoptedProjection \<rparr>"

definition adoptedDatabase :: database where
  "adoptedDatabase =
     emptyDatabase\<lparr> sessionTable := [sampleMapping], projectionTable := [projectionToRow adoptedProjection],
       membershipTable := [sampleMember], eventTable := [eventToRow (recordWith adoptedBoundary), eventToRow (recordWith adoptedMessage)] \<rparr>"

lemma adopted_events: "eventOk adoptedBoundary" "eventOk adoptedMessage"
  "checkedRecord (recordWith adoptedBoundary)" "checkedRecord (recordWith adoptedMessage)"
proof -
  show e: "eventOk adoptedBoundary"
    using sample_scalars
    by (simp add: eventOk_def adoptedBoundary_def sampleEvent_def eventBodySchema_def guard_def outputCursorOk_def maxSafe_def)
  show m: "eventOk adoptedMessage"
    using sample_scalars
    by (simp add: eventOk_def adoptedMessage_def sampleEvent_def eventBodySchema_def guard_def bounded_def js_def runtime_limits
        outputCursorOk_def maxSafe_def)
  show "checkedRecord (recordWith adoptedBoundary)" "checkedRecord (recordWith adoptedMessage)"
    using e m by (simp_all add: checkedRecord_def recordWith_def)
qed

lemma adopted_state: "stateOk adoptedState"
proof -
  have "sessionOk (sampleSession (Some 2))" by (intro sample_session) (simp add: cursorOptionOk_def outputCursorOk_def maxSafe_def)
  then show ?thesis
    using sample_mapping sample_identity [of adoptedProjection "Some 2"] adopted_events(1,2)
      eventBytes_bound [of adoptedBoundary] eventBytes_bound [of adoptedMessage] eventBytes_pos [of adoptedBoundary]
      eventBytes_pos [of adoptedMessage]
    by (simp add: stateOk_def normalState_def adoptedState_def projection_kept_iff adoptedProjection_def cursorOptionOk_def
        projectionCountersOk_def maxProjectionEvents_def maxProjectionBytes_def outputCursorOk_def maxSafe_def)
qed

lemma adopted_log: "sessionEvents adoptedDatabase sampleId = [eventToRow (recordWith adoptedBoundary), eventToRow (recordWith adoptedMessage)]"
  by (simp add: sessionEvents_def adoptedDatabase_def recordWith_def adoptedBoundary_def adoptedMessage_def sampleEvent_def)

lemma adopted_persisted: "assertPersistedEventProjection adoptedDatabase adoptedProjection = Inr ()"
proof (rule persisted_ok)
  show "logOk (sessionEvents adoptedDatabase sampleId)"
    unfolding adopted_log
    by (simp add: logOk_def startOk_def recordWith_def adoptedBoundary_def adoptedMessage_def sampleEvent_def isBoundary_def
        boundaryNext_def boundaryAfter_def)
  show "recordCountersOk (sessionEvents adoptedDatabase sampleId) adoptedProjection"
    unfolding adopted_log recordCountersOk_def
    by (simp add: recordWith_def adoptedProjection_def sampleSession_def boundaryAfter_def)
      (simp add: adoptedBoundary_def adoptedMessage_def sampleEvent_def)
  show "eventsReadable adoptedDatabase"
    using adopted_events checked_row by (simp add: eventsReadable_def adoptedDatabase_def)
qed (simp add: adoptedProjection_def sampleSession_def)

lemma adopt_sample:
  "repositoryAdopt sampleMember adoptedState [recordWith adoptedBoundary, recordWith adoptedMessage] emptyDatabase =
     Inr (adoptedState, adoptedDatabase)"
proof -
  note c = checked_parse [OF adopted_events(3)] checked_parse [OF adopted_events(4)]
  have member: "parseNativeMembership sampleMember = Inr sampleMember"
    using sample_scalars by (simp add: parseNativeMembership_def membershipSchema_def sampleMember_def guard_def)
  have state: "parseState adoptedState = Inr adoptedState"
    using adopted_state by (simp add: parseState_def stateOk_def normalState_def parseMapping_def parseProjection_def)
  have identity: "assertNativeAdoptionIdentity sampleMember adoptedState = Inr ()"
    by (simp add: assertNativeAdoptionIdentity_def Let_def sampleMember_def adoptedState_def sampleMapping_def adoptedProjection_def
        sampleSession_def)
  have loop: "assertNativeAdoptionProjection sampleMember adoptedState [recordWith adoptedBoundary, recordWith adoptedMessage] = Inr ()"
    by (simp add: assertNativeAdoptionProjection_def adoptionBoundary_def recordWith_def adoptedState_def adoptedProjection_def Let_def)
      (simp add: adoptedBoundary_def adoptedMessage_def sampleEvent_def sampleMember_def sampleMapping_def sampleSession_def)
  have events: "insertEvents [recordWith adoptedBoundary, recordWith adoptedMessage]
      (emptyDatabase\<lparr> sessionTable := [sampleMapping], projectionTable := [projectionToRow adoptedProjection],
         membershipTable := [sampleMember] \<rparr>) = Inr adoptedDatabase"
    by (simp add: insertEvent_def Let_def emptyDatabase_def adoptedDatabase_def eventToRow_def recordWith_def)
      (simp add: adoptedBoundary_def adoptedMessage_def sampleEvent_def sampleMapping_def)
  have "settingsFit (sessionSettings (projectionSession adoptedProjection))"
    by (simp add: adoptedProjection_def sampleSession_def settingsFit_def)
  then show ?thesis
    using member state c identity loop events adopted_persisted
    by (simp add: repositoryAdopt_def parseNativeSessionAdoption_def maxAdoptionEvents_def adoptTransaction_def adoptedState_def
        emptyDatabase_def insertMapping_def mappingConstraint_def adopting_def insertProjection_def insertNativeMembership_def
        sampleMember_def sampleMapping_def del: insertEvents.simps)
qed

lemma adopted_run: "repositoryStep (Adopt sampleMember adoptedState [recordWith adoptedBoundary, recordWith adoptedMessage]) emptyDatabase = adoptedDatabase"
  by (simp add: committed_def transaction_def adopt_sample)

lemma adopted_found: "requireState adoptedDatabase sampleId = Inr adoptedState"
  using rows_of_state [OF adopted_state]
  by (simp add: requireState_def readState_def adoptedDatabase_def emptyDatabase_def sampleMapping_def projectionToRow_def
      adoptedState_def adoptedProjection_def sampleSession_def Let_def)

end
