(* ===== verification/Repository_Properties.thy ===== *)
theory Repository_Properties
  imports Repository_Histories "HOL-Library.Multiset"
begin

text \<open>
  Properties of the selected-state repository beyond its log: what retention keeps of a log, that
  what is stored is read back, and that a revision commits once.
\<close>

section \<open>Appended events\<close>

lemma appended_last:
  assumes "databaseOk db" "appendEvent event next revision policy db = Inr (res, db')"
  obtains rows where "databaseOk db'" "sessionEvents db' (eventSessionId (recordEvent event)) = rows @ [eventToRow (resultEvent res)]"
    "logOk (rows @ [eventToRow (resultEvent res)])" "recordCursor (resultEvent res) = recordCursor event"
    "eventSessionId (recordEvent (resultEvent res)) = eventSessionId (recordEvent event)"
    "managed db' (eventSessionId (recordEvent event))"
    "\<And>current. requireState db (eventSessionId (recordEvent event)) = Inr current \<Longrightarrow>
       cursorFloor (stateProjection current) < recordCursor event"
proof -
  let ?sid = "eventSessionId (recordEvent event)"
  obtain e n r where a: "appendEventTransaction e n r policy db = Inr (res, db')" "parsedEvent (recordEvent e)"
    "recordCursor e = recordCursor event" "eventSessionId (recordEvent e) = ?sid"
    by (rule parsed_append [OF assms(2)]) auto
  then have res: "resultEvent res = e" by (auto simp: appendEventTransaction_def)
  obtain rows where rows: "retentionLog ?sid (sessionEvents db ?sid @ [eventToRow e]) rows" "databaseOk db'"
    "logChange ?sid rows db db'" "managed db ?sid" "logOk rows"
    by (rule append_Inr [OF assms(1) a(1,2) a(4) [symmetric]])
  have "rows \<noteq> []" "last rows = eventToRow e"
    using rows(1) by (auto simp: retentionLog_def prunedLog_def)
  then have split: "rows = butlast rows @ [eventToRow e]" by (metis append_butlast_last_id)
  have floor: "cursorFloor (stateProjection current) < recordCursor event" if "requireState db ?sid = Inr current" for current
  proof -
    have "assertEventAdvance (stateProjection current) e n = Inr ()"
      using a(1) that by (auto simp: appendEventTransaction_def a(4))
    from advance_Inr(3) [OF this] a(3) show ?thesis by simp
  qed
  have "sessionEvents db' ?sid = butlast rows @ [eventToRow e]" "logOk (butlast rows @ [eventToRow e])"
    using rows(3,5) split by (simp_all add: logChange_def)
  moreover have "managed db' ?sid" using rows(3,4) by (simp add: logChange_def managed_def)
  ultimately show thesis using rows(2) a(3,4) floor by (intro that [of "butlast rows"]) (simp_all add: res)
qed

lemma logOk_earlier: "logOk (rows @ [x]) \<Longrightarrow> r \<in> set rows \<Longrightarrow> rowCursor r < rowCursor x"
  using logOk_contiguous [of "rows @ [x]"] contiguousFrom_bounds [of "rowCursor (hd (rows @ [x]))" rows r]
  by (simp add: contiguousFrom_snoc)

lemma insertRow_mset: "mset (insertRow key x ys) = add_mset x (mset ys)"
  by (induction ys) auto

lemma orderBy_mset: "mset (orderBy key rows) = mset rows"
proof -
  have "mset (foldl (\<lambda>sorted row. insertRow key row sorted) acc rows) = mset acc + mset rows" for acc
    by (induction rows arbitrary: acc) (simp_all add: insertRow_mset)
  then show ?thesis by (simp add: orderBy_def)
qed

section \<open>Properties\<close>

text \<open>C16: After any history, an append under a retention policy leaves a log of at most the policy's event limit.
  Its bytes are within the byte limit too, unless it is one event behind a boundary (an event too large on its own) or its
  events without the boundary are within the limit (nothing but an older boundary exceeds it).\<close>

theorem append_within_retention:
  assumes "appendEvent event next revision (Some policy) (runSteps repositoryStep ops emptyDatabase) = Inr (res, db')"
  shows "withinPolicy policy (sessionEvents db' (eventSessionId (recordEvent event)))"
proof -
  let ?db = "runSteps repositoryStep ops emptyDatabase"
  have ok: "databaseOk ?db" by (rule repository.run_ok [OF emptyDatabase_ok])
  obtain e n r where a: "appendEventTransaction e n r (Some policy) ?db = Inr (res, db')" "parsedEvent (recordEvent e)"
    "2 \<le> outputEventLimit policy" "eventSessionId (recordEvent e) = eventSessionId (recordEvent event)"
    by (rule parsed_append [OF assms]) auto
  let ?sid = "eventSessionId (recordEvent e)"
  obtain current db1 db2 p where t: "requireState ?db ?sid = Inr current"
    "assertEventAdvance (stateProjection current) e n = Inr ()" "insertEvent e ?db = Inr db1"
    "applySelectedProjectionRetention n policy db1 = Inr (p, db2)" "commitProjection p db2 = Inr db'"
    using a(1) by (auto simp: appendEventTransaction_def)
  note f = require_facts [OF ok t(1)] and c = require_counters [OF ok t(1)]
  note log = advance_log [OF t(2) f(4) c a(2)]
  have ev: "sessionEvents db1 ?sid = sessionEvents ?db ?sid @ [eventToRow e]"
    using insertEvent_Inr(1) [OF t(3)] sessionEvents_insert(2) [of ?db "eventToRow e"] nextRowCursor_greater [OF f(4)] log(1)
    by simp
  have "sessionIdent (projectionSession n) = ?sid" using advance_Inr(2) [OF t(2)] f(3) by simp
  from retention_within [OF t(4) this] log ev a(3) commit_Inr [OF t(5)] show ?thesis by (simp add: a(4))
qed

theorem append_within_retention_witness:
  "withinPolicy samplePolicy (sessionEvents (sampleDatabase 3) sampleId) \<and> outputEventLimit samplePolicy = 2"
proof -
  obtain res where r: "sampleAppend 2 (sampleDatabase 2) = Inr (res, sampleDatabase 3)" by (rule sample_third)
  have "appendEvent (sampleRecord 3) (sampleProjection 3) (sampleRevision (Some 2)) (Some samplePolicy)
      (runSteps repositoryStep (sampleOps 2) emptyDatabase) = Inr (res, sampleDatabase 3)"
    unfolding sample_run using r by (simp add: sampleAppend_def eval_nat_numeral)
  from append_within_retention [OF this] show ?thesis by (simp add: samplePolicy_def sampleRecord_def sampleEvent_def)
qed



text \<open>C18: A revision commits once: after an append with a revision, no append and no continuity break with the same revision
  succeeds on that session, so of two writers that read the same state one is refused.\<close>

theorem revision_commits_once:
  assumes "appendEvent event next revision policy (runSteps repositoryStep ops emptyDatabase) = Inr (res, db')"
    "eventSessionId (recordEvent event') = eventSessionId (recordEvent event)"
  shows "(\<exists>e. appendEvent event' next' revision policy' db' = Inl e) \<and>
    (\<exists>e. replaceEventsWithBoundary event' next' revision db' = Inl e)"
proof -
  let ?db = "runSteps repositoryStep ops emptyDatabase" and ?sid = "eventSessionId (recordEvent event)"
  have ok: "databaseOk ?db" by (rule repository.run_ok [OF emptyDatabase_ok])
  obtain e n r where a: "appendEventTransaction e n r policy ?db = Inr (res, db')" "parseSelectedStateRevision revision = Inr r"
    "eventSessionId (recordEvent e) = ?sid"
    by (rule parsed_append [OF assms(1)]) (rule that)
  then obtain current where c: "requireState ?db ?sid = Inr current" "assertCurrentRevision current r = Inr ()"
    by (auto simp: appendEventTransaction_def)
  obtain rows where rows: "databaseOk db'" "sessionEvents db' ?sid = rows @ [eventToRow (resultEvent res)]"
    "recordCursor (resultEvent res) = recordCursor event" "cursorFloor (stateProjection current) < recordCursor event"
    using appended_last [OF ok assms(1)] c(1) by metis
  have stale: "assertCurrentRevision s r \<noteq> Inr ()" if "requireState db' ?sid = Inr s" for s
  proof -
    have "lastEventCursor (projectionSession (stateProjection s)) = Some (recordCursor event)"
      using require_counters [OF rows(1) that] rows(2,3) by (auto simp: recordCountersOk_def split: list.splits)
    moreover have "lastEventCursor (projectionSession (stateProjection current)) \<noteq> Some (recordCursor event)"
      using rows(4) by (auto simp: cursorFloor_def)
    ultimately show ?thesis using c(2) by (auto simp: assertCurrentRevision_def selectedStateRevision_def)
  qed
  have "appendEvent event' next' revision policy' db' \<noteq> Inr (x, db'')" for x db''
  proof
    assume w: "appendEvent event' next' revision policy' db' = Inr (x, db'')"
    obtain e' n' r' where "appendEventTransaction e' n' r' policy' db' = Inr (x, db'')" "parseSelectedStateRevision revision = Inr r'"
      "eventSessionId (recordEvent e') = eventSessionId (recordEvent event')" by (rule parsed_append [OF w]) (rule that)
    with a(2) stale assms(2) show False by (auto simp: appendEventTransaction_def)
  qed
  moreover have "replaceEventsWithBoundary event' next' revision db' \<noteq> Inr (x, db'')" for x db''
  proof
    assume "replaceEventsWithBoundary event' next' revision db' = Inr (x, db'')"
    then obtain e' n' where p: "replaceEventsWithBoundaryTransaction e' n' r db' = Inr (x, db'')" "parseProjectedEventRecord event' = Inr e'"
      using a(2) by (auto simp: replaceEventsWithBoundary_def)
    have "eventSessionId (recordEvent e') = eventSessionId (recordEvent event')"
      using p(2) event_schema_keeps
      by (auto simp: parseProjectedEventRecord_def selectedProjectedEventRecordSchema_def bind_eq_Some_conv)
    with p(1) stale assms(2) show False by (auto simp: replaceEventsWithBoundaryTransaction_def)
  qed
  ultimately show ?thesis by (metis old.sum.exhaust surj_pair)
qed

theorem revision_commits_once_witness:
  "\<exists>e. appendEvent (sampleRecord 4) (sampleProjection 3) (sampleRevision (Some 2)) None (sampleDatabase 3) = Inl e"
proof -
  obtain res where "sampleAppend 2 (sampleDatabase 2) = Inr (res, sampleDatabase 3)" by (rule sample_third)
  then have "appendEvent (sampleRecord 3) (sampleProjection 3) (sampleRevision (Some 2)) (Some samplePolicy)
      (runSteps repositoryStep (sampleOps 2) emptyDatabase) = Inr (res, sampleDatabase 3)"
    unfolding sample_run by (simp add: sampleAppend_def eval_nat_numeral)
  from revision_commits_once [OF this, of "sampleRecord 4"] show ?thesis by (simp add: sampleRecord_def sampleEvent_def)
qed



end
