(* ===== verification/Projection_Pipeline.thy ===== *)
theory Projection_Pipeline
  imports Projection_Service Repository_Properties
begin

text \<open>
  What the projection service guarantees: whatever it is given, the repository stays readable; an
  acceptable event is committed at the end of its session's log; and a failure is final.
\<close>

section \<open>The service keeps the repository readable\<close>

text \<open>The session a port writes has been parsed, so it is in normal form if the repository accepts it at all.\<close>

lemma parsed_normal:
  assumes "parseProjection next = Inr n" "managedSessionProjectionSchema v = Some (projectionSession next)"
  shows "normalProjection next"
proof -
  obtain u where u: "managedSessionProjectionSchema (projectionSession next) = Some u" "projectionCountersOk next"
    using assms(1) by (auto simp: parseProjection_def selectedSessionProjectionRecordSchema_def bind_eq_Some_conv)
  have "u = projectionSession next" by (rule session_twice [OF assms(2) u(1)])
  with u show ?thesis by (simp add: selectedSessionProjectionRecordSchema_def guard_def)
qed

lemma append_next_parsed: "appendEvent event next revision policy db = Inr r \<Longrightarrow> \<exists>n. parseProjection next = Inr n"
  by (auto simp: appendEvent_def)

lemma portStored:
  assumes "appendStored retention input db = Inr (res, db')"
  obtains sid current cursor event session rec revision where
    "requireState db sid = Inr current" "parseAddressedEvent sid cursor (inputEvent input) = Inr event"
    "parseAddressedSession cursor (inputNext input) = Inr session" "recordOf event = Inr rec"
    "appendEvent rec (appendedProjection (stateProjection current) session rec) revision (Some retention) db = Inr (res, db')"
    "normalProjection (appendedProjection (stateProjection current) session rec)" "sessionIdSchema (inputSession input) = Some sid"
proof -
  from assms obtain sid current cursor event session rec revision where p:
    "requireState db sid = Inr current" "parseAddressedEvent sid cursor (inputEvent input) = Inr event"
    "parseAddressedSession cursor (inputNext input) = Inr session" "recordOf event = Inr rec"
    "appendEvent rec (appendedProjection (stateProjection current) session rec) revision (Some retention) db = Inr (res, db')"
    and id: "sessionIdSchema (inputSession input) = Some sid"
    by (auto simp: appendStored_def parseAppendInput_def Let_def repositoryRequire_def parseSessionIdArg_def dest: exact_identifiers)
  have "managedSessionProjectionSchema (addressedSession cursor (inputNext input)) = Some session"
    using p(3) by (simp add: parseAddressedSession_def)
  then have "normalProjection (appendedProjection (stateProjection current) session rec)"
    using append_next_parsed [OF p(5)] parsed_normal by (metis appendedProjection_def projection_record.select_convs(1))
  from that [OF p this id] show thesis .
qed

lemma portAppend_store:
  "fst (snd (portAppend retention publish input state)) =
     (case appendStored retention input (fst state) of Inl e \<Rightarrow> fst state | Inr (res, db) \<Rightarrow> db)"
  by (auto simp: portAppend_def publishing_def split: sum.splits prod.splits)

lemma port_stored:
  assumes "storedOk (fst state)"
  shows "storedOk (fst (snd (portAppend retention publish input state)))"
proof (cases "appendStored retention input (fst state)")
  case (Inr r)
  then obtain res db' where r: "appendStored retention input (fst state) = Inr (res, db')" by (cases r) auto
  obtain rec n rev where a: "appendEvent rec n rev (Some retention) (fst state) = Inr (res, db')" "normalProjection n"
    by (rule portStored [OF r]) (rule that)
  have "databaseOk db'"
    using repository.step_ok [of "fst state" "Append rec n rev (Some retention)"] assms a(1)
    by (simp add: storedOk_def committed_def transaction_def)
  from append_stored [OF assms a this] show ?thesis by (simp add: portAppend_store r)
qed (simp add: portAppend_store assms)

lemma project_store:
  obtains "serviceStore (snd (project retention publish event s)) = serviceStore s"
  | input where "serviceStore (snd (project retention publish event s)) = snd (portAppend retention publish input (serviceStore s))"
proof (cases event)
  case (Thread_scope e)
  have t: "serviceStore (snd (projectThread retention publish e s)) = serviceStore s \<or>
      (\<exists>input. serviceStore (snd (projectThread retention publish e s)) = snd (portAppend retention publish input (serviceStore s)))"
    for s :: "'a service"
  proof (cases "getByThreadId (fst (serviceStore s)) (evThread e)")
    case (Inr found)
    obtain r store where p: "portAppend retention publish (reducedInput (the found) e) (serviceStore s) = (r, store)" by (cases "portAppend retention publish (reducedInput (the found) e) (serviceStore s)")
    have "serviceStore (snd (projectThread retention publish e s)) = serviceStore s \<or>
        serviceStore (snd (projectThread retention publish e s)) = store"
      by (auto simp: projectThread_def Inr Let_def p split: sum.splits)
    moreover have "store = snd (portAppend retention publish (reducedInput (the found) e) (serviceStore s))" by (simp add: p)
    ultimately show ?thesis by blast
  qed (simp add: projectThread_def)
  have "serviceStore (snd (project retention publish event s)) = serviceStore s \<or>
      serviceStore (snd (project retention publish event s)) =
        serviceStore (snd (projectThread retention publish e (s\<lparr> lastSequence := evSequence e \<rparr>)))"
    by (auto simp: project_def projectOne_def Thread_scope Let_def split: sum.splits prod.splits)
  with t [of "s\<lparr> lastSequence := evSequence e \<rparr>"] that show thesis by auto
qed (use that(1) in \<open>simp add: project_def projectOne_def Let_def\<close>)

fun normalServiceOp :: "service_op \<Rightarrow> bool" where
  "normalServiceOp (Project event) = True"
| "normalServiceOp (Elsewhere op) = normalOp op"

abbreviation serviceDatabase :: "'h service \<Rightarrow> database" where
  "serviceDatabase s \<equiv> fst (serviceStore s)"

lemma service_stored:
  assumes "storedOk (serviceDatabase s)" "normalServiceOp op"
  shows "storedOk (serviceDatabase (serviceStep retention publish op s))"
proof (cases op)
  case (Project event)
  then show ?thesis
    using port_stored [OF assms(1)] assms(1) by (cases rule: project_store [of retention publish event s]) simp_all
next
  case (Elsewhere op)
  then show ?thesis using step_stored [OF assms(1)] assms(2) by simp
qed

lemma service_run_stored:
  "\<forall>op \<in> set ops. normalServiceOp op \<Longrightarrow>
     storedOk (serviceDatabase (runSteps (serviceStep retention publish) ops (createService emptyDatabase hub)))"
proof -
  have "\<forall>op \<in> set ops. normalServiceOp op \<Longrightarrow> storedOk (serviceDatabase s) \<Longrightarrow>
      storedOk (serviceDatabase (runSteps (serviceStep retention publish) ops s))" for s
    by (induction ops arbitrary: s) (simp_all add: service_stored del: serviceStep.simps)
  then show "\<forall>op \<in> set ops. normalServiceOp op \<Longrightarrow> ?thesis" by (simp add: createService_def emptyDatabase_stored)
qed

section \<open>A failure is final\<close>

definition serviceLater :: "'h service \<Rightarrow> 'h service \<Rightarrow> bool" where
  "serviceLater s t \<longleftrightarrow> lastSequence s \<le> lastSequence t \<and> (serviceFailure s \<noteq> None \<longrightarrow> serviceFailure t = serviceFailure s)"

lemma project_later: "serviceLater s (snd (project retention publish event s))"
  by (auto simp: serviceLater_def project_def projectOne_def projectThread_def Let_def
      split: normalized_event.splits sum.splits prod.splits)

interpretation projection: latched_machine "serviceStep retention publish" "\<lambda>_. True" serviceLater
  "\<lambda>s. serviceFailure s \<noteq> None" "\<lambda>s. (serviceFailure s, lastSequence s)"
  for retention publish
proof
  show "serviceLater s (serviceStep retention publish op s)" for s op
    by (cases op) (simp add: project_later, simp add: serviceLater_def)
  show "serviceLater s s" for s by (simp add: serviceLater_def)
  show "serviceLater s t \<Longrightarrow> serviceLater t u \<Longrightarrow> serviceLater s u" for s t u by (auto simp: serviceLater_def)
  show "serviceFailure s \<noteq> None \<Longrightarrow> serviceFailure (serviceStep retention publish op s) \<noteq> None \<and>
      (serviceFailure (serviceStep retention publish op s), lastSequence (serviceStep retention publish op s)) =
      (serviceFailure s, lastSequence s)" for s op
    by (cases op) (simp_all add: project_def)
qed simp

section \<open>When an event is committed\<close>

text \<open>
  Room for one more event: an upstream id not stored yet, the schema's bounds on the counters and the
  cursor, settings that fit their column, and a log that retention may cut, or that needs no cut.
\<close>

definition roomFor :: "retention_policy \<Rightarrow> selected_state \<Rightarrow> thread_event \<Rightarrow> database \<Rightarrow> bool" where
  "roomFor retention current event db \<longleftrightarrow>
     (let p = stateProjection current; rows = sessionEvents db (mappingId (stateMapping current)) in
      settingsFit (sessionSettings (snd (reduceCodexProjectionEvent (projectionSession p) event))) \<and>
      (evCodexId event = None \<or> (\<forall>r \<in> set rows. codexEventId (rowEvent r) \<noteq> evCodexId event)) \<and>
      retainedCount p < maxProjectionEvents \<and> retainedBytes p + 100000 \<le> maxProjectionBytes \<and> nextRowCursor rows \<le> maxSafe \<and>
      (prunable rows \<or>
       retainedCount p < outputEventLimit retention \<and> retainedBytes p + 100000 \<le> outputByteLimit retention))"

lemma thread_found:
  assumes "databaseOk db" "getByThreadId db thread = Inr (Some current)"
  shows "requireState db (mappingId (stateMapping current)) = Inr current"
proof -
  obtain sid where "requireState db sid = Inr current"
    using assms(2) by (auto simp: getByThreadId_def split: option.splits)
  with require_facts(2) [OF assms(1) this] show ?thesis by simp
qed

lemma base_capture [simp]:
  "capturedAt (eventBase event b) = evCapturedAt event" "codexEventId (eventBase event b) = evCodexId event"
  "capturedAt (withContent state notice e) = capturedAt e" "codexEventId (withContent state notice e) = codexEventId e"
  by (simp_all add: eventBase_def withContent_def)

lemma item_capture: "capturedAt (fst (reduceItem session event i)) = evCapturedAt event \<and>
    codexEventId (fst (reduceItem session event i)) = evCodexId event"
  by (simp add: reduceItem_def activity_fst split: option.split list.split)

lemma reduced_capture: "capturedAt (fst (reduceCodexProjectionEvent session event)) = evCapturedAt event"
  "codexEventId (fst (reduceCodexProjectionEvent session event)) = evCodexId event"
  by (cases "evPayload event"; simp add: reduceCodexProjectionEvent_def activity_fst item_capture Let_def)+

lemma reduced_appendable:
  assumes "storedOk db" "requireState db (mappingId (stateMapping current)) = Inr current" "normalizedOk event"
    "settingsAccepted (evPayload event)" "roomFor retention current event db"
    "\<not> str_less (evCapturedAt event) (updatedAt (projectionSession (stateProjection current)))"
  shows "appendable retention (reducedInput current event) current db"
proof -
  let ?s = "projectionSession (stateProjection current)" and ?r = "reduceCodexProjectionEvent (projectionSession (stateProjection current)) event"
  have st: "stateOk current" by (rule stored_required(1) [OF assms(1,2)])
  then have fields: "sessionFieldsOk ?s"
    by (simp add: stateOk_def normalState_def projection_kept_iff sessionOk_def)
  note red = reduced_session [OF fields assms(3,4,6)]
  note f = reduced_fields [OF red(2)]
  have "\<not> str_less (updatedAt ?s) (createdAt ?s)" using st by (auto simp: stateOk_def assertStateChronology_def Let_def)
  then have "\<not> str_less (evCapturedAt event) (createdAt ?s)" by (rule not_less_trans) (rule assms(6))
  then show ?thesis
    using f red(1) event_appendable [OF assms(3)] assms(5,6)
    by (simp add: appendable_def reducedInput_def split_beta roomFor_def Let_def sameIdentity_def reduced_capture)
qed

section \<open>Calls of the service\<close>

lemma sequence_nonneg:
  "0 \<le> lastSequence (runSteps (serviceStep retention publish) ops (createService emptyDatabase hub))"
  using projection.run_later [of "createService emptyDatabase hub" retention publish ops]
  by (simp add: serviceLater_def createService_def)

text \<open>A selected session's event that is in order and not too late is given to the append port.\<close>

lemma project_calls:
  assumes "serviceFailure s = None" "0 \<le> lastSequence s" "lastSequence s < evSequence event" "evSequence event \<le> maxSafe"
    "getByThreadId (serviceDatabase s) (evThread event) = Inr (Some current)" "\<not> observed (Some current)"
    "\<not> str_less (evCapturedAt event) (updatedAt (projectionSession (stateProjection current)))"
  shows "project retention publish (Thread_scope event) s =
    (case portAppend retention publish (reducedInput current event) (serviceStore s) of
       (Inl e, store) \<Rightarrow> (Inl (Append_failed e), s\<lparr> serviceStore := store, lastSequence := evSequence event,
          serviceFailure := Some (Append_failed e) \<rparr>)
     | (Inr res, store) \<Rightarrow> (Inr (Committed (evSequence event) res),
          s\<lparr> serviceStore := store, lastSequence := evSequence event \<rparr>))"
  using assms
  by (auto simp: project_def projectOne_def projectThread_def split: sum.split prod.split)

lemma stopped_calls:
  assumes "serviceFailure s \<noteq> None"
  shows "fst (project retention publish event (runSteps (serviceStep retention publish) ops s)) = Inl Projection_stopped"
  using projection.terminal_run [of s retention publish ops] assms by (simp add: project_def)

lemma refused_append:
  assumes "serviceFailure s = None" "0 \<le> lastSequence s" "lastSequence s < evSequence event" "evSequence event \<le> maxSafe"
    "getByThreadId (serviceDatabase s) (evThread event) = Inr (Some current)" "\<not> observed (Some current)"
    "\<not> str_less (evCapturedAt event) (updatedAt (projectionSession (stateProjection current)))"
    "\<And>r. appendStored retention (reducedInput current event) (serviceDatabase s) \<noteq> Inr r"
  shows "\<exists>e. fst (project retention publish (Thread_scope event) s) = Inl (Append_failed e)"
    "fst (project retention publish event' (runSteps (serviceStep retention publish) ops
       (snd (project retention publish (Thread_scope event) s)))) = Inl Projection_stopped"
proof -
  obtain e where e: "appendStored retention (reducedInput current event) (serviceDatabase s) = Inl e"
    using assms(8) by (metis old.sum.exhaust)
  note p = project_calls [OF assms(1-7), of retention publish]
  show "\<exists>e. fst (project retention publish (Thread_scope event) s) = Inl (Append_failed e)"
    by (simp add: p portAppend_def publishing_def e)
  show "fst (project retention publish event' (runSteps (serviceStep retention publish) ops
       (snd (project retention publish (Thread_scope event) s)))) = Inl Projection_stopped"
    by (rule stopped_calls) (simp add: p portAppend_def publishing_def e)
qed

section \<open>Batches of calls\<close>

fun resultSequence :: "projection_result \<Rightarrow> int" where
  "resultSequence (Committed n res) = n"
| "resultSequence (Runtime_observation n e) = n"
| "resultSequence (Unmanaged_observation n thread method) = n"

text \<open>The results of calls made one after the other.\<close>

fun projectAll ::
  "retention_policy \<Rightarrow> 'h publisher \<Rightarrow> normalized_event list \<Rightarrow> 'h service \<Rightarrow> (service_error + projection_result) list" where
  "projectAll retention publish [] s = []"
| "projectAll retention publish (event # events) s =
     (case project retention publish event s of (r, s') \<Rightarrow> r # projectAll retention publish events s')"

lemma projectAll_stopped:
  "serviceFailure s \<noteq> None \<Longrightarrow> projectAll retention publish events s = replicate (length events) (Inl Projection_stopped)"
  by (induction events) (simp_all add: project_def)

lemma thread_result:
  assumes "projectThread retention publish e s = (r, s')"
  shows "lastSequence s' = lastSequence s \<and> serviceFailure s' = serviceFailure s \<and> (\<forall>x. r = Inr x \<longrightarrow> resultSequence x = evSequence e)"
proof (cases "getByThreadId (fst (serviceStore s)) (evThread e)")
  case (Inr found)
  obtain x store where p: "portAppend retention publish (reducedInput (the found) e) (serviceStore s) = (x, store)"
    by (cases "portAppend retention publish (reducedInput (the found) e) (serviceStore s)")
  show ?thesis using assms unfolding projectThread_def Inr Let_def sum.case p by (cases x) (auto split: if_splits)
qed (use assms in \<open>auto simp: projectThread_def\<close>)

lemma one_result:
  assumes "projectOne retention publish event s = (r, s')"
  shows "serviceFailure s' = serviceFailure s \<and>
    (\<forall>x. r = Inr x \<longrightarrow> resultSequence x = eventSequence event \<and> lastSequence s < eventSequence event \<and>
       lastSequence s' = eventSequence event)"
proof (cases event)
  case (Thread_scope e)
  obtain r1 s1 where t: "projectThread retention publish e (s\<lparr> lastSequence := evSequence e \<rparr>) = (r1, s1)"
    by (cases "projectThread retention publish e (s\<lparr> lastSequence := evSequence e \<rparr>)")
  show ?thesis
  proof (cases "\<bar>evSequence e\<bar> > maxSafe \<or> evSequence e \<le> lastSequence s")
    case False
    then have "r = r1" "s' = s1" using assms by (simp_all add: projectOne_def Thread_scope Let_def t)
    with thread_result [OF t] False show ?thesis by (simp add: Thread_scope)
  qed (use assms in \<open>auto simp: projectOne_def Thread_scope\<close>)
next
  case (Runtime_scope e)
  then show ?thesis
    using assms by (cases "\<bar>evSequence e\<bar> > maxSafe \<or> evSequence e \<le> lastSequence s") (auto simp: projectOne_def Let_def)
qed

lemma project_result:
  assumes "project retention publish event s = (Inr r, s')"
  shows "resultSequence r = eventSequence event" "lastSequence s < eventSequence event" "lastSequence s' = eventSequence event"
    "serviceFailure s' = None"
proof -
  have f: "serviceFailure s = None" using assms by (auto simp: project_def split: if_splits)
  obtain x s1 where o: "projectOne retention publish event s = (x, s1)" by (cases "projectOne retention publish event s")
  have "x = Inr r" "s1 = s'" using assms f by (auto simp: project_def o split: sum.splits)
  with one_result [OF o] f show "resultSequence r = eventSequence event" "lastSequence s < eventSequence event"
    "lastSequence s' = eventSequence event" "serviceFailure s' = None" by simp_all
qed

lemma projectAll_order:
  "serviceFailure s = None \<Longrightarrow>
    \<exists>good bad. projectAll retention publish events s = map Inr good @ bad \<and>
      map resultSequence good = map eventSequence (take (length good) events) \<and>
      sorted_wrt (<) (lastSequence s # map resultSequence good) \<and>
      (bad = [] \<or> (\<exists>e. bad = Inl e # replicate (length events - length good - 1) (Inl Projection_stopped)))"
proof (induction events arbitrary: s)
  case (Cons event events)
  obtain r s' where p: "project retention publish event s = (r, s')" by (cases "project retention publish event s")
  show ?case
  proof (cases r)
    case (Inl e)
    then have "serviceFailure s' \<noteq> None" using p Cons.prems by (auto simp: project_def split: sum.splits prod.splits)
    then have "projectAll retention publish (event # events) s = map Inr [] @ (Inl e # replicate (length events) (Inl Projection_stopped))"
      using p Inl by (simp add: projectAll_stopped)
    then show ?thesis by (intro exI [of _ "[]"] exI [of _ "Inl e # replicate (length events) (Inl Projection_stopped)"]) simp
  next
    case (Inr x)
    note f = project_result [OF p [unfolded Inr]]
    from Cons.IH [OF f(4)] obtain good bad where i: "projectAll retention publish events s' = map Inr good @ bad"
      "map resultSequence good = map eventSequence (take (length good) events)"
      "sorted_wrt (<) (lastSequence s' # map resultSequence good)"
      "bad = [] \<or> (\<exists>e. bad = Inl e # replicate (length events - length good - 1) (Inl Projection_stopped))" by blast
    have "sorted_wrt (<) (lastSequence s # map resultSequence (x # good))" using i(3) f(1-3) by fastforce
    then show ?thesis using i p Inr f(1) by (intro exI [of _ "x # good"] exI [of _ bad]) simp
  qed
qed simp

section \<open>A full log behind an adoption boundary\<close>

lemma layout_refused:
  assumes "realRecord (hd records) = False" "records \<noteq> []" "boundaryCursor p = None"
  shows "assertSelectedRetentionLayout (rev records) p \<noteq> Inr ()"
  using assms by (cases records) (simp_all add: assertSelectedRetentionLayout_def Let_def)

lemma full_boundary_refused:
  assumes "storedOk db" "requireState db sid = Inr current" "inputSession input = sid" "absLog sid db = Some (b # es)"
    "eventBody b = Replay_boundary None 1 BR_adoption" "outputEventLimit retention \<le> int (length (b # es))"
  shows "appendStored retention input db \<noteq> Inr (res, db')"
proof
  assume app: "appendStored retention input db = Inr (res, db')"
  have ok: "databaseOk db" "eventsReadable db" using assms(1) by (simp_all add: storedOk_def)
  obtain key cur cursor event session rec revision where s: "requireState db key = Inr cur"
    "appendEvent rec (appendedProjection (stateProjection cur) session rec) revision (Some retention) db = Inr (res, db')"
    "sessionIdSchema (inputSession input) = Some key" "parseAddressedEvent key cursor (inputEvent input) = Inr event"
    "recordOf event = Inr rec" by (rule portStored [OF app]) (rule that)
  have "key = sid" using s(3) assms(3) exact_identifiers(1) by simp
  from s(2) obtain e n r where a: "appendEventTransaction e n r (Some retention) db = Inr (res, db')" "checkedRecord e"
    "parsedEvent (recordEvent e)" and same: "parseProjectedEventRecord rec = Inr e"
    using parse_checked parseEventArg by (auto simp: appendEvent_def dest: parsePolicy_Inr)
  let ?sid = "eventSessionId (recordEvent e)"
  from a(1) obtain c db1 p db2 where t: "requireState db ?sid = Inr c" "assertEventAdvance (stateProjection c) e n = Inr ()"
    "insertEvent e db = Inr db1" "applySelectedProjectionRetention n retention db1 = Inr (p, db2)"
    by (auto simp: appendEventTransaction_def)
  have "recordEvent rec = event" using s(5) by (auto simp: recordOf_def)
  moreover have "eventSessionId event = sid"
    using s(4) event_schema_keeps [of "addressedEvent key cursor (inputEvent input)" event] \<open>key = sid\<close>
    by (simp add: parseAddressedEvent_def)
  ultimately have sid: "?sid = sid"
    using same event_schema_keeps
    by (auto simp: parseProjectedEventRecord_def selectedProjectedEventRecordSchema_def bind_eq_Some_conv)
  note c = require_facts [OF ok(1) t(1)] and counters = require_counters [OF ok(1) t(1)]
  note log = advance_log [OF t(2) c(4) counters a(3)]
  have rows: "sessionEvents db1 ?sid = sessionEvents db ?sid @ [eventToRow e]"
    using insertEvent_Inr(1) [OF t(3)] sessionEvents_insert(2) [of db "eventToRow e"] nextRowCursor_greater [OF c(4)] log(1)
    by simp
  have es: "map rowEvent (sessionEvents db sid) = b # es" using assms(4) by (simp add: absLog_def split: if_splits)
  have hd: "sessionEvents db1 sid \<noteq> []" "rowEvent (hd (sessionEvents db1 sid)) = b"
    "int (length (sessionEvents db1 sid)) = int (length (b # es)) + 1"
    using rows es unfolding sid by (auto simp: map_eq_Cons_conv dest: arg_cong [of _ _ length])
  have target: "sessionIdent (projectionSession n) = sid" using advance_Inr(2) [OF t(2)] c(3) sid by simp
  have "retainedCount n = int (length (b # es)) + 1" "boundaryCursor n = None"
    using log(3) rows hd assms(5) unfolding sid
    by (auto simp: recordCountersOk_def boundaryAfter_def neq_Nil_conv split: list.splits)
  moreover from this have "\<not> projectionMeetsRetention n retention" using assms(6) by (simp add: projectionMeetsRetention_def)
  moreover have "eventsReadable db1" by (rule insert_readable [OF t(3) a(2) ok(2)])
  then have "mapAll parseEventRow (rev (sessionEvents db1 sid)) = Inr (rev (map rowRecord (sessionEvents db1 sid)))"
    using readable_records [of db1 "rev (sessionEvents db1 sid)" sid] by (simp add: rev_map)
  moreover have "realRecord (hd (map rowRecord (sessionEvents db1 sid))) = False"
    using hd assms(5) by (simp add: list.map_sel realRecord_def isBoundary_def)
  ultimately show False
    using t(4) layout_refused [of "map rowRecord (sessionEvents db1 sid)" n] hd(1) target
    by (simp add: applySelectedProjectionRetention_def)
qed

section \<open>Sample calls\<close>

definition sampleCall :: "codex_event \<Rightarrow> thread_event" where
  "sampleCall payload =
     \<lparr> evSequence = 1, evCapturedAt = sampleTime, evUpstreamAt = None, evCodexId = None, evThread = js ''thread-1'', evPayload = payload \<rparr>"

abbreviation quiet :: "unit publisher" where
  "quiet \<equiv> \<lambda>res h. (True, h)"

definition sampleService :: "repository_op list \<Rightarrow> unit service" where
  "sampleService ops = runSteps (serviceStep samplePolicy quiet) (map Elsewhere ops) (createService emptyDatabase ())"

lemma sample_service:
  "sampleService [op] = createService (repositoryStep op emptyDatabase) ()"
  by (simp add: sampleService_def createService_def)

lemma sample_thread:
  "getByThreadId sampleStored (js ''thread-1'') = Inr (Some sampleStart)"
  "getByThreadId adoptedDatabase (js ''thread-1'') = Inr (Some adoptedState)"
proof -
  have m: "mappingThread sampleMapping = js ''thread-1''" "mappingId sampleMapping = sampleId" by (simp_all add: sampleMapping_def)
  have "sessionTable sampleStored = [sampleMapping]" "sessionTable adoptedDatabase = [sampleMapping]"
    by (simp_all add: sampleStored_def adoptedDatabase_def)
  then show "getByThreadId sampleStored (js ''thread-1'') = Inr (Some sampleStart)"
    "getByThreadId adoptedDatabase (js ''thread-1'') = Inr (Some adoptedState)"
    using sample_scalars(4) sample_managed(2) adopted_found by (simp_all add: getByThreadId_def parseThreadIdArg_def m)
qed

lemma sample_normalized: "payloadOk payload \<Longrightarrow> normalizedOk (sampleCall payload)"
  using sample_scalars(2) by (simp add: normalizedOk_def sampleCall_def)

lemma sample_observed: "\<not> observed (Some sampleStart)" "\<not> observed (Some adoptedState)"
  by (simp_all add: observed_def sampleStart_def adoptedState_def sampleMapping_def)

lemma samplePolicy_limit: "outputEventLimit samplePolicy = 2" by (simp add: samplePolicy_def)

lemma adopted_body: "eventBody adoptedBoundary = Replay_boundary None 1 BR_adoption" by (simp add: adoptedBoundary_def)

lemma sample_updated:
  "updatedAt (projectionSession (stateProjection sampleStart)) = sampleTime"
  "updatedAt (projectionSession (stateProjection adoptedState)) = sampleTime"
  "mappingId (stateMapping sampleStart) = sampleId" "mappingId (stateMapping adoptedState) = sampleId"
  by (simp_all add: sampleStart_def adoptedState_def emptyProjection_def adoptedProjection_def sampleSession_def sampleMapping_def)

section \<open>Properties\<close>



text \<open>C1: An acceptable event is committed. After any calls of the service and any other operations with parsed projections,
  an event that is in order, normalized, not older than its selected session, with settings the contract accepts and room in
  the log, is appended at the end of its session's log as the reducer made it, and the service goes on.\<close>

theorem projection_commits:
  assumes "\<forall>op \<in> set ops. normalServiceOp op"
    "s = runSteps (serviceStep retention publish) ops (createService emptyDatabase hub)" "serviceFailure s = None"
    "lastSequence s < evSequence event" "evSequence event \<le> maxSafe"
    "getByThreadId (serviceDatabase s) (evThread event) = Inr (Some current)" "\<not> observed (Some current)"
    "\<not> str_less (evCapturedAt event) (updatedAt (projectionSession (stateProjection current)))"
    "normalizedOk event" "settingsAccepted (evPayload event)" "roomFor retention current event (serviceDatabase s)"
    "parseRetention candidate = Some retention" "\<And>res h. fst (publish res h)"
    "sid = mappingId (stateMapping current)" "absLog sid (serviceDatabase s) = Some es"
    "projected = addressedEvent sid (nextCursor es) (fst (reduceCodexProjectionEvent (projectionSession (stateProjection current)) event))"
  shows "\<exists>res s' kept. project retention publish (Thread_scope event) s = (Inr (Committed (evSequence event) res), s') \<and>
    recordEvent (resultEvent res) = projected \<and> absLog sid (serviceDatabase s') = Some (kept @ [projected]) \<and>
    serviceFailure s' = None"
proof -
  let ?db = "serviceDatabase s" and ?in = "reducedInput current event"
  have st: "storedOk ?db" unfolding assms(2) by (rule service_run_stored [OF assms(1)])
  then have ok: "databaseOk ?db" by (simp add: storedOk_def)
  have cur: "requireState ?db sid = Inr current" unfolding assms(14) by (rule thread_found [OF ok assms(6)])
  have input: "inputSession ?in = sid" "inputRevision ?in = selectedStateRevision current"
    "inputEvent ?in = fst (reduceCodexProjectionEvent (projectionSession (stateProjection current)) event)"
    by (simp_all add: reducedInput_def split_beta assms(14))
  have log: "logOk (sessionEvents ?db sid)" "es = map rowEvent (sessionEvents ?db sid)"
    using require_facts(4) [OF ok cur] assms(15) by (auto simp: absLog_def split: if_splits)
  have "appendable retention ?in current ?db"
    by (rule reduced_appendable [OF st cur [unfolded assms(14)] assms(9-11,8)])
  from port_commits [OF st cur [folded input(1)] input(2) parseRetention_policy [OF assms(12)] this]
  obtain res db' where r: "appendStored retention ?in ?db = Inr (res, db')" "recordEvent (resultEvent res) = projected"
    unfolding assms(16) input using nextCursor_rows [OF log(1)] log(2) by auto
  obtain rec n rev where a: "appendEvent rec n rev (Some retention) ?db = Inr (res, db')" by (rule portStored [OF r(1)]) (rule that)
  obtain rows where rows: "sessionEvents db' (eventSessionId (recordEvent rec)) = rows @ [eventToRow (resultEvent res)]"
    "eventSessionId (recordEvent (resultEvent res)) = eventSessionId (recordEvent rec)" "managed db' (eventSessionId (recordEvent rec))"
    by (rule appended_last [OF ok a])
  have "eventSessionId (recordEvent rec) = sid" using rows(2) r(2) by (simp add: assms(16))
  then have final: "absLog sid db' = Some (map rowEvent rows @ [projected])" using rows(1,3) r(2) by (simp add: absLog_def)
  have "project retention publish (Thread_scope event) s =
    (case portAppend retention publish ?in (serviceStore s) of
       (Inl e, store) \<Rightarrow> (Inl (Append_failed e), s\<lparr> serviceStore := store, lastSequence := evSequence event,
          serviceFailure := Some (Append_failed e) \<rparr>)
     | (Inr res, store) \<Rightarrow> (Inr (Committed (evSequence event) res),
          s\<lparr> serviceStore := store, lastSequence := evSequence event \<rparr>))"
    by (rule project_calls [OF assms(3) _ assms(4-8)]) (simp add: assms(2) sequence_nonneg)
  moreover have "portAppend retention publish ?in (serviceStore s) = (Inr res, db', snd (publish res (snd (serviceStore s))))"
    using assms(13) by (simp add: portAppend_def publishing_def r(1) split_beta)
  ultimately show ?thesis using r(2) final assms(3) by auto
qed

theorem projection_commits_witness:
  "\<exists>res s' kept. project samplePolicy quiet (Thread_scope (sampleCall Thread_goal_cleared)) (sampleService [Create sampleStart]) =
      (Inr (Committed 1 res), s') \<and>
    recordEvent (resultEvent res) = addressedEvent sampleId 1 (fst (reduceCodexProjectionEvent (sampleSession None) (sampleCall Thread_goal_cleared))) \<and>
    absLog sampleId (serviceDatabase s') = Some (kept @ [recordEvent (resultEvent res)])"
proof -
  let ?e = "sampleCall Thread_goal_cleared" and ?s = "sampleService [Create sampleStart]"
  have ops: "\<forall>op \<in> set (map Elsewhere [Create sampleStart]). normalServiceOp op"
    using sample_start by (simp add: stateOk_def)
  have s: "?s = createService sampleStored ()" using sample_created by (simp add: sample_service del: repositoryStep.simps)
  then have db: "serviceDatabase ?s = sampleStored" "serviceFailure ?s = None" "lastSequence ?s = 0" by (simp_all add: createService_def)
  have e: "evSequence ?e = 1" "evThread ?e = js ''thread-1''" "evCapturedAt ?e = sampleTime" "evPayload ?e = Thread_goal_cleared"
    "evCodexId ?e = None" by (simp_all add: sampleCall_def)
  have start: "projectionSession (stateProjection sampleStart) = sampleSession None" by (simp add: sampleStart_def emptyProjection_def)
  have room: "roomFor samplePolicy sampleStart ?e sampleStored"
  proof -
    have "settingsFit (sessionSettings (snd (reduceCodexProjectionEvent (sampleSession None) ?e)))"
      by (simp add: reduceCodexProjectionEvent_def e Let_def next_record sampleSession_def settingsFit_def)
    then show ?thesis
      using sample_managed(3)
      by (simp add: roomFor_def Let_def start sample_updated e nextRowCursor_def prunable_def maxSafe_def)
        (simp add: sampleStart_def emptyProjection_def maxProjectionEvents_def maxProjectionBytes_def)
  qed
  have policy: "parseRetention (Some samplePolicy) = Some samplePolicy"
    by (simp add: parseRetention_def retentionPolicySchema_def samplePolicy_def defaultRetentionPolicy_def)
  have log: "absLog sampleId sampleStored = Some []" using sample_managed by (simp add: absLog_def)
  have "\<exists>res s' kept. project samplePolicy quiet (Thread_scope ?e) ?s = (Inr (Committed (evSequence ?e) res), s') \<and>
      recordEvent (resultEvent res) = addressedEvent sampleId (nextCursor []) (fst (reduceCodexProjectionEvent (projectionSession (stateProjection sampleStart)) ?e)) \<and>
      absLog sampleId (serviceDatabase s') = Some (kept @
        [addressedEvent sampleId (nextCursor []) (fst (reduceCodexProjectionEvent (projectionSession (stateProjection sampleStart)) ?e))]) \<and>
      serviceFailure s' = None"
    by (rule projection_commits [OF ops sampleService_def, where candidate = "Some samplePolicy"])
      (simp_all add: db e sample_thread sample_observed sample_updated sample_normalized room policy log maxSafe_def)
  then show ?thesis by (auto simp: e start nextCursor_def)
qed

text \<open>C21: A failed call is final: whatever is called next, the service keeps the first failure and its last sequence, answers
  every event with \<open>projection_stopped\<close> and writes nothing.\<close>

theorem projection_stops_after_failure:
  assumes "fst (project retention publish event s) = Inl e"
    "s' = runSteps (serviceStep retention publish) ops (snd (project retention publish event s))"
  shows "serviceFailure s' = (if serviceFailure s = None then Some e else serviceFailure s) \<and>
    lastSequence s' = lastSequence (snd (project retention publish event s)) \<and>
    project retention publish event' s' = (Inl Projection_stopped, s')"
proof -
  have f: "serviceFailure (snd (project retention publish event s)) = (if serviceFailure s = None then Some e else serviceFailure s)"
    using assms(1) by (auto simp: project_def split: sum.splits prod.splits)
  then have "serviceFailure (snd (project retention publish event s)) \<noteq> None" by (cases "serviceFailure s") auto
  from projection.terminal_run [OF _ this, of retention publish ops]
  have "serviceFailure s' = serviceFailure (snd (project retention publish event s))"
    "lastSequence s' = lastSequence (snd (project retention publish event s))"
    by (simp_all add: assms(2))
  with f \<open>serviceFailure (snd (project retention publish event s)) \<noteq> None\<close> show ?thesis by (simp add: project_def)
qed

theorem projection_stops_after_failure_witness:
  "project samplePolicy quiet (Thread_scope (sampleCall Thread_goal_cleared))
      (snd (project samplePolicy quiet (Runtime_scope \<lparr> evSequence = 0, evCapturedAt = sampleTime, evUpstreamAt = None,
         evCodexId = None, evPrimary = None, evSecondary = None, evReached = None \<rparr>) (createService emptyDatabase ()))) =
    (Inl Projection_stopped,
     snd (project samplePolicy quiet (Runtime_scope \<lparr> evSequence = 0, evCapturedAt = sampleTime, evUpstreamAt = None,
         evCodexId = None, evPrimary = None, evSecondary = None, evReached = None \<rparr>) (createService emptyDatabase ())))"
  (is "project _ _ _ (snd ?p) = _")
proof -
  have "fst ?p = Inl Event_out_of_order" by (simp add: project_def projectOne_def createService_def)
  from projection_stops_after_failure [OF this, of "snd ?p" "[]"] show ?thesis by simp
qed

text \<open>C20: Calls are answered in order: the results of a batch of calls on a new service are results of the first events, in
  their order and with strictly increasing sequences, then at most one error, then only \<open>projection_stopped\<close>.\<close>

theorem projection_in_order:
  "\<exists>good bad. projectAll retention publish events (createService db hub) = map Inr good @ bad \<and>
    map resultSequence good = map eventSequence (take (length good) events) \<and> sorted_wrt (<) (map resultSequence good) \<and>
    (bad = [] \<or> (\<exists>e. bad = Inl e # replicate (length events - length good - 1) (Inl Projection_stopped)))"
  using projectAll_order [of "createService db hub" retention publish events] by (auto simp: createService_def)

text \<open>A settings notification with an empty effort, which the normalizer accepts, is refused by the session contract when
  its session is projected; the service stops, and with it the projection of every session.\<close>

theorem empty_effort_stops_projection:
  assumes "s = runSteps (serviceStep retention publish) ops (createService emptyDatabase hub)" "serviceFailure s = None"
    "lastSequence s < evSequence event" "evSequence event \<le> maxSafe"
    "getByThreadId (serviceDatabase s) (evThread event) = Inr (Some current)" "\<not> observed (Some current)"
    "\<not> str_less (evCapturedAt event) (updatedAt (projectionSession (stateProjection current)))"
    "evPayload event = Thread_settings_updated model (Some []) mode"
  shows "(\<exists>e. fst (project retention publish (Thread_scope event) s) = Inl (Append_failed e)) \<and>
    fst (project retention publish event' (runSteps (serviceStep retention publish) ops'
      (snd (project retention publish (Thread_scope event) s)))) = Inl Projection_stopped"
proof -
  let ?n = "inputNext (reducedInput current event)"
  have "sessionSettings ?n = Some \<lparr> collaborationMode = mode, runtimeModel = model, reasoningEffort = Some [], observedAt = evCapturedAt event \<rparr>"
    using assms(8) by (simp add: reducedInput_def split_beta reduceCodexProjectionEvent_def activity_patched Let_def)
  then have "managedSessionProjectionSchema (addressedSession cursor ?n) = None" for cursor
    by (auto simp: managedSessionProjectionSchema_def managedSessionSettingsProjectionSchema_def bounded_def split: Option.bind_splits)
  then have "parseAddressedSession cursor ?n \<noteq> Inr x" for cursor x by (simp add: parseAddressedSession_def parsed_def)
  then have refused: "appendStored retention (reducedInput current event) (serviceDatabase s) \<noteq> Inr r" for r
    by (cases r) (auto elim!: portStored)
  have pos: "0 \<le> lastSequence s" by (simp add: assms(1) sequence_nonneg)
  show ?thesis by (intro conjI refused_append [OF assms(2) pos assms(3-7) refused])
qed

theorem empty_effort_stops_projection_witness:
  "normalizedOk (sampleCall (Thread_settings_updated (js ''m'') (Some []) CM_default)) \<and>
   (\<exists>e. fst (project samplePolicy quiet (Thread_scope (sampleCall (Thread_settings_updated (js ''m'') (Some []) CM_default)))
      (sampleService [Create sampleStart])) = Inl (Append_failed e))"
proof -
  let ?e = "sampleCall (Thread_settings_updated (js ''m'') (Some []) CM_default)" and ?s = "sampleService [Create sampleStart]"
  have "?s = createService sampleStored ()" using sample_created by (simp add: sample_service del: repositoryStep.simps)
  then have db: "serviceDatabase ?s = sampleStored" "serviceFailure ?s = None" "lastSequence ?s = 0" by (simp_all add: createService_def)
  have e: "evSequence ?e = 1" "evThread ?e = js ''thread-1''" "evCapturedAt ?e = sampleTime"
    "evPayload ?e = Thread_settings_updated (js ''m'') (Some []) CM_default" by (simp_all add: sampleCall_def)
  have "normalizedOk ?e" by (intro sample_normalized) (simp add: modelLength_def)
  moreover have "(\<exists>x. fst (project samplePolicy quiet (Thread_scope ?e) ?s) = Inl (Append_failed x)) \<and>
      fst (project samplePolicy quiet (Thread_scope ?e) (runSteps (serviceStep samplePolicy quiet) []
        (snd (project samplePolicy quiet (Thread_scope ?e) ?s)))) = Inl Projection_stopped"
    by (rule empty_effort_stops_projection [OF sampleService_def, where current = sampleStart])
      (simp_all add: db e sample_thread sample_observed sample_updated maxSafe_def)
  ultimately show ?thesis by blast
qed

text \<open>C22: An adopted session whose log has reached the retention limit cannot be projected any more: its log still starts with
  the adoption boundary, which the layout check of retention does not accept, so the append of its next event fails and the
  service stops for every session.\<close>

theorem full_adopted_log_stops_projection:
  assumes "\<forall>op \<in> set ops. normalServiceOp op"
    "s = runSteps (serviceStep retention publish) ops (createService emptyDatabase hub)" "serviceFailure s = None"
    "lastSequence s < evSequence event" "evSequence event \<le> maxSafe"
    "getByThreadId (serviceDatabase s) (evThread event) = Inr (Some current)" "\<not> observed (Some current)"
    "\<not> str_less (evCapturedAt event) (updatedAt (projectionSession (stateProjection current)))"
    "absLog (mappingId (stateMapping current)) (serviceDatabase s) = Some (b # es)" "eventBody b = Replay_boundary None 1 BR_adoption"
    "outputEventLimit retention \<le> int (length (b # es))"
  shows "(\<exists>e. fst (project retention publish (Thread_scope event) s) = Inl (Append_failed e)) \<and>
    fst (project retention publish event' (runSteps (serviceStep retention publish) ops'
      (snd (project retention publish (Thread_scope event) s)))) = Inl Projection_stopped"
proof -
  let ?sid = "mappingId (stateMapping current)"
  have st: "storedOk (serviceDatabase s)" unfolding assms(2) by (rule service_run_stored [OF assms(1)])
  then have cur: "requireState (serviceDatabase s) ?sid = Inr current" using thread_found assms(6) by (simp add: storedOk_def)
  have input: "inputSession (reducedInput current event) = ?sid" by (simp add: reducedInput_def split_beta)
  have "appendStored retention (reducedInput current event) (serviceDatabase s) \<noteq> Inr r" for r
    by (cases r) (use full_boundary_refused [OF st cur input assms(9-11)] in auto)
  moreover have "0 \<le> lastSequence s" by (simp add: assms(2) sequence_nonneg)
  ultimately show ?thesis by (intro conjI refused_append [OF assms(3) _ assms(4-8)]) simp_all
qed

theorem full_adopted_log_stops_projection_witness:
  "normalizedOk (sampleCall Thread_goal_cleared) \<and>
   (\<exists>e. fst (project samplePolicy quiet (Thread_scope (sampleCall Thread_goal_cleared))
      (sampleService [Adopt sampleMember adoptedState [recordWith adoptedBoundary, recordWith adoptedMessage]])) = Inl (Append_failed e))"
proof -
  let ?e = "sampleCall Thread_goal_cleared"
    and ?ops = "[Adopt sampleMember adoptedState [recordWith adoptedBoundary, recordWith adoptedMessage]]"
  have ops: "\<forall>op \<in> set (map Elsewhere ?ops). normalServiceOp op"
    using adopted_state by (simp add: stateOk_def)
  have "sampleService ?ops = createService adoptedDatabase ()"
    using adopted_run by (simp add: sample_service del: repositoryStep.simps)
  then have db: "serviceDatabase (sampleService ?ops) = adoptedDatabase" "serviceFailure (sampleService ?ops) = None"
    "lastSequence (sampleService ?ops) = 0" by (simp_all add: createService_def)
  have e: "evSequence ?e = 1" "evThread ?e = js ''thread-1''" "evCapturedAt ?e = sampleTime" by (simp_all add: sampleCall_def)
  have "managed adoptedDatabase sampleId" by (simp add: managed_def adoptedDatabase_def sampleMapping_def)
  then have log: "absLog sampleId adoptedDatabase = Some (adoptedBoundary # [adoptedMessage])"
    using adopted_log by (simp add: absLog_def recordWith_def)
  have "(\<exists>x. fst (project samplePolicy quiet (Thread_scope ?e) (sampleService ?ops)) = Inl (Append_failed x)) \<and>
      fst (project samplePolicy quiet (Thread_scope ?e) (runSteps (serviceStep samplePolicy quiet) []
        (snd (project samplePolicy quiet (Thread_scope ?e) (sampleService ?ops))))) = Inl Projection_stopped"
    by (rule full_adopted_log_stops_projection [OF ops sampleService_def, where current = adoptedState and b = adoptedBoundary
          and es = "[adoptedMessage]"])
      (simp_all add: db e sample_thread sample_observed sample_updated log maxSafe_def adopted_body samplePolicy_limit)
  then show ?thesis using sample_normalized [of Thread_goal_cleared] by simp
qed

end
