(* ===== verification/Replay_Handoff.thy ===== *)
theory Replay_Handoff
  imports Repository_Properties
begin

text \<open>
  \<open>packages/server/src/projection-replay-live-handoff.ts\<close>: how one reader gets the events of a
  session. Opening subscribes to the fanout hub first and keeps what arrives in a paused queue, reads
  the events committed so far from the repository, and removes from the queue what the replay
  already has. The reader claims the replay and then activates a sink, which is given the queue and
  from then on every event that arrives.

  The hub is seen through what it does to the handoff: the cursor observed when subscribing, the
  events it delivers, and whether it is still available. Each read of the repository sees a database
  of its own (\<open>moments\<close>), so nothing is assumed of what is committed between two reads; events that
  arrive while opening are taken to arrive before the first read. The sink is what it does to the
  handoff before it returns and whether it returns \<open>undefined\<close>. Abort listeners of the handoff's
  signal run after it has changed its state, so their calls are calls that follow.
\<close>

section \<open>Errors and state\<close>

datatype handoff_error =
  Handoff_aborted | Activation_reentrant | Already_activated | Authorization_failed | Event_too_large
| Fanout_unavailable | Future_cursor | Handoff_closed | Handoff_failed | Invalid_input | Invalid_live_sink
| Live_delivery_failed
| Paused_queue_overflow | Replay_already_claimed | Replay_inconsistent | Replay_limit | Replay_not_claimed
| Session_archived | Handoff_session_not_found | Storage_unavailable

text \<open>The \<open>sse_\<close> entries of the resource budget.\<close>

record sse_budget =
  queueMaxEvents :: int
  queueMaxBytes :: int
  eventMaxBytes :: int
  replayMaxEvents :: int
  replayMaxBytes :: int

record buffered_event =
  bufferedEvent :: projection_event
  bufferedBytes :: int

record durable_position =
  positionArchived :: bool
  positionHighWater :: "int option"
  positionBoundary :: "int option"

record replay_snapshot =
  snapshotEvents :: "projection_event list"
  snapshotTruncated :: bool
  snapshotBytes :: int

text \<open>\<open>events_by_cursor\<close> is the list of its entries; a later entry of a cursor replaces an earlier one.\<close>

record replay_validation =
  validationBoundary :: "int option"
  validationEvents :: "(int \<times> projection_event) list"

datatype internal_state = IS_opening | IS_paused | IS_activating | IS_live | IS_closed | IS_failed

record handoff =
  handoffSession :: js_string
  handoffBudget :: sse_budget
  internalState :: internal_state
  handoffFailure :: "(handoff_error \<times> int option) option"
  subscriptionDetached :: bool
  highWaterCaptured :: bool
  highWaterCursor :: "int option"
  liveCursor :: "int option"
  acceptedLiveCursor :: "int option"
  unclassifiedCursor :: "int option"
  liveSink :: bool
  deliveringLive :: bool
  pausedQueue :: "buffered_event list"
  pausedWireBytes :: int
  handoffReplay :: "replay_snapshot option"
  replayClaimed :: bool
  replayValidation :: "replay_validation option"
  abortReason :: "handoff_error option"
  delivered :: "projection_event list"

text \<open>\<open>delivered\<close> is not in the code: it records the events the sink was given, in order.\<close>

definition isNextCursor :: "int option \<Rightarrow> int \<Rightarrow> bool" where
  "isNextCursor previous candidate \<longleftrightarrow> candidate = (case previous of None \<Rightarrow> 0 | Some p \<Rightarrow> p) + 1"

text \<open>\<open>selectedProjectionSseWireByteLength\<close>: the bytes of the frame with the event's JSON text.\<close>

definition selectedProjectionSseWireByteLength :: "projection_event \<Rightarrow> int option" where
  "selectedProjectionSseWireByteLength candidate =
     map_option
       (\<lambda>event. int (utf8Length
          (js ''id: '' @ intText (eventCursor event) @ [10] @ js ''event: '' @ eventType (eventBody event) @ [10] @
           js ''data: '' @ jsonText (eventJson event) @ [10, 10])))
       (selectedProjectionEventSchema candidate)"

section \<open>Failing and closing\<close>

definition abortWith :: "handoff_error \<Rightarrow> handoff \<Rightarrow> handoff" where
  "abortWith e h = (if abortReason h = None then h\<lparr> abortReason := Some e \<rparr> else h)"

definition clearPaused :: "handoff \<Rightarrow> handoff" where
  "clearPaused h = h\<lparr> pausedQueue := [], pausedWireBytes := 0 \<rparr>"

definition clearReplay :: "handoff \<Rightarrow> handoff" where
  "clearReplay h = h\<lparr> handoffReplay := None, replayValidation := None \<rparr>"

definition failHandoff :: "handoff_error \<Rightarrow> int option \<Rightarrow> handoff \<Rightarrow> handoff" where
  "failHandoff reason cursor h =
     (if internalState h \<in> {IS_closed, IS_failed} then h
      else abortWith reason
        (clearReplay (clearPaused
          (h\<lparr> handoffFailure := Some (reason, cursor), internalState := IS_failed, liveSink := False,
             deliveringLive := False, subscriptionDetached := True \<rparr>))))"

definition closeHandoff :: "handoff \<Rightarrow> handoff" where
  "closeHandoff h =
     abortWith Handoff_closed
       (clearReplay (clearPaused
         (h\<lparr> internalState := (if internalState h \<in> {IS_closed, IS_failed} then internalState h else IS_closed),
            liveSink := False, deliveringLive := False, subscriptionDetached := True \<rparr>)))"

definition handoffFailureError :: "handoff \<Rightarrow> handoff_error" where
  "handoffFailureError h = (case handoffFailure h of None \<Rightarrow> Handoff_failed | Some (reason, cursor) \<Rightarrow> reason)"

text \<open>The checks of the getters and of \<open>activate\<close> against the hub.\<close>

definition refreshFanoutAvailability :: "bool \<Rightarrow> handoff \<Rightarrow> handoff" where
  "refreshFanoutAvailability available h =
     (if internalState h \<in> {IS_closed, IS_failed} then h
      else if \<not> available then failHandoff Fanout_unavailable (liveCursor h) h else h)"

section \<open>Events that arrive\<close>

definition enqueue :: "projection_event \<Rightarrow> int \<Rightarrow> handoff \<Rightarrow> bool \<times> handoff" where
  "enqueue event wireBytes h =
     (if int (length (pausedQueue h)) \<ge> queueMaxEvents (handoffBudget h) \<or>
         pausedWireBytes h + wireBytes > queueMaxBytes (handoffBudget h)
      then (False, failHandoff Paused_queue_overflow (Some (eventCursor event)) h)
      else (True, h\<lparr> pausedQueue := pausedQueue h @ [\<lparr> bufferedEvent = event, bufferedBytes = wireBytes \<rparr>],
                     pausedWireBytes := pausedWireBytes h + wireBytes \<rparr>))"

definition createReplayValidation :: "projection_event list \<Rightarrow> replay_validation" where
  "createReplayValidation events =
     \<lparr> validationBoundary = (case events of [] \<Rightarrow> None | e # _ \<Rightarrow> if isBoundary e then Some (eventCursor e) else None),
       validationEvents = rev (map (\<lambda>e. (eventCursor e, e)) events) \<rparr>"

definition noReplayValidation :: replay_validation where
  "noReplayValidation = \<lparr> validationBoundary = None, validationEvents = [] \<rparr>"

definition isValidatedDuplicate :: "projection_event \<Rightarrow> replay_validation \<Rightarrow> bool" where
  "isValidatedDuplicate event v \<longleftrightarrow>
     (case validationBoundary v of None \<Rightarrow> False | Some b \<Rightarrow> eventCursor event \<le> b) \<or>
     map_of (validationEvents v) (eventCursor event) = Some event"

text \<open>\<open>onCommitted\<close> up to the delivery to a live sink: the event to deliver, or the next state.\<close>

definition receiveCommitted :: "projection_event \<Rightarrow> handoff \<Rightarrow> projection_event option \<times> handoff" where
  "receiveCommitted candidate h =
     (if internalState h \<in> {IS_closed, IS_failed} then (None, h)
      else case selectedProjectionEventSchema candidate of
        None \<Rightarrow> (None, failHandoff Replay_inconsistent None h)
      | Some event \<Rightarrow>
          (let cursor = eventCursor event; refuse = (\<lambda>reason. (None, failHandoff reason (Some cursor) h)) in
           if eventSessionId event \<noteq> handoffSession h then refuse Replay_inconsistent
           else case selectedProjectionSseWireByteLength event of
             None \<Rightarrow> refuse Replay_inconsistent
           | Some wireBytes \<Rightarrow>
               if wireBytes > eventMaxBytes (handoffBudget h) then refuse Event_too_large
               else case replayValidation h of
                 None \<Rightarrow>
                   if unclassifiedCursor h \<noteq> None \<and> \<not> isNextCursor (unclassifiedCursor h) cursor
                   then refuse Replay_inconsistent
                   else (case enqueue event wireBytes h of
                       (queued, h) \<Rightarrow> (None, if queued then h\<lparr> unclassifiedCursor := Some cursor \<rparr> else h))
               | Some v \<Rightarrow>
                   if highWaterCaptured h \<and> cursor \<le> (case highWaterCursor h of None \<Rightarrow> 0 | Some w \<Rightarrow> w)
                   then if isValidatedDuplicate event v then (None, h) else refuse Replay_inconsistent
                   else if \<not> isNextCursor (acceptedLiveCursor h) cursor then refuse Replay_inconsistent
                   else if internalState h \<noteq> IS_live then
                     (case enqueue event wireBytes h of
                        (queued, h) \<Rightarrow> (None, if queued then h\<lparr> acceptedLiveCursor := Some cursor \<rparr> else h))
                   else if deliveringLive h then refuse Replay_inconsistent
                   else (Some event, h\<lparr> deliveringLive := True \<rparr>)))"

text \<open>After the sink has returned.\<close>

definition afterLiveDelivery :: "projection_event \<Rightarrow> bool \<times> handoff \<Rightarrow> handoff" where
  "afterLiveDelivery event r =
     (case r of (accepted, h) \<Rightarrow>
        (let h = h\<lparr> deliveringLive := False \<rparr>; cursor = Some (eventCursor event) in
         if \<not> accepted then failHandoff Live_delivery_failed cursor h
         else if internalState h = IS_live then h\<lparr> acceptedLiveCursor := cursor, liveCursor := cursor \<rparr>
         else h))"

section \<open>Opening\<close>

text \<open>What the database holds at a read, and whether the hub is available just before it.\<close>

record moment =
  momentAvailable :: bool
  momentDatabase :: database

text \<open>
  \<open>normalizeOpenFailure\<close> of an error of the repository. The model of \<open>listEvents\<close> calls the
  error of its final stream check \<open>invalid_replay\<close>, where the code throws the schema's own error and
  this function makes it \<open>storage_unavailable\<close>; a stored log never fails that check.
\<close>

definition normalizeOpenFailure :: "repository_error \<Rightarrow> handoff_error" where
  "normalizeOpenFailure e =
     (if e = Session_not_found then Handoff_session_not_found
      else if e \<in> {Cursor_not_monotonic, Identity_mismatch, Invalid_event, Invalid_mapping, Invalid_projection, Invalid_replay}
      then Replay_inconsistent
      else Storage_unavailable)"

definition readDurableProjectionPosition :: "js_string \<Rightarrow> database \<Rightarrow> handoff_error + durable_position" where
  "readDurableProjectionPosition sid db =
     (case repositoryRequire db sid of
        Inl e \<Rightarrow> Inl (normalizeOpenFailure e)
      | Inr selected \<Rightarrow>
          (case (selectedSessionMappingRecordSchema (stateMapping selected),
                 selectedSessionProjectionRecordSchema (stateProjection selected)) of
             (Some mapping, Some projection) \<Rightarrow>
               if mappingId mapping \<noteq> sid \<or> sessionIdent (projectionSession projection) \<noteq> sid then Inl Replay_inconsistent
               else Inr \<lparr> positionArchived = (lifecycleState (projectionSession projection) = MS_archived),
                          positionHighWater = lastEventCursor (projectionSession projection),
                          positionBoundary = boundaryCursor projection \<rparr>
           | _ \<Rightarrow> Inl Replay_inconsistent))"

definition parseReplayStream :: "event_stream \<Rightarrow> js_string \<Rightarrow> handoff_error + event_stream" where
  "parseReplayStream candidate sid =
     (case selectedSessionEventStreamSchema candidate of
        None \<Rightarrow> Inl Replay_inconsistent
      | Some stream \<Rightarrow> if streamSession stream \<noteq> sid then Inl Replay_inconsistent else Inr stream)"

text \<open>The locals of \<open>readReplayAttempt\<close>.\<close>

record attempt_state =
  attemptEvents :: "projection_event list"
  attemptCursor :: "int option"
  attemptTruncated :: bool
  attemptBytes :: int

text \<open>The \<open>for\<close> loop over a page.\<close>

fun replayPage :: "sse_budget \<Rightarrow> projection_event list \<Rightarrow> attempt_state \<Rightarrow> handoff_error + attempt_state" where
  "replayPage budget [] s = Inr s"
| "replayPage budget (event # page) s =
     (if \<not> isBoundary event \<and>
         \<not> isNextCursor (if attemptEvents s = [] then attemptCursor s else Some (eventCursor (last (attemptEvents s)))) (eventCursor event)
      then Inl Replay_inconsistent
      else
        (let s = (if isBoundary event then s\<lparr> attemptEvents := [], attemptBytes := 0, attemptTruncated := True \<rparr> else s) in
         case selectedProjectionSseWireByteLength event of
           None \<Rightarrow> Inl Storage_unavailable
         | Some wireBytes \<Rightarrow>
             if wireBytes > eventMaxBytes budget then Inl Event_too_large
             else if int (length (attemptEvents s)) \<ge> replayMaxEvents budget \<or> attemptBytes s + wireBytes > replayMaxBytes budget
             then Inl Replay_limit
             else replayPage budget page
               (s\<lparr> attemptEvents := attemptEvents s @ [event], attemptBytes := attemptBytes s + wireBytes,
                  attemptCursor := Some (eventCursor event) \<rparr>)))"

definition replayPageLimit :: int where "replayPageLimit = 500"

text \<open>The body of the \<open>while\<close> loop, at a moment.\<close>

definition replayStep ::
  "sse_budget \<Rightarrow> js_string \<Rightarrow> int \<Rightarrow> moment \<Rightarrow> attempt_state \<Rightarrow> handoff_error + attempt_state" where
  "replayStep budget sid highWater m s =
     (if \<not> momentAvailable m then Inl Fanout_unavailable
      else case listEvents sid (attemptCursor s) replayPageLimit (momentDatabase m) of
        Inl e \<Rightarrow> Inl (normalizeOpenFailure e)
      | Inr candidate \<Rightarrow>
          (case parseReplayStream candidate sid of
             Inl e \<Rightarrow> Inl e
           | Inr stream \<Rightarrow>
               (let page = filter (\<lambda>e. eventCursor e \<le> highWater) (streamEvents stream) in
                if page = [] then Inl Replay_inconsistent else replayPage budget page s)))"

text \<open>
  The loop, with the number of the moment it is at. That it ends is a property of what is read, so
  it is a partial function: \<open>None\<close> would be a loop that never ends.
\<close>

partial_function (option) replayLoop ::
  "sse_budget \<Rightarrow> js_string \<Rightarrow> int \<Rightarrow> (nat \<Rightarrow> moment) \<Rightarrow> nat \<Rightarrow> attempt_state \<Rightarrow> ((handoff_error + attempt_state) \<times> nat) option" where
  "replayLoop budget sid highWater moments k s =
     (if (case attemptCursor s of None \<Rightarrow> False | Some c \<Rightarrow> c \<ge> highWater) then Some (Inr s, k)
      else case replayStep budget sid highWater (moments k) s of
        Inl e \<Rightarrow> Some (Inl e, Suc k)
      | Inr s \<Rightarrow> replayLoop budget sid highWater moments (Suc k) s)"

definition readReplayAttempt ::
  "sse_budget \<Rightarrow> js_string \<Rightarrow> int option \<Rightarrow> int \<Rightarrow> (nat \<Rightarrow> moment) \<Rightarrow> nat \<Rightarrow> ((handoff_error + replay_snapshot) \<times> nat) option" where
  "readReplayAttempt budget sid after highWater moments k =
     (case replayLoop budget sid highWater moments k
         \<lparr> attemptEvents = [], attemptCursor = after, attemptTruncated = False, attemptBytes = 0 \<rparr> of
        None \<Rightarrow> None
      | Some (Inl e, k) \<Rightarrow> Some (Inl e, k)
      | Some (Inr s, k) \<Rightarrow>
          Some (if attemptCursor s \<noteq> Some highWater then Inl Replay_inconsistent
                else Inr \<lparr> snapshotEvents = attemptEvents s, snapshotTruncated = attemptTruncated s, snapshotBytes = attemptBytes s \<rparr>, k))"

definition maximumRetentionReplayAttempts :: nat where "maximumRetentionReplayAttempts = 32"

text \<open>What an attempt's snapshot is checked against: taken, to be read again, or refused.\<close>

datatype verdict = Take | Again | Refuse handoff_error

definition judgeSnapshot :: "int option \<Rightarrow> int \<Rightarrow> int option \<Rightarrow> replay_snapshot \<Rightarrow> durable_position \<Rightarrow> verdict" where
  "judgeSnapshot after highWater observed snapshot current =
     (if (case positionHighWater current of None \<Rightarrow> True | Some w \<Rightarrow> w < highWater) then Refuse Replay_inconsistent
      else
        (let boundary = positionBoundary current in
         if (case observed of None \<Rightarrow> False | Some o' \<Rightarrow> (case boundary of None \<Rightarrow> True | Some b \<Rightarrow> b < o'))
         then Refuse Replay_inconsistent
         else if (case boundary of None \<Rightarrow> False | Some b \<Rightarrow> b \<ge> highWater) then Refuse Replay_inconsistent
         else
           (let crosses = (case boundary of None \<Rightarrow> False | Some b \<Rightarrow> (case after of None \<Rightarrow> True | Some a \<Rightarrow> a \<le> b));
                replayBoundary = (case snapshotEvents snapshot of [] \<Rightarrow> None | e # _ \<Rightarrow> if isBoundary e then Some e else None) in
            if crosses \<and> (case replayBoundary of None \<Rightarrow> True | Some e \<Rightarrow> boundaryAfter e \<noteq> boundary) then Again
            else if \<not> crosses \<and> boundary \<noteq> None \<and> replayBoundary \<noteq> None then Refuse Replay_inconsistent
            else Take)))"

fun replayAttempts ::
  "sse_budget \<Rightarrow> js_string \<Rightarrow> int option \<Rightarrow> int \<Rightarrow> (nat \<Rightarrow> moment) \<Rightarrow> nat \<Rightarrow> int option \<Rightarrow> nat \<Rightarrow>
     ((handoff_error + replay_snapshot) \<times> nat) option" where
  "replayAttempts budget sid after highWater moments 0 observed k = Some (Inl Replay_limit, k)"
| "replayAttempts budget sid after highWater moments (Suc attempts) observed k =
     (case readReplayAttempt budget sid after highWater moments k of
        None \<Rightarrow> None
      | Some (Inl e, k) \<Rightarrow> Some (Inl e, k)
      | Some (Inr snapshot, k) \<Rightarrow>
          if \<not> momentAvailable (moments k) then Some (Inl Fanout_unavailable, k)
          else case readDurableProjectionPosition sid (momentDatabase (moments k)) of
            Inl e \<Rightarrow> Some (Inl e, Suc k)
          | Inr current \<Rightarrow>
              (case judgeSnapshot after highWater observed snapshot current of
                 Take \<Rightarrow> Some (Inr snapshot, Suc k)
               | Refuse e \<Rightarrow> Some (Inl e, Suc k)
               | Again \<Rightarrow> replayAttempts budget sid after highWater moments attempts (positionBoundary current) (Suc k)))"

definition readReplaySnapshot ::
  "sse_budget \<Rightarrow> js_string \<Rightarrow> int option \<Rightarrow> int option \<Rightarrow> (nat \<Rightarrow> moment) \<Rightarrow> nat \<Rightarrow>
     ((handoff_error + replay_snapshot) \<times> nat) option" where
  "readReplaySnapshot budget sid after highWater moments k =
     (case highWater of
        None \<Rightarrow> Some (Inr \<lparr> snapshotEvents = [], snapshotTruncated = False, snapshotBytes = 0 \<rparr>, k)
      | Some w \<Rightarrow>
          if after = Some w then Some (Inr \<lparr> snapshotEvents = [], snapshotTruncated = False, snapshotBytes = 0 \<rparr>, k)
          else replayAttempts budget sid after w moments maximumRetentionReplayAttempts None k)"

text \<open>\<open>normalizePausedQueue\<close>: its two loops.\<close>

fun pausedInSequence :: "int option \<Rightarrow> buffered_event list \<Rightarrow> bool" where
  "pausedInSequence observed [] \<longleftrightarrow> True"
| "pausedInSequence observed (b # paused) \<longleftrightarrow>
     (observed = None \<or> isNextCursor observed (eventCursor (bufferedEvent b))) \<and>
     pausedInSequence (Some (eventCursor (bufferedEvent b))) paused"

fun pausedLive ::
  "int option \<Rightarrow> replay_validation \<Rightarrow> int option \<Rightarrow> buffered_event list \<Rightarrow> (buffered_event list \<times> int option) option" where
  "pausedLive highWater v live [] = Some ([], live)"
| "pausedLive highWater v live (b # paused) =
     (let event = bufferedEvent b in
      if eventCursor event \<le> (case highWater of None \<Rightarrow> 0 | Some w \<Rightarrow> w)
      then if isValidatedDuplicate event v then pausedLive highWater v live paused else None
      else if \<not> isNextCursor live (eventCursor event) then None
      else map_option (\<lambda>(kept, accepted). (b # kept, accepted)) (pausedLive highWater v (Some (eventCursor event)) paused))"

definition normalizePausedQueue ::
  "buffered_event list \<Rightarrow> int option \<Rightarrow> int option \<Rightarrow> replay_validation \<Rightarrow> (buffered_event list \<times> int option) option" where
  "normalizePausedQueue paused observed highWater v =
     (if pausedInSequence observed paused then pausedLive highWater v highWater paused else None)"

definition handoffIdChar :: "nat \<Rightarrow> bool" where
  "handoffIdChar c \<longleftrightarrow> isLetter c \<or> isDigit c \<or> c = 95 \<or> c = 46 \<or> c = 58 \<or> c = 45"

text \<open>The \<open>after\<close>, \<open>session_id\<close> and \<open>subscriber_id\<close> of the input.\<close>

definition parseOpenInput :: "js_string \<Rightarrow> int option \<Rightarrow> js_string \<Rightarrow> handoff_error + js_string" where
  "parseOpenInput rawSession after subscriber =
     (case sessionIdSchema rawSession of
        None \<Rightarrow> Inl Invalid_input
      | Some sid \<Rightarrow>
          if \<not> cursorOptionOk after \<or> \<not> (list_all handoffIdChar subscriber \<and> 1 \<le> length subscriber \<and> length subscriber \<le> 120)
          then Inl Invalid_input else Inr sid)"

definition openingHandoff :: "sse_budget \<Rightarrow> js_string \<Rightarrow> handoff" where
  "openingHandoff budget sid =
     \<lparr> handoffSession = sid, handoffBudget = budget, internalState = IS_opening, handoffFailure = None,
       subscriptionDetached = False, highWaterCaptured = False, highWaterCursor = None, liveCursor = None,
       acceptedLiveCursor = None, unclassifiedCursor = None, liveSink = False, deliveringLive = False,
       pausedQueue = [], pausedWireBytes = 0, handoffReplay = None, replayClaimed = False, replayValidation = None,
       abortReason = None, delivered = [] \<rparr>"

definition assertOpeningAvailable :: "bool \<Rightarrow> handoff \<Rightarrow> handoff_error + unit" where
  "assertOpeningAvailable available h =
     (if handoffFailure h \<noteq> None then Inl (handoffFailureError h)
      else if internalState h = IS_closed then Inl Handoff_closed
      else if \<not> available then Inl Fanout_unavailable
      else Inr ())"

text \<open>
  \<open>readable\<close>: the request's signal is not aborted before and after the authorizer. \<open>subscription\<close>: the
  hub refused or gave the cursor it observed. The rest of \<open>openHandoff\<close>, from the subscription on.
\<close>

definition openSubscribed ::
  "sse_budget \<Rightarrow> js_string \<Rightarrow> int option \<Rightarrow> int option \<Rightarrow> projection_event list \<Rightarrow> (nat \<Rightarrow> moment) \<Rightarrow>
     (handoff_error + handoff) option" where
  "openSubscribed budget sid after observed arrivals moments =
     (let h = fold (\<lambda>event h. snd (receiveCommitted event h)) arrivals (openingHandoff budget sid) in
      case assertOpeningAvailable (momentAvailable (moments 0)) h of
        Inl e \<Rightarrow> Some (Inl e)
      | Inr _ \<Rightarrow>
          (case readDurableProjectionPosition sid (momentDatabase (moments 0)) of
             Inl e \<Rightarrow> Some (Inl e)
           | Inr selected \<Rightarrow>
               (let highWater = positionHighWater selected in
                if positionArchived selected then Some (Inl Session_archived)
                else if (case observed of None \<Rightarrow> False | Some o' \<Rightarrow> (case highWater of None \<Rightarrow> True | Some w \<Rightarrow> o' > w))
                then Some (Inl Replay_inconsistent)
                else if (case after of None \<Rightarrow> False | Some a \<Rightarrow> (case highWater of None \<Rightarrow> a > 0 | Some w \<Rightarrow> a > w))
                then Some (Inl Future_cursor)
                else case readReplaySnapshot budget sid after highWater moments 1 of
                  None \<Rightarrow> None
                | Some (Inl e, k) \<Rightarrow> Some (Inl e)
                | Some (Inr replay, k) \<Rightarrow>
                    (let v = createReplayValidation (snapshotEvents replay) in
                     case normalizePausedQueue (pausedQueue h) observed highWater v of
                       None \<Rightarrow> Some (Inl Replay_inconsistent)
                     | Some (paused, accepted) \<Rightarrow>
                         if \<not> momentAvailable (moments k) then Some (Inl Fanout_unavailable)
                         else Some (Inr (h\<lparr> internalState := IS_paused, highWaterCaptured := True, highWaterCursor := highWater,
                           liveCursor := highWater, acceptedLiveCursor := accepted, pausedQueue := paused,
                           pausedWireBytes := sum_list (map bufferedBytes paused), handoffReplay := Some replay,
                           replayValidation := Some v \<rparr>))))))"

definition openHandoff ::
  "sse_budget \<Rightarrow> js_string \<Rightarrow> int option \<Rightarrow> js_string \<Rightarrow> bool \<Rightarrow> bool \<Rightarrow> bool \<Rightarrow> int option option \<Rightarrow>
     projection_event list \<Rightarrow> (nat \<Rightarrow> moment) \<Rightarrow> (handoff_error + handoff) option" where
  "openHandoff budget rawSession after subscriber abortedBefore authorized abortedAfter subscription arrivals moments =
     (case parseOpenInput rawSession after subscriber of
        Inl e \<Rightarrow> Some (Inl e)
      | Inr sid \<Rightarrow>
          if abortedBefore then Some (Inl Handoff_aborted)
          else if \<not> authorized then Some (Inl Authorization_failed)
          else if abortedAfter then Some (Inl Handoff_aborted)
          else case subscription of
            None \<Rightarrow> Some (Inl Fanout_unavailable)
          | Some observed \<Rightarrow> openSubscribed budget sid after observed arrivals moments)"

section \<open>The open handoff\<close>

definition claimReplay :: "handoff \<Rightarrow> (handoff_error + replay_snapshot) \<times> handoff" where
  "claimReplay h =
     (if replayClaimed h then (Inl Replay_already_claimed, h)
      else if internalState h = IS_closed then (Inl Handoff_closed, h)
      else if internalState h = IS_failed then (Inl (handoffFailureError h), h)
      else case (if internalState h = IS_paused then handoffReplay h else None) of
        None \<Rightarrow> (Inl Handoff_failed, h)
      | Some claimed \<Rightarrow> (Inr claimed, h\<lparr> replayClaimed := True, handoffReplay := None \<rparr>))"

text \<open>
  The calls. The first flag of \<open>Activate\<close> and the flag of \<open>Read_state\<close> say whether the hub is available,
  the second one whether the candidate is a sink; the answers are those of the sink to the queued
  events, and a sink without a further answer accepts. \<open>Request_abort\<close> is the request's own signal.
\<close>

datatype handoff_op =
  Event_committed projection_event sink_answer
| Activate bool bool "sink_answer list"
| Claim_replay
| Close_handoff
| Request_abort
| Subscription_abort
| Read_state bool
and sink_answer = Answer "handoff_op list" bool

text \<open>The loop of \<open>activate\<close> before and after a delivery.\<close>

definition beginDrain :: "buffered_event \<Rightarrow> buffered_event list \<Rightarrow> handoff \<Rightarrow> (handoff_error + unit) \<times> handoff" where
  "beginDrain b rest h =
     (let h = h\<lparr> pausedQueue := rest, pausedWireBytes := pausedWireBytes h - bufferedBytes b \<rparr>; cursor = eventCursor (bufferedEvent b) in
      if \<not> isNextCursor (liveCursor h) cursor then (Inl Replay_inconsistent, failHandoff Replay_inconsistent (Some cursor) h)
      else (Inr (), h))"

definition endDrain :: "buffered_event \<Rightarrow> bool \<times> handoff \<Rightarrow> (handoff_error + unit) \<times> handoff" where
  "endDrain b r =
     (case r of (accepted, h) \<Rightarrow>
        (let cursor = Some (eventCursor (bufferedEvent b)) in
         if \<not> accepted then (Inl Live_delivery_failed, failHandoff Live_delivery_failed cursor h)
         else
           (let h = h\<lparr> liveCursor := cursor \<rparr> in
            if internalState h = IS_closed then (Inl Handoff_closed, h)
            else if internalState h = IS_failed then (Inl (handoffFailureError h), h)
            else (Inr (), h))))"

definition giveSink :: "projection_event \<Rightarrow> handoff \<Rightarrow> handoff" where
  "giveSink event h = h\<lparr> delivered := delivered h @ [event] \<rparr>"

text \<open>The rest of the queue, when the sink does nothing but accept.\<close>

fun drainQuiet :: "buffered_event list \<Rightarrow> nat \<Rightarrow> handoff \<Rightarrow> (handoff_error + nat) \<times> handoff" where
  "drainQuiet [] n h = (Inr n, h)"
| "drainQuiet (b # rest) n h =
     (case beginDrain b rest h of
        (Inl e, h) \<Rightarrow> (Inl e, h)
      | (Inr _, h) \<Rightarrow>
          (case endDrain b (if liveSink h then (True, giveSink (bufferedEvent b) h) else (False, h)) of
             (Inl e, h) \<Rightarrow> (Inl e, h)
           | (Inr _, h) \<Rightarrow> drainQuiet rest (n + 1) h))"

text \<open>The checks of \<open>activate\<close> before the loop, and what follows the loop.\<close>

definition beginActivation :: "bool \<Rightarrow> bool \<Rightarrow> handoff \<Rightarrow> (handoff_error + unit) \<times> handoff" where
  "beginActivation available valid h =
     (if internalState h = IS_activating then (Inl Activation_reentrant, h)
      else if internalState h = IS_live then (Inl Already_activated, h)
      else if internalState h = IS_closed then (Inl Handoff_closed, h)
      else if internalState h = IS_failed then (Inl (handoffFailureError h), h)
      else if \<not> replayClaimed h then (Inl Replay_not_claimed, h)
      else
        (let h = refreshFanoutAvailability available h in
         if internalState h = IS_failed then (Inl (handoffFailureError h), h)
         else if \<not> valid then (Inl Invalid_live_sink, h)
         else (Inr (), h\<lparr> internalState := IS_activating, liveSink := True \<rparr>)))"

definition endActivation :: "(handoff_error + nat) \<times> handoff \<Rightarrow> (handoff_error + nat \<times> int option) \<times> handoff" where
  "endActivation r =
     (case r of
        (Inl e, h) \<Rightarrow> (Inl e, h)
      | (Inr drained, h) \<Rightarrow>
          (let h = h\<lparr> pausedWireBytes := 0 \<rparr> in
           if acceptedLiveCursor h \<noteq> liveCursor h
           then (Inl Replay_inconsistent, failHandoff Replay_inconsistent (acceptedLiveCursor h) h)
           else (Inr (drained, liveCursor h), h\<lparr> replayValidation := Some noReplayValidation, internalState := IS_live \<rparr>)))"

fun handoffStep :: "handoff_op \<Rightarrow> handoff \<Rightarrow> handoff"
  and runNested :: "handoff_op list \<Rightarrow> handoff \<Rightarrow> handoff"
  and deliverLive :: "sink_answer \<Rightarrow> projection_event \<Rightarrow> handoff \<Rightarrow> bool \<times> handoff"
  and drainPaused :: "sink_answer list \<Rightarrow> nat \<Rightarrow> handoff \<Rightarrow> (handoff_error + nat) \<times> handoff"
  and activate :: "bool \<Rightarrow> bool \<Rightarrow> sink_answer list \<Rightarrow> handoff \<Rightarrow> (handoff_error + nat \<times> int option) \<times> handoff" where
  "handoffStep (Event_committed candidate answer) h =
     (case receiveCommitted candidate h of
        (None, h) \<Rightarrow> h
      | (Some event, h) \<Rightarrow> afterLiveDelivery event (deliverLive answer event h))"
| "handoffStep (Activate available valid answers) h = snd (activate available valid answers h)"
| "handoffStep Claim_replay h = snd (claimReplay h)"
| "handoffStep Close_handoff h = closeHandoff h"
| "handoffStep Request_abort h = (if internalState h \<in> {IS_closed, IS_failed} then h else closeHandoff h)"
| "handoffStep Subscription_abort h = (if subscriptionDetached h then h else failHandoff Fanout_unavailable (liveCursor h) h)"
| "handoffStep (Read_state available) h = refreshFanoutAvailability available h"
| "runNested [] h = h"
| "runNested (op # ops) h = runNested ops (handoffStep op h)"
| "deliverLive (Answer ops accepted) event h =
     (if liveSink h then (accepted, runNested ops (giveSink event h)) else (False, h))"
| "drainPaused [] n h = drainQuiet (pausedQueue h) n h"
| "drainPaused (answer # answers) n h =
     (case pausedQueue h of
        [] \<Rightarrow> (Inr n, h)
      | b # rest \<Rightarrow>
          (case beginDrain b rest h of
             (Inl e, h) \<Rightarrow> (Inl e, h)
           | (Inr _, h) \<Rightarrow>
               (case endDrain b (deliverLive answer (bufferedEvent b) h) of
                  (Inl e, h) \<Rightarrow> (Inl e, h)
                | (Inr _, h) \<Rightarrow> drainPaused answers (n + 1) h)))"
| "activate available valid answers h =
     (case beginActivation available valid h of
        (Inl e, h) \<Rightarrow> (Inl e, h)
      | (Inr _, h) \<Rightarrow> endActivation (drainPaused answers 0 h))"

end
