(* ===== verification/Replay_Handoff_Laws.thy ===== *)
theory Replay_Handoff_Laws
  imports Replay_Handoff
begin

text \<open>
  What a reader gets from a handoff: the replay and the events given to the sink make one unbroken
  run of cursors, whatever is committed, delivered or called in between; and on a readable
  repository the replay is the log.
\<close>

section \<open>Runs of cursors\<close>

fun cursorsFrom :: "int \<Rightarrow> projection_event list \<Rightarrow> bool" where
  "cursorsFrom c [] \<longleftrightarrow> True"
| "cursorsFrom c (e # es) \<longleftrightarrow> eventCursor e = c \<and> cursorsFrom (c + 1) es"

lemma cursorsFrom_append [simp]:
  "cursorsFrom c (es @ es') \<longleftrightarrow> cursorsFrom c es \<and> cursorsFrom (c + int (length es)) es'"
  by (induction es arbitrary: c) (auto simp: algebra_simps)

lemma cursorsFrom_last: "cursorsFrom c es \<Longrightarrow> es \<noteq> [] \<Longrightarrow> eventCursor (last es) = c + int (length es) - 1"
  by (induction es arbitrary: c) auto

definition opt0 :: "int option \<Rightarrow> int" where
  "opt0 v = (case v of None \<Rightarrow> 0 | Some c \<Rightarrow> c)"

lemma opt0_simps [simp]: "opt0 None = 0" "opt0 (Some c) = c"
  by (simp_all add: opt0_def)

lemma isNextCursor_opt0: "isNextCursor v c \<longleftrightarrow> c = opt0 v + 1"
  by (simp add: isNextCursor_def opt0_def)

section \<open>The invariant of an open handoff\<close>

definition ended :: "handoff \<Rightarrow> bool" where
  "ended h \<longleftrightarrow> internalState h \<in> {IS_closed, IS_failed}"

text \<open>
  \<open>pending\<close> is 1 while the sink runs: it has been given an event that \<open>liveCursor\<close> does not
  count yet.
\<close>

definition handoffOk :: "int \<Rightarrow> int \<Rightarrow> handoff \<Rightarrow> bool" where
  "handoffOk base pending h \<longleftrightarrow>
     highWaterCaptured h \<and> opt0 (highWaterCursor h) = base \<and>
     cursorsFrom (base + 1) (delivered h) \<and> list_all (\<lambda>e. eventSessionId e = handoffSession h) (delivered h) \<and>
     list_all (\<lambda>b. eventSessionId (bufferedEvent b) = handoffSession h) (pausedQueue h) \<and>
     (ended h \<longrightarrow> \<not> liveSink h \<and> pausedQueue h = []) \<and>
     (\<not> ended h \<longrightarrow>
        internalState h \<noteq> IS_opening \<and> replayValidation h \<noteq> None \<and>
        (liveSink h \<longleftrightarrow> internalState h \<in> {IS_activating, IS_live}) \<and>
        opt0 (liveCursor h) + pending = base + int (length (delivered h)) \<and>
        cursorsFrom (base + int (length (delivered h)) + 1) (map bufferedEvent (pausedQueue h)) \<and>
        (internalState h = IS_paused \<longrightarrow> pending = 0) \<and>
        (deliveringLive h \<longleftrightarrow> internalState h = IS_live \<and> pending \<noteq> 0) \<and>
        (if internalState h = IS_live then pausedQueue h = [] \<and> acceptedLiveCursor h = liveCursor h
         else opt0 (acceptedLiveCursor h) = base + int (length (delivered h)) + int (length (pausedQueue h))))"

lemmas handoff_updates = clearPaused_def clearReplay_def abortWith_def

lemma fail_ended: "ended (failHandoff reason cursor h)"
  by (simp add: failHandoff_def ended_def handoff_updates)

lemma close_ended: "ended (closeHandoff h)"
  by (simp add: closeHandoff_def ended_def handoff_updates)

lemma fail_ok: "handoffOk base pending h \<Longrightarrow> handoffOk base p (failHandoff reason cursor h)"
  by (auto simp: failHandoff_def handoffOk_def ended_def handoff_updates)

lemma close_ok: "handoffOk base pending h \<Longrightarrow> handoffOk base p (closeHandoff h)"
  by (auto simp: closeHandoff_def handoffOk_def ended_def handoff_updates)

lemma ended_ok: "ended h \<Longrightarrow> handoffOk base pending h \<Longrightarrow> handoffOk base p h"
  by (simp add: handoffOk_def)

lemma refresh_ok: "handoffOk base pending h \<Longrightarrow> handoffOk base pending (refreshFanoutAvailability available h)"
  by (simp add: refreshFanoutAvailability_def fail_ok)

lemma claim_ok: "handoffOk base pending h \<Longrightarrow> handoffOk base pending (snd (claimReplay h))"
  by (auto simp: claimReplay_def handoffOk_def ended_def split: option.splits)

lemma enqueue_ok:
  assumes "handoffOk base pending h" "\<not> ended h" "internalState h \<noteq> IS_live" "isNextCursor (acceptedLiveCursor h) (eventCursor event)"
    "eventSessionId event = handoffSession h" "enqueue event wireBytes h = (queued, h')"
  shows "handoffOk base pending (if queued then h'\<lparr> acceptedLiveCursor := Some (eventCursor event) \<rparr> else h')"
proof (cases queued)
  case False
  then show ?thesis using assms fail_ok by (auto simp: enqueue_def split: if_splits)
next
  case True
  then have "h' = h\<lparr> pausedQueue := pausedQueue h @ [\<lparr> bufferedEvent = event, bufferedBytes = wireBytes \<rparr>],
      pausedWireBytes := pausedWireBytes h + wireBytes \<rparr>"
    using assms(6) by (auto simp: enqueue_def split: if_splits)
  then show ?thesis using True assms(1-5) by (simp add: handoffOk_def ended_def isNextCursor_opt0 algebra_simps)
qed

lemmas enqueued = enqueue_ok [where queued = True, simplified] and refused = enqueue_ok [where queued = False, simplified]

lemma receive_ok:
  assumes "handoffOk base pending h" "receiveCommitted candidate h = (r, h')"
  shows "r = None \<Longrightarrow> handoffOk base pending h'"
    "r = Some event \<Longrightarrow> pending = 0 \<and> liveSink h' \<and> handoffOk base 1 (giveSink event h')"
proof -
  show "handoffOk base pending h'" if "r = None"
  proof (cases "ended h")
    case True
    then show ?thesis using assms by (simp add: receiveCommitted_def ended_def)
  next
    case False
    then obtain v where v: "replayValidation h = Some v" using assms(1) by (auto simp: handoffOk_def)
    show ?thesis
      using assms(2) that False v fail_ok [OF assms(1)] assms(1)
      by (auto simp: receiveCommitted_def ended_def Let_def split: option.splits if_splits prod.splits
          dest: enqueued [OF assms(1) False] refused [OF assms(1) False])
  qed
  show "pending = 0 \<and> liveSink h' \<and> handoffOk base 1 (giveSink event h')" if "r = Some event"
  proof -
    from assms(2) that have f: "\<not> ended h" "internalState h = IS_live" "\<not> deliveringLive h" "h' = h\<lparr> deliveringLive := True \<rparr>"
      "isNextCursor (acceptedLiveCursor h) (eventCursor event)" "eventSessionId event = handoffSession h"
      using assms(1)
      by (auto simp: receiveCommitted_def ended_def handoffOk_def Let_def split: option.splits if_splits prod.splits)
    then have "pending = 0" using assms(1) by (simp add: handoffOk_def)
    then show ?thesis using f assms(1) by (simp add: handoffOk_def ended_def giveSink_def isNextCursor_opt0 algebra_simps)
  qed
qed

lemma after_live_ok:
  assumes "handoffOk base 1 h" "cursor = base + int (length (delivered h))" "eventCursor event = cursor" "deliveringLive h \<or> ended h"
  shows "handoffOk base 0 (afterLiveDelivery event (accepted, h))"
  using assms fail_ok [of base 1 "h\<lparr> deliveringLive := False \<rparr>"]
  by (auto simp: afterLiveDelivery_def Let_def handoffOk_def ended_def failHandoff_def handoff_updates)

section \<open>Calls and callbacks keep it\<close>

text \<open>What a call keeps besides: a sink that is running is given nothing more, and what has started goes on or ends.\<close>

definition handoffKept :: "int \<Rightarrow> handoff \<Rightarrow> handoff \<Rightarrow> bool" where
  "handoffKept pending h h' \<longleftrightarrow>
     handoffSession h' = handoffSession h \<and>
     (pending \<noteq> 0 \<longrightarrow> delivered h' = delivered h) \<and>
     (internalState h \<in> {IS_activating, IS_live} \<longrightarrow> internalState h' = internalState h \<or> ended h') \<and>
     (ended h \<longrightarrow> ended h' \<and> delivered h' = delivered h)"

lemma kept_refl [simp]: "handoffKept pending h h"
  by (simp add: handoffKept_def)

lemma kept_trans: "handoffKept pending h h' \<Longrightarrow> handoffKept pending h' h'' \<Longrightarrow> handoffKept pending h h''"
  unfolding handoffKept_def by metis

lemma fail_kept [simp]: "handoffKept pending h (failHandoff reason cursor h)"
  by (simp add: handoffKept_def failHandoff_def ended_def handoff_updates)

lemma close_kept [simp]: "handoffKept pending h (closeHandoff h)"
  by (simp add: handoffKept_def closeHandoff_def ended_def handoff_updates)

lemma refresh_kept: "handoffKept pending h (refreshFanoutAvailability available h)"
  by (simp add: refreshFanoutAvailability_def)

lemma claim_kept: "handoffKept pending h (snd (claimReplay h))"
  by (auto simp: claimReplay_def handoffKept_def ended_def split: option.splits)

lemma enqueue_kept: "enqueue event wireBytes h = (queued, h') \<Longrightarrow> handoffKept pending h h'"
  by (auto simp: enqueue_def handoffKept_def failHandoff_def ended_def handoff_updates split: if_splits)

lemma kept_fields [simp]:
  "handoffKept pending h (h'\<lparr> acceptedLiveCursor := c \<rparr>) = handoffKept pending h h'"
  "handoffKept pending h (h'\<lparr> unclassifiedCursor := c \<rparr>) = handoffKept pending h h'"
  by (simp_all add: handoffKept_def ended_def)

lemma receive_kept: "receiveCommitted candidate h = (None, h') \<Longrightarrow> handoffKept pending h h'"
  by (auto simp: receiveCommitted_def Let_def split: option.splits if_splits prod.splits dest: enqueue_kept)

lemma receive_delivers:
  assumes "receiveCommitted candidate h = (Some event, h')"
  shows "internalState h = IS_live" "h' = h\<lparr> deliveringLive := True \<rparr>"
  using assms by (auto simp: receiveCommitted_def Let_def split: option.splits if_splits prod.splits)

lemma begin_drain_ok:
  assumes "handoffOk base 0 h" "internalState h = IS_activating" "pausedQueue h = b # rest" "beginDrain b rest h = (r, h')"
  shows "handoffSession h' = handoffSession h"
    "r = Inl e \<Longrightarrow> handoffOk base 0 h' \<and> ended h'"
    "r = Inr () \<Longrightarrow> internalState h' = IS_activating \<and> liveSink h' \<and> handoffOk base 1 (giveSink (bufferedEvent b) h') \<and>
       pausedQueue h' = rest"
proof -
  have h: "opt0 (liveCursor h) = base + int (length (delivered h))" "eventCursor (bufferedEvent b) = base + int (length (delivered h)) + 1"
    using assms(1-3) by (simp_all add: handoffOk_def ended_def)
  then have "h' = h\<lparr> pausedQueue := rest, pausedWireBytes := pausedWireBytes h - bufferedBytes b \<rparr>" "r = Inr ()"
    using assms(4) by (auto simp: beginDrain_def Let_def isNextCursor_opt0 split: if_splits)
  then show "handoffSession h' = handoffSession h" "r = Inl e \<Longrightarrow> handoffOk base 0 h' \<and> ended h'"
    "r = Inr () \<Longrightarrow> internalState h' = IS_activating \<and> liveSink h' \<and> handoffOk base 1 (giveSink (bufferedEvent b) h') \<and>
       pausedQueue h' = rest"
    using assms(1-3) h by (simp_all add: handoffOk_def ended_def giveSink_def algebra_simps)
qed

lemma end_drain_ok:
  assumes "handoffOk base 1 h" "internalState h = IS_activating \<or> ended h"
    "eventCursor (bufferedEvent b) = base + int (length (delivered h))" "endDrain b (accepted, h) = (r, h')"
  shows "handoffSession h' = handoffSession h" "handoffOk base 0 h'" "r = Inl e \<Longrightarrow> ended h'"
    "r = Inr () \<Longrightarrow> internalState h' = IS_activating \<and> pausedQueue h' = pausedQueue h"
  using assms
  by (auto simp: endDrain_def Let_def handoffOk_def ended_def failHandoff_def handoff_updates split: if_splits)

lemma given_cursor: "handoffOk base 1 (giveSink event h) \<Longrightarrow> eventCursor event = base + int (length (delivered (giveSink event h)))"
  by (simp add: handoffOk_def giveSink_def)

lemma quiet_ok:
  assumes "handoffOk base 0 h" "internalState h = IS_activating" "pausedQueue h = bs" "drainQuiet bs n h = (r, h')"
  shows "handoffSession h' = handoffSession h \<and> handoffOk base 0 h' \<and> (\<forall>e. r = Inl e \<longrightarrow> ended h') \<and>
    (\<forall>m. r = Inr m \<longrightarrow> internalState h' = IS_activating \<and> pausedQueue h' = [])"
  using assms
proof (induction bs arbitrary: n h)
  case (Cons b rest)
  obtain x h1 where b: "beginDrain b rest h = (x, h1)" by (cases "beginDrain b rest h")
  note o = begin_drain_ok [OF Cons.prems(1-3) b]
  show ?case
  proof (cases x)
    case (Inl e)
    then show ?thesis using o Cons.prems(4) b by auto
  next
    case (Inr u)
    then have o3: "internalState h1 = IS_activating" "liveSink h1" "handoffOk base 1 (giveSink (bufferedEvent b) h1)" "pausedQueue h1 = rest"
      using o(3) by simp_all
    obtain y h2 where e: "endDrain b (True, giveSink (bufferedEvent b) h1) = (y, h2)"
      by (cases "endDrain b (True, giveSink (bufferedEvent b) h1)")
    have "internalState (giveSink (bufferedEvent b) h1) = IS_activating \<or> ended (giveSink (bufferedEvent b) h1)"
      using o3(1) by (simp add: giveSink_def)
    note d = end_drain_ok [OF o3(3) this given_cursor [OF o3(3)] e]
    show ?thesis
    proof (cases y)
      case (Inl z)
      then show ?thesis using d o(1) Cons.prems(4) b Inr e o3 by (auto simp: giveSink_def)
    next
      case y: (Inr u')
      then have r: "drainQuiet rest (n + 1) h2 = (r, h')" using Cons.prems(4) b Inr e o3 by simp
      have "pausedQueue h2 = rest" "internalState h2 = IS_activating" using d(4) y o3(4) by (simp_all add: giveSink_def)
      from Cons.IH [OF d(2) this(2,1) r] show ?thesis using d(1) o(1) by (simp add: giveSink_def)
    qed
  qed
qed auto

lemma begin_activation_ok:
  assumes "handoffOk base pending h" "beginActivation available valid h = (r, h')"
  shows "r = Inl e \<Longrightarrow> handoffOk base pending h' \<and> handoffKept pending h h'"
    "r = Inr () \<Longrightarrow> internalState h = IS_paused \<and> pending = 0 \<and> internalState h' = IS_activating \<and> handoffOk base 0 h' \<and>
       handoffSession h' = handoffSession h"
proof -
  show "r = Inl e \<Longrightarrow> handoffOk base pending h' \<and> handoffKept pending h h'"
    using assms refresh_ok [OF assms(1), of available] refresh_kept [of pending h available]
    by (auto simp: beginActivation_def Let_def split: if_splits)
  assume "r = Inr ()"
  with assms(2) have s: "internalState h = IS_paused" "available" "h' = h\<lparr> internalState := IS_activating, liveSink := True \<rparr>"
    using internal_state.exhaust [of "internalState h"] assms(1)
    by (auto simp: beginActivation_def Let_def refreshFanoutAvailability_def failHandoff_def handoffOk_def ended_def
        handoff_updates split: if_splits)
  then show "internalState h = IS_paused \<and> pending = 0 \<and> internalState h' = IS_activating \<and> handoffOk base 0 h' \<and>
       handoffSession h' = handoffSession h"
    using assms(1) by (simp add: handoffOk_def ended_def)
qed

lemma end_activation_ok:
  assumes "handoffOk base 0 h" "\<forall>e. r = Inl e \<longrightarrow> ended h" "\<forall>m. r = Inr m \<longrightarrow> internalState h = IS_activating \<and> pausedQueue h = []"
  shows "handoffOk base 0 (snd (endActivation (r, h))) \<and> handoffSession (snd (endActivation (r, h))) = handoffSession h"
  using assms
  by (cases r) (auto simp: endActivation_def Let_def handoffOk_def ended_def failHandoff_def handoff_updates)

lemma calls_ok:
  "handoffOk base pending h \<Longrightarrow> handoffOk base pending (handoffStep op h) \<and> handoffKept pending h (handoffStep op h)"
  "handoffOk base pending h \<Longrightarrow> handoffOk base pending (runNested ops h) \<and> handoffKept pending h (runNested ops h)"
  "handoffOk base 1 (giveSink event h) \<Longrightarrow> liveSink h \<Longrightarrow>
     handoffOk base 1 (snd (deliverLive answer event h)) \<and> handoffKept 1 (giveSink event h) (snd (deliverLive answer event h))"
  "handoffOk base 0 h \<Longrightarrow> internalState h = IS_activating \<Longrightarrow> drainPaused answers n h = (r, h') \<Longrightarrow>
     handoffSession h' = handoffSession h \<and> handoffOk base 0 h' \<and> (\<forall>e. r = Inl e \<longrightarrow> ended h') \<and>
     (\<forall>m. r = Inr m \<longrightarrow> internalState h' = IS_activating \<and> pausedQueue h' = [])"
  "handoffOk base pending h \<Longrightarrow>
     handoffOk base pending (snd (activate available valid answers h)) \<and> handoffKept pending h (snd (activate available valid answers h))"
proof (induction op h and ops h and answer event h and answers n h and available valid answers h
    arbitrary: pending and pending and and r h' and pending
    rule: handoffStep_runNested_deliverLive_drainPaused_activate.induct)
  case (1 candidate answer h)
  obtain x h1 where c: "receiveCommitted candidate h = (x, h1)" by (cases "receiveCommitted candidate h")
  show ?case
  proof (cases x)
    case None
    then show ?thesis using receive_ok(1) [OF "1.prems" c] receive_kept [of candidate h h1] c by simp
  next
    case (Some event)
    have o: "pending = 0" "liveSink h1" "handoffOk base 1 (giveSink event h1)" using receive_ok(2) [OF "1.prems" c Some] by simp_all
    have l: "internalState h = IS_live" "h1 = h\<lparr> deliveringLive := True \<rparr>" using receive_delivers c Some by simp_all
    obtain accepted h2 where d: "deliverLive answer event h1 = (accepted, h2)" by (cases "deliverLive answer event h1")
    have i: "handoffOk base 1 h2" "handoffKept 1 (giveSink event h1) h2"
      using "1.IH" [OF c [symmetric] Some o(3,2)] d by simp_all
    then have k: "delivered h2 = delivered (giveSink event h1)" "internalState h2 = IS_live \<or> ended h2" "handoffSession h2 = handoffSession h"
      using l by (simp_all add: handoffKept_def giveSink_def)
    have "deliveringLive h2 \<or> ended h2" using i(1) k(2) by (auto simp: handoffOk_def)
    from after_live_ok [OF i(1) _ given_cursor [OF o(3)] this] k(1)
    have "handoffOk base 0 (afterLiveDelivery event (accepted, h2))" by simp
    moreover have "handoffKept 0 h (afterLiveDelivery event (accepted, h2))"
      using k(2,3) l by (auto simp: handoffKept_def afterLiveDelivery_def Let_def ended_def failHandoff_def handoff_updates)
    ultimately show ?thesis using c Some d o(1) by simp
  qed
next
  case (2 available valid answers h)
  then show ?case by simp
next
  case (3 h)
  then show ?case by (simp add: claim_ok claim_kept)
next
  case (4 h)
  then show ?case by (simp add: close_ok)
next
  case (5 h)
  then show ?case by (simp add: close_ok)
next
  case (6 h)
  then show ?case by (simp add: fail_ok)
next
  case (7 available h)
  then show ?case by (simp add: refresh_ok refresh_kept)
next
  case (8 h)
  then show ?case by simp
next
  case (9 op ops h)
  have "handoffOk base pending (handoffStep op h) \<and> handoffKept pending h (handoffStep op h)" by (rule "9.IH"(1) [OF "9.prems"])
  with "9.IH"(2) [of pending] show ?case using kept_trans by auto
next
  case (10 ops accepted event h)
  then show ?case by simp
next
  case (11 n h)
  then show ?case by (intro quiet_ok) simp_all
next
  case (12 answer answers n h)
  show ?case
  proof (cases "pausedQueue h")
    case Nil
    then show ?thesis using "12.prems" by auto
  next
    case (Cons b rest)
    obtain x h1 where b: "beginDrain b rest h = (x, h1)" by (cases "beginDrain b rest h")
    note o = begin_drain_ok [OF "12.prems"(1,2) Cons b]
    show ?thesis
    proof (cases x)
      case (Inl e)
      then show ?thesis using o "12.prems"(3) b Cons by auto
    next
      case (Inr u)
      then have o3: "internalState h1 = IS_activating" "liveSink h1" "handoffOk base 1 (giveSink (bufferedEvent b) h1)"
        using o(3) by simp_all
      obtain accepted h2 where d: "deliverLive answer (bufferedEvent b) h1 = (accepted, h2)"
        by (cases "deliverLive answer (bufferedEvent b) h1")
      have i: "handoffOk base 1 h2" "handoffKept 1 (giveSink (bufferedEvent b) h1) h2"
        using "12.IH"(1) [OF Cons b [symmetric] Inr o3(3,2)] d by simp_all
      then have k: "delivered h2 = delivered (giveSink (bufferedEvent b) h1)" "internalState h2 = IS_activating \<or> ended h2"
        "handoffSession h2 = handoffSession h" using o3 o(1) by (simp_all add: handoffKept_def giveSink_def)
      obtain y h3 where e: "endDrain b (accepted, h2) = (y, h3)" by (cases "endDrain b (accepted, h2)")
      have "eventCursor (bufferedEvent b) = base + int (length (delivered h2))" using given_cursor [OF o3(3)] k(1) by simp
      note z = end_drain_ok [OF i(1) k(2) this e]
      show ?thesis
      proof (cases y)
        case (Inl e')
        then show ?thesis using z k(3) "12.prems"(3) b Inr e d Cons by auto
      next
        case y: (Inr u')
        then have r: "drainPaused answers (n + 1) h3 = (r, h')" using "12.prems"(3) b Inr e d Cons by simp
        have "internalState h3 = IS_activating" using z(4) y by simp
        from "12.IH"(2) [OF Cons b [symmetric] Inr e [symmetric, folded d] y z(2) this r] show ?thesis
          using z(1) k(3) by (simp add: d)
      qed
    qed
  qed
next
  case (13 available valid answers h)
  obtain x h1 where b: "beginActivation available valid h = (x, h1)" by (cases "beginActivation available valid h")
  show ?case
  proof (cases x)
    case (Inl e)
    then show ?thesis using begin_activation_ok(1) [OF "13.prems" b] b by auto
  next
    case (Inr u)
    then have o: "internalState h = IS_paused" "pending = 0" "internalState h1 = IS_activating" "handoffOk base 0 h1"
      "handoffSession h1 = handoffSession h" using begin_activation_ok(2) [OF "13.prems" b] by simp_all
    obtain r h2 where d: "drainPaused answers 0 h1 = (r, h2)" by (cases "drainPaused answers 0 h1")
    have i: "handoffSession h2 = handoffSession h1 \<and> handoffOk base 0 h2 \<and> (\<forall>e. r = Inl e \<longrightarrow> ended h2) \<and>
        (\<forall>m. r = Inr m \<longrightarrow> internalState h2 = IS_activating \<and> pausedQueue h2 = [])"
      by (rule "13.IH" [OF b [symmetric] Inr o(4,3) d])
    then have "handoffOk base 0 (snd (endActivation (r, h2))) \<and> handoffSession (snd (endActivation (r, h2))) = handoffSession h2"
      by (intro end_activation_ok) blast+
    then show ?thesis using i o b Inr d by (simp add: handoffKept_def ended_def)
  qed
qed

section \<open>Opening\<close>

definition openingOk :: "js_string \<Rightarrow> handoff \<Rightarrow> bool" where
  "openingOk sid h \<longleftrightarrow>
     handoffSession h = sid \<and> delivered h = [] \<and>
     (internalState h = IS_failed \<and> handoffFailure h \<noteq> None \<or>
      internalState h = IS_opening \<and> handoffFailure h = None \<and> replayValidation h = None \<and> \<not> liveSink h \<and> \<not> deliveringLive h \<and>
      list_all (\<lambda>b. eventSessionId (bufferedEvent b) = sid) (pausedQueue h))"

lemma fail_opening: "openingOk sid h \<Longrightarrow> openingOk sid (failHandoff reason cursor h)"
  by (auto simp: openingOk_def failHandoff_def handoff_updates)

lemma enqueue_opening:
  "openingOk sid h \<Longrightarrow> eventSessionId event = sid \<Longrightarrow> enqueue event wireBytes h = (queued, h') \<Longrightarrow> openingOk sid h'"
  by (auto simp: enqueue_def fail_opening split: if_splits) (auto simp: openingOk_def)

lemma opening_field [simp]: "openingOk sid (h\<lparr> unclassifiedCursor := c \<rparr>) = openingOk sid h"
  by (simp add: openingOk_def)

lemma receive_opening: "openingOk sid h \<Longrightarrow> openingOk sid (snd (receiveCommitted event h))"
proof (cases "internalState h = IS_failed")
  case True
  then show "openingOk sid h \<Longrightarrow> ?thesis" by (simp add: receiveCommitted_def)
next
  case False
  assume o: "openingOk sid h"
  with False have "replayValidation h = None" "handoffSession h = sid" by (auto simp: openingOk_def)
  with o show ?thesis
    by (auto simp: receiveCommitted_def Let_def fail_opening dest: enqueue_opening split: option.splits prod.splits)
qed

lemma opening_run: "openingOk sid h \<Longrightarrow> openingOk sid (fold (\<lambda>event h. snd (receiveCommitted event h)) arrivals h)"
  by (induction arrivals arbitrary: h) (simp_all add: receive_opening)

lemma paused_live:
  "pausedLive highWater v live bs = Some (kept, accepted) \<Longrightarrow>
     cursorsFrom (opt0 live + 1) (map bufferedEvent kept) \<and> opt0 accepted = opt0 live + int (length kept) \<and> set kept \<subseteq> set bs"
proof (induction bs arbitrary: live kept)
  case (Cons b bs)
  show ?case
  proof (cases "eventCursor (bufferedEvent b) \<le> (case highWater of None \<Rightarrow> 0 | Some w \<Rightarrow> w)")
    case True
    then show ?thesis using Cons by (auto simp: Let_def split: if_splits)
  next
    case False
    then obtain kept' where k: "kept = b # kept'" "pausedLive highWater v (Some (eventCursor (bufferedEvent b))) bs = Some (kept', accepted)"
      "eventCursor (bufferedEvent b) = opt0 live + 1"
      using Cons.prems by (auto simp: Let_def isNextCursor_opt0 split: if_splits)
    with Cons.IH [OF k(2)] show ?thesis by auto
  qed
qed simp

section \<open>The replay is a run of cursors\<close>

definition startsAfter :: "int option \<Rightarrow> int \<Rightarrow> projection_event list \<Rightarrow> bool" where
  "startsAfter after c events \<longleftrightarrow> c = opt0 after + 1 \<or> (case events of [] \<Rightarrow> False | e # _ \<Rightarrow> isBoundary e)"

definition attemptOk :: "js_string \<Rightarrow> int option \<Rightarrow> attempt_state \<Rightarrow> bool" where
  "attemptOk sid after s \<longleftrightarrow>
     (\<exists>c. c + int (length (attemptEvents s)) = opt0 (attemptCursor s) + 1 \<and> cursorsFrom c (attemptEvents s) \<and>
        startsAfter after c (attemptEvents s)) \<and>
     list_all (\<lambda>e. eventSessionId e = sid) (attemptEvents s)"

lemma replay_page_ok:
  assumes "attemptOk sid after s" "\<forall>e \<in> set page. eventSessionId e = sid" "replayPage budget page s = Inr s'"
  shows "attemptOk sid after s'"
  using assms
proof (induction page arbitrary: s)
  case (Cons event page)
  let ?s = "if isBoundary event then s\<lparr> attemptEvents := [], attemptBytes := 0, attemptTruncated := True \<rparr> else s"
  let ?next = "\<lambda>bytes. ?s\<lparr> attemptEvents := attemptEvents ?s @ [event], attemptBytes := bytes, attemptCursor := Some (eventCursor event) \<rparr>"
  obtain c where c: "c + int (length (attemptEvents s)) = opt0 (attemptCursor s) + 1" "cursorsFrom c (attemptEvents s)"
    "startsAfter after c (attemptEvents s)"
    using Cons.prems(1) by (auto simp: attemptOk_def)
  from Cons.prems(3) obtain bytes where n: "replayPage budget page (?next bytes) = Inr s'"
    "isBoundary event \<or> isNextCursor (if attemptEvents s = [] then attemptCursor s else Some (eventCursor (last (attemptEvents s)))) (eventCursor event)"
    by (auto simp: Let_def split: if_splits option.splits)
  have "attemptOk sid after (?next bytes)"
  proof (cases "isBoundary event")
    case True
    then show ?thesis using Cons.prems(2) by (simp add: attemptOk_def startsAfter_def)
  next
    case False
    then have "eventCursor event = opt0 (attemptCursor s) + 1"
      using n(2) c(1) cursorsFrom_last [OF c(2)] by (auto simp: isNextCursor_opt0 split: if_splits)
    moreover have "startsAfter after c (attemptEvents s @ [event])"
      using c(3) by (auto simp: startsAfter_def split: list.splits)
    ultimately show ?thesis using False c(1,2) Cons.prems(1,2)
      by (auto simp: attemptOk_def intro!: exI [of _ c])
  qed
  then show ?case using Cons.IH n(1) Cons.prems(2) by simp
qed simp

lemma stream_sessions:
  assumes "selectedSessionEventStreamSchema v = Some stream" "e \<in> set (streamEvents stream)"
  shows "eventSessionId e = streamSession stream"
proof -
  have "streamLoop sid bound index previous seen es = Some r \<Longrightarrow> e \<in> set es \<Longrightarrow> eventSessionId e = sid"
    for sid bound index previous seen es r
    by (induction es arbitrary: index previous seen) (auto simp: bind_eq_Some_conv guard_def split: if_splits)
  then show ?thesis using assms by (auto simp: selectedSessionEventStreamSchema_def bind_eq_Some_conv)
qed

lemma replay_step_ok:
  assumes "attemptOk sid after s" "replayStep budget sid highWater m s = Inr s'"
  shows "attemptOk sid after s'"
proof -
  from assms(2) obtain stream where st: "streamSession stream = sid"
      "replayPage budget (filter (\<lambda>e. eventCursor e \<le> highWater) (streamEvents stream)) s = Inr s'"
      "\<exists>v. selectedSessionEventStreamSchema v = Some stream"
    by (auto simp: replayStep_def parseReplayStream_def Let_def split: if_splits sum.splits option.splits)
  then show ?thesis using stream_sessions by (intro replay_page_ok [OF assms(1) _ st(2)]) auto
qed

lemma replay_loop_ok:
  "replayLoop budget sid highWater moments k s = Some r \<Longrightarrow>
     (\<forall>s'. fst r = Inr s' \<longrightarrow> attemptOk sid after s \<longrightarrow> attemptOk sid after s')"
proof (induction rule: replayLoop.raw_induct [rotated, consumes 1])
  case (1 loop budget sid highWater moments k s r)
  show ?case
  proof (cases "case attemptCursor s of None \<Rightarrow> False | Some c \<Rightarrow> c \<ge> highWater")
    case True
    then show ?thesis using 1(2) by auto
  next
    case False
    show ?thesis
    proof (cases "replayStep budget sid highWater (moments k) s")
      case (Inl e)
      then show ?thesis using False 1(2) by auto
    next
      case (Inr s1)
      then have "loop budget sid highWater moments (Suc k) s1 = Some r" using False 1(2) by simp
      from 1(1) [OF this] replay_step_ok [OF _ Inr] show ?thesis by blast
    qed
  qed
qed

definition snapshotOk :: "js_string \<Rightarrow> int option \<Rightarrow> int option \<Rightarrow> replay_snapshot \<Rightarrow> bool" where
  "snapshotOk sid after highWater snapshot \<longleftrightarrow>
     (\<exists>c. c + int (length (snapshotEvents snapshot)) = opt0 highWater + 1 \<and> cursorsFrom c (snapshotEvents snapshot) \<and>
        startsAfter after c (snapshotEvents snapshot)) \<and>
     list_all (\<lambda>e. eventSessionId e = sid) (snapshotEvents snapshot)"

lemma replay_attempt_ok:
  assumes "readReplayAttempt budget sid after highWater moments k = Some (Inr snapshot, k')"
  shows "snapshotOk sid after (Some highWater) snapshot"
proof -
  let ?s = "\<lparr> attemptEvents = [], attemptCursor = after, attemptTruncated = False, attemptBytes = 0 \<rparr>"
  from assms obtain s where s: "replayLoop budget sid highWater moments k ?s = Some (Inr s, k')" "attemptCursor s = Some highWater"
    "snapshot = \<lparr> snapshotEvents = attemptEvents s, snapshotTruncated = attemptTruncated s, snapshotBytes = attemptBytes s \<rparr>"
    by (auto simp: readReplayAttempt_def split: option.splits sum.splits if_splits)
  have "attemptOk sid after ?s" by (simp add: attemptOk_def startsAfter_def)
  with replay_loop_ok [OF s(1), of after] have "attemptOk sid after s" by simp
  then show ?thesis using s(2,3) by (simp add: attemptOk_def snapshotOk_def)
qed

lemma replay_attempts_ok:
  "replayAttempts budget sid after highWater moments attempts observed k = Some (Inr snapshot, k') \<Longrightarrow>
     snapshotOk sid after (Some highWater) snapshot"
proof (induction attempts arbitrary: observed k)
  case (Suc attempts)
  then show ?case
    by (auto simp: replay_attempt_ok split: option.splits sum.splits if_splits verdict.splits)
qed simp

lemma replay_snapshot_ok:
  assumes "readReplaySnapshot budget sid after highWater moments k = Some (Inr snapshot, k')"
    "cursorOptionOk after" "\<not> (case after of None \<Rightarrow> False | Some a \<Rightarrow> (case highWater of None \<Rightarrow> a > 0 | Some w \<Rightarrow> a > w))"
  shows "snapshotOk sid after highWater snapshot"
proof (cases highWater)
  case None
  then have "opt0 after = 0" using assms(2,3) by (cases after) (auto simp: cursorOptionOk_def outputCursorOk_def)
  then show ?thesis using None assms(1) by (auto simp: readReplaySnapshot_def snapshotOk_def startsAfter_def)
next
  case (Some w)
  then show ?thesis using assms(1) replay_attempts_ok
    by (auto simp: readReplaySnapshot_def snapshotOk_def startsAfter_def split: if_splits)
qed

lemma open_ok:
  assumes "openHandoff budget rawSession after subscriber abortedBefore authorized abortedAfter subscription arrivals moments = Some (Inr h)"
  obtains sid snapshot where "sessionIdSchema rawSession = Some sid" "handoffSession h = sid" "handoffReplay h = Some snapshot"
    "snapshotOk sid after (highWaterCursor h) snapshot" "handoffOk (opt0 (highWaterCursor h)) 0 h" "delivered h = []"
proof -
  from assms obtain sid observed where p: "parseOpenInput rawSession after subscriber = Inr sid"
    and o: "openSubscribed budget sid after observed arrivals moments = Some (Inr h)"
    by (auto simp: openHandoff_def split: sum.splits if_splits option.splits)
  from p have sid: "sessionIdSchema rawSession = Some sid" "cursorOptionOk after"
    by (auto simp: parseOpenInput_def split: option.splits if_splits)
  define h1 where "h1 = fold (\<lambda>event h. snd (receiveCommitted event h)) arrivals (openingHandoff budget sid)"
  have a: "assertOpeningAvailable (momentAvailable (moments 0)) h1 = Inr ()"
    using o by (auto simp: openSubscribed_def h1_def [symmetric] Let_def split: sum.splits)
  obtain selected where sel: "readDurableProjectionPosition sid (momentDatabase (moments 0)) = Inr selected"
    using o a by (auto simp: openSubscribed_def h1_def [symmetric] split: sum.splits)
  let ?w = "positionHighWater selected"
  have f: "\<not> (case after of None \<Rightarrow> False | Some a \<Rightarrow> (case ?w of None \<Rightarrow> a > 0 | Some w \<Rightarrow> a > w))"
    using o a sel by (auto simp: openSubscribed_def h1_def [symmetric] Let_def split: if_splits)
  obtain snapshot k where r: "readReplaySnapshot budget sid after ?w moments 1 = Some (Inr snapshot, k)"
    using o a sel by (auto simp: openSubscribed_def h1_def [symmetric] Let_def split: sum.splits if_splits option.splits)
  let ?v = "createReplayValidation (snapshotEvents snapshot)"
  obtain paused accepted where n: "normalizePausedQueue (pausedQueue h1) observed ?w ?v = Some (paused, accepted)"
    using o a sel r by (auto simp: openSubscribed_def h1_def [symmetric] Let_def split: if_splits option.splits)
  have h: "h = h1\<lparr> internalState := IS_paused, highWaterCaptured := True, highWaterCursor := ?w,
        liveCursor := ?w, acceptedLiveCursor := accepted, pausedQueue := paused,
        pausedWireBytes := sum_list (map bufferedBytes paused), handoffReplay := Some snapshot,
        replayValidation := Some ?v \<rparr>"
    using o a sel r n by (simp add: openSubscribed_def h1_def [symmetric] Let_def split: if_splits)
  have "openingOk sid (openingHandoff budget sid)" by (simp add: openingOk_def openingHandoff_def)
  then have h1: "openingOk sid h1" unfolding h1_def by (rule opening_run)
  moreover have "handoffFailure h1 = None"
    using a by (cases "handoffFailure h1") (simp_all add: assertOpeningAvailable_def)
  ultimately have h1: "handoffSession h1 = sid" "delivered h1 = []" "\<not> liveSink h1" "\<not> deliveringLive h1"
    "list_all (\<lambda>b. eventSessionId (bufferedEvent b) = sid) (pausedQueue h1)" by (auto simp: openingOk_def)
  from n have "pausedLive (positionHighWater selected) (createReplayValidation (snapshotEvents snapshot))
      (positionHighWater selected) (pausedQueue h1) = Some (paused, accepted)"
    by (simp add: normalizePausedQueue_def split: if_splits)
  from paused_live [OF this] h1(5)
  have q: "cursorsFrom (opt0 (positionHighWater selected) + 1) (map bufferedEvent paused)"
    "opt0 accepted = opt0 (positionHighWater selected) + int (length paused)"
    "list_all (\<lambda>b. eventSessionId (bufferedEvent b) = sid) paused" by (auto simp: list_all_iff)
  have "handoffOk (opt0 (highWaterCursor h)) 0 h"
    using h1 q unfolding h by (simp add: handoffOk_def ended_def)
  then show thesis
    using that sid(1) h1(1,2) h replay_snapshot_ok [OF r sid(2) f] by simp
qed

section \<open>The replay of a readable log\<close>

text \<open>\<open>fitsReplay\<close>: the limits on a replay.\<close>

definition wireBytesOf :: "projection_event \<Rightarrow> int" where
  "wireBytesOf event = (case selectedProjectionSseWireByteLength event of None \<Rightarrow> 0 | Some n \<Rightarrow> n)"

definition fitsReplay :: "sse_budget \<Rightarrow> projection_event list \<Rightarrow> bool" where
  "fitsReplay budget es \<longleftrightarrow>
     es = [] \<or>
     list_all (\<lambda>e. wireBytesOf e \<le> eventMaxBytes budget) es \<and>
     int (length es) \<le> replayMaxEvents budget \<and> sum_list (map wireBytesOf es) \<le> replayMaxBytes budget"

lemma wireBytesOf_nonneg: "0 \<le> wireBytesOf e"
  by (auto simp: wireBytesOf_def selectedProjectionSseWireByteLength_def split: option.splits)

lemma wire_sum_nonneg: "0 \<le> sum_list (map wireBytesOf es)"
  by (rule sum_list_nonneg) (auto simp: wireBytesOf_nonneg)

lemma fits_prefix: "fitsReplay budget (xs @ ys) \<Longrightarrow> fitsReplay budget xs"
  using wire_sum_nonneg [of ys] by (auto simp: fitsReplay_def)

text \<open>The state after the events \<open>es\<close>, read after \<open>after\<close>.\<close>

definition attemptAt :: "int option \<Rightarrow> projection_event list \<Rightarrow> attempt_state \<Rightarrow> bool" where
  "attemptAt after es s \<longleftrightarrow>
     attemptEvents s = es \<and> attemptBytes s = sum_list (map wireBytesOf es) \<and>
     attemptCursor s = (if es = [] then after else Some (eventCursor (last es)))"

definition limitError :: "handoff_error + 'a \<Rightarrow> bool" where
  "limitError r \<longleftrightarrow> (case r of Inl e \<Rightarrow> e = Event_too_large \<or> e = Replay_limit | Inr _ \<Rightarrow> False)"

lemma replay_page_run:
  assumes "attemptAt after xs s" "fitsReplay budget xs" "\<forall>e \<in> set page. selectedProjectionEventSchema e = Some e"
    "startsAfter after c (xs @ page)" "cursorsFrom c (xs @ page)" "list_all (\<lambda>e. \<not> isBoundary e) (tl (xs @ page))"
  shows "if fitsReplay budget (xs @ page) then \<exists>s'. replayPage budget page s = Inr s' \<and> attemptAt after (xs @ page) s'
    else limitError (replayPage budget page s)"
  using assms
proof (induction page arbitrary: s xs)
  case (Cons event page)
  let ?s = "if isBoundary event then s\<lparr> attemptEvents := [], attemptBytes := 0, attemptTruncated := True \<rparr> else s"
  have at: "attemptEvents s = xs" "attemptBytes s = sum_list (map wireBytesOf xs)"
    "attemptCursor s = (if xs = [] then after else Some (eventCursor (last xs)))"
    using Cons.prems(1) by (simp_all add: attemptAt_def)
  have first: "isBoundary event \<Longrightarrow> xs = []" using Cons.prems(6) by (cases xs) auto
  have same: "attemptEvents ?s = xs" "attemptBytes ?s = sum_list (map wireBytesOf xs)" using at first by auto
  have next_: "isBoundary event \<or>
      isNextCursor (if attemptEvents s = [] then attemptCursor s else Some (eventCursor (last (attemptEvents s)))) (eventCursor event)"
    using Cons.prems(4,5) cursorsFrom_last [of c xs] at
    by (cases xs) (auto simp: startsAfter_def isNextCursor_opt0)
  have wire: "selectedProjectionSseWireByteLength event = Some (wireBytesOf event)"
    using Cons.prems(3) by (simp add: wireBytesOf_def selectedProjectionSseWireByteLength_def)
  have split: "xs @ event # page = (xs @ [event]) @ page" by simp
  have fits: "fitsReplay budget (xs @ [event]) \<longleftrightarrow>
      wireBytesOf event \<le> eventMaxBytes budget \<and>
      \<not> (int (length xs) \<ge> replayMaxEvents budget \<or> sum_list (map wireBytesOf xs) + wireBytesOf event > replayMaxBytes budget)"
    using Cons.prems(2) by (auto simp: fitsReplay_def)
  show ?case
  proof (cases "fitsReplay budget (xs @ [event])")
    case True
    let ?s' = "?s\<lparr> attemptEvents := attemptEvents ?s @ [event], attemptBytes := attemptBytes ?s + wireBytesOf event,
        attemptCursor := Some (eventCursor event) \<rparr>"
    have "replayPage budget (event # page) s = replayPage budget page ?s'"
      using next_ wire True fits same by (auto simp: Let_def)
    moreover have at': "attemptAt after (xs @ [event]) ?s'" using same by (simp add: attemptAt_def)
    have schema: "\<forall>e \<in> set page. selectedProjectionEventSchema e = Some e" using Cons.prems(3) by simp
    note Cons.IH [OF at' True schema Cons.prems(4-6) [unfolded split], folded split]
    ultimately show ?thesis by (simp only:)
  next
    case False
    then have "\<not> fitsReplay budget (xs @ event # page)" using fits_prefix [of budget "xs @ [event]" page] by auto
    moreover have "limitError (replayPage budget (event # page) s)"
      using next_ wire False fits same by (auto simp: Let_def limitError_def)
    ultimately show ?thesis by simp
  qed
qed auto

text \<open>A stored log: consecutive, a boundary only at its head.\<close>

definition logShape :: "projection_event list \<Rightarrow> bool" where
  "logShape es \<longleftrightarrow>
     es \<noteq> [] \<and> cursorsFrom (eventCursor (hd es)) es \<and> 1 \<le> eventCursor (hd es) \<and>
     list_all (\<lambda>e. \<not> isBoundary e) (tl es) \<and>
     (isBoundary (hd es) \<or> eventCursor (hd es) = 1) \<and>
     (\<forall>a. boundaryAfter (hd es) = Some a \<longrightarrow> isBoundary (hd es) \<and> eventCursor (hd es) = a + 1) \<and>
     (\<forall>e \<in> set es. selectedProjectionEventSchema e = Some e)"

lemma contiguous_cursors: "contiguousFrom c rows \<Longrightarrow> list_all columnsOk rows \<Longrightarrow> cursorsFrom c (map rowEvent rows)"
  by (induction rows arbitrary: c) (auto simp: columns_cursor)

lemma stored_shape:
  assumes "storedOk db" "absLog sid db = Some es" "es \<noteq> []"
  shows "logShape es"
proof -
  obtain rows where r: "logOk rows" "es = map rowEvent rows" "rows = sessionEvents db sid" "eventsReadable db"
    using stored_log [OF assms(1,2)] by metis
  then have "rows \<noteq> []" using assms(3) by simp
  then obtain x xs where x: "rows = x # xs" by (cases rows) auto
  have c: "columnsOk x" "list_all columnsOk xs" "eventCursor (rowEvent x) = rowCursor x" "startOk x" "1 \<le> rowCursor x"
    "contiguousFrom (rowCursor x + 1) xs" "list_all (\<lambda>r. \<not> isBoundary (rowEvent r)) xs"
    using r(1) x columns_cursor by (auto simp: logOk_def)
  have "\<forall>e \<in> set es. selectedProjectionEventSchema e = Some e"
    using r(2-4) set_sessionEvents [of db sid] by (auto simp: eventsReadable_def rowReadable_def event_kept_iff)
  moreover have "boundaryAfter (rowEvent x) = Some a \<Longrightarrow> isBoundary (rowEvent x) \<and> rowCursor x = a + 1" for a
    using c(4) boundaryAfter_real [of "rowEvent x"] by (cases "isBoundary (rowEvent x)") (auto simp: startOk_def)
  moreover have "isBoundary (rowEvent x) \<or> rowCursor x = 1" using c(4) by (auto simp: startOk_def split: if_splits)
  moreover have "cursorsFrom (rowCursor x) (map rowEvent rows)" using contiguous_cursors [OF c(6,2)] c(3) x by simp
  ultimately show ?thesis using r(2) x c by (simp add: logShape_def list_all_iff)
qed

definition skipped :: "int option \<Rightarrow> projection_event list \<Rightarrow> nat" where
  "skipped after es = (case after of None \<Rightarrow> 0 | Some a \<Rightarrow> nat (a + 1 - eventCursor (hd es)))"

lemma run_above: "cursorsFrom c es \<Longrightarrow> c > a \<Longrightarrow> filter (\<lambda>e. eventCursor e > a) es = es"
  by (induction es arbitrary: c) auto

lemma run_drop: "cursorsFrom c es \<Longrightarrow> filter (\<lambda>e. eventCursor e > a) es = drop (nat (a + 1 - c)) es"
proof (induction es arbitrary: c)
  case (Cons e es)
  show ?case
  proof (cases "a < c")
    case True
    then have "nat (a + 1 - c) = 0" by simp
    then show ?thesis using run_above [OF Cons.prems True] by simp
  next
    case False
    then have "nat (a + 1 - c) = Suc (nat (a + 1 - (c + 1)))" by simp
    then show ?thesis using False Cons.prems Cons.IH [of "c + 1"] by simp
  qed
qed simp

lemma log_after_drop: "logShape es \<Longrightarrow> logAfter after es = drop (skipped after es) es"
  using run_drop by (auto simp: logAfter_def skipped_def logShape_def split: option.splits)

lemma run_split: "cursorsFrom c es \<Longrightarrow> k \<le> length es \<Longrightarrow> cursorsFrom (c + int k) (drop k es)"
  using cursorsFrom_append [of c "take k es" "drop k es"] by simp

lemma shape_after:
  assumes "logShape es" "after = None \<or> after = Some a \<and> 0 \<le> a \<and> a < lastCursor es"
  shows "skipped after es < length es" "logAfter after es \<noteq> []" "eventCursor (last (logAfter after es)) = lastCursor es"
    "cursorsFrom (eventCursor (hd es) + int (skipped after es)) (logAfter after es)"
    "startsAfter after (eventCursor (hd es) + int (skipped after es)) (logAfter after es)"
    "list_all (\<lambda>e. \<not> isBoundary e) (tl (logAfter after es))"
    "skipped after es = 0 \<or> eventCursor (hd es) + int (skipped after es) = opt0 after + 1"
proof -
  have es: "es \<noteq> []" "cursorsFrom (eventCursor (hd es)) es" using assms(1) by (simp_all add: logShape_def)
  have l: "lastCursor es = eventCursor (hd es) + int (length es) - 1"
    using cursorsFrom_last [OF es(2,1)] es(1) by (simp add: lastCursor_def)
  have n: "0 < length es" using es(1) by simp
  have "nat (a + 1 - eventCursor (hd es)) < length es" if "a < lastCursor es"
    using that l n by linarith
  with assms(2) n show s: "skipped after es < length es" by (auto simp: skipped_def)
  show "logAfter after es \<noteq> []" "eventCursor (last (logAfter after es)) = lastCursor es"
    using s es(1) by (simp_all add: log_after_drop [OF assms(1)] lastCursor_def)
  show "cursorsFrom (eventCursor (hd es) + int (skipped after es)) (logAfter after es)"
    unfolding log_after_drop [OF assms(1)] using s by (intro run_split es(2)) simp
  show k: "skipped after es = 0 \<or> eventCursor (hd es) + int (skipped after es) = opt0 after + 1"
    by (auto simp: skipped_def split: option.splits)
  show "startsAfter after (eventCursor (hd es) + int (skipped after es)) (logAfter after es)"
  proof (cases "skipped after es = 0")
    case True
    then have "logAfter after es = es" using log_after_drop [OF assms(1)] by simp
    then show ?thesis using True assms es(1)
      by (cases es) (auto simp: startsAfter_def logShape_def skipped_def)
  next
    case False
    then show ?thesis using k by (simp add: startsAfter_def)
  qed
  have "set (tl (logAfter after es)) \<subseteq> set (tl es)"
    unfolding log_after_drop [OF assms(1)] by (metis drop_Suc set_drop_subset tl_drop)
  then show "list_all (\<lambda>e. \<not> isBoundary e) (tl (logAfter after es))"
    using assms(1) by (auto simp: logShape_def list_all_iff)
qed

text \<open>The loop over the pages of a log.\<close>

definition quietMoments :: "database \<Rightarrow> nat \<Rightarrow> moment" where
  "quietMoments db k = \<lparr> momentAvailable = True, momentDatabase = db \<rparr>"

lemma page_session: "streamSession (pageOf sid after limit es) = sid"
  by (simp add: pageOf_def Let_def)

lemma page_events: "streamEvents (pageOf sid after limit es) = take (nat limit) (logAfter after es)"
  by (simp add: pageOf_def Let_def)

lemma replay_step_page:
  assumes "storedOk db" "absLog sid db = Some es" "logShape es" "attemptCursor s = None \<or> attemptCursor s = Some a \<and> 0 \<le> a \<and> a < lastCursor es"
  shows "replayStep budget sid (lastCursor es) (quietMoments db k) s =
    replayPage budget (take (nat replayPageLimit) (logAfter (attemptCursor s) es)) s"
    "take (nat replayPageLimit) (logAfter (attemptCursor s) es) \<noteq> []"
proof -
  note c = assms(4)
  let ?page = "take (nat replayPageLimit) (logAfter (attemptCursor s) es)"
  have "listEvents sid (attemptCursor s) replayPageLimit db = Inr (pageOf sid (attemptCursor s) replayPageLimit es)"
    "selectedSessionEventStreamSchema (pageOf sid (attemptCursor s) replayPageLimit es) =
       Some (pageOf sid (attemptCursor s) replayPageLimit es)"
    using c by (intro list_page(1) [OF assms(1,2), of _ a] list_page(2) [OF assms(1,2), of _ a];
      auto simp: replayPageLimit_def maxEventLimit_def)+
  moreover have "filter (\<lambda>e. eventCursor e \<le> lastCursor es) ?page = ?page"
  proof (rule filter_True, rule ballI)
    fix e assume "e \<in> set ?page"
    then have "e \<in> set es" by (auto simp: log_after_drop [OF assms(3)] dest: in_set_takeD in_set_dropD)
    moreover have "cursorsFrom c xs \<Longrightarrow> e \<in> set xs \<Longrightarrow> eventCursor e \<le> c + int (length xs) - 1" for c xs
      by (induction xs arbitrary: c) force+
    ultimately show "eventCursor e \<le> lastCursor es"
      using assms(3) cursorsFrom_last [of "eventCursor (hd es)" es] by (auto simp: logShape_def lastCursor_def)
  qed
  moreover show n: "?page \<noteq> []" using shape_after(2) [OF assms(3) c] by (simp add: replayPageLimit_def)
  ultimately show "replayStep budget sid (lastCursor es) (quietMoments db k) s = replayPage budget ?page s"
    by (simp add: replayStep_def quietMoments_def parseReplayStream_def page_session page_events)
qed

lemma replay_loop_run:
  assumes "storedOk db" "absLog sid db = Some es" "logShape es" "after = None \<or> after = Some a \<and> 0 \<le> a \<and> a < lastCursor es"
    "attemptAt after (take n (logAfter after es)) s" "n \<le> length (logAfter after es)" "fitsReplay budget (take n (logAfter after es))"
  shows "if fitsReplay budget (logAfter after es)
    then \<exists>s' k'. replayLoop budget sid (lastCursor es) (quietMoments db) k s = Some (Inr s', k') \<and> attemptAt after (logAfter after es) s'
    else \<exists>r k'. replayLoop budget sid (lastCursor es) (quietMoments db) k s = Some (r, k') \<and> limitError r"
  using assms(5-7)
proof (induction "length (logAfter after es) - n" arbitrary: n s k rule: less_induct)
  case less
  let ?log = "logAfter after es" and ?loop = "replayLoop budget sid (lastCursor es) (quietMoments db)"
  note shape = shape_after [OF assms(3,4)]
  define c where "c = eventCursor (hd es) + int (skipped after es)"
  note run = shape(4) [folded c_def]
  have len: "lastCursor es = c + int (length ?log) - 1" using cursorsFrom_last [OF run shape(2)] shape(3) by simp
  have cursor: "attemptCursor s = (if n = 0 then after else Some (c + int n - 1))"
    "attemptEvents s = take n ?log"
  proof -
    have "cursorsFrom c (take n ?log)" using run cursorsFrom_append [of c "take n ?log" "drop n ?log"] by simp
    from cursorsFrom_last [OF this]
    show "attemptCursor s = (if n = 0 then after else Some (c + int n - 1))" "attemptEvents s = take n ?log"
      using less.prems(1,2) shape(2) by (auto simp: attemptAt_def)
  qed
  show ?case
  proof (cases "n = length ?log")
    case True
    then have "attemptCursor s = Some (lastCursor es)" using cursor(1) len shape(2) by simp
    then have "?loop k s = Some (Inr s, k)" by (subst replayLoop.simps) simp
    then show ?thesis using True less.prems by simp
  next
    case False
    then have n: "n < length ?log" using less.prems(2) by simp
    obtain a' where a': "attemptCursor s = None \<or> attemptCursor s = Some a' \<and> 0 \<le> a' \<and> a' < lastCursor es"
      "n = 0 \<or> a' = c + int n - 1"
    proof (cases "n = 0")
      case True
      then show thesis using that [of a] cursor(1) assms(4) by simp
    next
      case False
      moreover have "1 \<le> c" using assms(3) by (simp add: c_def logShape_def)
      ultimately show thesis using that [of "c + int n - 1"] cursor(1) len n by simp
    qed
    have rest: "logAfter (attemptCursor s) es = drop n ?log"
    proof (cases "n = 0")
      case False
      then have "skipped (Some (c + int n - 1)) es = n + skipped after es" by (simp add: skipped_def c_def nat_eq_iff)
      then show ?thesis using cursor(1) False by (simp add: log_after_drop [OF assms(3)])
    qed (simp add: cursor(1))
    let ?page = "take (nat replayPageLimit) (drop n ?log)"
    note step = replay_step_page [OF assms(1-3) a'(1), unfolded rest]
    let ?m = "n + length ?page"
    have m: "take n ?log @ ?page = take ?m ?log" "?m \<le> length ?log" "n < ?m"
      using n step(2) by (auto simp: take_add min_def)
    have "startsAfter after c (take ?m ?log)"
      using shape(5) [folded c_def] m(3) by (cases ?log) (auto simp: startsAfter_def take_Cons' split: if_splits)
    moreover have "cursorsFrom c (take ?m ?log)" using run cursorsFrom_append [of c "take ?m ?log" "drop ?m ?log"] by simp
    moreover have "list_all (\<lambda>e. \<not> isBoundary e) (tl (take ?m ?log))"
      using shape(6) by (auto simp: list_all_iff tl_take dest: in_set_takeD)
    moreover have "\<forall>e \<in> set ?page. selectedProjectionEventSchema e = Some e"
      using assms(3) by (auto simp: logShape_def log_after_drop [OF assms(3)] dest!: in_set_takeD in_set_dropD)
    ultimately have p: "if fitsReplay budget (take ?m ?log)
      then \<exists>s'. replayPage budget ?page s = Inr s' \<and> attemptAt after (take ?m ?log) s'
      else limitError (replayPage budget ?page s)"
      using replay_page_run [of after "take n ?log" s budget ?page c] less.prems(1,3) unfolding m(1) by blast
    have unfold: "?loop k s = (case replayPage budget ?page s of Inl e \<Rightarrow> Some (Inl e, Suc k) | Inr s \<Rightarrow> ?loop (Suc k) s)"
      using a'(1) by (subst replayLoop.simps) (auto simp: step(1) split: option.splits)
    show ?thesis
    proof (cases "fitsReplay budget (take ?m ?log)")
      case True
      with p obtain s' where s': "replayPage budget ?page s = Inr s'" "attemptAt after (take ?m ?log) s'" by auto
      have "length ?log - ?m < length ?log - n" using m(2,3) n by linarith
      note h = less.hyps [OF this s'(2) m(2) True, of "Suc k"]
      have "?loop k s = ?loop (Suc k) s'" using unfold s'(1) by simp
      then show ?thesis using h by (simp only:)
    next
      case False
      then have "\<not> fitsReplay budget ?log" using fits_prefix [of budget "take ?m ?log" "drop ?m ?log"] by auto
      moreover from False p have "limitError (replayPage budget ?page s)" by simp
      ultimately show ?thesis using unfold by (auto simp: limitError_def split: sum.splits)
    qed
  qed
qed

lemma replay_attempt_run:
  assumes "storedOk db" "absLog sid db = Some es" "logShape es" "after = None \<or> after = Some a \<and> 0 \<le> a \<and> a < lastCursor es"
  shows "if fitsReplay budget (logAfter after es)
    then \<exists>snapshot k'. readReplayAttempt budget sid after (lastCursor es) (quietMoments db) k = Some (Inr snapshot, k') \<and>
      snapshotEvents snapshot = logAfter after es
    else \<exists>e k'. readReplayAttempt budget sid after (lastCursor es) (quietMoments db) k = Some (Inl e, k') \<and>
      (e = Event_too_large \<or> e = Replay_limit)"
proof -
  let ?s = "\<lparr> attemptEvents = [], attemptCursor = after, attemptTruncated = False, attemptBytes = 0 \<rparr>"
  let ?log = "logAfter after es" and ?loop = "replayLoop budget sid (lastCursor es) (quietMoments db) k ?s"
  have "attemptAt after (take 0 ?log) ?s" by (simp add: attemptAt_def)
  moreover have "fitsReplay budget (take 0 ?log)" by (simp add: fitsReplay_def)
  ultimately have l: "if fitsReplay budget ?log
    then \<exists>s' k'. ?loop = Some (Inr s', k') \<and> attemptAt after ?log s' else \<exists>r k'. ?loop = Some (r, k') \<and> limitError r"
    by (intro replay_loop_run [OF assms, of 0]) simp_all
  show ?thesis
  proof (cases "fitsReplay budget ?log")
    case True
    with l obtain s' k' where s': "?loop = Some (Inr s', k')" "attemptAt after ?log s'" by auto
    then have "attemptEvents s' = ?log" "attemptCursor s' = Some (lastCursor es)"
      using shape_after(2,3) [OF assms(3,4)] by (simp_all add: attemptAt_def)
    then show ?thesis using True s'(1) by (simp add: readReplayAttempt_def)
  next
    case False
    with l obtain r k' where r: "?loop = Some (r, k')" "limitError r" by auto
    then obtain e where "r = Inl e" "e = Event_too_large \<or> e = Replay_limit" by (auto simp: limitError_def split: sum.splits)
    then show ?thesis using False r(1) by (simp add: readReplayAttempt_def)
  qed
qed

lemma position_stored:
  assumes "storedOk db" "absLog sid db = Some es"
  obtains s where "repositoryRequire db sid = Inr s" "sessionIdSchema sid = Some sid"
    "readDurableProjectionPosition sid db =
       Inr \<lparr> positionArchived = (lifecycleState (projectionSession (stateProjection s)) = MS_archived),
             positionHighWater = (if es = [] then None else Some (lastCursor es)),
             positionBoundary = (case es of [] \<Rightarrow> None | e # _ \<Rightarrow> boundaryAfter e) \<rparr>"
proof -
  obtain s where s: "requireState db sid = Inr s" "stateOk s" "sessionIdent (projectionSession (stateProjection s)) = sid"
    "logOk (sessionEvents db sid)" "recordCountersOk (sessionEvents db sid) (stateProjection s)"
    "es = map rowEvent (sessionEvents db sid)" "sessionIdSchema sid = Some sid"
    using stored_log [OF assms] by metis
  have r: "repositoryRequire db sid = Inr s" using s(1,7) by (simp add: repositoryRequire_def parseSessionIdArg_def)
  have i: "mappingId (stateMapping s) = sid" by (rule stored_required(4) [OF assms(1) s(1)])
  have "sessionEvents db sid \<noteq> [] \<Longrightarrow> lastCursor es = rowCursor (last (sessionEvents db sid))"
    using s(4,6) columns_cursor [of "last (sessionEvents db sid)"]
    by (simp add: lastCursor_def last_map logOk_def list_all_iff)
  then have "lastEventCursor (projectionSession (stateProjection s)) = (if es = [] then None else Some (lastCursor es))"
    "boundaryCursor (stateProjection s) = (case es of [] \<Rightarrow> None | e # _ \<Rightarrow> boundaryAfter e)"
    using s(5,6) by (auto simp: recordCountersOk_def split: list.splits)
  then have "readDurableProjectionPosition sid db =
       Inr \<lparr> positionArchived = (lifecycleState (projectionSession (stateProjection s)) = MS_archived),
             positionHighWater = (if es = [] then None else Some (lastCursor es)),
             positionBoundary = (case es of [] \<Rightarrow> None | e # _ \<Rightarrow> boundaryAfter e) \<rparr>"
    using r s(2,3) i by (simp add: readDurableProjectionPosition_def stateOk_def normalState_def)
  with r s(7) show thesis by (rule that)
qed

lemma judge_log:
  assumes "logShape es" "after = None \<or> after = Some a \<and> 0 \<le> a \<and> a < lastCursor es"
    "snapshotEvents snapshot = logAfter after es" "positionHighWater current = Some (lastCursor es)"
    "positionBoundary current = boundaryAfter (hd es)"
  shows "judgeSnapshot after (lastCursor es) None snapshot current = Take"
proof (cases "boundaryAfter (hd es)")
  case None
  then show ?thesis using assms(4,5) by (simp add: judgeSnapshot_def)
next
  case (Some b)
  have es: "es \<noteq> []" "isBoundary (hd es)" "eventCursor (hd es) = b + 1" "cursorsFrom (eventCursor (hd es)) es"
    "list_all (\<lambda>e. \<not> isBoundary e) (tl es)"
    using assms(1) Some by (auto simp: logShape_def)
  have below: "b < lastCursor es" using cursorsFrom_last [OF es(4,1)] es(1,3) by (cases es) (auto simp: lastCursor_def)
  show ?thesis
  proof (cases "case after of None \<Rightarrow> True | Some a \<Rightarrow> a \<le> b")
    case True
    then have "skipped after es = 0" using es(3) by (auto simp: skipped_def split: option.splits)
    then have "logAfter after es = es" using log_after_drop [OF assms(1)] by simp
    then show ?thesis using True es(1,2) Some assms(3-5) below by (cases es) (auto simp: judgeSnapshot_def)
  next
    case False
    then have "0 < skipped after es" using es(3) by (auto simp: skipped_def split: option.splits)
    then have "set (logAfter after es) \<subseteq> set (tl es)"
      unfolding log_after_drop [OF assms(1)] by (cases es) (auto simp: drop_Cons' dest: in_set_dropD)
    then have "(case logAfter after es of [] \<Rightarrow> None | e # _ \<Rightarrow> if isBoundary e then Some e else None) = None"
      using es(5) by (auto simp: list_all_iff split: list.splits)
    then show ?thesis using False Some assms(3-5) below by (simp add: judgeSnapshot_def)
  qed
qed

section \<open>The contracts\<close>

text \<open>What the reader was at must be in what is committed: its cursor and the one the hub observed.\<close>

definition observedIn :: "int option \<Rightarrow> projection_event list \<Rightarrow> bool" where
  "observedIn observed es \<longleftrightarrow> (case observed of None \<Rightarrow> True | Some c \<Rightarrow> es \<noteq> [] \<and> c \<le> lastCursor es)"

lemma snapshot_log:
  assumes "storedOk db" "absLog sid db = Some es" "cursorOptionOk after" "opt0 after \<le> lastCursor es"
  defines "highWater \<equiv> (if es = [] then None else Some (lastCursor es))"
  shows "if fitsReplay budget (logAfter after es)
    then \<exists>snapshot k'. readReplaySnapshot budget sid after highWater (quietMoments db) k = Some (Inr snapshot, k') \<and>
      snapshotEvents snapshot = logAfter after es
    else \<exists>e k'. readReplaySnapshot budget sid after highWater (quietMoments db) k = Some (Inl e, k') \<and>
      (e = Event_too_large \<or> e = Replay_limit)"
proof (cases "es = [] \<or> after = highWater")
  case True
  have "logAfter after es = []"
  proof (cases "es = []")
    case True
    then show ?thesis by (auto simp: logAfter_def split: option.splits)
  next
    case False
    then have a: "after = Some (lastCursor es)" "cursorsFrom (eventCursor (hd es)) es"
      using True stored_shape [OF assms(1,2)] by (auto simp: highWater_def logShape_def)
    have "nat (lastCursor es + 1 - eventCursor (hd es)) = length es"
      using cursorsFrom_last [OF a(2) False] False by (simp add: lastCursor_def)
    then show ?thesis using log_after_drop [OF stored_shape [OF assms(1,2) False]] a(1) by (simp add: skipped_def)
  qed
  then show ?thesis using True by (auto simp: readReplaySnapshot_def highWater_def fitsReplay_def)
next
  case False
  then have es: "es \<noteq> []" "logShape es" "highWater = Some (lastCursor es)" using stored_shape [OF assms(1,2)] by (auto simp: highWater_def)
  then have a: "after = None \<or> after = Some (opt0 after) \<and> 0 \<le> opt0 after \<and> opt0 after < lastCursor es"
    using False assms(3,4) by (cases after) (auto simp: cursorOptionOk_def outputCursorOk_def)
  note run = replay_attempt_run [OF assms(1,2) es(2) a]
  have again: "readReplaySnapshot budget sid after highWater (quietMoments db) k =
      replayAttempts budget sid after (lastCursor es) (quietMoments db) (Suc 31) None k"
    using False es(3) by (simp add: readReplaySnapshot_def maximumRetentionReplayAttempts_def eval_nat_numeral del: replayAttempts.simps)
  obtain s :: selected_state where s: "readDurableProjectionPosition sid db =
       Inr \<lparr> positionArchived = (lifecycleState (projectionSession (stateProjection s)) = MS_archived),
             positionHighWater = (if es = [] then None else Some (lastCursor es)),
             positionBoundary = (case es of [] \<Rightarrow> None | e # _ \<Rightarrow> boundaryAfter e) \<rparr>"
    by (rule position_stored [OF assms(1,2)])
  then obtain current where p: "readDurableProjectionPosition sid db = Inr current" "positionHighWater current = Some (lastCursor es)"
    "positionBoundary current = boundaryAfter (hd es)"
    using es(1) by (auto simp: neq_Nil_conv)
  show ?thesis
  proof (cases "fitsReplay budget (logAfter after es)")
    case True
    with run [of budget k] obtain snapshot k' where
      r: "readReplayAttempt budget sid after (lastCursor es) (quietMoments db) k = Some (Inr snapshot, k')"
        "snapshotEvents snapshot = logAfter after es" by auto
    have "replayAttempts budget sid after (lastCursor es) (quietMoments db) (Suc 31) None k = Some (Inr snapshot, Suc k')"
      unfolding replayAttempts.simps(2) using r(1) judge_log [OF es(2) a r(2) p(2,3)] p(1) by (simp add: quietMoments_def)
    then show ?thesis using True r(2) again by auto
  next
    case False
    with run [of budget k] obtain e k' where
      r: "readReplayAttempt budget sid after (lastCursor es) (quietMoments db) k = Some (Inl e, k')"
        "e = Event_too_large \<or> e = Replay_limit" by auto
    have "replayAttempts budget sid after (lastCursor es) (quietMoments db) (Suc 31) None k = Some (Inl e, k')"
      unfolding replayAttempts.simps(2) using r(1) by simp
    then show ?thesis using False r(2) unfolding again by auto
  qed
qed

lemma open_log:
  assumes "storedOk db" "absLog sid db = Some es" "repositoryRequire db sid = Inr s"
    "lifecycleState (projectionSession (stateProjection s)) \<noteq> MS_archived"
    "parseOpenInput sid after subscriber = Inr sid" "opt0 after \<le> lastCursor es" "observedIn observed es"
  shows "if fitsReplay budget (logAfter after es)
    then \<exists>h replay. openHandoff budget sid after subscriber False True False (Some observed) [] (quietMoments db) = Some (Inr h) \<and>
      handoffReplay h = Some replay \<and> snapshotEvents replay = logAfter after es
    else \<exists>e. openHandoff budget sid after subscriber False True False (Some observed) [] (quietMoments db) = Some (Inl e) \<and>
      (e = Event_too_large \<or> e = Replay_limit)"
proof -
  let ?w = "if es = [] then None else Some (lastCursor es)"
  have c: "cursorOptionOk after" using assms(5) by (auto simp: parseOpenInput_def split: option.splits if_splits)
  obtain s' :: selected_state where s': "repositoryRequire db sid = Inr s'" "readDurableProjectionPosition sid db =
       Inr \<lparr> positionArchived = (lifecycleState (projectionSession (stateProjection s')) = MS_archived),
             positionHighWater = ?w, positionBoundary = (case es of [] \<Rightarrow> None | e # _ \<Rightarrow> boundaryAfter e) \<rparr>"
    by (rule position_stored [OF assms(1,2)])
  then have "s' = s" using assms(3) by simp
  then obtain current where p: "readDurableProjectionPosition sid db = Inr current" "positionHighWater current = ?w" "\<not> positionArchived current"
    using s'(2) assms(4) by simp
  have l: "es = [] \<Longrightarrow> lastCursor es = 0" by (simp add: lastCursor_def)
  have checks: "\<not> (case observed of None \<Rightarrow> False | Some o' \<Rightarrow> (case ?w of None \<Rightarrow> True | Some w \<Rightarrow> o' > w))"
    "\<not> (case after of None \<Rightarrow> False | Some a \<Rightarrow> (case ?w of None \<Rightarrow> a > 0 | Some w \<Rightarrow> a > w))"
    using assms(6,7) l by (auto simp: observedIn_def split: option.splits)
  have fresh: "handoffFailure (openingHandoff budget sid) = None" "internalState (openingHandoff budget sid) = IS_opening"
    "pausedQueue (openingHandoff budget sid) = []" by (simp_all add: openingHandoff_def)
  have available: "momentAvailable (quietMoments db k)" "momentDatabase (quietMoments db k) = db" for k by (simp_all add: quietMoments_def)
  note snap = snapshot_log [OF assms(1,2) c assms(6), of budget 1]
  have o: "openHandoff budget sid after subscriber False True False (Some observed) [] (quietMoments db) =
      openSubscribed budget sid after observed [] (quietMoments db)"
    using assms(5) by (simp add: openHandoff_def)
  show ?thesis
  proof (cases "fitsReplay budget (logAfter after es)")
    case True
    with snap obtain snapshot k where r: "readReplaySnapshot budget sid after ?w (quietMoments db) 1 = Some (Inr snapshot, k)"
      "snapshotEvents snapshot = logAfter after es" by auto
    have "normalizePausedQueue [] observed ?w (createReplayValidation (snapshotEvents snapshot)) = Some ([], ?w)"
      by (simp add: normalizePausedQueue_def)
    then have "\<exists>h. openSubscribed budget sid after observed [] (quietMoments db) = Some (Inr h) \<and> handoffReplay h = Some snapshot"
      using p checks fresh available r(1) by (simp add: openSubscribed_def Let_def assertOpeningAvailable_def del: split_paired_Ex)
    then show ?thesis using True r(2) o by auto
  next
    case False
    with snap obtain e k where r: "readReplaySnapshot budget sid after ?w (quietMoments db) 1 = Some (Inl e, k)"
      "e = Event_too_large \<or> e = Replay_limit" by auto
    then have "openSubscribed budget sid after observed [] (quietMoments db) = Some (Inl e)"
      using p checks fresh available by (simp add: openSubscribed_def Let_def assertOpeningAvailable_def)
    then show ?thesis using False r(2) o by auto
  qed
qed

lemma sample_open:
  "parseOpenInput sampleId None (js ''reader'') = Inr sampleId"
  using sample_scalars by (simp add: parseOpenInput_def cursorOptionOk_def js_def handoffIdChar_def char_class_defs)

lemma sample_wire: "n = 1 \<or> n = 2 \<Longrightarrow> wireBytesOf (sampleEvent n) \<le> 200000"
proof -
  assume n: "n = 1 \<or> n = 2"
  let ?prefix = "js ''id: '' @ intText n @ [10] @ js ''event: '' @ eventType (eventBody (sampleEvent n)) @ [10] @ js ''data: ''"
  let ?json = "jsonText (eventJson (sampleEvent n))"
  have "outputCursorOk n" using n by (auto simp: outputCursorOk_def maxSafe_def)
  from sample_event [OF this] have e: "eventOk (sampleEvent n)" .
  then have "wireBytesOf (sampleEvent n) = int (utf8Length (?prefix @ ?json @ [10, 10]))"
    by (simp add: wireBytesOf_def selectedProjectionSseWireByteLength_def event_kept_iff [THEN iffD2] sampleEvent_def)
  also have "\<dots> \<le> int (utf8Length ?prefix) + (eventBytes (sampleEvent n) + int (utf8Length [10, 10]))"
    using utf8Length_append [of ?prefix "?json @ [10, 10]"] utf8Length_append [of ?json "[10, 10]"]
    unfolding eventBytes_def by linarith
  also have "list_all (\<lambda>c. c < 128) ?prefix \<and> length ?prefix \<le> 100"
    using n intText_length [of n] natText_ascii [of "nat n"]
    by (auto simp: js_def sampleEvent_def maxSafe_def) (auto simp: intText_def)
  then have "utf8Length ?prefix \<le> 100" using utf8Length_ascii by presburger
  finally show ?thesis using eventBytes_bound [OF e] by (simp add: isHighSurrogate_def)
qed

definition sampleBudget :: sse_budget where
  "sampleBudget =
     \<lparr> queueMaxEvents = 8, queueMaxBytes = 1000000, eventMaxBytes = 250000, replayMaxEvents = 10, replayMaxBytes = 1000000 \<rparr>"

lemma sample_log: "absLog sampleId (sampleDatabase 2) = Some [sampleEvent 1, sampleEvent 2]"
proof -
  have s: "sessionEvents (sampleDatabase 2) sampleId = sampleLog 2" "managed (sampleDatabase 2) sampleId"
    using sample_database [of 2] require_facts(1) by (auto simp: storedOk_def)
  have "map rowEvent (sampleLog 2) = [sampleEvent 1, sampleEvent 2]"
    by (simp add: sampleLog_def sampleRecord_def upt_rec numeral_2_eq_2)
  then show ?thesis using s by (simp add: absLog_def)
qed

lemma sample_fits: "fitsReplay sampleBudget [sampleEvent 1, sampleEvent 2]"
  using sample_wire [of 1] sample_wire [of 2] by (simp add: fitsReplay_def sampleBudget_def)

lemma sample_required: "repositoryRequire (sampleDatabase 2) sampleId = Inr \<lparr> stateMapping = sampleMapping, stateProjection = sampleProjection 2 \<rparr>"
  using sample_database [of 2] sample_scalars(1) by (simp add: repositoryRequire_def parseSessionIdArg_def)

lemma sample_handoff:
  obtains h replay where "openHandoff sampleBudget sampleId None (js ''reader'') False True False (Some None) [] (quietMoments (sampleDatabase 2)) =
      Some (Inr h)" "handoffReplay h = Some replay" "snapshotEvents replay = [sampleEvent 1, sampleEvent 2]"
proof -
  have "storedOk (sampleDatabase 2)" using sample_database [of 2] by simp
  moreover have "lifecycleState (projectionSession (stateProjection \<lparr> stateMapping = sampleMapping, stateProjection = sampleProjection 2 \<rparr>)) \<noteq> MS_archived"
    using sample_projection [of 2] by (simp add: sampleSession_def del: sampleProjection.simps)
  moreover have "opt0 None \<le> lastCursor [sampleEvent 1, sampleEvent 2]" by (simp add: lastCursor_def sampleEvent_def)
  moreover have "observedIn None [sampleEvent 1, sampleEvent 2]" by (simp add: observedIn_def)
  ultimately show thesis
    using open_log [OF _ sample_log sample_required _ sample_open, of None sampleBudget] sample_fits that
    by (auto simp: logAfter_def)
qed

section \<open>Properties\<close>

text \<open>C2: A reader loses no event and gets none twice: for every handoff that opens, whatever databases its reads saw and
  whatever arrived meanwhile, the replay followed by the events given to the sink is one unbroken run of cursors of
  the session, after any sequence of calls, deliveries and reentrant calls of the sink; the run starts right after the reader's
  cursor, or with the boundary that tells the reader that older events are gone.\<close>

theorem handoff_stream_is_gapless:
  assumes "openHandoff budget rawSession after subscriber abortedBefore authorized abortedAfter subscription arrivals moments = Some (Inr h)"
  shows "\<exists>sid replay c. sessionIdSchema rawSession = Some sid \<and> handoffReplay h = Some replay \<and>
    (let stream = snapshotEvents replay @ delivered (runNested ops h) in
       cursorsFrom c stream \<and> list_all (\<lambda>e. eventSessionId e = sid) stream \<and>
       (c = opt0 after + 1 \<or> (case snapshotEvents replay of [] \<Rightarrow> False | e # _ \<Rightarrow> isBoundary e)))"
proof -
  obtain sid replay where o: "sessionIdSchema rawSession = Some sid" "handoffSession h = sid" "handoffReplay h = Some replay"
    "snapshotOk sid after (highWaterCursor h) replay" "handoffOk (opt0 (highWaterCursor h)) 0 h" "delivered h = []"
    by (rule open_ok [OF assms])
  obtain c where c: "c + int (length (snapshotEvents replay)) = opt0 (highWaterCursor h) + 1" "cursorsFrom c (snapshotEvents replay)"
    "startsAfter after c (snapshotEvents replay)" "list_all (\<lambda>e. eventSessionId e = sid) (snapshotEvents replay)"
    using o(4) by (auto simp: snapshotOk_def)
  have "handoffOk (opt0 (highWaterCursor h)) 0 (runNested ops h)" "handoffSession (runNested ops h) = sid"
    using calls_ok(2) [OF o(5), of ops] o(2) by (simp_all add: handoffKept_def)
  then have "cursorsFrom (opt0 (highWaterCursor h) + 1) (delivered (runNested ops h))"
    "list_all (\<lambda>e. eventSessionId e = sid) (delivered (runNested ops h))" by (simp_all add: handoffOk_def)
  then have "cursorsFrom c (snapshotEvents replay @ delivered (runNested ops h))"
    "list_all (\<lambda>e. eventSessionId e = sid) (snapshotEvents replay @ delivered (runNested ops h))"
    using c(1,2,4) by simp_all
  with o(1,3) c(3) show ?thesis unfolding startsAfter_def Let_def by blast
qed

theorem handoff_stream_is_gapless_witness:
  "\<exists>h replay c. openHandoff sampleBudget sampleId None (js ''reader'') False True False (Some None) [] (quietMoments (sampleDatabase 2)) =
      Some (Inr h) \<and> handoffReplay h = Some replay \<and> snapshotEvents replay = [sampleEvent 1, sampleEvent 2] \<and>
    cursorsFrom c (snapshotEvents replay @
      delivered (runNested [Claim_replay, Activate True True [], Event_committed (sampleEvent 3) (Answer [Close_handoff] True)] h))"
proof -
  obtain h replay where h: "openHandoff sampleBudget sampleId None (js ''reader'') False True False (Some None) []
      (quietMoments (sampleDatabase 2)) = Some (Inr h)" "handoffReplay h = Some replay" "snapshotEvents replay = [sampleEvent 1, sampleEvent 2]"
    by (rule sample_handoff)
  from handoff_stream_is_gapless [OF h(1),
      of "[Claim_replay, Activate True True [], Event_committed (sampleEvent 3) (Answer [Close_handoff] True)]"] h
  show ?thesis by (auto simp: Let_def)
qed

text \<open>C3: On a repository that nothing else writes to, opening a handoff returns, and with the log: after any history of
  operations, for a reader whose cursor is committed, the loop over the pages ends and the replay is every event of the log
  after the reader's cursor; only a log beyond the replay limits is refused, as too large.\<close>

theorem handoff_replays_log:
  assumes "\<forall>op \<in> set ops. normalOp op" "db = runSteps repositoryStep ops emptyDatabase"
    "absLog sid db = Some es" "repositoryRequire db sid = Inr s"
    "lifecycleState (projectionSession (stateProjection s)) \<noteq> MS_archived"
    "parseOpenInput sid after subscriber = Inr sid" "opt0 after \<le> lastCursor es" "observedIn observed es"
  shows "if fitsReplay budget (logAfter after es)
    then \<exists>h replay. openHandoff budget sid after subscriber False True False (Some observed) [] (quietMoments db) = Some (Inr h) \<and>
      handoffReplay h = Some replay \<and> snapshotEvents replay = logAfter after es
    else \<exists>e. openHandoff budget sid after subscriber False True False (Some observed) [] (quietMoments db) = Some (Inl e) \<and>
      (e = Event_too_large \<or> e = Replay_limit)"
proof -
  have "storedOk db" unfolding assms(2) by (rule run_stored [OF assms(1) emptyDatabase_stored])
  from open_log [OF this assms(3-8)] show ?thesis .
qed

theorem handoff_replays_log_witness:
  "\<exists>h replay. openHandoff sampleBudget sampleId None (js ''reader'') False True False (Some (Some 1)) [] (quietMoments (sampleDatabase 2)) =
      Some (Inr h) \<and> handoffReplay h = Some replay \<and> snapshotEvents replay = [sampleEvent 1, sampleEvent 2]"
proof -
  have l: "lifecycleState (projectionSession (stateProjection \<lparr> stateMapping = sampleMapping, stateProjection = sampleProjection 2 \<rparr>)) \<noteq> MS_archived"
    using sample_projection [of 2] by (simp add: sampleSession_def del: sampleProjection.simps)
  have c: "opt0 None \<le> lastCursor [sampleEvent 1, sampleEvent 2]" "observedIn (Some 1) [sampleEvent 1, sampleEvent 2]"
    by (simp_all add: lastCursor_def sampleEvent_def observedIn_def)
  have "(2::nat) \<le> 3" by simp
  from handoff_replays_log [OF sample_ops_normal [OF this] sample_run [symmetric] sample_log sample_required l sample_open c, of sampleBudget]
  show ?thesis using sample_fits by (simp add: logAfter_def)
qed

end
