(* ===== verification/Sha256.thy ===== *)
theory Sha256
  imports Prelude "HOL-Library.Word"
begin

unbundle bit_operations_syntax

text \<open>
  \<open>createHash("sha256").update(text).digest("hex")\<close> of the standard library: the UTF-8 bytes of a
  string (a lone surrogate is written as U+FFFD), SHA-256 over them on 32-bit words, and the
  lowercase hexadecimal text of the digest.
\<close>

section \<open>Bytes\<close>

definition utf8Of :: "nat \<Rightarrow> nat list" where
  "utf8Of c =
     (if c < 128 then [c]
      else if c < 2048 then [192 + c div 64, 128 + c mod 64]
      else if c < 65536 then [224 + c div 4096, 128 + c div 64 mod 64, 128 + c mod 64]
      else [240 + c div 262144, 128 + c div 4096 mod 64, 128 + c div 64 mod 64, 128 + c mod 64])"

text \<open>The code points of a string; a lone surrogate is its own code point.\<close>

definition highUnit :: "nat \<Rightarrow> bool" where "highUnit c \<longleftrightarrow> 55296 \<le> c \<and> c \<le> 56319"
definition lowUnit :: "nat \<Rightarrow> bool" where "lowUnit c \<longleftrightarrow> 56320 \<le> c \<and> c \<le> 57343"

fun codePoints :: "js_string \<Rightarrow> nat list" where
  "codePoints [] = []"
| "codePoints [c] = [c]"
| "codePoints (c # d # s) =
     (if highUnit c \<and> lowUnit d then (65536 + (c - 55296) * 1024 + (d - 56320)) # codePoints s else c # codePoints (d # s))"

definition utf8Bytes :: "js_string \<Rightarrow> nat list" where
  "utf8Bytes s = concat (map (\<lambda>c. utf8Of (if highUnit c \<or> lowUnit c then 65533 else c)) (codePoints s))"

section \<open>The hash\<close>

type_synonym w32 = "32 word"

text \<open>The constants are the first bits of the fractions of the roots of the primes.\<close>

definition shaPrimes :: "nat list" where
  "shaPrimes = filter (\<lambda>n. list_all (\<lambda>d. n mod d \<noteq> 0) [2..<n]) [2..<312]"

fun rootBits :: "nat \<Rightarrow> nat \<Rightarrow> int \<Rightarrow> int \<Rightarrow> int" where
  "rootBits e 0 x r = r"
| "rootBits e (Suc n) x r = rootBits e n x (if (r + 2 ^ n) ^ e \<le> x then r + 2 ^ n else r)"

definition shaConstants :: "w32 list" where
  "shaConstants = map (\<lambda>p. word_of_int (rootBits 3 36 (int p * 2 ^ 96) 0)) shaPrimes"

definition shaInitial :: "w32 list" where
  "shaInitial = map (\<lambda>p. word_of_int (rootBits 2 36 (int p * 2 ^ 64) 0)) (take 8 shaPrimes)"

definition bytesBE :: "nat \<Rightarrow> nat \<Rightarrow> nat list" where
  "bytesBE n k = map (\<lambda>i. k div 256 ^ (n - 1 - i) mod 256) [0..<n]"

definition shaPad :: "nat list \<Rightarrow> nat list" where
  "shaPad bytes = bytes @ [128] @ replicate ((119 - length bytes mod 64) mod 64) 0 @ bytesBE 8 (8 * length bytes)"

fun shaWords :: "nat list \<Rightarrow> w32 list" where
  "shaWords (a # b # c # d # s) = word_of_nat (((a * 256 + b) * 256 + c) * 256 + d) # shaWords s"
| "shaWords _ = []"

text \<open>The message schedule, newest word first.\<close>

fun shaSchedule :: "nat \<Rightarrow> w32 list \<Rightarrow> w32 list" where
  "shaSchedule 0 ws = ws"
| "shaSchedule (Suc n) ws =
     (let a = ws ! 14; b = ws ! 1;
          s0 = word_rotr 7 a XOR word_rotr 18 a XOR drop_bit 3 a;
          s1 = word_rotr 17 b XOR word_rotr 19 b XOR drop_bit 10 b
      in shaSchedule n ((ws ! 15 + s0 + ws ! 6 + s1) # ws))"

fun shaRound :: "w32 \<times> w32 \<Rightarrow> w32 list \<Rightarrow> w32 list" where
  "shaRound (k, w) [a, b, c, d, e, f, g, h] =
     (let s1 = word_rotr 6 e XOR word_rotr 11 e XOR word_rotr 25 e;
          ch = (e AND f) XOR (NOT e AND g);
          t1 = h + s1 + ch + k + w;
          s0 = word_rotr 2 a XOR word_rotr 13 a XOR word_rotr 22 a;
          maj = (a AND b) XOR (a AND c) XOR (b AND c)
      in [t1 + (s0 + maj), a, b, c, d + t1, e, f, g])"
| "shaRound _ hs = hs"

definition shaBlock :: "w32 list \<Rightarrow> w32 list \<Rightarrow> w32 list" where
  "shaBlock hs block = map2 (+) hs (fold shaRound (zip shaConstants (rev (shaSchedule 48 (rev block)))) hs)"

fun shaBlocks :: "nat \<Rightarrow> w32 list \<Rightarrow> w32 list \<Rightarrow> w32 list" where
  "shaBlocks 0 words hs = hs"
| "shaBlocks (Suc n) words hs = shaBlocks n (drop 16 words) (shaBlock hs (take 16 words))"

definition hexNibble :: "nat \<Rightarrow> nat" where
  "hexNibble n = (if n < 10 then 48 + n else 87 + n)"

definition hexByte :: "nat \<Rightarrow> js_string" where
  "hexByte n = [hexNibble (n div 16 mod 16), hexNibble (n mod 16)]"

definition hexWord :: "w32 \<Rightarrow> js_string" where
  "hexWord w = concat (map hexByte (bytesBE 4 (unat w)))"

definition sha256Bytes :: "nat list \<Rightarrow> js_string" where
  "sha256Bytes bytes =
     (let words = shaWords (shaPad bytes) in
      concat (map hexWord (take 8 (shaBlocks (length words div 16) words shaInitial))))"

definition sha256 :: "js_string \<Rightarrow> js_string" where
  "sha256 text = sha256Bytes (utf8Bytes text)"

section \<open>The text of a digest\<close>

definition isHexUnit :: "nat \<Rightarrow> bool" where
  "isHexUnit c \<longleftrightarrow> isDigit c \<or> 97 \<le> c \<and> c \<le> 102"

lemma hexByte_units: "list_all isHexUnit (hexByte n)" "length (hexByte n) = 2"
  by (auto simp: hexByte_def hexNibble_def isHexUnit_def isDigit_def)

lemma hexWord_units: "list_all isHexUnit (hexWord w)" "length (hexWord w) = 8"
proof -
  have "length (concat (map hexByte bs)) = 2 * length bs" for bs by (induction bs) (simp_all add: hexByte_units)
  then show "length (hexWord w) = 8" by (simp add: hexWord_def bytesBE_def del: map_map)
  show "list_all isHexUnit (hexWord w)" using hexByte_units(1) by (auto simp: hexWord_def list_all_iff)
qed

lemma shaRound_length: "length hs = 8 \<Longrightarrow> length (shaRound kw hs) = 8"
  by (cases "(kw, hs)" rule: shaRound.cases) (auto simp: Let_def)

lemma shaBlock_length: "length hs = 8 \<Longrightarrow> length (shaBlock hs block) = 8"
proof -
  have "length hs = 8 \<Longrightarrow> length (fold shaRound kws hs) = 8" for kws hs
    by (induction kws arbitrary: hs) (simp_all add: shaRound_length)
  then show "length hs = 8 \<Longrightarrow> ?thesis" by (simp add: shaBlock_def)
qed

lemma shaBlocks_length: "length hs = 8 \<Longrightarrow> length (shaBlocks n words hs) = 8"
  by (induction n arbitrary: words hs) (simp_all add: shaBlock_length)

lemma shaInitial_length: "length shaInitial = 8"
proof -
  have eight: "length (filter (\<lambda>n. list_all (\<lambda>d. n mod d \<noteq> 0) [2..<n]) [2..<20]) = 8" by code_simp
  have split: "[2..<312] = [2..<20] @ [20..<312 :: nat]" using upt_add_eq_append [of 2 20 292] by simp
  have "8 \<le> length shaPrimes" by (simp only: shaPrimes_def split filter_append length_append eight le_add1)
  then show ?thesis by (simp add: shaInitial_def)
qed

lemma sha256_text: "list_all isHexUnit (sha256 text)" "length (sha256 text) = 64"
proof -
  obtain hs where hs: "sha256 text = concat (map hexWord hs)" "length hs = 8"
    by (simp add: sha256_def sha256Bytes_def Let_def) (metis length_take min.idem shaBlocks_length shaInitial_length)
  have "length (concat (map hexWord hs)) = 8 * length hs" by (induction hs) (simp_all add: hexWord_units)
  then show "length (sha256 text) = 64" using hs by simp
  show "list_all isHexUnit (sha256 text)" using hexWord_units(1) unfolding hs(1) by (auto simp: list_all_iff)
qed

end
