(* ===== verification/Auth_Devices.thy ===== *)
theory Auth_Devices
  imports Sha256 State_Repository
begin

text \<open>
  \<open>packages/storage/src/auth-repository.ts\<close> and \<open>selected-device-revocation-repository.ts\<close>: the
  devices that may use the host. A device is authenticated by its token, authorized to write by
  its CSRF token and generation, given a new CSRF token, and revoked. A transaction that throws is
  rolled back.

  A \<open>Date\<close> is its time value, \<open>None\<close> when it is invalid. What a generator of secrets returns is an
  argument of the operation that calls it, \<open>None\<close> when it throws. The checks that an input is a
  plain object with the exact keys have no counterpart in the typed model.
\<close>

section \<open>Errors\<close>

datatype auth_error =
  Authentication_conflict | Authentication_failed | Csrf_generation_exhausted | Csrf_mismatch | Csrf_rotation_conflict
| Csrf_rotation_failed | Device_exists | Device_expired | Device_list_failed | Device_not_found | Device_revoke_failed
| Device_revoke_time_conflict | Device_revoked | Duplicate_secret | Invalid_auth_device | Invalid_csrf_authorization
| Invalid_device_list | Invalid_device_revoke | Invalid_secret | Invalid_time | Invalid_pairing_code | Pairing_code_exists
| Pairing_code_expired | Pairing_code_legacy | Pairing_code_not_found | Pairing_code_revoked | Pairing_code_used
| Pairing_claim_capacity | Pairing_claim_failed | Pairing_claim_rate_limited | Pairing_claim_time_conflict
| Pairing_issue_failed | Invalid_pairing_policy | Invalid_pairing_rate_state | Invalid_pairing_source | Auth_read_only
| Sqlite_failure

text \<open>\<open>Sqlite_failure\<close> is not a code: it stands for an error of the database.\<close>

type_synonym 'a auth_outcome = "auth_error + 'a"

section \<open>Dates\<close>

text \<open>
  \<open>Date.parse\<close> of the texts \<open>toISOString\<close> writes, those of the years beyond 9999 or before 0 included,
  and of the timestamps the schema accepts.
\<close>

definition dateOf :: "js_string \<Rightarrow> int option" where
  "dateOf s =
     (case instantOf s of
        Some t \<Rightarrow> Some t
      | None \<Rightarrow>
          (case s of
             [] \<Rightarrow> None
           | c # r \<Rightarrow>
               if c = 43 \<or> c = 45 then
                 do { (y, rest) \<leftarrow> takeDigits 6 r;
                      m \<leftarrow> isoTimestampPattern (js ''2000'' @ rest);
                      let m = m\<lparr> year := (if c = 45 then - y else y) \<rparr>;
                      if calendarOk m then Some (dateParse m) else None }
               else None))"

definition dateOfNullable :: "js_string option \<Rightarrow> int option" where
  "dateOfNullable v = (case v of None \<Rightarrow> None | Some s \<Rightarrow> dateOf s)"

text \<open>\<open><\<close> and \<open><=\<close> on times: false when one of them is \<open>null\<close> or \<open>NaN\<close>.\<close>

definition timeLess :: "int option \<Rightarrow> int option \<Rightarrow> bool" where
  "timeLess a b = (case (a, b) of (Some x, Some y) \<Rightarrow> x < y | _ \<Rightarrow> False)"

definition timeLessEq :: "int option \<Rightarrow> int option \<Rightarrow> bool" where
  "timeLessEq a b = (case (a, b) of (Some x, Some y) \<Rightarrow> x \<le> y | _ \<Rightarrow> False)"

definition nowIso :: "int option \<Rightarrow> (int \<times> js_string) auth_outcome" where
  "nowIso now = (case now of None \<Rightarrow> Inl Invalid_time | Some t \<Rightarrow> Inr (t, toISOString t))"

section \<open>Records\<close>

datatype auth_permission = Permission_read | Permission_write

record auth_device =
  adId :: js_string
  adTokenHash :: js_string
  adCsrfHash :: js_string
  adGeneration :: int
  adRotatedAt :: js_string
  adLabel :: "js_string option"
  adPermission :: auth_permission
  adCreatedAt :: js_string
  adLastUsedAt :: "js_string option"
  adExpiresAt :: "js_string option"
  adRevokedAt :: "js_string option"

definition recordIdOk :: "js_string \<Rightarrow> bool" where
  "recordIdOk s \<longleftrightarrow> 1 \<le> length s \<and> length s \<le> 120"

definition labelOk :: "js_string option \<Rightarrow> bool" where
  "labelOk v = (case v of None \<Rightarrow> True | Some s \<Rightarrow> 1 \<le> length s \<and> length s \<le> 120)"

definition secretHashOk :: "js_string \<Rightarrow> bool" where
  "secretHashOk s \<longleftrightarrow> 32 \<le> length s \<and> length s \<le> 256 \<and> list_all (\<lambda>c. \<not> isWhitespace c) s"

definition deviceTimesOk :: "auth_device \<Rightarrow> bool" where
  "deviceTimesOk d \<longleftrightarrow>
     (let created = dateOf (adCreatedAt d); rotated = dateOf (adRotatedAt d); expires = dateOfNullable (adExpiresAt d);
          used = dateOfNullable (adLastUsedAt d); revoked = dateOfNullable (adRevokedAt d)
      in \<not> timeLess rotated created \<and> \<not> timeLess used created \<and> \<not> timeLessEq expires used \<and> \<not> timeLess expires created \<and>
         \<not> timeLess expires rotated \<and> \<not> timeLess revoked created \<and> \<not> timeLess revoked rotated \<and> \<not> timeLess revoked used)"

definition authDeviceRecordSchema :: "auth_device \<Rightarrow> auth_device option" where
  "authDeviceRecordSchema v =
     do {
       _ \<leftarrow> guard (recordIdOk (adId v) \<and> secretHashOk (adTokenHash v) \<and> secretHashOk (adCsrfHash v) \<and>
                  1 \<le> adGeneration v \<and> adGeneration v \<le> maxSafe \<and> labelOk (adLabel v));
       rotated \<leftarrow> isoTimestampSchema (adRotatedAt v);
       created \<leftarrow> isoTimestampSchema (adCreatedAt v);
       used \<leftarrow> nullable isoTimestampSchema (adLastUsedAt v);
       expires \<leftarrow> nullable isoTimestampSchema (adExpiresAt v);
       revoked \<leftarrow> nullable isoTimestampSchema (adRevokedAt v);
       let d = v\<lparr> adRotatedAt := rotated, adCreatedAt := created, adLastUsedAt := used, adExpiresAt := expires, adRevokedAt := revoked \<rparr>;
       _ \<leftarrow> guard (deviceTimesOk d);
       Some d
     }"

definition parseAuthDevice :: "auth_device \<Rightarrow> auth_device auth_outcome" where
  "parseAuthDevice d = (case authDeviceRecordSchema d of None \<Rightarrow> Inl Invalid_auth_device | Some d \<Rightarrow> Inr d)"

section \<open>Secrets\<close>

definition assertRawSecret :: "nat \<Rightarrow> js_string \<Rightarrow> unit auth_outcome" where
  "assertRawSecret minLength secret =
     throwIf (length secret < minLength \<or> length secret > 512 \<or> list_ex isWhitespace secret) Invalid_secret"

definition hashText :: "js_string \<Rightarrow> js_string" where
  "hashText secret = js ''sha256:'' @ sha256 secret"

definition hashSecret :: "nat \<Rightarrow> js_string \<Rightarrow> js_string auth_outcome" where
  "hashSecret minLength secret = andThen (assertRawSecret minLength secret) (\<lambda>_. Inr (hashText secret))"

definition deviceSecretMinLength :: nat where "deviceSecretMinLength = 24"

definition hashDeviceToken :: "js_string \<Rightarrow> js_string auth_outcome" where
  "hashDeviceToken raw = hashSecret deviceSecretMinLength raw"

definition hashCsrfToken :: "js_string \<Rightarrow> js_string auth_outcome" where
  "hashCsrfToken raw = hashSecret deviceSecretMinLength raw"

definition hashMatches :: "js_string \<Rightarrow> js_string \<Rightarrow> bool auth_outcome" where
  "hashMatches expectedHash secret = andThen (hashCsrfToken secret) (\<lambda>actual. Inr (expectedHash = actual))"

text \<open>\<open>[A-Za-z0-9_-]\<close>\<close>

definition urlUnit :: "nat \<Rightarrow> bool" where
  "urlUnit c \<longleftrightarrow> isLetter c \<or> isDigit c \<or> c = 95 \<or> c = 45"

definition selectedRawDeviceSecretSchema :: "js_string \<Rightarrow> bool" where
  "selectedRawDeviceSecretSchema s \<longleftrightarrow> length s = 43 \<and> list_all urlUnit s"

definition selectedDeviceIdSchema :: "js_string \<Rightarrow> bool" where
  "selectedDeviceIdSchema s \<longleftrightarrow>
     1 \<le> length s \<and> length s \<le> 120 \<and> list_all (\<lambda>c. isLetter c \<or> isDigit c \<or> c = 95 \<or> c = 46 \<or> c = 58 \<or> c = 45) s"

section \<open>The tables\<close>

record pairing_code =
  pcId :: js_string
  pcHash :: js_string
  pcPermission :: auth_permission
  pcLabel :: "js_string option"
  pcCreatedAt :: js_string
  pcExpiresAt :: js_string
  pcUsedAt :: "js_string option"
  pcRevokedAt :: "js_string option"
  pcVersion :: "int option"
  pcDevice :: "js_string option"

text \<open>A record of the rate of attempts; the global one has the key of its literal id.\<close>

record rate_record =
  rateKey :: js_string
  rateStartedAt :: js_string
  rateCount :: int
  rateLastAt :: js_string

record auth_tables =
  deviceRows :: "auth_device list"
  pairingRows :: "pairing_code list"
  sourceRows :: "rate_record list"
  globalRow :: "rate_record option"

definition emptyTables :: auth_tables where
  "emptyTables = \<lparr> deviceRows = [], pairingRows = [], sourceRows = [], globalRow = None \<rparr>"

definition immediate :: "(auth_tables \<Rightarrow> ('a \<times> auth_tables) auth_outcome) \<Rightarrow> auth_tables \<Rightarrow> 'a auth_outcome \<times> auth_tables" where
  "immediate f db = (case f db of Inl e \<Rightarrow> (Inl e, db) | Inr (x, db') \<Rightarrow> (Inr x, db'))"

text \<open>\<open>UPDATE\<close> with the number of changed rows.\<close>

definition updateRows :: "('r \<Rightarrow> bool) \<Rightarrow> ('r \<Rightarrow> 'r) \<Rightarrow> 'r list \<Rightarrow> nat \<times> 'r list" where
  "updateRows p f rows = (length (filter p rows), map (\<lambda>r. if p r then f r else r) rows)"

section \<open>Devices\<close>

definition deviceGet :: "js_string \<Rightarrow> auth_tables \<Rightarrow> auth_device option auth_outcome" where
  "deviceGet ident db =
     (case find (\<lambda>d. adId d = ident) (deviceRows db) of
        None \<Rightarrow> Inr None
      | Some row \<Rightarrow> andThen (parseAuthDevice row) (\<lambda>d. Inr (Some d)))"

definition deviceRequire :: "js_string \<Rightarrow> auth_tables \<Rightarrow> auth_device auth_outcome" where
  "deviceRequire ident db =
     andThen (deviceGet ident db) (\<lambda>d. case d of None \<Rightarrow> Inl Device_not_found | Some d \<Rightarrow> Inr d)"

definition authDeviceFromInput ::
  "js_string \<Rightarrow> js_string \<Rightarrow> js_string \<Rightarrow> auth_permission \<Rightarrow> js_string option \<Rightarrow> int option \<Rightarrow> int option option \<Rightarrow>
     auth_device auth_outcome" where
  "authDeviceFromInput ident rawDeviceToken rawCsrfToken permission label madeAt expiry =
     andThen (nowIso madeAt) (\<lambda>(_, created).
     andThen (hashDeviceToken rawDeviceToken) (\<lambda>token.
     andThen (hashCsrfToken rawCsrfToken) (\<lambda>csrf.
     andThen (case expiry of None \<Rightarrow> Inr None | Some d \<Rightarrow> andThen (nowIso d) (\<lambda>(_, s). Inr (Some s))) (\<lambda>expires.
     parseAuthDevice
       \<lparr> adId = ident, adTokenHash = token, adCsrfHash = csrf, adGeneration = 1, adRotatedAt = created, adLabel = label,
         adPermission = permission, adCreatedAt = created, adLastUsedAt = None, adExpiresAt = expires, adRevokedAt = None \<rparr>))))"

text \<open>The token's uniqueness is checked before that of the id; \<open>mapAuthDeviceConstraint\<close> names the error.\<close>

definition insertAuthDevice :: "auth_device \<Rightarrow> auth_tables \<Rightarrow> (auth_device \<times> auth_tables) auth_outcome" where
  "insertAuthDevice d db =
     (if adTokenHash d \<in> set (map adTokenHash (deviceRows db)) then Inl Duplicate_secret
      else if adId d \<in> set (map adId (deviceRows db)) then Inl Device_exists
      else Inr (d, db\<lparr> deviceRows := deviceRows db @ [d] \<rparr>))"

definition usableDevice :: "auth_device option \<Rightarrow> int option \<Rightarrow> auth_device auth_outcome" where
  "usableDevice row now =
     (case row of
        None \<Rightarrow> Inl Device_not_found
      | Some row \<Rightarrow>
          andThen (parseAuthDevice row) (\<lambda>d.
          andThen (throwIf (adRevokedAt d \<noteq> None) Device_revoked) (\<lambda>_.
          andThen (throwIf (timeLessEq (dateOfNullable (adExpiresAt d)) now) Device_expired) (\<lambda>_. Inr d))))"

definition requireUsableDeviceByToken :: "js_string \<Rightarrow> int option \<Rightarrow> auth_tables \<Rightarrow> auth_device auth_outcome" where
  "requireUsableDeviceByToken rawDeviceToken now db =
     andThen (hashDeviceToken rawDeviceToken) (\<lambda>token.
       usableDevice (find (\<lambda>d. adTokenHash d = token) (deviceRows db)) now)"

definition requireUsableDeviceById :: "js_string \<Rightarrow> int option \<Rightarrow> auth_tables \<Rightarrow> auth_device auth_outcome" where
  "requireUsableDeviceById ident now db = usableDevice (find (\<lambda>d. adId d = ident) (deviceRows db)) now"

definition advanceLastUsedAt :: "auth_device \<Rightarrow> int \<Rightarrow> auth_tables \<Rightarrow> (auth_device \<times> auth_tables) auth_outcome" where
  "advanceLastUsedAt current observedMs db =
     andThen (throwIf (timeLess (Some observedMs) (dateOf (adCreatedAt current))) Invalid_time) (\<lambda>_.
     andThen (throwIf (timeLess (Some observedMs) (dateOfNullable (adLastUsedAt current))) Authentication_conflict) (\<lambda>_.
     if dateOfNullable (adLastUsedAt current) = Some observedMs then Inr (current, db)
     else
       (case updateRows
          (\<lambda>r. adId r = adId current \<and> adTokenHash r = adTokenHash current \<and> adCsrfHash r = adCsrfHash current \<and>
             adGeneration r = adGeneration current \<and> adPermission r = adPermission current \<and>
             adExpiresAt r = adExpiresAt current \<and> adRevokedAt r = adRevokedAt current \<and> adLastUsedAt r = adLastUsedAt current)
          (\<lambda>r. r\<lparr> adLastUsedAt := Some (toISOString observedMs) \<rparr>) (deviceRows db) of
          (changes, rows) \<Rightarrow>
            andThen (throwIf (changes \<noteq> 1) Authentication_conflict) (\<lambda>_.
            (case find (\<lambda>d. adId d = adId current) rows of
               None \<Rightarrow> Inl Authentication_conflict
             | Some row \<Rightarrow> andThen (parseAuthDevice row) (\<lambda>d. Inr (d, db\<lparr> deviceRows := rows \<rparr>)))))))"

text \<open>\<open>authenticateDeviceToken\<close>; the answer says whether the device may only read.\<close>

definition authenticateDeviceToken :: "js_string \<Rightarrow> int option \<Rightarrow> auth_tables \<Rightarrow> (bool \<times> auth_device) auth_outcome \<times> auth_tables" where
  "authenticateDeviceToken rawDeviceToken now =
     immediate (\<lambda>db.
       andThen (nowIso now) (\<lambda>(t, _).
       andThen (requireUsableDeviceByToken rawDeviceToken now db) (\<lambda>current.
       andThen (advanceLastUsedAt current t db) (\<lambda>(d, db). Inr ((adPermission d = Permission_read, d), db)))))"

section \<open>CSRF tokens\<close>

definition prepareSelectedCsrfAuthority :: "js_string \<Rightarrow> int \<Rightarrow> int option \<Rightarrow> int auth_outcome" where
  "prepareSelectedCsrfAuthority ident generation now =
     (if \<not> selectedDeviceIdSchema ident \<or> \<not> (1 \<le> generation \<and> generation \<le> maxSafe) then Inl Invalid_csrf_authorization
      else case now of None \<Rightarrow> Inl Invalid_csrf_authorization | Some t \<Rightarrow> Inr t)"

definition generateCsrf :: "js_string option \<Rightarrow> js_string auth_outcome" where
  "generateCsrf generated =
     (case generated of
        None \<Rightarrow> Inl Csrf_rotation_failed
      | Some raw \<Rightarrow> if selectedRawDeviceSecretSchema raw then Inr raw else Inl Csrf_rotation_failed)"

definition rotateCurrentCsrf ::
  "auth_device \<Rightarrow> int \<Rightarrow> js_string option \<Rightarrow> auth_tables \<Rightarrow> ((js_string \<times> js_string \<times> int) \<times> auth_tables) auth_outcome" where
  "rotateCurrentCsrf current rotatedMs generated db =
     andThen (throwIf (timeLess (Some rotatedMs) (dateOf (adRotatedAt current))) Csrf_rotation_conflict) (\<lambda>_.
     andThen (throwIf (adGeneration current \<ge> maxSafe) Csrf_generation_exhausted) (\<lambda>_.
     andThen (generateCsrf generated) (\<lambda>raw.
     andThen (hashCsrfToken raw) (\<lambda>csrf.
     andThen (throwIf (csrf \<in> set (map adCsrfHash (deviceRows db))) Duplicate_secret) (\<lambda>_.
     (case updateRows (\<lambda>r. adId r = adId current \<and> adGeneration r = adGeneration current)
        (\<lambda>r. r\<lparr> adCsrfHash := csrf, adGeneration := adGeneration current + 1, adRotatedAt := toISOString rotatedMs \<rparr>)
        (deviceRows db) of
        (changes, rows) \<Rightarrow>
          andThen (throwIf (changes \<noteq> 1) Csrf_rotation_conflict) (\<lambda>_.
          Inr ((adId current, raw, adGeneration current + 1), db\<lparr> deviceRows := rows \<rparr>))))))))"

definition rotateBootstrap ::
  "js_string \<Rightarrow> int \<Rightarrow> int option \<Rightarrow> js_string option \<Rightarrow> auth_tables \<Rightarrow>
     (js_string \<times> js_string \<times> int) auth_outcome \<times> auth_tables" where
  "rotateBootstrap ident generation now generated =
     immediate (\<lambda>db.
       andThen (prepareSelectedCsrfAuthority ident generation now) (\<lambda>t.
       andThen (requireUsableDeviceById ident (Some t) db) (\<lambda>current.
       andThen (throwIf (adGeneration current \<noteq> generation) Csrf_rotation_conflict) (\<lambda>_.
       rotateCurrentCsrf current t generated db))))"

definition authorizeBrowserWrite ::
  "js_string \<Rightarrow> int \<Rightarrow> int option \<Rightarrow> js_string \<Rightarrow> auth_tables \<Rightarrow> auth_device auth_outcome \<times> auth_tables" where
  "authorizeBrowserWrite ident generation now rawCsrfToken =
     immediate (\<lambda>db.
       andThen (prepareSelectedCsrfAuthority ident generation now) (\<lambda>t.
       andThen (throwIf (\<not> selectedRawDeviceSecretSchema rawCsrfToken) Invalid_csrf_authorization) (\<lambda>_.
       andThen (requireUsableDeviceById ident (Some t) db) (\<lambda>current.
       andThen (throwIf (adPermission current = Permission_read) Auth_read_only) (\<lambda>_.
       andThen
         (if adGeneration current \<noteq> generation then Inr False else hashMatches (adCsrfHash current) rawCsrfToken) (\<lambda>matches.
       andThen (throwIf (\<not> matches) Csrf_mismatch) (\<lambda>_. advanceLastUsedAt current t db)))))))"

section \<open>Revocation\<close>

definition assertNonRegressingRevocationTime :: "auth_device \<Rightarrow> int \<Rightarrow> unit auth_outcome" where
  "assertNonRegressingRevocationTime d now =
     throwIf
       (timeLess (Some now) (dateOf (adCreatedAt d)) \<or> timeLess (Some now) (dateOf (adRotatedAt d)) \<or>
        timeLess (Some now) (dateOfNullable (adLastUsedAt d)) \<or> timeLess (Some now) (dateOfNullable (adRevokedAt d)))
       Device_revoke_time_conflict"

definition requireDevice :: "js_string \<Rightarrow> auth_tables \<Rightarrow> (auth_device \<times> auth_device) auth_outcome" where
  "requireDevice ident db =
     (case find (\<lambda>d. adId d = ident) (deviceRows db) of
        None \<Rightarrow> Inl Device_not_found
      | Some row \<Rightarrow> andThen (parseAuthDevice row) (\<lambda>d. Inr (d, row)))"

definition sameAuthorityState :: "auth_device \<Rightarrow> auth_device \<Rightarrow> bool" where
  "sameAuthorityState d d' \<longleftrightarrow> d\<lparr> adRevokedAt := None \<rparr> = d'\<lparr> adRevokedAt := None \<rparr>"

definition revocationResult :: "js_string \<Rightarrow> js_string \<Rightarrow> bool \<Rightarrow> (js_string \<times> js_string \<times> bool) auth_outcome" where
  "revocationResult ident revokedAt previously =
     (if \<not> selectedDeviceIdSchema ident then Inl Device_revoke_failed
      else case isoTimestampSchema revokedAt of None \<Rightarrow> Inl Device_revoke_failed | Some when \<Rightarrow> Inr (ident, when, previously))"

text \<open>\<open>revoke\<close>: its error codes are those its sanitizer keeps.\<close>

definition revokeDevice ::
  "js_string \<Rightarrow> int option \<Rightarrow> auth_tables \<Rightarrow> (js_string \<times> js_string \<times> bool) auth_outcome \<times> auth_tables" where
  "revokeDevice ident now =
     immediate (\<lambda>db.
       if \<not> selectedDeviceIdSchema ident then Inl Invalid_device_revoke
       else case now of
         None \<Rightarrow> Inl Invalid_time
       | Some t \<Rightarrow>
           andThen (requireDevice ident db) (\<lambda>(current, row).
           andThen (assertNonRegressingRevocationTime current t) (\<lambda>_.
           case adRevokedAt current of
             Some when \<Rightarrow> andThen (revocationResult (adId current) when True) (\<lambda>r. Inr (r, db))
           | None \<Rightarrow>
               (case updateRows (\<lambda>r. r = row \<and> adRevokedAt r = None) (\<lambda>r. r\<lparr> adRevokedAt := Some (toISOString t) \<rparr>) (deviceRows db) of
                  (changes, rows) \<Rightarrow>
                    andThen (throwIf (changes \<noteq> 1) Device_revoke_failed) (\<lambda>_.
                    andThen (requireDevice ident (db\<lparr> deviceRows := rows \<rparr>)) (\<lambda>(revoked, _).
                    andThen
                      (throwIf (adRevokedAt revoked \<noteq> Some (toISOString t) \<or> \<not> sameAuthorityState current revoked) Device_revoke_failed) (\<lambda>_.
                    andThen (revocationResult (adId revoked) (toISOString t) False) (\<lambda>r. Inr (r, db\<lparr> deviceRows := rows \<rparr>)))))))))"

end
