(* ===== verification/Pairing_Codes.thy ===== *)
theory Pairing_Codes
  imports Auth_Devices
begin

text \<open>
  \<open>packages/storage/src/selected-pairing-repository.ts\<close>: the codes that pair a device with the host.
  A code is issued, claimed once for a device with its secrets, or revoked. Claims are counted for
  each source and for all sources together, in fixed windows; a claim that is rejected is counted
  and a claim that throws is rolled back.
\<close>

section \<open>Schemas\<close>

definition selectedRawPairingCodeSchema :: "js_string \<Rightarrow> bool" where
  "selectedRawPairingCodeSchema s \<longleftrightarrow> length s = 22 \<and> list_all urlUnit s"

text \<open>\<open>/^sha256:[a-f0-9]{64}$/u\<close>, of hashes and of the keys of sources.\<close>

definition selectedHashPattern :: "js_string \<Rightarrow> bool" where
  "selectedHashPattern s \<longleftrightarrow> startsWith s (js ''sha256:'') \<and> length s = 71 \<and> list_all isHexUnit (drop 7 s)"

text \<open>The code points of the categories Cc, Cf, Zl and Zp.\<close>

definition invalidLabelPoint :: "nat \<Rightarrow> bool" where
  "invalidLabelPoint c \<longleftrightarrow>
     c \<le> 31 \<or> 127 \<le> c \<and> c \<le> 159 \<or> c = 173 \<or> 1536 \<le> c \<and> c \<le> 1541 \<or> c = 1564 \<or> c = 1757 \<or> c = 1807 \<or>
     c = 2192 \<or> c = 2193 \<or> c = 2274 \<or> c = 6158 \<or> 8203 \<le> c \<and> c \<le> 8207 \<or> 8232 \<le> c \<and> c \<le> 8238 \<or>
     8288 \<le> c \<and> c \<le> 8292 \<or> 8294 \<le> c \<and> c \<le> 8303 \<or> c = 65279 \<or> 65529 \<le> c \<and> c \<le> 65531 \<or> c = 69821 \<or> c = 69837 \<or>
     78896 \<le> c \<and> c \<le> 78911 \<or> 113824 \<le> c \<and> c \<le> 113827 \<or> 119155 \<le> c \<and> c \<le> 119162 \<or> c = 917505 \<or>
     917536 \<le> c \<and> c \<le> 917631"

definition pairingClientLabelSchema :: "js_string option \<Rightarrow> bool" where
  "pairingClientLabelSchema v =
     (case v of
        None \<Rightarrow> True
      | Some s \<Rightarrow> 1 \<le> length s \<and> length s \<le> 120 \<and> trim s = s \<and> \<not> list_ex invalidLabelPoint (codePoints s))"

definition pairingCodeOk :: "pairing_code \<Rightarrow> bool" where
  "pairingCodeOk p \<longleftrightarrow>
     (let created = dateOf (pcCreatedAt p); expires = dateOf (pcExpiresAt p);
          used = dateOfNullable (pcUsedAt p); revoked = dateOfNullable (pcRevokedAt p)
      in \<not> timeLess used created \<and> \<not> timeLess revoked created \<and>
         (if pcVersion p = None then pcDevice p = None
          else \<not> timeLessEq expires created \<and> selectedHashPattern (pcHash p) \<and>
            (pcUsedAt p = None \<longleftrightarrow> pcDevice p = None) \<and> \<not> timeLessEq expires used \<and>
            \<not> (pcUsedAt p \<noteq> None \<and> pcRevokedAt p \<noteq> None)))"

definition pairingCodeRecordSchema :: "pairing_code \<Rightarrow> pairing_code option" where
  "pairingCodeRecordSchema v =
     do {
       _ \<leftarrow> guard (recordIdOk (pcId v) \<and> secretHashOk (pcHash v) \<and> labelOk (pcLabel v) \<and>
                  (pcVersion v = None \<or> pcVersion v = Some 1) \<and>
                  (case pcDevice v of None \<Rightarrow> True | Some d \<Rightarrow> recordIdOk d));
       created \<leftarrow> isoTimestampSchema (pcCreatedAt v);
       expires \<leftarrow> isoTimestampSchema (pcExpiresAt v);
       used \<leftarrow> nullable isoTimestampSchema (pcUsedAt v);
       revoked \<leftarrow> nullable isoTimestampSchema (pcRevokedAt v);
       let p = v\<lparr> pcCreatedAt := created, pcExpiresAt := expires, pcUsedAt := used, pcRevokedAt := revoked \<rparr>;
       _ \<leftarrow> guard (pairingCodeOk p);
       Some p
     }"

definition pairClaimGlobal :: js_string where "pairClaimGlobal = js ''pair_claim_global''"

definition rateRecordSchema :: "(js_string \<Rightarrow> bool) \<Rightarrow> rate_record \<Rightarrow> rate_record option" where
  "rateRecordSchema keyOk v =
     do {
       _ \<leftarrow> guard (keyOk (rateKey v) \<and> 1 \<le> rateCount v \<and> rateCount v \<le> maxSafe);
       started \<leftarrow> isoTimestampSchema (rateStartedAt v);
       lastAt \<leftarrow> isoTimestampSchema (rateLastAt v);
       let r = v\<lparr> rateStartedAt := started, rateLastAt := lastAt \<rparr>;
       _ \<leftarrow> guard (\<not> timeLess (dateOf lastAt) (dateOf started));
       Some r
     }"

section \<open>Inputs\<close>

text \<open>The entries of the resource budget that pairing uses.\<close>

record pair_policy =
  claimWindow :: int
  codeLifetime :: int
  maxPerSource :: int
  maxGlobal :: int
  maxTracked :: int
  stateTtl :: int

definition addMilliseconds :: "int \<Rightarrow> int \<Rightarrow> js_string auth_outcome" where
  "addMilliseconds time milliseconds =
     (let result = time + milliseconds in
      if \<bar>result\<bar> > maxSafe \<or> \<bar>result\<bar> > 8640000000000000 then Inl Invalid_time else Inr (toISOString result))"

definition parsePairingId :: "js_string \<Rightarrow> js_string auth_outcome" where
  "parsePairingId candidate = (if selectedDeviceIdSchema candidate then Inr candidate else Inl Invalid_pairing_code)"

definition parseClientLabel :: "js_string option \<Rightarrow> js_string option auth_outcome" where
  "parseClientLabel candidate = (if pairingClientLabelSchema candidate then Inr candidate else Inl Invalid_pairing_code)"

definition parseSourceKey :: "js_string \<Rightarrow> js_string auth_outcome" where
  "parseSourceKey candidate = (if selectedHashPattern candidate then Inr candidate else Inl Invalid_pairing_source)"

record issue_input =
  issueId :: js_string
  issuePermission :: auth_permission
  issueLabel :: "js_string option"
  issueCreatedAt :: "int option"

record prepared_issue =
  preparedId :: js_string
  preparedPermission :: auth_permission
  preparedLabel :: "js_string option"
  preparedCreatedAt :: js_string
  preparedExpiresAt :: js_string

definition prepareIssueInput :: "pair_policy \<Rightarrow> issue_input \<Rightarrow> prepared_issue auth_outcome" where
  "prepareIssueInput policy input =
     andThen (nowIso (issueCreatedAt input)) (\<lambda>(t, created).
     andThen (parsePairingId (issueId input)) (\<lambda>ident.
     andThen (parseClientLabel (issueLabel input)) (\<lambda>label.
     andThen (addMilliseconds t (codeLifetime policy)) (\<lambda>expires.
     Inr \<lparr> preparedId = ident, preparedPermission = issuePermission input, preparedLabel = label,
           preparedCreatedAt = created, preparedExpiresAt = expires \<rparr>))))"

record claim_input =
  claimCode :: js_string
  claimSource :: js_string
  claimNow :: "int option"
  claimLabel :: "js_string option"
  claimExpiry :: "int option option"

record prepared_claim =
  claimedCode :: js_string
  claimedSource :: js_string
  claimedAt :: js_string
  claimedMs :: int
  claimedLabel :: "js_string option"
  claimedExpiry :: "int option"

definition prepareClaimInput :: "claim_input \<Rightarrow> prepared_claim auth_outcome" where
  "prepareClaimInput input =
     andThen (throwIf (\<not> selectedRawPairingCodeSchema (claimCode input)) Invalid_secret) (\<lambda>_.
     andThen (nowIso (claimNow input)) (\<lambda>(t, when).
     andThen (case claimExpiry input of None \<Rightarrow> Inr None | Some d \<Rightarrow> andThen (nowIso d) (\<lambda>(e, _). Inr (Some e))) (\<lambda>expiry.
     andThen (throwIf (case expiry of None \<Rightarrow> False | Some e \<Rightarrow> e \<le> t) Invalid_time) (\<lambda>_.
     andThen (parseSourceKey (claimSource input)) (\<lambda>source.
     andThen (parseClientLabel (claimLabel input)) (\<lambda>label.
     Inr \<lparr> claimedCode = claimCode input, claimedSource = source, claimedAt = when, claimedMs = t, claimedLabel = label,
           claimedExpiry = expiry \<rparr>))))))"

definition generateSelectedValue :: "js_string option \<Rightarrow> (js_string \<Rightarrow> bool) \<Rightarrow> auth_error \<Rightarrow> js_string auth_outcome" where
  "generateSelectedValue generated valid failure =
     (case generated of None \<Rightarrow> Inl failure | Some s \<Rightarrow> if valid s then Inr s else Inl failure)"

definition selectedDeviceIdPattern :: "js_string \<Rightarrow> bool" where
  "selectedDeviceIdPattern s \<longleftrightarrow> startsWith s (js ''client_'') \<and> length s = 31 \<and> list_all urlUnit (drop 7 s)"

definition hashSelectedPairingCode :: "js_string \<Rightarrow> js_string auth_outcome" where
  "hashSelectedPairingCode raw = hashSecret 22 raw"

text \<open>\<open>s.includes(p)\<close>\<close>

definition includesText :: "js_string \<Rightarrow> js_string \<Rightarrow> bool" where
  "includesText s p \<longleftrightarrow> list_ex (\<lambda>k. startsWith (drop k s) p) [0..<length s + 1]"

definition assertSecretSeparation :: "js_string list \<Rightarrow> js_string option list \<Rightarrow> auth_error \<Rightarrow> unit auth_outcome" where
  "assertSecretSeparation secrets durable failure =
     throwIf
       (\<not> distinct secrets \<or> list_ex (\<lambda>secret. list_ex (\<lambda>v. case v of None \<Rightarrow> False | Some s \<Rightarrow> includesText s secret) durable) secrets)
       failure"

section \<open>Pairing rows\<close>

text \<open>The \<open>CHECK\<close> of the table; texts are compared as texts.\<close>

definition pairingRowOk :: "pairing_code \<Rightarrow> bool" where
  "pairingRowOk p \<longleftrightarrow>
     (if pcVersion p = None then pcDevice p = None
      else pcVersion p = Some 1 \<and> selectedHashPattern (pcHash p) \<and> str_less (pcCreatedAt p) (pcExpiresAt p) \<and>
        (case pcRevokedAt p of None \<Rightarrow> True | Some r \<Rightarrow> \<not> str_less r (pcCreatedAt p)) \<and>
        (case pcUsedAt p of
           None \<Rightarrow> pcDevice p = None
         | Some u \<Rightarrow> pcDevice p \<noteq> None \<and> \<not> str_less u (pcCreatedAt p) \<and> str_less u (pcExpiresAt p) \<and> pcRevokedAt p = None))"

definition insertPairingCode :: "pairing_code \<Rightarrow> auth_tables \<Rightarrow> auth_tables auth_outcome" where
  "insertPairingCode p db =
     (if pcId p \<in> set (map pcId (pairingRows db)) \<or> pcHash p \<in> set (map pcHash (pairingRows db)) \<or>
         (pcDevice p \<noteq> None \<and> pcDevice p \<in> set (map pcDevice (pairingRows db))) \<or> \<not> pairingRowOk p
      then Inl Sqlite_failure
      else Inr (db\<lparr> pairingRows := pairingRows db @ [p] \<rparr>))"

definition parseStoredPairingCode :: "pairing_code \<Rightarrow> pairing_code auth_outcome" where
  "parseStoredPairingCode row =
     (case pairingCodeRecordSchema row of None \<Rightarrow> Inl Invalid_pairing_code | Some p \<Rightarrow> Inr p)"

definition assertClaimedDeviceOwnerExists :: "auth_tables \<Rightarrow> pairing_code \<Rightarrow> pairing_code auth_outcome" where
  "assertClaimedDeviceOwnerExists db p =
     (case pcDevice p of
        None \<Rightarrow> Inr p
      | Some d \<Rightarrow> if d \<in> set (map adId (deviceRows db)) then Inr p else Inl Invalid_pairing_code)"

definition readPairingRow :: "auth_tables \<Rightarrow> pairing_code option \<Rightarrow> pairing_code option auth_outcome" where
  "readPairingRow db row =
     (case row of
        None \<Rightarrow> Inr None
      | Some row \<Rightarrow>
          andThen (parseStoredPairingCode row) (\<lambda>p.
          andThen (assertClaimedDeviceOwnerExists db p) (\<lambda>p. Inr (Some p))))"

definition readPairingCodeById :: "auth_tables \<Rightarrow> js_string \<Rightarrow> pairing_code option auth_outcome" where
  "readPairingCodeById db ident = readPairingRow db (find (\<lambda>p. pcId p = ident) (pairingRows db))"

definition readPairingCodeByHash :: "auth_tables \<Rightarrow> js_string \<Rightarrow> pairing_code option auth_outcome" where
  "readPairingCodeByHash db hash = readPairingRow db (find (\<lambda>p. pcHash p = hash) (pairingRows db))"

definition requirePairingCode :: "auth_tables \<Rightarrow> js_string \<Rightarrow> pairing_code auth_outcome" where
  "requirePairingCode db ident =
     andThen (readPairingCodeById db ident) (\<lambda>p. case p of None \<Rightarrow> Inl Pairing_code_not_found | Some p \<Rightarrow> Inr p)"

definition parseSelectedPairingCode :: "pairing_code \<Rightarrow> pairing_code auth_outcome" where
  "parseSelectedPairingCode candidate =
     (case pairingCodeRecordSchema candidate of
        None \<Rightarrow> Inl Invalid_pairing_code
      | Some p \<Rightarrow> if pcVersion p \<noteq> Some 1 then Inl Invalid_pairing_code else Inr p)"

text \<open>\<open>UPDATE\<close> of pairing codes with the table's constraints.\<close>

definition updatePairing ::
  "(pairing_code \<Rightarrow> bool) \<Rightarrow> (pairing_code \<Rightarrow> pairing_code) \<Rightarrow> auth_tables \<Rightarrow> (nat \<times> auth_tables) auth_outcome" where
  "updatePairing p f db =
     (case updateRows p f (pairingRows db) of
        (changes, rows) \<Rightarrow>
          if list_all pairingRowOk (filter (\<lambda>r. r \<notin> set (pairingRows db)) rows) \<and>
             distinct (filter (\<lambda>d. d \<noteq> None) (map pcDevice rows)) \<and>
             list_all (\<lambda>r. case pcDevice r of None \<Rightarrow> True | Some d \<Rightarrow> d \<in> set (map adId (deviceRows db))) rows
          then Inr (changes, db\<lparr> pairingRows := rows \<rparr>) else Inl Sqlite_failure)"

section \<open>Rates\<close>

definition pruneExpiredSources :: "int \<Rightarrow> int \<Rightarrow> int \<Rightarrow> auth_tables \<Rightarrow> auth_tables auth_outcome" where
  "pruneExpiredSources nowMs ttl limit db =
     andThen (addMilliseconds nowMs (- ttl)) (\<lambda>cutoff.
       let expired = take (nat limit)
             (map rateKey
               (orderBy (\<lambda>r. (rateLastAt r, rateKey r)) (filter (\<lambda>r. \<not> str_less cutoff (rateLastAt r)) (sourceRows db))))
       in Inr (db\<lparr> sourceRows := filter (\<lambda>r. rateKey r \<notin> set expired) (sourceRows db) \<rparr>))"

definition readSourceCapacityRetryAt :: "int \<Rightarrow> auth_tables \<Rightarrow> js_string auth_outcome" where
  "readSourceCapacityRetryAt ttl db =
     (case orderBy (\<lambda>r. (rateLastAt r, rateKey r)) (sourceRows db) of
        [] \<Rightarrow> Inl Invalid_pairing_rate_state
      | r # _ \<Rightarrow> (case dateOf (rateLastAt r) of None \<Rightarrow> Inl Invalid_pairing_rate_state | Some t \<Rightarrow> addMilliseconds t ttl))"

definition parseRate :: "(js_string \<Rightarrow> bool) \<Rightarrow> rate_record option \<Rightarrow> rate_record option auth_outcome" where
  "parseRate keyOk row =
     (case row of
        None \<Rightarrow> Inr None
      | Some r \<Rightarrow> (case rateRecordSchema keyOk r of None \<Rightarrow> Inl Invalid_pairing_rate_state | Some r \<Rightarrow> Inr (Some r)))"

definition readRateSource :: "js_string \<Rightarrow> auth_tables \<Rightarrow> rate_record option auth_outcome" where
  "readRateSource source db = parseRate selectedHashPattern (find (\<lambda>r. rateKey r = source) (sourceRows db))"

definition readRateGlobal :: "auth_tables \<Rightarrow> rate_record option auth_outcome" where
  "readRateGlobal db = parseRate (\<lambda>k. k = pairClaimGlobal) (globalRow db)"

definition lastOf :: "rate_record option \<Rightarrow> int option" where
  "lastOf r = (case r of None \<Rightarrow> None | Some r \<Rightarrow> dateOf (rateLastAt r))"

definition assertNonRegressingRateTime :: "rate_record option \<Rightarrow> rate_record option \<Rightarrow> int \<Rightarrow> unit auth_outcome" where
  "assertNonRegressingRateTime source overall nowMs =
     throwIf (timeLess (Some nowMs) (lastOf source) \<or> timeLess (Some nowMs) (lastOf overall)) Pairing_claim_time_conflict"

record fixed_window =
  windowStartedAt :: js_string
  windowAttempts :: int
  windowRetryAt :: js_string

definition currentWindow :: "rate_record option \<Rightarrow> js_string \<Rightarrow> int \<Rightarrow> int \<Rightarrow> fixed_window auth_outcome" where
  "currentWindow current now nowMs window =
     (case current of
        None \<Rightarrow>
          andThen (addMilliseconds nowMs window) (\<lambda>retry.
          Inr \<lparr> windowStartedAt = now, windowAttempts = 0, windowRetryAt = retry \<rparr>)
      | Some r \<Rightarrow>
          (case dateOf (rateStartedAt r) of
             None \<Rightarrow> Inl Invalid_time
           | Some started \<Rightarrow>
               if nowMs - started \<ge> window
               then andThen (addMilliseconds nowMs window) (\<lambda>retry.
                 Inr \<lparr> windowStartedAt = now, windowAttempts = 0, windowRetryAt = retry \<rparr>)
               else andThen (addMilliseconds started window) (\<lambda>retry.
                 Inr \<lparr> windowStartedAt = rateStartedAt r, windowAttempts = rateCount r, windowRetryAt = retry \<rparr>)))"

definition parsedRate :: "(js_string \<Rightarrow> bool) \<Rightarrow> rate_record \<Rightarrow> rate_record auth_outcome" where
  "parsedRate keyOk r =
     (case rateRecordSchema keyOk r of
        None \<Rightarrow> Inl Invalid_pairing_rate_state
      | Some r \<Rightarrow> if rateCount r > maxSafe then Inl Invalid_pairing_rate_state
                 else if str_less (rateLastAt r) (rateStartedAt r) then Inl Sqlite_failure else Inr r)"

definition writeRateSource :: "rate_record \<Rightarrow> auth_tables \<Rightarrow> auth_tables auth_outcome" where
  "writeRateSource r db =
     andThen (parsedRate selectedHashPattern r) (\<lambda>r.
       Inr (db\<lparr> sourceRows :=
         (if rateKey r \<in> set (map rateKey (sourceRows db))
          then map (\<lambda>x. if rateKey x = rateKey r then r else x) (sourceRows db) else sourceRows db @ [r]) \<rparr>))"

definition writeRateGlobal :: "rate_record \<Rightarrow> auth_tables \<Rightarrow> auth_tables auth_outcome" where
  "writeRateGlobal r db = andThen (parsedRate (\<lambda>k. k = pairClaimGlobal) r) (\<lambda>r. Inr (db\<lparr> globalRow := Some r \<rparr>))"

section \<open>Issue, claim, revoke\<close>

definition sanitized :: "auth_error \<Rightarrow> auth_error \<Rightarrow> auth_error" where
  "sanitized fallback e =
     (if e \<in> {Device_exists, Duplicate_secret, Invalid_auth_device, Invalid_pairing_code, Invalid_pairing_policy,
        Invalid_pairing_rate_state, Invalid_pairing_source, Invalid_secret, Invalid_time, Pairing_claim_capacity,
        Pairing_claim_failed, Pairing_claim_rate_limited, Pairing_claim_time_conflict, Pairing_code_expired,
        Pairing_code_legacy, Pairing_code_not_found, Pairing_code_revoked, Pairing_code_used, Pairing_issue_failed}
      then e else fallback)"

definition issueTransaction :: "prepared_issue \<Rightarrow> js_string option \<Rightarrow> auth_tables \<Rightarrow> ((pairing_code \<times> js_string) \<times> auth_tables) auth_outcome" where
  "issueTransaction input generated db =
     andThen (generateSelectedValue generated selectedRawPairingCodeSchema Pairing_issue_failed) (\<lambda>raw.
     andThen (hashSelectedPairingCode raw) (\<lambda>hash.
     andThen
       (assertSecretSeparation [raw]
         [Some (preparedId input), preparedLabel input, Some (preparedCreatedAt input), Some (preparedExpiresAt input), Some hash]
         Pairing_issue_failed) (\<lambda>_.
     andThen
       (parseSelectedPairingCode
         \<lparr> pcId = preparedId input, pcHash = hash, pcPermission = preparedPermission input, pcLabel = preparedLabel input,
           pcCreatedAt = preparedCreatedAt input, pcExpiresAt = preparedExpiresAt input, pcUsedAt = None, pcRevokedAt = None,
           pcVersion = Some 1, pcDevice = None \<rparr>) (\<lambda>p.
     andThen (insertPairingCode p db) (\<lambda>db. Inr ((p, raw), db))))))"

definition issue :: "pair_policy \<Rightarrow> issue_input \<Rightarrow> js_string option \<Rightarrow> auth_tables \<Rightarrow> (pairing_code \<times> js_string) auth_outcome \<times> auth_tables" where
  "issue policy input generated db =
     (case immediate (\<lambda>db. andThen (prepareIssueInput policy input) (\<lambda>p. issueTransaction p generated db)) db of
        (Inl e, db) \<Rightarrow> (Inl (sanitized Pairing_issue_failed e), db)
      | (Inr r, db) \<Rightarrow> (Inr r, db))"

text \<open>A claim that returns: rejected, with the time of the next try, or a success with the device's secrets.\<close>

datatype claim_result =
  Rejected auth_error "js_string option"
| Claimed pairing_code auth_device js_string js_string

record generated_secrets =
  generatedDeviceId :: "js_string option"
  generatedToken :: "js_string option"
  generatedCsrf :: "js_string option"

text \<open>The device and its secrets, for the code \<open>p\<close>.\<close>

definition claimDevice ::
  "prepared_claim \<Rightarrow> generated_secrets \<Rightarrow> pairing_code \<Rightarrow> auth_tables \<Rightarrow> (claim_result \<times> auth_tables) auth_outcome" where
  "claimDevice input secrets p db =
     andThen (generateSelectedValue (generatedDeviceId secrets) selectedDeviceIdPattern Pairing_claim_failed) (\<lambda>ident.
     andThen (generateSelectedValue (generatedToken secrets) selectedRawDeviceSecretSchema Pairing_claim_failed) (\<lambda>token.
     andThen (generateSelectedValue (generatedCsrf secrets) selectedRawDeviceSecretSchema Pairing_claim_failed) (\<lambda>csrf.
     let label = (if claimedLabel input = None then pcLabel p else claimedLabel input) in
     andThen (hashSecret 43 token) (\<lambda>tokenHash.
     andThen (hashSecret 43 csrf) (\<lambda>csrfHash.
     andThen
       (assertSecretSeparation [claimedCode input, token, csrf]
         [Some (claimedSource input), Some (claimedAt input), Some (pcId p), Some (pcHash p), pcLabel p, Some ident, label,
          Some tokenHash, Some csrfHash] Pairing_claim_failed) (\<lambda>_.
     andThen
       (authDeviceFromInput ident token csrf (pcPermission p) label (Some (claimedMs input))
         (map_option Some (claimedExpiry input))) (\<lambda>d.
     andThen (insertAuthDevice d db) (\<lambda>(device, db).
     andThen
       (updatePairing (\<lambda>r. pcId r = pcId p \<and> pcVersion r = Some 1 \<and> pcUsedAt r = None \<and> pcRevokedAt r = None)
         (\<lambda>r. r\<lparr> pcUsedAt := Some (claimedAt input), pcDevice := Some (adId device) \<rparr>) db) (\<lambda>(changes, db).
     andThen (throwIf (changes \<noteq> 1) Pairing_claim_failed) (\<lambda>_.
     andThen (requirePairingCode db (pcId p)) (\<lambda>claimed.
     Inr (Claimed claimed device token csrf, db))))))))))))"

text \<open>From the lookup of the code on.\<close>

definition claimCodeTransaction :: "prepared_claim \<Rightarrow> generated_secrets \<Rightarrow> auth_tables \<Rightarrow> (claim_result \<times> auth_tables) auth_outcome" where
  "claimCodeTransaction input secrets db =
     andThen (hashSelectedPairingCode (claimedCode input)) (\<lambda>hash.
     andThen (readPairingCodeByHash db hash) (\<lambda>found.
     case found of
       None \<Rightarrow> Inr (Rejected Pairing_code_not_found None, db)
     | Some p \<Rightarrow>
         if pcVersion p \<noteq> Some 1 then Inr (Rejected Pairing_code_legacy None, db)
         else if pcRevokedAt p \<noteq> None then Inr (Rejected Pairing_code_revoked None, db)
         else if pcUsedAt p \<noteq> None then Inr (Rejected Pairing_code_used None, db)
         else if timeLess (Some (claimedMs input)) (dateOf (pcCreatedAt p)) then Inl Pairing_claim_time_conflict
         else if timeLessEq (dateOf (pcExpiresAt p)) (Some (claimedMs input)) then Inr (Rejected Pairing_code_expired None, db)
         else claimDevice input secrets p db))"

definition claimTransaction :: "pair_policy \<Rightarrow> prepared_claim \<Rightarrow> generated_secrets \<Rightarrow> auth_tables \<Rightarrow> (claim_result \<times> auth_tables) auth_outcome" where
  "claimTransaction policy input secrets db =
     andThen (pruneExpiredSources (claimedMs input) (stateTtl policy) (maxTracked policy) db) (\<lambda>db.
     andThen (readRateSource (claimedSource input) db) (\<lambda>source.
     andThen (readRateGlobal db) (\<lambda>overall.
     andThen (assertNonRegressingRateTime source overall (claimedMs input)) (\<lambda>_.
     if source = None \<and> int (length (sourceRows db)) \<ge> maxTracked policy
     then andThen (readSourceCapacityRetryAt (stateTtl policy) db) (\<lambda>retry. Inr (Rejected Pairing_claim_capacity (Some retry), db))
     else
       andThen (currentWindow source (claimedAt input) (claimedMs input) (claimWindow policy)) (\<lambda>sourceWindow.
       andThen (currentWindow overall (claimedAt input) (claimedMs input) (claimWindow policy)) (\<lambda>globalWindow.
       if windowAttempts sourceWindow \<ge> maxPerSource policy
       then Inr (Rejected Pairing_claim_rate_limited (Some (windowRetryAt sourceWindow)), db)
       else if windowAttempts globalWindow \<ge> maxGlobal policy
       then Inr (Rejected Pairing_claim_rate_limited (Some (windowRetryAt globalWindow)), db)
       else
         andThen
           (writeRateSource
             \<lparr> rateKey = claimedSource input, rateStartedAt = windowStartedAt sourceWindow,
               rateCount = windowAttempts sourceWindow + 1, rateLastAt = claimedAt input \<rparr> db) (\<lambda>db.
         andThen
           (writeRateGlobal
             \<lparr> rateKey = pairClaimGlobal, rateStartedAt = windowStartedAt globalWindow,
               rateCount = windowAttempts globalWindow + 1, rateLastAt = claimedAt input \<rparr> db) (\<lambda>db.
         claimCodeTransaction input secrets db))))))))"

text \<open>\<open>claim\<close>: a rejection is thrown after its transaction has committed.\<close>

definition claim ::
  "pair_policy \<Rightarrow> claim_input \<Rightarrow> generated_secrets \<Rightarrow> auth_tables \<Rightarrow>
     ((auth_error \<times> js_string option) + pairing_code \<times> auth_device \<times> js_string \<times> js_string) \<times> auth_tables" where
  "claim policy input secrets db =
     (case immediate (\<lambda>db. andThen (prepareClaimInput input) (\<lambda>p. claimTransaction policy p secrets db)) db of
        (Inl e, db) \<Rightarrow> (Inl (sanitized Pairing_claim_failed e, None), db)
      | (Inr (Rejected e retry), db) \<Rightarrow> (Inl (e, retry), db)
      | (Inr (Claimed p d token csrf), db) \<Rightarrow> (Inr (p, d, token, csrf), db))"

definition revokeTransaction :: "js_string \<Rightarrow> js_string \<Rightarrow> int \<Rightarrow> auth_tables \<Rightarrow> (pairing_code \<times> auth_tables) auth_outcome" where
  "revokeTransaction ident now nowMs db =
     andThen (requirePairingCode db ident) (\<lambda>current.
     andThen (throwIf (pcVersion current \<noteq> Some 1) Pairing_code_legacy) (\<lambda>_.
     andThen (throwIf (pcUsedAt current \<noteq> None) Pairing_code_used) (\<lambda>_.
     if pcRevokedAt current \<noteq> None then Inr (current, db)
     else
       andThen (throwIf (timeLess (Some nowMs) (dateOf (pcCreatedAt current))) Invalid_time) (\<lambda>_.
       andThen
         (updatePairing (\<lambda>r. pcId r = ident \<and> pcUsedAt r = None \<and> pcRevokedAt r = None)
           (\<lambda>r. r\<lparr> pcRevokedAt := Some now \<rparr>) db) (\<lambda>(changes, db).
       andThen (throwIf (changes \<noteq> 1) Pairing_claim_failed) (\<lambda>_.
       andThen (requirePairingCode db ident) (\<lambda>p. Inr (p, db))))))))"

definition revoke :: "js_string \<Rightarrow> int option \<Rightarrow> auth_tables \<Rightarrow> pairing_code auth_outcome \<times> auth_tables" where
  "revoke ident now db =
     (case immediate (\<lambda>db.
        andThen (parsePairingId ident) (\<lambda>ident.
        andThen (nowIso now) (\<lambda>(t, when). revokeTransaction ident when t db))) db of
        (Inl e, db) \<Rightarrow> (Inl (sanitized Pairing_claim_failed e), db)
      | (Inr p, db) \<Rightarrow> (Inr p, db))"

section \<open>Reads\<close>

definition sanitizedRead :: "'a auth_outcome \<Rightarrow> 'a auth_outcome" where
  "sanitizedRead r = (case r of Inl e \<Rightarrow> Inl (sanitized Pairing_claim_failed e) | Inr x \<Rightarrow> Inr x)"

definition pairingGet :: "js_string \<Rightarrow> auth_tables \<Rightarrow> pairing_code option auth_outcome" where
  "pairingGet ident db = sanitizedRead (andThen (parsePairingId ident) (readPairingCodeById db))"

definition pairingRequire :: "js_string \<Rightarrow> auth_tables \<Rightarrow> pairing_code auth_outcome" where
  "pairingRequire ident db = sanitizedRead (andThen (parsePairingId ident) (requirePairingCode db))"

definition getRateSnapshot :: "js_string \<Rightarrow> auth_tables \<Rightarrow> (rate_record option \<times> rate_record option) auth_outcome" where
  "getRateSnapshot source db =
     sanitizedRead
       (andThen (parseSourceKey source) (\<lambda>source.
        andThen (readRateSource source db) (\<lambda>s. andThen (readRateGlobal db) (\<lambda>g. Inr (s, g)))))"

end
