(* ===== verification/Trust_Histories.thy ===== *)
theory Trust_Histories
  imports Pairing_Codes Machine
begin

text \<open>
  Histories of the operations on devices and pairing codes: what every operation keeps, and what of
  a device or a code never changes back.
\<close>

section \<open>Operations\<close>

datatype trust_op =
  Issue_code issue_input "js_string option"
| Claim_code claim_input generated_secrets
| Revoke_code js_string "int option"
| Authenticate js_string "int option"
| Rotate_csrf js_string int "int option" "js_string option"
| Authorize_write js_string int "int option" js_string
| Revoke_device js_string "int option"

fun trustStep :: "pair_policy \<Rightarrow> trust_op \<Rightarrow> auth_tables \<Rightarrow> auth_tables" where
  "trustStep policy (Issue_code input generated) db = snd (issue policy input generated db)"
| "trustStep policy (Claim_code input secrets) db = snd (claim policy input secrets db)"
| "trustStep policy (Revoke_code ident now) db = snd (revoke ident now db)"
| "trustStep policy (Authenticate raw now) db = snd (authenticateDeviceToken raw now db)"
| "trustStep policy (Rotate_csrf ident generation now generated) db = snd (rotateBootstrap ident generation now generated db)"
| "trustStep policy (Authorize_write ident generation now raw) db = snd (authorizeBrowserWrite ident generation now raw db)"
| "trustStep policy (Revoke_device ident now) db = snd (revokeDevice ident now db)"

section \<open>The invariant and the order\<close>

definition trustOk :: "auth_tables \<Rightarrow> bool" where
  "trustOk db \<longleftrightarrow>
     distinct (map adId (deviceRows db)) \<and> distinct (map adTokenHash (deviceRows db)) \<and>
     distinct (map pcId (pairingRows db)) \<and> distinct (map pcHash (pairingRows db))"

definition deviceLater :: "auth_device \<Rightarrow> auth_device \<Rightarrow> bool" where
  "deviceLater d d' \<longleftrightarrow>
     adId d' = adId d \<and> adTokenHash d' = adTokenHash d \<and> adPermission d' = adPermission d \<and> adLabel d' = adLabel d \<and>
     adCreatedAt d' = adCreatedAt d \<and> adExpiresAt d' = adExpiresAt d \<and> (adRevokedAt d \<noteq> None \<longrightarrow> d' = d)"

definition spent :: "pairing_code \<Rightarrow> bool" where
  "spent p \<longleftrightarrow> pcUsedAt p \<noteq> None \<or> pcRevokedAt p \<noteq> None"

definition codeLater :: "pairing_code \<Rightarrow> pairing_code \<Rightarrow> bool" where
  "codeLater p p' \<longleftrightarrow>
     pcId p' = pcId p \<and> pcHash p' = pcHash p \<and> pcPermission p' = pcPermission p \<and> pcLabel p' = pcLabel p \<and>
     pcCreatedAt p' = pcCreatedAt p \<and> pcExpiresAt p' = pcExpiresAt p \<and> pcVersion p' = pcVersion p \<and> (spent p \<longrightarrow> p' = p)"

definition rowsLater :: "('r \<Rightarrow> 'r \<Rightarrow> bool) \<Rightarrow> 'r list \<Rightarrow> 'r list \<Rightarrow> bool" where
  "rowsLater later rows rows' \<longleftrightarrow> list_all2 later rows (take (length rows) rows')"

definition tablesLater :: "auth_tables \<Rightarrow> auth_tables \<Rightarrow> bool" where
  "tablesLater db db' \<longleftrightarrow> rowsLater deviceLater (deviceRows db) (deviceRows db') \<and> rowsLater codeLater (pairingRows db) (pairingRows db')"

lemma deviceLater_refl [simp]: "deviceLater d d"
  by (simp add: deviceLater_def)

lemma codeLater_refl [simp]: "codeLater p p"
  by (simp add: codeLater_def)

lemma deviceLater_trans: "deviceLater a b \<Longrightarrow> deviceLater b c \<Longrightarrow> deviceLater a c"
  by (auto simp: deviceLater_def)

lemma codeLater_trans: "codeLater a b \<Longrightarrow> codeLater b c \<Longrightarrow> codeLater a c"
  by (auto simp: codeLater_def)

lemma rowsLater_refl: "(\<And>r. later r r) \<Longrightarrow> rowsLater later rows rows"
  by (simp add: rowsLater_def list_all2_refl)

lemma rowsLater_append: "(\<And>r. later r r) \<Longrightarrow> rowsLater later rows (rows @ new)"
  by (simp add: rowsLater_def list_all2_refl)

lemma rowsLater_map: "(\<And>r. r \<in> set rows \<Longrightarrow> later r (f r)) \<Longrightarrow> rowsLater later rows (map f rows)"
  by (simp add: rowsLater_def list_all2_conv_all_nth)

lemma rowsLater_trans:
  assumes "\<And>a b c. later a b \<Longrightarrow> later b c \<Longrightarrow> later a c" "rowsLater later xs ys" "rowsLater later ys zs"
  shows "rowsLater later xs zs"
proof -
  from assms(2,3) have l: "length xs \<le> length ys" "length ys \<le> length zs"
    by (auto simp: rowsLater_def dest: list_all2_lengthD)
  with assms show ?thesis
    unfolding rowsLater_def list_all2_conv_all_nth by (metis (no_types, lifting) length_take min.absorb2 nth_take order_less_le_trans order_trans)
qed

lemma tablesLater_refl [simp]: "tablesLater db db"
  by (simp add: tablesLater_def rowsLater_refl)

lemma tablesLater_trans: "tablesLater a b \<Longrightarrow> tablesLater b c \<Longrightarrow> tablesLater a c"
proof -
  have "rowsLater deviceLater xs ys \<Longrightarrow> rowsLater deviceLater ys zs \<Longrightarrow> rowsLater deviceLater xs zs" for xs ys zs
    by (rule rowsLater_trans) (rule deviceLater_trans)
  moreover have "rowsLater codeLater xs ys \<Longrightarrow> rowsLater codeLater ys zs \<Longrightarrow> rowsLater codeLater xs zs" for xs ys zs
    by (rule rowsLater_trans) (rule codeLater_trans)
  ultimately show "tablesLater a b \<Longrightarrow> tablesLater b c \<Longrightarrow> ?thesis" unfolding tablesLater_def by blast
qed

text \<open>A row found by a key that its successors keep is found again.\<close>

lemma find_later:
  assumes "find (\<lambda>r. key r = k) rows = Some r" "rowsLater later rows rows'" "\<And>a b. later a b \<Longrightarrow> key b = key a"
  obtains r' where "find (\<lambda>r. key r = k) rows' = Some r'" "later r r'"
proof -
  have "list_all2 later rows xs \<Longrightarrow> \<exists>r'. find (\<lambda>r. key r = k) xs = Some r' \<and> later r r'" for xs
    using assms(1) by (induction rows arbitrary: xs) (auto simp: list_all2_Cons1 dest: assms(3) split: if_splits)
  then obtain r' where r': "find (\<lambda>r. key r = k) (take (length rows) rows') = Some r'" "later r r'"
    using assms(2) unfolding rowsLater_def by blast
  have "find P xs = Some x \<Longrightarrow> find P (xs @ ys) = Some x" for P and xs ys :: "'a list" and x
    by (induction xs) (auto split: if_splits)
  from this [OF r'(1), of "drop (length rows) rows'"] r'(2) show thesis by (intro that) simp_all
qed

section \<open>What a schema keeps\<close>

lemma nullable_None_iff [simp]: "nullable f v = Some w \<Longrightarrow> (w = None) = (v = None)"
  by (auto simp: nullable_def split: option.splits)

lemma device_fields:
  assumes "parseAuthDevice v = Inr d"
  shows "adId d = adId v" "adTokenHash d = adTokenHash v" "adCsrfHash d = adCsrfHash v" "adGeneration d = adGeneration v"
    "adPermission d = adPermission v" "adLabel d = adLabel v" "adRevokedAt d = None \<longleftrightarrow> adRevokedAt v = None"
    "adExpiresAt d = None \<longleftrightarrow> adExpiresAt v = None" "adLastUsedAt d = None \<longleftrightarrow> adLastUsedAt v = None"
  using assms by (auto simp: parseAuthDevice_def authDeviceRecordSchema_def bind_eq_Some_conv Let_def split: option.splits)

lemma code_fields:
  assumes "pairingCodeRecordSchema v = Some p"
  shows "pcId p = pcId v" "pcHash p = pcHash v" "pcPermission p = pcPermission v" "pcLabel p = pcLabel v"
    "pcVersion p = pcVersion v" "pcDevice p = pcDevice v" "pcUsedAt p = None \<longleftrightarrow> pcUsedAt v = None"
    "pcRevokedAt p = None \<longleftrightarrow> pcRevokedAt v = None"
  using assms by (auto simp: pairingCodeRecordSchema_def bind_eq_Some_conv Let_def)

section \<open>Devices\<close>

lemma find_unique:
  assumes "distinct (map key rows)" "find (\<lambda>r. key r = k) rows = Some r" "x \<in> set rows" "key x = k"
  shows "x = r"
  using assms by (induction rows) (auto split: if_splits)

text \<open>An operation that changes one device: keys, permission and dates stay, and a revoked device is left alone.\<close>

definition deviceChange :: "(auth_device \<Rightarrow> auth_device) \<Rightarrow> auth_tables \<Rightarrow> auth_tables \<Rightarrow> bool" where
  "deviceChange f db db' \<longleftrightarrow> db' = db\<lparr> deviceRows := map f (deviceRows db) \<rparr> \<and> (\<forall>r \<in> set (deviceRows db). deviceLater r (f r))"

lemma change_keeps:
  assumes "deviceChange f db db'" "trustOk db"
  shows "trustOk db'" "tablesLater db db'"
proof -
  have l: "deviceLater r (f r)" if "r \<in> set (deviceRows db)" for r using assms(1) that by (simp add: deviceChange_def)
  then have "map adId (map f (deviceRows db)) = map adId (deviceRows db)"
    "map adTokenHash (map f (deviceRows db)) = map adTokenHash (deviceRows db)" by (auto simp: deviceLater_def)
  then show "trustOk db'" using assms by (simp add: deviceChange_def trustOk_def del: map_map)
  show "tablesLater db db'" using assms(1) l by (auto simp: deviceChange_def tablesLater_def intro: rowsLater_map rowsLater_refl)
qed

lemma change_id: "deviceChange (\<lambda>r. r) db db"
  by (simp add: deviceChange_def)

lemma usable_row:
  assumes "usableDevice row now = Inr d"
  obtains r where "row = Some r" "parseAuthDevice r = Inr d" "adRevokedAt d = None" "adRevokedAt r = None"
    "\<not> timeLessEq (dateOfNullable (adExpiresAt d)) now"
  using assms device_fields(7) by (auto simp: usableDevice_def split: option.splits)

lemma advance_change:
  assumes "advanceLastUsedAt current t db = Inr (d, db')" "adRevokedAt current = None"
  obtains f where "deviceChange f db db'"
proof (cases "dateOfNullable (adLastUsedAt current) = Some t")
  case True
  then have "db' = db" using assms(1) by (auto simp: advanceLastUsedAt_def)
  then show thesis using that change_id by blast
next
  case False
  let ?p = "\<lambda>r. adId r = adId current \<and> adTokenHash r = adTokenHash current \<and> adCsrfHash r = adCsrfHash current \<and>
    adGeneration r = adGeneration current \<and> adPermission r = adPermission current \<and>
    adExpiresAt r = adExpiresAt current \<and> adRevokedAt r = adRevokedAt current \<and> adLastUsedAt r = adLastUsedAt current"
  let ?f = "\<lambda>r. if ?p r then r\<lparr> adLastUsedAt := Some (toISOString t) \<rparr> else r"
  have "db' = db\<lparr> deviceRows := map ?f (deviceRows db) \<rparr>"
    using assms(1) False by (auto simp: advanceLastUsedAt_def updateRows_def split: option.splits)
  then have "deviceChange ?f db db'" using assms(2) by (auto simp: deviceChange_def deviceLater_def)
  then show thesis by (rule that)
qed

lemma authenticate_change:
  "\<exists>f. deviceChange f db (snd (authenticateDeviceToken raw now db))"
proof (cases "fst (authenticateDeviceToken raw now db)")
  case (Inl e)
  then show ?thesis using change_id by (auto simp: authenticateDeviceToken_def immediate_def split: sum.splits)
next
  case (Inr r)
  then obtain current t d where "requireUsableDeviceByToken raw now db = Inr current"
    "advanceLastUsedAt current t db = Inr (d, snd (authenticateDeviceToken raw now db))"
    by (auto simp: authenticateDeviceToken_def immediate_def split: sum.splits)
  then show ?thesis using advance_change usable_row
    by (metis (no_types, lifting) requireUsableDeviceByToken_def andThen_Inr_iff)
qed

lemma authorize_change:
  "\<exists>f. deviceChange f db (snd (authorizeBrowserWrite ident generation now raw db))"
proof (cases "fst (authorizeBrowserWrite ident generation now raw db)")
  case (Inl e)
  then show ?thesis using change_id by (auto simp: authorizeBrowserWrite_def immediate_def split: sum.splits)
next
  case (Inr d)
  then obtain current t where "requireUsableDeviceById ident (Some t) db = Inr current"
    "advanceLastUsedAt current t db = Inr (d, snd (authorizeBrowserWrite ident generation now raw db))"
    by (auto simp: authorizeBrowserWrite_def immediate_def split: sum.splits)
  then show ?thesis using advance_change usable_row by (metis requireUsableDeviceById_def)
qed

lemma rotate_change:
  assumes "trustOk db"
  shows "\<exists>f. deviceChange f db (snd (rotateBootstrap ident generation now generated db))"
proof (cases "fst (rotateBootstrap ident generation now generated db)")
  case (Inl e)
  then show ?thesis using change_id by (auto simp: rotateBootstrap_def immediate_def split: sum.splits)
next
  case (Inr x)
  then obtain current t where c: "requireUsableDeviceById ident (Some t) db = Inr current"
    "rotateCurrentCsrf current t generated db = Inr (x, snd (rotateBootstrap ident generation now generated db))"
    by (auto simp: rotateBootstrap_def immediate_def split: sum.splits)
  from usable_row [OF c(1) [unfolded requireUsableDeviceById_def]] obtain r where
    r: "find (\<lambda>d. adId d = ident) (deviceRows db) = Some r" "parseAuthDevice r = Inr current" "adRevokedAt r = None" by metis
  then have i: "adId r = ident" by (auto simp: find_Some_iff)
  from c(2) obtain csrf where s: "db\<lparr> deviceRows := map (\<lambda>r. if adId r = adId current \<and> adGeneration r = adGeneration current
        then r\<lparr> adCsrfHash := csrf, adGeneration := adGeneration current + 1, adRotatedAt := toISOString t \<rparr> else r) (deviceRows db) \<rparr> =
      snd (rotateBootstrap ident generation now generated db)"
    by (auto simp: rotateCurrentCsrf_def updateRows_def)
  have "adRevokedAt x = None" if "x \<in> set (deviceRows db)" "adId x = adId current" for x
    using find_unique [OF _ r(1) that(1)] that(2) device_fields(1) [OF r(2)] i r(3) assms by (auto simp: trustOk_def)
  then show ?thesis unfolding s [symmetric] by (intro exI) (auto simp: deviceChange_def deviceLater_def)
qed

lemma revoke_change:
  "\<exists>f. deviceChange f db (snd (revokeDevice ident now db))"
proof (cases "fst (revokeDevice ident now db)")
  case (Inl e)
  then show ?thesis using change_id by (auto simp: revokeDevice_def immediate_def split: sum.splits)
next
  case (Inr x)
  let ?db = "snd (revokeDevice ident now db)"
  obtain t current row where t: "now = Some t" "selectedDeviceIdSchema ident" "requireDevice ident db = Inr (current, row)"
    "assertNonRegressingRevocationTime current t = Inr ()"
    using Inr by (cases now) (auto simp: revokeDevice_def immediate_def split: sum.splits if_splits)
  have "?db = db \<or> ?db = db\<lparr> deviceRows := map (\<lambda>r. if r = row \<and> adRevokedAt r = None then r\<lparr> adRevokedAt := Some (toISOString t) \<rparr>
      else r) (deviceRows db) \<rparr>"
    using Inr t by (cases "adRevokedAt current") (auto simp: revokeDevice_def immediate_def updateRows_def split: sum.splits)
  then consider "?db = db" | "?db = db\<lparr> deviceRows := map (\<lambda>r. if r = row \<and> adRevokedAt r = None
      then r\<lparr> adRevokedAt := Some (toISOString t) \<rparr> else r) (deviceRows db) \<rparr>" by blast
  then show ?thesis
  proof cases
    case 1
    then show ?thesis using change_id by metis
  next
    case 2
    then show ?thesis by (intro exI) (auto simp: deviceChange_def deviceLater_def)
  qed
qed

section \<open>Pairing codes\<close>

lemma read_row:
  assumes "readPairingRow db row = Inr (Some p)"
  obtains r where "row = Some r" "pairingCodeRecordSchema r = Some p"
  using assms by (auto simp: readPairingRow_def parseStoredPairingCode_def assertClaimedDeviceOwnerExists_def split: option.splits if_splits)

lemma require_row:
  assumes "requirePairingCode db ident = Inr p"
  obtains r where "find (\<lambda>p. pcId p = ident) (pairingRows db) = Some r" "pairingCodeRecordSchema r = Some p"
  using assms by (auto simp: requirePairingCode_def readPairingCodeById_def elim: read_row split: option.splits)

lemma find_map_key:
  "(\<And>r. key (f r) = key r) \<Longrightarrow> find (\<lambda>r. key r = k) (map f rows) = map_option f (find (\<lambda>r. key r = k) rows)"
  by (induction rows) simp_all

text \<open>The update of an unspent code.\<close>

definition codeChange :: "(pairing_code \<Rightarrow> pairing_code) \<Rightarrow> auth_tables \<Rightarrow> auth_tables \<Rightarrow> bool" where
  "codeChange f db db' \<longleftrightarrow> db' = db\<lparr> pairingRows := map f (pairingRows db) \<rparr> \<and> (\<forall>r \<in> set (pairingRows db). codeLater r (f r))"

lemma update_pairing:
  assumes "updatePairing p f db = Inr (changes, db')"
  shows "db' = db\<lparr> pairingRows := map (\<lambda>r. if p r then f r else r) (pairingRows db) \<rparr>"
    "changes = length (filter p (pairingRows db))"
  using assms by (auto simp: updatePairing_def updateRows_def split: if_splits)

lemma code_change_keeps:
  assumes "codeChange f db db'" "trustOk db"
  shows "trustOk db'" "tablesLater db db'"
proof -
  have l: "codeLater r (f r)" if "r \<in> set (pairingRows db)" for r using assms(1) that by (simp add: codeChange_def)
  then have "map pcId (map f (pairingRows db)) = map pcId (pairingRows db)"
    "map pcHash (map f (pairingRows db)) = map pcHash (pairingRows db)" by (auto simp: codeLater_def)
  then show "trustOk db'" using assms by (simp add: codeChange_def trustOk_def del: map_map)
  show "tablesLater db db'" using assms(1) l by (auto simp: codeChange_def tablesLater_def intro: rowsLater_map rowsLater_refl)
qed

text \<open>The tables with a device added.\<close>

lemma insert_device:
  assumes "insertAuthDevice d db = Inr (d', db')" "trustOk db"
  shows "d' = d" "db' = db\<lparr> deviceRows := deviceRows db @ [d] \<rparr>" "trustOk db'" "tablesLater db db'"
    "adId d \<notin> set (map adId (deviceRows db))" "adTokenHash d \<notin> set (map adTokenHash (deviceRows db))"
  using assms by (auto simp: insertAuthDevice_def trustOk_def tablesLater_def rowsLater_append rowsLater_refl split: if_splits)

lemma claim_device:
  assumes "claimDevice input secrets q db = Inr (r, db')"
  obtains p d token csrf db1 where "r = Claimed p d token csrf"
    "selectedRawDeviceSecretSchema token" "selectedRawDeviceSecretSchema csrf" "token \<noteq> csrf" "selectedDeviceIdPattern (adId d)"
    "authDeviceFromInput (adId d) token csrf (pcPermission q) (adLabel d) (Some (claimedMs input)) (map_option Some (claimedExpiry input)) = Inr d"
    "insertAuthDevice d db = Inr (d, db1)"
    "updatePairing (\<lambda>r. pcId r = pcId q \<and> pcVersion r = Some 1 \<and> pcUsedAt r = None \<and> pcRevokedAt r = None)
       (\<lambda>r. r\<lparr> pcUsedAt := Some (claimedAt input), pcDevice := Some (adId d) \<rparr>) db1 = Inr (1, db')"
    "requirePairingCode db' (pcId q) = Inr p"
proof -
  define label where "label = (if claimedLabel input = None then pcLabel q else claimedLabel input)"
  from assms obtain p ident token csrf tokenHash csrfHash d0 d db1 changes where
    c: "r = Claimed p d token csrf"
      "generateSelectedValue (generatedDeviceId secrets) selectedDeviceIdPattern Pairing_claim_failed = Inr ident"
      "generateSelectedValue (generatedToken secrets) selectedRawDeviceSecretSchema Pairing_claim_failed = Inr token"
      "generateSelectedValue (generatedCsrf secrets) selectedRawDeviceSecretSchema Pairing_claim_failed = Inr csrf"
      "assertSecretSeparation [claimedCode input, token, csrf]
         [Some (claimedSource input), Some (claimedAt input), Some (pcId q), Some (pcHash q), pcLabel q, Some ident, label,
          Some tokenHash, Some csrfHash] Pairing_claim_failed = Inr ()"
      "authDeviceFromInput ident token csrf (pcPermission q) label (Some (claimedMs input)) (map_option Some (claimedExpiry input)) = Inr d0"
      "insertAuthDevice d0 db = Inr (d, db1)"
      "updatePairing (\<lambda>r. pcId r = pcId q \<and> pcVersion r = Some 1 \<and> pcUsedAt r = None \<and> pcRevokedAt r = None)
         (\<lambda>r. r\<lparr> pcUsedAt := Some (claimedAt input), pcDevice := Some (adId d) \<rparr>) db1 = Inr (changes, db')"
      "changes = 1" "requirePairingCode db' (pcId q) = Inr p"
    unfolding claimDevice_def Let_def label_def [symmetric] by (auto simp only: andThen_Inr_iff throwIf_Inr split_paired_all prod.case simp_thms)
  have d: "d = d0" using c(7) by (auto simp: insertAuthDevice_def split: if_splits)
  then have i: "adId d = ident" "adLabel d = label"
    using c(6) by (auto simp: authDeviceFromInput_def device_fields split: prod.splits)
  have "token \<noteq> csrf" using c(5) by (auto simp: assertSecretSeparation_def)
  then show thesis
    using c d i by (intro that [of p d token csrf db1]) (auto simp: generateSelectedValue_def split: option.splits if_splits)
qed

lemma claim_code:
  assumes "claimCodeTransaction input secrets db = Inr (r, db')"
  obtains (rejected) e retry where "r = Rejected e retry" "db' = db"
  | (claimed) row q where "find (\<lambda>p. pcHash p = hashText (claimedCode input)) (pairingRows db) = Some row"
      "pairingCodeRecordSchema row = Some q" "pcVersion q = Some 1" "\<not> spent q"
      "\<not> timeLess (Some (claimedMs input)) (dateOf (pcCreatedAt q))" "\<not> timeLessEq (dateOf (pcExpiresAt q)) (Some (claimedMs input))"
      "claimDevice input secrets q db = Inr (r, db')"
proof -
  from assms obtain found where f: "readPairingCodeByHash db (hashText (claimedCode input)) = Inr found"
    by (auto simp: claimCodeTransaction_def hashSelectedPairingCode_def hashSecret_def)
  show thesis
  proof (cases found)
    case None
    then show thesis using assms f rejected
      by (auto simp: claimCodeTransaction_def hashSelectedPairingCode_def hashSecret_def)
  next
    case (Some q)
    obtain row where row: "find (\<lambda>p. pcHash p = hashText (claimedCode input)) (pairingRows db) = Some row"
      "pairingCodeRecordSchema row = Some q"
      using f Some unfolding readPairingCodeByHash_def by (auto elim: read_row)
    have "(\<exists>e retry. r = Rejected e retry \<and> db' = db) \<or>
        pcVersion q = Some 1 \<and> \<not> spent q \<and> \<not> timeLess (Some (claimedMs input)) (dateOf (pcCreatedAt q)) \<and>
        \<not> timeLessEq (dateOf (pcExpiresAt q)) (Some (claimedMs input)) \<and> claimDevice input secrets q db = Inr (r, db')"
      using assms f Some
      by (auto simp: claimCodeTransaction_def hashSelectedPairingCode_def hashSecret_def spent_def split: if_splits)
    then show thesis using rejected claimed [OF row] by blast
  qed
qed

text \<open>What comes before the lookup changes only the rates.\<close>

definition ratesOnly :: "auth_tables \<Rightarrow> auth_tables \<Rightarrow> bool" where
  "ratesOnly db db' \<longleftrightarrow> deviceRows db' = deviceRows db \<and> pairingRows db' = pairingRows db"

lemma rates_keep: "ratesOnly db db' \<Longrightarrow> trustOk db \<Longrightarrow> trustOk db' \<and> tablesLater db db'"
  by (simp add: ratesOnly_def trustOk_def tablesLater_def rowsLater_refl)

lemma prune_rates: "pruneExpiredSources t ttl limit db = Inr db' \<Longrightarrow> ratesOnly db db' \<and> globalRow db' = globalRow db"
  by (auto simp: pruneExpiredSources_def Let_def ratesOnly_def)

lemma source_rates: "writeRateSource r db = Inr db' \<Longrightarrow> ratesOnly db db' \<and> globalRow db' = globalRow db"
  by (auto simp: writeRateSource_def ratesOnly_def)

lemma global_rates:
  assumes "writeRateGlobal r db = Inr db'"
  obtains r' where "parsedRate (\<lambda>k. k = pairClaimGlobal) r = Inr r'" "db' = db\<lparr> globalRow := Some r' \<rparr>"
  using assms by (auto simp: writeRateGlobal_def)

lemma claim_transaction:
  assumes "claimTransaction policy input secrets db = Inr (r, db')"
  obtains (refused) e retry where "r = Rejected e (Some retry)" "e = Pairing_claim_capacity \<or> e = Pairing_claim_rate_limited"
      "ratesOnly db db'" "globalRow db' = globalRow db"
  | (counted) overall w g db1 where
      "readRateGlobal db = Inr overall" "\<not> timeLess (Some (claimedMs input)) (lastOf overall)"
      "currentWindow overall (claimedAt input) (claimedMs input) (claimWindow policy) = Inr w" "windowAttempts w < maxGlobal policy"
      "parsedRate (\<lambda>k. k = pairClaimGlobal)
         \<lparr> rateKey = pairClaimGlobal, rateStartedAt = windowStartedAt w, rateCount = windowAttempts w + 1, rateLastAt = claimedAt input \<rparr> = Inr g"
      "ratesOnly db db1" "globalRow db1 = Some g" "claimCodeTransaction input secrets db1 = Inr (r, db')"
proof -
  from assms obtain dbp source overall where
    p: "pruneExpiredSources (claimedMs input) (stateTtl policy) (maxTracked policy) db = Inr dbp"
      "readRateSource (claimedSource input) dbp = Inr source" "readRateGlobal dbp = Inr overall"
      "assertNonRegressingRateTime source overall (claimedMs input) = Inr ()"
    by (auto simp: claimTransaction_def)
  note pr = prune_rates [OF p(1)]
  have g: "readRateGlobal db = Inr overall" using p(3) pr by (simp add: readRateGlobal_def)
  have t: "\<not> timeLess (Some (claimedMs input)) (lastOf overall)" using p(4) by (simp add: assertNonRegressingRateTime_def)
  show thesis
  proof (cases "source = None \<and> int (length (sourceRows dbp)) \<ge> maxTracked policy")
    case True
    then show thesis using assms p pr refused by (auto simp: claimTransaction_def)
  next
    case False
    then obtain sw gw where w: "currentWindow source (claimedAt input) (claimedMs input) (claimWindow policy) = Inr sw"
      "currentWindow overall (claimedAt input) (claimedMs input) (claimWindow policy) = Inr gw"
      using assms p by (auto simp: claimTransaction_def)
    show thesis
    proof (cases "windowAttempts sw \<ge> maxPerSource policy \<or> windowAttempts gw \<ge> maxGlobal policy")
      case True
      then have "\<exists>retry. r = Rejected Pairing_claim_rate_limited (Some retry)" "db' = dbp"
        using assms p False w by (auto simp: claimTransaction_def split: if_splits)
      then show thesis using refused pr by auto
    next
      case limits: False
      then obtain dbs dbg where c: "writeRateSource \<lparr> rateKey = claimedSource input, rateStartedAt = windowStartedAt sw,
             rateCount = windowAttempts sw + 1, rateLastAt = claimedAt input \<rparr> dbp = Inr dbs"
          "writeRateGlobal \<lparr> rateKey = pairClaimGlobal, rateStartedAt = windowStartedAt gw,
             rateCount = windowAttempts gw + 1, rateLastAt = claimedAt input \<rparr> dbs = Inr dbg"
          "claimCodeTransaction input secrets dbg = Inr (r, db')"
        using assms p False w by (auto simp: claimTransaction_def)
      obtain g' where g': "parsedRate (\<lambda>k. k = pairClaimGlobal) \<lparr> rateKey = pairClaimGlobal, rateStartedAt = windowStartedAt gw,
             rateCount = windowAttempts gw + 1, rateLastAt = claimedAt input \<rparr> = Inr g'" "dbg = dbs\<lparr> globalRow := Some g' \<rparr>"
        by (rule global_rates [OF c(2)])
      have "ratesOnly db dbg" using pr source_rates [OF c(1)] g'(2) by (simp add: ratesOnly_def)
      then show thesis using counted [OF g t w(2) _ g'(1)] limits g'(2) c(3) by simp
    qed
  qed
qed

lemma claim_keeps:
  assumes "trustOk db"
  shows "trustOk (snd (claim policy input secrets db)) \<and> tablesLater db (snd (claim policy input secrets db))"
proof (cases "andThen (prepareClaimInput input) (\<lambda>p. claimTransaction policy p secrets db)")
  case (Inl e)
  then have "snd (claim policy input secrets db) = db" by (simp add: claim_def immediate_def)
  then show ?thesis using assms by simp
next
  case (Inr x)
  then obtain r db' prepared where x: "claimTransaction policy prepared secrets db = Inr (r, db')"
    "snd (claim policy input secrets db) = db'"
    by (cases x; cases "fst x") (auto simp: claim_def immediate_def)
  have "trustOk db' \<and> tablesLater db db'"
  proof (cases rule: claim_transaction [OF x(1)])
    case (1 e retry)
    then show ?thesis using rates_keep assms by blast
  next
    case (2 overall w g db1)
    note k = rates_keep [OF 2(6) assms]
    show ?thesis
    proof (cases rule: claim_code [OF 2(8)])
      case (1 e retry)
      then show ?thesis using k by simp
    next
      case (2 row q)
      obtain p d token csrf db2 where d: "insertAuthDevice d db1 = Inr (d, db2)"
        "updatePairing (\<lambda>r. pcId r = pcId q \<and> pcVersion r = Some 1 \<and> pcUsedAt r = None \<and> pcRevokedAt r = None)
           (\<lambda>r. r\<lparr> pcUsedAt := Some (claimedAt prepared), pcDevice := Some (adId d) \<rparr>) db2 = Inr (1, db')"
        by (rule claim_device [OF 2(7)])
      note i = insert_device [OF d(1) conjunct1 [OF k]]
      have "codeChange (\<lambda>r. if pcId r = pcId q \<and> pcVersion r = Some 1 \<and> pcUsedAt r = None \<and> pcRevokedAt r = None
          then r\<lparr> pcUsedAt := Some (claimedAt prepared), pcDevice := Some (adId d) \<rparr> else r) db2 db'"
        using update_pairing(1) [OF d(2)] by (simp add: codeChange_def codeLater_def spent_def)
      from code_change_keeps [OF this i(3)] i(4) k show ?thesis using tablesLater_trans by blast
    qed
  qed
  then show ?thesis by (simp add: x(2))
qed

lemma issue_keeps:
  assumes "trustOk db"
  shows "trustOk (snd (issue policy input generated db)) \<and> tablesLater db (snd (issue policy input generated db))"
proof (cases "andThen (prepareIssueInput policy input) (\<lambda>p. issueTransaction p generated db)")
  case (Inl e)
  then have "snd (issue policy input generated db) = db" by (simp add: issue_def immediate_def)
  then show ?thesis using assms by simp
next
  case (Inr x)
  then obtain p where p: "insertPairingCode p db = Inr (snd (issue policy input generated db))"
    by (cases x) (auto simp: issue_def immediate_def issueTransaction_def)
  moreover have "insertPairingCode p db = Inr db' \<Longrightarrow> trustOk db' \<and> tablesLater db db'" for db'
    using assms by (auto simp: insertPairingCode_def trustOk_def tablesLater_def rowsLater_append rowsLater_refl split: if_splits)
  ultimately show ?thesis by blast
qed

lemma revoke_code_cases:
  assumes "fst (revoke ident now db) = Inr p"
  obtains (already) "snd (revoke ident now db) = db" "requirePairingCode db ident = Inr p" "pcRevokedAt p \<noteq> None"
  | (revoked) f where "codeChange f db (snd (revoke ident now db))" "requirePairingCode (snd (revoke ident now db)) ident = Inr p"
      "pcRevokedAt p \<noteq> None"
proof -
  let ?db = "snd (revoke ident now db)"
  from assms obtain t where r: "revokeTransaction ident (toISOString t) t db = Inr (p, ?db)"
    by (auto simp: revoke_def immediate_def parsePairingId_def nowIso_def split: sum.splits option.splits if_splits)
  from r obtain current where c: "requirePairingCode db ident = Inr current" "pcVersion current = Some 1" "pcUsedAt current = None"
    by (auto simp: revokeTransaction_def)
  show thesis
  proof (cases "pcRevokedAt current = None")
    case False
    then show thesis using r c already by (auto simp: revokeTransaction_def)
  next
    case True
    with r c obtain changes where u: "updatePairing (\<lambda>r. pcId r = ident \<and> pcUsedAt r = None \<and> pcRevokedAt r = None)
         (\<lambda>r. r\<lparr> pcRevokedAt := Some (toISOString t) \<rparr>) db = Inr (changes, ?db)" "requirePairingCode ?db ident = Inr p"
      by (auto simp: revokeTransaction_def)
    obtain row where row: "find (\<lambda>p. pcId p = ident) (pairingRows db) = Some row" "pairingCodeRecordSchema row = Some current"
      by (rule require_row [OF c(1)])
    then have "pcId row = ident" by (auto simp: find_Some_iff)
    then have "find (\<lambda>p. pcId p = ident) (pairingRows ?db) = Some (row\<lparr> pcRevokedAt := Some (toISOString t) \<rparr>)"
      unfolding update_pairing(1) [OF u(1)] using row True c(3) code_fields(7,8) [OF row(2)] by (simp add: find_map_key)
    then have "pcRevokedAt p \<noteq> None" using require_row [OF u(2)] code_fields(8) by fastforce
    with u show thesis using update_pairing(1) [OF u(1)]
      by (intro revoked [of "\<lambda>r. if pcId r = ident \<and> pcUsedAt r = None \<and> pcRevokedAt r = None
            then r\<lparr> pcRevokedAt := Some (toISOString t) \<rparr> else r"]) (auto simp: codeChange_def codeLater_def spent_def)
  qed
qed

lemma revoke_keeps:
  assumes "trustOk db"
  shows "trustOk (snd (revoke ident now db)) \<and> tablesLater db (snd (revoke ident now db))"
proof (cases "fst (revoke ident now db)")
  case (Inl e)
  then have "snd (revoke ident now db) = db" by (auto simp: revoke_def immediate_def split: sum.splits)
  then show ?thesis using assms by simp
next
  case (Inr p)
  then show ?thesis using assms code_change_keeps by (cases rule: revoke_code_cases) auto
qed

lemma empty_ok [simp]: "trustOk emptyTables"
  by (simp add: trustOk_def emptyTables_def)

lemma trust_step:
  assumes "trustOk db"
  shows "trustOk (trustStep policy op db) \<and> tablesLater db (trustStep policy op db)"
proof (cases op)
  case (Authenticate raw now)
  then show ?thesis using authenticate_change change_keeps assms by (metis trustStep.simps(4))
next
  case (Rotate_csrf ident generation now generated)
  then show ?thesis using rotate_change [OF assms] change_keeps assms by (metis trustStep.simps(5))
next
  case (Authorize_write ident generation now raw)
  then show ?thesis using authorize_change change_keeps assms by (metis trustStep.simps(6))
next
  case (Revoke_device ident now)
  then show ?thesis using revoke_change change_keeps assms by (metis trustStep.simps(7))
qed (simp_all add: issue_keeps claim_keeps revoke_keeps assms)

interpretation trust: machine "trustStep policy" trustOk tablesLater for policy
  using trust_step tablesLater_refl tablesLater_trans by unfold_locales blast+

end
