(* ===== verification/Trust_Samples.thy ===== *)
theory Trust_Samples
  imports Trust_Histories
begin

text \<open>
  Facts on dates and hashes, and a small history for the witnesses: a code is issued to pair a device
  that may write, and claimed a second later.
\<close>

section \<open>Dates and hashes\<close>

lemma dateOf_toISOString: "fourDigitYear t \<Longrightarrow> dateOf (toISOString t) = Some t"
  by (simp add: dateOf_def parse_toISOString)

lemma iso_toISOString: "fourDigitYear t \<Longrightarrow> isoTimestampSchema (toISOString t) = Some (toISOString t)"
  by (simp add: isoTimestampSchema_def brandedStringSchema_def parse_toISOString)

lemma iso_accepts: "isoTimestampSchema (toISOString t) = Some v \<Longrightarrow> fourDigitYear t \<and> v = toISOString t"
  using parse_toISOString_accepts [of t] parse_toISOString(1) [of t]
  by (auto simp: isoTimestampSchema_def brandedStringSchema_def split: sum.splits if_splits)

lemma hash_units:
  shows "length (hashText s) = 71" "selectedHashPattern (hashText s)" "secretHashOk (hashText s)"
    "c \<in> set (hashText s) \<Longrightarrow> c < 123 \<and> (c = 58 \<or> 48 \<le> c \<and> c \<le> 57 \<or> 97 \<le> c)"
proof -
  show "length (hashText s) = 71" "selectedHashPattern (hashText s)"
    by (simp_all add: hashText_def selectedHashPattern_def startsWith_def sha256_text)
  show c: "c < 123 \<and> (c = 58 \<or> 48 \<le> c \<and> c \<le> 57 \<or> 97 \<le> c)" if "c \<in> set (hashText s)" for c
  proof (cases "c \<in> set (sha256 s)")
    case True
    then show ?thesis using sha256_text(1) [of s] by (auto simp: list_all_iff isHexUnit_def isDigit_def)
  next
    case False
    have "list_all (\<lambda>c. c < 123 \<and> (c = 58 \<or> 48 \<le> c \<and> c \<le> 57 \<or> 97 \<le> c)) (js ''sha256:'')" by code_simp
    then show ?thesis using that False by (auto simp: hashText_def list_all_iff)
  qed
  show "secretHashOk (hashText s)"
    using c by (fastforce simp: secretHashOk_def hashText_def sha256_text list_all_iff isWhitespace_def)
qed

lemma includes_units: "includesText s p \<Longrightarrow> set p \<subseteq> set s"
  by (auto simp: includesText_def list_ex_iff startsWith_def) (metis in_set_dropD in_set_takeD)

section \<open>The history\<close>

definition issuedMs :: int where "issuedMs = 1709164800000"

definition trustPolicy :: pair_policy where
  "trustPolicy = \<lparr> claimWindow = 60000, codeLifetime = 300000, maxPerSource = 5, maxGlobal = 1, maxTracked = 100, stateTtl = 3600000 \<rparr>"

definition sampleCode :: js_string where "sampleCode = replicate 22 89"
definition sampleToken :: js_string where "sampleToken = replicate 43 89"
definition sampleCsrf :: js_string where "sampleCsrf = replicate 42 89 @ [88]"
definition sampleSource :: js_string where "sampleSource = js ''sha256:'' @ replicate 64 48"
definition samplePairId :: js_string where "samplePairId = js ''pair_1''"
definition sampleDeviceId :: js_string where "sampleDeviceId = js ''client_'' @ replicate 24 65"

definition sampleIssue :: trust_op where
  "sampleIssue = Issue_code
     \<lparr> issueId = samplePairId, issuePermission = Permission_write, issueLabel = None, issueCreatedAt = Some issuedMs \<rparr> (Some sampleCode)"

definition sampleInput :: "js_string \<Rightarrow> int \<Rightarrow> claim_input" where
  "sampleInput raw t = \<lparr> claimCode = raw, claimSource = sampleSource, claimNow = Some t, claimLabel = None, claimExpiry = None \<rparr>"

definition sampleSecrets :: generated_secrets where
  "sampleSecrets = \<lparr> generatedDeviceId = Some sampleDeviceId, generatedToken = Some sampleToken, generatedCsrf = Some sampleCsrf \<rparr>"

definition sampleRow :: pairing_code where
  "sampleRow =
     \<lparr> pcId = samplePairId, pcHash = hashText sampleCode, pcPermission = Permission_write, pcLabel = None,
       pcCreatedAt = toISOString issuedMs, pcExpiresAt = toISOString (issuedMs + 300000), pcUsedAt = None, pcRevokedAt = None,
       pcVersion = Some 1, pcDevice = None \<rparr>"

definition sampleDevice :: auth_device where
  "sampleDevice =
     \<lparr> adId = sampleDeviceId, adTokenHash = hashText sampleToken, adCsrfHash = hashText sampleCsrf, adGeneration = 1,
       adRotatedAt = toISOString (issuedMs + 1000), adLabel = None, adPermission = Permission_write,
       adCreatedAt = toISOString (issuedMs + 1000), adLastUsedAt = None, adExpiresAt = None, adRevokedAt = None \<rparr>"

definition sampleRate :: "js_string \<Rightarrow> rate_record" where
  "sampleRate key = \<lparr> rateKey = key, rateStartedAt = toISOString (issuedMs + 1000), rateCount = 1, rateLastAt = toISOString (issuedMs + 1000) \<rparr>"

definition issuedTables :: auth_tables where
  "issuedTables = emptyTables\<lparr> pairingRows := [sampleRow] \<rparr>"

definition claimedTables :: auth_tables where
  "claimedTables =
     \<lparr> deviceRows = [sampleDevice],
       pairingRows = [sampleRow\<lparr> pcUsedAt := Some (toISOString (issuedMs + 1000)), pcDevice := Some sampleDeviceId \<rparr>],
       sourceRows = [sampleRate sampleSource], globalRow = Some (sampleRate pairClaimGlobal) \<rparr>"

lemma sample_years [simp]: "fourDigitYear issuedMs" "fourDigitYear (issuedMs + 1000)" "fourDigitYear (issuedMs + 2000)" "fourDigitYear (issuedMs + 300000)"
  by code_simp+

lemmas sample_dates = sample_years [THEN dateOf_toISOString] sample_years [THEN iso_toISOString]

lemma sample_order:
  "str_less (toISOString issuedMs) (toISOString (issuedMs + 300000))"
  "str_less (toISOString (issuedMs + 1000)) (toISOString (issuedMs + 300000))"
  "\<not> str_less (toISOString (issuedMs + 1000)) (toISOString issuedMs)"
  "\<not> str_less (toISOString (issuedMs + 1000)) (toISOString (issuedMs + 1000))"
  by code_simp+

lemma sample_secrets:
  "selectedRawPairingCodeSchema sampleCode" "selectedRawDeviceSecretSchema sampleToken" "selectedRawDeviceSecretSchema sampleCsrf"
  "assertRawSecret 22 sampleCode = Inr ()" "assertRawSecret 43 sampleToken = Inr ()" "assertRawSecret 43 sampleCsrf = Inr ()"
  "assertRawSecret 24 sampleToken = Inr ()" "assertRawSecret 24 sampleCsrf = Inr ()"
  by (auto simp: sampleCode_def sampleToken_def sampleCsrf_def selectedRawPairingCodeSchema_def selectedRawDeviceSecretSchema_def
      assertRawSecret_def list_all_iff list_ex_iff urlUnit_def isLetter_def isUpper_def isWhitespace_def)

lemma sample_ids:
  "selectedDeviceIdSchema samplePairId" "recordIdOk samplePairId" "recordIdOk sampleDeviceId"
  by code_simp+

lemma sample_distinct: "distinct [sampleCode, sampleToken, sampleCsrf]"
  by (auto simp: sampleCode_def sampleToken_def sampleCsrf_def dest: arg_cong [of _ _ length] arg_cong [of _ _ last])

lemma sample_patterns: "selectedHashPattern sampleSource" "selectedDeviceIdPattern sampleDeviceId"
proof -
  have "length (js ''sha256:'') = 7" "length (js ''client_'') = 7" by code_simp+
  then show "selectedHashPattern sampleSource" "selectedDeviceIdPattern sampleDeviceId"
    by (auto simp: selectedHashPattern_def sampleSource_def selectedDeviceIdPattern_def sampleDeviceId_def startsWith_def list_all_iff
        isHexUnit_def isDigit_def urlUnit_def isLetter_def isUpper_def)
qed

text \<open>The secrets are made of a unit that no other text of the history has.\<close>

lemma sample_separate:
  assumes "secret \<in> {sampleCode, sampleToken, sampleCsrf}"
  shows "\<not> includesText (hashText s) secret" "\<not> includesText sampleSource secret" "\<not> includesText samplePairId secret"
    "\<not> includesText sampleDeviceId secret" "\<not> includesText (toISOString issuedMs) secret"
    "\<not> includesText (toISOString (issuedMs + 1000)) secret" "\<not> includesText (toISOString (issuedMs + 300000)) secret"
proof -
  have s: "89 \<in> set secret" using assms by (auto simp: sampleCode_def sampleToken_def sampleCsrf_def)
  have "89 \<notin> set (hashText s)" using hash_units(4) [of 89 s] by auto
  moreover have "89 \<notin> set sampleSource" "89 \<notin> set samplePairId" "89 \<notin> set sampleDeviceId" "89 \<notin> set (toISOString issuedMs)"
    "89 \<notin> set (toISOString (issuedMs + 1000))" "89 \<notin> set (toISOString (issuedMs + 300000))" by code_simp+
  ultimately show "\<not> includesText (hashText s) secret" "\<not> includesText sampleSource secret" "\<not> includesText samplePairId secret"
    "\<not> includesText sampleDeviceId secret" "\<not> includesText (toISOString issuedMs) secret"
    "\<not> includesText (toISOString (issuedMs + 1000)) secret" "\<not> includesText (toISOString (issuedMs + 300000)) secret"
    using s includes_units by blast+
qed

lemma sample_hash:
  "hashSecret 22 sampleCode = Inr (hashText sampleCode)" "hashSecret 43 sampleToken = Inr (hashText sampleToken)"
  "hashSecret 43 sampleCsrf = Inr (hashText sampleCsrf)" "hashDeviceToken sampleToken = Inr (hashText sampleToken)"
  "hashCsrfToken sampleCsrf = Inr (hashText sampleCsrf)"
  by (simp_all add: hashSecret_def hashDeviceToken_def hashCsrfToken_def deviceSecretMinLength_def sample_secrets)

lemma sample_row: "pairingCodeRecordSchema sampleRow = Some sampleRow" "pairingRowOk sampleRow"
  by (simp_all add: pairingCodeRecordSchema_def sampleRow_def sample_ids hash_units labelOk_def sample_dates nullable_def guard_def
      pairingCodeOk_def dateOfNullable_def timeLess_def timeLessEq_def pairingRowOk_def sample_order)

lemma sample_issue: "runSteps (trustStep trustPolicy) [sampleIssue] emptyTables = issuedTables"
proof -
  have time: "addMilliseconds issuedMs 300000 = Inr (toISOString (issuedMs + 300000))"
    by (simp add: addMilliseconds_def issuedMs_def maxSafe_def)
  have "assertSecretSeparation [sampleCode] [Some samplePairId, None, Some (toISOString issuedMs), Some (toISOString (issuedMs + 300000)),
      Some (hashText sampleCode)] Pairing_issue_failed = Inr ()"
    by (simp add: assertSecretSeparation_def sample_separate throwIf_def)
  then show ?thesis
    by (simp add: sampleIssue_def issue_def immediate_def prepareIssueInput_def nowIso_def parsePairingId_def sample_ids
        parseClientLabel_def pairingClientLabelSchema_def trustPolicy_def time issueTransaction_def generateSelectedValue_def
        sample_secrets hashSelectedPairingCode_def sample_hash parseSelectedPairingCode_def sample_row [unfolded sampleRow_def]
        insertPairingCode_def emptyTables_def issuedTables_def sampleRow_def)
qed

definition samplePrepared :: "js_string \<Rightarrow> int \<Rightarrow> prepared_claim" where
  "samplePrepared raw t =
     \<lparr> claimedCode = raw, claimedSource = sampleSource, claimedAt = toISOString t, claimedMs = t, claimedLabel = None, claimedExpiry = None \<rparr>"

lemma sample_prepared:
  "selectedRawPairingCodeSchema raw \<Longrightarrow> prepareClaimInput (sampleInput raw t) = Inr (samplePrepared raw t)"
  by (simp add: prepareClaimInput_def sampleInput_def samplePrepared_def nowIso_def parseSourceKey_def sample_patterns
      parseClientLabel_def pairingClientLabelSchema_def throwIf_def)

lemma sample_device: "parseAuthDevice sampleDevice = Inr sampleDevice"
  by (simp add: parseAuthDevice_def authDeviceRecordSchema_def sampleDevice_def sample_ids hash_units labelOk_def sample_dates
      nullable_def guard_def deviceTimesOk_def dateOfNullable_def timeLess_def timeLessEq_def maxSafe_def)

lemma claimed_row:
  defines "row \<equiv> sampleRow\<lparr> pcUsedAt := Some (toISOString (issuedMs + 1000)), pcDevice := Some sampleDeviceId \<rparr>"
  shows "pairingCodeRecordSchema row = Some row" "pairingRowOk row"
  by (simp_all add: row_def pairingCodeRecordSchema_def sampleRow_def sample_ids hash_units labelOk_def sample_dates nullable_def guard_def
      pairingCodeOk_def dateOfNullable_def timeLess_def timeLessEq_def pairingRowOk_def sample_order)

lemma sample_rate: "keyOk key \<Longrightarrow> parsedRate keyOk (sampleRate key) = Inr (sampleRate key)"
  by (simp add: parsedRate_def rateRecordSchema_def sampleRate_def guard_def sample_dates maxSafe_def timeLess_def sample_order)

lemma sample_counted:
  "claimTransaction trustPolicy (samplePrepared raw (issuedMs + 1000)) secrets issuedTables =
   claimCodeTransaction (samplePrepared raw (issuedMs + 1000)) secrets
     (issuedTables\<lparr> sourceRows := [sampleRate sampleSource], globalRow := Some (sampleRate pairClaimGlobal) \<rparr>)"
proof -
  have time: "addMilliseconds (issuedMs + 1000) (- 3600000) = Inr (toISOString (issuedMs - 3599000))"
    "addMilliseconds (issuedMs + 1000) 60000 = Inr (toISOString (issuedMs + 61000))"
    by (simp_all add: addMilliseconds_def issuedMs_def maxSafe_def)
  note rates = sample_rate [of selectedHashPattern, OF sample_patterns(1)] sample_rate [of "\<lambda>k. k = pairClaimGlobal", OF refl]
  show ?thesis
    using rates
    by (simp add: claimTransaction_def samplePrepared_def pruneExpiredSources_def trustPolicy_def time issuedTables_def emptyTables_def
        orderBy_def readRateSource_def readRateGlobal_def parseRate_def assertNonRegressingRateTime_def lastOf_def timeLess_def throwIf_def
        currentWindow_def writeRateSource_def writeRateGlobal_def sampleRate_def)
qed

lemma sample_claim_device:
  assumes "db = issuedTables\<lparr> sourceRows := [sampleRate sampleSource], globalRow := Some (sampleRate pairClaimGlobal) \<rparr>"
  shows "claimDevice (samplePrepared sampleCode (issuedMs + 1000)) sampleSecrets sampleRow db =
    Inr (Claimed (hd (pairingRows claimedTables)) sampleDevice sampleToken sampleCsrf, claimedTables)"
proof -
  have apart: "assertSecretSeparation [sampleCode, sampleToken, sampleCsrf]
      [Some sampleSource, Some (toISOString (issuedMs + 1000)), Some samplePairId, Some (hashText sampleCode), None,
       Some sampleDeviceId, None, Some (hashText sampleToken), Some (hashText sampleCsrf)] Pairing_claim_failed = Inr ()"
    unfolding assertSecretSeparation_def using sample_distinct by (simp add: sample_separate throwIf_def)
  have device: "authDeviceFromInput sampleDeviceId sampleToken sampleCsrf Permission_write None (Some (issuedMs + 1000)) None = Inr sampleDevice"
    using sample_device by (simp add: authDeviceFromInput_def nowIso_def sample_hash sampleDevice_def)
  have rows: "updatePairing (\<lambda>r. pcId r = samplePairId \<and> pcVersion r = Some 1 \<and> pcUsedAt r = None \<and> pcRevokedAt r = None)
      (\<lambda>r. r\<lparr> pcUsedAt := Some (toISOString (issuedMs + 1000)), pcDevice := Some sampleDeviceId \<rparr>)
      (db\<lparr> deviceRows := [sampleDevice] \<rparr>) = Inr (1, claimedTables)"
    using claimed_row(2) by (simp add: updatePairing_def updateRows_def assms issuedTables_def emptyTables_def claimedTables_def sampleRow_def sampleDevice_def)
  have "requirePairingCode claimedTables samplePairId = Inr (hd (pairingRows claimedTables))"
    using claimed_row(1) by (simp add: requirePairingCode_def readPairingCodeById_def readPairingRow_def claimedTables_def
        parseStoredPairingCode_def assertClaimedDeviceOwnerExists_def sampleRow_def sampleDevice_def)
  then show ?thesis
    using apart device rows sample_patterns(2)
    by (simp add: claimDevice_def samplePrepared_def sampleSecrets_def sampleRow_def generateSelectedValue_def sample_secrets sample_hash
        insertAuthDevice_def assms issuedTables_def emptyTables_def sampleDevice_def throwIf_def Let_def)
qed

lemma sample_claim:
  "claim trustPolicy (sampleInput sampleCode (issuedMs + 1000)) sampleSecrets issuedTables =
   (Inr (hd (pairingRows claimedTables), sampleDevice, sampleToken, sampleCsrf), claimedTables)"
proof -
  define db where "db = issuedTables\<lparr> sourceRows := [sampleRate sampleSource], globalRow := Some (sampleRate pairClaimGlobal) \<rparr>"
  have "readPairingCodeByHash db (hashText sampleCode) = Inr (Some sampleRow)"
    using sample_row(1) by (simp add: readPairingCodeByHash_def readPairingRow_def db_def issuedTables_def parseStoredPairingCode_def
        assertClaimedDeviceOwnerExists_def sampleRow_def)
  moreover have "hashSelectedPairingCode (claimedCode (samplePrepared sampleCode (issuedMs + 1000))) = Inr (hashText sampleCode)"
    by (simp add: samplePrepared_def hashSelectedPairingCode_def sample_hash)
  moreover have "pcVersion sampleRow = Some 1" "pcRevokedAt sampleRow = None" "pcUsedAt sampleRow = None"
    "\<not> timeLess (Some (claimedMs (samplePrepared sampleCode (issuedMs + 1000)))) (dateOf (pcCreatedAt sampleRow))"
    "\<not> timeLessEq (dateOf (pcExpiresAt sampleRow)) (Some (claimedMs (samplePrepared sampleCode (issuedMs + 1000))))"
    by (simp_all add: sampleRow_def samplePrepared_def sample_dates timeLess_def timeLessEq_def)
  ultimately have "claimTransaction trustPolicy (samplePrepared sampleCode (issuedMs + 1000)) sampleSecrets issuedTables =
      Inr (Claimed (hd (pairingRows claimedTables)) sampleDevice sampleToken sampleCsrf, claimedTables)"
    by (simp add: sample_counted db_def [symmetric] claimCodeTransaction_def sample_claim_device [OF db_def])
  then show ?thesis by (simp add: claim_def immediate_def sample_prepared sample_secrets)
qed

lemma sample_history:
  "runSteps (trustStep trustPolicy) [sampleIssue, Claim_code (sampleInput sampleCode (issuedMs + 1000)) sampleSecrets] emptyTables = claimedTables"
  using sample_issue by (simp add: sample_claim)

text \<open>The code revoked, and the device revoked.\<close>

definition revokedRow :: pairing_code where
  "revokedRow = sampleRow\<lparr> pcRevokedAt := Some (toISOString (issuedMs + 1000)) \<rparr>"

lemma revoked_row: "pairingCodeRecordSchema revokedRow = Some revokedRow" "pairingRowOk revokedRow"
  by (simp_all add: revokedRow_def pairingCodeRecordSchema_def sampleRow_def sample_ids hash_units labelOk_def sample_dates nullable_def
      guard_def pairingCodeOk_def dateOfNullable_def timeLess_def timeLessEq_def pairingRowOk_def sample_order)

lemma sample_revoke:
  "revoke samplePairId (Some (issuedMs + 1000)) issuedTables = (Inr revokedRow, issuedTables\<lparr> pairingRows := [revokedRow] \<rparr>)"
proof -
  have "requirePairingCode issuedTables samplePairId = Inr sampleRow"
    using sample_row(1) by (simp add: requirePairingCode_def readPairingCodeById_def readPairingRow_def issuedTables_def
        parseStoredPairingCode_def assertClaimedDeviceOwnerExists_def sampleRow_def)
  moreover have "requirePairingCode (issuedTables\<lparr> pairingRows := [revokedRow] \<rparr>) samplePairId = Inr revokedRow"
    using revoked_row(1) by (simp add: requirePairingCode_def readPairingCodeById_def readPairingRow_def
        parseStoredPairingCode_def assertClaimedDeviceOwnerExists_def sampleRow_def revokedRow_def)
  moreover have "updatePairing (\<lambda>r. pcId r = samplePairId \<and> pcUsedAt r = None \<and> pcRevokedAt r = None)
      (\<lambda>r. r\<lparr> pcRevokedAt := Some (toISOString (issuedMs + 1000)) \<rparr>) issuedTables =
      Inr (1, issuedTables\<lparr> pairingRows := [revokedRow] \<rparr>)"
    using revoked_row(2) by (simp add: updatePairing_def updateRows_def issuedTables_def emptyTables_def sampleRow_def revokedRow_def)
  ultimately show ?thesis
    by (simp add: revoke_def immediate_def parsePairingId_def sample_ids nowIso_def revokeTransaction_def throwIf_def)
      (simp add: sampleRow_def sample_dates timeLess_def)
qed

lemma sample_revoke_device:
  "fst (revokeDevice sampleDeviceId (Some (issuedMs + 2000)) claimedTables) =
   Inr (sampleDeviceId, toISOString (issuedMs + 2000), False)"
proof -
  define revoked where "revoked = sampleDevice\<lparr> adRevokedAt := Some (toISOString (issuedMs + 2000)) \<rparr>"
  have ident: "selectedDeviceIdSchema sampleDeviceId" by code_simp
  have row: "deviceRows claimedTables = [sampleDevice]" "adId sampleDevice = sampleDeviceId" "adRevokedAt sampleDevice = None"
    "adId revoked = sampleDeviceId" by (simp_all add: claimedTables_def sampleDevice_def revoked_def)
  have parsed: "parseAuthDevice revoked = Inr revoked"
    by (simp add: revoked_def parseAuthDevice_def authDeviceRecordSchema_def sampleDevice_def sample_ids hash_units labelOk_def
        sample_dates nullable_def guard_def deviceTimesOk_def dateOfNullable_def timeLess_def timeLessEq_def maxSafe_def)
  have times: "assertNonRegressingRevocationTime sampleDevice (issuedMs + 2000) = Inr ()"
    by (simp add: assertNonRegressingRevocationTime_def sampleDevice_def sample_dates dateOfNullable_def timeLess_def throwIf_def)
  have same: "sameAuthorityState sampleDevice revoked" "adRevokedAt revoked = Some (toISOString (issuedMs + 2000))"
    by (simp_all add: sameAuthorityState_def revoked_def sampleDevice_def)
  have result: "revocationResult sampleDeviceId (toISOString (issuedMs + 2000)) False = Inr (sampleDeviceId, toISOString (issuedMs + 2000), False)"
    by (simp add: revocationResult_def ident sample_dates)
  show ?thesis
    using times same result
    by (simp add: revokeDevice_def immediate_def ident requireDevice_def row sample_device updateRows_def revoked_def [symmetric] parsed throwIf_def)
qed

end
