(* ===== verification/Trust_Properties.thy ===== *)
theory Trust_Properties
  imports Trust_Samples
begin

text \<open>
  What holds over every history of the operations on devices and pairing codes: a code is claimed
  once, wrong guesses are bounded, a revoked device stays out, a claimed one gets in.
\<close>

lemma find_distinct_key:
  assumes "distinct (map key rows)" "r \<in> set rows" "key r = k"
  shows "find (\<lambda>r. key r = k) rows = Some r"
  using assms by (induction rows) auto

section \<open>Codes that are spent\<close>

lemma claim_returns:
  assumes "fst (claim policy input secrets db) = Inr (p, d, token, csrf)"
  obtains prepared where "prepareClaimInput input = Inr prepared"
    "claimTransaction policy prepared secrets db = Inr (Claimed p d token csrf, snd (claim policy input secrets db))"
proof (cases "andThen (prepareClaimInput input) (\<lambda>p. claimTransaction policy p secrets db)")
  case (Inl e)
  then show thesis using assms by (simp add: claim_def immediate_def)
next
  case (Inr x)
  then show thesis using assms that by (cases x; cases "fst x") (auto simp: claim_def immediate_def)
qed

lemma prepared_claim_fields:
  assumes "prepareClaimInput input = Inr prepared"
  shows "claimedCode prepared = claimCode input" "claimNow input = Some (claimedMs prepared)"
    "claimedAt prepared = toISOString (claimedMs prepared)"
    "map_option Some (claimedExpiry prepared) = claimExpiry input"
    "claimedExpiry prepared = Some e \<Longrightarrow> claimedMs prepared < e"
  using assms by (auto simp: prepareClaimInput_def nowIso_def parseSourceKey_def parseClientLabel_def throwIf_def
      split: option.splits if_splits prod.splits)

text \<open>A claim that returns a device found an unspent code and counted itself.\<close>

lemma claim_succeeds:
  assumes "fst (claim policy input secrets db) = Inr (p, d, token, csrf)"
  obtains prepared db1 row q where "prepareClaimInput input = Inr prepared" "ratesOnly db db1"
    "find (\<lambda>p. pcHash p = hashText (claimCode input)) (pairingRows db) = Some row" "pairingCodeRecordSchema row = Some q"
    "pcVersion q = Some 1" "\<not> spent q"
    "claimDevice prepared secrets q db1 = Inr (Claimed p d token csrf, snd (claim policy input secrets db))"
proof -
  obtain prepared where c: "prepareClaimInput input = Inr prepared"
    "claimTransaction policy prepared secrets db = Inr (Claimed p d token csrf, snd (claim policy input secrets db))"
    by (rule claim_returns [OF assms])
  show thesis
  proof (cases rule: claim_transaction [OF c(2)])
    case (1 e retry)
    then show thesis by simp
  next
    case (2 overall w g db1)
    show thesis
    proof (cases rule: claim_code [OF 2(8)])
      case (1 e retry)
      then show thesis by simp
    next
      case claimed: (2 row q)
      then show thesis using 2(6) c(1) prepared_claim_fields(1) [OF c(1)] by (intro that [of prepared db1 row q]) (auto simp: ratesOnly_def)
    qed
  qed
qed

lemma spent_parsed: "pairingCodeRecordSchema row = Some q \<Longrightarrow> spent q = spent row"
  using code_fields(7,8) by (simp add: spent_def)

lemma claim_spends:
  assumes "fst (claim policy input secrets db) = Inr (p, d, token, csrf)"
  obtains row where "find (\<lambda>p. pcHash p = hashText (claimCode input)) (pairingRows (snd (claim policy input secrets db))) = Some row"
    "spent row" "pcDevice row = Some (adId d)"
proof -
  obtain prepared db1 row q where s: "ratesOnly db db1" "find (\<lambda>p. pcHash p = hashText (claimCode input)) (pairingRows db) = Some row"
    "pairingCodeRecordSchema row = Some q" "pcVersion q = Some 1" "\<not> spent q"
    "claimDevice prepared secrets q db1 = Inr (Claimed p d token csrf, snd (claim policy input secrets db))"
    by (rule claim_succeeds [OF assms])
  obtain db2 where u: "insertAuthDevice d db1 = Inr (d, db2)"
    "updatePairing (\<lambda>r. pcId r = pcId q \<and> pcVersion r = Some 1 \<and> pcUsedAt r = None \<and> pcRevokedAt r = None)
       (\<lambda>r. r\<lparr> pcUsedAt := Some (claimedAt prepared), pcDevice := Some (adId d) \<rparr>) db2 =
     Inr (1, snd (claim policy input secrets db))"
    by (rule claim_device [OF s(6)]) auto
  have "pairingRows db2 = pairingRows db" using u(1) s(1) by (auto simp: insertAuthDevice_def ratesOnly_def split: if_splits)
  then have "find (\<lambda>p. pcHash p = hashText (claimCode input)) (pairingRows (snd (claim policy input secrets db))) =
      Some (row\<lparr> pcUsedAt := Some (claimedAt prepared), pcDevice := Some (adId d) \<rparr>)"
    unfolding update_pairing(1) [OF u(2)] using s(2,4,5) code_fields [OF s(3)] by (simp add: find_map_key spent_def)
  then show thesis by (rule that) (simp_all add: spent_def)
qed

lemma claim_refused:
  assumes "find (\<lambda>p. pcHash p = hashText (claimCode input)) (pairingRows db) = Some row" "spent row"
  obtains e where "fst (claim policy input secrets db) = Inl e" "ratesOnly db (snd (claim policy input secrets db))"
proof (cases "andThen (prepareClaimInput input) (\<lambda>p. claimTransaction policy p secrets db)")
  case (Inl e)
  then show thesis using that by (simp add: claim_def immediate_def ratesOnly_def)
next
  case (Inr x)
  then obtain r db' prepared where x: "prepareClaimInput input = Inr prepared" "claimTransaction policy prepared secrets db = Inr (r, db')"
    "x = (r, db')" by (cases x) auto
  have "\<exists>e retry. r = Rejected e retry \<and> ratesOnly db db'"
  proof (cases rule: claim_transaction [OF x(2)])
    case (1 e retry)
    then show ?thesis by blast
  next
    case (2 overall w g db1)
    show ?thesis
    proof (cases rule: claim_code [OF 2(8)])
      case (1 e retry)
      then show ?thesis using 2(6) by simp
    next
      case claimed: (2 row' q)
      then have "row' = row" using assms(1) 2(6) prepared_claim_fields(1) [OF x(1)] by (simp add: ratesOnly_def)
      then show ?thesis using claimed(2,4) assms(2) spent_parsed by blast
    qed
  qed
  then show thesis using Inr x(3) that by (auto simp: claim_def immediate_def)
qed

lemma hash_later:
  assumes "find (\<lambda>p. pcHash p = k) (pairingRows db) = Some row" "spent row" "tablesLater db db'"
  shows "find (\<lambda>p. pcHash p = k) (pairingRows db') = Some row"
proof -
  have l: "rowsLater codeLater (pairingRows db) (pairingRows db')" using assms(3) by (simp add: tablesLater_def)
  obtain r where "find (\<lambda>p. pcHash p = k) (pairingRows db') = Some r" "codeLater row r"
    by (rule find_later [OF assms(1) l]) (auto simp: codeLater_def)
  with assms(2) show ?thesis by (simp add: codeLater_def)
qed

lemma reached_ok: "trustOk (runSteps (trustStep policy) ops emptyTables)"
  by (simp add: trust.run_ok)

text \<open>C6: a pairing code is claimed once. After a claim that succeeded in a history that began with
  empty tables, and after any operations that follow it, every claim with the same code fails and
  leaves devices and codes as they are, and the code's row still names the device it was claimed for.\<close>

theorem pairing_code_claimed_once:
  assumes "db = runSteps (trustStep policy) ops emptyTables" "fst (claim policy input secrets db) = Inr (p, d, token, csrf)"
    and "db' = runSteps (trustStep policy) ops' (snd (claim policy input secrets db))" "claimCode again = claimCode input"
  shows "\<exists>e. fst (claim policy again secrets' db') = Inl e \<and>
    deviceRows (snd (claim policy again secrets' db')) = deviceRows db' \<and>
    pairingRows (snd (claim policy again secrets' db')) = pairingRows db' \<and>
    (\<exists>row. find (\<lambda>p. pcHash p = hashText (claimCode input)) (pairingRows db') = Some row \<and> pcDevice row = Some (adId d))"
proof -
  obtain row where row: "find (\<lambda>p. pcHash p = hashText (claimCode input)) (pairingRows (snd (claim policy input secrets db))) = Some row"
    "spent row" "pcDevice row = Some (adId d)" by (rule claim_spends [OF assms(2)])
  have "tablesLater (snd (claim policy input secrets db)) db'"
    unfolding assms(3) using claim_keeps reached_ok by (intro trust.run_later) (auto simp: assms(1))
  note later = hash_later [OF row(1,2) this]
  then obtain e where "fst (claim policy again secrets' db') = Inl e" "ratesOnly db' (snd (claim policy again secrets' db'))"
    using claim_refused [of again] row(2) assms(4) by metis
  then show ?thesis using later row(3) by (simp add: ratesOnly_def)
qed

theorem pairing_code_claimed_once_witness:
  "\<exists>e. fst (claim trustPolicy (sampleInput sampleCode (issuedMs + 2000)) sampleSecrets claimedTables) = Inl e"
  using pairing_code_claimed_once [of issuedTables trustPolicy "[sampleIssue]" "sampleInput sampleCode (issuedMs + 1000)" sampleSecrets _ _ _ _
    claimedTables "[]" "sampleInput sampleCode (issuedMs + 2000)" sampleSecrets, OF sample_issue [symmetric]]
  by (simp add: sample_claim sampleInput_def [of _ "issuedMs + 2000"]) (simp add: sampleInput_def)

text \<open>A revoked pairing code stays revoked. After a revocation that succeeded, and after any
  operations that follow it, a claim with a code of that hash fails and leaves devices and codes as
  they are.\<close>

theorem revoked_code_never_claimed:
  assumes "db = runSteps (trustStep policy) ops emptyTables" "fst (revoke ident now db) = Inr p"
    and "db' = runSteps (trustStep policy) ops' (snd (revoke ident now db))" "hashText (claimCode input) = pcHash p"
  shows "\<exists>e. fst (claim policy input secrets db') = Inl e \<and>
    deviceRows (snd (claim policy input secrets db')) = deviceRows db' \<and>
    pairingRows (snd (claim policy input secrets db')) = pairingRows db'"
proof -
  let ?db = "snd (revoke ident now db)"
  have ok: "trustOk ?db" using revoke_keeps reached_ok by (simp add: assms(1))
  have "requirePairingCode ?db ident = Inr p \<and> pcRevokedAt p \<noteq> None" using assms(2) by (cases rule: revoke_code_cases) auto
  then obtain row where row: "find (\<lambda>p. pcId p = ident) (pairingRows ?db) = Some row" "pairingCodeRecordSchema row = Some p" "spent p"
    using require_row by (metis spent_def)
  then have s: "spent row" "pcHash row = pcHash p" using spent_parsed code_fields(2) by auto
  have "find (\<lambda>q. pcHash q = pcHash p) (pairingRows ?db) = Some row"
    using ok row(1) s(2) by (intro find_distinct_key) (auto simp: trustOk_def find_Some_iff)
  from hash_later [OF this s(1)] have "find (\<lambda>q. pcHash q = pcHash p) (pairingRows db') = Some row"
    using trust.run_later [OF ok] by (simp add: assms(3))
  then have "find (\<lambda>q. pcHash q = hashText (claimCode input)) (pairingRows db') = Some row" using assms(4) by simp
  then obtain e where "fst (claim policy input secrets db') = Inl e" "ratesOnly db' (snd (claim policy input secrets db'))"
    using s(1) by (rule claim_refused)
  then show ?thesis by (simp add: ratesOnly_def)
qed

theorem revoked_code_never_claimed_witness:
  "\<exists>e. fst (claim trustPolicy (sampleInput sampleCode (issuedMs + 2000)) sampleSecrets (issuedTables\<lparr> pairingRows := [revokedRow] \<rparr>)) = Inl e"
proof -
  have "fst (revoke samplePairId (Some (issuedMs + 1000)) issuedTables) = Inr revokedRow" by (simp add: sample_revoke)
  moreover have "issuedTables\<lparr> pairingRows := [revokedRow] \<rparr> =
      runSteps (trustStep trustPolicy) [] (snd (revoke samplePairId (Some (issuedMs + 1000)) issuedTables))" by (simp add: sample_revoke)
  moreover have "hashText (claimCode (sampleInput sampleCode (issuedMs + 2000))) = pcHash revokedRow"
    by (simp add: sampleInput_def revokedRow_def sampleRow_def)
  ultimately show ?thesis using revoked_code_never_claimed [OF sample_issue [symmetric]] by blast
qed

section \<open>Devices that are revoked\<close>

lemma immediate_returns: "fst (immediate f db) = Inr r \<Longrightarrow> f db = Inr (r, snd (immediate f db))"
  by (auto simp: immediate_def split: sum.splits)

lemma revoke_device_row:
  assumes "fst (revokeDevice ident now db) = Inr r"
  obtains row where "find (\<lambda>d. adId d = ident) (deviceRows (snd (revokeDevice ident now db))) = Some row" "adRevokedAt row \<noteq> None"
proof -
  let ?db = "snd (revokeDevice ident now db)"
  obtain t current row where t: "now = Some t" "selectedDeviceIdSchema ident" "requireDevice ident db = Inr (current, row)"
    "assertNonRegressingRevocationTime current t = Inr ()"
    using assms by (cases now) (auto simp: revokeDevice_def immediate_def split: sum.splits if_splits)
  have "\<exists>d row. requireDevice ident ?db = Inr (d, row) \<and> adRevokedAt d \<noteq> None"
  proof (cases "adRevokedAt current")
    case None
    let ?rows = "map (\<lambda>r. if r = row \<and> adRevokedAt r = None then r\<lparr> adRevokedAt := Some (toISOString t) \<rparr> else r) (deviceRows db)"
    let ?n = "length (filter (\<lambda>r. r = row \<and> adRevokedAt r = None) (deviceRows db))"
    have "andThen (throwIf (?n \<noteq> 1) Device_revoke_failed) (\<lambda>_.
        andThen (requireDevice ident (db\<lparr> deviceRows := ?rows \<rparr>)) (\<lambda>(revoked, _).
        andThen (throwIf (adRevokedAt revoked \<noteq> Some (toISOString t) \<or> \<not> sameAuthorityState current revoked) Device_revoke_failed) (\<lambda>_.
        andThen (revocationResult (adId revoked) (toISOString t) False) (\<lambda>r. Inr (r, db\<lparr> deviceRows := ?rows \<rparr>))))) = Inr (r, ?db)"
      using immediate_returns [OF assms [unfolded revokeDevice_def], folded revokeDevice_def] None t by (simp add: updateRows_def)
    then have "?db = db\<lparr> deviceRows := ?rows \<rparr>" "\<exists>d row'. requireDevice ident (db\<lparr> deviceRows := ?rows \<rparr>) = Inr (d, row') \<and> adRevokedAt d \<noteq> None"
      by (auto simp only: andThen_Inr_iff throwIf_Inr split_paired_all split_paired_Ex prod.case prod.inject sum.inject simp_thms option.simps)
    then show ?thesis by auto
  next
    case (Some w)
    then have "?db = db" using assms t by (auto simp: revokeDevice_def immediate_def split: sum.splits)
    then show ?thesis using t(3) Some by simp
  qed
  then obtain d row where "find (\<lambda>d. adId d = ident) (deviceRows ?db) = Some row" "parseAuthDevice row = Inr d" "adRevokedAt d \<noteq> None"
    by (auto simp: requireDevice_def split: option.splits)
  then show thesis using device_fields(7) by (intro that [of row]) auto
qed

lemma revoked_later:
  assumes "find (\<lambda>d. adId d = ident) (deviceRows db) = Some row" "adRevokedAt row \<noteq> None" "tablesLater db db'"
  shows "find (\<lambda>d. adId d = ident) (deviceRows db') = Some row"
proof -
  have l: "rowsLater deviceLater (deviceRows db) (deviceRows db')" using assms(3) by (simp add: tablesLater_def)
  obtain r where "find (\<lambda>d. adId d = ident) (deviceRows db') = Some r" "deviceLater row r"
    by (rule find_later [OF assms(1) l]) (auto simp: deviceLater_def)
  with assms(2) show ?thesis by (simp add: deviceLater_def)
qed

lemma revoked_unusable:
  assumes "find (\<lambda>d. adId d = ident) (deviceRows db) = Some row" "adRevokedAt row \<noteq> None"
  shows "isl (requireUsableDeviceById ident now db)"
proof (rule ccontr)
  assume "\<not> isl (requireUsableDeviceById ident now db)"
  then obtain d where "usableDevice (Some row) now = Inr d"
    using assms(1) by (cases "requireUsableDeviceById ident now db") (auto simp: requireUsableDeviceById_def)
  then show False using assms(2) by (auto elim: usable_row)
qed

lemma advance_id:
  assumes "advanceLastUsedAt current t db = Inr (d, db')"
  shows "adId d = adId current"
proof (cases "dateOfNullable (adLastUsedAt current) = Some t")
  case True
  then show ?thesis using assms by (auto simp: advanceLastUsedAt_def)
next
  case False
  then obtain rows row where "find (\<lambda>d. adId d = adId current) rows = Some row" "parseAuthDevice row = Inr d"
    using assms by (auto simp: advanceLastUsedAt_def split: prod.splits option.splits)
  then show ?thesis using device_fields(1) by (auto simp: find_Some_iff)
qed

lemma authenticated_row:
  assumes "fst (authenticateDeviceToken raw now db) = Inr (readOnly, d)"
  obtains r where "r \<in> set (deviceRows db)" "adId r = adId d" "adRevokedAt r = None"
proof -
  obtain current t db' where c: "requireUsableDeviceByToken raw now db = Inr current" "advanceLastUsedAt current t db = Inr (d, db')"
    using assms by (auto simp: authenticateDeviceToken_def immediate_def split: sum.splits)
  obtain r where "find (\<lambda>d. adTokenHash d = hashText raw) (deviceRows db) = Some r" "parseAuthDevice r = Inr current" "adRevokedAt r = None"
    using c(1) by (auto simp: requireUsableDeviceByToken_def hashDeviceToken_def hashSecret_def elim: usable_row)
  then show thesis using advance_id [OF c(2)] device_fields(1) by (intro that [of r]) (auto simp: find_Some_iff)
qed

text \<open>C8: a revoked device stays out. After a revocation of the device that succeeded, and after any
  operations that follow it, no token authenticates as that device, it is not authorized to write
  whatever CSRF token and generation it shows, and it gets no new CSRF token.\<close>

theorem revoked_device_stays_out:
  assumes "db = runSteps (trustStep policy) ops emptyTables" "fst (revokeDevice ident now db) = Inr r"
    and "db' = runSteps (trustStep policy) ops' (snd (revokeDevice ident now db))"
  shows "(\<forall>readOnly d. fst (authenticateDeviceToken token t db') = Inr (readOnly, d) \<longrightarrow> adId d \<noteq> ident) \<and>
    isl (fst (authorizeBrowserWrite ident generation t csrf db')) \<and> isl (fst (rotateBootstrap ident generation t generated db'))"
proof -
  have ok: "trustOk (snd (revokeDevice ident now db))" using revoke_change change_keeps(1) reached_ok by (metis assms(1))
  obtain row where row: "find (\<lambda>d. adId d = ident) (deviceRows (snd (revokeDevice ident now db))) = Some row" "adRevokedAt row \<noteq> None"
    by (rule revoke_device_row [OF assms(2)])
  have later: "find (\<lambda>d. adId d = ident) (deviceRows db') = Some row"
    unfolding assms(3) by (rule revoked_later [OF row trust.run_later [OF ok]])
  have ok': "distinct (map adId (deviceRows db'))" using trust.run_ok [OF ok] by (simp add: assms(3) trustOk_def)
  have out: "requireUsableDeviceById ident now db' \<noteq> Inr x" for now x using revoked_unusable [OF later row(2), of now] by auto
  have "adId d \<noteq> ident" if "fst (authenticateDeviceToken token t db') = Inr (readOnly, d)" for readOnly d
    using that by (rule authenticated_row) (use find_unique [OF ok' later] row(2) in metis)
  moreover have "isl (fst (authorizeBrowserWrite ident generation t csrf db'))"
    using out by (auto simp: authorizeBrowserWrite_def immediate_def isl_def split: sum.splits)
  moreover have "isl (fst (rotateBootstrap ident generation t generated db'))"
    using out by (auto simp: rotateBootstrap_def immediate_def isl_def split: sum.splits)
  ultimately show ?thesis by blast
qed

theorem revoked_device_stays_out_witness:
  "isl (fst (authorizeBrowserWrite sampleDeviceId 1 (Some (issuedMs + 3000)) sampleCsrf
    (snd (revokeDevice sampleDeviceId (Some (issuedMs + 2000)) claimedTables))))"
  using revoked_device_stays_out [OF sample_history [symmetric] sample_revoke_device runSteps_simps(1) [symmetric]] by blast

section \<open>Devices that are claimed\<close>

lemma isNullable: "nullable isoTimestampSchema (map_option toISOString v) = Some w \<Longrightarrow>
  w = map_option toISOString v \<and> (\<forall>t. v = Some t \<longrightarrow> fourDigitYear t)"
  by (cases v) (auto simp: nullable_def dest: iso_accepts)

text \<open>A device that a claim makes is one its schema keeps as it is.\<close>

lemma made_device:
  assumes "authDeviceFromInput ident token csrf permission label (Some t) (map_option Some expiry) = Inr d"
  shows "d = \<lparr> adId = ident, adTokenHash = hashText token, adCsrfHash = hashText csrf, adGeneration = 1, adRotatedAt = toISOString t,
      adLabel = label, adPermission = permission, adCreatedAt = toISOString t, adLastUsedAt = None,
      adExpiresAt = map_option toISOString expiry, adRevokedAt = None \<rparr>"
    "parseAuthDevice d = Inr d" "fourDigitYear t" "expiry = Some e \<Longrightarrow> fourDigitYear e"
    "hashDeviceToken token = Inr (hashText token)" "hashCsrfToken csrf = Inr (hashText csrf)"
proof -
  let ?d = "\<lparr> adId = ident, adTokenHash = hashText token, adCsrfHash = hashText csrf, adGeneration = 1, adRotatedAt = toISOString t,
      adLabel = label, adPermission = permission, adCreatedAt = toISOString t, adLastUsedAt = None,
      adExpiresAt = map_option toISOString expiry, adRevokedAt = None \<rparr>"
  have hashes: "hashDeviceToken token = Inr (hashText token)" "hashCsrfToken csrf = Inr (hashText csrf)" and p: "parseAuthDevice ?d = Inr d"
    using assms by (cases expiry; auto simp: authDeviceFromInput_def nowIso_def hashDeviceToken_def hashCsrfToken_def hashSecret_def)+
  from p obtain r c x where f: "isoTimestampSchema (toISOString t) = Some r" "isoTimestampSchema (toISOString t) = Some c"
    "nullable isoTimestampSchema (map_option toISOString expiry) = Some x"
    "d = ?d\<lparr> adRotatedAt := r, adCreatedAt := c, adLastUsedAt := None, adExpiresAt := x, adRevokedAt := None \<rparr>"
    by (auto simp: parseAuthDevice_def authDeviceRecordSchema_def bind_eq_Some_conv Let_def nullable_def split: option.splits)
  show d: "d = ?d" using f iso_accepts isNullable by auto
  show "parseAuthDevice d = Inr d" using p d by simp
  show "fourDigitYear t" "expiry = Some e \<Longrightarrow> fourDigitYear e" using f iso_accepts isNullable by blast+
  show "hashDeviceToken token = Inr (hashText token)" "hashCsrfToken csrf = Inr (hashText csrf)" by (fact hashes)+
qed

lemma claimed_rows:
  assumes "fst (claim policy input secrets db) = Inr (p, d, token, csrf)"
  obtains t expiry where "claimNow input = Some t" "claimExpiry input = map_option Some expiry"
    "deviceRows (snd (claim policy input secrets db)) = deviceRows db @ [d]" "adId d \<notin> set (map adId (deviceRows db))"
    "adTokenHash d \<notin> set (map adTokenHash (deviceRows db))" "selectedDeviceIdPattern (adId d)" "selectedRawDeviceSecretSchema csrf"
    "authDeviceFromInput (adId d) token csrf (adPermission d) (adLabel d) (Some t) (map_option Some expiry) = Inr d"
proof -
  obtain prepared db1 row q where s: "prepareClaimInput input = Inr prepared" "ratesOnly db db1"
    "claimDevice prepared secrets q db1 = Inr (Claimed p d token csrf, snd (claim policy input secrets db))"
    by (rule claim_succeeds [OF assms])
  obtain db2 where u: "insertAuthDevice d db1 = Inr (d, db2)" "selectedRawDeviceSecretSchema csrf" "selectedDeviceIdPattern (adId d)"
    "authDeviceFromInput (adId d) token csrf (pcPermission q) (adLabel d) (Some (claimedMs prepared))
       (map_option Some (claimedExpiry prepared)) = Inr d"
    "updatePairing (\<lambda>r. pcId r = pcId q \<and> pcVersion r = Some 1 \<and> pcUsedAt r = None \<and> pcRevokedAt r = None)
       (\<lambda>r. r\<lparr> pcUsedAt := Some (claimedAt prepared), pcDevice := Some (adId d) \<rparr>) db2 =
     Inr (1, snd (claim policy input secrets db))"
    by (rule claim_device [OF s(3)]) auto
  have "adPermission d = pcPermission q" using made_device(1) [OF u(4)] by (metis auth_device.select_convs(7))
  with u s(2) prepared_claim_fields [OF s(1)] update_pairing(1) [OF u(5)] show thesis
    by (intro that [of "claimedMs prepared" "claimedExpiry prepared"]) (auto simp: insertAuthDevice_def ratesOnly_def split: if_splits)
qed

lemma advance_fresh:
  assumes "deviceRows db = rows @ [d]" "adId d \<notin> set (map adId rows)" "fourDigitYear t" "t0 \<le> t" "\<And>e. expiry = Some e \<Longrightarrow> t < e"
    "authDeviceFromInput ident token csrf permission label (Some t0) (map_option Some expiry) = Inr d"
  shows "\<exists>db'. advanceLastUsedAt d t db = Inr (d\<lparr> adLastUsedAt := Some (toISOString t) \<rparr>, db')"
proof -
  note made = made_device [OF assms(6)]
  let ?d = "d\<lparr> adLastUsedAt := Some (toISOString t) \<rparr>"
  have "authDeviceRecordSchema d = Some d" using made(2) by (auto simp: parseAuthDevice_def split: option.splits)
  then have parsed: "parseAuthDevice ?d = Inr ?d"
    using assms(3-5) made(3,4) unfolding made(1) parseAuthDevice_def
    by (cases expiry) (auto simp: authDeviceRecordSchema_def bind_eq_Some_conv guard_def nullable_def iso_toISOString deviceTimesOk_def
        dateOf_toISOString dateOfNullable_def timeLess_def timeLessEq_def Let_def split: if_splits)
  have created: "dateOf (adCreatedAt d) = Some t0" "adLastUsedAt d = None" unfolding made(1) by (simp_all add: dateOf_toISOString made(3))
  have other: "r \<in> set rows \<Longrightarrow> adId r \<noteq> adId d" for r using assms(2) by (metis image_eqI list.set_map)
  then have none: "filter (\<lambda>r. adId r = adId d \<and> P r) rows = []" for P by (simp add: filter_empty_conv)
  have "find (\<lambda>r. adId r = adId d) (map (\<lambda>r. if adId r = adId d \<and> P r then f r else r) rows @ [?d]) = Some ?d" for P f
    using other by (induction rows) auto
  then show ?thesis
    using parsed assms(4) created
    by (simp add: advanceLastUsedAt_def dateOfNullable_def timeLess_def throwIf_def updateRows_def assms(1) none)
qed

lemma device_pattern: "selectedDeviceIdPattern s \<Longrightarrow> selectedDeviceIdSchema s"
proof -
  assume s: "selectedDeviceIdPattern s"
  let ?ok = "\<lambda>c. isLetter c \<or> isDigit c \<or> c = 95 \<or> c = 46 \<or> c = 58 \<or> c = (45 :: nat)"
  from s have split: "s = js ''client_'' @ drop 7 s"
    using append_take_drop_id [of 7 s] by (simp add: selectedDeviceIdPattern_def startsWith_def numeral_eq_Suc)
  have "list_all ?ok (js ''client_'')" by code_simp
  moreover have "list_all ?ok (drop 7 s)" using s by (auto simp: selectedDeviceIdPattern_def urlUnit_def list_all_iff)
  ultimately have "list_all ?ok (js ''client_'' @ drop 7 s)" by (simp only: list_all_append simp_thms)
  then have "list_all ?ok s" by (simp only: split [symmetric])
  then show ?thesis using s by (simp only: selectedDeviceIdSchema_def selectedDeviceIdPattern_def) simp
qed

text \<open>C9: a device that was claimed gets in. From the claim on, and before the device expires, its token
  authenticates it, as a device that may only read exactly when its code gave no more, and its first
  CSRF token authorizes a write exactly when the device may write; either records the time.\<close>

theorem claimed_device_gets_in:
  assumes "fst (claim policy input secrets db) = Inr (p, d, token, csrf)" "db' = snd (claim policy input secrets db)"
    and "claimNow input = Some t0" "t0 \<le> t" "fourDigitYear t" "\<And>e. claimExpiry input = Some (Some e) \<Longrightarrow> t < e"
  shows "fst (authenticateDeviceToken token (Some t) db') =
      Inr (adPermission d = Permission_read, d\<lparr> adLastUsedAt := Some (toISOString t) \<rparr>) \<and>
    fst (authorizeBrowserWrite (adId d) 1 (Some t) csrf db') =
      (if adPermission d = Permission_read then Inl Auth_read_only else Inr (d\<lparr> adLastUsedAt := Some (toISOString t) \<rparr>))"
proof -
  obtain expiry where c: "claimExpiry input = map_option Some expiry" "deviceRows db' = deviceRows db @ [d]"
    "adId d \<notin> set (map adId (deviceRows db))" "adTokenHash d \<notin> set (map adTokenHash (deviceRows db))" "selectedDeviceIdPattern (adId d)"
    "selectedRawDeviceSecretSchema csrf"
    "authDeviceFromInput (adId d) token csrf (adPermission d) (adLabel d) (Some t0) (map_option Some expiry) = Inr d"
    using claimed_rows [OF assms(1), folded assms(2)] assms(3) by (metis option.inject)
  note made = made_device [OF c(7)]
  have expiry: "t < e" if "expiry = Some e" for e using that assms(6) c(1) by simp
  obtain db2 where advanced: "advanceLastUsedAt d t db' = Inr (d\<lparr> adLastUsedAt := Some (toISOString t) \<rparr>, db2)"
    using advance_fresh [OF c(2,3) assms(5,4) expiry c(7)] by blast
  have f: "adTokenHash d = hashText token" "adCsrfHash d = hashText csrf" "adGeneration d = 1" "adRevokedAt d = None"
    by (subst made(1), simp)+
  have live: "\<not> timeLessEq (dateOfNullable (adExpiresAt d)) (Some t)"
    using expiry made(4) by (subst made(1)) (cases expiry; auto simp: dateOfNullable_def timeLessEq_def dateOf_toISOString not_le)
  have usable: "usableDevice (Some d) (Some t) = Inr d" using live made(2) f(4) by (simp add: usableDevice_def throwIf_def)
  have append: "x \<notin> set (map key rows) \<Longrightarrow> key d = x \<Longrightarrow> find (\<lambda>r. key r = x) (rows @ [d]) = Some d" for key :: "auth_device \<Rightarrow> js_string" and x rows
    by (induction rows) auto
  have rows: "find (\<lambda>r. adTokenHash r = hashText token) (deviceRows db') = Some d" "find (\<lambda>r. adId r = adId d) (deviceRows db') = Some d"
    using c(2-4) f(1) append by metis+
  have "fst (authenticateDeviceToken token (Some t) db') =
      Inr (adPermission d = Permission_read, d\<lparr> adLastUsedAt := Some (toISOString t) \<rparr>)"
    using usable advanced
    by (simp add: authenticateDeviceToken_def immediate_def nowIso_def requireUsableDeviceByToken_def made(5) rows)
  moreover have "fst (authorizeBrowserWrite (adId d) 1 (Some t) csrf db') =
      (if adPermission d = Permission_read then Inl Auth_read_only else Inr (d\<lparr> adLastUsedAt := Some (toISOString t) \<rparr>))"
    using usable advanced device_pattern [OF c(5)] c(6)
    by (simp add: authorizeBrowserWrite_def immediate_def prepareSelectedCsrfAuthority_def requireUsableDeviceById_def rows
        hashMatches_def made(6) f throwIf_def maxSafe_def)
  ultimately show ?thesis by blast
qed

theorem claimed_device_gets_in_witness:
  "fst (authorizeBrowserWrite sampleDeviceId 1 (Some (issuedMs + 2000)) sampleCsrf claimedTables) =
   Inr (sampleDevice\<lparr> adLastUsedAt := Some (toISOString (issuedMs + 2000)) \<rparr>)"
proof -
  have "fst (claim trustPolicy (sampleInput sampleCode (issuedMs + 1000)) sampleSecrets issuedTables) =
      Inr (hd (pairingRows claimedTables), sampleDevice, sampleToken, sampleCsrf)"
    "claimedTables = snd (claim trustPolicy (sampleInput sampleCode (issuedMs + 1000)) sampleSecrets issuedTables)"
    by (simp_all add: sample_claim)
  from claimed_device_gets_in [OF this, of "issuedMs + 1000" "issuedMs + 2000"] show ?thesis
    by (simp add: sampleInput_def sampleDevice_def)
qed

end
