(* ===== verification/Guess_Bound.thy ===== *)
theory Guess_Bound
  imports Trust_Properties
begin

text \<open>
  The rate limit of claims: how many wrong guesses of a code any history can make in a span of time
  as long as the window, whatever sources they come from.
\<close>

section \<open>Guesses in fixed windows\<close>

abbreviation countIn :: "(int \<Rightarrow> bool) \<Rightarrow> int list \<Rightarrow> nat" where
  "countIn p ats \<equiv> length (filter p ats)"

text \<open>
  The times of the guesses against the window that began at \<open>s\<close>, saw its last attempt at \<open>l\<close> and
  counts \<open>n\<close> attempts.
\<close>

definition guessesBounded :: "int \<Rightarrow> nat \<Rightarrow> int \<Rightarrow> int \<Rightarrow> nat \<Rightarrow> int list \<Rightarrow> bool" where
  "guessesBounded W M s l n ats \<longleftrightarrow>
     s \<le> l \<and> l < s + W \<and> n \<le> M \<and> (\<forall>a \<in> set ats. a \<le> l) \<and> countIn (\<lambda>a. s \<le> a) ats \<le> n \<and>
     (\<forall>u > s - W. countIn (\<lambda>a. u \<le> a \<and> a < s) ats \<le> M) \<and> (\<forall>t. countIn (\<lambda>a. t \<le> a \<and> a < t + W) ats \<le> 2 * M)"

lemma count_mono: "(\<And>a. a \<in> set ats \<Longrightarrow> p a \<Longrightarrow> q a) \<Longrightarrow> countIn p ats \<le> countIn q ats"
  by (induction ats) (auto intro: le_SucI)

lemma count_split: "(\<And>a. p a \<Longrightarrow> q a \<or> r a) \<Longrightarrow> countIn p ats \<le> countIn q ats + countIn r ats"
  by (induction ats) (auto intro: le_SucI)

lemma guess_in_window:
  assumes "guessesBounded W M s l n ats" "l \<le> t" "t < s + W" "n < M" "new = [] \<or> new = [t]"
  shows "guessesBounded W M s t (n + 1) (ats @ new)"
proof -
  have old: "countIn (\<lambda>a. s \<le> a) ats \<le> n" "\<And>u. u > s - W \<Longrightarrow> countIn (\<lambda>a. u \<le> a \<and> a < s) ats \<le> M"
    "\<And>u. countIn (\<lambda>a. u \<le> a \<and> a < u + W) ats \<le> 2 * M"
    using assms(1) by (auto simp: guessesBounded_def)
  have "countIn (\<lambda>a. u \<le> a \<and> a < u + W) (ats @ new) \<le> 2 * M" for u
  proof (cases "u \<le> t \<and> t < u + W")
    case True
    have "countIn (\<lambda>a. u \<le> a \<and> a < u + W) ats \<le> countIn (\<lambda>a. u \<le> a \<and> a < s) ats + countIn (\<lambda>a. s \<le> a) ats"
      by (rule count_split) auto
    moreover have "countIn (\<lambda>a. u \<le> a \<and> a < s) ats \<le> M" using True assms(1,2) by (intro old(2)) (auto simp: guessesBounded_def)
    ultimately show ?thesis using old(1) assms(4,5) by auto
  next
    case False
    then have "countIn (\<lambda>a. u \<le> a \<and> a < u + W) (ats @ new) = countIn (\<lambda>a. u \<le> a \<and> a < u + W) ats" using assms(5) by auto
    then show ?thesis using old(3) by simp
  qed
  moreover have "countIn (\<lambda>a. u \<le> a \<and> a < s) (ats @ new) \<le> M" if "u > s - W" for u
    using old(2) [OF that] assms by (auto simp: guessesBounded_def)
  ultimately show ?thesis using assms old(1) by (auto simp: guessesBounded_def)
qed

lemma guess_new_window:
  assumes "guessesBounded W M s l n ats" "s + W \<le> t" "0 < M" "new = [] \<or> new = [t]"
  shows "guessesBounded W M t t 1 (ats @ new)"
proof -
  have before: "a < t" if "a \<in> set ats" for a using that assms(1,2) by (force simp: guessesBounded_def)
  have old: "countIn (\<lambda>a. s \<le> a) ats \<le> M" "\<And>u. countIn (\<lambda>a. u \<le> a \<and> a < u + W) ats \<le> 2 * M" "0 < W"
    using assms(1) by (auto simp: guessesBounded_def)
  have recent: "countIn p ats \<le> M" if "\<And>a. p a \<Longrightarrow> s \<le> a" for p
    using count_mono [of ats p "\<lambda>a. s \<le> a"] that old(1) by force
  have "countIn (\<lambda>a. u \<le> a \<and> a < u + W) (ats @ new) \<le> 2 * M" for u
  proof (cases "u \<le> t \<and> t < u + W")
    case True
    then have "countIn (\<lambda>a. u \<le> a \<and> a < u + W) ats \<le> M" using assms(2) by (intro recent) auto
    then show ?thesis using assms(3,4) by auto
  next
    case False
    then have "countIn (\<lambda>a. u \<le> a \<and> a < u + W) (ats @ new) = countIn (\<lambda>a. u \<le> a \<and> a < u + W) ats" using assms(4) by auto
    then show ?thesis using old(2) by simp
  qed
  moreover have "countIn (\<lambda>a. u \<le> a \<and> a < t) (ats @ new) \<le> M" if "u > t - W" for u
    using recent [of "\<lambda>a. u \<le> a \<and> a < t"] that assms(2,4) by auto
  moreover have "filter (\<lambda>a. t \<le> a) ats = []" using before by (force simp: filter_empty_conv)
  ultimately show ?thesis using old(3) assms(3,4) before by (auto simp: guessesBounded_def dest: less_imp_le)
qed

lemma guess_first_window:
  assumes "0 < W" "0 < M" "new = [] \<or> new = [t]"
  shows "guessesBounded W M t t 1 new"
  using assms by (auto simp: guessesBounded_def)

section \<open>The record of all sources\<close>

definition rateBounded :: "pair_policy \<Rightarrow> auth_tables \<Rightarrow> int list \<Rightarrow> bool" where
  "rateBounded policy db ats \<longleftrightarrow>
     (case globalRow db of
        None \<Rightarrow> ats = []
      | Some g \<Rightarrow> (\<exists>s l n. fourDigitYear s \<and> fourDigitYear l \<and>
          g = \<lparr> rateKey = pairClaimGlobal, rateStartedAt = toISOString s, rateCount = int n, rateLastAt = toISOString l \<rparr> \<and>
          guessesBounded (claimWindow policy) (nat (maxGlobal policy)) s l n ats))"

lemma parsed_rate:
  assumes "parsedRate keyOk \<lparr> rateKey = k, rateStartedAt = toISOString s, rateCount = n, rateLastAt = toISOString l \<rparr> = Inr g"
  shows "g = \<lparr> rateKey = k, rateStartedAt = toISOString s, rateCount = n, rateLastAt = toISOString l \<rparr> \<and> fourDigitYear s \<and> fourDigitYear l"
  using assms by (auto simp: parsedRate_def rateRecordSchema_def bind_eq_Some_conv Let_def dest!: iso_accepts split: option.splits if_splits)

lemma rate_written:
  assumes "parsedRate keyOk \<lparr> rateKey = pairClaimGlobal, rateStartedAt = toISOString s, rateCount = n, rateLastAt = toISOString l \<rparr> = Inr g"
    and "globalRow db = Some g" "n = int k" "guessesBounded (claimWindow policy) (nat (maxGlobal policy)) s l k ats"
  shows "rateBounded policy db ats"
  unfolding rateBounded_def assms(2) option.case using parsed_rate [OF assms(1)] assms(3,4)
  by (intro exI [of _ s] exI [of _ l] exI [of _ k]) simp

text \<open>An attempt that is counted moves the record on.\<close>

lemma counted_attempt:
  assumes "rateBounded policy db ats" "0 < claimWindow policy"
    and "readRateGlobal db = Inr overall" "\<not> timeLess (Some t) (lastOf overall)"
    "currentWindow overall (toISOString t) t (claimWindow policy) = Inr w" "windowAttempts w < maxGlobal policy"
    "parsedRate (\<lambda>k. k = pairClaimGlobal) \<lparr> rateKey = pairClaimGlobal, rateStartedAt = windowStartedAt w,
       rateCount = windowAttempts w + 1, rateLastAt = toISOString t \<rparr> = Inr g"
    "globalRow db' = Some g" "new = [] \<or> new = [t]"
  shows "rateBounded policy db' (ats @ new)"
proof (cases "globalRow db")
  case None
  then have "windowStartedAt w = toISOString t" "windowAttempts w = 0" "ats = []"
    using assms(1,3,5) by (auto simp: readRateGlobal_def parseRate_def currentWindow_def rateBounded_def)
  with assms(2,6-) guess_first_window [of "claimWindow policy" "nat (maxGlobal policy)" new t] show ?thesis
    by (intro rate_written [of _ t 1 t g _ 1]) auto
next
  case (Some g0)
  then obtain s l n where g0: "fourDigitYear s" "fourDigitYear l"
    "g0 = \<lparr> rateKey = pairClaimGlobal, rateStartedAt = toISOString s, rateCount = int n, rateLastAt = toISOString l \<rparr>"
    "guessesBounded (claimWindow policy) (nat (maxGlobal policy)) s l n ats"
    using assms(1) by (auto simp: rateBounded_def)
  have "overall = Some g0" using assms(3) Some g0(1-3)
    by (auto simp: readRateGlobal_def parseRate_def rateRecordSchema_def bind_eq_Some_conv iso_toISOString Let_def split: option.splits)
  then have w: "l \<le> t" "if s + claimWindow policy \<le> t then windowStartedAt w = toISOString t \<and> windowAttempts w = 0
      else windowStartedAt w = toISOString s \<and> windowAttempts w = int n"
    using assms(4,5) g0(1-3) by (auto simp: lastOf_def timeLess_def dateOf_toISOString currentWindow_def split: if_splits)
  show ?thesis
  proof (cases "s + claimWindow policy \<le> t")
    case True
    then show ?thesis using w(2) assms(6-) guess_new_window [OF g0(4) True, of new] by (intro rate_written [of _ t 1 t g _ 1]) auto
  next
    case False
    then have "guessesBounded (claimWindow policy) (nat (maxGlobal policy)) s t (n + 1) (ats @ new)"
      using guess_in_window [OF g0(4) w(1) _ _ assms(9)] w(2) assms(6) by auto
    then show ?thesis using False w(2) assms(7,8) by (intro rate_written [of _ s "int n + 1" t g _ "n + 1"]) auto
  qed
qed

section \<open>A claim that throws does not say the code is unknown\<close>

lemma andThen_Inl_iff: "andThen r f = Inl e \<longleftrightarrow> r = Inl e \<or> (\<exists>x. r = Inr x \<and> f x = Inl e)"
  by (cases r) auto

lemma never_unknown:
  "addMilliseconds a b \<noteq> Inl Pairing_code_not_found" "parseRate keyOk r \<noteq> Inl Pairing_code_not_found"
  "parsedRate keyOk q \<noteq> Inl Pairing_code_not_found" "hashSecret n s \<noteq> Inl Pairing_code_not_found"
  "parseAuthDevice d \<noteq> Inl Pairing_code_not_found" "nowIso now \<noteq> Inl Pairing_code_not_found"
  "insertAuthDevice d db \<noteq> Inl Pairing_code_not_found" "updatePairing p f db \<noteq> Inl Pairing_code_not_found"
  "generateSelectedValue g v Pairing_claim_failed \<noteq> Inl Pairing_code_not_found"
  by (auto simp: addMilliseconds_def parseRate_def parsedRate_def hashSecret_def assertRawSecret_def andThen_Inl_iff throwIf_def
      parseAuthDevice_def nowIso_def insertAuthDevice_def updatePairing_def generateSelectedValue_def Let_def split: option.splits prod.splits)

lemma read_never_unknown: "readPairingRow db row \<noteq> Inl Pairing_code_not_found"
  by (auto simp: readPairingRow_def parseStoredPairingCode_def assertClaimedDeviceOwnerExists_def andThen_Inl_iff split: option.splits)

lemma window_never_unknown: "currentWindow c now t w \<noteq> Inl Pairing_code_not_found"
  using never_unknown(1) by (auto simp: currentWindow_def andThen_Inl_iff split: option.splits)

lemma updated_is_found:
  assumes "updatePairing (\<lambda>r. pcId r = k \<and> p r) (\<lambda>r. r\<lparr> pcUsedAt := u, pcDevice := v \<rparr>) db = Inr (1, db')"
  shows "requirePairingCode db' k \<noteq> Inl Pairing_code_not_found"
proof -
  have "filter (\<lambda>r. pcId r = k \<and> p r) (pairingRows db) \<noteq> []" using update_pairing(2) [OF assms] by auto
  then obtain r where "r \<in> set (pairingRows db)" "pcId r = k" by (auto simp: filter_empty_conv)
  then have "find (\<lambda>r. pcId r = k) (pairingRows db) \<noteq> None" by (auto simp: find_None_iff)
  then have "find (\<lambda>r. pcId r = k) (pairingRows db') \<noteq> None"
    unfolding update_pairing(1) [OF assms] by (simp add: find_map_key)
  then show ?thesis using read_never_unknown
    by (auto simp: requirePairingCode_def readPairingCodeById_def andThen_Inl_iff readPairingRow_def split: option.splits)
qed

lemma device_never_unknown: "claimDevice input secrets q db \<noteq> Inl Pairing_code_not_found"
proof
  assume "claimDevice input secrets q db = Inl Pairing_code_not_found"
  moreover have "authDeviceFromInput a b c d e f g \<noteq> Inl Pairing_code_not_found" for a b c d e f g
    using never_unknown by (auto simp: authDeviceFromInput_def andThen_Inl_iff hashDeviceToken_def hashCsrfToken_def split: option.splits)
  moreover have "assertSecretSeparation a b Pairing_claim_failed \<noteq> Inl Pairing_code_not_found" for a b
    by (simp add: assertSecretSeparation_def)
  ultimately show False using never_unknown updated_is_found
    unfolding claimDevice_def Let_def
    by (auto simp only: andThen_Inl_iff throwIf_Inl throwIf_Inr split_paired_all split_paired_Ex prod.case sum.distinct auth_error.distinct simp_thms)
qed

lemma claim_never_unknown: "claimTransaction policy input secrets db \<noteq> Inl Pairing_code_not_found"
proof -
  have "claimCodeTransaction input secrets x \<noteq> Inl Pairing_code_not_found" for x
    using never_unknown(4) read_never_unknown device_never_unknown
    by (auto simp: claimCodeTransaction_def andThen_Inl_iff hashSelectedPairingCode_def readPairingCodeByHash_def split: option.splits if_splits)
  moreover have "pruneExpiredSources a b c x \<noteq> Inl Pairing_code_not_found" "readSourceCapacityRetryAt b x \<noteq> Inl Pairing_code_not_found" for a b c x
    using never_unknown(1) by (auto simp: pruneExpiredSources_def readSourceCapacityRetryAt_def andThen_Inl_iff Let_def split: list.splits option.splits)
  ultimately show ?thesis using never_unknown window_never_unknown
    by (auto simp: claimTransaction_def andThen_Inl_iff readRateSource_def readRateGlobal_def assertNonRegressingRateTime_def
        writeRateSource_def writeRateGlobal_def split: if_splits)
qed

lemma prepare_never_unknown: "prepareClaimInput input \<noteq> Inl Pairing_code_not_found"
  using never_unknown(6) by (auto simp: prepareClaimInput_def andThen_Inl_iff parseSourceKey_def parseClientLabel_def split: option.splits if_splits)

section \<open>Histories\<close>

text \<open>The times of the claims that were answered that no such code exists.\<close>

definition wrongGuess :: "pair_policy \<Rightarrow> trust_op \<Rightarrow> auth_tables \<Rightarrow> int list" where
  "wrongGuess policy op db =
     (case op of
        Claim_code input secrets \<Rightarrow>
          (case (fst (claim policy input secrets db), claimNow input) of
             (Inl (e, _), Some t) \<Rightarrow> if e = Pairing_code_not_found then [t] else []
           | _ \<Rightarrow> [])
      | _ \<Rightarrow> [])"

fun wrongGuesses :: "pair_policy \<Rightarrow> trust_op list \<Rightarrow> auth_tables \<Rightarrow> int list" where
  "wrongGuesses policy [] db = []"
| "wrongGuesses policy (op # ops) db = wrongGuess policy op db @ wrongGuesses policy ops (trustStep policy op db)"

lemma claim_bounded:
  assumes "rateBounded policy db ats" "0 < claimWindow policy"
  shows "rateBounded policy (snd (claim policy input secrets db)) (ats @ wrongGuess policy (Claim_code input secrets) db)"
proof (cases "andThen (prepareClaimInput input) (\<lambda>p. claimTransaction policy p secrets db)")
  case (Inl e)
  then have "e \<noteq> Pairing_code_not_found" using claim_never_unknown prepare_never_unknown by (auto simp: andThen_Inl_iff)
  then have "wrongGuess policy (Claim_code input secrets) db = []" "snd (claim policy input secrets db) = db"
    using Inl by (auto simp: wrongGuess_def claim_def immediate_def sanitized_def split: option.splits)
  then show ?thesis using assms(1) by simp
next
  case (Inr x)
  then obtain r db' prepared where x: "prepareClaimInput input = Inr prepared" "claimTransaction policy prepared secrets db = Inr (r, db')"
    "x = (r, db')" by (cases x) auto
  then have s: "snd (claim policy input secrets db) = db'" using Inr by (cases r) (auto simp: claim_def immediate_def)
  note fields = prepared_claim_fields [OF x(1)]
  have new: "wrongGuess policy (Claim_code input secrets) db = [] \<or> wrongGuess policy (Claim_code input secrets) db = [claimedMs prepared]"
    using fields(2) by (auto simp: wrongGuess_def split: sum.splits)
  show ?thesis
  proof (cases rule: claim_transaction [OF x(2)])
    case (1 e retry)
    then have "wrongGuess policy (Claim_code input secrets) db = []"
      using Inr x(3) by (auto simp: wrongGuess_def claim_def immediate_def split: option.splits)
    then show ?thesis using assms(1) 1(4) s by (simp add: rateBounded_def)
  next
    case (2 overall w g db1)
    have "globalRow db' = globalRow db1"
    proof (cases rule: claim_code [OF 2(8)])
      case (2 row q)
      obtain p d token csrf db2 where d: "insertAuthDevice d db1 = Inr (d, db2)"
        "updatePairing (\<lambda>r. pcId r = pcId q \<and> pcVersion r = Some 1 \<and> pcUsedAt r = None \<and> pcRevokedAt r = None)
           (\<lambda>r. r\<lparr> pcUsedAt := Some (claimedAt prepared), pcDevice := Some (adId d) \<rparr>) db2 = Inr (1, db')"
        by (rule claim_device [OF 2(7)])
      show ?thesis using d(1) by (auto simp: update_pairing(1) [OF d(2)] insertAuthDevice_def split: if_splits)
    qed simp
    then show ?thesis using counted_attempt [OF assms 2(1,2) 2(3) [unfolded fields(3)] 2(4) 2(5) [unfolded fields(3)] _ new] 2(7) s by simp
  qed
qed

lemma other_bounded:
  assumes "rateBounded policy db ats" "trustOk db" "\<And>input secrets. op \<noteq> Claim_code input secrets"
  shows "rateBounded policy (trustStep policy op db) ats \<and> wrongGuess policy op db = []"
proof -
  have change: "deviceChange f db db' \<Longrightarrow> globalRow db' = globalRow db" for f db' by (simp add: deviceChange_def)
  have code: "codeChange f db db' \<Longrightarrow> globalRow db' = globalRow db" for f db' by (simp add: codeChange_def)
  have "globalRow (trustStep policy op db) = globalRow db"
  proof (cases op)
    case (Issue_code input generated)
    then show ?thesis
      by (auto simp: issue_def immediate_def issueTransaction_def insertPairingCode_def andThen_Inl_iff split: sum.splits if_splits)
  next
    case (Revoke_code ident now)
    have "globalRow (snd (revoke ident now db)) = globalRow db"
    proof (cases "fst (revoke ident now db)")
      case (Inl e)
      then show ?thesis by (auto simp: revoke_def immediate_def split: sum.splits)
    next
      case (Inr p)
      then show ?thesis using code by (cases rule: revoke_code_cases) auto
    qed
    then show ?thesis by (simp add: Revoke_code)
  next
    case (Authenticate raw now)
    then show ?thesis using authenticate_change change by (metis trustStep.simps(4))
  next
    case (Rotate_csrf ident generation now generated)
    then show ?thesis using rotate_change [OF assms(2)] change by (metis trustStep.simps(5))
  next
    case (Authorize_write ident generation now raw)
    then show ?thesis using authorize_change change by (metis trustStep.simps(6))
  next
    case (Revoke_device ident now)
    then show ?thesis using revoke_change change by (metis trustStep.simps(7))
  qed (use assms(3) in blast)
  moreover have "wrongGuess policy op db = []" using assms(3) by (cases op) (auto simp: wrongGuess_def)
  ultimately show ?thesis using assms(1) by (simp add: rateBounded_def)
qed

lemma guesses_bounded:
  assumes "rateBounded policy db ats" "trustOk db" "0 < claimWindow policy"
  shows "rateBounded policy (runSteps (trustStep policy) ops db) (ats @ wrongGuesses policy ops db)"
  using assms(1,2)
proof (induction ops arbitrary: db ats)
  case (Cons op ops)
  have "rateBounded policy (trustStep policy op db) (ats @ wrongGuess policy op db)"
  proof (cases "\<exists>input secrets. op = Claim_code input secrets")
    case True
    then show ?thesis using claim_bounded [OF Cons.prems(1) assms(3)] by auto
  next
    case False
    then show ?thesis using other_bounded [OF Cons.prems] by auto
  qed
  from Cons.IH [OF this] show ?case using trust_step [OF Cons.prems(2)] by simp
qed simp

text \<open>C7: guessing codes is limited. In any history that begins with empty tables, whatever devices, codes and
  sources it uses, and in every span of time as long as the window, the claims that learn that their
  code does not exist are at most twice the global limit of a window.\<close>

theorem wrong_guesses_are_bounded:
  "length (filter (\<lambda>a. t \<le> a \<and> a < t + claimWindow policy) (wrongGuesses policy ops emptyTables)) \<le> 2 * nat (maxGlobal policy)"
proof (cases "0 < claimWindow policy")
  case True
  have "rateBounded policy emptyTables []" by (simp add: rateBounded_def emptyTables_def)
  from guesses_bounded [OF this empty_ok True, of ops] show ?thesis
    by (auto simp: rateBounded_def guessesBounded_def split: option.splits)
next
  case False
  then have "filter (\<lambda>a. t \<le> a \<and> a < t + claimWindow policy) (wrongGuesses policy ops emptyTables) = []" by (auto simp: filter_empty_conv)
  then show ?thesis by simp
qed

end
