(* ===== verification/Canonical_Data.thy ===== *)
theory Canonical_Data
  imports Sha256 Projection_Contract
begin

text \<open>
  The canonical form of untyped data in \<open>packages/server/src/selected-write-admission-policy.ts\<close>: the
  text that is hashed to compare two requests, and the frozen copy of a result that is replayed. Both
  visit a value under limits of bytes, nodes and depth.

  A number is the text \<open>String\<close> gives for it (\<open>-0\<close> for negative zero). \<open>Data_other\<close> stands for every
  value that is refused whatever the limits are: \<open>undefined\<close>, functions, symbols, big integers,
  numbers that are not finite, objects of another prototype and properties with accessors. Values are
  trees, so that a value never contains itself.
\<close>

section \<open>Data\<close>

datatype data_value =
  Data_null
| Data_bool bool
| Data_number js_string
| Data_text js_string
| Data_array "data_value list"
| Data_object "(js_string \<times> data_value) list"
| Data_other

record canonical_limits =
  maximumBytes :: int
  maximumNodes :: int
  maximumDepth :: int
  maximumArrayItems :: int
  maximumObjectFields :: int
  maximumKeyBytes :: int

record canonical_state =
  csBytes :: int
  csNodes :: int

definition canonicalLimits :: "int \<Rightarrow> int \<Rightarrow> canonical_limits" where
  "canonicalLimits protocolMaxFrameBytes httpResponseMaxBytes =
     \<lparr> maximumBytes = max protocolMaxFrameBytes httpResponseMaxBytes, maximumNodes = 1024, maximumDepth = 10,
       maximumArrayItems = 512, maximumObjectFields = 128, maximumKeyBytes = 256 \<rparr>"

definition byteLength :: "js_string \<Rightarrow> nat" where
  "byteLength s = length (utf8Bytes s)"

section \<open>Limits\<close>

definition chargeCanonicalBytes :: "js_string \<Rightarrow> canonical_limits \<Rightarrow> canonical_state \<Rightarrow> canonical_state option" where
  "chargeCanonicalBytes value limits state =
     (let bytes = csBytes state + int (byteLength value) in
      if bytes > maximumBytes limits then None else Some (state\<lparr> csBytes := bytes \<rparr>))"

definition chargeCanonicalNode :: "data_value \<Rightarrow> int \<Rightarrow> canonical_limits \<Rightarrow> canonical_state \<Rightarrow> canonical_state option" where
  "chargeCanonicalNode value depth limits state =
     (let state = state\<lparr> csNodes := csNodes state + 1 \<rparr> in
      if csNodes state > maximumNodes limits \<or> depth > maximumDepth limits then None
      else case value of Data_text s \<Rightarrow> chargeCanonicalBytes s limits state | _ \<Rightarrow> Some state)"

definition canonicalObjectKeys :: "(js_string \<times> data_value) list \<Rightarrow> canonical_limits \<Rightarrow> bool" where
  "canonicalObjectKeys members limits \<longleftrightarrow>
     int (length members) \<le> maximumObjectFields limits \<and>
     list_all (\<lambda>(key, _). int (byteLength key) \<le> maximumKeyBytes limits) members"

text \<open>\<open>Object.keys(descriptors).sort()\<close> with the values: the order of UTF-16 code units.\<close>

fun insertField :: "js_string \<times> data_value \<Rightarrow> (js_string \<times> data_value) list \<Rightarrow> (js_string \<times> data_value) list" where
  "insertField f [] = [f]"
| "insertField f (g # gs) = (if str_less (fst f) (fst g) then f # g # gs else g # insertField f gs)"

definition sortFields :: "(js_string \<times> data_value) list \<Rightarrow> (js_string \<times> data_value) list" where
  "sortFields members = foldr insertField members []"

lemma insertField_size [simp]: "size_list (size_prod (\<lambda>_. 0) size) (insertField f fs) = size_list (size_prod (\<lambda>_. 0) size) (f # fs)"
  by (induction fs) auto

lemma sortFields_size [simp]: "size_list (size_prod (\<lambda>_. 0) size) (sortFields fs) = size_list (size_prod (\<lambda>_. 0) size) fs"
  by (induction fs) (simp_all add: sortFields_def)

section \<open>The canonical text\<close>

function (sequential)
  visitCanonical :: "data_value \<Rightarrow> int \<Rightarrow> canonical_limits \<Rightarrow> canonical_state \<Rightarrow> (js_string list \<times> canonical_state) option" and
  visitItems :: "data_value list \<Rightarrow> int \<Rightarrow> canonical_limits \<Rightarrow> canonical_state \<Rightarrow> (js_string list \<times> canonical_state) option" and
  visitFields :: "(js_string \<times> data_value) list \<Rightarrow> int \<Rightarrow> canonical_limits \<Rightarrow> canonical_state \<Rightarrow>
    (js_string list \<times> canonical_state) option"
where
  "visitCanonical value depth limits state =
     (case chargeCanonicalNode value depth limits state of
        None \<Rightarrow> None
      | Some state \<Rightarrow>
          (case value of
             Data_null \<Rightarrow> Some ([js ''n;''], state)
           | Data_bool b \<Rightarrow> Some ([if b then js ''b1;'' else js ''b0;''], state)
           | Data_text s \<Rightarrow> Some ([js ''s'' @ natText (byteLength s) @ js '':'', s, js '';''], state)
           | Data_number s \<Rightarrow> Some ([js ''d'' @ s @ js '';''], state)
           | Data_array items \<Rightarrow>
               if int (length items) > maximumArrayItems limits then None
               else (case visitItems items depth limits state of
                 None \<Rightarrow> None
               | Some (chunks, state) \<Rightarrow> Some ((js ''a'' @ natText (length items) @ js ''['') # chunks @ [js ''];''], state))
           | Data_object members \<Rightarrow>
               if \<not> canonicalObjectKeys members limits then None
               else (case visitFields (sortFields members) depth limits state of
                 None \<Rightarrow> None
               | Some (chunks, state) \<Rightarrow> Some ((js ''o'' @ natText (length members) @ js ''{'') # chunks @ [js ''};''], state))
           | Data_other \<Rightarrow> None))"
| "visitItems [] depth limits state = Some ([], state)"
| "visitItems (v # vs) depth limits state =
     (case visitCanonical v (depth + 1) limits state of
        None \<Rightarrow> None
      | Some (chunks, state) \<Rightarrow>
          (case visitItems vs depth limits state of None \<Rightarrow> None | Some (rest, state) \<Rightarrow> Some (chunks @ rest, state)))"
| "visitFields [] depth limits state = Some ([], state)"
| "visitFields ((key, v) # members) depth limits state =
     (case chargeCanonicalBytes key limits state of
        None \<Rightarrow> None
      | Some state \<Rightarrow>
          (case visitCanonical v (depth + 1) limits state of
             None \<Rightarrow> None
           | Some (chunks, state) \<Rightarrow>
               (case visitFields members depth limits state of
                  None \<Rightarrow> None
                | Some (rest, state) \<Rightarrow>
                    Some ((js ''k'' @ natText (byteLength key) @ js '':'') # key # js ''='' # chunks @ rest, state))))"
  by pat_completeness auto

termination
  by (relation "measure (\<lambda>x. case x of
      Inl (v, _) \<Rightarrow> 2 * size v + 1
    | Inr (Inl (vs, _)) \<Rightarrow> 2 * size_list size vs
    | Inr (Inr (fs, _)) \<Rightarrow> 2 * size_list (size_prod (\<lambda>_. 0) size) fs)") auto

definition canonicalStart :: canonical_state where
  "canonicalStart = \<lparr> csBytes = 0, csNodes = 0 \<rparr>"

text \<open>Each chunk is hashed as the UTF-8 of its own text.\<close>

definition canonicalBytes :: "canonical_limits \<Rightarrow> data_value \<Rightarrow> nat list option" where
  "canonicalBytes limits v = map_option (\<lambda>(chunks, _). concat (map utf8Bytes chunks)) (visitCanonical v 0 limits canonicalStart)"

definition canonicalDigest :: "canonical_limits \<Rightarrow> data_value \<Rightarrow> js_string option" where
  "canonicalDigest limits v = map_option sha256Bytes (canonicalBytes limits v)"

section \<open>The frozen copy\<close>

function (sequential)
  cloneNode :: "data_value \<Rightarrow> int \<Rightarrow> canonical_limits \<Rightarrow> canonical_state \<Rightarrow> (data_value \<times> canonical_state) option" and
  cloneItems :: "data_value list \<Rightarrow> int \<Rightarrow> canonical_limits \<Rightarrow> canonical_state \<Rightarrow> (data_value list \<times> canonical_state) option" and
  cloneFields :: "(js_string \<times> data_value) list \<Rightarrow> int \<Rightarrow> canonical_limits \<Rightarrow> canonical_state \<Rightarrow>
    ((js_string \<times> data_value) list \<times> canonical_state) option"
where
  "cloneNode value depth limits state =
     (case chargeCanonicalNode value depth limits state of
        None \<Rightarrow> None
      | Some state \<Rightarrow>
          (case value of
             Data_array items \<Rightarrow>
               if int (length items) > maximumArrayItems limits then None
               else (case cloneItems items depth limits state of None \<Rightarrow> None | Some (vs, state) \<Rightarrow> Some (Data_array vs, state))
           | Data_object members \<Rightarrow>
               if \<not> canonicalObjectKeys members limits then None
               else (case cloneFields (sortFields members) depth limits state of
                 None \<Rightarrow> None | Some (ms, state) \<Rightarrow> Some (Data_object ms, state))
           | Data_other \<Rightarrow> None
           | _ \<Rightarrow> Some (value, state)))"
| "cloneItems [] depth limits state = Some ([], state)"
| "cloneItems (v # vs) depth limits state =
     (case cloneNode v (depth + 1) limits state of
        None \<Rightarrow> None
      | Some (w, state) \<Rightarrow>
          (case cloneItems vs depth limits state of None \<Rightarrow> None | Some (ws, state) \<Rightarrow> Some (w # ws, state)))"
| "cloneFields [] depth limits state = Some ([], state)"
| "cloneFields ((key, v) # members) depth limits state =
     (case chargeCanonicalBytes key limits state of
        None \<Rightarrow> None
      | Some state \<Rightarrow>
          (case cloneNode v (depth + 1) limits state of
             None \<Rightarrow> None
           | Some (w, state) \<Rightarrow>
               (case cloneFields members depth limits state of None \<Rightarrow> None | Some (ws, state) \<Rightarrow> Some ((key, w) # ws, state))))"
  by pat_completeness auto

termination
  by (relation "measure (\<lambda>x. case x of
      Inl (v, _) \<Rightarrow> 2 * size v + 1
    | Inr (Inl (vs, _)) \<Rightarrow> 2 * size_list size vs
    | Inr (Inr (ms, _)) \<Rightarrow> 2 * size_list (size_prod (\<lambda>_. 0) size) ms)") auto

definition cloneCanonicalData :: "canonical_limits \<Rightarrow> data_value \<Rightarrow> data_value option" where
  "cloneCanonicalData limits v = map_option fst (cloneNode v 0 limits canonicalStart)"

section \<open>Normal form\<close>

fun normalForm :: "data_value \<Rightarrow> data_value" where
  "normalForm (Data_array vs) = Data_array (map normalForm vs)"
| "normalForm (Data_object ms) = Data_object (sortFields (map (\<lambda>(k, v). (k, normalForm v)) ms))"
| "normalForm v = v"

text \<open>The bytes of a value in normal form.\<close>

fun encode :: "data_value \<Rightarrow> nat list" where
  "encode Data_null = js ''n;''"
| "encode (Data_bool b) = (if b then js ''b1;'' else js ''b0;'')"
| "encode (Data_text s) = 115 # natText (byteLength s) @ 58 # utf8Bytes s @ [59]"
| "encode (Data_number s) = 100 # s @ [59]"
| "encode (Data_array vs) = 97 # natText (length vs) @ 91 # concat (map encode vs) @ [93, 59]"
| "encode (Data_object ms) =
     111 # natText (length ms) @ 123 #
       concat (map (\<lambda>(k, v). 107 # natText (byteLength k) @ 58 # utf8Bytes k @ 61 # encode v) ms) @ [125, 59]"
| "encode Data_other = []"

text \<open>Data as JSON text gives it: well-formed strings, numbers as \<open>String\<close> prints them.\<close>

definition wellFormedText :: "js_string \<Rightarrow> bool" where
  "wellFormedText s \<longleftrightarrow> list_all (\<lambda>c. c < 65536) s \<and> list_all (\<lambda>c. \<not> highUnit c \<and> \<not> lowUnit c) (codePoints s)"

definition numberText :: "js_string \<Rightarrow> bool" where
  "numberText s \<longleftrightarrow> list_all (\<lambda>c. isDigit c \<or> c = 43 \<or> c = 45 \<or> c = 46 \<or> c = 101) s"

fun plainData :: "data_value \<Rightarrow> bool" where
  "plainData (Data_text s) \<longleftrightarrow> wellFormedText s"
| "plainData (Data_number s) \<longleftrightarrow> numberText s"
| "plainData (Data_array vs) \<longleftrightarrow> list_all plainData vs"
| "plainData (Data_object ms) \<longleftrightarrow> list_all (\<lambda>(k, v). wellFormedText k \<and> plainData v) ms"
| "plainData Data_other \<longleftrightarrow> False"
| "plainData _ \<longleftrightarrow> True"

end
