(* ===== verification/Canonical_Laws.thy ===== *)
theory Canonical_Laws
  imports Canonical_Data
begin

text \<open>
  What the canonical form promises: two values have the same canonical bytes only when they differ in
  nothing but the order of their fields, and a value that has a canonical form has a copy, its normal
  form.
\<close>

section \<open>UTF-8 is injective on well-formed strings\<close>

lemma codePoints_ascii: "list_all (\<lambda>c. c < 128) s \<Longrightarrow> codePoints s = s"
  by (induction s rule: codePoints.induct) (auto simp: highUnit_def)

lemma utf8_ascii: "list_all (\<lambda>c. c < 128) s \<Longrightarrow> utf8Bytes s = s"
proof -
  assume s: "list_all (\<lambda>c. c < 128) s"
  then have "map (\<lambda>c. utf8Of (if highUnit c \<or> lowUnit c then 65533 else c)) s = map (\<lambda>c. [c]) s"
    by (auto simp: list_all_iff utf8Of_def highUnit_def lowUnit_def)
  moreover have "concat (map (\<lambda>c. [c]) s) = s" by (induction s) auto
  ultimately show ?thesis by (simp only: utf8Bytes_def codePoints_ascii [OF s])
qed

fun unitsOf :: "nat \<Rightarrow> js_string" where
  "unitsOf p = (if p < 65536 then [p] else [55296 + (p - 65536) div 1024, 56320 + (p - 65536) mod 1024])"

lemma units_codePoints: "list_all (\<lambda>c. c < 65536) s \<Longrightarrow> concat (map unitsOf (codePoints s)) = s"
proof (induction s rule: codePoints.induct)
  case (3 c d s)
  show ?case
  proof (cases "highUnit c \<and> lowUnit d")
    case True
    then have "(c - 55296) * 1024 + (d - 56320) = 1024 * (c - 55296) + (d - 56320)" "d - 56320 < 1024"
      by (auto simp: lowUnit_def)
    then have "((c - 55296) * 1024 + (d - 56320)) div 1024 = c - 55296" "((c - 55296) * 1024 + (d - 56320)) mod 1024 = d - 56320"
      by simp_all
    with True 3 show ?thesis by (auto simp: highUnit_def lowUnit_def)
  next
    case False
    with 3 show ?thesis by auto
  qed
qed simp_all

lemma codePoints_bound: "list_all (\<lambda>c. c < 65536) s \<Longrightarrow> list_all (\<lambda>c. c < 1114112) (codePoints s)"
  by (induction s rule: codePoints.induct) (auto simp: highUnit_def lowUnit_def)

fun decodePoint :: "nat list \<Rightarrow> nat \<times> nat list" where
  "decodePoint (b # s) =
     (if b < 128 then (b, s)
      else if b < 224 then ((b - 192) * 64 + (s ! 0 - 128), drop 1 s)
      else if b < 240 then (((b - 224) * 64 + (s ! 0 - 128)) * 64 + (s ! 1 - 128), drop 2 s)
      else ((((b - 240) * 64 + (s ! 0 - 128)) * 64 + (s ! 1 - 128)) * 64 + (s ! 2 - 128), drop 3 s))"
| "decodePoint [] = (0, [])"

lemma decode_utf8: "c < 1114112 \<Longrightarrow> decodePoint (utf8Of c @ r) = (c, r)"
proof -
  assume c: "c < 1114112"
  have e1: "c div 64 * 64 + c mod 64 = c" by simp
  have e2: "(c div 4096 * 64 + c div 64 mod 64) * 64 + c mod 64 = c"
    using div_mult2_eq [of c 64 64] div_mult_mod_eq [of "c div 64" 64] div_mult_mod_eq [of c 64] by simp
  have e3: "((c div 262144 * 64 + c div 4096 mod 64) * 64 + c div 64 mod 64) * 64 + c mod 64 = c"
    using div_mult2_eq [of c 64 64] div_mult2_eq [of c 4096 64] div_mult_mod_eq [of "c div 4096" 64]
      div_mult_mod_eq [of "c div 64" 64] div_mult_mod_eq [of c 64] by simp
  consider "c < 128" | "128 \<le> c" "c < 2048" | "2048 \<le> c" "c < 65536" | "65536 \<le> c" by linarith
  then show "decodePoint (utf8Of c @ r) = (c, r)"
  proof cases
    case 2
    then have "c div 64 < 32" by simp
    with 2 e1 show ?thesis by (simp add: utf8Of_def)
  next
    case 3
    then have "c div 4096 < 16" by simp
    with 3 e2 show ?thesis by (simp add: utf8Of_def)
  next
    case 4
    with e3 show ?thesis by (simp add: utf8Of_def)
  next
    case 1
    then show ?thesis by (simp add: utf8Of_def)
  qed
qed

lemma utf8Of_prefix:
  assumes "utf8Of c @ r = utf8Of d @ r'" "c < 1114112" "d < 1114112"
  shows "c = d \<and> r = r'"
  using decode_utf8 [OF assms(2), of r] decode_utf8 [OF assms(3), of r'] unfolding assms(1) by (metis prod.inject)

lemma utf8Of_nonempty [simp]: "utf8Of c \<noteq> []"
  by (simp add: utf8Of_def)

lemma utf8_points_inj:
  assumes "concat (map utf8Of ps) = concat (map utf8Of qs)" "list_all (\<lambda>c. c < 1114112) ps" "list_all (\<lambda>c. c < 1114112) qs"
  shows "ps = qs"
  using assms
proof (induction ps arbitrary: qs)
  case Nil
  then show ?case by (cases qs) auto
next
  case (Cons p ps)
  then obtain q qs' where q: "qs = q # qs'" by (cases qs) auto
  from Cons.prems utf8Of_prefix [of p "concat (map utf8Of ps)" q "concat (map utf8Of qs')"] have "p = q"
    "concat (map utf8Of ps) = concat (map utf8Of qs')" by (simp_all add: q)
  with Cons.IH [of qs'] Cons.prems show ?case by (simp add: q)
qed

lemma utf8_inj:
  assumes "utf8Bytes s = utf8Bytes t" "wellFormedText s" "wellFormedText t"
  shows "s = t"
proof -
  have points: "utf8Bytes u = concat (map utf8Of (codePoints u))" if "wellFormedText u" for u
    unfolding utf8Bytes_def using that by (intro arg_cong [of _ _ concat] map_cong) (auto simp: wellFormedText_def list_all_iff)
  have "codePoints s = codePoints t"
  proof (rule utf8_points_inj)
    show "concat (map utf8Of (codePoints s)) = concat (map utf8Of (codePoints t))"
      using assms(1) unfolding points [OF assms(2)] points [OF assms(3)] .
    show "list_all (\<lambda>c. c < 1114112) (codePoints s)" "list_all (\<lambda>c. c < 1114112) (codePoints t)"
      using assms(2,3) codePoints_bound unfolding wellFormedText_def by blast+
  qed
  then show ?thesis using units_codePoints assms(2,3) by (metis wellFormedText_def)
qed

section \<open>Decimals\<close>

lemma natText_digit: "list_all isDigit (natText n)"
proof (induction n rule: natText.induct)
  case (1 n)
  have digit: "isDigit (48 + k)" if "k < 10" for k using that by (simp add: isDigit_def)
  show ?case
  proof (cases "n < 10")
    case True
    then show ?thesis by (subst natText.simps) (simp add: digit)
  next
    case False
    with 1 show ?thesis by (subst natText.simps) (simp add: digit)
  qed
qed

lemma natText_inj: "natText m = natText n \<longleftrightarrow> m = n"
proof -
  have read: "foldl (\<lambda>a c. 10 * a + (c - 48)) 0 (natText k) = k" for k
  proof (induction k rule: natText.induct)
    case (1 k)
    then show ?case by (subst natText.simps) auto
  qed
  show ?thesis using read by metis
qed

lemma stop_split:
  assumes "p @ c # r = q @ c # r'" "c \<notin> set p" "c \<notin> set q"
  shows "p = q \<and> r = r'"
  using assms
proof (induction p arbitrary: q)
  case Nil
  then show ?case by (cases q) auto
next
  case (Cons x p)
  then show ?case by (cases q) auto
qed

lemma natText_split:
  assumes "natText m @ c # r = natText n @ c # r'" "\<not> isDigit c"
  shows "m = n \<and> r = r'"
proof -
  have "c \<notin> set (natText k)" for k using natText_digit [of k] assms(2) by (auto simp: list_all_iff)
  from stop_split [OF assms(1) this this] show ?thesis by (simp add: natText_inj)
qed

section \<open>The bytes determine the value\<close>

lemma encode_text_split:
  assumes "natText (byteLength s) @ 58 # utf8Bytes s @ r = natText (byteLength t) @ 58 # utf8Bytes t @ r'"
    "wellFormedText s" "wellFormedText t"
  shows "s = t \<and> r = r'"
proof -
  from natText_split [OF assms(1)] have "byteLength s = byteLength t" "utf8Bytes s @ r = utf8Bytes t @ r'" by (simp_all add: isDigit_def)
  then have "utf8Bytes s = utf8Bytes t" "r = r'" by (simp_all add: byteLength_def)
  then show ?thesis using utf8_inj assms(2,3) by blast
qed

lemma list_split:
  assumes "concat (map f xs) @ r = concat (map f ys) @ r'" "length xs = length ys"
    "\<And>x y r r'. x \<in> set xs \<Longrightarrow> y \<in> set ys \<Longrightarrow> f x @ r = f y @ r' \<Longrightarrow> x = y \<and> r = r'"
  shows "xs = ys \<and> r = r'"
  using assms(2,1,3)
proof (induction xs ys rule: list_induct2)
  case (Cons x xs y ys)
  from Cons.prems(2) [of x y "concat (map f xs) @ r" "concat (map f ys) @ r'"] Cons.prems(1)
  have "x = y" "concat (map f xs) @ r = concat (map f ys) @ r'" by simp_all
  with Cons.IH Cons.prems(2) show ?case by (metis list.set_intros(2))
qed simp

definition encodeField :: "js_string \<times> data_value \<Rightarrow> nat list" where
  "encodeField f = 107 # natText (byteLength (fst f)) @ 58 # utf8Bytes (fst f) @ 61 # encode (snd f)"

lemma encode_object: "encode (Data_object ms) = 111 # natText (length ms) @ 123 # concat (map encodeField ms) @ [125, 59]"
proof -
  have "(\<lambda>(k, v). 107 # natText (byteLength k) @ 58 # utf8Bytes k @ 61 # encode v) = encodeField"
    by (simp add: fun_eq_iff encodeField_def)
  then show ?thesis by simp
qed

text \<open>A text of these constructors begins with a unit of its own.\<close>

lemma encode_head:
  assumes "plainData v"
  shows "hd (encode v) = (case v of Data_null \<Rightarrow> 110 | Data_bool _ \<Rightarrow> 98 | Data_number _ \<Rightarrow> 100 | Data_text _ \<Rightarrow> 115
    | Data_array _ \<Rightarrow> 97 | Data_object _ \<Rightarrow> 111 | Data_other \<Rightarrow> 0)" "encode v \<noteq> []"
  using assms by (cases v; simp add: js_def)+

lemma encode_injective:
  assumes "encode v @ r = encode w @ r'" "plainData v" "plainData w"
  shows "v = w \<and> r = r'"
  using assms
proof (induction v arbitrary: w r r' rule: measure_induct_rule [of size])
  case (less v)
  have heads: "hd (encode v) = hd (encode w)"
    using less.prems(1) encode_head(2) [OF less.prems(2)] encode_head(2) [OF less.prems(3)] by (metis hd_append2)
  show ?case
  proof (cases v)
    case Data_null
    then show ?thesis using less.prems heads encode_head(1) [OF less.prems(3)] by (cases w) (auto simp: js_def)
  next
    case (Data_bool b)
    then show ?thesis using less.prems heads encode_head(1) [OF less.prems(3)] by (cases w) (auto simp: js_def split: if_splits)
  next
    case (Data_number s)
    then obtain t where w: "w = Data_number t" using heads encode_head(1) [OF less.prems(3)] less.prems(3) by (cases w) auto
    have no: "59 \<notin> set u" if "numberText u" for u using that by (auto simp: numberText_def list_all_iff isDigit_def)
    have "s @ 59 # r = t @ 59 # r'" "numberText s" "numberText t" using less.prems by (simp_all add: Data_number w)
    with stop_split [OF this(1) no no] show ?thesis by (simp add: Data_number w)
  next
    case (Data_text s)
    then obtain t where w: "w = Data_text t" using heads encode_head(1) [OF less.prems(3)] less.prems(3) by (cases w) auto
    have "natText (byteLength s) @ 58 # utf8Bytes s @ 59 # r = natText (byteLength t) @ 58 # utf8Bytes t @ 59 # r'"
      using less.prems(1) by (simp add: Data_text w)
    from encode_text_split [OF this] less.prems(2,3) show ?thesis by (simp add: Data_text w)
  next
    case (Data_array vs)
    then obtain ws where w: "w = Data_array ws" using heads encode_head(1) [OF less.prems(3)] less.prems(3) by (cases w) auto
    have "natText (length vs) @ 91 # concat (map encode vs) @ [93, 59] @ r = natText (length ws) @ 91 # concat (map encode ws) @ [93, 59] @ r'"
      using less.prems(1) by (simp add: Data_array w)
    from natText_split [OF this] have c: "length vs = length ws" "concat (map encode vs) @ [93, 59] @ r = concat (map encode ws) @ [93, 59] @ r'"
      by (simp_all add: isDigit_def)
    have "vs = ws \<and> [93, 59] @ r = [93, 59] @ r'"
    proof (rule list_split [OF c(2,1)])
      fix x y r r'
      assume x: "x \<in> set vs" "y \<in> set ws" "encode x @ r = encode y @ r'"
      have "size x < size v" using size_list_estimation' [OF x(1) order_refl, of size] by (simp add: Data_array)
      from less.IH [OF this x(3)] less.prems(2,3) x(1,2) show "x = y \<and> r = r'" by (simp add: Data_array w list_all_iff)
    qed
    then show ?thesis by (simp add: Data_array w)
  next
    case (Data_object ms)
    then obtain ns where w: "w = Data_object ns" using heads encode_head(1) [OF less.prems(3)] less.prems(3) by (cases w) auto
    have "natText (length ms) @ 123 # concat (map encodeField ms) @ [125, 59] @ r = natText (length ns) @ 123 # concat (map encodeField ns) @ [125, 59] @ r'"
      using less.prems(1) unfolding Data_object w encode_object by simp
    from natText_split [OF this] have c: "length ms = length ns"
      "concat (map encodeField ms) @ [125, 59] @ r = concat (map encodeField ns) @ [125, 59] @ r'" by (simp_all add: isDigit_def)
    have "ms = ns \<and> [125, 59] @ r = [125, 59] @ r'"
    proof (rule list_split [OF c(2,1)])
      fix x y r r'
      assume x: "x \<in> set ms" "y \<in> set ns" "encodeField x @ r = encodeField y @ r'"
      have plain: "wellFormedText (fst x)" "wellFormedText (fst y)" "plainData (snd x)" "plainData (snd y)"
        using less.prems(2,3) x(1,2) by (auto simp: Data_object w list_all_iff)
      have "natText (byteLength (fst x)) @ 58 # utf8Bytes (fst x) @ 61 # encode (snd x) @ r =
          natText (byteLength (fst y)) @ 58 # utf8Bytes (fst y) @ 61 # encode (snd y) @ r'"
        using x(3) by (simp add: encodeField_def)
      from encode_text_split [OF this plain(1,2)] have k: "fst x = fst y" "encode (snd x) @ r = encode (snd y) @ r'" by simp_all
      have "size (snd x) < size v"
        using size_list_estimation' [OF x(1) order_refl, of "size_prod (\<lambda>_. 0) size"] by (cases x) (simp add: Data_object)
      from less.IH [OF this k(2) plain(3,4)] k(1) show "x = y \<and> r = r'" by (simp add: prod_eq_iff)
    qed
    then show ?thesis by (simp add: Data_object w)
  qed (use less.prems(2) in simp)
qed

section \<open>The visit writes those bytes\<close>

lemma insertField_set: "set (insertField f ms) = insert f (set ms)"
  by (induction ms) auto

lemma sortFields_set [simp]: "set (sortFields ms) = set ms"
  by (induction ms) (simp_all add: sortFields_def insertField_set)

lemma insertField_length [simp]: "length (insertField f ms) = Suc (length ms)"
  by (induction ms) auto

lemma sortFields_length [simp]: "length (sortFields ms) = length ms"
  by (induction ms) (simp_all add: sortFields_def)

lemma insertField_map: "insertField (k, f v) (map (\<lambda>(k, v). (k, f v)) ms) = map (\<lambda>(k, v). (k, f v)) (insertField (k, v) ms)"
  by (induction ms) auto

lemma sortFields_map: "sortFields (map (\<lambda>(k, v). (k, f v)) ms) = map (\<lambda>(k, v). (k, f v)) (sortFields ms)"
proof (induction ms)
  case (Cons m ms)
  then show ?case by (cases m) (simp add: sortFields_def insertField_map)
qed (simp add: sortFields_def)

lemma natText_bytes [simp]: "list_all (\<lambda>c. c < 128) (natText n)"
  using natText_digit [of n] by (auto simp: list_all_iff isDigit_def)

lemma visit_bytes:
  "visitCanonical v d l s = Some (chunks, s') \<Longrightarrow> plainData v \<Longrightarrow> concat (map utf8Bytes chunks) = encode (normalForm v)"
  "visitItems vs d l s = Some (chunks, s') \<Longrightarrow> list_all plainData vs \<Longrightarrow>
    concat (map utf8Bytes chunks) = concat (map encode (map normalForm vs))"
  "visitFields ms d l s = Some (chunks, s') \<Longrightarrow> list_all (\<lambda>(k, v). wellFormedText k \<and> plainData v) ms \<Longrightarrow>
    concat (map utf8Bytes chunks) = concat (map encodeField (map (\<lambda>(k, v). (k, normalForm v)) ms))"
proof (induction v d l s and vs d l s and ms d l s arbitrary: chunks s' and chunks s' and chunks s'
    rule: visitCanonical_visitItems_visitFields.induct)
  case (1 dv depth limits state)
  obtain st where st: "chargeCanonicalNode dv depth limits state = Some st"
    using "1.prems"(1) by (auto split: option.splits)
  show ?case
  proof (cases dv)
    case (Data_number t)
    have "list_all (\<lambda>c. c < 128) (js ''d'' @ t @ js '';'')"
      using "1.prems"(2) by (auto simp: Data_number numberText_def list_all_iff isDigit_def js_def)
    from utf8_ascii [OF this] show ?thesis using "1.prems"(1) st by (auto simp: Data_number js_def)
  next
    case (Data_array items)
    then obtain rest where rest: "visitItems items depth limits st = Some (rest, s')"
      "chunks = (js ''a'' @ natText (length items) @ js ''['') # rest @ [js ''];'']"
      using "1.prems"(1) st by (auto split: if_splits option.splits)
    have "\<not> maximumArrayItems limits < int (length items)" using "1.prems"(1) st by (auto simp: Data_array split: if_splits)
    with "1.IH"(1) [OF st Data_array] rest(1) "1.prems"(2)
    have "concat (map utf8Bytes rest) = concat (map encode (map normalForm items))" by (simp add: Data_array)
    moreover have "utf8Bytes (js ''a'' @ natText (length items) @ js ''['') = 97 # natText (length items) @ [91]"
      by (subst utf8_ascii) (simp_all add: js_def)
    moreover have "utf8Bytes (js ''];'') = [93, 59]" by (subst utf8_ascii) (simp_all add: js_def)
    ultimately show ?thesis by (simp add: rest(2) Data_array)
  next
    case (Data_object members)
    then obtain rest where rest: "visitFields (sortFields members) depth limits st = Some (rest, s')"
      "chunks = (js ''o'' @ natText (length members) @ js ''{'') # rest @ [js ''};'']"
      using "1.prems"(1) st by (auto split: if_splits option.splits)
    have "canonicalObjectKeys members limits" using "1.prems"(1) st by (auto simp: Data_object split: if_splits)
    with "1.IH"(2) [OF st Data_object] rest(1) "1.prems"(2)
    have "concat (map utf8Bytes rest) = concat (map encodeField (map (\<lambda>(k, v). (k, normalForm v)) (sortFields members)))"
      by (simp add: Data_object list_all_iff)
    moreover have "utf8Bytes (js ''o'' @ natText (length members) @ js ''{'') = 111 # natText (length members) @ [123]"
      by (subst utf8_ascii) (simp_all add: js_def)
    moreover have "utf8Bytes (js ''};'') = [125, 59]" by (subst utf8_ascii) (simp_all add: js_def)
    ultimately show ?thesis unfolding Data_object normalForm.simps encode_object by (simp add: rest(2) sortFields_map)
  next
    case (Data_text t)
    have "utf8Bytes (js ''s'' @ natText (byteLength t) @ js '':'') = 115 # natText (byteLength t) @ [58]" "utf8Bytes (js '';'') = [59]"
      by (subst utf8_ascii; simp add: js_def)+
    then show ?thesis using "1.prems"(1) st by (auto simp: Data_text)
  next
    case Data_null
    have "utf8Bytes (js ''n;'') = js ''n;''" by (subst utf8_ascii) (simp_all add: js_def)
    then show ?thesis using "1.prems"(1) st by (auto simp: Data_null)
  next
    case (Data_bool b)
    have "utf8Bytes (js ''b1;'') = js ''b1;''" "utf8Bytes (js ''b0;'') = js ''b0;''" by (subst utf8_ascii; simp add: js_def)+
    then show ?thesis using "1.prems"(1) st by (auto simp: Data_bool)
  qed (use "1.prems"(2) in simp)
next
  case (3 v vs depth limits state)
  then show ?case by (auto split: option.splits)
next
  case (5 key v members depth limits state)
  have "utf8Bytes (js ''k'' @ natText (byteLength key) @ js '':'') = 107 # natText (byteLength key) @ [58]" "utf8Bytes (js ''='') = [61]"
    by (subst utf8_ascii; simp add: js_def)+
  with 5 show ?case by (auto simp: encodeField_def split: option.splits)
qed simp_all

section \<open>The copy\<close>

lemma clone_visit:
  "cloneNode v d l s = map_option (\<lambda>(_, s'). (normalForm v, s')) (visitCanonical v d l s)"
  "cloneItems vs d l s = map_option (\<lambda>(_, s'). (map normalForm vs, s')) (visitItems vs d l s)"
  "cloneFields ms d l s = map_option (\<lambda>(_, s'). (map (\<lambda>(k, v). (k, normalForm v)) ms, s')) (visitFields ms d l s)"
proof (induction v d l s and vs d l s and ms d l s rule: visitCanonical_visitItems_visitFields.induct)
  case (1 dv depth limits state)
  show ?case
  proof (cases "chargeCanonicalNode dv depth limits state")
    case (Some st)
    with 1 show ?thesis by (cases dv) (auto simp: sortFields_map split: option.splits)
  qed simp
qed (auto split: option.splits)

text \<open>A value has a copy exactly when it has a canonical form, and the copy is its normal form.\<close>

lemma clone_normal: "cloneCanonicalData limits v = map_option (\<lambda>_. normalForm v) (canonicalBytes limits v)"
  unfolding cloneCanonicalData_def canonicalBytes_def clone_visit by (cases "visitCanonical v 0 limits canonicalStart") auto


definition sampleLimits :: canonical_limits where
  "sampleLimits = canonicalLimits 8388608 1048576"

lemmas evaluate_canonical =
  canonicalBytes_def canonicalStart_def sampleLimits_def canonicalLimits_def chargeCanonicalNode_def chargeCanonicalBytes_def
  canonicalObjectKeys_def byteLength_def utf8Bytes_def utf8Of_def highUnit_def lowUnit_def sortFields_def js_def natText.simps


text \<open>Strings with lone surrogates are merged: two different texts have the same bytes.\<close>

lemma lone_surrogates_merge:
  "canonicalBytes sampleLimits (Data_text [55296]) = canonicalBytes sampleLimits (Data_text [55297]) \<and>
   canonicalBytes sampleLimits (Data_text [55296]) \<noteq> None \<and> normalForm (Data_text [55296]) \<noteq> normalForm (Data_text [55297])"
  by (simp add: evaluate_canonical)

end
