(* ===== verification/Write_Admission.thy ===== *)
theory Write_Admission
  imports Canonical_Laws Complex_Main
begin

text \<open>
  \<open>packages/server/src/selected-write-admission-policy.ts\<close>: which selected mutations may run. The first
  request of an operation id owns it and runs it; a repeated request of the same content gets the
  owner's result, now or later; another content is a conflict. Requests are limited by rate, by
  device, by target and in total, and a drain lets the owners finish and admits nobody else.

  Entries are objects that the owner's closure, the replays and the table share, so they live in a
  store and are named by their place in it; an entry also has the variables of its owner's closure.
  Promises are answers in a log. Times are rational (\<open>performance.now()\<close> has fractions), a clock
  reading that throws or is not finite is \<open>None\<close>, and the abort state of a signal is an argument of the
  call that reads it. \<open>originOk\<close> says which texts are canonical HTTP origins (\<open>new URL(v).origin\<close>, of the
  platform).
\<close>

section \<open>Failures\<close>

datatype admission_reason =
  AR_capacity_reached | AR_clock_invalid | AR_contract_invalid | AR_device_limit | AR_global_limit | AR_host_not_ready
| AR_host_state_changed | AR_input_invalid | AR_operation_conflict | AR_rate_limit | AR_request_aborted
| AR_service_draining | AR_target_limit

text \<open>An error of the policy with its API code and whether it is safe to retry, or the error an owner gave.\<close>

datatype admission_failure =
  Admission_failure admission_reason js_string bool
| Owner_failure nat

abbreviation contractInvalid :: admission_failure where
  "contractInvalid \<equiv> Admission_failure AR_contract_invalid (js ''internal_error'') False"

abbreviation requestAborted :: admission_failure where
  "requestAborted \<equiv> Admission_failure AR_request_aborted (js ''operation_timeout'') False"

section \<open>State\<close>

datatype admission_phase = Phase_open | Phase_draining | Phase_closed

datatype settlement = Settled_value data_value | Settled_error admission_failure

record admission_budget =
  mutationWindow :: rat
  mutationMaxRequestsPerDevice :: int
  mutationMaxInFlightPerDevice :: int
  mutationMaxInFlightPerTarget :: int
  mutationMaxInFlightGlobal :: int
  admissionMaxTrackedKeys :: int
  admissionStateTtl :: rat
  admissionLimits :: canonical_limits

record rate_bucket =
  bucketCount :: int
  bucketLastSeen :: rat
  bucketStarted :: rat

record admission_entry =
  entryActor :: js_string
  entryFingerprint :: js_string
  entryWaiters :: "nat list"
  entryTarget :: "js_string option"
  entryTerminal :: "rat option"
  entrySettlement :: "settlement option"
  ownerOperation :: js_string
  ownerOpen :: bool
  ownerChecked :: bool
  ownerProof :: "nat option"

record replay_handle =
  replayEntry :: nat
  replayUsed :: bool

record admission_counters =
  nAttempts :: int
  nOwnerClaims :: int
  nInFlightReplays :: int
  nTerminalReplays :: int
  nOperationConflicts :: int
  nRateRejections :: int
  nDeviceRejections :: int
  nTargetRejections :: int
  nGlobalRejections :: int
  nReadinessRejections :: int
  nCapacityRejections :: int
  nValueSettlements :: int
  nErrorSettlements :: int
  nAbandonedOwners :: int
  nReplayAborts :: int
  nDrainRejections :: int
  nDrainAborts :: int
  nContractFailures :: int
  nClockFailures :: int
  peakActiveOwners :: int
  peakActiveTargets :: int
  peakActiveWaiters :: int
  peakActiveDrainWaiters :: int
  peakTrackedKeys :: int

text \<open>A map is the list of its entries in the order of insertion.\<close>

definition mapPut :: "'k \<Rightarrow> 'v \<Rightarrow> ('k \<times> 'v) list \<Rightarrow> ('k \<times> 'v) list" where
  "mapPut k v m = (if k \<in> set (map fst m) then map (\<lambda>(k', w). (k', if k' = k then v else w)) m else m @ [(k, v)])"

definition mapDelete :: "'k \<Rightarrow> ('k \<times> 'v) list \<Rightarrow> ('k \<times> 'v) list" where
  "mapDelete k m = filter (\<lambda>(k', _). k' \<noteq> k) m"

record admission =
  admEntries :: "admission_entry list"
  admReplays :: "replay_handle list"
  admOperations :: "(js_string \<times> nat) list"
  admBuckets :: "(js_string \<times> rate_bucket) list"
  admActors :: "(js_string \<times> int) list"
  admTargets :: "(js_string \<times> int) list"
  admDrains :: nat
  admDrainWaiters :: "nat list"
  admPhase :: admission_phase
  admGlobal :: int
  admTargetClaims :: int
  admNow :: rat
  admCounters :: admission_counters
  admAnswers :: "(nat \<times> settlement) list"
  admDrained :: "(nat \<times> bool) list"

text \<open>\<open>admAnswers\<close> has what each waiting replay was told, \<open>admDrained\<close> whether each drain was let through or aborted.\<close>

definition noCounters :: admission_counters where
  "noCounters =
     \<lparr> nAttempts = 0, nOwnerClaims = 0, nInFlightReplays = 0, nTerminalReplays = 0, nOperationConflicts = 0, nRateRejections = 0,
       nDeviceRejections = 0, nTargetRejections = 0, nGlobalRejections = 0, nReadinessRejections = 0, nCapacityRejections = 0,
       nValueSettlements = 0, nErrorSettlements = 0, nAbandonedOwners = 0, nReplayAborts = 0, nDrainRejections = 0,
       nDrainAborts = 0, nContractFailures = 0, nClockFailures = 0, peakActiveOwners = 0, peakActiveTargets = 0,
       peakActiveWaiters = 0, peakActiveDrainWaiters = 0, peakTrackedKeys = 0 \<rparr>"

definition newAdmission :: "rat \<Rightarrow> admission" where
  "newAdmission initialNow =
     \<lparr> admEntries = [], admReplays = [], admOperations = [], admBuckets = [], admActors = [], admTargets = [], admDrains = 0,
       admDrainWaiters = [], admPhase = Phase_open, admGlobal = 0, admTargetClaims = 0, admNow = initialNow,
       admCounters = noCounters, admAnswers = [], admDrained = [] \<rparr>"

definition increment :: "((int \<Rightarrow> int) \<Rightarrow> admission_counters \<Rightarrow> admission_counters) \<Rightarrow> admission \<Rightarrow> admission" where
  "increment counter a = a\<lparr> admCounters := counter (\<lambda>n. if n < maxSafe then n + 1 else n) (admCounters a) \<rparr>"

definition updateEntry :: "nat \<Rightarrow> (admission_entry \<Rightarrow> admission_entry) \<Rightarrow> admission \<Rightarrow> admission" where
  "updateEntry i f a = a\<lparr> admEntries := (admEntries a)[i := f (admEntries a ! i)] \<rparr>"

definition trackedKeys :: "admission \<Rightarrow> int" where
  "trackedKeys a = int (length (admOperations a)) + int (length (admBuckets a))"

definition activeWaiterCount :: "admission \<Rightarrow> int" where
  "activeWaiterCount a = sum_list (map (\<lambda>(_, i). int (length (entryWaiters (admEntries a ! i)))) (admOperations a))"

definition updatePeaks :: "admission \<Rightarrow> admission" where
  "updatePeaks a =
     a\<lparr> admCounters := (admCounters a)
       \<lparr> peakActiveOwners := max (peakActiveOwners (admCounters a)) (admGlobal a),
         peakActiveTargets := max (peakActiveTargets (admCounters a)) (admTargetClaims a),
         peakActiveWaiters := max (peakActiveWaiters (admCounters a)) (activeWaiterCount a),
         peakTrackedKeys := max (peakTrackedKeys (admCounters a)) (trackedKeys a) \<rparr> \<rparr>"

text \<open>What a snapshot reports: the phase, the counters and the sizes.\<close>

definition snapshot :: "admission \<Rightarrow> admission_phase \<times> admission_counters \<times> int list" where
  "snapshot a =
     (admPhase a, admCounters a,
      [admGlobal a, admTargetClaims a, activeWaiterCount a, int (length (admDrainWaiters a)), int (length (admOperations a)),
       int (length (admBuckets a))])"

section \<open>Clock, rates and memory\<close>

type_synonym 'a step = "(admission_failure + 'a) \<times> admission"

definition readNow :: "rat option \<Rightarrow> admission \<Rightarrow> rat step" where
  "readNow clock a =
     (case clock of
        None \<Rightarrow> (Inl (Admission_failure AR_clock_invalid (js ''internal_error'') False), increment nClockFailures_update a)
      | Some now \<Rightarrow>
          if now < admNow a
          then (Inl (Admission_failure AR_clock_invalid (js ''internal_error'') False), increment nClockFailures_update a)
          else (Inr now, a\<lparr> admNow := now \<rparr>))"

text \<open>The first loop of \<open>prune\<close> over the operations it has left to visit.\<close>

fun pruneOperations :: "rat \<Rightarrow> rat \<Rightarrow> (js_string \<times> nat) list \<Rightarrow> admission \<Rightarrow> unit step" where
  "pruneOperations now ttl [] a = (Inr (), a)"
| "pruneOperations now ttl ((k, i) # rest) a =
     (let e = admEntries a ! i in
      if entrySettlement e \<noteq> None \<and> (case entryTerminal e of None \<Rightarrow> False | Some t \<Rightarrow> now - t \<ge> ttl)
      then if entryWaiters e \<noteq> [] then (Inl contractInvalid, increment nContractFailures_update a)
           else pruneOperations now ttl rest (a\<lparr> admOperations := mapDelete k (admOperations a) \<rparr>)
      else pruneOperations now ttl rest a)"

definition prune :: "admission_budget \<Rightarrow> rat \<Rightarrow> admission \<Rightarrow> unit step" where
  "prune budget now a =
     (case pruneOperations now (admissionStateTtl budget) (admOperations a) a of
        (Inl e, a) \<Rightarrow> (Inl e, a)
      | (Inr _, a) \<Rightarrow>
          (Inr (), a\<lparr> admBuckets :=
             filter (\<lambda>(k, b). k \<in> set (map fst (admActors a)) \<or> \<not> now - bucketLastSeen b \<ge> admissionStateTtl budget) (admBuckets a) \<rparr>))"

definition capacityReached :: "admission \<Rightarrow> 'a step" where
  "capacityReached a =
     (Inl (Admission_failure AR_capacity_reached (js ''service_overloaded'') True), increment nCapacityRejections_update a)"

definition chargeBucket :: "admission_budget \<Rightarrow> js_string \<Rightarrow> rat \<Rightarrow> rate_bucket \<Rightarrow> admission \<Rightarrow> unit step" where
  "chargeBucket budget actorKey now b a =
     (let b = b\<lparr> bucketLastSeen := now \<rparr> in
      if bucketCount b \<ge> mutationMaxRequestsPerDevice budget
      then (Inl (Admission_failure AR_rate_limit (js ''rate_limited'') True),
            increment nRateRejections_update (a\<lparr> admBuckets := mapPut actorKey b (admBuckets a) \<rparr>))
      else (Inr (), a\<lparr> admBuckets := mapPut actorKey (b\<lparr> bucketCount := bucketCount b + 1 \<rparr>) (admBuckets a) \<rparr>))"

text \<open>The bucket of an actor, with its window begun again when it is over.\<close>

definition chargeRate :: "admission_budget \<Rightarrow> js_string \<Rightarrow> rat \<Rightarrow> admission \<Rightarrow> unit step" where
  "chargeRate budget actorKey now a =
     (case map_of (admBuckets a) actorKey of
        None \<Rightarrow>
          if trackedKeys a \<ge> admissionMaxTrackedKeys budget then capacityReached a
          else chargeBucket budget actorKey now \<lparr> bucketCount = 0, bucketLastSeen = now, bucketStarted = now \<rparr>
            (updatePeaks (a\<lparr> admBuckets := mapPut actorKey \<lparr> bucketCount = 0, bucketLastSeen = now, bucketStarted = now \<rparr> (admBuckets a) \<rparr>))
      | Some b \<Rightarrow>
          chargeBucket budget actorKey now
            (if now - bucketStarted b \<ge> mutationWindow budget then b\<lparr> bucketCount := 0, bucketStarted := now \<rparr> else b) a)"

section \<open>Inputs\<close>

text \<open>\<open>packages/contracts/src/selected-storage.ts\<close>: an object with exactly these fields, each accepted.\<close>

definition strictObject :: "(js_string \<times> (data_value \<Rightarrow> bool)) list \<Rightarrow> data_value \<Rightarrow> bool" where
  "strictObject shape v =
     (case v of
        Data_object ms \<Rightarrow>
          set (map fst ms) = set (map fst shape) \<and>
          list_all (\<lambda>(k, ok). case map_of ms k of None \<Rightarrow> False | Some w \<Rightarrow> ok w) shape
      | _ \<Rightarrow> False)"

definition textOk :: "(js_string \<Rightarrow> bool) \<Rightarrow> data_value \<Rightarrow> bool" where
  "textOk ok v = (case v of Data_text s \<Rightarrow> ok s | _ \<Rightarrow> False)"

definition nullableOk :: "(data_value \<Rightarrow> bool) \<Rightarrow> data_value \<Rightarrow> bool" where
  "nullableOk ok v \<longleftrightarrow> v = Data_null \<or> ok v"

definition memberOf :: "js_string \<Rightarrow> data_value \<Rightarrow> data_value" where
  "memberOf k v = (case v of Data_object ms \<Rightarrow> (case map_of ms k of None \<Rightarrow> Data_null | Some w \<Rightarrow> w) | _ \<Rightarrow> Data_null)"

definition selectedRecordIdOk :: "js_string \<Rightarrow> bool" where
  "selectedRecordIdOk s \<longleftrightarrow>
     1 \<le> length s \<and> length s \<le> 120 \<and> list_all (\<lambda>c. isLetter c \<or> isDigit c \<or> c = 95 \<or> c = 46 \<or> c = 58 \<or> c = 45) s"

definition selectedAuditOriginOk :: "(js_string \<Rightarrow> bool) \<Rightarrow> js_string \<Rightarrow> bool" where
  "selectedAuditOriginOk originOk s \<longleftrightarrow> 1 \<le> length s \<and> length s \<le> 512 \<and> originOk s"

definition selectedAuditActorOk :: "(js_string \<Rightarrow> bool) \<Rightarrow> data_value \<Rightarrow> bool" where
  "selectedAuditActorOk originOk v \<longleftrightarrow>
     strictObject
       [(js ''type'', textOk (\<lambda>s. s \<in> {js ''system'', js ''cli'', js ''dashboard'', js ''pairing_client''})),
        (js ''device_id'', nullableOk (textOk selectedRecordIdOk)),
        (js ''permission'', nullableOk (textOk (\<lambda>s. s \<in> {js ''local_admin'', js ''read'', js ''write''}))),
        (js ''origin'', nullableOk (textOk (selectedAuditOriginOk originOk)))] v \<and>
     (let kind = memberOf (js ''type'') v; device = memberOf (js ''device_id'') v;
          permission = memberOf (js ''permission'') v; origin = memberOf (js ''origin'') v
      in \<not> (kind = Data_text (js ''dashboard'') \<and> (device = Data_null \<or> permission = Data_null \<or> origin = Data_null)) \<and>
         \<not> (kind = Data_text (js ''dashboard'') \<and> permission = Data_text (js ''local_admin'')) \<and>
         \<not> (kind = Data_text (js ''system'') \<and> (device \<noteq> Data_null \<or> permission \<noteq> Data_null \<or> origin \<noteq> Data_null)) \<and>
         \<not> (kind = Data_text (js ''cli'') \<and>
            (permission \<noteq> Data_text (js ''local_admin'') \<or> device \<noteq> Data_null \<or> origin \<noteq> Data_null)) \<and>
         \<not> (kind = Data_text (js ''pairing_client'') \<and> (device \<noteq> Data_null \<or> permission \<noteq> Data_null \<or> origin = Data_null)))"

definition literalOk :: "string \<Rightarrow> data_value \<Rightarrow> bool" where
  "literalOk s v \<longleftrightarrow> v = Data_text (js s)"

definition selectedAuditTargetOk :: "data_value \<Rightarrow> bool" where
  "selectedAuditTargetOk v \<longleftrightarrow>
     (let session = (js ''session_id'', textOk (\<lambda>s. sessionIdSchema s = Some s));
          thread = (js ''codex_thread_id'', textOk (\<lambda>s. codexThreadIdSchema s = Some s))
      in list_ex (\<lambda>shape. strictObject shape v)
        [[(js ''type'', literalOk ''managed_session''), session, thread],
         [(js ''type'', literalOk ''approval''), session, thread, (js ''request_id'', textOk (\<lambda>s. parseRuntimeRequestId s = Inr s))],
         [(js ''type'', literalOk ''turn''), session, thread, (js ''turn_id'', textOk (\<lambda>s. parseCodexTurnId s = Inr s))],
         [(js ''type'', literalOk ''device''), (js ''device_id'', textOk selectedRecordIdOk)],
         [(js ''type'', literalOk ''host''), (js ''host_id'', literalOk ''local_host'')],
         [(js ''type'', literalOk ''native_codex_thread''), thread]])"

definition routeIdPattern :: "js_string \<Rightarrow> bool" where
  "routeIdPattern s =
     (case s of
        [] \<Rightarrow> False
      | c # r \<Rightarrow> isLower c \<and> length r \<le> 119 \<and> list_all (\<lambda>c. isLower c \<or> isDigit c \<or> c = 95) r)"

record admission_input =
  inputOperation :: js_string
  inputActor :: data_value
  inputRoute :: js_string
  inputIntent :: data_value
  inputAborted :: bool

record parsed_input =
  parsedOperation :: js_string
  parsedActor :: js_string
  parsedFingerprint :: js_string

definition parseAdmissionInput :: "canonical_limits \<Rightarrow> (js_string \<Rightarrow> bool) \<Rightarrow> admission_input \<Rightarrow> parsed_input option" where
  "parseAdmissionInput limits originOk input =
     (case parseClientOperationId (inputOperation input) of
        Inl _ \<Rightarrow> None
      | Inr operationId \<Rightarrow>
          do {
            _ \<leftarrow> guard (routeIdPattern (inputRoute input));
            actor \<leftarrow> cloneCanonicalData limits (inputActor input);
            _ \<leftarrow> guard (selectedAuditActorOk originOk actor);
            actorKey \<leftarrow> canonicalDigest limits actor;
            fingerprint \<leftarrow> canonicalDigest limits
              (Data_object [(js ''actor'', actor), (js ''route_id'', Data_text (inputRoute input)), (js ''intent'', inputIntent input)]);
            Some \<lparr> parsedOperation = operationId, parsedActor = actorKey, parsedFingerprint = fingerprint \<rparr>
          })"

section \<open>Drains\<close>

definition closeIfDrained :: "admission \<Rightarrow> admission" where
  "closeIfDrained a =
     (if admPhase a \<noteq> Phase_draining \<or> admGlobal a \<noteq> 0 then a
      else a\<lparr> admPhase := Phase_closed, admDrainWaiters := [], admDrained := admDrained a @ map (\<lambda>w. (w, True)) (admDrainWaiters a) \<rparr>)"

definition beginDrain :: "admission \<Rightarrow> (admission_phase \<times> admission_counters \<times> int list) \<times> admission" where
  "beginDrain a =
     (let a = closeIfDrained (if admPhase a = Phase_open then a\<lparr> admPhase := Phase_draining \<rparr> else a) in (snapshot a, a))"

text \<open>A drain is named by the number of those before it.\<close>

definition drain :: "bool \<Rightarrow> admission \<Rightarrow> admission" where
  "drain aborted a =
     (let w = admDrains a; a = snd (beginDrain (a\<lparr> admDrains := admDrains a + 1 \<rparr>)) in
      if admPhase a = Phase_closed then a\<lparr> admDrained := admDrained a @ [(w, True)] \<rparr>
      else if aborted then increment nDrainAborts_update (a\<lparr> admDrained := admDrained a @ [(w, False)] \<rparr>)
      else
        let a = a\<lparr> admDrainWaiters := admDrainWaiters a @ [w] \<rparr>;
            n = int (length (admDrainWaiters a));
            a = (if n > peakActiveDrainWaiters (admCounters a)
                 then a\<lparr> admCounters := (admCounters a)\<lparr> peakActiveDrainWaiters := n \<rparr> \<rparr> else a)
        in closeIfDrained a)"

definition abortDrain :: "nat \<Rightarrow> admission \<Rightarrow> admission" where
  "abortDrain w a =
     (if w \<notin> set (admDrainWaiters a) then a
      else increment nDrainAborts_update
        (a\<lparr> admDrainWaiters := filter (\<lambda>x. x \<noteq> w) (admDrainWaiters a), admDrained := admDrained a @ [(w, False)] \<rparr>))"

section \<open>The end of an entry\<close>

definition takeOne :: "js_string \<Rightarrow> (js_string \<times> int) list \<Rightarrow> (js_string \<times> int) list" where
  "takeOne k m = (case map_of m k of None \<Rightarrow> m | Some n \<Rightarrow> if n = 1 then mapDelete k m else mapPut k (n - 1) m)"

definition releaseOwner :: "nat \<Rightarrow> admission \<Rightarrow> unit step" where
  "releaseOwner i a =
     (let e = admEntries a ! i;
          refused = (Inl contractInvalid, increment nContractFailures_update a)
      in if (case map_of (admActors a) (entryActor e) of None \<Rightarrow> True | Some n \<Rightarrow> n < 1) \<or> admGlobal a < 1 then refused
         else case entryTarget e of
           None \<Rightarrow> (Inr (), closeIfDrained (a\<lparr> admActors := takeOne (entryActor e) (admActors a), admGlobal := admGlobal a - 1 \<rparr>))
         | Some k \<Rightarrow>
             if (case map_of (admTargets a) k of None \<Rightarrow> True | Some n \<Rightarrow> n < 1) \<or> admTargetClaims a < 1 then refused
             else (Inr (), closeIfDrained (a\<lparr> admActors := takeOne (entryActor e) (admActors a), admGlobal := admGlobal a - 1,
                    admTargets := takeOne k (admTargets a), admTargetClaims := admTargetClaims a - 1 \<rparr>)))"

definition settleWaiters :: "nat \<Rightarrow> admission \<Rightarrow> unit step" where
  "settleWaiters i a =
     (let e = admEntries a ! i in
      case entrySettlement e of
        None \<Rightarrow> (Inl contractInvalid, increment nContractFailures_update a)
      | Some s \<Rightarrow>
          (Inr (), updateEntry i (\<lambda>e. e\<lparr> entryWaiters := [] \<rparr>) (a\<lparr> admAnswers := admAnswers a @ map (\<lambda>w. (w, s)) (entryWaiters e) \<rparr>)))"

definition staleEntry :: "nat \<Rightarrow> admission \<Rightarrow> bool" where
  "staleEntry i a \<longleftrightarrow>
     map_of (admOperations a) (ownerOperation (admEntries a ! i)) \<noteq> Some i \<or> entrySettlement (admEntries a ! i) \<noteq> None"

definition retainSettlement :: "nat \<Rightarrow> settlement \<Rightarrow> rat option \<Rightarrow> admission \<Rightarrow> unit step" where
  "retainSettlement i s clock a =
     (if staleEntry i a then (Inl contractInvalid, increment nContractFailures_update a)
      else
        case readNow clock a of
          (reading, a) \<Rightarrow>
            let a = updateEntry i (\<lambda>e. e\<lparr>
                  entrySettlement := Some (case reading of Inl e \<Rightarrow> Settled_error e | Inr _ \<Rightarrow> s),
                  entryTerminal := Some (case reading of Inl _ \<Rightarrow> admNow a | Inr now \<Rightarrow> now) \<rparr>) a
            in (case releaseOwner i a of
                  (Inl e, a) \<Rightarrow> (Inl e, a)
                | (Inr _, a) \<Rightarrow>
                    (case settleWaiters i a of
                       (Inl e, a) \<Rightarrow> (Inl e, a)
                     | (Inr _, a) \<Rightarrow>
                         (case reading of Inl e \<Rightarrow> (Inl e, increment nErrorSettlements_update a) | Inr _ \<Rightarrow> (Inr (), a)))))"

text \<open>These two always throw: the error they settle with, or the one they meet.\<close>

definition retainError :: "nat \<Rightarrow> admission_failure \<Rightarrow> rat option \<Rightarrow> admission \<Rightarrow> admission_failure \<times> admission" where
  "retainError i e clock a =
     (case retainSettlement i (Settled_error e) clock a of
        (Inl e', a) \<Rightarrow> (e', a)
      | (Inr _, a) \<Rightarrow> (e, increment nErrorSettlements_update a))"

definition abandonEntry :: "nat \<Rightarrow> admission_failure \<Rightarrow> admission \<Rightarrow> admission_failure \<times> admission" where
  "abandonEntry i e a =
     (if staleEntry i a then (contractInvalid, increment nContractFailures_update a)
      else
        case releaseOwner i (updateEntry i (\<lambda>x. x\<lparr> entrySettlement := Some (Settled_error e) \<rparr>) a) of
          (Inl e', a) \<Rightarrow> (e', a)
        | (Inr _, a) \<Rightarrow>
            (case settleWaiters i (a\<lparr> admOperations := mapDelete (ownerOperation (admEntries a ! i)) (admOperations a) \<rparr>) of
               (Inl e', a) \<Rightarrow> (e', a)
             | (Inr _, a) \<Rightarrow> (e, increment nAbandonedOwners_update a)))"

definition requireRetainableError :: "nat \<Rightarrow> bool \<Rightarrow> admission \<Rightarrow> admission_failure \<times> admission" where
  "requireRetainableError error frozen a =
     (if frozen then (Owner_failure error, a) else (contractInvalid, increment nContractFailures_update a))"

section \<open>Beginning\<close>

datatype health_answer = Health_absent | Health_proof nat | Health_refuses js_string bool | Health_breaks

definition healthFailure :: "admission_reason \<Rightarrow> health_answer \<Rightarrow> admission \<Rightarrow> admission_failure \<times> admission" where
  "healthFailure reason health a =
     (case health of
        Health_refuses apiCode safe \<Rightarrow> (Admission_failure reason apiCode safe, a)
      | _ \<Rightarrow> (contractInvalid, increment nContractFailures_update a))"

definition admitHealth :: "health_answer \<Rightarrow> admission \<Rightarrow> nat option step" where
  "admitHealth health a =
     (case health of
        Health_absent \<Rightarrow> (Inr None, a)
      | Health_proof p \<Rightarrow> (Inr (Some p), a)
      | _ \<Rightarrow> (case healthFailure AR_host_not_ready health (increment nReadinessRejections_update a) of (e, a) \<Rightarrow> (Inl e, a)))"

text \<open>An owner is named by its entry, a replay by its place among the replays.\<close>

datatype admission_decision = Decided_owner nat | Decided_replay nat

definition createOwnerEntry :: "parsed_input \<Rightarrow> nat option \<Rightarrow> admission_entry" where
  "createOwnerEntry p healthProof =
     \<lparr> entryActor = parsedActor p, entryFingerprint = parsedFingerprint p, entryWaiters = [], entryTarget = None, entryTerminal = None,
       entrySettlement = None, ownerOperation = parsedOperation p, ownerOpen = True, ownerChecked = False, ownerProof = healthProof \<rparr>"

definition beginKnown :: "parsed_input \<Rightarrow> nat \<Rightarrow> admission \<Rightarrow> admission_decision step" where
  "beginKnown p i a =
     (let e = admEntries a ! i in
      if entryFingerprint e \<noteq> parsedFingerprint p
      then (Inl (Admission_failure AR_operation_conflict (js ''operation_conflict'') False), increment nOperationConflicts_update a)
      else
        let a = (if entrySettlement e = None then increment nInFlightReplays_update a else increment nTerminalReplays_update a)
        in (Inr (Decided_replay (length (admReplays a))), a\<lparr> admReplays := admReplays a @ [\<lparr> replayEntry = i, replayUsed = False \<rparr>] \<rparr>))"

definition actorCount :: "js_string \<Rightarrow> admission \<Rightarrow> int" where
  "actorCount k a = (case map_of (admActors a) k of None \<Rightarrow> 0 | Some n \<Rightarrow> n)"

definition beginNew :: "admission_budget \<Rightarrow> parsed_input \<Rightarrow> health_answer \<Rightarrow> admission \<Rightarrow> admission_decision step" where
  "beginNew budget p health a =
     (if trackedKeys a \<ge> admissionMaxTrackedKeys budget then capacityReached a
      else if actorCount (parsedActor p) a \<ge> mutationMaxInFlightPerDevice budget
      then (Inl (Admission_failure AR_device_limit (js ''service_overloaded'') True), increment nDeviceRejections_update a)
      else if admGlobal a \<ge> mutationMaxInFlightGlobal budget
      then (Inl (Admission_failure AR_global_limit (js ''service_overloaded'') True), increment nGlobalRejections_update a)
      else
        case admitHealth health a of
          (Inl e, a) \<Rightarrow> (Inl e, a)
        | (Inr healthProof, a) \<Rightarrow>
            (let i = length (admEntries a) in
             (Inr (Decided_owner i),
              updatePeaks (increment nOwnerClaims_update (a\<lparr>
                admEntries := admEntries a @ [createOwnerEntry p healthProof],
                admOperations := mapPut (parsedOperation p) i (admOperations a),
                admActors := mapPut (parsedActor p) (actorCount (parsedActor p) a + 1) (admActors a),
                admGlobal := admGlobal a + 1 \<rparr>)))))"

definition beginAdmission ::
  "admission_budget \<Rightarrow> (js_string \<Rightarrow> bool) \<Rightarrow> admission_input \<Rightarrow> rat option \<Rightarrow> health_answer \<Rightarrow> admission \<Rightarrow> admission_decision step" where
  "beginAdmission budget originOk input clock health a =
     (let a = increment nAttempts_update a in
      if admPhase a \<noteq> Phase_open
      then (Inl (Admission_failure AR_service_draining (js ''runtime_unavailable'') False), increment nDrainRejections_update a)
      else
        case parseAdmissionInput (admissionLimits budget) originOk input of
          None \<Rightarrow> (Inl (Admission_failure AR_input_invalid (js ''validation_error'') True), increment nContractFailures_update a)
        | Some p \<Rightarrow>
            (case readNow clock a of
               (Inl e, a) \<Rightarrow> (Inl e, a)
             | (Inr now, a) \<Rightarrow>
                 if inputAborted input then (Inl requestAborted, a)
                 else
                   (case prune budget now a of
                      (Inl e, a) \<Rightarrow> (Inl e, a)
                    | (Inr _, a) \<Rightarrow>
                        (case chargeRate budget (parsedActor p) now a of
                           (Inl e, a) \<Rightarrow> (Inl e, a)
                         | (Inr _, a) \<Rightarrow>
                             (case map_of (admOperations a) (parsedOperation p) of
                                Some i \<Rightarrow> beginKnown p i a
                              | None \<Rightarrow> beginNew budget p health a)))))"

section \<open>Owners\<close>

definition closeOwner :: "nat \<Rightarrow> admission \<Rightarrow> admission" where
  "closeOwner i a = updateEntry i (\<lambda>e. e\<lparr> ownerOpen := False \<rparr>) a"

definition requireOpen :: "nat \<Rightarrow> admission \<Rightarrow> unit step" where
  "requireOpen i a =
     (if \<not> ownerOpen (admEntries a ! i) \<or> entrySettlement (admEntries a ! i) \<noteq> None
      then (Inl contractInvalid, increment nContractFailures_update a) else (Inr (), a))"

text \<open>\<open>bindTarget\<close>, \<open>complete\<close>, \<open>fail\<close>: the error they throw, or \<open>None\<close> and the replay value.\<close>

definition bindTarget :: "admission_budget \<Rightarrow> nat \<Rightarrow> data_value \<Rightarrow> rat option \<Rightarrow> admission \<Rightarrow> admission_failure option \<times> admission" where
  "bindTarget budget i target clock a =
     (case requireOpen i a of
        (Inl e, a) \<Rightarrow> (Some e, a)
      | (Inr _, a) \<Rightarrow>
          if entryTarget (admEntries a ! i) \<noteq> None
          then map_prod Some id (retainError i contractInvalid clock (closeOwner i (increment nContractFailures_update a)))
          else
            case (case cloneCanonicalData (admissionLimits budget) target of
                    None \<Rightarrow> None
                  | Some t \<Rightarrow> if selectedAuditTargetOk t then canonicalDigest (admissionLimits budget) t else None) of
              None \<Rightarrow> map_prod Some id (abandonEntry i contractInvalid (closeOwner i (increment nContractFailures_update a)))
            | Some k \<Rightarrow>
                (let count = (case map_of (admTargets a) k of None \<Rightarrow> 0 | Some n \<Rightarrow> n) in
                 if count \<ge> mutationMaxInFlightPerTarget budget
                 then map_prod Some id
                   (abandonEntry i (Admission_failure AR_target_limit (js ''service_overloaded'') True)
                     (closeOwner i (increment nTargetRejections_update a)))
                 else (None, updatePeaks (updateEntry i (\<lambda>e. e\<lparr> entryTarget := Some k \<rparr>)
                   (a\<lparr> admTargets := mapPut k (count + 1) (admTargets a), admTargetClaims := admTargetClaims a + 1 \<rparr>)))))"

definition assertReady :: "nat \<Rightarrow> health_answer \<Rightarrow> admission \<Rightarrow> admission_failure option \<times> admission" where
  "assertReady i health a =
     (case requireOpen i a of
        (Inl e, a) \<Rightarrow> (Some e, a)
      | (Inr _, a) \<Rightarrow>
          if ownerChecked (admEntries a ! i) then (Some contractInvalid, increment nContractFailures_update a)
          else
            let a = updateEntry i (\<lambda>e. e\<lparr> ownerChecked := True \<rparr>) a in
            if health = Health_absent \<or> ownerProof (admEntries a ! i) = None then (None, a)
            else case health of
              Health_proof _ \<Rightarrow> (None, a)
            | _ \<Rightarrow> map_prod Some id (healthFailure AR_host_state_changed health (increment nReadinessRejections_update a)))"

definition completeOwner :: "admission_budget \<Rightarrow> nat \<Rightarrow> data_value \<Rightarrow> rat option \<Rightarrow> admission \<Rightarrow> data_value step" where
  "completeOwner budget i v clock a =
     (case requireOpen i a of
        (Inl e, a) \<Rightarrow> (Inl e, a)
      | (Inr _, a) \<Rightarrow>
          (case (if entryTarget (admEntries a ! i) = None then None else cloneCanonicalData (admissionLimits budget) v) of
             None \<Rightarrow> map_prod Inl id (retainError i contractInvalid clock (closeOwner i (increment nContractFailures_update a)))
           | Some w \<Rightarrow>
               (case retainSettlement i (Settled_value w) clock (closeOwner i a) of
                  (Inl e, a) \<Rightarrow> (Inl e, a)
                | (Inr _, a) \<Rightarrow> (Inr w, increment nValueSettlements_update a))))"

definition failOwner :: "nat \<Rightarrow> nat \<Rightarrow> bool \<Rightarrow> rat option \<Rightarrow> admission \<Rightarrow> admission_failure \<times> admission" where
  "failOwner i error frozen clock a =
     (case requireOpen i a of
        (Inl e, a) \<Rightarrow> (e, a)
      | (Inr _, a) \<Rightarrow>
          if entryTarget (admEntries a ! i) = None
          then retainError i contractInvalid clock (closeOwner i (increment nContractFailures_update a))
          else case requireRetainableError error frozen a of (e, a) \<Rightarrow> retainError i e clock (closeOwner i a))"

definition abandonOwner :: "nat \<Rightarrow> nat \<Rightarrow> bool \<Rightarrow> admission \<Rightarrow> admission_failure \<times> admission" where
  "abandonOwner i error frozen a =
     (case requireOpen i a of
        (Inl e, a) \<Rightarrow> (e, a)
      | (Inr _, a) \<Rightarrow> (case requireRetainableError error frozen a of (e, a) \<Rightarrow> abandonEntry i e (closeOwner i a)))"

section \<open>Replays\<close>

text \<open>What \<open>replay()\<close> returns: the settlement, or nothing yet.\<close>

definition replayCall :: "nat \<Rightarrow> bool \<Rightarrow> admission \<Rightarrow> settlement option step" where
  "replayCall j aborted a =
     (let r = admReplays a ! j; i = replayEntry r in
      if replayUsed r then (Inl contractInvalid, increment nContractFailures_update a)
      else
        let a = a\<lparr> admReplays := (admReplays a)[j := r\<lparr> replayUsed := True \<rparr>] \<rparr> in
        if aborted then (Inl requestAborted, increment nReplayAborts_update a)
        else case entrySettlement (admEntries a ! i) of
          Some s \<Rightarrow> (Inr (Some s), a)
        | None \<Rightarrow> (Inr None, updatePeaks (updateEntry i (\<lambda>e. e\<lparr> entryWaiters := entryWaiters e @ [j] \<rparr>) a)))"

text \<open>The signal of a waiting replay aborts.\<close>

definition abortReplay :: "nat \<Rightarrow> admission \<Rightarrow> admission" where
  "abortReplay j a =
     (let i = replayEntry (admReplays a ! j) in
      if j \<notin> set (entryWaiters (admEntries a ! i)) then a
      else increment nReplayAborts_update
        (updateEntry i (\<lambda>e. e\<lparr> entryWaiters := filter (\<lambda>w. w \<noteq> j) (entryWaiters e) \<rparr>)
          (a\<lparr> admAnswers := admAnswers a @ [(j, Settled_error requestAborted)] \<rparr>)))"

section \<open>Histories\<close>

text \<open>Calls of an owner or a replay that does not exist cannot be made; they change nothing here.\<close>

datatype admission_call =
  Begin_call admission_input "rat option" health_answer
| Bind_call nat data_value "rat option"
| Ready_call nat health_answer
| Complete_call nat data_value "rat option"
| Fail_call nat nat bool "rat option"
| Abandon_call nat nat bool
| Replay_call nat bool
| Replay_abort nat
| Begin_drain_call
| Drain_call bool
| Drain_abort nat

fun admissionStep :: "admission_budget \<Rightarrow> (js_string \<Rightarrow> bool) \<Rightarrow> admission_call \<Rightarrow> admission \<Rightarrow> admission" where
  "admissionStep budget originOk (Begin_call input clock health) a = snd (beginAdmission budget originOk input clock health a)"
| "admissionStep budget originOk (Bind_call i target clock) a =
     (if i < length (admEntries a) then snd (bindTarget budget i target clock a) else a)"
| "admissionStep budget originOk (Ready_call i health) a = (if i < length (admEntries a) then snd (assertReady i health a) else a)"
| "admissionStep budget originOk (Complete_call i v clock) a =
     (if i < length (admEntries a) then snd (completeOwner budget i v clock a) else a)"
| "admissionStep budget originOk (Fail_call i error frozen clock) a =
     (if i < length (admEntries a) then snd (failOwner i error frozen clock a) else a)"
| "admissionStep budget originOk (Abandon_call i error frozen) a =
     (if i < length (admEntries a) then snd (abandonOwner i error frozen a) else a)"
| "admissionStep budget originOk (Replay_call j aborted) a =
     (if j < length (admReplays a) then snd (replayCall j aborted a) else a)"
| "admissionStep budget originOk (Replay_abort j) a = (if j < length (admReplays a) then abortReplay j a else a)"
| "admissionStep budget originOk Begin_drain_call a = snd (beginDrain a)"
| "admissionStep budget originOk (Drain_call aborted) a = drain aborted a"
| "admissionStep budget originOk (Drain_abort w) a = abortDrain w a"

end
