(* ===== verification/Admission_Laws.thy ===== *)
theory Admission_Laws
  imports Write_Admission Machine
begin

text \<open>
  What every call of the admission policy keeps: the table, the claims of actors and targets and the
  totals are those of the entries without a settlement, nobody waits for an entry that is settled,
  and a drain waits exactly while there are owners.
\<close>

section \<open>Maps\<close>

definition tally :: "('k \<times> int) list \<Rightarrow> 'k \<Rightarrow> int" where
  "tally m k = (case map_of m k of None \<Rightarrow> 0 | Some n \<Rightarrow> n)"

lemma map_of_put [simp]: "map_of (mapPut k v m) k' = (if k' = k then Some v else map_of m k')"
proof (cases "k \<in> set (map fst m)")
  case True
  have "map_of (map (\<lambda>(k', w). (k', if k' = k then v else w)) xs) k' =
      (if k' = k \<and> k \<in> set (map fst xs) then Some v else map_of xs k')" for xs
  proof (induction xs)
    case (Cons x xs)
    then show ?case by (cases x) (auto simp: rev_image_eqI)
  qed simp
  with True show ?thesis by (simp add: mapPut_def)
next
  case False
  then have "map_of m k = None" by (simp add: map_of_eq_None_iff)
  with False show ?thesis by (auto simp: mapPut_def map_add_def split: option.splits)
qed

lemma map_of_delete [simp]: "map_of (mapDelete k m) k' = (if k' = k then None else map_of m k')"
  by (induction m) (auto simp: mapDelete_def)

lemma tally_put [simp]: "tally (mapPut k v m) k' = (if k' = k then v else tally m k')"
  by (simp add: tally_def)

lemma tally_delete [simp]: "tally (mapDelete k m) k' = (if k' = k then 0 else tally m k')"
  by (simp add: tally_def)

lemma tally_take: "0 < tally m k \<Longrightarrow> tally (takeOne k m) k' = (if k' = k then tally m k - 1 else tally m k')"
  by (auto simp: tally_def takeOne_def split: option.splits)

lemma tally_refuses: "(case map_of m k of None \<Rightarrow> True | Some n \<Rightarrow> n < 1) \<longleftrightarrow> tally m k < 1"
  by (auto simp: tally_def split: option.splits)

lemma put_length: "length (mapPut k v m) = (if k \<in> set (map fst m) then length m else length m + 1)"
  by (simp add: mapPut_def)

lemma delete_length: "length (mapDelete k m) \<le> length m"
  by (simp add: mapDelete_def)

lemma put_distinct: "distinct (map fst m) \<Longrightarrow> distinct (map fst (mapPut k v m))"
proof (cases "k \<in> set (map fst m)")
  case True
  moreover have "map fst (map (\<lambda>(k', w). (k', if k' = k then v else w)) m) = map fst m" by (induction m) auto
  ultimately show "distinct (map fst m) \<Longrightarrow> ?thesis" by (simp add: mapPut_def del: map_map)
qed (simp add: mapPut_def)

lemma delete_distinct: "distinct (map fst m) \<Longrightarrow> distinct (map fst (mapDelete k m))"
  by (simp add: mapDelete_def distinct_map_filter)

section \<open>Live entries\<close>

abbreviation live :: "admission_entry \<Rightarrow> bool" where
  "live e \<equiv> entrySettlement e = None"

definition liveCount :: "(admission_entry \<Rightarrow> bool) \<Rightarrow> admission \<Rightarrow> int" where
  "liveCount p a = int (length (filter (\<lambda>e. live e \<and> p e) (admEntries a)))"

lemma count_update:
  "i < length xs \<Longrightarrow> int (length (filter p (xs[i := y]))) = int (length (filter p xs)) + (if p y then 1 else 0) - (if p (xs ! i) then 1 else 0)"
proof (induction xs arbitrary: i)
  case (Cons x xs)
  show ?case
  proof (cases i)
    case (Suc j)
    with Cons.IH [of j] Cons.prems show ?thesis by (cases "p y"; cases "p (xs ! j)"; cases "p x") auto
  qed simp
qed simp

lemma count_pos: "i < length xs \<Longrightarrow> p (xs ! i) \<Longrightarrow> 0 < length (filter p xs)"
  by (metis length_greater_0_conv filter_empty_conv nth_mem)

section \<open>The invariant\<close>

definition tableOk :: "admission \<Rightarrow> bool" where
  "tableOk a \<longleftrightarrow>
     (\<forall>(k, i) \<in> set (admOperations a). i < length (admEntries a) \<and> ownerOperation (admEntries a ! i) = k) \<and>
     distinct (map fst (admOperations a)) \<and>
     (\<forall>i < length (admEntries a). live (admEntries a ! i) \<longrightarrow> map_of (admOperations a) (ownerOperation (admEntries a ! i)) = Some i)"

definition entriesOk :: "admission \<Rightarrow> bool" where
  "entriesOk a \<longleftrightarrow> (\<forall>e \<in> set (admEntries a).
     (ownerOpen e \<longleftrightarrow> live e) \<and> (live e \<longrightarrow> entryTerminal e = None) \<and> (\<not> live e \<longrightarrow> entryWaiters e = []) \<and>
     (\<forall>t. entryTerminal e = Some t \<longrightarrow> t \<le> admNow a))"

definition claimsOk :: "admission \<Rightarrow> bool" where
  "claimsOk a \<longleftrightarrow>
     admGlobal a = liveCount (\<lambda>_. True) a \<and> admTargetClaims a = liveCount (\<lambda>e. entryTarget e \<noteq> None) a \<and>
     (\<forall>k. tally (admActors a) k = liveCount (\<lambda>e. entryActor e = k) a) \<and>
     (\<forall>k. tally (admTargets a) k = liveCount (\<lambda>e. entryTarget e = Some k) a)"

definition limitsOk :: "admission_budget \<Rightarrow> admission \<Rightarrow> bool" where
  "limitsOk budget a \<longleftrightarrow>
     admGlobal a \<le> max 0 (mutationMaxInFlightGlobal budget) \<and> trackedKeys a \<le> max 0 (admissionMaxTrackedKeys budget) \<and>
     (\<forall>k. tally (admActors a) k \<le> max 0 (mutationMaxInFlightPerDevice budget)) \<and>
     (\<forall>k. tally (admTargets a) k \<le> max 0 (mutationMaxInFlightPerTarget budget))"

text \<open>An entry that no longer stands for its operation: abandoned, or settled for as long as the table keeps it.\<close>

definition gone :: "admission_budget \<Rightarrow> rat \<Rightarrow> admission_entry \<Rightarrow> bool" where
  "gone budget now e \<longleftrightarrow>
     \<not> live e \<and> (case entryTerminal e of None \<Rightarrow> True | Some t \<Rightarrow> admissionStateTtl budget \<le> now - t)"

definition onceOk :: "admission_budget \<Rightarrow> admission \<Rightarrow> bool" where
  "onceOk budget a \<longleftrightarrow>
     (\<forall>j < length (admEntries a). map_of (admOperations a) (ownerOperation (admEntries a ! j)) = Some j \<or>
        gone budget (admNow a) (admEntries a ! j)) \<and>
     (\<forall>i < length (admEntries a). \<forall>j < i. ownerOperation (admEntries a ! j) = ownerOperation (admEntries a ! i) \<longrightarrow>
        gone budget (admNow a) (admEntries a ! j))"

definition drainOk :: "admission \<Rightarrow> bool" where
  "drainOk a \<longleftrightarrow>
     ((\<exists>w. (w, True) \<in> set (admDrained a)) \<longrightarrow> admPhase a = Phase_closed) \<and>
     (admPhase a = Phase_draining \<longrightarrow> admGlobal a \<noteq> 0) \<and> (admPhase a = Phase_closed \<longrightarrow> admGlobal a = 0) \<and>
     (admDrainWaiters a \<noteq> [] \<longrightarrow> admPhase a = Phase_draining)"

definition answersOk :: "admission \<Rightarrow> bool" where
  "answersOk a \<longleftrightarrow>
     distinct (map fst (admAnswers a)) \<and>
     (\<forall>(w, s) \<in> set (admAnswers a). w < length (admReplays a) \<and> replayUsed (admReplays a ! w) \<and>
        (s = Settled_error requestAborted \<or> entrySettlement (admEntries a ! replayEntry (admReplays a ! w)) = Some s)) \<and>
     (\<forall>r \<in> set (admReplays a). replayEntry r < length (admEntries a)) \<and>
     (\<forall>i < length (admEntries a). distinct (entryWaiters (admEntries a ! i)) \<and>
        (\<forall>w \<in> set (entryWaiters (admEntries a ! i)). w < length (admReplays a) \<and> replayUsed (admReplays a ! w) \<and>
           replayEntry (admReplays a ! w) = i \<and> w \<notin> set (map fst (admAnswers a))))"

definition admissionOk :: "admission_budget \<Rightarrow> admission \<Rightarrow> bool" where
  "admissionOk budget a \<longleftrightarrow>
     tableOk a \<and> entriesOk a \<and> claimsOk a \<and> limitsOk budget a \<and> drainOk a \<and> answersOk a \<and> onceOk budget a"

lemmas admission_parts = tableOk_def entriesOk_def claimsOk_def limitsOk_def drainOk_def answersOk_def onceOk_def

lemma ok_counters [simp]: "admissionOk budget (a\<lparr> admCounters := c \<rparr>) = admissionOk budget a"
  by (simp add: admissionOk_def admission_parts liveCount_def trackedKeys_def)

lemma ok_increment [simp]: "admissionOk budget (increment f a) = admissionOk budget a"
  by (simp add: increment_def)

lemma ok_peaks [simp]: "admissionOk budget (updatePeaks a) = admissionOk budget a"
  by (simp add: updatePeaks_def)

section \<open>The end of an entry\<close>

text \<open>The parts of the invariant that speak of the calls and the limits do not depend on the order of
  these updates, so each is shown for the whole change: entry \<open>i\<close> settles, and its claims go.\<close>

definition settled :: "nat \<Rightarrow> settlement \<Rightarrow> rat option \<Rightarrow> admission \<Rightarrow> admission" where
  "settled i s terminal a =
     (let e = admEntries a ! i in
      a\<lparr> admEntries := (admEntries a)[i := e\<lparr> ownerOpen := False, entrySettlement := Some s, entryTerminal := terminal, entryWaiters := [] \<rparr>],
         admAnswers := admAnswers a @ map (\<lambda>w. (w, s)) (entryWaiters e),
         admActors := takeOne (entryActor e) (admActors a), admGlobal := admGlobal a - 1,
         admTargets := (case entryTarget e of None \<Rightarrow> admTargets a | Some k \<Rightarrow> takeOne k (admTargets a)),
         admTargetClaims := admTargetClaims a - (if entryTarget e = None then 0 else 1) \<rparr>)"

lemma live_counts:
  assumes "claimsOk a" "i < length (admEntries a)" "live (admEntries a ! i)"
  shows "1 \<le> admGlobal a" "1 \<le> tally (admActors a) (entryActor (admEntries a ! i))"
    "entryTarget (admEntries a ! i) = Some k \<Longrightarrow> 1 \<le> tally (admTargets a) k \<and> 1 \<le> admTargetClaims a"
proof -
  have pos: "1 \<le> liveCount p a" if "p (admEntries a ! i)" for p
    using count_pos [OF assms(2), of "\<lambda>e. live e \<and> p e"] that assms(3) by (simp add: liveCount_def Suc_le_eq)
  show "1 \<le> admGlobal a" "1 \<le> tally (admActors a) (entryActor (admEntries a ! i))"
    "entryTarget (admEntries a ! i) = Some k \<Longrightarrow> 1 \<le> tally (admTargets a) k \<and> 1 \<le> admTargetClaims a"
    using assms(1) pos by (simp_all add: claimsOk_def)
qed

lemma settled_claims:
  assumes "claimsOk a" "i < length (admEntries a)" "live (admEntries a ! i)"
  shows "claimsOk (settled i s terminal a)"
proof -
  let ?e = "admEntries a ! i"
  have count: "liveCount p (settled i s terminal a) = liveCount p a - (if p ?e then 1 else 0)" for p
    using count_update [OF assms(2), of "\<lambda>e. live e \<and> p e"] assms(3) by (simp add: liveCount_def settled_def Let_def)
  have actors: "tally (admActors (settled i s terminal a)) k = tally (admActors a) k - (if k = entryActor ?e then 1 else 0)" for k
    using live_counts(2) [OF assms] by (simp add: settled_def Let_def tally_take)
  have targets: "tally (admTargets (settled i s terminal a)) k = tally (admTargets a) k - (if entryTarget ?e = Some k then 1 else 0)" for k
    using live_counts(3) [OF assms] by (auto simp: settled_def Let_def tally_take split: option.splits)
  show ?thesis using assms(1) by (auto simp: claimsOk_def count actors targets) (simp_all add: settled_def Let_def)
qed

lemma settled_limits:
  assumes "limitsOk budget a" "claimsOk a" "i < length (admEntries a)" "live (admEntries a ! i)"
  shows "limitsOk budget (settled i s terminal a)"
proof -
  have t: "tally (takeOne k m) k' \<le> max 0 L" if "\<And>k. tally m k \<le> max 0 L" "1 \<le> tally m k" for k k' m L
    using that(1) [of k] that(1) [of k'] that(2) tally_take [of m k k'] by (cases "k' = k") auto
  show ?thesis
    using assms(1) live_counts [OF assms(2-4)]
    by (auto simp: limitsOk_def settled_def Let_def trackedKeys_def intro!: t split: option.splits)
qed

lemma settled_entries:
  assumes "entriesOk a" "i < length (admEntries a)" "case terminal of None \<Rightarrow> True | Some t \<Rightarrow> t \<le> admNow a"
  shows "entriesOk (settled i s terminal a)"
  using assms by (auto simp: entriesOk_def settled_def Let_def dest!: set_update_subset_insert [THEN subsetD])

lemma settled_table:
  assumes "tableOk a" "i < length (admEntries a)"
  shows "tableOk (settled i s terminal a)"
  using assms by (auto simp: tableOk_def settled_def Let_def nth_list_update split: if_splits)

lemma settled_answers:
  assumes "answersOk a" "entriesOk a" "i < length (admEntries a)" "live (admEntries a ! i)"
  shows "answersOk (settled i s terminal a)"
proof -
  let ?e = "admEntries a ! i" and ?b = "settled i s terminal a"
  have fields: "admReplays ?b = admReplays a" "length (admEntries ?b) = length (admEntries a)"
    "map fst (admAnswers ?b) = map fst (admAnswers a) @ entryWaiters ?e"
    by (simp_all add: settled_def Let_def comp_def)
  have waiters: "entryWaiters (admEntries ?b ! j) = (if j = i then [] else entryWaiters (admEntries a ! j))" if "j < length (admEntries a)" for j
    using that by (simp add: settled_def Let_def nth_list_update)
  have old: "distinct (map fst (admAnswers a))" "\<forall>r \<in> set (admReplays a). replayEntry r < length (admEntries a)"
    and wait: "\<And>j. j < length (admEntries a) \<Longrightarrow> distinct (entryWaiters (admEntries a ! j))"
      "\<And>j w. j < length (admEntries a) \<Longrightarrow> w \<in> set (entryWaiters (admEntries a ! j)) \<Longrightarrow> w < length (admReplays a) \<and>
        replayUsed (admReplays a ! w) \<and> replayEntry (admReplays a ! w) = j \<and> w \<notin> set (map fst (admAnswers a))"
    and told: "\<And>w t. (w, t) \<in> set (admAnswers a) \<Longrightarrow> w < length (admReplays a) \<and> replayUsed (admReplays a ! w) \<and>
        (t = Settled_error requestAborted \<or> entrySettlement (admEntries a ! replayEntry (admReplays a ! w)) = Some t)"
    using assms(1) unfolding answersOk_def by blast+
  have same: "(w, t) \<in> set (admAnswers ?b) \<Longrightarrow> w < length (admReplays a) \<and> replayUsed (admReplays a ! w) \<and>
      (t = Settled_error requestAborted \<or> entrySettlement (admEntries ?b ! replayEntry (admReplays a ! w)) = Some t)" for w t
  proof -
    assume "(w, t) \<in> set (admAnswers ?b)"
    then consider "(w, t) \<in> set (admAnswers a)" | "w \<in> set (entryWaiters ?e)" "t = s" by (auto simp: settled_def Let_def)
    then show ?thesis
    proof cases
      case 1
      from told [OF 1] have "replayEntry (admReplays a ! w) \<noteq> i \<or> t = Settled_error requestAborted" using assms(4) by auto
      with told [OF 1] show ?thesis by (auto simp: settled_def Let_def nth_list_update)
    next
      case 2
      with wait(2) [OF assms(3) 2(1)] assms(3) show ?thesis by (simp add: settled_def Let_def)
    qed
  qed
  have "w \<notin> set (map fst (admAnswers a)) \<and> w \<notin> set (entryWaiters ?e)" if "j < length (admEntries a)" "j \<noteq> i" "w \<in> set (entryWaiters (admEntries a ! j))" for j w
    using wait(2) [OF that(1,3)] wait(2) [OF assms(3), of w] that(2) by auto
  moreover have "distinct (map fst (admAnswers a) @ entryWaiters ?e)" using old(1) wait [OF assms(3)] by auto
  ultimately show ?thesis
    unfolding answersOk_def fields using same old(2) wait waiters by (auto simp: fields(2))
qed


lemma closing_entries [simp]: "closeIfDrained (a\<lparr> admEntries := x \<rparr>) = (closeIfDrained a)\<lparr> admEntries := x \<rparr>"
  by (simp add: closeIfDrained_def)

lemma closing_answers [simp]: "closeIfDrained (a\<lparr> admAnswers := x \<rparr>) = (closeIfDrained a)\<lparr> admAnswers := x \<rparr>"
  by (simp add: closeIfDrained_def)

lemma closing_operations [simp]: "closeIfDrained (a\<lparr> admOperations := x \<rparr>) = (closeIfDrained a)\<lparr> admOperations := x \<rparr>"
  by (simp add: closeIfDrained_def)

lemma closing_counters [simp]: "closeIfDrained (a\<lparr> admCounters := x \<rparr>) = (closeIfDrained a)\<lparr> admCounters := x \<rparr>"
  by (simp add: closeIfDrained_def)

lemma closing_keeps [simp]:
  "admEntries (closeIfDrained a) = admEntries a" "admAnswers (closeIfDrained a) = admAnswers a"
  "admOperations (closeIfDrained a) = admOperations a" "admGlobal (closeIfDrained a) = admGlobal a"
  "admActors (closeIfDrained a) = admActors a" "admTargets (closeIfDrained a) = admTargets a"
  "admTargetClaims (closeIfDrained a) = admTargetClaims a" "admReplays (closeIfDrained a) = admReplays a"
  "admBuckets (closeIfDrained a) = admBuckets a" "admNow (closeIfDrained a) = admNow a"
  by (simp_all add: closeIfDrained_def)

definition clockNow :: "rat option \<Rightarrow> admission \<Rightarrow> rat" where
  "clockNow clock a = (case clock of None \<Rightarrow> admNow a | Some now \<Rightarrow> max now (admNow a))"

definition clockOk :: "rat option \<Rightarrow> admission \<Rightarrow> bool" where
  "clockOk clock a \<longleftrightarrow> (case clock of None \<Rightarrow> False | Some now \<Rightarrow> admNow a \<le> now)"

abbreviation clockInvalid :: admission_failure where
  "clockInvalid \<equiv> Admission_failure AR_clock_invalid (js ''internal_error'') False"

lemma read_cases:
  "\<exists>c. readNow clock a = (if clockOk clock a then Inr (clockNow clock a) else Inl clockInvalid, a\<lparr> admNow := clockNow clock a, admCounters := c \<rparr>)"
proof (cases "clockOk clock a")
  case True
  then show ?thesis
    by (intro exI [of _ "admCounters a"]) (auto simp: readNow_def clockOk_def clockNow_def max_def split: option.splits)
next
  case False
  then show ?thesis
    by (intro exI [of _ "admCounters (increment nClockFailures_update a)"])
      (auto simp: readNow_def clockOk_def clockNow_def max_def increment_def split: option.splits)
qed

lemma released_settled:
  assumes "claimsOk a" "i < length (admEntries a)" "live (admEntries a ! i)"
  shows "\<exists>b. releaseOwner i (a\<lparr> admNow := now, admCounters := c, admEntries := (admEntries a)[i := (admEntries a ! i)
      \<lparr> ownerOpen := False, entrySettlement := Some s, entryTerminal := t \<rparr>] \<rparr>) = (Inr (), b) \<and>
    settleWaiters i b = (Inr (), (closeIfDrained (settled i s t (a\<lparr> admNow := now \<rparr>)))\<lparr> admCounters := c \<rparr>)"
  using live_counts [OF assms] assms(2)
  by (cases "entryTarget (admEntries a ! i)")
    (simp_all add: releaseOwner_def tally_refuses Let_def settleWaiters_def updateEntry_def settled_def, (cases a, simp add: closeIfDrained_def)+)

text \<open>How an owner's call ends its entry: settled and kept, or settled and forgotten.\<close>

definition kept :: "nat \<Rightarrow> settlement \<Rightarrow> rat option \<Rightarrow> admission \<Rightarrow> admission" where
  "kept i s clock a =
     closeIfDrained (settled i (if clockOk clock a then s else Settled_error clockInvalid) (Some (clockNow clock a))
       (a\<lparr> admNow := clockNow clock a \<rparr>))"

definition forgotten :: "nat \<Rightarrow> settlement \<Rightarrow> admission \<Rightarrow> admission" where
  "forgotten i s a =
     (closeIfDrained (settled i s None a))\<lparr> admOperations := mapDelete (ownerOperation (admEntries a ! i)) (admOperations a) \<rparr>"

lemma retain_kept:
  assumes "tableOk a" "claimsOk a" "i < length (admEntries a)" "live (admEntries a ! i)"
  shows "\<exists>c'. retainSettlement i s clock (closeOwner i (a\<lparr> admCounters := c \<rparr>)) =
    (if clockOk clock a then Inr () else Inl clockInvalid, (kept i s clock a)\<lparr> admCounters := c' \<rparr>)"
proof -
  let ?b = "closeOwner i (a\<lparr> admCounters := c \<rparr>)" and ?s = "if clockOk clock a then s else Settled_error clockInvalid"
  have fresh: "\<not> staleEntry i ?b" using assms by (simp add: staleEntry_def closeOwner_def updateEntry_def tableOk_def)
  have same: "clockOk clock ?b = clockOk clock a" "clockNow clock ?b = clockNow clock a"
    by (simp_all add: clockOk_def clockNow_def closeOwner_def updateEntry_def split: option.splits)
  obtain d where read: "readNow clock ?b = (if clockOk clock a then Inr (clockNow clock a) else Inl clockInvalid,
      ?b\<lparr> admNow := clockNow clock a, admCounters := d \<rparr>)"
    using read_cases [of clock ?b] unfolding same by blast
  obtain b where "releaseOwner i (a\<lparr> admNow := clockNow clock a, admCounters := d, admEntries := (admEntries a)[i := (admEntries a ! i)
      \<lparr> ownerOpen := False, entrySettlement := Some ?s, entryTerminal := Some (clockNow clock a) \<rparr>] \<rparr>) = (Inr (), b)"
    "settleWaiters i b = (Inr (), (kept i s clock a)\<lparr> admCounters := d \<rparr>)"
    using released_settled [OF assms(2-4), where now = "clockNow clock a" and c = d and s = ?s and t = "Some (clockNow clock a)"]
    unfolding kept_def by blast
  moreover have "updateEntry i (\<lambda>e. e\<lparr> entrySettlement := Some ?s, entryTerminal := Some (clockNow clock a) \<rparr>)
      (?b\<lparr> admNow := clockNow clock a, admCounters := d \<rparr>) =
    a\<lparr> admNow := clockNow clock a, admCounters := d, admEntries := (admEntries a)[i := (admEntries a ! i)
      \<lparr> ownerOpen := False, entrySettlement := Some ?s, entryTerminal := Some (clockNow clock a) \<rparr>] \<rparr>"
    using assms(3) by (cases a) (simp add: closeOwner_def updateEntry_def)
  ultimately show ?thesis using fresh
    by (cases "clockOk clock a") (auto simp: retainSettlement_def read Let_def increment_def)
qed

lemma settle_operations:
  "settleWaiters i (b\<lparr> admOperations := x \<rparr>) = map_prod id (\<lambda>b. b\<lparr> admOperations := x \<rparr>) (settleWaiters i b)"
  by (cases b) (simp add: settleWaiters_def updateEntry_def increment_def Let_def split: option.splits)

lemma abandon_forgotten:
  assumes "tableOk a" "entriesOk a" "claimsOk a" "i < length (admEntries a)" "live (admEntries a ! i)"
  shows "\<exists>c'. abandonEntry i e (closeOwner i (a\<lparr> admCounters := c \<rparr>)) =
    (e, (forgotten i (Settled_error e) a)\<lparr> admCounters := c' \<rparr>)"
proof -
  have fresh: "\<not> staleEntry i (closeOwner i (a\<lparr> admCounters := c \<rparr>))"
    using assms by (simp add: staleEntry_def closeOwner_def updateEntry_def tableOk_def)
  obtain b where b: "releaseOwner i (a\<lparr> admNow := admNow a, admCounters := c, admEntries := (admEntries a)[i := (admEntries a ! i)
      \<lparr> ownerOpen := False, entrySettlement := Some (Settled_error e), entryTerminal := None \<rparr>] \<rparr>) = (Inr (), b)"
    "settleWaiters i b = (Inr (), (closeIfDrained (settled i (Settled_error e) None (a\<lparr> admNow := admNow a \<rparr>)))\<lparr> admCounters := c \<rparr>)"
    using released_settled [OF assms(3-5), where now = "admNow a" and c = c and s = "Settled_error e" and t = None] by blast
  have "entryTerminal (admEntries a ! i) = None" using assms(2,4,5) by (simp add: entriesOk_def)
  then have entry: "(admEntries a ! i)\<lparr> ownerOpen := False, entrySettlement := Some s, entryTerminal := None \<rparr> =
      (admEntries a ! i)\<lparr> ownerOpen := False, entrySettlement := Some s \<rparr>" for s
    by (cases "admEntries a ! i") simp
  have "a\<lparr> admNow := admNow a, admCounters := c, admEntries := x \<rparr> = a\<lparr> admCounters := c, admEntries := x \<rparr>"
    "a\<lparr> admNow := admNow a \<rparr> = a" for x
    by (cases a, simp)+
  note b' = b [unfolded entry this]
  have keeps: "ownerOperation (admEntries b ! i) = ownerOperation (admEntries a ! i)" "admOperations b = admOperations a"
    using b'(1) assms(4) by (auto simp: releaseOwner_def Let_def split: if_splits option.splits)
  show ?thesis using fresh assms(4) b'
    by (simp add: abandonEntry_def closeOwner_def updateEntry_def settle_operations keeps increment_def forgotten_def) blast
qed

lemma gone_later: "gone budget now e \<Longrightarrow> now \<le> now' \<Longrightarrow> gone budget now' e"
  by (auto simp: gone_def split: option.splits)

lemma settled_once:
  assumes "onceOk budget a" "i < length (admEntries a)" "live (admEntries a ! i)"
  shows "onceOk budget (settled i s terminal a)"
proof -
  have "gone budget now (admEntries (settled i s terminal a) ! j)" if "gone budget now (admEntries a ! j)" for now j
    using that assms(2,3) by (cases "i = j") (auto simp: settled_def Let_def gone_def)
  moreover have "ownerOperation (admEntries (settled i s terminal a) ! j) = ownerOperation (admEntries a ! j)" for j
    using assms(2) by (cases "i = j") (auto simp: settled_def Let_def)
  moreover have "admOperations (settled i s terminal a) = admOperations a" "admNow (settled i s terminal a) = admNow a"
    "length (admEntries (settled i s terminal a)) = length (admEntries a)"
    by (simp_all add: settled_def Let_def)
  ultimately show ?thesis using assms(1) unfolding onceOk_def by metis
qed

lemma settled_drain:
  assumes "drainOk a" "1 \<le> admGlobal a"
  shows "drainOk (closeIfDrained (settled i s terminal a))"
  using assms by (auto simp: drainOk_def settled_def Let_def closeIfDrained_def)

lemma closing_parts [simp]:
  "tableOk (closeIfDrained a) = tableOk a" "entriesOk (closeIfDrained a) = entriesOk a" "claimsOk (closeIfDrained a) = claimsOk a"
  "limitsOk budget (closeIfDrained a) = limitsOk budget a" "answersOk (closeIfDrained a) = answersOk a"
  "onceOk budget (closeIfDrained a) = onceOk budget a"
  by (simp_all add: admission_parts liveCount_def trackedKeys_def)

lemma settled_ok:
  assumes "admissionOk budget a" "i < length (admEntries a)" "live (admEntries a ! i)"
    "case terminal of None \<Rightarrow> True | Some t \<Rightarrow> t \<le> admNow a"
  shows "admissionOk budget (closeIfDrained (settled i s terminal a))"
  using assms
  by (auto simp: admissionOk_def intro!: settled_table settled_entries settled_claims settled_limits settled_drain settled_answers
    settled_once live_counts(1))

lemma ok_now:
  assumes "admissionOk budget a" "admNow a \<le> now"
  shows "admissionOk budget (a\<lparr> admNow := now \<rparr>)"
proof -
  have "onceOk budget (a\<lparr> admNow := now \<rparr>)" using assms gone_later unfolding admissionOk_def onceOk_def by fastforce
  moreover have "entriesOk (a\<lparr> admNow := now \<rparr>)" using assms unfolding admissionOk_def entriesOk_def by fastforce
  moreover have "tableOk (a\<lparr> admNow := now \<rparr>) = tableOk a" "claimsOk (a\<lparr> admNow := now \<rparr>) = claimsOk a"
    "limitsOk budget (a\<lparr> admNow := now \<rparr>) = limitsOk budget a" "drainOk (a\<lparr> admNow := now \<rparr>) = drainOk a"
    "answersOk (a\<lparr> admNow := now \<rparr>) = answersOk a"
    by (simp_all add: admission_parts liveCount_def trackedKeys_def)
  ultimately show ?thesis using assms(1) by (simp add: admissionOk_def)
qed

lemma clock_later: "admNow a \<le> clockNow clock a"
  by (simp add: clockNow_def split: option.split)

lemma kept_ok:
  assumes "admissionOk budget a" "i < length (admEntries a)" "live (admEntries a ! i)"
  shows "admissionOk budget (kept i s clock a)"
  unfolding kept_def using assms by (intro settled_ok ok_now) (simp_all add: clock_later)

text \<open>An operation is taken from the table when its entry is gone.\<close>

lemma forget_ok:
  assumes "admissionOk budget a" "i < length (admEntries a)" "gone budget (admNow a) (admEntries a ! i)"
    "ownerOperation (admEntries a ! i) = k" "map_of (admOperations a) k = Some i"
  shows "admissionOk budget (a\<lparr> admOperations := mapDelete k (admOperations a) \<rparr>)"
proof -
  let ?b = "a\<lparr> admOperations := mapDelete k (admOperations a) \<rparr>"
  have keep: "map_of (mapDelete k (admOperations a)) (ownerOperation (admEntries a ! j)) = Some j"
    if "j \<noteq> i" "map_of (admOperations a) (ownerOperation (admEntries a ! j)) = Some j" for j
    using that assms(4,5) by auto
  have dead: "\<not> live (admEntries a ! i)" using assms(3) by (simp add: gone_def)
  have "onceOk budget ?b" using assms(1-3) keep unfolding admissionOk_def onceOk_def
    by (simp del: map_of_delete) metis
  moreover have "tableOk ?b"
  proof -
    have t: "tableOk a" using assms(1) by (simp add: admissionOk_def)
    have "live (admEntries a ! j) \<Longrightarrow> j < length (admEntries a) \<Longrightarrow>
        map_of (mapDelete k (admOperations a)) (ownerOperation (admEntries a ! j)) = Some j" for j
      using keep [of j] t dead by (cases "j = i") (auto simp: tableOk_def simp del: map_of_delete)
    moreover have "set (mapDelete k (admOperations a)) \<subseteq> set (admOperations a)" by (auto simp: mapDelete_def)
    ultimately show ?thesis using t delete_distinct [of "admOperations a" k] by (auto simp: tableOk_def simp del: map_of_delete)
  qed
  moreover have "trackedKeys ?b \<le> trackedKeys a" using delete_length [of k "admOperations a"] by (simp add: trackedKeys_def)
  then have "limitsOk budget ?b" using assms(1) by (auto simp: admissionOk_def limitsOk_def)
  moreover have "entriesOk ?b = entriesOk a" "claimsOk ?b = claimsOk a" "drainOk ?b = drainOk a" "answersOk ?b = answersOk a"
    by (simp_all add: admission_parts liveCount_def)
  ultimately show ?thesis using assms(1) by (simp add: admissionOk_def)
qed

lemma forgotten_ok:
  assumes "admissionOk budget a" "i < length (admEntries a)" "live (admEntries a ! i)"
  shows "admissionOk budget (forgotten i s a)"
proof -
  let ?b = "closeIfDrained (settled i s None a)"
  have "map_of (admOperations a) (ownerOperation (admEntries a ! i)) = Some i"
    using assms by (simp add: admissionOk_def tableOk_def)
  with assms(2) have "gone budget (admNow ?b) (admEntries ?b ! i)" "i < length (admEntries ?b)"
    "ownerOperation (admEntries ?b ! i) = ownerOperation (admEntries a ! i)"
    "map_of (admOperations ?b) (ownerOperation (admEntries a ! i)) = Some i"
    by (simp_all add: settled_def Let_def gone_def)
  from forget_ok [OF settled_ok [OF assms, of None] this(2,1,3,4)] show ?thesis
    by (simp add: forgotten_def settled_def Let_def)
qed

section \<open>What time does\<close>

text \<open>The clock and the entries only grow, a settlement stays, somebody waiting waits on or is answered, and
  once a drain has begun there is no new entry.\<close>

definition entryLater :: "nat set \<Rightarrow> admission_entry \<Rightarrow> admission_entry \<Rightarrow> bool" where
  "entryLater answered e e' \<longleftrightarrow>
     ownerOperation e' = ownerOperation e \<and> entryFingerprint e' = entryFingerprint e \<and>
     (\<not> live e \<longrightarrow> entrySettlement e' = entrySettlement e) \<and> set (entryWaiters e) \<subseteq> set (entryWaiters e') \<union> answered"

definition admissionLater :: "admission \<Rightarrow> admission \<Rightarrow> bool" where
  "admissionLater a b \<longleftrightarrow>
     admNow a \<le> admNow b \<and> length (admEntries a) \<le> length (admEntries b) \<and> set (admAnswers a) \<subseteq> set (admAnswers b) \<and>
     (\<forall>i < length (admEntries a). entryLater (fst ` set (admAnswers b)) (admEntries a ! i) (admEntries b ! i)) \<and>
     (\<forall>j < length (admReplays a). j < length (admReplays b) \<and> replayEntry (admReplays b ! j) = replayEntry (admReplays a ! j)) \<and>
     (admPhase a \<noteq> Phase_open \<longrightarrow> admPhase b \<noteq> Phase_open \<and> length (admEntries b) = length (admEntries a)) \<and>
     (admPhase a = Phase_closed \<longrightarrow> admPhase b = Phase_closed)"

lemma entry_same [simp]: "entryLater w e e"
  by (simp add: entryLater_def)

lemma later_refl: "admissionLater a a"
  by (simp add: admissionLater_def)

lemma entry_trans: "entryLater w e e' \<Longrightarrow> entryLater w' e' e'' \<Longrightarrow> w \<subseteq> w' \<Longrightarrow> entryLater w' e e''"
  by (auto simp: entryLater_def)

lemma later_trans:
  assumes "admissionLater a b" "admissionLater b c"
  shows "admissionLater a c"
proof -
  note first = assms(1) [unfolded admissionLater_def] and second = assms(2) [unfolded admissionLater_def]
  have "entryLater (fst ` set (admAnswers c)) (admEntries a ! i) (admEntries c ! i)" if "i < length (admEntries a)" for i
  proof (rule entry_trans)
    show "entryLater (fst ` set (admAnswers b)) (admEntries a ! i) (admEntries b ! i)" using first that by blast
    show "entryLater (fst ` set (admAnswers c)) (admEntries b ! i) (admEntries c ! i)" using first second that less_le_trans by blast
    show "fst ` set (admAnswers b) \<subseteq> fst ` set (admAnswers c)" using second by (intro image_mono) blast
  qed
  moreover have "set (admAnswers a) \<subseteq> set (admAnswers c)" using first second by blast
  ultimately show ?thesis using first second unfolding admissionLater_def by simp
qed

text \<open>One step in a call, or several: nothing is broken and time goes on.\<close>

definition advances :: "admission_budget \<Rightarrow> admission \<Rightarrow> admission \<Rightarrow> bool" where
  "advances budget a b \<longleftrightarrow> (admissionOk budget a \<longrightarrow> admissionOk budget b \<and> admissionLater a b)"

lemma advances_refl [simp]: "advances budget a a"
  by (simp add: advances_def later_refl)

lemma advances_trans: "advances budget a b \<Longrightarrow> advances budget b c \<Longrightarrow> advances budget a c"
  unfolding advances_def using later_trans by blast

lemma later_counters [simp]:
  "admissionLater (a\<lparr> admCounters := c \<rparr>) b = admissionLater a b" "admissionLater a (b\<lparr> admCounters := c \<rparr>) = admissionLater a b"
  by (simp_all add: admissionLater_def)

lemma advances_counters [simp]:
  "advances budget (a\<lparr> admCounters := c \<rparr>) b = advances budget a b" "advances budget a (b\<lparr> admCounters := c \<rparr>) = advances budget a b"
  by (simp_all add: advances_def)

lemma advances_increment [simp]:
  "advances budget (increment f a) b = advances budget a b" "advances budget a (increment f b) = advances budget a b"
  by (simp_all add: increment_def)

lemma advances_peaks [simp]:
  "advances budget (updatePeaks a) b = advances budget a b" "advances budget a (updatePeaks b) = advances budget a b"
  by (simp_all add: updatePeaks_def)

lemma later_closing [simp]: "admissionLater a b \<Longrightarrow> admissionLater a (closeIfDrained b)"
  by (auto simp: admissionLater_def closeIfDrained_def)

lemma later_settled:
  assumes "i < length (admEntries a)" "live (admEntries a ! i)"
  shows "admissionLater a (settled i s terminal a)"
  using assms by (auto simp: admissionLater_def settled_def Let_def nth_list_update entryLater_def image_Un image_image)

lemma later_now: "admNow a \<le> now \<Longrightarrow> admissionLater a (a\<lparr> admNow := now \<rparr>)"
  by (simp add: admissionLater_def)

lemma later_operations [simp]: "admissionLater a (b\<lparr> admOperations := m \<rparr>) = admissionLater a b"
  by (simp add: admissionLater_def)

lemma advances_now: "admNow a \<le> now \<Longrightarrow> advances budget a (a\<lparr> admNow := now \<rparr>)"
  by (simp add: advances_def ok_now later_now)

lemma advances_kept: "i < length (admEntries a) \<Longrightarrow> live (admEntries a ! i) \<Longrightarrow> advances budget a (kept i s clock a)"
  unfolding advances_def kept_def
  using kept_ok [unfolded kept_def] later_trans [OF later_now [OF clock_later] later_closing [OF later_settled]] by simp

lemma advances_forgotten: "i < length (admEntries a) \<Longrightarrow> live (admEntries a ! i) \<Longrightarrow> advances budget a (forgotten i s a)"
  by (simp add: advances_def forgotten_ok) (simp add: forgotten_def later_settled)

lemma advances_forget:
  assumes "i < length (admEntries a)" "gone budget (admNow a) (admEntries a ! i)" "ownerOperation (admEntries a ! i) = k"
    "map_of (admOperations a) k = Some i"
  shows "advances budget a (a\<lparr> admOperations := mapDelete k (admOperations a) \<rparr>)"
  using forget_ok [OF _ assms] by (simp add: advances_def later_refl)

lemma advances_buckets:
  assumes "int (length m) \<le> int (length (admBuckets a)) \<or> int (length (admOperations a)) + int (length m) \<le> admissionMaxTrackedKeys budget"
  shows "advances budget a (a\<lparr> admBuckets := m \<rparr>)"
proof -
  let ?b = "a\<lparr> admBuckets := m \<rparr>"
  have "entriesOk ?b = entriesOk a" "claimsOk ?b = claimsOk a" "drainOk ?b = drainOk a" "answersOk ?b = answersOk a"
    "tableOk ?b = tableOk a" "onceOk budget ?b = onceOk budget a"
    by (simp_all add: admission_parts liveCount_def)
  moreover have "limitsOk budget a \<Longrightarrow> limitsOk budget ?b" using assms by (auto simp: limitsOk_def trackedKeys_def)
  ultimately show ?thesis by (simp add: advances_def admissionOk_def admissionLater_def)
qed

lemma advances_read: "advances budget a (snd (readNow clock a))"
  using read_cases [of clock a] advances_now [OF clock_later] by (metis advances_counters(2) snd_conv)

lemma prune_operations_advance:
  assumes "admissionOk budget a" "\<And>k i. (k, i) \<in> set rest \<Longrightarrow> map_of (admOperations a) k = Some i" "distinct (map fst rest)"
  shows "advances budget a (snd (pruneOperations (admNow a) (admissionStateTtl budget) rest a))"
  using assms
proof (induction rest arbitrary: a)
  case (Cons x rest)
  obtain k i where x [simp]: "x = (k, i)" by (cases x)
  let ?e = "admEntries a ! i" and ?b = "a\<lparr> admOperations := mapDelete k (admOperations a) \<rparr>"
  show ?case
  proof (cases "entrySettlement ?e \<noteq> None \<and> (case entryTerminal ?e of None \<Rightarrow> False | Some t \<Rightarrow> admNow a - t \<ge> admissionStateTtl budget)")
    case True
    have at: "map_of (admOperations a) k = Some i" using Cons.prems(2) by simp
    then have "i < length (admEntries a)" "ownerOperation ?e = k"
      using Cons.prems(1) by (auto simp: admissionOk_def tableOk_def dest!: map_of_SomeD)
    moreover from True have "gone budget (admNow a) ?e" by (auto simp: gone_def split: option.splits)
    ultimately have step: "advances budget a ?b" using at by (intro advances_forget)
    with Cons.prems(1) have "admissionOk budget ?b" by (simp add: advances_def)
    then have "advances budget ?b (snd (pruneOperations (admNow ?b) (admissionStateTtl budget) rest ?b))"
      using Cons.prems(2,3) by (intro Cons.IH) force+
    with step True show ?thesis by (auto simp: Let_def intro: advances_trans)
  next
    case False
    with Cons show ?thesis by (auto simp: Let_def)
  qed
qed simp

lemma prune_advances: "advances budget a (snd (prune budget (admNow a) a))"
proof (cases "admissionOk budget a")
  case True
  then have "distinct (map fst (admOperations a))" by (simp add: admissionOk_def tableOk_def)
  then have "advances budget a (snd (pruneOperations (admNow a) (admissionStateTtl budget) (admOperations a) a))"
    using True by (intro prune_operations_advance) simp_all
  then show ?thesis
    by (auto simp: prune_def split: prod.split sum.split intro!: advances_trans [OF _ advances_buckets])
qed (simp add: advances_def)

lemma charge_bucket_advances:
  assumes "actorKey \<in> set (map fst (admBuckets a))"
  shows "advances budget a (snd (chargeBucket budget actorKey now b a))"
proof -
  have "length (mapPut actorKey v (admBuckets a)) = length (admBuckets a)" for v using assms by (simp add: put_length)
  then show ?thesis by (simp add: chargeBucket_def Let_def advances_buckets)
qed

lemma charge_advances: "advances budget a (snd (chargeRate budget actorKey now a))"
proof (cases "map_of (admBuckets a) actorKey")
  case None
  then have new: "actorKey \<notin> set (map fst (admBuckets a))" by (simp add: map_of_eq_None_iff)
  let ?b = "updatePeaks (a\<lparr> admBuckets := mapPut actorKey \<lparr> bucketCount = 0, bucketLastSeen = now, bucketStarted = now \<rparr> (admBuckets a) \<rparr>)"
  have "actorKey \<in> set (map fst (admBuckets ?b))" using new by (simp add: mapPut_def updatePeaks_def)
  moreover have "\<not> admissionMaxTrackedKeys budget \<le> trackedKeys a \<Longrightarrow> advances budget a ?b"
    using new by (auto simp: trackedKeys_def put_length intro!: advances_buckets)
  ultimately have "\<not> admissionMaxTrackedKeys budget \<le> trackedKeys a \<Longrightarrow> advances budget a (snd (chargeBucket budget actorKey now b ?b))" for b
    using advances_trans charge_bucket_advances by blast
  then show ?thesis using None by (simp add: chargeRate_def capacityReached_def)
next
  case (Some b)
  then have "actorKey \<in> set (map fst (admBuckets a))" by (metis domI dom_map_of_conv_image_fst set_map)
  with Some show ?thesis by (simp add: chargeRate_def charge_bucket_advances)
qed

section \<open>Every call\<close>

lemma advances_replay:
  assumes "i < length (admEntries a)"
  shows "advances budget a (a\<lparr> admReplays := admReplays a @ [\<lparr> replayEntry = i, replayUsed = False \<rparr>] \<rparr>)"
proof -
  let ?b = "a\<lparr> admReplays := admReplays a @ [\<lparr> replayEntry = i, replayUsed = False \<rparr>] \<rparr>"
  have "answersOk a \<Longrightarrow> answersOk ?b" using assms by (auto simp: answersOk_def nth_append less_Suc_eq)
  moreover have "entriesOk ?b = entriesOk a" "claimsOk ?b = claimsOk a" "drainOk ?b = drainOk a" "limitsOk budget ?b = limitsOk budget a"
    "tableOk ?b = tableOk a" "onceOk budget ?b = onceOk budget a"
    by (simp_all add: admission_parts liveCount_def trackedKeys_def)
  ultimately show ?thesis by (simp add: advances_def admissionOk_def admissionLater_def nth_append)
qed

lemma known_advances:
  assumes "i < length (admEntries a)"
  shows "advances budget a (snd (beginKnown p i a))"
proof -
  have "advances budget a (snd (Inr d, b\<lparr> admReplays := admReplays b @ [\<lparr> replayEntry = i, replayUsed = False \<rparr>] \<rparr>))"
    if "b = increment f a" for b f d
    using advances_replay [of i b budget] assms that by (simp add: increment_def)
  then show ?thesis by (simp add: beginKnown_def Let_def)
qed

lemma new_entry_ok:
  assumes ok: "admissionOk budget a" and new: "map_of (admOperations a) k = None"
    and room: "trackedKeys a < admissionMaxTrackedKeys budget" "actorCount k' a < mutationMaxInFlightPerDevice budget"
      "admGlobal a < mutationMaxInFlightGlobal budget" "admPhase a = Phase_open"
    and e: "live e" "ownerOpen e" "entryTerminal e = None" "entryWaiters e = []" "entryTarget e = None" "ownerOperation e = k" "entryActor e = k'"
  shows "admissionOk budget (a\<lparr> admEntries := admEntries a @ [e], admOperations := mapPut k (length (admEntries a)) (admOperations a),
    admActors := mapPut k' (actorCount k' a + 1) (admActors a), admGlobal := admGlobal a + 1 \<rparr>)" (is "admissionOk budget ?b")
proof -
  have fresh: "k \<notin> set (map fst (admOperations a))" using new by (simp add: map_of_eq_None_iff)
  have count: "actorCount k' a = tally (admActors a) k'" by (simp add: actorCount_def tally_def)
  have put: "mapPut k i (admOperations a) = admOperations a @ [(k, i)]" for i using fresh by (simp add: mapPut_def)
  have "tableOk ?b"
    using ok fresh e(6) unfolding admissionOk_def tableOk_def
    by (auto simp: put nth_append map_add_def map_of_eq_None_iff less_Suc_eq split: option.splits) (metis fst_conv imageI)
  moreover have "entriesOk ?b" using ok e by (auto simp: admissionOk_def entriesOk_def)
  moreover have "claimsOk ?b" using ok e count by (auto simp: admissionOk_def claimsOk_def liveCount_def)
  moreover have "limitsOk budget ?b"
    using ok room count by (auto simp: admissionOk_def limitsOk_def trackedKeys_def put max_def split: if_splits)
  moreover have "drainOk ?b" using ok room(4) by (auto simp: admissionOk_def drainOk_def)
  moreover have "answersOk ?b" using ok e(4) by (auto simp: admissionOk_def answersOk_def nth_append less_Suc_eq)
  moreover have "onceOk budget ?b"
  proof -
    have "gone budget (admNow a) (admEntries a ! j)" if "j < length (admEntries a)" "ownerOperation (admEntries a ! j) = k" for j
      using ok that new unfolding admissionOk_def onceOk_def by fastforce
    then show ?thesis using ok e(6) unfolding admissionOk_def onceOk_def
      by (auto simp: nth_append less_Suc_eq)
  qed
  ultimately show ?thesis by (simp add: admissionOk_def)
qed

lemma new_advances:
  assumes "map_of (admOperations a) (parsedOperation p) = None" "admPhase a = Phase_open"
  shows "advances budget a (snd (beginNew budget p health a))"
proof -
  have later: "admissionLater a (a\<lparr> admEntries := admEntries a @ [e], admOperations := m, admActors := n, admGlobal := g \<rparr>)" for e m n g
    using assms(2) by (auto simp: admissionLater_def nth_append)
  have "\<exists>c. snd (admitHealth health a) = a\<lparr> admCounters := c \<rparr>"
    by (cases health) (auto simp: admitHealth_def healthFailure_def increment_def intro: exI [of _ "admCounters a"])
  then obtain c where health: "snd (admitHealth health a) = a\<lparr> admCounters := c \<rparr>" by blast
  show ?thesis
  proof (cases "admitHealth health a")
    case (Pair r b)
    with health have b: "b = a\<lparr> admCounters := c \<rparr>" by simp
    then have "trackedKeys b = trackedKeys a" "admGlobal b = admGlobal a" "admEntries b = admEntries a" "admActors b = admActors a"
      "admOperations b = admOperations a" "advances budget a b"
      by (simp_all add: trackedKeys_def)
    moreover have "advances budget a (a\<lparr> admEntries := admEntries a @ [createOwnerEntry p x],
        admOperations := mapPut (parsedOperation p) (length (admEntries a)) (admOperations a),
        admActors := mapPut (parsedActor p) (actorCount (parsedActor p) a + 1) (admActors a), admGlobal := admGlobal a + 1 \<rparr>)"
      if "trackedKeys a < admissionMaxTrackedKeys budget" "actorCount (parsedActor p) a < mutationMaxInFlightPerDevice budget"
        "admGlobal a < mutationMaxInFlightGlobal budget" for x
      unfolding advances_def using new_entry_ok [OF _ assms(1) that assms(2), of "createOwnerEntry p x"] later
      by (simp add: createOwnerEntry_def)
    moreover have "actorCount k b = actorCount k a" for k by (simp add: b actorCount_def)
    moreover have "b\<lparr> admEntries := x, admOperations := y, admActors := z, admGlobal := g \<rparr> =
        a\<lparr> admEntries := x, admOperations := y, admActors := z, admGlobal := g, admCounters := c \<rparr>" for x y z g
      unfolding b by (cases a) simp
    ultimately show ?thesis
      by (auto simp: beginNew_def capacityReached_def Pair Let_def not_le split: sum.split)
  qed
qed

lemma prune_operations_phase: "admPhase (snd (pruneOperations now ttl rest a)) = admPhase a"
  by (induction rest arbitrary: a) (auto simp: Let_def increment_def)

lemma prune_phase: "admPhase (snd (prune budget now a)) = admPhase a"
  using prune_operations_phase [of now "admissionStateTtl budget" "admOperations a" a]
  by (auto simp: prune_def split: prod.split sum.split)

lemma charge_phase: "admPhase (snd (chargeRate budget k now a)) = admPhase a"
  by (auto simp: chargeRate_def chargeBucket_def Let_def capacityReached_def increment_def updatePeaks_def split: option.split)

lemma begin_advances: "advances budget a (snd (beginAdmission budget originOk input clock health a))"
proof (cases "admissionOk budget a \<and> admPhase a = Phase_open")
  case True
  then have ok: "admissionOk budget a" and phase: "admPhase a = Phase_open" by simp_all
  note compose = advances_trans
  show ?thesis
  proof (cases "parseAdmissionInput (admissionLimits budget) originOk input")
    case (Some p)
    obtain r b where b: "readNow clock (increment nAttempts_update a) = (r, b)" by fastforce
    have 1: "advances budget a b" using advances_read [of budget "increment nAttempts_update a" clock] b by simp
    have nowb: "r = Inr now \<Longrightarrow> admNow b = now \<and> admPhase b = Phase_open" for now
      using b phase by (auto simp: readNow_def increment_def split: option.splits if_splits)
    show ?thesis
    proof (cases "\<exists>now. r = Inr now \<and> \<not> inputAborted input")
      case True
      then obtain now where r: "r = Inr now" "\<not> inputAborted input" by blast
      obtain q c where c: "prune budget now b = (q, c)" by fastforce
      have 2: "advances budget a c" using compose [OF 1] prune_advances [of budget b] c nowb [OF r(1)] by simp
      obtain u d where d: "chargeRate budget (parsedActor p) now c = (u, d)" by fastforce
      have 3: "advances budget a d" using compose [OF 2] charge_advances [of budget c "parsedActor p" now] d by simp
      have "advances budget a (snd (case map_of (admOperations d) (parsedOperation p) of
          Some i \<Rightarrow> beginKnown p i d | None \<Rightarrow> beginNew budget p health d))" if "admPhase d = Phase_open"
      proof (cases "map_of (admOperations d) (parsedOperation p)")
        case None
        with that show ?thesis using compose [OF 3 new_advances] by simp
      next
        case at: (Some i)
        then have "i < length (admEntries d)" using 3 ok by (auto simp: advances_def admissionOk_def tableOk_def dest!: map_of_SomeD)
        with at show ?thesis using compose [OF 3 known_advances] by simp
      qed
      moreover have "admPhase d = Phase_open"
        using nowb [OF r(1)] c d prune_phase [of budget now b] charge_phase [of budget "parsedActor p" now c] by simp
      ultimately show ?thesis using 1 2 3 phase Some b r c d
        by (auto simp: beginAdmission_def Let_def increment_def split: sum.split)
    next
      case False
      with 1 phase Some b show ?thesis by (auto simp: beginAdmission_def Let_def increment_def split: sum.split)
    qed
  qed (simp add: beginAdmission_def Let_def phase)
qed (auto simp: advances_def beginAdmission_def Let_def increment_def later_refl)

lemma same_counters [simp]: "a\<lparr> admCounters := admCounters a \<rparr> = (a :: admission)"
  by (cases a) simp

lemma retain_advances:
  assumes "i < length (admEntries a)" "live (admEntries a ! i)"
  shows "advances budget a (snd (retainSettlement i s clock (closeOwner i (a\<lparr> admCounters := c \<rparr>))))"
proof (cases "admissionOk budget a")
  case True
  with retain_kept [of a i s clock c] assms advances_kept [OF assms] show ?thesis by (auto simp: admissionOk_def)
qed (simp add: advances_def)

lemma retain_error_advances:
  assumes "i < length (admEntries a)" "live (admEntries a ! i)"
  shows "advances budget a (snd (retainError i e clock (closeOwner i (a\<lparr> admCounters := c \<rparr>))))"
  using retain_advances [OF assms, of budget "Settled_error e" clock c] by (auto simp: retainError_def split: prod.split sum.split)

lemma abandon_advances:
  assumes "i < length (admEntries a)" "live (admEntries a ! i)"
  shows "advances budget a (snd (abandonEntry i e (closeOwner i (a\<lparr> admCounters := c \<rparr>))))"
proof (cases "admissionOk budget a")
  case True
  with abandon_forgotten [of a i e c] assms advances_forgotten [OF assms] show ?thesis by (auto simp: admissionOk_def)
qed (simp add: advances_def)

lemmas ends = retain_advances retain_error_advances abandon_advances

lemma open_cases:
  obtains (refused) e where "requireOpen i a = (Inl e, increment nContractFailures_update a)"
  | (open_) "requireOpen i a = (Inr (), a)" "live (admEntries a ! i)" "ownerOpen (admEntries a ! i)"
  by (cases "live (admEntries a ! i) \<and> ownerOpen (admEntries a ! i)") (auto simp: requireOpen_def)

lemma complete_advances:
  assumes "i < length (admEntries a)"
  shows "advances budget a (snd (completeOwner budget i v clock a))"
proof (cases rule: open_cases [of i a])
  case (refused e)
  then show ?thesis by (simp add: completeOwner_def)
next
  case open_
  have kept_value: "advances budget a b" if "retainSettlement i s clock (closeOwner i a) = (r, b)" for s r b
    using retain_advances [OF assms open_(2), of budget s clock "admCounters a"] that by simp
  show ?thesis using open_ assms
    by (auto simp: completeOwner_def increment_def ends split: option.split prod.split sum.split dest: kept_value)
qed

lemma retainable_cases: "\<exists>e c. requireRetainableError error frozen a = (e, a\<lparr> admCounters := c \<rparr>)"
  by (cases frozen) (auto simp: requireRetainableError_def increment_def intro: exI [of _ "admCounters a"])

lemma fail_advances: "i < length (admEntries a) \<Longrightarrow> advances budget a (snd (failOwner i error frozen clock a))"
  using retainable_cases [of error frozen a]
  by (cases rule: open_cases [of i a]) (auto simp: failOwner_def increment_def ends)

lemma abandon_owner_advances: "i < length (admEntries a) \<Longrightarrow> advances budget a (snd (abandonOwner i error frozen a))"
  using retainable_cases [of error frozen a]
  by (cases rule: open_cases [of i a]) (auto simp: abandonOwner_def increment_def ends)

text \<open>The owner's mark and the waiters of an entry are not what the table and the claims are about.\<close>

lemma touch_parts:
  fixes c ws
  assumes "i < length (admEntries a)" "e = admEntries a ! i"
  defines "b \<equiv> a\<lparr> admEntries := (admEntries a)[i := e\<lparr> ownerChecked := c, entryWaiters := ws \<rparr>] \<rparr>"
  shows "tableOk b = tableOk a" "claimsOk b = claimsOk a" "limitsOk budget b = limitsOk budget a" "drainOk b = drainOk a"
    "onceOk budget b = onceOk budget a" "entriesOk a \<Longrightarrow> live e \<or> ws = [] \<Longrightarrow> entriesOk b"
proof -
  have at: "admEntries b ! j = (if j = i then e\<lparr> ownerChecked := c, entryWaiters := ws \<rparr> else admEntries a ! j)" for j
    using assms(1) by (simp add: b_def)
  have same: "live (admEntries b ! j) = live (admEntries a ! j)" "ownerOperation (admEntries b ! j) = ownerOperation (admEntries a ! j)"
    "gone budget n (admEntries b ! j) = gone budget n (admEntries a ! j)" for j n
    by (simp_all add: at assms(2) gone_def)
  have rest: "length (admEntries b) = length (admEntries a)" "admOperations b = admOperations a" "admNow b = admNow a"
    by (simp_all add: b_def)
  show "tableOk b = tableOk a" unfolding tableOk_def rest same ..
  show "onceOk budget b = onceOk budget a" unfolding onceOk_def rest same ..
  have "liveCount p b = liveCount p a" if "p (e\<lparr> ownerChecked := c, entryWaiters := ws \<rparr>) = p e" for p
    using count_update [OF assms(1), of "\<lambda>e. live e \<and> p e"] that assms(2) by (simp add: liveCount_def b_def)
  then show "claimsOk b = claimsOk a" by (simp add: claimsOk_def) (simp add: b_def)
  show "limitsOk budget b = limitsOk budget a" "drainOk b = drainOk a" by (simp_all add: limitsOk_def trackedKeys_def drainOk_def b_def)
  show "entriesOk a \<Longrightarrow> live e \<or> ws = [] \<Longrightarrow> entriesOk b"
  proof -
    assume entries: "entriesOk a" and ws: "live e \<or> ws = []"
    have "e \<in> set (admEntries a)" using assms(1,2) by simp
    with entries ws have "entriesOk (a\<lparr> admEntries := [e\<lparr> ownerChecked := c, entryWaiters := ws \<rparr>] \<rparr>)"
      by (fastforce simp: entriesOk_def)
    with entries show "entriesOk b" by (auto simp: entriesOk_def b_def dest!: set_update_subset_insert [THEN subsetD])
  qed
qed

lemma ready_advances:
  assumes "i < length (admEntries a)"
  shows "advances budget a (snd (assertReady i health a))"
proof -
  let ?e = "admEntries a ! i" and ?b = "updateEntry i (\<lambda>e. e\<lparr> ownerChecked := True \<rparr>) a"
  have b: "?b = a\<lparr> admEntries := (admEntries a)[i := ?e\<lparr> ownerChecked := True, entryWaiters := entryWaiters ?e \<rparr>] \<rparr>"
    by (cases ?e) (simp add: updateEntry_def)
  have "entriesOk a \<Longrightarrow> live ?e \<or> entryWaiters ?e = []" using nth_mem [OF assms] unfolding entriesOk_def by blast
  moreover have "answersOk a \<Longrightarrow> answersOk ?b" using assms
    by (auto simp: answersOk_def updateEntry_def nth_list_update split: if_splits)
  ultimately have "admissionOk budget a \<Longrightarrow> admissionOk budget ?b"
    unfolding admissionOk_def b using touch_parts [OF assms refl] by blast
  moreover have "admissionLater a ?b"
    using assms by (auto simp: admissionLater_def updateEntry_def nth_list_update entryLater_def)
  ultimately have "advances budget a ?b" by (simp add: advances_def)
  then show ?thesis
    by (cases rule: open_cases [of i a])
      (auto simp: assertReady_def Let_def healthFailure_def split: health_answer.split)
qed

lemma mark_answers:
  assumes "answersOk a" "j < length (admReplays a)"
  shows "answersOk (a\<lparr> admReplays := (admReplays a)[j := (admReplays a ! j)\<lparr> replayUsed := True \<rparr>] \<rparr>)"
  using assms by (auto simp: answersOk_def nth_list_update dest!: set_update_subset_insert [THEN subsetD] split: if_splits)

lemma mark_advances:
  assumes "j < length (admReplays a)"
  shows "advances budget a (a\<lparr> admReplays := (admReplays a)[j := (admReplays a ! j)\<lparr> replayUsed := True \<rparr>] \<rparr>)" (is "advances _ _ ?b")
proof -
  have "entriesOk ?b = entriesOk a" "claimsOk ?b = claimsOk a" "drainOk ?b = drainOk a" "limitsOk budget ?b = limitsOk budget a"
    "tableOk ?b = tableOk a" "onceOk budget ?b = onceOk budget a"
    by (simp_all add: admission_parts liveCount_def trackedKeys_def)
  then show ?thesis using mark_answers [OF _ assms] assms by (simp add: advances_def admissionOk_def admissionLater_def nth_list_update)
qed

lemma answers_waiters:
  assumes "answersOk a" "i < length (admEntries a)" "distinct ws"
    "\<forall>w \<in> set ws. w < length (admReplays a) \<and> replayUsed (admReplays a ! w) \<and> replayEntry (admReplays a ! w) = i \<and> w \<notin> set (map fst (admAnswers a))"
  shows "answersOk (a\<lparr> admEntries := (admEntries a)[i := (admEntries a ! i)\<lparr> ownerChecked := c, entryWaiters := ws \<rparr>] \<rparr>)" (is "answersOk ?b")
proof -
  have at: "admEntries ?b ! j = (if j = i then (admEntries a ! i)\<lparr> ownerChecked := c, entryWaiters := ws \<rparr> else admEntries a ! j)" for j
    using assms(2) by simp
  have same: "entrySettlement (admEntries ?b ! j) = entrySettlement (admEntries a ! j)"
    "entryWaiters (admEntries ?b ! j) = (if j = i then ws else entryWaiters (admEntries a ! j))" for j
    unfolding at by simp_all
  have rest: "length (admEntries ?b) = length (admEntries a)" "admAnswers ?b = admAnswers a" "admReplays ?b = admReplays a" by simp_all
  show ?thesis using assms(1,3,4) unfolding answersOk_def rest same by auto
qed

lemma wait_advances:
  assumes "j < length (admReplays a)" "replayEntry (admReplays a ! j) = i" "live (admEntries a ! i)" "\<not> replayUsed (admReplays a ! j)"
  shows "advances budget a (updateEntry i (\<lambda>e. e\<lparr> entryWaiters := entryWaiters e @ [j] \<rparr>)
    (a\<lparr> admReplays := (admReplays a)[j := (admReplays a ! j)\<lparr> replayUsed := True \<rparr>] \<rparr>))" (is "advances _ _ ?b")
proof (cases "admissionOk budget a")
  case True
  let ?e = "admEntries a ! i" and ?m = "a\<lparr> admReplays := (admReplays a)[j := (admReplays a ! j)\<lparr> replayUsed := True \<rparr>] \<rparr>"
  have ok: "admissionOk budget ?m" using mark_advances [OF assms(1), of budget] True by (simp add: advances_def)
  have i: "i < length (admEntries a)" using True assms(1,2) unfolding admissionOk_def answersOk_def by (metis nth_mem)
  have fresh: "j \<notin> set (entryWaiters ?e)" "j \<notin> set (map fst (admAnswers a))"
    using True assms(4) i by (auto simp: admissionOk_def answersOk_def)
  have b: "?b = ?m\<lparr> admEntries := (admEntries ?m)[i := ?e\<lparr> ownerChecked := ownerChecked ?e, entryWaiters := entryWaiters ?e @ [j] \<rparr>] \<rparr>"
    by (cases ?e) (simp add: updateEntry_def)
  have "answersOk ?m" using ok by (simp add: admissionOk_def)
  moreover have "w < length (admReplays ?m) \<and> replayUsed (admReplays ?m ! w) \<and> replayEntry (admReplays ?m ! w) = i \<and>
      w \<notin> set (map fst (admAnswers ?m))" if "w \<in> set (entryWaiters ?e @ [j])" for w
    using True i that assms(1,2) fresh(2) by (cases "w = j") (auto simp: admissionOk_def answersOk_def)
  moreover have "distinct (entryWaiters ?e @ [j])" using \<open>answersOk ?m\<close> i fresh(1) by (simp add: answersOk_def)
  ultimately have "answersOk ?b"
    unfolding b using i answers_waiters [where a = ?m and i = i and ws = "entryWaiters ?e @ [j]" and c = "ownerChecked ?e"] by simp
  then have "admissionOk budget ?b"
    using ok i assms(3) touch_parts [where i = i and a = ?m and e = ?e and c = "ownerChecked ?e" and ws = "entryWaiters ?e @ [j]"] unfolding admissionOk_def b by simp
  moreover have "admissionLater a ?b"
    using i assms(1) by (auto simp: admissionLater_def updateEntry_def nth_list_update entryLater_def)
  ultimately show ?thesis by (simp add: advances_def)
qed (simp add: advances_def)

lemma replay_advances:
  assumes "j < length (admReplays a)"
  shows "advances budget a (snd (replayCall j aborted a))"
  using mark_advances [OF assms, of budget] wait_advances [OF assms refl, of budget]
  by (auto simp: replayCall_def Let_def split: option.split)

lemma abort_advances:
  assumes "j < length (admReplays a)"
  shows "advances budget a (abortReplay j a)"
proof (cases "admissionOk budget a \<and> j \<in> set (entryWaiters (admEntries a ! replayEntry (admReplays a ! j)))")
  case True
  define i where "i = replayEntry (admReplays a ! j)"
  let ?e = "admEntries a ! i" and ?m = "a\<lparr> admAnswers := admAnswers a @ [(j, Settled_error requestAborted)] \<rparr>"
    and ?ws = "filter (\<lambda>w. w \<noteq> j) (entryWaiters (admEntries a ! i))"
  let ?b = "?m\<lparr> admEntries := (admEntries ?m)[i := ?e\<lparr> ownerChecked := ownerChecked ?e, entryWaiters := ?ws \<rparr>] \<rparr>"
  have i: "i < length (admEntries a)" using True assms unfolding admissionOk_def answersOk_def i_def by (metis nth_mem)
  have waits: "j \<in> set (entryWaiters ?e)" using True by (simp add: i_def)
  have once: "\<forall>k < length (admEntries a). k \<noteq> i \<longrightarrow> j \<notin> set (entryWaiters (admEntries a ! k))"
    using True by (auto simp: admissionOk_def answersOk_def i_def)
  have parts: "entriesOk ?m = entriesOk a" "claimsOk ?m = claimsOk a" "drainOk ?m = drainOk a" "limitsOk budget ?m = limitsOk budget a"
    "tableOk ?m = tableOk a" "onceOk budget ?m = onceOk budget a"
    by (simp_all add: admission_parts liveCount_def trackedKeys_def)
  have dead: "live ?e \<or> ?ws = []" using True nth_mem [OF i] by (auto simp: admissionOk_def entriesOk_def)
  have "answersOk a" using True by (simp add: admissionOk_def)
  then have "answersOk ?b" using i waits once unfolding answersOk_def
    by (auto simp: nth_list_update split: if_splits)
  then have "admissionOk budget ?b"
    using True i dead touch_parts [where i = i and a = ?m and e = ?e and c = "ownerChecked ?e" and ws = ?ws] parts unfolding admissionOk_def by simp
  moreover have "admissionLater a ?b" using i by (auto simp: admissionLater_def nth_list_update entryLater_def)
  moreover have "abortReplay j a = increment nReplayAborts_update ?b"
    using waits by (cases ?e) (simp add: abortReplay_def Let_def updateEntry_def flip: i_def)
  ultimately show ?thesis by (simp add: advances_def increment_def)
qed (auto simp: advances_def abortReplay_def Let_def later_refl)

lemma target_advances:
  assumes "i < length (admEntries a)" "live (admEntries a ! i)" "entryTarget (admEntries a ! i) = None"
    "tally (admTargets a) k < mutationMaxInFlightPerTarget budget"
  shows "advances budget a (updateEntry i (\<lambda>e. e\<lparr> entryTarget := Some k \<rparr>)
    (a\<lparr> admTargets := mapPut k (tally (admTargets a) k + 1) (admTargets a), admTargetClaims := admTargetClaims a + 1 \<rparr>))" (is "advances _ _ ?b")
proof -
  let ?e = "(admEntries a ! i)\<lparr> entryTarget := Some k \<rparr>"
  have at: "admEntries ?b ! j = (if j = i then ?e else admEntries a ! j)" for j
    using assms(1) by (simp add: updateEntry_def)
  have same: "entrySettlement (admEntries ?b ! j) = entrySettlement (admEntries a ! j)"
    "ownerOperation (admEntries ?b ! j) = ownerOperation (admEntries a ! j)" "entryWaiters (admEntries ?b ! j) = entryWaiters (admEntries a ! j)"
    "entryFingerprint (admEntries ?b ! j) = entryFingerprint (admEntries a ! j)"
    "gone budget n (admEntries ?b ! j) = gone budget n (admEntries a ! j)" for j n
    unfolding at by (simp_all add: gone_def)
  have rest: "length (admEntries ?b) = length (admEntries a)" "admOperations ?b = admOperations a" "admNow ?b = admNow a"
    "admAnswers ?b = admAnswers a" "admReplays ?b = admReplays a" "admPhase ?b = admPhase a"
    by (simp_all add: updateEntry_def)
  have "tableOk ?b = tableOk a" "onceOk budget ?b = onceOk budget a" "answersOk ?b = answersOk a"
    unfolding tableOk_def onceOk_def answersOk_def rest same by (rule refl)+
  moreover have "drainOk ?b = drainOk a" by (simp add: drainOk_def updateEntry_def)
  moreover have "limitsOk budget a \<Longrightarrow> limitsOk budget ?b"
    using assms(4) by (auto simp: limitsOk_def trackedKeys_def updateEntry_def)
  moreover have "entriesOk a \<Longrightarrow> entriesOk ?b"
  proof -
    assume entries: "entriesOk a"
    then have "entriesOk (a\<lparr> admEntries := [?e] \<rparr>)" using nth_mem [OF assms(1)] by (fastforce simp: entriesOk_def)
    with entries show "entriesOk ?b" by (auto simp: entriesOk_def updateEntry_def dest!: set_update_subset_insert [THEN subsetD])
  qed
  moreover have "claimsOk a \<Longrightarrow> claimsOk ?b"
  proof -
    have count: "liveCount p ?b = liveCount p a + (if p ?e then 1 else 0) - (if p (admEntries a ! i) then 1 else 0)" for p
      using count_update [OF assms(1), of "\<lambda>e. live e \<and> p e"] assms(2) by (simp add: liveCount_def updateEntry_def)
    have claims: "tally (admTargets ?b) k' = tally (admTargets a) k' + (if k' = k then 1 else 0)" "admTargetClaims ?b = admTargetClaims a + 1"
      "admActors ?b = admActors a" "admGlobal ?b = admGlobal a" for k'
      by (simp_all add: updateEntry_def)
    show "claimsOk a \<Longrightarrow> claimsOk ?b" unfolding claimsOk_def claims count using assms(3) by simp
  qed
  moreover have "admissionLater a ?b" by (simp add: admissionLater_def rest entryLater_def same)
  ultimately show ?thesis by (simp add: advances_def admissionOk_def)
qed

lemma bind_advances:
  assumes "i < length (admEntries a)"
  shows "advances budget a (snd (bindTarget budget i target clock a))"
proof (cases rule: open_cases [of i a])
  case (refused e)
  then show ?thesis by (simp add: bindTarget_def)
next
  case open_
  show ?thesis using open_ assms target_advances [OF assms open_(2), of _ budget]
    by (auto simp: bindTarget_def increment_def ends Let_def tally_def not_le split: option.split)
qed

lemma closing_drain: "(admPhase a = Phase_closed \<longrightarrow> admGlobal a = 0) \<Longrightarrow> (admDrainWaiters a \<noteq> [] \<longrightarrow> admPhase a = Phase_draining) \<Longrightarrow>
  ((\<exists>w. (w, True) \<in> set (admDrained a)) \<longrightarrow> admPhase a = Phase_closed) \<Longrightarrow> drainOk (closeIfDrained a)"
  by (auto simp: drainOk_def closeIfDrained_def)

lemma begin_drain_advances: "advances budget a (snd (beginDrain a))"
proof -
  let ?m = "if admPhase a = Phase_open then a\<lparr> admPhase := Phase_draining \<rparr> else a"
  have "entriesOk ?m = entriesOk a" "claimsOk ?m = claimsOk a" "answersOk ?m = answersOk a" "limitsOk budget ?m = limitsOk budget a"
    "tableOk ?m = tableOk a" "onceOk budget ?m = onceOk budget a"
    by (simp_all add: admission_parts liveCount_def trackedKeys_def)
  moreover have "drainOk a \<Longrightarrow> drainOk (closeIfDrained ?m)"
    by (intro closing_drain) (auto simp: drainOk_def split: if_splits)
  moreover have "admissionLater a (closeIfDrained ?m)" by (intro later_closing) (simp add: admissionLater_def)
  ultimately show ?thesis by (simp add: advances_def admissionOk_def beginDrain_def Let_def)
qed

lemma advances_drains:
  assumes "set ws \<subseteq> set (admDrainWaiters a) \<or> admPhase a = Phase_draining" "list_all (\<lambda>(w, through). through \<longrightarrow> admPhase a = Phase_closed) d"
  shows "advances budget a (a\<lparr> admDrains := n, admDrainWaiters := ws, admDrained := admDrained a @ d \<rparr>)" (is "advances _ _ ?b")
proof -
  have "entriesOk ?b = entriesOk a" "claimsOk ?b = claimsOk a" "answersOk ?b = answersOk a" "limitsOk budget ?b = limitsOk budget a"
    "tableOk ?b = tableOk a" "onceOk budget ?b = onceOk budget a"
    by (simp_all add: admission_parts liveCount_def trackedKeys_def)
  moreover have "drainOk a \<Longrightarrow> drainOk ?b" using assms by (auto simp: drainOk_def list_all_iff)
  ultimately show ?thesis by (simp add: advances_def admissionOk_def admissionLater_def)
qed

lemma advances_drained:
  assumes "through \<Longrightarrow> admPhase a = Phase_closed"
  shows "advances budget a (a\<lparr> admDrained := admDrained a @ [(w, through)] \<rparr>)"
proof -
  have "a\<lparr> admDrained := d \<rparr> = a\<lparr> admDrains := admDrains a, admDrainWaiters := admDrainWaiters a, admDrained := d \<rparr>" for d
    by (cases a) simp
  then show ?thesis using advances_drains [of "admDrainWaiters a" a "[(w, through)]" budget "admDrains a"] assms by simp
qed

lemma advances_drain_waiter:
  assumes "admPhase a = Phase_draining"
  shows "advances budget a (a\<lparr> admDrainWaiters := ws \<rparr>)"
proof -
  have "a\<lparr> admDrainWaiters := ws \<rparr> = a\<lparr> admDrains := admDrains a, admDrainWaiters := ws, admDrained := admDrained a @ [] \<rparr>"
    by (cases a) simp
  then show ?thesis using advances_drains [of ws a "[]" budget "admDrains a"] assms by simp
qed

lemma advances_numbered: "advances budget a (a\<lparr> admDrains := n \<rparr>)"
proof -
  have "a\<lparr> admDrains := n \<rparr> = a\<lparr> admDrains := n, admDrainWaiters := admDrainWaiters a, admDrained := admDrained a @ [] \<rparr>"
    by (cases a) simp
  then show ?thesis using advances_drains [of "admDrainWaiters a" a "[]" budget n] by simp
qed

lemma ok_closing: "admissionOk budget a \<Longrightarrow> closeIfDrained a = a"
  by (simp add: admissionOk_def drainOk_def closeIfDrained_def)

lemma drain_begun: "admPhase (snd (beginDrain a)) \<noteq> Phase_open"
  by (simp add: beginDrain_def Let_def closeIfDrained_def)

lemma drain_advances: "advances budget a (drain aborted a)"
proof (cases "admissionOk budget a")
  case True
  define b where "b = snd (beginDrain (a\<lparr> admDrains := Suc (admDrains a) \<rparr>))"
  have b: "advances budget a b" unfolding b_def by (rule advances_trans [OF advances_numbered begin_drain_advances])
  have phase: "admPhase b = Phase_draining \<or> admPhase b = Phase_closed"
    using drain_begun [of "a\<lparr> admDrains := Suc (admDrains a) \<rparr>"] by (cases "admPhase b") (simp_all add: b_def)
  show ?thesis
  proof (cases "admPhase b = Phase_closed \<or> aborted")
    case True
    have "advances budget a (b\<lparr> admDrained := admDrained b @ [(admDrains a, admPhase b = Phase_closed)] \<rparr>)"
      by (rule advances_trans [OF b advances_drained]) simp
    with True show ?thesis by (cases "admPhase b = Phase_closed") (simp_all add: drain_def Let_def flip: b_def)
  next
    case False
    with phase have draining: "admPhase b = Phase_draining" by simp
    let ?c = "b\<lparr> admDrainWaiters := admDrainWaiters b @ [admDrains a] \<rparr>"
    have c: "advances budget a ?c"
      by (rule advances_trans [OF b advances_drain_waiter [OF draining]])
    then have "closeIfDrained ?c = ?c" using True ok_closing by (auto simp: advances_def)
    with c draining False show ?thesis by (auto simp: drain_def Let_def simp flip: b_def)
  qed
qed (simp add: advances_def)

lemma abort_drain_advances: "advances budget a (abortDrain w a)"
proof -
  let ?ws = "filter (\<lambda>x. x \<noteq> w) (admDrainWaiters a)"
  have "a\<lparr> admDrainWaiters := ws, admDrained := d \<rparr> = a\<lparr> admDrains := admDrains a, admDrainWaiters := ws, admDrained := d \<rparr>" for ws d
    by (cases a) simp
  then show ?thesis using advances_drains [of ?ws a "[(w, False)]" budget "admDrains a"]
    by (simp add: abortDrain_def filter_is_subset)
qed

lemmas call_advances = begin_advances bind_advances ready_advances complete_advances fail_advances abandon_owner_advances
  replay_advances abort_advances begin_drain_advances drain_advances abort_drain_advances

lemma admission_step_advances: "advances budget a (admissionStep budget originOk call a)"
  by (cases call) (auto simp: call_advances)

interpretation admission: machine "admissionStep budget originOk" "admissionOk budget" admissionLater for budget originOk
  by unfold_locales (use admission_step_advances in \<open>auto simp: advances_def intro: later_refl later_trans\<close>)

lemma new_admission_ok: "admissionOk budget (newAdmission now)"
  by (simp add: newAdmission_def admissionOk_def admission_parts liveCount_def trackedKeys_def tally_def)

text \<open>A policy after any history of calls.\<close>

definition runAdmission :: "admission_budget \<Rightarrow> (js_string \<Rightarrow> bool) \<Rightarrow> rat \<Rightarrow> admission_call list \<Rightarrow> admission" where
  "runAdmission budget originOk now calls = runSteps (admissionStep budget originOk) calls (newAdmission now)"

lemma run_admission_ok: "admissionOk budget (runAdmission budget originOk now calls)"
  unfolding runAdmission_def by (rule admission.run_ok [OF new_admission_ok])

lemma run_admission_later:
  "admissionLater (runAdmission budget originOk now calls) (runAdmission budget originOk now (calls @ rest))"
  unfolding runAdmission_def runSteps_simps
  by (rule admission.run_later [OF run_admission_ok [unfolded runAdmission_def]])

end
