(* ===== verification/Admission_Properties.thy ===== *)
theory Admission_Properties
  imports Admission_Laws
begin

text \<open>What the admission policy promises over every history of calls, and the histories the promises are tried on.\<close>

abbreviation liveWith :: "(admission_entry \<Rightarrow> bool) \<Rightarrow> admission \<Rightarrow> int" where
  "liveWith p a \<equiv> int (length (filter (\<lambda>e. entrySettlement e = None \<and> p e) (admEntries a)))"

text \<open>C11: the limits hold after every history. The counters of the policy are the numbers of owners that have
  not settled, in total, of each actor and on each target; none exceeds its limit, and the table and
  the rate buckets together stay under theirs.\<close>

theorem owners_within_limits:
  "let a = runAdmission budget originOk now calls in
    admGlobal a = liveWith (\<lambda>_. True) a \<and> liveWith (\<lambda>_. True) a \<le> max 0 (mutationMaxInFlightGlobal budget) \<and>
    actorCount k a = liveWith (\<lambda>e. entryActor e = k) a \<and>
    liveWith (\<lambda>e. entryActor e = k) a \<le> max 0 (mutationMaxInFlightPerDevice budget) \<and>
    admTargetClaims a = liveWith (\<lambda>e. entryTarget e \<noteq> None) a \<and>
    liveWith (\<lambda>e. entryTarget e = Some t) a \<le> max 0 (mutationMaxInFlightPerTarget budget) \<and>
    trackedKeys a \<le> max 0 (admissionMaxTrackedKeys budget)"
proof -
  define a where "a = runAdmission budget originOk now calls"
  have ok: "claimsOk a" "limitsOk budget a" using run_admission_ok unfolding a_def admissionOk_def by blast+
  have claims: "admGlobal a = liveWith (\<lambda>_. True) a" "admTargetClaims a = liveWith (\<lambda>e. entryTarget e \<noteq> None) a"
    "tally (admActors a) k = liveWith (\<lambda>e. entryActor e = k) a" "tally (admTargets a) t = liveWith (\<lambda>e. entryTarget e = Some t) a"
    using ok(1) unfolding claimsOk_def liveCount_def by blast+
  have "admGlobal a \<le> max 0 (mutationMaxInFlightGlobal budget)" "trackedKeys a \<le> max 0 (admissionMaxTrackedKeys budget)"
    "tally (admActors a) k \<le> max 0 (mutationMaxInFlightPerDevice budget)"
    "tally (admTargets a) t \<le> max 0 (mutationMaxInFlightPerTarget budget)"
    using ok(2) unfolding limitsOk_def by blast+
  moreover have "actorCount k a = tally (admActors a) k" by (simp add: actorCount_def tally_def)
  ultimately show ?thesis using claims unfolding a_def [symmetric] Let_def by presburger
qed

text \<open>C10: an operation runs once. After every history, of all the owners that were ever admitted under one
  operation id at most one still stands for it: every other has settled, and was abandoned or settled
  at least the retention time ago. So a repeated request never runs beside the first one, nor again
  before its result may be forgotten.\<close>

theorem operation_runs_once:
  "distinct (map ownerOperation (filter
     (\<lambda>e. \<not> gone budget (admNow (runAdmission budget originOk now calls)) e)
     (admEntries (runAdmission budget originOk now calls))))"
proof -
  define a where "a = runAdmission budget originOk now calls"
  have once: "\<And>i j. i < length (admEntries a) \<Longrightarrow> j < i \<Longrightarrow>
      ownerOperation (admEntries a ! j) = ownerOperation (admEntries a ! i) \<Longrightarrow> gone budget (admNow a) (admEntries a ! j)"
    using run_admission_ok [of budget originOk now calls] unfolding a_def admissionOk_def onceOk_def by blast
  have "distinct (map f (filter p xs))" if "\<And>i j. i < length xs \<Longrightarrow> j < i \<Longrightarrow> f (xs ! j) = f (xs ! i) \<Longrightarrow> \<not> p (xs ! j)"
    for f :: "admission_entry \<Rightarrow> js_string" and p xs
    using that
  proof (induction xs)
    case (Cons x xs)
    have "f x \<noteq> f y" if "y \<in> set xs" "p x" for y
      using that Cons.prems [of "Suc i" 0 for i] by (force simp: in_set_conv_nth)
    moreover have "distinct (map f (filter p xs))" using Cons.prems [of "Suc i" "Suc j" for i j] by (intro Cons.IH) force
    ultimately show ?case by force
  qed simp
  from this [of "admEntries a" ownerOperation "\<lambda>e. \<not> gone budget (admNow a) e"] once show ?thesis by (simp add: a_def)
qed

lemma only_answer: "(w, t) \<in> set xs \<Longrightarrow> distinct (map fst xs) \<Longrightarrow> filter (\<lambda>(w', _). w' = w) xs = [(w, t)]"
  by (induction xs) (force simp: filter_empty_conv)+

text \<open>C12: every waiting replay is answered exactly once. A replay that waits on an owner at some time has, whenever
  that owner has settled, been told exactly one thing: the owner's settlement, or that its own signal aborted.\<close>

theorem waiting_replays_are_answered:
  assumes "i < length (admEntries (runAdmission budget originOk now calls))"
    and "w \<in> set (entryWaiters (admEntries (runAdmission budget originOk now calls) ! i))"
    and "entrySettlement (admEntries (runAdmission budget originOk now (calls @ rest)) ! i) = Some s"
  shows "\<exists>t. filter (\<lambda>(w', _). w' = w) (admAnswers (runAdmission budget originOk now (calls @ rest))) = [(w, t)] \<and>
    (t = s \<or> t = Settled_error requestAborted)"
proof -
  define a b where "a = runAdmission budget originOk now calls" and "b = runAdmission budget originOk now (calls @ rest)"
  have later: "admissionLater a b" and ok: "admissionOk budget a" "admissionOk budget b"
    unfolding a_def b_def by (rule run_admission_later run_admission_ok)+
  have i: "i < length (admEntries a)" "i < length (admEntries b)" "w \<in> set (entryWaiters (admEntries a ! i))"
    "entrySettlement (admEntries b ! i) = Some s"
    using assms later by (auto simp: a_def b_def admissionLater_def)
  have "entryWaiters (admEntries b ! i) = []" using ok(2) i(2,4) nth_mem [OF i(2)] unfolding admissionOk_def entriesOk_def by auto
  moreover have "entryLater (fst ` set (admAnswers b)) (admEntries a ! i) (admEntries b ! i)"
    using later i(1) unfolding admissionLater_def by blast
  ultimately obtain t where t: "(w, t) \<in> set (admAnswers b)" using i(3) by (auto simp: entryLater_def)
  have "w < length (admReplays a) \<and> replayEntry (admReplays a ! w) = i" using ok(1) i(1,3) unfolding admissionOk_def answersOk_def by blast
  then have entry: "replayEntry (admReplays b ! w) = i" using later by (simp add: admissionLater_def)
  have told: "t' = s \<or> t' = Settled_error requestAborted" if "(w, t') \<in> set (admAnswers b)" for t'
  proof -
    have "answersOk b" using ok(2) by (simp add: admissionOk_def)
    then have "t' = Settled_error requestAborted \<or> entrySettlement (admEntries b ! replayEntry (admReplays b ! w)) = Some t'"
      using that unfolding answersOk_def by blast
    then show ?thesis unfolding entry i(4) by blast
  qed
  have "distinct (map fst (admAnswers b))" using ok(2) by (simp add: admissionOk_def answersOk_def)
  with t have "filter (\<lambda>(w', _). w' = w) (admAnswers b) = [(w, t)]"
    by (rule only_answer)
  with told [OF t] show ?thesis by (auto simp: b_def)
qed

text \<open>A request of the host itself, begun twice; the second one waits and the first is abandoned.\<close>

definition sampleBudget :: admission_budget where
  "sampleBudget =
     \<lparr> mutationWindow = 10, mutationMaxRequestsPerDevice = 5, mutationMaxInFlightPerDevice = 2, mutationMaxInFlightPerTarget = 1,
       mutationMaxInFlightGlobal = 2, admissionMaxTrackedKeys = 8, admissionStateTtl = 100, admissionLimits = sampleLimits \<rparr>"

definition sampleRequest :: admission_input where
  "sampleRequest =
     \<lparr> inputOperation = js ''op_sample_0001'',
       inputActor = Data_object [(js ''type'', Data_text (js ''system'')), (js ''device_id'', Data_null), (js ''permission'', Data_null),
         (js ''origin'', Data_null)],
       inputRoute = js ''prompt'', inputIntent = Data_null, inputAborted = False \<rparr>"

lemma sample_parses: "\<exists>p. parseAdmissionInput sampleLimits (\<lambda>_. False) sampleRequest = Some p"
  by (simp add: sampleRequest_def parseAdmissionInput_def parseClientOperationId_def clientOperationIdPattern_def routeIdPattern_def
      clone_normal canonicalDigest_def evaluate_canonical selectedAuditActorOk_def strictObject_def memberOf_def textOk_def nullableOk_def
      guard_def isLower_def isDigit_def idTail_def startsWith_def insert_commute)

lemmas evaluate_admission =
  runAdmission_def newAdmission_def beginAdmission_def readNow_def prune_def chargeRate_def chargeBucket_def beginKnown_def beginNew_def
  capacityReached_def actorCount_def admitHealth_def createOwnerEntry_def replayCall_def abandonOwner_def requireOpen_def closeOwner_def
  requireRetainableError_def abandonEntry_def staleEntry_def releaseOwner_def settleWaiters_def takeOne_def closeIfDrained_def
  increment_def updatePeaks_def updateEntry_def trackedKeys_def activeWaiterCount_def mapPut_def mapDelete_def

theorem waiting_replays_are_answered_witness:
  "\<exists>t. filter (\<lambda>(w', _). w' = 0) (admAnswers (runAdmission sampleBudget (\<lambda>_. False) 0
      ([Begin_call sampleRequest (Some 1) Health_absent, Begin_call sampleRequest (Some 2) Health_absent, Replay_call 0 False] @
       [Abandon_call 0 7 True]))) = [(0, t)] \<and> (t = Settled_error (Owner_failure 7) \<or> t = Settled_error requestAborted)"
proof (rule waiting_replays_are_answered [of 0])
  obtain p where p: "parseAdmissionInput sampleLimits (\<lambda>_. False) sampleRequest = Some p" using sample_parses by blast
  have free: "\<not> inputAborted sampleRequest" by (simp add: sampleRequest_def)
  note run = p free sampleBudget_def evaluate_admission
  let ?calls = "[Begin_call sampleRequest (Some 1) Health_absent, Begin_call sampleRequest (Some 2) Health_absent, Replay_call 0 False]"
  show "0 < length (admEntries (runAdmission sampleBudget (\<lambda>_. False) 0 ?calls))" by (simp add: run)
  show "0 \<in> set (entryWaiters (admEntries (runAdmission sampleBudget (\<lambda>_. False) 0 ?calls) ! 0))" by (simp add: run)
  show "entrySettlement (admEntries (runAdmission sampleBudget (\<lambda>_. False) 0 (?calls @ [Abandon_call 0 7 True])) ! 0) =
      Some (Settled_error (Owner_failure 7))" by (simp add: run)
qed

text \<open>C13: a drain admits nobody and ends with the last owner. Whatever is called after a drain has begun, no owner is
  admitted, and the policy is closed exactly when every owner has settled; until then it drains. No
  drain is let through before it is closed.\<close>

theorem drain_waits_for_owners:
  "let b = runAdmission budget originOk now (calls @ Begin_drain_call # rest) in
    length (admEntries b) = length (admEntries (runAdmission budget originOk now calls)) \<and>
    admPhase b = (if list_all (\<lambda>e. entrySettlement e \<noteq> None) (admEntries b) then Phase_closed else Phase_draining) \<and>
    (filter snd (admDrained b) = [] \<or> admPhase b = Phase_closed)"
proof -
  define b where "b = runAdmission budget originOk now (calls @ Begin_drain_call # rest)"
  define a m where "a = runAdmission budget originOk now calls" and "m = runAdmission budget originOk now (calls @ [Begin_drain_call])"
  have m: "m = snd (beginDrain a)" by (simp add: m_def a_def runAdmission_def)
  have "admissionLater m b" unfolding m_def b_def using run_admission_later [of _ _ _ "calls @ [Begin_drain_call]" rest] by simp
  moreover have "admPhase m \<noteq> Phase_open" unfolding m by (rule drain_begun)
  ultimately have b: "admPhase b \<noteq> Phase_open" "length (admEntries b) = length (admEntries m)" by (simp_all add: admissionLater_def)
  have ok: "drainOk b" "claimsOk b" using run_admission_ok unfolding b_def admissionOk_def by blast+
  have "admGlobal b = 0 \<longleftrightarrow> list_all (\<lambda>e. entrySettlement e \<noteq> None) (admEntries b)"
    using ok(2) by (auto simp: claimsOk_def liveCount_def filter_empty_conv list_all_iff)
  moreover have "length (admEntries m) = length (admEntries a)" by (simp add: m beginDrain_def Let_def)
  ultimately show ?thesis using ok(1) b by (cases "admPhase b") (auto simp: Let_def drainOk_def filter_empty_conv simp flip: a_def b_def)
qed

end
