(* ===== verification/Spec2Isabelle.thy ===== *)
theory Spec2Isabelle
  imports Identifiers Iso_Timestamp Selected_Runtime Remote_Ingress Error_Envelope Deadline
    List_Cursors Machine Fanout_Hub Cli_Command_Lines Projection_Reducer_Laws Projection_Pipeline Replay_Handoff_Laws Guess_Bound
    Admission_Properties
begin

text \<open>
  HostDeck keeps Codex sessions of one host and lets paired devices watch and steer them. A local
  daemon (\<open>packages/server\<close>) follows the Codex app-server (\<open>packages/codex-adapter\<close>), reduces its
  events to one projection and one event log for each managed session, stores both in SQLite
  (\<open>packages/storage\<close>), and streams the logs to browsers; \<open>packages/core\<close> and \<open>packages/contracts\<close>
  hold the vocabulary and the schemas every process shares, \<open>packages/cli\<close> the command line. This
  library models the parts below and proves what makes them correct. A definition has the name of
  the function, type or schema it models wherever Isabelle allows it.

  \<^bold>\<open>Conventions.\<close> \<open>Prelude\<close> has the values of the source language: a string is its list of UTF-16
  code units, a number that is an integer in the source an \<open>int\<close> with its bounds written out, a
  thrown error the \<open>Inl\<close> of a sum. \<open>Machine\<close> has the locale of the components with a state: a step
  over operations, an invariant, and a relation between earlier and later states, carried over any
  sequence of operations; the hub, the deadlines, the repository, the projection service, the trust
  tables and the admission policy interpret it on their own steps. Arguments that the source checks to be plain objects
  with exact keys are typed records here, so those checks have no counterpart.

  \<^bold>\<open>Core and contracts.\<close>
  \<^item> \<open>Identifiers\<close>, \<open>Iso_Timestamp\<close>: \<open>core/src/identifiers.ts\<close>. Accepted values are in normal
    form; every instant of a four-digit year has one text.
  \<^item> \<open>Selected_Runtime\<close>: \<open>core/src/selected-runtime.ts\<close>. The transition tables and who may write.
  \<^item> \<open>Remote_Ingress\<close>: \<open>core/src/remote-ingress.ts\<close>. The decision fails closed.
  \<^item> \<open>Error_Envelope\<close>: \<open>core/src/errors.ts\<close>. An envelope is bounded, has no sensitive details and
    survives its round trip.
  \<^item> \<open>Deadline\<close>: \<open>core/src/deadline.ts\<close>, with clock readings, listener failures and timers as
    arguments of the steps. Resources are released once, the first reason stays, and the budget is
    never exceeded.
  \<^item> \<open>List_Cursors\<close>: \<open>contracts/src/device-listing.ts\<close> and \<open>selected-session-read.ts\<close>. Cursors and
    keys are in bijection.
  \<^item> \<open>Projection_Contract\<close>, \<open>Event_Json\<close>, \<open>Codex_Event\<close>: the schemas of sessions, events and
    records, the JSON text of an event and its length, and the normalized events of the adapter.

  \<^bold>\<open>The projection path\<close>, from an event of the app-server to the reader.
  \<^item> \<open>Projection_Reducer\<close> (\<open>server/src/codex-projection-reducer.ts\<close>) and its laws: the next session and
    the event to append satisfy their contracts.
  \<^item> \<open>State_Repository\<close> (\<open>storage/src/selected-state-repository.ts\<close>): the tables as lists of rows, one
    definition for each statement and one for each operation. \<open>State_Repository_Laws\<close> has the
    invariant (one projection for each session, logs contiguous, counters exact),
    \<open>Repository_Readable\<close> that what is written can be read, \<open>Retention_Bounds\<close> and
    \<open>Append_Commits\<close> what retention guarantees and when an append commits, \<open>Session_Log\<close> the abstract
    log the repository refines, \<open>Repository_Histories\<close>, \<open>Repository_Properties\<close> and
    \<open>Repository_Samples\<close> the properties and the databases they are applied to, \<open>Repository_Replay\<close>
    that pages of a log are parts of it.
  \<^item> \<open>Append_Port\<close> (\<open>storage/src/projection-append-port.ts\<close>) and \<open>Projection_Service\<close>
    (\<open>server/src/codex-projection-service.ts\<close>) compose reducer, repository and hub;
    \<open>Projection_Pipeline\<close> states what the composition guarantees: events are committed in order, a
    failure is final, and what makes it fail.
  \<^item> \<open>Fanout_Hub\<close> (\<open>server/src/projection-fanout-hub.ts\<close>): subscribers, their queues and callbacks
    that call the hub again.
  \<^item> \<open>Replay_Handoff\<close> (\<open>server/src/projection-replay-live-handoff.ts\<close>) and \<open>Replay_Handoff_Laws\<close>: one
    reader's replay of the stored log and its change to live events. The stream has no gap and no
    event twice, and the replay ends with the log. \<open>replayLoop\<close> pages through the log without a
    bound of its own (a \<open>partial_function\<close>, and proved to return); the attempts against retention
    are the source's 32, the pages its 500 events.

  \<^bold>\<open>Devices.\<close>
  \<^item> \<open>Auth_Devices\<close> (\<open>storage/src/auth-repository.ts\<close>, \<open>selected-device-revocation-repository.ts\<close>) and
    \<open>Pairing_Codes\<close> (\<open>storage/src/selected-pairing-repository.ts\<close>), over the hash of \<open>Sha256\<close>. What the
    generators of secrets return is an argument. \<open>Trust_Histories\<close> has the operations as one machine
    and what never changes back, \<open>Trust_Properties\<close> that a code is claimed once, that what is revoked
    stays out and what is claimed gets in, \<open>Guess_Bound\<close> how often a history can guess wrong,
    \<open>Trust_Samples\<close> the history of the witnesses.

  \<^bold>\<open>Admission of mutations\<close> (\<open>server/src/selected-write-admission-policy.ts\<close>).
  \<^item> \<open>Canonical_Data\<close>: the bounded canonical text of untyped data, its digest (\<open>Sha256\<close>) and the frozen
    copy. \<open>Canonical_Laws\<close>: equal bytes are equal data, up to the order of fields; strings with lone
    surrogates are the exception.
  \<^item> \<open>Write_Admission\<close>: the policy. Entries live in a store, as the table, the owner and the replays
    share them; a call of the policy, an owner or a replay is one step; promises are answers in a log.
    \<open>Admission_Laws\<close> has the invariant and what never changes back, \<open>Admission_Properties\<close> that an
    operation runs once, that limits hold, that replays are answered and that drains end. Times are
    exact rationals, so a difference of two readings is not rounded.

  \<^bold>\<open>The command line.\<close> \<open>Cli_Parser\<close> (\<open>cli/src/parser.ts\<close>) is the whole parser, \<open>Cli_Command_Lines\<close> what it
  returns: well-formed commands, confirmations of the destructive ones, and the round trip from a
  command to a line and back.

  \<^bold>\<open>Bounds.\<close> No definition has fuel: loops are structural recursions, recursions on a decreasing
  count that the source itself has, or the one partial function above. SQLite statements are
  functions on lists of rows; transactions are all or nothing. The recursion of reentrant callbacks
  runs along the finite script of calls that a subscriber or sink makes.

  \<^bold>\<open>Not modelled.\<close> Schemas no modelled component reads; reflection on untyped objects; the text of
  migrations; file systems, sockets, processes and the external programs (Codex app-server,
  Tailscale, systemd); HTTP routes and their composition; the rendering of the command line; the
  browser client. They either have no state of their own that the parts above rest on, or their
  behaviour is that of code outside this repository. The manifest lists them one by one.
\<close>

end
